(* ===== verification/Prelude.thy ===== *)
theory Prelude
  imports Complex_Main "HOL-Library.Word" "HOL-Library.List_Lexorder" "HOL-Library.Char_ord"
    "HOL-Library.Sublist"
begin

text \<open>
  Shared vocabulary of the development: the theorem collections the component
  theories extend, Go's maps as key-sorted association lists with their laws, Go's
  byte strings and the few functions of the packages \<open>strings\<close>, \<open>sort\<close> and
  \<open>unicode/utf8\<close> that the sources call.
\<close>

section \<open>Theorem collections\<close>

named_theorems gomap_simps \<open>equations of lookup, insertion and deletion on Go maps\<close>
named_theorems wf_intros \<open>introduction rules of the well-formedness invariants\<close>

section \<open>Go maps\<close>

text \<open>
  A Go map with keys of a linearly ordered type is a list of bindings in strictly
  ascending key order. The representation is canonical: two well-formed lists are
  equal exactly when they hold the same bindings, so that Go's deep equality is
  equality. Go iterates over a map in an arbitrary order; the model iterates in key
  order, and every use is one whose result does not depend on the order.
\<close>

type_synonym ('k, 'v) gomap = "('k \<times> 'v) list"

fun mput :: "'k::linorder \<Rightarrow> 'v \<Rightarrow> ('k, 'v) gomap \<Rightarrow> ('k, 'v) gomap" where
  "mput k v [] = [(k, v)]"
| "mput k v ((j, w) # m) =
     (if k < j then (k, v) # (j, w) # m
      else if k = j then (k, v) # m
      else (j, w) # mput k v m)"

definition mdel :: "'k \<Rightarrow> ('k, 'v) gomap \<Rightarrow> ('k, 'v) gomap" where
  "mdel k m = filter (\<lambda>p. fst p \<noteq> k) m"

abbreviation mget :: "('k, 'v) gomap \<Rightarrow> 'k \<Rightarrow> 'v option" where
  "mget \<equiv> map_of"

definition mkeys :: "('k, 'v) gomap \<Rightarrow> 'k list" where
  "mkeys m = map fst m"

definition mhas :: "('k, 'v) gomap \<Rightarrow> 'k \<Rightarrow> bool" where
  "mhas m k \<longleftrightarrow> mget m k \<noteq> None"

definition mwf :: "('k::linorder, 'v) gomap \<Rightarrow> bool" where
  "mwf m \<longleftrightarrow> sorted_wrt (<) (map fst m)"

lemma mwf_Nil [simp, wf_intros]: "mwf []"
  by (simp add: mwf_def)

lemma mwf_Cons: "mwf ((k, v) # m) \<longleftrightarrow> (\<forall>j \<in> fst ` set m. k < j) \<and> mwf m"
  by (auto simp: mwf_def)

lemma mget_mput [simp, gomap_simps]:
  "mget (mput k v m) j = (if j = k then Some v else mget m j)"
  by (induction m) auto

lemma keys_mput [simp]: "fst ` set (mput k v m) = insert k (fst ` set m)"
proof (induction m)
  case (Cons p m)
  then show ?case by (cases p) auto
qed (simp_all add: mwf_def)

lemma mwf_mput [simp, wf_intros]: "mwf m \<Longrightarrow> mwf (mput k v m)"
proof (induction m)
  case (Cons p m)
  obtain j w where p: "p = (j, w)" by (cases p)
  with Cons.prems have less: "\<forall>i \<in> fst ` set m. j < i" and "mwf m"
    by (simp_all add: mwf_Cons)
  with Cons.IH p show ?case
    by (cases k j rule: linorder_cases)
      (simp_all add: mwf_Cons del: image_iff ball_simps, use less in \<open>force+\<close>)
qed (simp_all add: mwf_def)

lemma mget_mdel [simp, gomap_simps]: "mget (mdel k m) j = (if j = k then None else mget m j)"
  by (induction m) (auto simp: mdel_def)

lemma keys_mdel [simp]: "fst ` set (mdel k m) = fst ` set m - {k}"
  by (auto simp: mdel_def)

lemma mwf_mdel [simp, wf_intros]: "mwf m \<Longrightarrow> mwf (mdel k m)"
  by (induction m) (auto simp: mwf_Cons mdel_def)

lemma mget_None_iff: "mget m k = None \<longleftrightarrow> k \<notin> fst ` set m"
  by (induction m) auto

lemma mget_smaller_None: "mwf ((j, w) # m) \<Longrightarrow> k \<le> j \<Longrightarrow> mget m k = None"
  by (force simp: mwf_Cons mget_None_iff)

lemma mwf_distinct: "mwf m \<Longrightarrow> distinct (map fst m)"
  by (simp add: mwf_def strict_sorted_iff)

lemma mget_iff_set: "mwf m \<Longrightarrow> mget m k = Some v \<longleftrightarrow> (k, v) \<in> set m"
  by (simp add: mwf_distinct)

lemma map_fst_set_unique:
  "map fst xs = map fst ys \<Longrightarrow> set xs = set ys \<Longrightarrow> distinct (map fst xs) \<Longrightarrow> xs = ys"
  by (metis distinct_map inj_on_map_eq_map sup.idem)

text \<open>Canonicity: a well-formed map is determined by its lookup function.\<close>

lemma mwf_ext: "mwf m \<Longrightarrow> mwf m' \<Longrightarrow> mget m = mget m' \<Longrightarrow> m = m'"
proof -
  assume wf: "mwf m" "mwf m'" and eq: "mget m = mget m'"
  from wf have "set m = set m'"
    using eq mget_iff_set by (metis subsetI subset_antisym surj_pair)
  moreover from this have "map fst m = map fst m'"
    using wf strict_sorted_equal [of "map fst m" "map fst m'"] by (simp add: mwf_def)
  ultimately show "m = m'"
    using wf by (intro map_fst_set_unique) (simp_all add: mwf_distinct)
qed

lemma mput_same: "mwf m \<Longrightarrow> mget m k = Some v \<Longrightarrow> mput k v m = m"
  by (rule mwf_ext) auto

lemma mput_mput [simp]: "mput k v (mput k w m) = mput k v m"
  by (induction m) auto

lemma mdel_mput: "mwf m \<Longrightarrow> mdel k (mput k v m) = mdel k m"
  by (rule mwf_ext) auto

lemma mdel_absent: "mget m k = None \<Longrightarrow> mdel k m = m"
  by (auto simp: mdel_def mget_None_iff filter_id_conv)

lemma mput_neq_Nil [simp]: "mput k v m \<noteq> []"
  by (cases "(k, v, m)" rule: mput.cases) auto

lemma mget_empty_iff: "m = [] \<longleftrightarrow> mget m = (\<lambda>_. None)"
  by (cases m) (auto simp: fun_eq_iff split: if_splits)

end
