(* ===== verification/Go_Lib.thy ===== *)
theory Go_Lib
  imports Prelude
begin

text \<open>
  The functions of Go's standard library that the modelled sources call: the package
  \<open>strings\<close> on byte strings, UTF-8 decoding and encoding of runes (package
  \<open>unicode/utf8\<close> and \<open>strings.Builder.WriteRune\<close>), and the binary search
  \<open>sort.Search\<close>. A Go string is a sequence of bytes, here a list of 8-bit characters;
  a rune is an integer.
\<close>

section \<open>Package strings\<close>

definition HasPrefix :: "string \<Rightarrow> string \<Rightarrow> bool" where
  "HasPrefix s p \<longleftrightarrow> prefix p s"

definition HasSuffix :: "string \<Rightarrow> string \<Rightarrow> bool" where
  "HasSuffix s p \<longleftrightarrow> suffix p s"

definition TrimSuffix :: "string \<Rightarrow> string \<Rightarrow> string" where
  "TrimSuffix s p = (if HasSuffix s p then take (length s - length p) s else s)"

definition ContainsAny :: "string \<Rightarrow> string \<Rightarrow> bool" where
  "ContainsAny s cs \<longleftrightarrow> list_ex (\<lambda>c. c \<in> set cs) s"

text \<open>\<open>strings.ReplaceAll\<close> for a one-byte pattern.\<close>

definition ReplaceAll :: "string \<Rightarrow> char \<Rightarrow> string \<Rightarrow> string" where
  "ReplaceAll s old new = concat (map (\<lambda>c. if c = old then new else [c]) s)"

fun Join :: "string list \<Rightarrow> string \<Rightarrow> string" where
  "Join [] sep = []"
| "Join [x] sep = x"
| "Join (x # y # xs) sep = x @ sep @ Join (y # xs) sep"

lemma TrimSuffix_append [simp]: "TrimSuffix (s @ p) p = s"
  by (simp add: TrimSuffix_def HasSuffix_def suffix_def)

lemma HasSuffixE:
  assumes "HasSuffix s p"
  obtains t where "s = t @ p"
  using assms by (auto simp: HasSuffix_def suffix_def)

section \<open>Runes and UTF-8\<close>

type_synonym rune = int

definition RuneError :: rune where
  "RuneError = 65533"

abbreviation byte :: "char \<Rightarrow> nat" where
  "byte \<equiv> of_char"

definition in_byte_range :: "nat \<Rightarrow> nat \<Rightarrow> char \<Rightarrow> bool" where
  "in_byte_range lo hi c \<longleftrightarrow> lo \<le> byte c \<and> byte c \<le> hi"

text \<open>
  The range of the second byte admitted after a leading byte of a three- or four-byte
  sequence: it excludes overlong forms, surrogates and values above \<open>U+10FFFF\<close>.
\<close>

definition second_range :: "nat \<Rightarrow> nat \<times> nat" where
  "second_range b0 =
     (if b0 = 224 then (160, 191)
      else if b0 = 237 then (128, 159)
      else if b0 = 240 then (144, 191)
      else if b0 = 244 then (128, 143)
      else (128, 191))"

text \<open>
  \<open>utf8.DecodeRuneInString\<close>: the first rune and its width; \<open>(RuneError, 0)\<close> on the
  empty string and \<open>(RuneError, 1)\<close> on a malformed sequence.
\<close>

fun DecodeRuneInString :: "string \<Rightarrow> rune \<times> nat" where
  "DecodeRuneInString [] = (RuneError, 0)"
| "DecodeRuneInString (c0 # s) =
     (let b0 = byte c0; (lo, hi) = second_range b0 in
      if b0 < 128 then (int b0, 1)
      else if b0 < 194 then (RuneError, 1)
      else if b0 < 224 then
        (case s of
           c1 # _ \<Rightarrow> if in_byte_range lo hi c1
             then (int ((b0 - 192) * 64 + (byte c1 - 128)), 2) else (RuneError, 1)
         | _ \<Rightarrow> (RuneError, 1))
      else if b0 < 240 then
        (case s of
           c1 # c2 # _ \<Rightarrow> if in_byte_range lo hi c1 \<and> in_byte_range 128 191 c2
             then (int ((b0 - 224) * 4096 + (byte c1 - 128) * 64 + (byte c2 - 128)), 3)
             else (RuneError, 1)
         | _ \<Rightarrow> (RuneError, 1))
      else if b0 < 245 then
        (case s of
           c1 # c2 # c3 # _ \<Rightarrow>
             if in_byte_range lo hi c1 \<and> in_byte_range 128 191 c2 \<and> in_byte_range 128 191 c3
             then (int ((b0 - 240) * 262144 + (byte c1 - 128) * 4096
                        + (byte c2 - 128) * 64 + (byte c3 - 128)), 4)
             else (RuneError, 1)
         | _ \<Rightarrow> (RuneError, 1))
      else (RuneError, 1))"

text \<open>\<open>string(r)\<close> and \<open>strings.Builder.WriteRune\<close>.\<close>

definition EncodeRune :: "rune \<Rightarrow> string" where
  "EncodeRune r0 =
     (let r = (if r0 < 0 \<or> 1114111 < r0 \<or> (55296 \<le> r0 \<and> r0 \<le> 57343)
               then nat RuneError else nat r0) in
      if r < 128 then [char_of r]
      else if r < 2048 then [char_of (192 + r div 64), char_of (128 + r mod 64)]
      else if r < 65536 then
        [char_of (224 + r div 4096), char_of (128 + (r div 64) mod 64), char_of (128 + r mod 64)]
      else
        [char_of (240 + r div 262144), char_of (128 + (r div 4096) mod 64),
         char_of (128 + (r div 64) mod 64), char_of (128 + r mod 64)])"

lemma DecodeRune_ascii [simp]:
  "byte c < 128 \<Longrightarrow> DecodeRuneInString (c # s) = (int (byte c), 1)"
  by (simp add: Let_def split: prod.splits)

lemma EncodeRune_ascii [simp]:
  "byte c < 128 \<Longrightarrow> EncodeRune (int (byte c)) = [c]"
  by (simp add: EncodeRune_def)

declare DecodeRuneInString.simps(2) [simp del]

lemma DecodeRune_width:
  assumes "DecodeRuneInString s = (r, w)" and "s \<noteq> []"
  shows "1 \<le> w \<and> w \<le> length s"
  using assms
  by (cases s) (auto simp: DecodeRuneInString.simps(2) Let_def second_range_def
      split: list.splits if_splits prod.splits)

lemma DecodeRune_nonneg:
  assumes "DecodeRuneInString s = (r, w)"
  shows "0 \<le> r"
  using assms
  by (cases s) (auto simp: DecodeRuneInString.simps(2) Let_def RuneError_def
      split: list.splits if_splits prod.splits)

text \<open>The runes that a Go string can hold: everything but surrogates.\<close>

definition valid_rune :: "rune \<Rightarrow> bool" where
  "valid_rune r \<longleftrightarrow> 0 \<le> r \<and> r \<le> 1114111 \<and> \<not> (55296 \<le> r \<and> r \<le> 57343)"

lemma length_EncodeRune_pos: "EncodeRune r \<noteq> []"
  by (simp add: EncodeRune_def Let_def)

lemma split_6_bits:
  fixes n :: nat
  shows "n div 64 * 64 + n mod 64 = n"
    and "n div 4096 * 64 + n div 64 mod 64 = n div 64"
    and "n div 262144 * 64 + n div 4096 mod 64 = n div 4096"
  using div_mult_mod_eq [of "n div 64" 64] div_mult_mod_eq [of "n div 4096" 64]
  by (simp_all add: div_mult2_eq [symmetric])

lemma Decode_2:
  assumes "2 \<le> a" "a < 32" "b < 64"
  shows "DecodeRuneInString (char_of (192 + a) # char_of (128 + b) # s) = (int (a * 64 + b), 2)"
  using assms
  by (simp add: Let_def DecodeRuneInString.simps(2) second_range_def in_byte_range_def)

lemma Decode_3:
  assumes "a < 16" "b < 64" "c < 64" "a = 0 \<Longrightarrow> 32 \<le> b" "a = 13 \<Longrightarrow> b < 32"
  shows "DecodeRuneInString (char_of (224 + a) # char_of (128 + b) # char_of (128 + c) # s)
    = (int (a * 4096 + b * 64 + c), 3)"
  using assms
  by (auto simp: Let_def DecodeRuneInString.simps(2) second_range_def in_byte_range_def)

lemma Decode_4:
  assumes "a < 5" "b < 64" "c < 64" "d < 64" "a = 0 \<Longrightarrow> 16 \<le> b" "a = 4 \<Longrightarrow> b < 16"
  shows "DecodeRuneInString
      (char_of (240 + a) # char_of (128 + b) # char_of (128 + c) # char_of (128 + d) # s)
    = (int (a * 262144 + b * 4096 + c * 64 + d), 4)"
  using assms
  by (auto simp: Let_def DecodeRuneInString.simps(2) second_range_def in_byte_range_def)

lemma EncodeRune_valid:
  assumes "valid_rune (int n)"
  shows "EncodeRune (int n) =
    (if n < 128 then [char_of n]
     else if n < 2048 then [char_of (192 + n div 64), char_of (128 + n mod 64)]
     else if n < 65536 then
       [char_of (224 + n div 4096), char_of (128 + n div 64 mod 64), char_of (128 + n mod 64)]
     else
       [char_of (240 + n div 262144), char_of (128 + n div 4096 mod 64),
        char_of (128 + n div 64 mod 64), char_of (128 + n mod 64)])"
  using assms by (auto simp: EncodeRune_def valid_rune_def)

text \<open>Decoding inverts encoding, whatever follows.\<close>

lemma Decode_EncodeRune:
  assumes "valid_rune r"
  shows "DecodeRuneInString (EncodeRune r @ s) = (r, length (EncodeRune r))"
proof -
  define n where "n = nat r"
  have r: "r = int n" and n: "n \<le> 1114111" "\<not> (55296 \<le> n \<and> n \<le> 57343)"
    using assms by (auto simp: valid_rune_def n_def)
  note enc = EncodeRune_valid [OF assms [unfolded r]]
  define a b c d where "a = n div 262144" and "b = n div 4096 mod 64"
    and "c = n div 64 mod 64" and "d = n mod 64"
  have less: "b < 64" "c < 64" "d < 64" by (simp_all add: b_def c_def d_def)
  have sum3: "n = n div 4096 * 4096 + c * 64 + d" and sum4: "n = a * 262144 + b * 4096 + c * 64 + d"
    using split_6_bits [of n, folded a_def b_def c_def d_def] by linarith+
  consider "n < 128" | "128 \<le> n" "n < 2048" | "2048 \<le> n" "n < 65536" | "65536 \<le> n"
    by linarith
  then show ?thesis
  proof cases
    case 1
    then show ?thesis by (simp add: EncodeRune_def r)
  next
    case 2
    then show ?thesis
      using Decode_2 [of "n div 64" d s] less by (simp add: enc r d_def)
  next
    case 3
    then have "n div 4096 < 16" by auto
    moreover have "n div 4096 = 0 \<Longrightarrow> 32 \<le> c" "n div 4096 = 13 \<Longrightarrow> c < 32"
      using 3 n sum3 less by linarith+
    ultimately show ?thesis
      using Decode_3 [of "n div 4096" c d s] less 3 n sum3 [symmetric]
      by (simp add: enc r c_def [symmetric] d_def [symmetric])
  next
    case 4
    then have "a < 5" "a = 0 \<Longrightarrow> 16 \<le> b" "a = 4 \<Longrightarrow> b < 16"
      using n sum4 less by linarith+
    then show ?thesis
      using Decode_4 [of a b c d s] less 4 n sum4 [symmetric]
      by (simp add: enc r a_def [symmetric] b_def [symmetric]
          c_def [symmetric] d_def [symmetric])
  qed
qed

text \<open>The runes that \<open>for _, r := range s\<close> visits.\<close>

function runes :: "string \<Rightarrow> rune list" where
  "runes s =
     (if s = [] then []
      else (let (r, w) = DecodeRuneInString s in r # runes (drop w s)))"
  by pat_completeness auto
termination
proof (relation "measure length")
  fix s :: string and x and r :: rune and w :: nat
  assume "s \<noteq> []" "x = DecodeRuneInString s" "(r, w) = x"
  then show "(drop w s, s) \<in> measure length"
    using DecodeRune_width [of s r w] by auto
qed simp

declare runes.simps [simp del]

lemma runes_Nil [simp]: "runes [] = []"
  by (simp add: runes.simps)

lemma runes_ascii [simp]: "byte c < 128 \<Longrightarrow> runes (c # s) = int (byte c) # runes s"
  by (simp add: runes.simps [of "c # s"])

text \<open>A string is valid UTF-8 when it is the encoding of a sequence of runes.\<close>

definition utf8 :: "rune list \<Rightarrow> string" where
  "utf8 rs = concat (map EncodeRune rs)"

lemma utf8_simps [simp]: "utf8 [] = []" "utf8 (r # rs) = EncodeRune r @ utf8 rs"
  by (simp_all add: utf8_def)

lemma runes_EncodeRune [simp]: "valid_rune r \<Longrightarrow> runes (EncodeRune r @ s) = r # runes s"
  by (simp add: runes.simps [of "EncodeRune r @ s"] length_EncodeRune_pos Decode_EncodeRune)

lemma runes_utf8: "list_all valid_rune rs \<Longrightarrow> runes (utf8 rs) = rs"
  by (induction rs) auto

definition valid_utf8 :: "string \<Rightarrow> bool" where
  "valid_utf8 s \<longleftrightarrow> list_all valid_rune (runes s) \<and> utf8 (runes s) = s"

lemma valid_utf8_utf8: "list_all valid_rune rs \<Longrightarrow> valid_utf8 (utf8 rs)"
  by (simp add: valid_utf8_def runes_utf8)

section \<open>Decimal numbers\<close>

text \<open>The verb \<open>%d\<close> of package \<open>fmt\<close>.\<close>

fun format_nat :: "nat \<Rightarrow> string" where
  "format_nat n = (if n < 10 then [char_of (48 + n)] else format_nat (n div 10) @ [char_of (48 + n mod 10)])"

declare format_nat.simps [simp del]

definition format_int :: "int \<Rightarrow> string" where
  "format_int i = (if i < 0 then CHR ''-'' # format_nat (nat (- i)) else format_nat (nat i))"

lemma format_nat_neq_Nil [simp]: "format_nat n \<noteq> []"
  by (subst format_nat.simps) simp

lemma format_nat_digits: "c \<in> set (format_nat n) \<Longrightarrow> 48 \<le> byte c \<and> byte c \<le> 57"
proof (induction n rule: format_nat.induct)
  case (1 n)
  then show ?case
    by (subst (asm) (2) format_nat.simps) (auto split: if_splits)
qed

section \<open>Package sort\<close>

text \<open>The loop of \<open>sort.Search\<close>: \<open>f\<close> is false up to some index and true from there.\<close>

function search_loop :: "(nat \<Rightarrow> bool) \<Rightarrow> nat \<Rightarrow> nat \<Rightarrow> nat" where
  "search_loop f i j =
     (if i < j then
        (let h = (i + j) div 2 in
         if \<not> f h then search_loop f (h + 1) j else search_loop f i h)
      else i)"
  by pat_completeness auto
termination
  by (relation "measure (\<lambda>(f, i, j). j - i)") auto

declare search_loop.simps [simp del]

definition Search :: "nat \<Rightarrow> (nat \<Rightarrow> bool) \<Rightarrow> nat" where
  "Search n f = search_loop f 0 n"

lemma search_loop_spec:
  assumes "i \<le> j" and "\<And>k. k < i \<Longrightarrow> \<not> f k" and "\<And>k. j \<le> k \<Longrightarrow> k < n \<Longrightarrow> f k"
    and "\<And>k l. k \<le> l \<Longrightarrow> l < n \<Longrightarrow> f k \<Longrightarrow> f l" and "j \<le> n"
  shows "(\<forall>k < search_loop f i j. \<not> f k) \<and>
    (\<forall>k. search_loop f i j \<le> k \<and> k < n \<longrightarrow> f k) \<and> search_loop f i j \<le> j"
  using assms
proof (induction f i j rule: search_loop.induct)
  case (1 f i j)
  define h where "h = (i + j) div 2"
  show ?case
  proof (cases "i < j")
    case False
    then have "search_loop f i j = i" by (simp add: search_loop.simps [of f i j])
    with False "1.prems" show ?thesis by auto
  next
    case True
    then have h: "i \<le> h" "h < j" by (auto simp: h_def)
    show ?thesis
    proof (cases "f h")
      case True
      with h "1.prems"(4,5) have up: "\<And>k. h \<le> k \<Longrightarrow> k < n \<Longrightarrow> f k" by blast
      have "(\<forall>k < search_loop f i h. \<not> f k) \<and>
          (\<forall>k. search_loop f i h \<le> k \<and> k < n \<longrightarrow> f k) \<and> search_loop f i h \<le> h"
        using "1.IH"(2) [of h] \<open>i < j\<close> True h up "1.prems" by (auto simp: h_def)
      with \<open>i < j\<close> True h show ?thesis
        by (auto simp: search_loop.simps [of f i j] h_def [symmetric])
    next
      case False
      with h "1.prems"(4,5) have down: "\<And>k. k < h + 1 \<Longrightarrow> \<not> f k"
        by (metis Suc_eq_plus1 less_Suc_eq_le order.strict_trans2)
      have "(\<forall>k < search_loop f (h + 1) j. \<not> f k) \<and>
          (\<forall>k. search_loop f (h + 1) j \<le> k \<and> k < n \<longrightarrow> f k) \<and> search_loop f (h + 1) j \<le> j"
        using "1.IH"(1) [of h] \<open>i < j\<close> False h down "1.prems" by (auto simp: h_def)
      with \<open>i < j\<close> False h show ?thesis
        by (auto simp: search_loop.simps [of f i j] h_def [symmetric])
    qed
  qed
qed

lemma Search_spec:
  assumes "\<And>k l. k \<le> l \<Longrightarrow> l < n \<Longrightarrow> f k \<Longrightarrow> f l"
  shows "Search n f \<le> n" and "\<And>k. k < Search n f \<Longrightarrow> \<not> f k"
    and "\<And>k. Search n f \<le> k \<Longrightarrow> k < n \<Longrightarrow> f k"
  using search_loop_spec [of 0 n f n] assms by (auto simp: Search_def)

end
