(* ===== verification/Path_Token.thy ===== *)
theory Path_Token
  imports Go_Lib
begin

text \<open>
  The scanner of location paths (\<open>pkg/mutation/path/token\<close>): a cursor over the bytes of
  the input that decodes one rune at a time, and \<open>Next\<close>, which cuts the next token.
  The theory shows that the cursor stays in range, that every token but \<open>EOF\<close> makes
  progress (so that the parser's loop ends), and what \<open>Next\<close> returns on the token
  shapes that the printer of \<open>Path_Parser\<close> emits.
\<close>

section \<open>Tokens\<close>

datatype TokenType =
  ERROR | EOF | IDENT | INT_TOKEN | LBRACKET | RBRACKET | SEPARATOR | GLOB | COLON

record Token =
  token_Type :: TokenType
  Literal :: string

section \<open>The scanner\<close>

definition eof :: rune where
  "eof = -1"

datatype ScanErr = ErrUnterminatedString | ErrInvalidCharacter

record ScanError =
  Inner :: ScanErr
  Position :: nat

record Scanner =
  sc_input :: string
  sc_pos :: nat
  sc_readPos :: nat
  sc_ch :: rune
  sc_err :: "ScanError option"

definition isSpace :: "rune \<Rightarrow> bool" where
  "isSpace r \<longleftrightarrow> r = 32 \<or> r = 9 \<or> r = 13 \<or> r = 10"

definition isAlphaNum :: "rune \<Rightarrow> bool" where
  "isAlphaNum r \<longleftrightarrow>
     (97 \<le> r \<and> r \<le> 122) \<or> (65 \<le> r \<and> r \<le> 90) \<or> (48 \<le> r \<and> r \<le> 57) \<or> r = 95 \<or> r = 45"

definition isDigit :: "rune \<Rightarrow> bool" where
  "isDigit r \<longleftrightarrow> 48 \<le> r \<and> r \<le> 57"

definition setError :: "ScanErr \<Rightarrow> Scanner \<Rightarrow> Scanner" where
  "setError e s = s\<lparr>sc_err := Some \<lparr>Inner = e, Position = sc_pos s\<rparr>\<rparr>"

definition read :: "Scanner \<Rightarrow> Scanner" where
  "read s =
     (if length (sc_input s) \<le> sc_readPos s
      then s\<lparr>sc_ch := eof, sc_pos := length (sc_input s)\<rparr>
      else (let (r, w) = DecodeRuneInString (drop (sc_readPos s) (sc_input s)) in
            s\<lparr>sc_pos := sc_readPos s, sc_readPos := sc_readPos s + w, sc_ch := r\<rparr>))"

definition NewScanner :: "string \<Rightarrow> Scanner" where
  "NewScanner input =
     read \<lparr>sc_input = input, sc_pos = 0, sc_readPos = 0, sc_ch = 0, sc_err = None\<rparr>"

text \<open>Bytes not yet consumed, the current rune included.\<close>

definition unread :: "Scanner \<Rightarrow> nat" where
  "unread s = length (sc_input s) - sc_readPos s + (if sc_ch s = eof then 0 else 1)"

lemma read_input [simp]: "sc_input (read s) = sc_input s"
  by (simp add: read_def split: prod.splits)

lemma read_err [simp]: "sc_err (read s) = sc_err s"
  by (simp add: read_def split: prod.splits)

lemma read_readPos_less:
  assumes "sc_ch (read s) \<noteq> eof"
  shows "length (sc_input s) - sc_readPos (read s) < length (sc_input s) - sc_readPos s"
  using assms DecodeRune_width [of "drop (sc_readPos s) (sc_input s)"]
  by (auto simp: read_def split: if_splits prod.splits)

lemma unread_read_le: "unread (read s) \<le> unread s"
  using DecodeRune_width [of "drop (sc_readPos s) (sc_input s)"]
  by (auto simp: unread_def read_def split: prod.splits)

lemma unread_read_less: "sc_ch s \<noteq> eof \<Longrightarrow> unread (read s) < unread s"
  using DecodeRune_width [of "drop (sc_readPos s) (sc_input s)"]
  by (auto simp: unread_def read_def split: prod.splits)

text \<open>
  The loops \<open>for p(s.ch) { s.read() }\<close> of \<open>skipWhitespace\<close>, \<open>readIdent\<close> and
  \<open>readInt\<close>. No character class holds of \<open>eof\<close>, so the second conjunct of the guard
  only serves the termination proof.
\<close>

function read_while :: "(rune \<Rightarrow> bool) \<Rightarrow> Scanner \<Rightarrow> Scanner" where
  "read_while p s = (if p (sc_ch s) \<and> sc_ch s \<noteq> eof then read_while p (read s) else s)"
  by pat_completeness auto
termination
  by (relation "measure (\<lambda>(p, s). unread s)") (auto simp: unread_read_less)

declare read_while.simps [simp del]

definition skipWhitespace :: "Scanner \<Rightarrow> Scanner" where
  "skipWhitespace s = read_while isSpace s"

definition readIdent :: "Scanner \<Rightarrow> string \<times> ScanError option \<times> Scanner" where
  "readIdent s =
     (let s' = read_while isAlphaNum s in
      (take (sc_pos s' - sc_pos s) (drop (sc_pos s) (sc_input s')), sc_err s', s'))"

definition readInt :: "Scanner \<Rightarrow> string \<times> ScanError option \<times> Scanner" where
  "readInt s =
     (let s' = read_while isDigit s in
      (take (sc_pos s' - sc_pos s) (drop (sc_pos s) (sc_input s')), sc_err s', s'))"

text \<open>\<open>readString\<close>: the loop reads past the opening quote that \<open>s.ch\<close> holds.\<close>

function readString_loop ::
    "rune \<Rightarrow> string \<Rightarrow> Scanner \<Rightarrow> string \<times> ScanError option \<times> Scanner" where
  "readString_loop quote out s0 =
     (let s = read s0 in
      if sc_ch s = quote then (out, None, s)
      else if sc_ch s = 92 then
        (let s' = read s in
         if sc_ch s' = eof then readString_loop quote out s'
         else readString_loop quote (out @ EncodeRune (sc_ch s')) s')
      else if sc_ch s = eof then
        (let s' = setError ErrUnterminatedString s in (out, sc_err s', s'))
      else readString_loop quote (out @ EncodeRune (sc_ch s)) s)"
  by pat_completeness auto

lemma read_readPos_le:
  "length (sc_input s) - sc_readPos (read s) \<le> length (sc_input s) - sc_readPos s"
  by (auto simp: read_def split: prod.splits)

termination readString_loop
proof (relation "measure (\<lambda>(q, out, s). length (sc_input s) - sc_readPos s)")
  fix quote :: rune and out :: string and s0 s s' :: Scanner
  assume s: "s = read s0" and "sc_ch s \<noteq> quote" and bs: "sc_ch s = 92" and s': "s' = read s"
  from s bs have "length (sc_input s0) - sc_readPos s < length (sc_input s0) - sc_readPos s0"
    using read_readPos_less [of s0] by (simp add: eof_def)
  moreover from s s' have
    "length (sc_input s0) - sc_readPos s' \<le> length (sc_input s0) - sc_readPos s"
    using read_readPos_le [of s] by simp
  ultimately have less: "length (sc_input s') - sc_readPos s' < length (sc_input s0) - sc_readPos s0"
    using s s' by simp
  show "((quote, out, s'), quote, out, s0)
      \<in> measure (\<lambda>(q, out, s). length (sc_input s) - sc_readPos s)"
    using less by simp
  show "((quote, out @ EncodeRune (sc_ch s'), s'), quote, out, s0)
      \<in> measure (\<lambda>(q, out, s). length (sc_input s) - sc_readPos s)"
    using less by simp
next
  fix quote :: rune and out :: string and s0 s :: Scanner
  assume "s = read s0" "sc_ch s \<noteq> quote" "sc_ch s \<noteq> 92" "sc_ch s \<noteq> eof"
  then show "((quote, out @ EncodeRune (sc_ch s), s), quote, out, s0)
      \<in> measure (\<lambda>(q, out, s). length (sc_input s) - sc_readPos s)"
    using read_readPos_less [of s0] by simp
qed simp

declare readString_loop.simps [simp del]

definition readString :: "Scanner \<Rightarrow> string \<times> ScanError option \<times> Scanner" where
  "readString s = readString_loop (sc_ch s) [] s"

definition token_or_error :: "TokenType \<Rightarrow> string \<times> ScanError option \<times> Scanner \<Rightarrow> Token \<times> Scanner" where
  "token_or_error ty res =
     (case res of (lit, e, s) \<Rightarrow>
        (\<lparr>token_Type = (if e = None then ty else ERROR), Literal = lit\<rparr>, s))"

definition Next :: "Scanner \<Rightarrow> Token \<times> Scanner" where
  "Next s0 =
     (let s = skipWhitespace s0 in
      if isDigit (sc_ch s) then token_or_error INT_TOKEN (readInt s)
      else if isAlphaNum (sc_ch s) then token_or_error IDENT (readIdent s)
      else
        (let (tok, s') =
           (if sc_ch s = eof then (\<lparr>token_Type = EOF, Literal = []\<rparr>, s)
            else if sc_ch s = 46 then (\<lparr>token_Type = SEPARATOR, Literal = EncodeRune (sc_ch s)\<rparr>, s)
            else if sc_ch s = 91 then (\<lparr>token_Type = LBRACKET, Literal = EncodeRune (sc_ch s)\<rparr>, s)
            else if sc_ch s = 93 then (\<lparr>token_Type = RBRACKET, Literal = EncodeRune (sc_ch s)\<rparr>, s)
            else if sc_ch s = 42 then (\<lparr>token_Type = GLOB, Literal = EncodeRune (sc_ch s)\<rparr>, s)
            else if sc_ch s = 58 then (\<lparr>token_Type = COLON, Literal = EncodeRune (sc_ch s)\<rparr>, s)
            else if sc_ch s = 34 \<or> sc_ch s = 39 then token_or_error IDENT (readString s)
            else (\<lparr>token_Type = ERROR, Literal = EncodeRune (sc_ch s)\<rparr>,
                  setError ErrInvalidCharacter s))
         in (tok, read s')))"

section \<open>Progress\<close>

lemma unread_setError [simp]: "unread (setError e s) = unread s"
  by (simp add: unread_def setError_def)

lemma unread_read_while: "unread (read_while p s) \<le> unread s"
proof (induction p s rule: read_while.induct)
  case (1 p s)
  then show ?case
    using unread_read_le [of s] by (subst read_while.simps) (auto intro: order.trans)
qed

lemma unread_read_while_less:
  "p (sc_ch s) \<Longrightarrow> sc_ch s \<noteq> eof \<Longrightarrow> unread (read_while p s) < unread s"
  by (subst read_while.simps) (simp add: le_less_trans [OF unread_read_while] unread_read_less)

lemma unread_readString_loop: "unread (snd (snd (readString_loop q out s))) \<le> unread s"
proof (induction q out s rule: readString_loop.induct)
  case (1 q out s)
  have le: "unread (read s) \<le> unread s" "unread (read (read s)) \<le> unread s"
    using unread_read_le [of s] unread_read_le [of "read s"] by auto
  show ?case
    using le "1.IH" [OF refl]
    by (subst readString_loop.simps) (auto simp: Let_def intro: order.trans)
qed

lemma Next_unread_le: "unread (snd (Next s)) \<le> unread s"
proof -
  define t where "t = skipWhitespace s"
  have t: "unread t \<le> unread s"
    by (simp add: t_def skipWhitespace_def unread_read_while)
  have a: "unread (read_while isDigit t) \<le> unread s" "unread (read_while isAlphaNum t) \<le> unread s"
    using unread_read_while t order.trans by blast+
  have b: "unread (read t) \<le> unread s" "unread (read (snd (snd (readString t)))) \<le> unread s"
    and c: "unread (read (setError e t)) \<le> unread s" for e
    using unread_read_le [of t] unread_read_le [of "setError e t"] t
      unread_read_le [of "snd (snd (readString t))"] unread_readString_loop [of "sc_ch t" "[]" t]
    by (auto simp: readString_def)
  show ?thesis
    using a b c
    by (simp add: Next_def Let_def t_def [symmetric] token_or_error_def readInt_def readIdent_def
        split: prod.splits)
      (auto simp: Let_def split: prod.splits)
qed

lemma Next_unread_less:
  assumes "token_Type (fst (Next s)) \<noteq> EOF"
  shows "unread (snd (Next s)) < unread s"
proof -
  define t where "t = skipWhitespace s"
  have t: "unread t \<le> unread s"
    by (simp add: t_def skipWhitespace_def unread_read_while)
  have ne: "sc_ch t \<noteq> eof"
    using assms by (auto simp: Next_def Let_def t_def [symmetric] isDigit_def isAlphaNum_def eof_def)
  have a: "isDigit (sc_ch t) \<Longrightarrow> unread (read_while isDigit t) < unread s"
    "isAlphaNum (sc_ch t) \<Longrightarrow> unread (read_while isAlphaNum t) < unread s"
    using unread_read_while_less ne t less_le_trans by blast+
  have b: "unread (read t) < unread s" and c: "unread (read (setError e t)) < unread s" for e
    using unread_read_less [of t] unread_read_less [of "setError e t"] ne t
    by (auto simp: setError_def unread_def)
  have d: "unread (read (snd (snd (readString t)))) < unread s"
  proof -
    have "unread (read (snd (snd (readString t)))) \<le> unread (read t)"
    proof (cases "sc_ch (read t) = sc_ch t")
      case True
      then show ?thesis
        using unread_read_le by (simp add: readString_def readString_loop.simps Let_def)
    next
      case False
      have "unread (snd (snd (readString t))) \<le> unread (read t)"
        using False unread_readString_loop unread_read_le
        by (simp add: readString_def readString_loop.simps [of "sc_ch t" "[]" t] Let_def)
          (meson order.trans)
      then show ?thesis using unread_read_le order.trans by blast
    qed
    with b show ?thesis by simp
  qed
  show ?thesis
    using a b c d ne
    by (simp add: Next_def Let_def t_def [symmetric] token_or_error_def readInt_def readIdent_def
        split: prod.splits)
      (auto simp: Let_def split: prod.splits)
qed

section \<open>The cursor\<close>

text \<open>
  \<open>at_text s t\<close>: the cursor is at a rune boundary, \<open>t\<close> is the text from there on
  and the current rune is the first of \<open>t\<close>, or \<open>eof\<close> when nothing is left. Every
  scanner state the package can reach is of this form.
\<close>

definition at_text :: "Scanner \<Rightarrow> string \<Rightarrow> bool" where
  "at_text s t \<longleftrightarrow>
     sc_pos s \<le> length (sc_input s) \<and> t = drop (sc_pos s) (sc_input s) \<and>
     (if t = [] then sc_ch s = eof \<and> sc_readPos s = length (sc_input s)
      else sc_pos s \<le> sc_readPos s \<and> DecodeRuneInString t = (sc_ch s, sc_readPos s - sc_pos s))"

lemma at_text_bounds:
  assumes "at_text s t"
  shows "sc_pos s \<le> sc_readPos s" and "sc_readPos s \<le> length (sc_input s)"
proof -
  show "sc_pos s \<le> sc_readPos s"
    using assms by (auto simp: at_text_def split: if_splits)
  show "sc_readPos s \<le> length (sc_input s)"
    using assms DecodeRune_width [of t "sc_ch s" "sc_readPos s - sc_pos s"]
    by (auto simp: at_text_def split: if_splits)
qed

lemma at_text_eof: "at_text s t \<Longrightarrow> sc_ch s = eof \<longleftrightarrow> t = []"
  using DecodeRune_nonneg [of t "sc_ch s"] by (auto simp: at_text_def eof_def split: if_splits)

lemma at_text_read_Nil: "at_text s [] \<Longrightarrow> read s = s"
  by (cases s) (auto simp: at_text_def read_def)

lemma at_text_readPos:
  assumes "sc_readPos s \<le> length (sc_input s)"
  shows "at_text (read s) (drop (sc_readPos s) (sc_input s))"
  using assms by (auto simp: at_text_def read_def split: prod.splits)

lemma at_text_read:
  assumes "at_text s t"
  shows "at_text (read s) (drop (snd (DecodeRuneInString t)) t)"
proof (cases "t = []")
  case True
  with assms show ?thesis by (simp add: at_text_read_Nil)
next
  case False
  have "drop (sc_readPos s) (sc_input s) = drop (snd (DecodeRuneInString t)) t"
    using assms False at_text_bounds(1) [OF assms] by (auto simp: at_text_def)
  then show ?thesis
    using at_text_readPos [OF at_text_bounds(2) [OF assms]] by simp
qed

lemma at_text_NewScanner: "at_text (NewScanner input) input"
  using at_text_readPos [of "\<lparr>sc_input = input, sc_pos = 0, sc_readPos = 0, sc_ch = 0, sc_err = None\<rparr>"]
  by (simp add: NewScanner_def)

lemma at_text_setError [simp]: "at_text (setError e s) t = at_text s t"
  by (simp add: at_text_def setError_def)

definition scanner_ok :: "Scanner \<Rightarrow> bool" where
  "scanner_ok s \<longleftrightarrow> at_text s (drop (sc_pos s) (sc_input s))"

lemma at_text_ok: "at_text s t \<Longrightarrow> scanner_ok s"
  by (auto simp: scanner_ok_def at_text_def)

lemma scanner_ok_read [wf_intros]: "scanner_ok s \<Longrightarrow> scanner_ok (read s)"
  using at_text_read at_text_ok scanner_ok_def by blast

lemma scanner_ok_setError [simp]: "scanner_ok (setError e s) = scanner_ok s"
  by (simp add: scanner_ok_def) (simp add: setError_def)

lemma scanner_ok_read_while [wf_intros]: "scanner_ok s \<Longrightarrow> scanner_ok (read_while p s)"
proof (induction p s rule: read_while.induct)
  case (1 p s)
  then show ?case by (subst read_while.simps) (auto intro: wf_intros)
qed

lemma scanner_ok_readString_loop:
  "scanner_ok s \<Longrightarrow> scanner_ok (snd (snd (readString_loop q out s)))"
proof (induction q out s rule: readString_loop.induct)
  case (1 q out s)
  then have "scanner_ok (read s)" "scanner_ok (read (read s))" by (auto intro: wf_intros)
  then show ?case
    using "1.IH" [OF refl] by (subst readString_loop.simps) (auto simp: Let_def)
qed

lemma scanner_ok_Next: "scanner_ok s \<Longrightarrow> scanner_ok (snd (Next s))"
proof -
  assume s: "scanner_ok s"
  define t where "t = skipWhitespace s"
  from s have t: "scanner_ok t" by (simp add: t_def skipWhitespace_def wf_intros)
  then have "scanner_ok (read_while isDigit t)" "scanner_ok (read_while isAlphaNum t)"
    "scanner_ok (read t)" "scanner_ok (read (setError ErrInvalidCharacter t))"
    "scanner_ok (read (snd (snd (readString t))))"
    by (auto intro!: wf_intros scanner_ok_readString_loop simp: readString_def)
  then show "scanner_ok (snd (Next s))"
    by (simp add: Next_def Let_def t_def [symmetric] token_or_error_def readInt_def readIdent_def
        split: prod.splits)
      (auto simp: Let_def split: prod.splits)
qed

text \<open>The text behind the cursor never grows back: the slices of \<open>readIdent\<close> and
  \<open>readInt\<close> are in range.\<close>

lemma read_while_pos: "scanner_ok s \<Longrightarrow> sc_pos s \<le> sc_pos (read_while p s)"
proof (induction p s rule: read_while.induct)
  case (1 p s)
  have "sc_pos s \<le> sc_pos (read s)"
    using at_text_bounds [of s] 1 by (auto simp: read_def scanner_ok_def split: prod.splits)
  then show ?case
    using 1 by (subst read_while.simps) (auto intro: wf_intros order.trans)
qed

section \<open>Scanning a known text\<close>

lemma at_text_rune:
  assumes "at_text s (EncodeRune r @ t)" and "valid_rune r"
  shows "sc_ch s = r" and "at_text (read s) t" and "sc_pos (read s) = sc_pos s + length (EncodeRune r)"
proof -
  have dec: "DecodeRuneInString (EncodeRune r @ t) = (r, length (EncodeRune r))"
    by (rule Decode_EncodeRune [OF assms(2)])
  show "sc_ch s = r"
    using assms(1) dec by (auto simp: at_text_def length_EncodeRune_pos split: if_splits)
  show t: "at_text (read s) t"
    using at_text_read [OF assms(1)] dec by simp
  have "sc_input s = take (sc_pos s) (sc_input s) @ EncodeRune r @ t"
    using assms(1) by (simp add: at_text_def)
  then have "length (sc_input s) = sc_pos s + length (EncodeRune r) + length t"
    using assms(1) by (metis (no_types, lifting) add.assoc at_text_def length_append length_take min.absorb2)
  moreover have "length t = length (sc_input s) - sc_pos (read s)" "sc_pos (read s) \<le> length (sc_input s)"
    using t by (simp_all add: at_text_def)
  ultimately show "sc_pos (read s) = sc_pos s + length (EncodeRune r)" by linarith
qed

lemma valid_rune_byte: "byte c < 128 \<Longrightarrow> valid_rune (int (byte c))"
  by (simp add: valid_rune_def)

lemma at_text_ascii:
  assumes "at_text s (c # t)" and "byte c < 128"
  shows "sc_ch s = int (byte c)" and "at_text (read s) t" and "sc_pos (read s) = Suc (sc_pos s)"
  using at_text_rune [of s "int (byte c)" t] assms by (simp_all add: valid_rune_byte)

text \<open>A run of characters of a class, ended by the end of the text or another character.\<close>

definition ends_class :: "(rune \<Rightarrow> bool) \<Rightarrow> string \<Rightarrow> bool" where
  "ends_class p t \<longleftrightarrow> (case t of [] \<Rightarrow> True | c # _ \<Rightarrow> byte c < 128 \<and> \<not> p (int (byte c)))"

lemma read_while_run:
  assumes "at_text s (w @ t)" and "\<forall>c \<in> set w. byte c < 128 \<and> p (int (byte c))"
    and "ends_class p t"
  shows "at_text (read_while p s) t \<and> sc_pos (read_while p s) = sc_pos s + length w \<and>
    sc_err (read_while p s) = sc_err s \<and> sc_input (read_while p s) = sc_input s"
  using assms
proof (induction w arbitrary: s)
  case Nil
  have "\<not> (p (sc_ch s) \<and> sc_ch s \<noteq> eof)"
  proof (cases t)
    case Nil
    with Nil.prems show ?thesis using at_text_eof [of s t] by simp
  next
    case (Cons c t')
    with Nil.prems show ?thesis using at_text_ascii [of s c t'] by (simp add: ends_class_def)
  qed
  then have "read_while p s = s" by (subst read_while.simps) auto
  with Nil.prems show ?case by simp
next
  case (Cons c w)
  then have "at_text s (c # w @ t)" and c: "byte c < 128" "p (int (byte c))" by auto
  note r = at_text_ascii [OF this(1) c(1)]
  have "read_while p s = read_while p (read s)"
    using r(1) c by (subst read_while.simps) (simp add: eof_def)
  with Cons.IH [OF r(2)] Cons.prems r(3) show ?case by simp
qed

text \<open>\<open>scans s t\<close>: no error so far and \<open>t\<close> is left.\<close>

definition scans :: "Scanner \<Rightarrow> string \<Rightarrow> bool" where
  "scans s t \<longleftrightarrow> at_text s t \<and> sc_err s = None"

lemma scans_NewScanner: "scans (NewScanner input) input"
  by (simp add: scans_def at_text_NewScanner) (simp add: NewScanner_def)

lemma isSpace_eof [simp]: "\<not> isSpace eof" and isDigit_eof [simp]: "\<not> isDigit eof"
  and isAlphaNum_eof [simp]: "\<not> isAlphaNum eof"
  by (simp_all add: isSpace_def isDigit_def isAlphaNum_def eof_def)

lemma skipWhitespace_none:
  assumes "scans s t" and "ends_class isSpace t"
  shows "skipWhitespace s = s"
proof -
  have "\<not> isSpace (sc_ch s)"
    using assms at_text_eof [of s t] at_text_ascii [of s "hd t" "tl t"]
    by (cases t) (auto simp: scans_def ends_class_def)
  then show ?thesis by (simp add: skipWhitespace_def read_while.simps [of isSpace s])
qed

lemma skipWhitespace_space:
  assumes "scans s (CHR '' '' # t)" and "ends_class isSpace t"
  shows "scans (skipWhitespace s) t"
  using assms read_while_run [of s "'' ''" t isSpace]
  by (simp add: skipWhitespace_def scans_def isSpace_def)

lemma Next_skip: "Next s = Next (skipWhitespace s)"
proof -
  have "\<not> isSpace (sc_ch (read_while p s)) \<or> sc_ch (read_while p s) = eof" if "p = isSpace" for p s
    using that
  proof (induction p s rule: read_while.induct)
    case (1 p s)
    then show ?case by (subst (1 2) read_while.simps) auto
  qed
  then have "skipWhitespace (skipWhitespace s) = skipWhitespace s"
    by (auto simp: skipWhitespace_def read_while.simps [of _ "read_while isSpace s"])
  then show ?thesis by (simp add: Next_def)
qed

lemma Next_EOF:
  assumes "scans s []"
  shows "Next s = (\<lparr>token_Type = EOF, Literal = []\<rparr>, s)"
proof -
  have "sc_ch s = eof" "read s = s"
    using assms at_text_eof at_text_read_Nil by (auto simp: scans_def)
  then show ?thesis
    using skipWhitespace_none [OF assms] by (simp add: Next_def ends_class_def)
qed

lemma EncodeRune_lits:
  "EncodeRune 46 = ''.''" "EncodeRune 91 = ''[''" "EncodeRune 93 = '']''" "EncodeRune 42 = ''*''"
  "EncodeRune 58 = '':''" "EncodeRune 92 = [CHR 0x5C]" "EncodeRune 34 = [CHR 0x22]"
  using EncodeRune_ascii [of "CHR ''.''"] EncodeRune_ascii [of "CHR ''[''"]
    EncodeRune_ascii [of "CHR '']''"] EncodeRune_ascii [of "CHR ''*''"]
    EncodeRune_ascii [of "CHR '':''"] EncodeRune_ascii [of "CHR 0x5C"]
    EncodeRune_ascii [of "CHR 0x22"]
  by simp_all

definition punct_Type :: "char \<Rightarrow> TokenType option" where
  "punct_Type c =
     (if c = CHR ''.'' then Some SEPARATOR
      else if c = CHR ''['' then Some LBRACKET
      else if c = CHR '']'' then Some RBRACKET
      else if c = CHR ''*'' then Some GLOB
      else if c = CHR '':'' then Some COLON
      else None)"

lemma Next_punct:
  assumes "scans s (c # t)" and "punct_Type c = Some ty"
  shows "Next s = (\<lparr>token_Type = ty, Literal = [c]\<rparr>, read s)" and "scans (read s) t"
proof -
  have c: "c = CHR ''.'' \<or> c = CHR ''['' \<or> c = CHR '']'' \<or> c = CHR ''*'' \<or> c = CHR '':''"
    and asc: "byte c < 128"
    using assms(2) by (auto simp: punct_Type_def split: if_splits)
  note r = at_text_ascii [OF assms(1) [unfolded scans_def, THEN conjunct1] asc]
  have "ends_class isSpace (c # t)"
    using c by (auto simp: ends_class_def isSpace_def)
  then have skip: "skipWhitespace s = s" by (rule skipWhitespace_none [OF assms(1)])
  show "Next s = (\<lparr>token_Type = ty, Literal = [c]\<rparr>, read s)"
    using c assms(2)
    by (elim disjE) (simp_all add: Next_def skip Let_def r(1) isDigit_def isAlphaNum_def eof_def
        EncodeRune_lits punct_Type_def)
  show "scans (read s) t" using r(2) assms(1) by (simp add: scans_def)
qed

definition ident_text :: "string \<Rightarrow> bool" where
  "ident_text w \<longleftrightarrow> w \<noteq> [] \<and> (\<forall>c \<in> set w. byte c < 128 \<and> isAlphaNum (int (byte c)))
     \<and> \<not> isDigit (int (byte (hd w)))"

definition int_text :: "string \<Rightarrow> bool" where
  "int_text w \<longleftrightarrow> w \<noteq> [] \<and> (\<forall>c \<in> set w. byte c < 128 \<and> isDigit (int (byte c)))"

lemma scans_slice:
  assumes "scans s (w @ t)"
  shows "take (length w) (drop (sc_pos s) (sc_input s)) = w"
  using assms by (auto simp: scans_def at_text_def) (metis append_eq_conv_conj)

lemma Next_ident:
  assumes "scans s (w @ t)" and "ident_text w" and "ends_class isAlphaNum t"
  shows "\<exists>s'. Next s = (\<lparr>token_Type = IDENT, Literal = w\<rparr>, s') \<and> scans s' t"
proof -
  obtain c w' where w: "w = c # w'" using assms(2) by (cases w) (auto simp: ident_text_def)
  have c: "byte c < 128" "isAlphaNum (int (byte c))" "\<not> isDigit (int (byte c))"
    using assms(2) by (auto simp: w ident_text_def)
  have ch: "sc_ch s = int (byte c)"
    using at_text_ascii [of s c "w' @ t"] assms(1) c by (simp add: w scans_def)
  have skip: "skipWhitespace s = s"
    using c by (intro skipWhitespace_none [OF assms(1)])
      (auto simp: w ends_class_def isSpace_def isAlphaNum_def)
  have run: "at_text (read_while isAlphaNum s) t \<and> sc_pos (read_while isAlphaNum s) = sc_pos s + length w \<and>
    sc_err (read_while isAlphaNum s) = sc_err s \<and> sc_input (read_while isAlphaNum s) = sc_input s"
    using assms by (intro read_while_run) (auto simp: scans_def ident_text_def)
  show ?thesis
    using run scans_slice [OF assms(1)] c assms(1)
    by (simp add: Next_def skip Let_def ch readIdent_def token_or_error_def scans_def)
qed

lemma Next_int:
  assumes "scans s (w @ t)" and "int_text w" and "ends_class isDigit t"
  shows "\<exists>s'. Next s = (\<lparr>token_Type = INT_TOKEN, Literal = w\<rparr>, s') \<and> scans s' t"
proof -
  obtain c w' where w: "w = c # w'" using assms(2) by (cases w) (auto simp: int_text_def)
  have c: "byte c < 128" "isDigit (int (byte c))"
    using assms(2) by (auto simp: w int_text_def)
  have ch: "sc_ch s = int (byte c)"
    using at_text_ascii [of s c "w' @ t"] assms(1) c by (simp add: w scans_def)
  have skip: "skipWhitespace s = s"
    using c by (intro skipWhitespace_none [OF assms(1)])
      (auto simp: w ends_class_def isSpace_def isDigit_def)
  have run: "at_text (read_while isDigit s) t \<and> sc_pos (read_while isDigit s) = sc_pos s + length w \<and>
    sc_err (read_while isDigit s) = sc_err s \<and> sc_input (read_while isDigit s) = sc_input s"
    using assms by (intro read_while_run) (auto simp: scans_def int_text_def)
  show ?thesis
    using run scans_slice [OF assms(1)] c assms(1)
    by (simp add: Next_def skip Let_def ch readInt_def token_or_error_def scans_def)
qed

text \<open>Quoted strings: the escaped form of a sequence of runes reads back as the sequence.\<close>

definition esc_runes :: "rune list \<Rightarrow> rune list" where
  "esc_runes rs = concat (map (\<lambda>r. if r = 92 then [92, 92] else if r = 34 then [92, 34] else [r]) rs)"

lemma valid_rune_small [simp]: "valid_rune 92" "valid_rune 34"
  by (simp_all add: valid_rune_def)

lemma readString_loop_esc:
  assumes "at_text (read s0) (utf8 (esc_runes rs) @ CHR 0x22 # t)" and "list_all valid_rune rs"
  shows "\<exists>s'. readString_loop 34 out s0 = (out @ utf8 rs, None, s') \<and>
    at_text s' (CHR 0x22 # t) \<and> sc_err s' = sc_err s0"
  using assms
proof (induction rs arbitrary: s0 out)
  case Nil
  then have "sc_ch (read s0) = 34"
    using at_text_ascii(1) [of "read s0" "CHR 0x22" t] by (simp add: esc_runes_def)
  with Nil show ?case
    by (subst readString_loop.simps) (simp add: Let_def esc_runes_def)
next
  case (Cons r rs)
  define tl where "tl = utf8 (esc_runes rs) @ CHR 0x22 # t"
  have valid: "valid_rune r" "list_all valid_rune rs" using Cons.prems(2) by auto
  show ?case
  proof (cases "r = 92 \<or> r = 34")
    case True
    then have "at_text (read s0) (EncodeRune 92 @ EncodeRune r @ tl)"
      using Cons.prems(1) by (auto simp: esc_runes_def tl_def EncodeRune_lits)
    note a = at_text_rune [OF this valid_rune_small(1)]
    note b = at_text_rune [OF a(2) valid(1)]
    obtain s' where "readString_loop 34 (out @ EncodeRune r) (read (read s0)) =
        (out @ EncodeRune r @ utf8 rs, None, s') \<and> at_text s' (CHR 0x22 # t) \<and>
        sc_err s' = sc_err (read (read s0))"
      using Cons.IH [OF b(2) [unfolded tl_def] valid(2), of "out @ EncodeRune r"] by auto
    with a(1) b(1) True show ?thesis
      by (subst readString_loop.simps) (auto simp: Let_def eof_def)
  next
    case False
    then have "at_text (read s0) (EncodeRune r @ tl)"
      using Cons.prems(1) by (auto simp: esc_runes_def tl_def)
    note a = at_text_rune [OF this valid(1)]
    obtain s' where "readString_loop 34 (out @ EncodeRune r) (read s0) =
        (out @ EncodeRune r @ utf8 rs, None, s') \<and> at_text s' (CHR 0x22 # t) \<and>
        sc_err s' = sc_err (read s0)"
      using Cons.IH [OF a(2) [unfolded tl_def] valid(2), of "out @ EncodeRune r"] by auto
    moreover have "r \<noteq> eof" using valid(1) by (auto simp: valid_rune_def eof_def)
    ultimately show ?thesis
      using a(1) False by (subst readString_loop.simps) (auto simp: Let_def)
  qed
qed

lemma Next_quoted:
  assumes "scans s (CHR 0x22 # utf8 (esc_runes rs) @ CHR 0x22 # t)" and "list_all valid_rune rs"
  shows "\<exists>s'. Next s = (\<lparr>token_Type = IDENT, Literal = utf8 rs\<rparr>, s') \<and> scans s' t"
proof -
  note a = at_text_ascii [OF assms(1) [unfolded scans_def, THEN conjunct1], simplified]
  have skip: "skipWhitespace s = s"
    by (intro skipWhitespace_none [OF assms(1)]) (auto simp: ends_class_def isSpace_def)
  obtain s' where s': "readString_loop 34 [] s = (utf8 rs, None, s')"
    "at_text s' (CHR 0x22 # t)" "sc_err s' = sc_err s"
    using readString_loop_esc [OF a(2) assms(2), of "[]"] by auto
  moreover have "at_text (read s') t"
    using at_text_ascii(2) [OF s'(2)] by simp
  ultimately show ?thesis
    using assms(1)
    by (simp add: Next_def skip Let_def a(1) isDigit_def isAlphaNum_def eof_def readString_def
        token_or_error_def scans_def)
qed

end
