(* ===== verification/Values.thy ===== *)
theory Values
  imports Go_Lib
begin

text \<open>
  The dynamically typed values of \<open>unstructured.Unstructured\<close>: what Go holds in an
  \<open>interface{}\<close> that came out of a JSON decoder. Integers are \<open>int64\<close>; a
  \<open>float64\<close> is given by its (rational) value, which is how \<open>==\<close> compares the finite
  floats that JSON can denote. Objects are Go maps. Two interfaces are equal when their
  dynamic types and values are equal, so \<open>VInt\<close> and \<open>VFloat\<close> of the same number
  differ.
\<close>

datatype val =
    VNil
  | VBool bool
  | VInt "64 word"
  | VFloat rat
  | VString string
  | VList "val list"
  | VMap "(string \<times> val) list"

fun wf_val :: "val \<Rightarrow> bool" where
  "wf_val (VList xs) = (\<forall>x \<in> set xs. wf_val x)"
| "wf_val (VMap m) = (mwf m \<and> (\<forall>p \<in> set m. wf_val (snd p)))"
| "wf_val _ = True"

lemma wf_val_mget: "wf_val (VMap m) \<Longrightarrow> mget m k = Some v \<Longrightarrow> wf_val v"
  by (auto dest!: map_of_SomeD)

lemma set_mput_subset: "set (mput k v m) \<subseteq> insert (k, v) (set m)"
  by (induction m) (auto split: if_splits)

lemma wf_val_mput [wf_intros]: "wf_val (VMap m) \<Longrightarrow> wf_val v \<Longrightarrow> wf_val (VMap (mput k v m))"
  using set_mput_subset [of k v m] by auto

section \<open>JSON documents\<close>

text \<open>
  The bytes of a \<open>runtime.RawExtension\<close> or of an admission request are represented by
  the JSON document they spell. \<open>json.Unmarshal\<close> into \<open>map[string]interface{}\<close>
  decodes every number as a \<open>float64\<close> and keeps the last of several equal keys; it
  fails on a document that is not an object (but \<open>null\<close> leaves the map empty). The
  decoder of \<open>unstructured\<close> reads integral numbers as \<open>int64\<close> instead.
\<close>

datatype json =
    JNull
  | JBool bool
  | JNum rat
  | JString string
  | JArray "json list"
  | JObject "(string \<times> json) list"

definition json_number :: "bool \<Rightarrow> rat \<Rightarrow> val" where
  "json_number ints q =
     (case quotient_of q of (n, d) \<Rightarrow>
        if ints \<and> d = 1 \<and> - (2 ^ 63) \<le> n \<and> n < 2 ^ 63 then VInt (word_of_int n) else VFloat q)"

fun decode_json :: "bool \<Rightarrow> json \<Rightarrow> val" where
  "decode_json ints JNull = VNil"
| "decode_json ints (JBool b) = VBool b"
| "decode_json ints (JNum q) = json_number ints q"
| "decode_json ints (JString s) = VString s"
| "decode_json ints (JArray xs) = VList (map (decode_json ints) xs)"
| "decode_json ints (JObject m) =
     VMap (fold (\<lambda>p. mput (fst p) (snd p)) (map (map_prod id (decode_json ints)) m) [])"

text \<open>\<open>json.Unmarshal(raw, &m)\<close> for \<open>m\<close> a \<open>map[string]interface{}\<close>; \<open>None\<close> is
  a decoding error.\<close>

definition Unmarshal_map :: "json option \<Rightarrow> (string \<times> val) list option" where
  "Unmarshal_map raw =
     (case raw of
        None \<Rightarrow> None
      | Some JNull \<Rightarrow> Some []
      | Some (JObject m) \<Rightarrow>
          (case decode_json False (JObject m) of VMap m' \<Rightarrow> Some m' | _ \<Rightarrow> None)
      | Some _ \<Rightarrow> None)"

fun has_int :: "val \<Rightarrow> bool" where
  "has_int (VInt _) = True"
| "has_int (VList xs) = (\<exists>x \<in> set xs. has_int x)"
| "has_int (VMap m) = (\<exists>p \<in> set m. has_int (snd p))"
| "has_int _ = False"

lemma fold_mput_wf: "mwf m \<Longrightarrow> mwf (fold (\<lambda>p. mput (fst p) (snd p)) ps m)"
  by (induction ps arbitrary: m) auto

lemma fold_mput_subset:
  "set (fold (\<lambda>p. mput (fst p) (snd p)) ps m) \<subseteq> set ps \<union> set m"
proof (induction ps arbitrary: m)
  case (Cons p ps)
  have "set (mput (fst p) (snd p) m) \<subseteq> insert p (set m)"
    using set_mput_subset [of "fst p" "snd p" m] by simp
  with Cons [of "mput (fst p) (snd p) m"] show ?case by auto
qed simp

lemma wf_decode_json: "wf_val (decode_json ints j)"
proof (induction ints j rule: decode_json.induct)
  case (6 ints m)
  then show ?case
    using fold_mput_subset [of "map (map_prod id (decode_json ints)) m" "[]"]
    by (fastforce intro: fold_mput_wf)
qed (auto simp: json_number_def split: prod.splits)

lemma decode_json_no_int: "\<not> has_int (decode_json False j)"
proof (induction False j rule: decode_json.induct)
  case (6 m)
  then show ?case
    using fold_mput_subset [of "map (map_prod id (decode_json False)) m" "[]"] by fastforce
qed (auto simp: json_number_def split: prod.splits)

lemma Unmarshal_map_decode:
  assumes "Unmarshal_map raw = Some m"
  obtains j where "decode_json False j = VMap m"
proof -
  from assms consider "m = []" | ps where "raw = Some (JObject ps)"
    by (cases raw; cases "the raw") (auto simp: Unmarshal_map_def)
  then show thesis
  proof cases
    case 1
    then show thesis using that [of "JObject []"] by simp
  next
    case (2 ps)
    then show thesis using assms that [of "JObject ps"] by (simp add: Unmarshal_map_def)
  qed
qed

lemma Unmarshal_map_wf: "Unmarshal_map raw = Some m \<Longrightarrow> wf_val (VMap m)"
  by (erule Unmarshal_map_decode) (metis wf_decode_json)

lemma Unmarshal_map_no_int:
  assumes "Unmarshal_map raw = Some m" and "mget m k = Some v"
  shows "\<not> has_int v"
proof -
  obtain j where "decode_json False j = VMap m"
    using assms(1) by (rule Unmarshal_map_decode)
  then have "\<not> has_int (VMap m)" using decode_json_no_int [of j] by simp
  with assms(2) show ?thesis by (force dest!: map_of_SomeD)
qed

end
