(* ===== verification/Path_Parser.thy ===== *)
theory Path_Parser
  imports Path_Token Values
begin

text \<open>
  Location paths (\<open>pkg/mutation/path/parser\<close>): the nodes of a path, the printer
  \<open>String\<close>, and the recursive-descent parser with one token of lookahead. The theory
  shows that \<open>Parse\<close> ends on every input, which shapes of paths it returns, that it
  inverts the printer on the paths the printer renders unambiguously, and where
  \<open>parseInt64\<close> is exact.
\<close>

section \<open>Nodes\<close>

datatype NodeType = ListNode | ObjectNode | unknown

datatype Node =
    Object (Reference: string)
  | ListN (KeyField: string) (KeyValue: val) (Glob: bool)

type_synonym Path = "Node list"

fun node_Type :: "Node \<Rightarrow> NodeType" where
  "node_Type (Object _) = ObjectNode"
| "node_Type (ListN _ _ _) = ListNode"

fun DeepCopyNode :: "Node \<Rightarrow> Node" where
  "DeepCopyNode (Object r) = Object r"
| "DeepCopyNode (ListN kf kv g) = ListN kf kv g"

definition Path_DeepCopy :: "Path \<Rightarrow> Path" where
  "Path_DeepCopy p = map (\<lambda>i. DeepCopyNode (p ! i)) [0..<length p]"

text \<open>The characters that force quotes: quotes, tab, newline, space, backslash and the
  punctuation of the path grammar.\<close>

definition quote_chars :: string where
  "quote_chars = map char_of [39, 34, 9, 10, 32, 92, 42, 91, 93, 58, 46 :: nat]"

definition needs_quote :: "string \<Rightarrow> bool" where
  "needs_quote s \<longleftrightarrow> ContainsAny s quote_chars \<or> ContainsAny (take 1 s) ''0123456789''"

definition quote :: "string \<Rightarrow> string" where
  "quote s =
     (if length s = 0 then [CHR 0x22, CHR 0x22]
      else if needs_quote s then
        [CHR 0x22] @
        ReplaceAll (ReplaceAll s (CHR 0x5C) [CHR 0x5C, CHR 0x5C]) (CHR 0x22) [CHR 0x5C, CHR 0x22]
        @ [CHR 0x22]
      else s)"

fun Node_String :: "Node \<Rightarrow> string" where
  "Node_String (Object r) = quote r"
| "Node_String (ListN kf kv g) =
     (let key = quote kf in
      if g then ''['' @ key @ '': *]''
      else (case kv of
              VString v \<Rightarrow> ''['' @ key @ '': '' @ quote v @ '']''
            | VInt v \<Rightarrow> ''['' @ key @ '': '' @ format_int (sint v) @ '']''
            | _ \<Rightarrow> ''['' @ key @ '': ]''))"

fun Path_String_from :: "nat \<Rightarrow> Path \<Rightarrow> string" where
  "Path_String_from i [] = []"
| "Path_String_from i (n # ns) =
     (if node_Type n = ObjectNode \<and> 0 < i then ''.'' else []) @ Node_String n
     @ Path_String_from (Suc i) ns"

definition Path_String :: "Path \<Rightarrow> string" where
  "Path_String p = Path_String_from 0 p"

section \<open>Integers\<close>

datatype IntErr = UnexpectedDigit rune | IntOverflow string

fun parseInt64_loop :: "string \<Rightarrow> rune list \<Rightarrow> 64 word \<Rightarrow> IntErr + 64 word" where
  "parseInt64_loop s [] result = Inr result"
| "parseInt64_loop s (d # ds) result =
     (if d < 48 \<or> 57 < d then Inl (UnexpectedDigit d)
      else (let result' = result * 10 + word_of_int (d - 48) in
            if sint result' < 0 then Inl (IntOverflow s)
            else parseInt64_loop s ds result'))"

definition parseInt64 :: "string \<Rightarrow> IntErr + 64 word" where
  "parseInt64 s = parseInt64_loop s (runes s) 0"

section \<open>The parser\<close>

datatype Expected =
  DotOrEof | FieldNameOrEof | KeyFieldInListSpec | ColonAfterKeyField string
  | KeyValueOrGlob | RBracketAfterListSpec

datatype ParseErr =
    ErrTrailingSeparator
  | ErrUnexpectedToken Expected Token
  | ErrInvalidInteger IntErr string

record parser =
  p_scanner :: Scanner
  p_curToken :: Token
  p_peekToken :: Token
  p_err :: "ParseErr option"

definition newParser :: "string \<Rightarrow> parser" where
  "newParser input =
     (let s = NewScanner input;
          (cur, s1) = Next s;
          (peek, s2) = Next s1
      in \<lparr>p_scanner = s2, p_curToken = cur, p_peekToken = peek, p_err = None\<rparr>)"

definition next_tok :: "parser \<Rightarrow> parser" where
  "next_tok p =
     (let (t, s) = Next (p_scanner p)
      in p\<lparr>p_curToken := p_peekToken p, p_peekToken := t, p_scanner := s\<rparr>)"

definition expect :: "TokenType \<Rightarrow> parser \<Rightarrow> bool \<times> parser" where
  "expect t p = (if token_Type (p_peekToken p) = t then (True, next_tok p) else (False, p))"

definition expectPeek :: "TokenType \<Rightarrow> parser \<Rightarrow> bool" where
  "expectPeek t p \<longleftrightarrow> token_Type (p_peekToken p) = t"

definition p_setError :: "ParseErr \<Rightarrow> parser \<Rightarrow> parser" where
  "p_setError e p = (case p_err p of Some _ \<Rightarrow> p | None \<Rightarrow> p\<lparr>p_err := Some e\<rparr>)"

definition parseObject :: "parser \<Rightarrow> Node" where
  "parseObject p = Object (Literal (p_curToken p))"

text \<open>The value of a list specification: \<open>None\<close> after an error has been recorded.\<close>

definition parseKeyValue :: "string \<Rightarrow> parser \<Rightarrow> (val \<times> bool) option \<times> parser" where
  "parseKeyValue keyField p =
     (let (isGlob, p1) = expect GLOB p in
      if isGlob then (Some (VNil, True), p1)
      else (let (isIdent, p2) = expect IDENT p in
      if isIdent then (Some (VString (Literal (p_curToken p2)), False), p2)
      else (let (isInt, p3) = expect INT_TOKEN p in
      if isInt then
        (case parseInt64 (Literal (p_curToken p3)) of
           Inl e \<Rightarrow> (None, p_setError (ErrInvalidInteger e keyField) p3)
         | Inr v \<Rightarrow> (Some (VInt v, False), p3))
      else (None, p_setError (ErrUnexpectedToken KeyValueOrGlob (p_peekToken p)) p))))"

definition parseList :: "parser \<Rightarrow> Node option \<times> parser" where
  "parseList p =
     (let (ok, p1) = expect IDENT p in
      if \<not> ok then (None, p_setError (ErrUnexpectedToken KeyFieldInListSpec (p_peekToken p1)) p1)
      else (let keyField = Literal (p_curToken p1); (ok2, p2) = expect COLON p1 in
      if \<not> ok2 then
        (None, p_setError (ErrUnexpectedToken (ColonAfterKeyField keyField) (p_peekToken p2)) p2)
      else (case parseKeyValue keyField p2 of
        (None, p3) \<Rightarrow> (None, p3)
      | (Some (kv, g), p3) \<Rightarrow>
          (let (ok4, p4) = expect RBRACKET p3 in
           if \<not> ok4 then
             (None, p_setError (ErrUnexpectedToken RBracketAfterListSpec (p_peekToken p4)) p4)
           else (Some (ListN keyField kv g), p4)))))"

text \<open>The optional list specification after a field name, appended to the nodes.\<close>

definition parseOptList :: "parser \<Rightarrow> Node list \<Rightarrow> parser \<times> Node list" where
  "parseOptList p nodes =
     (let (isList, p1) = expect LBRACKET p in
      if isList then
        (case parseList p1 of (Some n, p2) \<Rightarrow> (p2, nodes @ [n]) | (None, p2) \<Rightarrow> (p2, nodes))
      else (p1, nodes))"

definition p_unread :: "parser \<Rightarrow> nat" where
  "p_unread p = unread (p_scanner p)"

lemma p_unread_next_tok: "p_unread (next_tok p) \<le> p_unread p"
  using Next_unread_le [of "p_scanner p"]
  by (auto simp: p_unread_def next_tok_def split: prod.splits)

lemma p_unread_next_tok_less:
  "token_Type (p_peekToken (next_tok p)) \<noteq> EOF \<Longrightarrow> p_unread (next_tok p) < p_unread p"
  using Next_unread_less [of "p_scanner p"]
  by (auto simp: p_unread_def next_tok_def split: prod.splits)

lemma p_unread_expect: "p_unread (snd (expect t p)) \<le> p_unread p"
  by (simp add: expect_def p_unread_next_tok)

lemma p_unread_setError [simp]: "p_unread (p_setError e p) = p_unread p"
  by (simp add: p_setError_def p_unread_def split: option.splits)

lemma p_unread_parseKeyValue: "p_unread (snd (parseKeyValue kf p)) \<le> p_unread p"
  by (auto simp: parseKeyValue_def expect_def p_unread_next_tok split: sum.splits)

lemma p_unread_parseList: "p_unread (snd (parseList p)) \<le> p_unread p"
proof -
  have "p_unread (snd (parseKeyValue kf (next_tok (next_tok p)))) \<le> p_unread p"
    "p_unread (next_tok (snd (parseKeyValue kf (next_tok (next_tok p))))) \<le> p_unread p" for kf
    using p_unread_parseKeyValue p_unread_next_tok order.trans by metis+
  moreover have "p_unread (next_tok (next_tok p)) \<le> p_unread p"
    using p_unread_next_tok order.trans by metis
  ultimately show ?thesis
    by (simp add: parseList_def expect_def p_unread_next_tok Let_def split: prod.splits option.splits)
      (metis snd_conv)+
qed

lemma p_unread_parseOptList: "p_unread (fst (parseOptList p nodes)) \<le> p_unread p"
proof -
  have "p_unread (snd (parseList (next_tok p))) \<le> p_unread p"
    using p_unread_parseList p_unread_next_tok order.trans by metis
  then show ?thesis
    by (auto simp: parseOptList_def expect_def split: prod.splits option.splits)
qed

text \<open>
  The loop of \<open>Parse\<close>. Every turn either leaves the loop, moves to a current token
  that is \<open>EOF\<close>, or consumes a separator that something follows.
\<close>

function parse_loop :: "parser \<Rightarrow> Node list \<Rightarrow> ParseErr option \<times> parser \<times> Node list" where
  "parse_loop p nodes =
     (if token_Type (p_curToken p) = IDENT \<and> p_err p = None then
        (let (p2, nodes2) = parseOptList p (nodes @ [parseObject p]);
             (isSep, p3) = expect SEPARATOR p2
         in if isSep then
              (if expectPeek EOF p3
               then (let p4 = p_setError ErrTrailingSeparator p3 in (p_err p4, p4, []))
               else parse_loop (next_tok p3) nodes2)
            else (let (isEof, p4) = expect EOF p2 in
              if isEof then parse_loop p4 nodes2
              else (let p5 = p_setError (ErrUnexpectedToken DotOrEof (p_peekToken p4)) p4
                    in (p_err p5, p5, []))))
      else (None, p, nodes))"
  by pat_completeness auto

termination
proof (relation "measure (\<lambda>(p, ns).
    2 * p_unread p + (if token_Type (p_curToken p) = IDENT then 1 else 0))")
  fix p p2 p3 :: parser and nodes nodes2 :: "Node list" and x y isSep
  assume cur: "token_Type (p_curToken p) = IDENT \<and> p_err p = None"
    and x: "x = parseOptList p (nodes @ [parseObject p])" "(p2, nodes2) = x"
    and y: "y = expect SEPARATOR p2" "(isSep, p3) = y" "isSep" "\<not> expectPeek EOF p3"
  have "p_unread p2 \<le> p_unread p"
    using p_unread_parseOptList [of p "nodes @ [parseObject p]"] x by (metis fst_conv)
  moreover have "p_unread p3 < p_unread p2"
    using y p_unread_next_tok_less [of p2] by (auto simp: expect_def expectPeek_def split: if_splits)
  moreover have "p_unread (next_tok p3) \<le> p_unread p3" by (rule p_unread_next_tok)
  ultimately show "((next_tok p3, nodes2), p, nodes) \<in> measure (\<lambda>(p, ns).
    2 * p_unread p + (if token_Type (p_curToken p) = IDENT then 1 else 0))"
    by simp
next
  fix p p2 p3 p4 :: parser and nodes nodes2 :: "Node list" and x y z isSep isEof
  assume cur: "token_Type (p_curToken p) = IDENT \<and> p_err p = None"
    and x: "x = parseOptList p (nodes @ [parseObject p])" "(p2, nodes2) = x"
    and y: "y = expect SEPARATOR p2" "(isSep, p3) = y" "\<not> isSep"
    and z: "z = expect EOF p2" "(isEof, p4) = z" "isEof"
  have "p_unread p2 \<le> p_unread p"
    using p_unread_parseOptList [of p "nodes @ [parseObject p]"] x by (metis fst_conv)
  moreover have "p_unread p4 \<le> p_unread p2"
    using p_unread_expect [of EOF p2] z by (metis snd_conv)
  moreover have "token_Type (p_curToken p4) = EOF"
    using z by (auto simp: expect_def next_tok_def split: if_splits prod.splits)
  ultimately show "((p4, nodes2), p, nodes) \<in> measure (\<lambda>(p, ns).
    2 * p_unread p + (if token_Type (p_curToken p) = IDENT then 1 else 0))"
    using cur by simp
qed simp

declare parse_loop.simps [simp del]

definition parser_Parse :: "parser \<Rightarrow> ParseErr + Path" where
  "parser_Parse p0 =
     (case parse_loop p0 [] of
        (Some e, _, _) \<Rightarrow> Inl e
      | (None, p, nodes) \<Rightarrow>
          (let p' = (if token_Type (p_curToken p) \<noteq> EOF
                     then p_setError (ErrUnexpectedToken FieldNameOrEof (p_curToken p)) p else p)
           in (case p_err p' of Some e \<Rightarrow> Inl e | None \<Rightarrow> Inr nodes)))"

definition Parse :: "string \<Rightarrow> ParseErr + Path" where
  "Parse input = parser_Parse (newParser input)"

section \<open>Copies\<close>

lemma DeepCopyNode_id [simp]: "DeepCopyNode n = n"
  by (cases n) auto

lemma Path_DeepCopy_id [simp]: "Path_DeepCopy p = p"
  by (simp add: Path_DeepCopy_def map_nth)

section \<open>The paths that Parse returns\<close>

fun wf_node :: "Node \<Rightarrow> bool" where
  "wf_node (Object _) = True"
| "wf_node (ListN kf kv g) =
     (if g then kv = VNil
      else (case kv of VString _ \<Rightarrow> True | VInt i \<Rightarrow> 0 \<le> sint i | _ \<Rightarrow> False))"

definition not_two_lists :: "Node \<Rightarrow> Node \<Rightarrow> bool" where
  "not_two_lists a b \<longleftrightarrow> node_Type a = ObjectNode \<or> node_Type b = ObjectNode"

text \<open>The shape: it starts with a field name, no list specification follows another, and
  a list specification has a key value unless it is a glob.\<close>

definition wf_path :: "Path \<Rightarrow> bool" where
  "wf_path p \<longleftrightarrow> (p \<noteq> [] \<longrightarrow> node_Type (hd p) = ObjectNode) \<and> successively not_two_lists p \<and>
     list_all wf_node p"

lemma parseInt64_loop_nonneg:
  "parseInt64_loop s ds a = Inr v \<Longrightarrow> 0 \<le> sint a \<Longrightarrow> 0 \<le> sint v"
  by (induction s ds a rule: parseInt64_loop.induct) (auto simp: Let_def split: if_splits)

lemma parseKeyValue_wf:
  "parseKeyValue kf p = (Some (kv, g), p') \<Longrightarrow> wf_node (ListN kf' kv g)"
  by (auto simp: parseKeyValue_def expect_def parseInt64_def dest!: parseInt64_loop_nonneg
      split: if_splits sum.splits)

lemma parseList_wf: "parseList p = (Some n, p') \<Longrightarrow> wf_node n \<and> node_Type n = ListNode"
  by (auto simp: parseList_def Let_def simp del: wf_node.simps intro!: parseKeyValue_wf
      split: if_splits prod.splits option.splits)

lemma wf_path_snoc_Object: "wf_path p \<Longrightarrow> wf_path (p @ [Object r])"
  by (auto simp: wf_path_def successively_append_iff not_two_lists_def hd_append)

lemma wf_path_snoc_List:
  "wf_path (p @ [Object r]) \<Longrightarrow> wf_node n \<Longrightarrow> wf_path (p @ [Object r, n])"
  using successively_append_iff [of not_two_lists "p @ [Object r]" "[n]"]
  by (auto simp: wf_path_def not_two_lists_def hd_append split: if_splits)

lemma parseOptList_wf:
  assumes "parseOptList p (nodes @ [Object r]) = (p', nodes')" and "wf_path nodes"
  shows "wf_path nodes'"
  using assms wf_path_snoc_Object [OF assms(2), of r]
  by (auto simp: parseOptList_def dest!: parseList_wf intro!: wf_path_snoc_List
      split: prod.splits if_splits option.splits)

lemma parse_loop_wf:
  "parse_loop p nodes = (None, p', nodes') \<Longrightarrow> wf_path nodes \<Longrightarrow> wf_path nodes'"
proof (induction p nodes arbitrary: p' nodes' rule: parse_loop.induct)
  case (1 p nodes)
  show ?case
  proof (cases "token_Type (p_curToken p) = IDENT \<and> p_err p = None")
    case False
    with "1.prems" show ?thesis by (subst (asm) parse_loop.simps) auto
  next
    case True
    obtain p2 nodes2 where p2: "parseOptList p (nodes @ [parseObject p]) = (p2, nodes2)"
      by fastforce
    then have wf2: "wf_path nodes2"
      using "1.prems"(2) parseOptList_wf by (auto simp: parseObject_def)
    show ?thesis
      using "1.prems"(1) True p2 wf2 "1.IH"(1) [OF True p2 [symmetric] refl]
        "1.IH"(2) [OF True p2 [symmetric] refl]
      by (subst (asm) parse_loop.simps)
        (auto simp: Let_def p_setError_def split: if_splits prod.splits option.splits)
  qed
qed

lemma Parse_wf_path: "Parse s = Inr p \<Longrightarrow> wf_path p"
  by (auto simp: Parse_def parser_Parse_def Let_def dest!: parse_loop_wf
      simp: wf_path_def [of "[]"] split: prod.splits option.splits)

section \<open>Where parseInt64 is exact\<close>

definition decimal :: "nat \<Rightarrow> rune list \<Rightarrow> nat" where
  "decimal a ds = foldl (\<lambda>a d. a * 10 + nat (d - 48)) a ds"

lemma decimal_simps [simp]:
  "decimal a [] = a" "decimal a (d # ds) = decimal (a * 10 + nat (d - 48)) ds"
  "decimal a (ds @ [d]) = decimal a ds * 10 + nat (d - 48)"
  by (simp_all add: decimal_def)

lemma decimal_ge: "a \<le> decimal a ds"
proof (induction ds arbitrary: a)
  case (Cons d ds)
  from Cons [of "a * 10 + nat (d - 48)"] show ?case by simp
qed simp

lemma sint_of_nat: "n < 2 ^ 63 \<Longrightarrow> sint (of_nat n :: 64 word) = int n"
  by (simp add: sint_uint unsigned_of_nat take_bit_nat_eq_self signed_take_bit_int_eq_self)

lemma parseInt64_loop_exact:
  assumes "\<forall>d \<in> set ds. 48 \<le> d \<and> d \<le> 57" and "decimal a ds < 2 ^ 63"
  shows "parseInt64_loop s ds (of_nat a) = Inr (of_nat (decimal a ds))"
  using assms
proof (induction ds arbitrary: a)
  case (Cons d ds)
  define b where "b = a * 10 + nat (d - 48)"
  have d: "48 \<le> d" "d \<le> 57" using Cons.prems(1) by auto
  have "of_nat a * 10 + word_of_int (d - 48) = (of_nat b :: 64 word)"
    using d by (simp add: b_def)
  moreover have "b < 2 ^ 63"
    using Cons.prems(2) decimal_ge [of b ds] by (simp add: b_def)
  ultimately show ?case
    using Cons.IH [of b] Cons.prems d by (simp add: sint_of_nat b_def [symmetric])
qed simp

lemma runes_ascii_map:
  "\<forall>c \<in> set s. byte c < 128 \<Longrightarrow> runes s = map (\<lambda>c. int (byte c)) s"
  by (induction s) auto

lemma decimal_format_nat: "decimal 0 (map (\<lambda>c. int (byte c)) (format_nat n)) = n"
proof (induction n rule: format_nat.induct)
  case (1 n)
  then show ?case by (subst format_nat.simps) (simp add: nat_diff_distrib')
qed

lemma runes_format_nat: "runes (format_nat n) = map (\<lambda>c. int (byte c)) (format_nat n)"
  by (rule runes_ascii_map) (auto dest: format_nat_digits)

lemma parseInt64_format_nat:
  assumes "n < 2 ^ 63"
  shows "parseInt64 (format_nat n) = Inr (of_nat n)"
  using parseInt64_loop_exact [of "runes (format_nat n)" 0 "format_nat n"] assms
    format_nat_digits decimal_format_nat [of n]
  by (force simp: parseInt64_def runes_format_nat)

section \<open>Printing and parsing\<close>

text \<open>The strings that \<open>quote\<close> renders as one identifier token: those it quotes must be
  valid UTF-8, those it leaves bare must consist of identifier characters.\<close>

definition printable :: "string \<Rightarrow> bool" where
  "printable s \<longleftrightarrow>
     (if s = [] \<or> needs_quote s then valid_utf8 s
      else (\<forall>c \<in> set s. isAlphaNum (int (byte c))))"

fun printable_node :: "Node \<Rightarrow> bool" where
  "printable_node (Object r) = printable r"
| "printable_node (ListN kf kv g) =
     (printable kf \<and> (case kv of VString v \<Rightarrow> printable v | _ \<Rightarrow> True))"

lemma ReplaceAll_append [simp]: "ReplaceAll (a @ b) c d = ReplaceAll a c d @ ReplaceAll b c d"
  by (simp add: ReplaceAll_def)

lemma ReplaceAll_absent: "c \<notin> set a \<Longrightarrow> ReplaceAll a c d = a"
  by (induction a) (auto simp: ReplaceAll_def)

lemma EncodeRune_high:
  assumes "valid_rune r" and "128 \<le> r" and "c \<in> set (EncodeRune r)"
  shows "128 \<le> byte c"
proof -
  obtain n where n: "r = int n" "128 \<le> n" "n \<le> 1114111"
    using assms(1,2) by (metis (mono_tags) int_eq_iff nat_int of_nat_le_iff of_nat_numeral
        valid_rune_def zero_le_imp_eq_int)
  then have "n div 262144 < 5" "n < 65536 \<Longrightarrow> n div 4096 < 16" "n < 2048 \<Longrightarrow> n div 64 < 32"
    by auto
  then show ?thesis
    using assms(3) n EncodeRune_valid [OF assms(1) [unfolded n(1)]] by (auto split: if_splits)
qed

lemma escape_rune:
  assumes "valid_rune r"
  shows "ReplaceAll (ReplaceAll (EncodeRune r) (CHR 0x5C) [CHR 0x5C, CHR 0x5C]) (CHR 0x22) [CHR 0x5C, CHR 0x22]
    = utf8 (esc_runes [r])"
proof (cases "r < 128")
  case True
  define c where "c = (char_of (nat r) :: char)"
  have "r = int (byte c)" and c: "byte c < 128"
    using True assms by (auto simp: c_def valid_rune_def)
  moreover have "byte c = 92 \<longleftrightarrow> c = CHR 0x5C" "byte c = 34 \<longleftrightarrow> c = CHR 0x22"
    using of_char_eq_iff [of c "CHR 0x5C"] of_char_eq_iff [of c "CHR 0x22"] by auto
  ultimately show ?thesis
    by (auto simp: ReplaceAll_def esc_runes_def EncodeRune_lits)
next
  case False
  then have "CHR 0x5C \<notin> set (EncodeRune r)" "CHR 0x22 \<notin> set (EncodeRune r)"
    using EncodeRune_high [OF assms] by fastforce+
  with False show ?thesis by (auto simp: ReplaceAll_absent esc_runes_def)
qed

lemma escape_utf8:
  assumes "list_all valid_rune rs"
  shows "ReplaceAll (ReplaceAll (utf8 rs) (CHR 0x5C) [CHR 0x5C, CHR 0x5C]) (CHR 0x22) [CHR 0x5C, CHR 0x22]
    = utf8 (esc_runes rs)"
  using assms
proof (induction rs)
  case Nil
  then show ?case by (simp add: ReplaceAll_def esc_runes_def)
next
  case (Cons r rs)
  have "esc_runes (r # rs) = esc_runes [r] @ esc_runes rs" by (simp add: esc_runes_def)
  with Cons show ?case by (simp add: escape_rune) (simp add: utf8_def)
qed

text \<open>What follows an identifier or a number in a printed path.\<close>

definition follows :: "string \<Rightarrow> bool" where
  "follows t \<longleftrightarrow> (case t of [] \<Rightarrow> True | c # _ \<Rightarrow> c \<in> set ''.[]:'')"

lemma follows_ends: "follows t \<Longrightarrow> ends_class isAlphaNum t" "follows t \<Longrightarrow> ends_class isDigit t"
  by (auto simp: follows_def ends_class_def isAlphaNum_def isDigit_def split: list.splits)

lemma digit_char: "c \<in> set ''0123456789'' \<longleftrightarrow> 48 \<le> byte c \<and> byte c \<le> 57"
proof -
  have eq: "c = d \<longleftrightarrow> byte c = byte d" for d by (simp add: of_char_eq_iff)
  show ?thesis
    by (simp add: eq [of "CHR ''0''"] eq [of "CHR ''1''"] eq [of "CHR ''2''"] eq [of "CHR ''3''"]
        eq [of "CHR ''4''"] eq [of "CHR ''5''"] eq [of "CHR ''6''"] eq [of "CHR ''7''"]
        eq [of "CHR ''8''"] eq [of "CHR ''9''"]) arith
qed

lemma Next_quote:
  assumes "scans s (quote w @ t)" and "printable w" and "follows t"
  shows "\<exists>s'. Next s = (\<lparr>token_Type = IDENT, Literal = w\<rparr>, s') \<and> scans s' t"
proof (cases "w = [] \<or> needs_quote w")
  case True
  with assms(2) have v: "list_all valid_rune (runes w)" "utf8 (runes w) = w"
    by (auto simp: printable_def valid_utf8_def)
  have "quote w = CHR 0x22 # utf8 (esc_runes (runes w)) @ [CHR 0x22]"
    using True escape_utf8 [OF v(1)] v(2)
    by (cases "w = []") (auto simp: quote_def esc_runes_def ReplaceAll_def)
  then show ?thesis
    using Next_quoted [of s "runes w" t] assms(1) v by simp
next
  case False
  then have "ident_text w"
    using assms(2) digit_char [of "hd w"]
    by (cases w) (auto simp: printable_def ident_text_def needs_quote_def ContainsAny_def
        isAlphaNum_def isDigit_def simp del: set_simps)
  then show ?thesis
    using False assms Next_ident [of s w t] by (simp add: quote_def follows_ends)
qed

subsection \<open>Token streams\<close>

definition EOF_tok :: Token where
  "EOF_tok = \<lparr>token_Type = EOF, Literal = []\<rparr>"

abbreviation ident_tok :: "string \<Rightarrow> Token" where
  "ident_tok w \<equiv> \<lparr>token_Type = IDENT, Literal = w\<rparr>"

text \<open>\<open>stream s ts\<close>: the scanner delivers the tokens \<open>ts\<close> and then only \<open>EOF\<close>.\<close>

fun stream :: "Scanner \<Rightarrow> Token list \<Rightarrow> bool" where
  "stream s [] = scans s []"
| "stream s (t # ts) = (\<exists>s'. Next s = (t, s') \<and> stream s' ts)"

definition tok_at :: "Token list \<Rightarrow> nat \<Rightarrow> Token" where
  "tok_at ts i = (if i < length ts then ts ! i else EOF_tok)"

definition feeds :: "parser \<Rightarrow> Token list \<Rightarrow> bool" where
  "feeds p ts \<longleftrightarrow> p_err p = None \<and> p_curToken p = tok_at ts 0 \<and> p_peekToken p = tok_at ts 1 \<and>
     stream (p_scanner p) (drop 2 ts)"

lemma tok_at_Cons [simp]: "tok_at (t # ts) 0 = t" "tok_at (t # ts) (Suc i) = tok_at ts i"
  by (simp_all add: tok_at_def)

lemma tok_at_Nil [simp]: "tok_at [] i = EOF_tok"
  by (simp add: tok_at_def)

lemma stream_Next:
  assumes "stream s ts"
  obtains s' where "Next s = (tok_at ts 0, s')" "stream s' (tl ts)"
  using assms Next_EOF by (cases ts) (auto simp: EOF_tok_def)

lemma feeds_newParser: "stream (NewScanner input) ts \<Longrightarrow> feeds (newParser input) ts"
proof -
  assume "stream (NewScanner input) ts"
  then obtain s1 where 1: "Next (NewScanner input) = (tok_at ts 0, s1)" "stream s1 (tl ts)"
    by (rule stream_Next)
  from 1(2) obtain s2 where "Next s1 = (tok_at (tl ts) 0, s2)" "stream s2 (tl (tl ts))"
    by (rule stream_Next)
  with 1(1) show ?thesis
    by (cases ts) (auto simp: newParser_def feeds_def drop_Suc numeral_2_eq_2)
qed

lemma feeds_next: "feeds p ts \<Longrightarrow> feeds (next_tok p) (tl ts)"
proof -
  assume p: "feeds p ts"
  then obtain s' where "Next (p_scanner p) = (tok_at (drop 2 ts) 0, s')" "stream s' (tl (drop 2 ts))"
    unfolding feeds_def using stream_Next by metis
  with p show ?thesis
    by (cases ts rule: remdups_adj.cases)
      (auto simp: next_tok_def feeds_def numeral_2_eq_2 drop_Suc)
qed

lemma feeds_peek: "feeds p ts \<Longrightarrow> p_peekToken p = tok_at ts 1"
  and feeds_cur: "feeds p ts \<Longrightarrow> p_curToken p = tok_at ts 0"
  by (simp_all add: feeds_def)

lemma feeds_expect:
  "feeds p (t # u # ts) \<Longrightarrow> token_Type u = ty \<Longrightarrow> expect ty p = (True, next_tok p) \<and> feeds (next_tok p) (u # ts)"
  using feeds_next [of p "t # u # ts"] by (auto simp: expect_def feeds_def)

lemma feeds_expect_not:
  "feeds p ts \<Longrightarrow> token_Type (tok_at ts 1) \<noteq> ty \<Longrightarrow> expect ty p = (False, p)"
  by (simp add: expect_def feeds_def)

subsection \<open>From text to tokens\<close>

fun value_tok :: "val \<Rightarrow> bool \<Rightarrow> Token" where
  "value_tok kv True = \<lparr>token_Type = GLOB, Literal = ''*''\<rparr>"
| "value_tok (VInt i) False = \<lparr>token_Type = INT_TOKEN, Literal = format_int (sint i)\<rparr>"
| "value_tok (VString v) False = ident_tok v"
| "value_tok _ False = EOF_tok"

definition list_toks :: "string \<Rightarrow> val \<Rightarrow> bool \<Rightarrow> Token list" where
  "list_toks kf kv g =
     [\<lparr>token_Type = LBRACKET, Literal = ''[''\<rparr>, ident_tok kf, \<lparr>token_Type = COLON, Literal = '':''\<rparr>,
      value_tok kv g, \<lparr>token_Type = RBRACKET, Literal = '']''\<rparr>]"

fun toks :: "Path \<Rightarrow> Token list" where
  "toks (Object r # ListN kf kv g # ns) =
     ident_tok r # list_toks kf kv g
     @ (if ns = [] then [] else \<lparr>token_Type = SEPARATOR, Literal = ''.''\<rparr> # toks ns)"
| "toks (Object r # ns) =
     ident_tok r # (if ns = [] then [] else \<lparr>token_Type = SEPARATOR, Literal = ''.''\<rparr> # toks ns)"
| "toks _ = []"

lemmas toks_induct = toks.induct [case_names field_list last_field field_field none none_list]

text \<open>The text of the value in a list specification, after the colon.\<close>

definition value_text :: "val \<Rightarrow> bool \<Rightarrow> string" where
  "value_text kv g =
     (if g then ''*''
      else (case kv of VString v \<Rightarrow> quote v | VInt i \<Rightarrow> format_int (sint i) | _ \<Rightarrow> []))"

lemma Node_String_List:
  "Node_String (ListN kf kv g) = CHR ''['' # quote kf @ CHR '':'' # CHR '' '' # value_text kv g @ '']''"
  by (simp add: value_text_def Let_def split: val.splits)

lemma quote_not_space: "printable w \<Longrightarrow> ends_class isSpace (quote w @ t)"
  by (cases w) (auto simp: quote_def ends_class_def isSpace_def printable_def isAlphaNum_def)

lemma Next_value:
  assumes "scans s (CHR '' '' # value_text kv g @ CHR '']'' # t)"
    and "wf_node (ListN kf kv g)" and "printable_node (ListN kf kv g)"
  shows "\<exists>s'. Next s = (value_tok kv g, s') \<and> scans s' (CHR '']'' # t)"
proof -
  define s1 where "s1 = skipWhitespace s"
  have fol: "follows (CHR '']'' # t)" by (simp add: follows_def)
  have s1: "scans s1 (value_text kv g @ CHR '']'' # t)" if "ends_class isSpace (value_text kv g @ CHR '']'' # t)"
    using skipWhitespace_space [OF assms(1) that] by (simp add: s1_def)
  consider "g" | v where "\<not> g" "kv = VString v" | i where "\<not> g" "kv = VInt i" "0 \<le> sint i"
    using assms(2) by (cases g; cases kv) auto
  then have "\<exists>s'. Next s1 = (value_tok kv g, s') \<and> scans s' (CHR '']'' # t)"
  proof cases
    case 1
    then have "scans s1 (CHR ''*'' # CHR '']'' # t)"
      using s1 by (simp add: value_text_def ends_class_def isSpace_def)
    then show ?thesis
      using Next_punct [of s1 "CHR ''*''" "CHR '']'' # t" GLOB] 1 by (simp add: punct_Type_def)
  next
    case (2 v)
    then have "scans s1 (quote v @ CHR '']'' # t)"
      using s1 assms(3) quote_not_space by (simp add: value_text_def)
    then show ?thesis using Next_quote [of s1 v "CHR '']'' # t"] 2 assms(3) fol by simp
  next
    case (3 i)
    define w where "w = format_nat (nat (sint i))"
    have w: "int_text w"
      using format_nat_digits [of _ "nat (sint i)"]
      by (fastforce simp: int_text_def w_def isDigit_def)
    have "value_text kv g = w" using 3 by (simp add: value_text_def format_int_def w_def)
    moreover have "ends_class isSpace (w @ CHR '']'' # t)"
      using w by (cases w) (auto simp: int_text_def ends_class_def isSpace_def isDigit_def)
    ultimately show ?thesis
      using Next_int [of s1 w "CHR '']'' # t"] s1 w 3 follows_ends(2) [OF fol]
      by (simp add: format_int_def w_def)
  qed
  then show ?thesis using Next_skip [of s] by (simp add: s1_def)
qed

lemma stream_list:
  assumes "scans s (Node_String (ListN kf kv g) @ t)"
    and "wf_node (ListN kf kv g)" and "printable_node (ListN kf kv g)"
    and "\<And>s'. scans s' t \<Longrightarrow> stream s' ts"
  shows "stream s (list_toks kf kv g @ ts)"
proof -
  have "scans s (CHR ''['' # quote kf @ CHR '':'' # CHR '' '' # value_text kv g @ CHR '']'' # t)"
    using assms(1) by (simp only: Node_String_List append_Cons append_assoc append_Nil)
  note a = Next_punct [OF this, of LBRACKET, simplified punct_Type_def, simplified]
  obtain s2 where b: "Next (read s) = (ident_tok kf, s2)"
    "scans s2 (CHR '':'' # CHR '' '' # value_text kv g @ CHR '']'' # t)"
    using Next_quote [OF a(2)] assms(3) by (auto simp: follows_def)
  note c = Next_punct [OF b(2), of COLON, simplified punct_Type_def, simplified]
  obtain s4 where d: "Next (read s2) = (value_tok kv g, s4)" "scans s4 (CHR '']'' # t)"
    using Next_value [OF c(2) assms(2,3)] by auto
  note e = Next_punct [OF d(2), of RBRACKET, simplified punct_Type_def, simplified]
  show ?thesis
    using a(1) b(1) c(1) d(1) e(1) assms(4) [OF e(2)] by (simp add: list_toks_def)
qed

lemma Path_String_from_Suc: "Path_String_from (Suc i) ns = Path_String_from (Suc j) ns"
  by (induction ns arbitrary: i j) auto

lemma Path_String_from_tail:
  assumes "ns = [] \<or> node_Type (hd ns) = ObjectNode"
  shows "Path_String_from (Suc i) ns = (if ns = [] then [] else CHR ''.'' # Path_String_from 0 ns)"
  using assms Path_String_from_Suc [of "Suc i" "tl ns" 0] by (cases ns) auto

lemma follows_tail:
  assumes "ns = [] \<or> node_Type (hd ns) = ObjectNode"
  shows "follows (Path_String_from (Suc i) ns)"
  using Path_String_from_tail [OF assms] by (simp add: follows_def)

lemma wf_path_tail:
  "wf_path (Object r # ns) \<Longrightarrow> (ns = [] \<or> node_Type (hd ns) = ObjectNode) \<Longrightarrow> wf_path ns"
  "wf_path (Object r # ListN kf kv g # ns) \<Longrightarrow>
     wf_node (ListN kf kv g) \<and> wf_path ns \<and> (ns = [] \<or> node_Type (hd ns) = ObjectNode)"
  by (cases ns; auto simp: wf_path_def not_two_lists_def)+

lemma stream_tail:
  assumes "ns = [] \<or> node_Type (hd ns) = ObjectNode"
    and "scans s (Path_String_from (Suc i) ns)"
    and "\<And>s. scans s (Path_String_from 0 ns) \<Longrightarrow> stream s (toks ns)"
  shows "stream s (if ns = [] then [] else \<lparr>token_Type = SEPARATOR, Literal = ''.''\<rparr> # toks ns)"
  using assms(2,3) Path_String_from_tail [OF assms(1), of i]
    Next_punct [of s "CHR ''.''" "Path_String_from 0 ns" SEPARATOR]
  by (auto simp: punct_Type_def)

lemma stream_toks:
  assumes "scans s (Path_String_from 0 p)" and "wf_path p" and "list_all printable_node p"
  shows "stream s (toks p)"
  using assms
proof (induction p arbitrary: s rule: toks_induct)
  case (field_list r kf kv g ns)
  note t = wf_path_tail(2) [OF field_list.prems(2)]
  define body where "body = Node_String (ListN kf kv g) @ Path_String_from 2 ns"
  have src: "scans s (quote r @ body)"
    using field_list.prems(1) by (simp add: body_def numeral_2_eq_2 del: Node_String.simps(2))
  have "follows body" by (simp add: body_def follows_def Node_String_List del: Node_String.simps)
  then obtain s' where s': "Next s = (ident_tok r, s')" "scans s' body"
    using Next_quote [OF src] field_list.prems(3) by auto
  have "stream s' (list_toks kf kv g
      @ (if ns = [] then [] else \<lparr>token_Type = SEPARATOR, Literal = ''.''\<rparr> # toks ns))"
  proof (rule stream_list [OF s'(2) [unfolded body_def]])
    show "stream s2 (if ns = [] then [] else \<lparr>token_Type = SEPARATOR, Literal = ''.''\<rparr> # toks ns)"
      if "scans s2 (Path_String_from 2 ns)" for s2
      using stream_tail [of ns s2 1] that t field_list.IH field_list.prems(3)
      by (cases "ns = []") (auto simp: numeral_2_eq_2)
  qed (use t field_list.prems(3) in auto)
  with s'(1) show ?case by simp
next
  case (last_field r)
  then show ?case using Next_quote [of s r "[]"] by (auto simp: follows_def)
next
  case (field_field r q ns)
  have t: "wf_path (Object q # ns)"
    using field_field.prems(2) by (auto intro: wf_path_tail(1))
  have src: "scans s (quote r @ Path_String_from 1 (Object q # ns))"
    using field_field.prems(1) by simp
  obtain s' where s': "Next s = (ident_tok r, s')" "scans s' (Path_String_from 1 (Object q # ns))"
    using Next_quote [OF src] field_field.prems(3) follows_tail [of "Object q # ns" 0] by auto
  then show ?case
    using stream_tail [of "Object q # ns" s' 0] field_field.IH t field_field.prems(3) by simp
qed (auto simp: wf_path_def)

subsection \<open>From tokens to nodes\<close>

lemma value_tok_parse:
  assumes "feeds p (t # value_tok kv g # ts)" and "wf_node (ListN kf' kv g)"
  shows "\<exists>p'. parseKeyValue kf p = (Some (kv, g), p') \<and> feeds p' (value_tok kv g # ts)"
proof -
  consider "g" "kv = VNil" | v where "\<not> g" "kv = VString v" | i where "\<not> g" "kv = VInt i" "0 \<le> sint i"
    using assms(2) by (cases g; cases kv) auto
  then show ?thesis
  proof cases
    case 1
    then show ?thesis
      using feeds_expect [OF assms(1), of GLOB] by (simp add: parseKeyValue_def)
  next
    case (2 v)
    then show ?thesis
      using feeds_expect_not [OF assms(1), of GLOB] feeds_expect [OF assms(1), of IDENT] feeds_cur
      by (auto simp: parseKeyValue_def)
  next
    case (3 i)
    have "nat (sint i) < 2 ^ 63" using sint_less [of i] 3 by simp
    moreover have "of_nat (nat (sint i)) = i" using 3 by simp
    ultimately have "parseInt64 (format_int (sint i)) = Inr i"
      using parseInt64_format_nat [of "nat (sint i)"] 3 by (simp add: format_int_def)
    then show ?thesis
      using feeds_expect_not [OF assms(1), of GLOB] feeds_expect_not [OF assms(1), of IDENT]
        feeds_expect [OF assms(1), of INT_TOKEN] feeds_cur 3
      by (auto simp: parseKeyValue_def)
  qed
qed

lemma list_toks_parse:
  assumes "feeds p (t # list_toks kf kv g @ ts)" and "wf_node (ListN kf kv g)"
  shows "\<exists>p'. parseOptList p nodes = (p', nodes @ [ListN kf kv g]) \<and>
    feeds p' (\<lparr>token_Type = RBRACKET, Literal = '']''\<rparr> # ts)"
proof -
  define rb where "rb = \<lparr>token_Type = RBRACKET, Literal = '']''\<rparr>"
  note f0 = assms(1) [unfolded list_toks_def, simplified]
  note e1 = feeds_expect [OF f0, of LBRACKET, simplified]
  note e2 = feeds_expect [OF e1 [THEN conjunct2], of IDENT, simplified]
  note e3 = feeds_expect [OF e2 [THEN conjunct2], of COLON, simplified]
  obtain p4 where e4: "parseKeyValue kf (next_tok (next_tok (next_tok p))) = (Some (kv, g), p4)"
    "feeds p4 (value_tok kv g # rb # ts)"
    using value_tok_parse [OF e3 [THEN conjunct2] assms(2)] unfolding rb_def by blast
  note e5 = feeds_expect [OF e4(2), of RBRACKET]
  have "Literal (p_curToken (next_tok (next_tok p))) = kf"
    using feeds_cur [OF e2 [THEN conjunct2]] by simp
  then have "parseList (next_tok p) = (Some (ListN kf kv g), next_tok p4)"
    using e2 e3 e4(1) e5 by (simp add: parseList_def rb_def)
  then show ?thesis
    using e1 e5 by (simp add: parseOptList_def rb_def)
qed

lemma parse_loop_EOF: "feeds p [] \<Longrightarrow> parse_loop p nodes = (None, p, nodes)"
  by (subst parse_loop.simps) (simp add: feeds_def EOF_tok_def)

lemma toks_hd: "wf_path ns \<Longrightarrow> ns \<noteq> [] \<Longrightarrow> \<exists>r ts. toks ns = ident_tok r # ts"
  by (cases ns rule: toks.cases) (auto simp: wf_path_def)

lemma parse_loop_step:
  assumes "feeds p (ident_tok r # ts)" and "parseOptList p (nodes @ [Object r]) = (p2, nodes2)"
    and "feeds p2 (t # (if ns = [] then [] else \<lparr>token_Type = SEPARATOR, Literal = ''.''\<rparr> # toks ns))"
    and "wf_path ns"
  shows "\<exists>p'. parse_loop p nodes = parse_loop p' nodes2 \<and> feeds p' (toks ns)"
proof (cases "ns = []")
  case True
  then have f: "feeds p2 [t]" using assms(3) by simp
  have "expect SEPARATOR p2 = (False, p2)" "expect EOF p2 = (True, next_tok p2)"
    using feeds_peek [OF f] by (simp_all add: expect_def EOF_tok_def)
  then have "parse_loop p nodes = parse_loop (next_tok p2) nodes2"
    using assms(1,2) by (subst parse_loop.simps) (simp add: feeds_def parseObject_def)
  then show ?thesis using feeds_next [OF f] True by auto
next
  case False
  obtain q ts' where q: "toks ns = ident_tok q # ts'" using toks_hd [OF assms(4) False] by auto
  then have f: "feeds p2 (t # \<lparr>token_Type = SEPARATOR, Literal = ''.''\<rparr> # ident_tok q # ts')"
    using assms(3) False by simp
  note e = feeds_expect [OF f, of SEPARATOR, simplified]
  have "\<not> expectPeek EOF (next_tok p2)"
    using feeds_peek [OF e [THEN conjunct2]] by (simp add: expectPeek_def)
  then have "parse_loop p nodes = parse_loop (next_tok (next_tok p2)) nodes2"
    using assms(1,2) e by (subst parse_loop.simps) (simp add: feeds_def parseObject_def)
  then show ?thesis using feeds_next [OF e [THEN conjunct2]] q by auto
qed

lemma parse_loop_toks:
  assumes "feeds p (toks path)" and "wf_path path"
  shows "\<exists>p'. parse_loop p nodes = (None, p', nodes @ path) \<and> feeds p' []"
  using assms
proof (induction path arbitrary: p nodes rule: toks_induct)
  case (field_list r kf kv g ns)
  note t = wf_path_tail(2) [OF field_list.prems(2)]
  obtain p2 where p2: "parseOptList p (nodes @ [Object r]) = (p2, (nodes @ [Object r]) @ [ListN kf kv g])"
    "feeds p2 (\<lparr>token_Type = RBRACKET, Literal = '']''\<rparr> #
       (if ns = [] then [] else \<lparr>token_Type = SEPARATOR, Literal = ''.''\<rparr> # toks ns))"
    using list_toks_parse [OF field_list.prems(1) [unfolded toks.simps(1)] t [THEN conjunct1]] by blast
  obtain p' where p': "parse_loop p nodes = parse_loop p' (nodes @ [Object r, ListN kf kv g])"
    "feeds p' (toks ns)"
    using parse_loop_step [OF field_list.prems(1) [unfolded toks.simps(1)] p2] t by auto
  show ?case
    using p' field_list.IH [of p' "nodes @ [Object r, ListN kf kv g]"] t parse_loop_EOF [of p']
    by (cases "ns = []") auto
next
  case (last_field r)
  have "parseOptList p (nodes @ [Object r]) = (p, nodes @ [Object r])"
    using feeds_expect_not [OF last_field.prems(1), of LBRACKET] by (simp add: parseOptList_def EOF_tok_def)
  then obtain p' where "parse_loop p nodes = parse_loop p' (nodes @ [Object r])" "feeds p' []"
    using parse_loop_step [of p r "[]" nodes p _ "ident_tok r" "[]"] last_field.prems(1)
    by (auto simp: wf_path_def)
  then show ?case by (auto simp: parse_loop_EOF)
next
  case (field_field r q ns)
  have wf: "wf_path (Object q # ns)"
    using field_field.prems(2) by (auto intro: wf_path_tail(1))
  have "parseOptList p (nodes @ [Object r]) = (p, nodes @ [Object r])"
    using feeds_expect_not [OF field_field.prems(1), of LBRACKET] by (simp add: parseOptList_def)
  then obtain p' where "parse_loop p nodes = parse_loop p' (nodes @ [Object r])"
    "feeds p' (toks (Object q # ns))"
    using parse_loop_step [of p r _ nodes p _ "ident_tok r" "Object q # ns"] field_field.prems(1) wf
    by fastforce
  with field_field.IH [OF _ this(2) wf, of "nodes @ [Object r]"] show ?case by simp
qed (auto simp: wf_path_def parse_loop_EOF)

lemma Parse_Path_String:
  assumes "wf_path p" and "list_all printable_node p"
  shows "Parse (Path_String p) = Inr p"
proof -
  have "stream (NewScanner (Path_String p)) (toks p)"
    using stream_toks [OF _ assms] scans_NewScanner by (simp add: Path_String_def)
  then have "feeds (newParser (Path_String p)) (toks p)" by (rule feeds_newParser)
  from parse_loop_toks [OF this assms(1), of "[]"] show ?thesis
    by (auto simp: Parse_def parser_Parse_def Let_def feeds_def EOF_tok_def)
qed

end
