(* ===== verification/Mutation_Types.thy ===== *)
theory Mutation_Types
  imports Path_Parser "HOL-Library.Product_Lexorder"
begin

text \<open>
  The identifiers shared by the mutation packages (\<open>pkg/mutation/types\<close>): mutator IDs and
  Kubernetes group-version-kinds, both linearly ordered so that they can key Go maps. The
  order on IDs is the lexicographic one of group, kind, namespace and name, which is the
  order in which the mutation system applies mutators.
\<close>

datatype ID = ID (Group: string) (Kind: string) (Namespace: string) (Name: string)

definition ID_tuple :: "ID \<Rightarrow> string \<times> string \<times> string \<times> string" where
  "ID_tuple i = (Group i, Kind i, Namespace i, Name i)"

lemma ID_tuple_inject [simp]: "ID_tuple i = ID_tuple j \<longleftrightarrow> i = j"
  by (cases i; cases j) (simp add: ID_tuple_def)

instantiation ID :: linorder
begin

definition less_eq_ID :: "ID \<Rightarrow> ID \<Rightarrow> bool" where
  "less_eq_ID i j \<longleftrightarrow> ID_tuple i \<le> ID_tuple j"

definition less_ID :: "ID \<Rightarrow> ID \<Rightarrow> bool" where
  "less_ID i j \<longleftrightarrow> ID_tuple i < ID_tuple j"

instance
  by standard (auto simp: less_eq_ID_def less_ID_def less_le_not_le dest: order.antisym)

end

datatype GVK = GVK (gvk_Group: string) (gvk_Version: string) (gvk_Kind: string)

definition GVK_tuple :: "GVK \<Rightarrow> string \<times> string \<times> string" where
  "GVK_tuple g = (gvk_Group g, gvk_Version g, gvk_Kind g)"

lemma GVK_tuple_inject [simp]: "GVK_tuple i = GVK_tuple j \<longleftrightarrow> i = j"
  by (cases i; cases j) (simp add: GVK_tuple_def)

instantiation GVK :: linorder
begin

definition less_eq_GVK :: "GVK \<Rightarrow> GVK \<Rightarrow> bool" where
  "less_eq_GVK i j \<longleftrightarrow> GVK_tuple i \<le> GVK_tuple j"

definition less_GVK :: "GVK \<Rightarrow> GVK \<Rightarrow> bool" where
  "less_GVK i j \<longleftrightarrow> GVK_tuple i < GVK_tuple j"

instance
  by standard (auto simp: less_eq_GVK_def less_GVK_def less_le_not_le dest: order.antisym)

end

text \<open>\<open>GroupVersionKind.String\<close> of apimachinery.\<close>

definition GVK_String :: "GVK \<Rightarrow> string" where
  "GVK_String g = gvk_Group g @ ''/'' @ gvk_Version g @ '', Kind='' @ gvk_Kind g"

text \<open>\<open>ID.String\<close>: a \<open>GroupKind\<close> prints as \<open>kind.group\<close>, without the dot in the
  core group, and an \<open>ObjectKey\<close> as \<open>namespace/name\<close>.\<close>

definition ID_String :: "ID \<Rightarrow> string" where
  "ID_String i =
     (if Group i = [] then Kind i else Kind i @ ''.'' @ Group i) @ '' '' @
     Namespace i @ ''/'' @ Name i"

text \<open>The metadata of an API object that the modelled code reads.\<close>

record ObjectMeta =
  om_GVK :: GVK
  om_Name :: string
  om_Namespace :: string

definition MakeID :: "ObjectMeta \<Rightarrow> ID" where
  "MakeID obj = ID (gvk_Group (om_GVK obj)) (gvk_Kind (om_GVK obj)) (om_Namespace obj) (om_Name obj)"

definition UnmarshalValue :: "json option \<Rightarrow> val option" where
  "UnmarshalValue data =
     (case Unmarshal_map data of
        None \<Rightarrow> None
      | Some value \<Rightarrow> Some (case mget value ''value'' of Some v \<Rightarrow> v | None \<Rightarrow> VNil))"

instantiation NodeType :: linorder
begin

definition NodeType_index :: "NodeType \<Rightarrow> nat" where
  "NodeType_index t = (case t of ListNode \<Rightarrow> 0 | ObjectNode \<Rightarrow> 1 | unknown \<Rightarrow> 2)"

definition less_eq_NodeType :: "NodeType \<Rightarrow> NodeType \<Rightarrow> bool" where
  "less_eq_NodeType s t \<longleftrightarrow> NodeType_index s \<le> NodeType_index t"

definition less_NodeType :: "NodeType \<Rightarrow> NodeType \<Rightarrow> bool" where
  "less_NodeType s t \<longleftrightarrow> NodeType_index s < NodeType_index t"

instance
proof
  fix x y :: NodeType
  assume "x \<le> y" "y \<le> x"
  then show "x = y"
    by (cases x; cases y) (auto simp: less_eq_NodeType_def NodeType_index_def)
qed (auto simp: less_eq_NodeType_def less_NodeType_def)

end

end
