(* ===== verification/Schema_Node.thy ===== *)
theory Schema_Node
  imports Mutation_Types
begin

text \<open>
  The implicit schema tree of one group-version-kind (\<open>pkg/mutation/schema/node.go\<close>):
  every mutator path is recorded in a trie whose edges are pairs of a key and the type the
  path implies for it. The theory gives the tree an abstract reading, the set of mutators
  that reference each typed path, shows that \<open>Add\<close> and \<open>Remove\<close> act on it as set
  insertion and deletion, that the tree is determined by it, and when \<open>Add\<close> reports
  conflicts.
\<close>

datatype node =
  SNode (ReferencedBy: "ID set") (Children: "(string \<times> (NodeType \<times> node) list) list")

datatype SchemaErr =
    ErrNotFound
  | NoChildForKey string
  | NoChildOfType NodeType string

fun key :: "Node \<Rightarrow> string" where
  "key (Object r) = r"
| "key (ListN kf kv g) = kf"

definition headType :: "Path \<Rightarrow> NodeType" where
  "headType path = (if length path < 2 then unknown else node_Type (path ! 1))"

definition merge_ids :: "ID set \<Rightarrow> ID set \<Rightarrow> ID set" where
  "merge_ids into from = into \<union> from"

text \<open>\<open>n.Children[childKey]\<close>, an empty map when the key is absent.\<close>

definition typesOf :: "node \<Rightarrow> string \<Rightarrow> (NodeType \<times> node) list" where
  "typesOf n childKey = (case mget (Children n) childKey of None \<Rightarrow> [] | Some ts \<Rightarrow> ts)"

definition nTypes :: "(NodeType \<times> node) list \<Rightarrow> nat" where
  "nTypes ts = length ts - (if mhas ts unknown then 1 else 0)"

definition conflicts :: "node \<Rightarrow> string \<Rightarrow> ID set" where
  "conflicts n childKey =
     (let ts = typesOf n childKey in
      fold (\<lambda>(nodeType, child) acc.
              if nodeType = unknown then acc
              else if 1 < nTypes ts \<or> nodeType = ListNode \<and> 1 < length (Children child)
              then merge_ids acc (ReferencedBy child)
              else acc) ts {})"

fun Add :: "ID \<Rightarrow> Path \<Rightarrow> node \<Rightarrow> node \<times> ID set" where
  "Add i [] (SNode refs ch) = (SNode (insert i refs) ch, {})"
| "Add i (p # ps) (SNode refs ch) =
     (let childKey = key p;
          ts = typesOf (SNode refs ch) childKey;
          childType = headType (p # ps);
          child = (case mget ts childType of None \<Rightarrow> SNode {} [] | Some c \<Rightarrow> c);
          (child', cs) = Add i ps child;
          n' = SNode (insert i refs) (mput childKey (mput childType child' ts) ch)
      in (n', merge_ids cs (conflicts n' childKey)))"

fun Remove :: "ID \<Rightarrow> Path \<Rightarrow> node \<Rightarrow> SchemaErr + node" where
  "Remove i [] (SNode refs ch) =
     (if i \<in> refs then Inr (SNode (refs - {i}) ch) else Inl ErrNotFound)"
| "Remove i (p # ps) (SNode refs ch) =
     (if i \<notin> refs then Inl ErrNotFound
      else (case mget ch (key p) of
              None \<Rightarrow> Inl (NoChildForKey (key p))
            | Some ts \<Rightarrow>
                (let childType = headType (p # ps) in
                 case mget ts childType of
                   None \<Rightarrow> Inl (NoChildOfType childType (key p))
                 | Some child \<Rightarrow>
                     (case Remove i ps child of
                        Inl e \<Rightarrow> Inl e
                      | Inr child' \<Rightarrow>
                          (let ts' = (if ReferencedBy child' = {} then mdel childType ts
                                      else mput childType child' ts);
                               ch' = (if ts' = [] then mdel (key p) ch else mput (key p) ts' ch)
                           in Inr (SNode (refs - {i}) ch'))))))"

fun node_HasConflicts :: "Path \<Rightarrow> node \<Rightarrow> SchemaErr + bool" where
  "node_HasConflicts [] n = Inr False"
| "node_HasConflicts (p # ps) n =
     (if \<not> mhas (Children n) (key p) then Inl ErrNotFound
      else if conflicts n (key p) \<noteq> {} then Inr True
      else (case mget (typesOf n (key p)) (headType (p # ps)) of
              None \<Rightarrow> Inl ErrNotFound
            | Some child \<Rightarrow> node_HasConflicts ps child))"

fun node_DeepCopy :: "node \<Rightarrow> node" where
  "node_DeepCopy (SNode refs ch) =
     SNode refs (map (\<lambda>(k, ts). (k, map (\<lambda>(t, child). (t, node_DeepCopy child)) ts)) ch)"

section \<open>The invariant\<close>

text \<open>Every child is referenced, only by mutators that reference its parent, and no key is
  left without a type.\<close>

fun wf_node_tree :: "node \<Rightarrow> bool" where
  "wf_node_tree (SNode refs ch) =
     (mwf ch \<and> (\<forall>(k, ts) \<in> set ch. ts \<noteq> [] \<and> mwf ts \<and>
        (\<forall>(t, c) \<in> set ts. ReferencedBy c \<noteq> {} \<and> ReferencedBy c \<subseteq> refs \<and> wf_node_tree c)))"

definition child_of :: "node \<Rightarrow> string \<Rightarrow> NodeType \<Rightarrow> node option" where
  "child_of n k t = mget (typesOf n k) t"

lemma wf_typesOf: "wf_node_tree n \<Longrightarrow> mwf (typesOf n k)"
  by (cases n) (fastforce simp: typesOf_def split: option.splits dest: map_of_SomeD)

lemma wf_child_of:
  assumes "wf_node_tree n" and "child_of n k t = Some c"
  shows "wf_node_tree c" and "ReferencedBy c \<noteq> {}" and "ReferencedBy c \<subseteq> ReferencedBy n"
  using assms
  by (cases n; fastforce simp: child_of_def typesOf_def split: option.splits dest!: map_of_SomeD)+

lemma wf_node_treeI:
  assumes "mwf ch"
    and "\<And>k ts. mget ch k = Some ts \<Longrightarrow> ts \<noteq> [] \<and> mwf ts"
    and "\<And>k ts t c. mget ch k = Some ts \<Longrightarrow> mget ts t = Some c \<Longrightarrow>
      ReferencedBy c \<noteq> {} \<and> ReferencedBy c \<subseteq> refs \<and> wf_node_tree c"
  shows "wf_node_tree (SNode refs ch)"
  using assms by (fastforce simp: mget_iff_set)

section \<open>The abstract reading\<close>

type_synonym typed_path = "(string \<times> NodeType) list"

fun typed :: "Path \<Rightarrow> typed_path" where
  "typed [] = []"
| "typed (p # ps) = (key p, headType (p # ps)) # typed ps"

fun refs_at :: "node \<Rightarrow> typed_path \<Rightarrow> ID set" where
  "refs_at n [] = ReferencedBy n"
| "refs_at n ((k, t) # q) = (case child_of n k t of None \<Rightarrow> {} | Some c \<Rightarrow> refs_at c q)"

lemma refs_at_subset: "wf_node_tree n \<Longrightarrow> refs_at n q \<subseteq> ReferencedBy n"
proof (induction n q rule: refs_at.induct)
  case (2 n k t q)
  then show ?case
    using wf_child_of [of n k t] by (fastforce split: option.splits)
qed simp

lemma child_of_refs: "wf_node_tree n \<Longrightarrow> child_of n k t = None \<longleftrightarrow> refs_at n [(k, t)] = {}"
  using wf_child_of [of n k t] by (auto split: option.splits)

text \<open>Canonicity: the references determine the tree.\<close>

lemma node_ext:
  "wf_node_tree n \<Longrightarrow> wf_node_tree m \<Longrightarrow> refs_at n = refs_at m \<Longrightarrow> n = m"
proof (induction n arbitrary: m rule: wf_node_tree.induct)
  case (1 refs ch)
  obtain refs' ch' where m: "m = SNode refs' ch'" by (cases m)
  have refs: "refs' = refs" using "1.prems"(3) m by (metis node.sel(1) refs_at.simps(1))
  have none: "child_of (SNode refs ch) k t = None \<longleftrightarrow> child_of m k t = None" for k t
    using child_of_refs "1.prems" by metis
  have sub: "child_of (SNode refs ch) k t = child_of m k t" for k t
  proof (cases "child_of (SNode refs ch) k t")
    case None
    then show ?thesis using none by metis
  next
    case (Some c)
    then obtain d where d: "child_of m k t = Some d" using none [of k t] by fastforce
    have "refs_at c = refs_at d"
    proof
      fix q
      have "refs_at (SNode refs ch) ((k, t) # q) = refs_at m ((k, t) # q)"
        using "1.prems"(3) by simp
      then show "refs_at c q = refs_at d q" using Some d by simp
    qed
    moreover obtain ts where "(k, ts) \<in> set ch" "(t, c) \<in> set ts"
      using Some by (auto simp: child_of_def typesOf_def split: option.splits dest!: map_of_SomeD)
    ultimately show ?thesis
      using "1.IH" [of "(k, ts)" k ts "(t, c)" t c d] Some d wf_child_of(1) "1.prems" by auto
  qed
  have types: "typesOf (SNode refs ch) k = typesOf m k" for k
    using sub [of k] wf_typesOf "1.prems"(1,2) by (auto simp: child_of_def intro!: mwf_ext)
  have "mget ch = mget ch'"
  proof
    fix k
    have "\<And>ts. mget ch k = Some ts \<Longrightarrow> ts \<noteq> []" "\<And>ts. mget ch' k = Some ts \<Longrightarrow> ts \<noteq> []"
      using "1.prems"(1,2) m by (fastforce dest: map_of_SomeD)+
    then show "mget ch k = mget ch' k"
      using types [of k] m by (auto simp: typesOf_def split: option.splits)
  qed
  then have "ch = ch'" using "1.prems"(1,2) m by (auto intro: mwf_ext)
  then show ?case using m refs by simp
qed

section \<open>Adding a path\<close>

lemma child_of_mput:
  assumes "ts = typesOf (SNode r0 ch) k"
  shows "child_of (SNode r (mput k (mput t c ts) ch)) k' t' =
    (if k' = k \<and> t' = t then Some c else child_of (SNode r0 ch) k' t')"
  using assms by (simp add: child_of_def typesOf_def)

lemma Add_Cons:
  assumes "n = SNode refs ch" and "c = (case child_of n (key p) (headType (p # ps)) of
      None \<Rightarrow> SNode {} [] | Some c \<Rightarrow> c)"
  shows "fst (Add i (p # ps) n) = SNode (insert i refs)
      (mput (key p) (mput (headType (p # ps)) (fst (Add i ps c)) (typesOf n (key p))) ch)"
    and "snd (Add i (p # ps) n) =
      snd (Add i ps c) \<union> conflicts (fst (Add i (p # ps) n)) (key p)"
  using assms by (auto simp: Let_def child_of_def merge_ids_def split: prod.splits)

lemma child_of_SNode: "child_of (SNode r ch) = child_of (SNode r0 ch)"
  by (simp add: child_of_def typesOf_def fun_eq_iff)

lemma ReferencedBy_Add [simp]: "ReferencedBy (fst (Add i p n)) = insert i (ReferencedBy n)"
  by (cases p; cases n) (auto simp: Let_def split: prod.splits)

declare Add.simps(2) [simp del]

lemma child_of_Add:
  fixes n p ps
  defines "k \<equiv> key p" and "t \<equiv> headType (p # ps)"
  defines "c \<equiv> (case child_of n k t of None \<Rightarrow> SNode {} [] | Some c \<Rightarrow> c)"
  shows "child_of (fst (Add i (p # ps) n)) k' t' =
    (if k' = k \<and> t' = t then Some (fst (Add i ps c)) else child_of n k' t')"
proof -
  obtain refs ch where n: "n = SNode refs ch" by (cases n)
  show ?thesis
    using Add_Cons(1) [OF n, of c p ps i] child_of_mput [of _ refs ch k _ t]
    by (simp add: c_def k_def t_def n)
qed

lemma wf_empty_node [simp]: "wf_node_tree (SNode {} [])"
  by simp

lemma wf_Add: "wf_node_tree n \<Longrightarrow> wf_node_tree (fst (Add i p n))"
proof (induction p arbitrary: n)
  case Nil
  then show ?case by (cases n) fastforce
next
  case (Cons p ps)
  obtain refs ch where n: "n = SNode refs ch" by (cases n)
  define c where "c = (case child_of n (key p) (headType (p # ps)) of None \<Rightarrow> SNode {} [] | Some c \<Rightarrow> c)"
  define ts where "ts = mput (headType (p # ps)) (fst (Add i ps c)) (typesOf n (key p))"
  have wc: "wf_node_tree c" and rc: "ReferencedBy c \<subseteq> refs"
    using wf_child_of [OF Cons.prems, of "key p" "headType (p # ps)"]
    by (auto simp: c_def n split: option.splits)
  have eq: "fst (Add i (p # ps) n) = SNode (insert i refs) (mput (key p) ts ch)"
    using Add_Cons(1) [OF n c_def] by (simp add: ts_def)
  show ?case
    unfolding eq
  proof (rule wf_node_treeI)
    show "mwf (mput (key p) ts ch)" using Cons.prems n by simp
  next
    fix k us assume "mget (mput (key p) ts ch) k = Some us"
    then show "us \<noteq> [] \<and> mwf us"
      using Cons.prems wf_typesOf [of n "key p"]
      by (auto simp: ts_def n split: if_splits dest!: map_of_SomeD)
  next
    fix k us t d assume "mget (mput (key p) ts ch) k = Some us" "mget us t = Some d"
    then have "child_of (SNode (insert i refs) (mput (key p) ts ch)) k t = Some d"
      by (simp add: child_of_def typesOf_def)
    then have "(if k = key p \<and> t = headType (p # ps) then Some (fst (Add i ps c))
        else child_of n k t) = Some d"
      using child_of_Add [of i p ps n k t] by (simp add: eq c_def)
    then show "ReferencedBy d \<noteq> {} \<and> ReferencedBy d \<subseteq> insert i refs \<and> wf_node_tree d"
      using wf_child_of [OF Cons.prems, of k t d] Cons.IH [OF wc] rc
      by (auto simp: n split: if_splits)
  qed
qed

lemma refs_at_empty [simp]: "refs_at (SNode {} []) q = {}"
  by (cases q) (auto simp: child_of_def typesOf_def)

lemma refs_at_Add:
  "refs_at (fst (Add i p n)) q = refs_at n q \<union> (if prefix q (typed p) then {i} else {})"
proof (induction p arbitrary: n q)
  case Nil
  then show ?case
    by (cases n; cases q) (auto simp: child_of_def typesOf_def)
next
  case (Cons p ps)
  show ?case
  proof (cases q)
    case Nil
    then show ?thesis by auto
  next
    case (Cons e q')
    obtain k t where e: "e = (k, t)" by (cases e)
    show ?thesis
      using Cons.IH child_of_Add [of i p ps n k t]
      by (auto simp: Cons e split: option.splits)
  qed
qed

section \<open>Removing a path\<close>

lemma child_of_removed:
  assumes "mget ch k = Some ts"
    and "ts' = (if b then mdel t ts else mput t c ts)"
    and "ch' = (if ts' = [] then mdel k ch else mput k ts' ch)"
  shows "child_of (SNode r ch') k' t' =
    (if k' = k \<and> t' = t then (if b then None else Some c) else child_of (SNode r0 ch) k' t')"
proof (cases "k' = k")
  case True
  have "typesOf (SNode r ch') k = ts'"
    using assms(3) by (simp add: typesOf_def)
  then show ?thesis
    using assms(1,2) True by (simp add: child_of_def) (simp add: typesOf_def)
next
  case False
  then show ?thesis
    using assms(3) by (simp add: child_of_def typesOf_def)
qed

lemma wf_removed:
  assumes "wf_node_tree (SNode r0 ch)" and "mget ch k = Some ts"
    and "ts' = (if b then mdel t ts else mput t c ts)"
    and "ch' = (if ts' = [] then mdel k ch else mput k ts' ch)"
    and "\<not> b \<Longrightarrow> ReferencedBy c \<noteq> {} \<and> ReferencedBy c \<subseteq> r \<and> wf_node_tree c"
    and "\<And>k' t' d. child_of (SNode r0 ch) k' t' = Some d \<Longrightarrow> (k', t') \<noteq> (k, t) \<Longrightarrow> ReferencedBy d \<subseteq> r"
  shows "wf_node_tree (SNode r ch')"
proof (rule wf_node_treeI)
  have ts: "mwf ts" using assms(1,2) by (fastforce dest: map_of_SomeD)
  show "mwf ch'" using assms(1,4) by simp
  show "us \<noteq> [] \<and> mwf us" if "mget ch' j = Some us" for j us
    using that assms ts by (auto split: if_splits dest!: map_of_SomeD)
  show "ReferencedBy d \<noteq> {} \<and> ReferencedBy d \<subseteq> r \<and> wf_node_tree d"
    if "mget ch' j = Some us" "mget us u = Some d" for j us u d
  proof -
    have "child_of (SNode r ch') j u = Some d"
      using that by (simp add: child_of_def typesOf_def)
    then show ?thesis
      using child_of_removed [OF assms(2-4), of r j u r0] assms(5,6) wf_child_of [OF assms(1), of j u]
      by (auto split: if_splits)
  qed
qed

text \<open>Removing a mutator whose only references are those of the path: it cannot fail, keeps
  the invariant, and takes the mutator out of every reference set.\<close>

lemma Remove_spec:
  assumes "wf_node_tree n" and "\<And>q. i \<in> refs_at n q \<longleftrightarrow> prefix q (typed p)"
  shows "\<exists>n'. Remove i p n = Inr n' \<and> wf_node_tree n' \<and> (\<forall>q. refs_at n' q = refs_at n q - {i})"
  using assms
proof (induction p arbitrary: n)
  case Nil
  obtain refs ch where n: "n = SNode refs ch" by (cases n)
  have i: "i \<in> refs" using Nil.prems(2) [of "[]"] by (simp add: n)
  have not_child: "i \<notin> refs_at n ((k, t) # q)" for k t q
    using Nil.prems(2) [of "(k, t) # q"] by simp
  have wf: "wf_node_tree (SNode (refs - {i}) ch)"
  proof (rule wf_node_treeI)
    show "mwf ch" using Nil.prems(1) n by simp
    show "us \<noteq> [] \<and> mwf us" if "mget ch j = Some us" for j us
      using that Nil.prems(1) n by (fastforce dest!: map_of_SomeD)
    show "ReferencedBy d \<noteq> {} \<and> ReferencedBy d \<subseteq> refs - {i} \<and> wf_node_tree d"
      if "mget ch j = Some us" "mget us u = Some d" for j us u d
    proof -
      have "child_of n j u = Some d" using that by (simp add: child_of_def typesOf_def n)
      then show ?thesis
        using wf_child_of [OF Nil.prems(1), of j u d] not_child [of j u "[]"] by (auto simp: n)
    qed
  qed
  moreover have "refs_at (SNode (refs - {i}) ch) q = refs_at n q - {i}" for q
  proof (cases q)
    case (Cons e q')
    then show ?thesis
      using not_child [of "fst e" "snd e" q'] child_of_SNode [of "refs - {i}" ch refs]
      by (cases e) (simp add: n)
  qed (simp add: n)
  ultimately show ?case using i by (auto simp: n)
next
  case (Cons p ps)
  obtain refs ch where n: "n = SNode refs ch" by (cases n)
  define k t where "k = key p" and "t = headType (p # ps)"
  have typed: "typed (p # ps) = (k, t) # typed ps" by (simp add: k_def t_def)
  have i: "i \<in> refs" using Cons.prems(2) [of "[]"] by (simp add: n)
  obtain c where c: "child_of n k t = Some c"
    using Cons.prems(2) [of "[(k, t)]"] typed by (auto split: option.splits)
  then obtain ts where ts: "mget ch k = Some ts" "mget ts t = Some c"
    by (auto simp: child_of_def typesOf_def n split: option.splits)
  have "i \<in> refs_at c q \<longleftrightarrow> prefix q (typed ps)" for q
    using Cons.prems(2) [of "(k, t) # q"] c typed by simp
  then obtain c' where c': "Remove i ps c = Inr c'" "wf_node_tree c'"
    "\<And>q. refs_at c' q = refs_at c q - {i}"
    using Cons.IH [OF wf_child_of(1) [OF Cons.prems(1) c]] by blast
  define ts' where "ts' = (if ReferencedBy c' = {} then mdel t ts else mput t c' ts)"
  define ch' where "ch' = (if ts' = [] then mdel k ch else mput k ts' ch)"
  have rm: "Remove i (p # ps) n = Inr (SNode (refs - {i}) ch')"
    using i ts c'(1) by (simp add: n k_def [symmetric] t_def [symmetric] ts'_def ch'_def Let_def)
  have rc': "ReferencedBy c' = ReferencedBy c - {i}" using c'(3) [of "[]"] by simp
  have other: "i \<notin> refs_at n ((k', t') # q)" if "(k', t') \<noteq> (k, t)" for k' t' q
    using Cons.prems(2) [of "(k', t') # q"] that typed by auto
  have "wf_node_tree (SNode (refs - {i}) ch')"
  proof (rule wf_removed [OF Cons.prems(1) [unfolded n] ts(1) ts'_def ch'_def])
    show "ReferencedBy c' \<noteq> {} \<and> ReferencedBy c' \<subseteq> refs - {i} \<and> wf_node_tree c'"
      if "ReferencedBy c' \<noteq> {}"
      using that c'(2) rc' wf_child_of(3) [OF Cons.prems(1) c] by (auto simp: n)
    show "ReferencedBy d \<subseteq> refs - {i}"
      if "child_of (SNode refs ch) k' t' = Some d" "(k', t') \<noteq> (k, t)" for k' t' d
      using that wf_child_of(3) [OF Cons.prems(1), of k' t' d] other [of k' t' "[]"] by (auto simp: n)
  qed
  moreover have "refs_at (SNode (refs - {i}) ch') q = refs_at n q - {i}" for q
  proof (cases q)
    case (Cons e q')
    obtain k' t' where e: "e = (k', t')" by (cases e)
    have dead: "refs_at c q' - {i} = {}" if "ReferencedBy c' = {}"
      using that c'(3) [of q'] refs_at_subset [OF c'(2), of q'] by simp
    show ?thesis
      using child_of_removed [OF ts(1) ts'_def ch'_def, of "refs - {i}" k' t' refs] c c'(3) dead
        other [of k' t' q']
      by (auto simp: Cons e n split: option.splits)
  qed (simp add: n)
  ultimately show ?case using rm by blast
qed

lemma Remove_Add:
  assumes "wf_node_tree n" and "i \<notin> ReferencedBy n"
  shows "Remove i p (fst (Add i p n)) = Inr n"
proof -
  have fresh: "i \<notin> refs_at n q" for q using assms refs_at_subset by blast
  then have "i \<in> refs_at (fst (Add i p n)) q \<longleftrightarrow> prefix q (typed p)" for q
    by (simp add: refs_at_Add)
  then obtain n' where n': "Remove i p (fst (Add i p n)) = Inr n'" "wf_node_tree n'"
    "\<And>q. refs_at n' q = refs_at (fst (Add i p n)) q - {i}"
    using Remove_spec [OF wf_Add [OF assms(1)]] by blast
  have "refs_at n' = refs_at n"
  proof
    show "refs_at n' q = refs_at n q" for q
      using n'(3) [of q] fresh [of q] by (auto simp: refs_at_Add)
  qed
  with n' assms(1) show ?thesis using node_ext by simp
qed

section \<open>Conflicts\<close>

definition in_conflict :: "(NodeType \<times> node) list \<Rightarrow> NodeType \<Rightarrow> node \<Rightarrow> bool" where
  "in_conflict ts t c \<longleftrightarrow> t \<noteq> unknown \<and> (1 < nTypes ts \<or> t = ListNode \<and> 1 < length (Children c))"

lemma fold_conflicts:
  "j \<in> fold (\<lambda>(t, c) acc. if t = unknown then acc
               else if Q t c then merge_ids acc (ReferencedBy c) else acc) us A \<longleftrightarrow>
   j \<in> A \<or> (\<exists>t c. (t, c) \<in> set us \<and> t \<noteq> unknown \<and> Q t c \<and> j \<in> ReferencedBy c)"
proof (induction us arbitrary: A)
  case (Cons x us)
  obtain t c where x: "x = (t, c)" by (cases x)
  show ?case
    unfolding x fold_Cons comp_apply prod.case Cons.IH
    by (cases "t = unknown"; cases "Q t c") (auto simp: merge_ids_def)
qed simp

lemma conflicts_iff:
  "j \<in> conflicts n k \<longleftrightarrow>
     (\<exists>t c. (t, c) \<in> set (typesOf n k) \<and> in_conflict (typesOf n k) t c \<and> j \<in> ReferencedBy c)"
  by (simp add: conflicts_def Let_def fold_conflicts in_conflict_def)

lemma conflicts_child:
  assumes "wf_node_tree n"
  shows "j \<in> conflicts n k \<longleftrightarrow>
    (\<exists>t c. child_of n k t = Some c \<and> in_conflict (typesOf n k) t c \<and> j \<in> ReferencedBy c)"
  using mget_iff_set [OF wf_typesOf [OF assms]] by (fastforce simp: conflicts_iff child_of_def)

lemma no_conflicts_child:
  assumes "wf_node_tree n"
  shows "conflicts n k = {} \<longleftrightarrow> (\<forall>t c. child_of n k t = Some c \<longrightarrow> \<not> in_conflict (typesOf n k) t c)"
  using conflicts_child [OF assms] wf_child_of(2) [OF assms] by (metis all_not_in_conv)

lemma nTypes_card:
  assumes "mwf ts"
  shows "nTypes ts = card (fst ` set ts - {unknown})"
proof -
  have "card (fst ` set ts) = length ts"
    using distinct_card [OF mwf_distinct [OF assms]] by simp
  moreover have "mhas ts unknown \<longleftrightarrow> unknown \<in> fst ` set ts"
    by (auto simp: mhas_def mget_None_iff)
  ultimately show ?thesis by (simp add: nTypes_def)
qed

text \<open>A tree without conflicts at any node.\<close>

fun conflict_free :: "node \<Rightarrow> bool" where
  "conflict_free (SNode refs ch) =
     ((\<forall>(k, ts) \<in> set ch. conflicts (SNode refs ch) k = {} \<and>
        (\<forall>(t, c) \<in> set ts. conflict_free c)))"

lemma conflict_free_iff:
  assumes "wf_node_tree n"
  shows "conflict_free n \<longleftrightarrow>
    (\<forall>k. conflicts n k = {}) \<and> (\<forall>k t c. child_of n k t = Some c \<longrightarrow> conflict_free c)"
proof -
  obtain refs ch where n: "n = SNode refs ch" by (cases n)
  have absent: "mget ch k = None \<Longrightarrow> conflicts n k = {}" for k
    by (simp add: conflicts_def typesOf_def n)
  have mch: "mwf ch" and mts: "\<And>k ts. (k, ts) \<in> set ch \<Longrightarrow> mwf ts"
    using assms by (auto simp: n)
  have mem: "child_of n k t = Some c \<longleftrightarrow> (\<exists>ts. (k, ts) \<in> set ch \<and> (t, c) \<in> set ts)" for k t c
  proof -
    have "child_of n k t = Some c \<longleftrightarrow> (\<exists>ts. mget ch k = Some ts \<and> mget ts t = Some c)"
      by (simp add: child_of_def typesOf_def n split: option.splits)
    also have "\<dots> \<longleftrightarrow> (\<exists>ts. (k, ts) \<in> set ch \<and> (t, c) \<in> set ts)"
      using mget_iff_set [OF mch] mget_iff_set [OF mts] by metis
    finally show ?thesis .
  qed
  have cf: "conflict_free n \<longleftrightarrow>
      (\<forall>k ts. (k, ts) \<in> set ch \<longrightarrow> conflicts n k = {} \<and> (\<forall>t c. (t, c) \<in> set ts \<longrightarrow> conflict_free c))"
    by (simp add: n split_beta) (metis fst_conv snd_conv surj_pair)
  have "(\<forall>k. conflicts n k = {}) \<longleftrightarrow> (\<forall>k ts. (k, ts) \<in> set ch \<longrightarrow> conflicts n k = {})"
    using absent by (metis map_of_SomeD option.exhaust)
  then show ?thesis unfolding cf mem by blast
qed

lemma conflict_free_empty [simp]: "conflict_free (SNode {} [])"
  by simp

lemma HasConflicts_conflict_free:
  "wf_node_tree n \<Longrightarrow> conflict_free n \<Longrightarrow> node_HasConflicts p n \<noteq> Inr True"
proof (induction p arbitrary: n)
  case (Cons p ps)
  then show ?case
    using conflict_free_iff [OF Cons.prems(1)] wf_child_of(1) [OF Cons.prems(1), of "key p"]
    by (auto simp: child_of_def split: option.splits)
qed simp

lemma keys_Children_card:
  assumes "wf_node_tree n"
  shows "length (Children n) = card {k. \<exists>t. refs_at n [(k, t)] \<noteq> {}}"
proof -
  obtain refs ch where n: "n = SNode refs ch" by (cases n)
  have "k \<in> fst ` set ch \<longleftrightarrow> (\<exists>t. child_of n k t \<noteq> None)" for k
  proof
    assume "k \<in> fst ` set ch"
    then obtain ts where ts: "mget ch k = Some ts" "ts \<noteq> []"
      using assms by (auto simp: n mget_iff_set)
    then obtain t c ts' where "ts = (t, c) # ts'" by (cases ts) auto
    with ts have "child_of n k t = Some c" by (simp add: child_of_def typesOf_def n)
    then show "\<exists>t. child_of n k t \<noteq> None" by blast
  next
    assume "\<exists>t. child_of n k t \<noteq> None"
    then show "k \<in> fst ` set ch"
      by (auto simp: child_of_def typesOf_def n mget_None_iff split: option.splits)
        (metis image_eqI fst_conv map_of_SomeD)
  qed
  then have "fst ` set ch = {k. \<exists>t. refs_at n [(k, t)] \<noteq> {}}"
    unfolding child_of_refs [OF assms] set_eq_iff mem_Collect_eq by blast
  moreover have "card (fst ` set ch) = length ch"
    using assms distinct_card [OF mwf_distinct, of ch] by (simp add: n)
  ultimately show ?thesis by (simp add: n)
qed

lemma finite_keys: "wf_node_tree n \<Longrightarrow> finite {k. \<exists>t. refs_at n [(k, t)] \<noteq> {}}"
proof -
  assume wf: "wf_node_tree n"
  have "{k. \<exists>t. refs_at n [(k, t)] \<noteq> {}} \<subseteq> fst ` set (Children n)"
    by (cases n) (force simp: child_of_def typesOf_def split: option.splits dest: map_of_SomeD)
  then show ?thesis using finite_subset by blast
qed

lemma typesOf_keys: "wf_node_tree n \<Longrightarrow> fst ` set (typesOf n k) = {t. refs_at n [(k, t)] \<noteq> {}}"
  using child_of_refs [of n k] by (auto simp: child_of_def mget_None_iff)

text \<open>Fewer references, fewer conflicts.\<close>

lemma conflict_free_mono:
  assumes "wf_node_tree n'" and "wf_node_tree n" and "\<And>q. refs_at n' q \<subseteq> refs_at n q"
    and "conflict_free n"
  shows "conflict_free n'"
  using assms
proof (induction n' arbitrary: n rule: wf_node_tree.induct)
  case (1 refs ch)
  let ?n' = "SNode refs ch"
  have sub: "\<exists>c. child_of n k t = Some c \<and> (\<forall>q. refs_at c' q \<subseteq> refs_at c q)"
    if c': "child_of ?n' k t = Some c'" for k t c'
  proof -
    have "refs_at ?n' [(k, t)] \<noteq> {}" using c' wf_child_of(2) [OF "1.prems"(1) c'] by simp
    then obtain c where c: "child_of n k t = Some c"
      using "1.prems"(3) [of "[(k, t)]"] child_of_refs [OF "1.prems"(2), of k t]
      by (metis option.exhaust subset_empty)
    moreover have "refs_at c' q \<subseteq> refs_at c q" for q
      using "1.prems"(3) [of "(k, t) # q"] c c' by simp
    ultimately show ?thesis by blast
  qed
  have types: "nTypes (typesOf ?n' k) \<le> nTypes (typesOf n k)" for k
  proof -
    have "{t. refs_at ?n' [(k, t)] \<noteq> {}} \<subseteq> {t. refs_at n [(k, t)] \<noteq> {}}"
      using "1.prems"(3) by blast
    then have "fst ` set (typesOf ?n' k) \<subseteq> fst ` set (typesOf n k)"
      unfolding typesOf_keys [OF "1.prems"(1)] typesOf_keys [OF "1.prems"(2)] .
    then show ?thesis
      unfolding nTypes_card [OF wf_typesOf [OF "1.prems"(1)]] nTypes_card [OF wf_typesOf [OF "1.prems"(2)]]
      by (intro card_mono) auto
  qed
  have len: "length (Children c') \<le> length (Children c)"
    if "wf_node_tree c'" "wf_node_tree c" "\<forall>q. refs_at c' q \<subseteq> refs_at c q" for c c'
    unfolding keys_Children_card [OF that(1)] keys_Children_card [OF that(2)]
    using that(3) finite_keys [OF that(2)] by (intro card_mono) blast+
  have none: "conflicts ?n' k = {}" for k
  proof (unfold no_conflicts_child [OF "1.prems"(1)], intro allI impI)
    fix t c' assume c': "child_of ?n' k t = Some c'"
    then obtain c where c: "child_of n k t = Some c" "\<forall>q. refs_at c' q \<subseteq> refs_at c q"
      using sub by blast
    have "conflicts n k = {}" using "1.prems"(2,4) conflict_free_iff by blast
    then have "\<not> in_conflict (typesOf n k) t c" using no_conflicts_child [OF "1.prems"(2)] c by blast
    then show "\<not> in_conflict (typesOf ?n' k) t c'"
      using types [of k] len [of c' c] c wf_child_of(1) "1.prems"(1,2) c'
      by (auto simp: in_conflict_def)
  qed
  have kids: "conflict_free c'" if c': "child_of ?n' k t = Some c'" for k t c'
  proof -
    obtain c where c: "child_of n k t = Some c" "\<forall>q. refs_at c' q \<subseteq> refs_at c q"
      using sub c' by blast
    obtain ts where ts: "(k, ts) \<in> set ch" "(t, c') \<in> set ts"
      using c' by (auto simp: child_of_def typesOf_def split: option.splits dest!: map_of_SomeD)
    show ?thesis
      using "1.IH" [OF ts(1) refl ts(2) refl wf_child_of(1) [OF "1.prems"(1) c'], of c]
        c wf_child_of(1) [OF "1.prems"(2) c(1)] "1.prems"(2,4) conflict_free_iff by blast
  qed
  show ?case
    unfolding conflict_free_iff [OF "1.prems"(1)] using none kids by blast
qed

lemma typesOf_Add:
  "typesOf (fst (Add i (p # ps) n)) k =
     (if k = key p then mput (headType (p # ps))
        (fst (Add i ps (case child_of n k (headType (p # ps)) of None \<Rightarrow> SNode {} [] | Some c \<Rightarrow> c)))
        (typesOf n k)
      else typesOf n k)"
  by (cases n) (simp add: Add.simps(2) Let_def child_of_def split: prod.splits,
    simp add: typesOf_def)

lemma conflicts_Add_other: "k \<noteq> key p \<Longrightarrow> conflicts (fst (Add i (p # ps) n)) k = conflicts n k"
  by (simp add: conflicts_def typesOf_Add)

lemma snd_Add:
  "snd (Add i (p # ps) n) =
     snd (Add i ps (case child_of n (key p) (headType (p # ps)) of None \<Rightarrow> SNode {} [] | Some c \<Rightarrow> c))
     \<union> conflicts (fst (Add i (p # ps) n)) (key p)"
  by (cases n) (rule Add_Cons(2) [OF _ refl])

lemma child_or_empty:
  assumes "wf_node_tree n"
  shows "wf_node_tree (case child_of n k t of None \<Rightarrow> SNode {} [] | Some c \<Rightarrow> c)"
    and "ReferencedBy (case child_of n k t of None \<Rightarrow> SNode {} [] | Some c \<Rightarrow> c) \<subseteq> ReferencedBy n"
    and "conflict_free n \<Longrightarrow> conflict_free (case child_of n k t of None \<Rightarrow> SNode {} [] | Some c \<Rightarrow> c)"
  using wf_child_of [OF assms, of k t] conflict_free_iff [OF assms] by (auto split: option.splits)

text \<open>A tree without conflicts stays so when \<open>Add\<close> reports none.\<close>

lemma conflict_free_Add:
  assumes "wf_node_tree n" and "conflict_free n" and "snd (Add i p n) = {}"
  shows "conflict_free (fst (Add i p n))"
  using assms
proof (induction p arbitrary: n)
  case Nil
  obtain refs ch where n: "n = SNode refs ch" by (cases n)
  have "conflicts (SNode (insert i refs) ch) k = conflicts n k" for k
    by (simp add: conflicts_def typesOf_def n)
  then show ?case using Nil.prems(2) by (auto simp: n)
next
  case (Cons p ps)
  let ?c = "case child_of n (key p) (headType (p # ps)) of None \<Rightarrow> SNode {} [] | Some c \<Rightarrow> c"
  have nil: "snd (Add i ps ?c) = {}" "conflicts (fst (Add i (p # ps) n)) (key p) = {}"
    using Cons.prems(3) by (simp_all add: snd_Add)
  have "conflict_free (fst (Add i ps ?c))"
    by (rule Cons.IH) (use nil child_or_empty [OF Cons.prems(1)] Cons.prems(2) in auto)
  then have "conflict_free d" if "child_of (fst (Add i (p # ps) n)) k t = Some d" for k t d
    using that conflict_free_iff [OF Cons.prems(1)] Cons.prems(2) by (auto simp: child_of_Add split: if_splits)
  moreover have "conflicts (fst (Add i (p # ps) n)) k = {}" for k
    using nil(2) conflicts_Add_other [of k p] conflict_free_iff [OF Cons.prems(1)] Cons.prems(2) by metis
  ultimately show ?case
    using conflict_free_iff [OF wf_Add [OF Cons.prems(1)], of i "p # ps"] by blast
qed

lemma length_mput: "length (mput k v m) \<le> Suc (length m)"
  by (induction k v m rule: mput.induct) auto

lemma length_Children_Add: "length (Children (fst (Add i p n))) \<le> Suc (length (Children n))"
  by (cases p; cases n) (auto simp: Add.simps(2) Let_def length_mput split: prod.splits)

text \<open>
  What \<open>Add\<close> reports when a new mutator joins a tree without conflicts: the mutator
  itself and at least one other.
\<close>

lemma Add_reports:
  assumes "wf_node_tree n" and "conflict_free n" and "i \<notin> ReferencedBy n"
    and "snd (Add i p n) \<noteq> {}"
  shows "i \<in> snd (Add i p n) \<and> (\<exists>j. j \<noteq> i \<and> j \<in> snd (Add i p n))"
  using assms
proof (induction p arbitrary: n)
  case Nil
  then show ?case by (cases n) simp
next
  case (Cons p ps)
  define k t where "k = key p" and "t = headType (p # ps)"
  define c where "c = (case child_of n k t of None \<Rightarrow> SNode {} [] | Some c \<Rightarrow> c)"
  define n' where "n' = fst (Add i (p # ps) n)"
  have wf': "wf_node_tree n'" using wf_Add Cons.prems(1) by (simp add: n'_def)
  have child': "child_of n' k' t' = (if k' = k \<and> t' = t then Some (fst (Add i ps c)) else child_of n k' t')"
    for k' t' by (simp add: n'_def c_def k_def t_def child_of_Add)
  have reports: "snd (Add i (p # ps) n) = snd (Add i ps c) \<union> conflicts n' k"
    by (simp add: snd_Add n'_def c_def k_def t_def)
  show ?case
  proof (cases "snd (Add i ps c) = {}")
    case False
    have "wf_node_tree c" "conflict_free c" "i \<notin> ReferencedBy c"
      using child_or_empty [OF Cons.prems(1), of k t] Cons.prems(2,3) by (auto simp: c_def)
    from Cons.IH [OF this False] reports show ?thesis by blast
  next
    case True
    then obtain u d where ud: "child_of n' k u = Some d" "in_conflict (typesOf n' k) u d"
      using Cons.prems(4) reports no_conflicts_child [OF wf', of k] by auto
    have old: "\<not> in_conflict (typesOf n k) u d" if "child_of n k u = Some d" for u d
      using that Cons.prems(1,2) no_conflicts_child conflict_free_iff by metis
    have keys: "fst ` set (typesOf n' k) = insert t (fst ` set (typesOf n k))"
      by (simp add: n'_def k_def t_def typesOf_Add)
    note card = nTypes_card [OF wf_typesOf [OF wf'], of k] nTypes_card [OF wf_typesOf [OF Cons.prems(1)], of k]
    have fresh: "j \<noteq> i" if "child_of n k v = Some e" "j \<in> ReferencedBy e" for v e j
      using that wf_child_of(3) [OF Cons.prems(1) that(1)] Cons.prems(3) by blast
    have hit: "in_conflict (typesOf n' k) t (fst (Add i ps c)) \<and>
        (\<exists>j. j \<noteq> i \<and> j \<in> conflicts n' k)"
    proof (cases "1 < nTypes (typesOf n' k)")
      case many: True
      have t: "t \<noteq> unknown"
      proof
        assume "t = unknown"
        then have "nTypes (typesOf n' k) = nTypes (typesOf n k)" "u \<noteq> t"
          using card keys ud(2) by (auto simp: in_conflict_def insert_Diff_if)
        then show False using ud child' [of k u] old many by (auto simp: in_conflict_def)
      qed
      obtain v where v: "v \<in> fst ` set (typesOf n' k) - {unknown}" "v \<noteq> t"
        using many card(1) card_le_Suc0_iff_eq [of "fst ` set (typesOf n' k) - {unknown}"]
        by (metis (no_types, lifting) One_nat_def finite_Diff finite_imageI finite_set leD)
      then obtain e where e: "child_of n k v = Some e" "child_of n' k v = Some e"
        using keys child' [of k v] by (auto simp: child_of_def mget_None_iff dest: mget_None_iff [THEN iffD1])
          (metis image_eqI fst_conv mget_None_iff not_None_eq)
      obtain j where "j \<in> ReferencedBy e" using wf_child_of(2) [OF Cons.prems(1) e(1)] by blast
      then have "j \<noteq> i \<and> j \<in> conflicts n' k"
        using fresh e v many conflicts_child [OF wf', of j k] by (auto simp: in_conflict_def)
      then show ?thesis using t many by (auto simp: in_conflict_def)
    next
      case False
      then have u: "u = ListNode" "1 < length (Children d)" using ud(2) by (auto simp: in_conflict_def)
      have ut: "u = t"
      proof (rule ccontr)
        assume "u \<noteq> t"
        then have "child_of n k u = Some d" using ud(1) child' [of k u] by simp
        from old [OF this] u show False by (simp add: in_conflict_def)
      qed
      then have d: "d = fst (Add i ps c)" using ud(1) child' by simp
      have "Children c \<noteq> []" using u(2) length_Children_Add [of i ps c] d by auto
      then have c: "child_of n k t = Some c" by (auto simp: c_def split: option.splits)
      obtain j where j: "j \<in> ReferencedBy c" using wf_child_of(2) [OF Cons.prems(1) c] by blast
      then have "j \<in> ReferencedBy d" by (simp add: d)
      then have "j \<in> conflicts n' k"
        using conflicts_child [OF wf', of j k] ud by blast
      then show ?thesis using ud(2) ut d fresh [OF c j] by auto
    qed
    have "child_of n' k t = Some (fst (Add i ps c))" "i \<in> ReferencedBy (fst (Add i ps c))"
      using child' [of k t] by simp_all
    then have "i \<in> conflicts n' k"
      using hit conflicts_child [OF wf', of i k] by blast
    then show ?thesis using hit reports by blast
  qed
qed

lemma node_DeepCopy_id: "node_DeepCopy n = n"
proof (induction n rule: node_DeepCopy.induct)
  case (1 refs ch)
  have "map (\<lambda>(t, c). (t, node_DeepCopy c)) ts = ts" if "(k, ts) \<in> set ch" for k ts
    using 1 that by (intro map_idI) fastforce
  then show ?case by (simp, intro map_idI) auto
qed

end
