(* ===== verification/Match.thy ===== *)
theory Match
  imports Mutation_Types
begin

text \<open>
  Which objects a mutator is for (\<open>pkg/mutation/match\<close>), over unstructured objects with
  the accessors of apimachinery that the code uses. Label selectors are converted by
  apimachinery: the parameter \<open>asSelector\<close> stands for \<open>LabelSelectorAsSelector\<close> followed
  by \<open>Matches\<close> (\<open>None\<close> when the conversion fails).
\<close>

section \<open>Unstructured objects\<close>

type_synonym object = "(string \<times> val) list"
type_synonym labels = "(string \<times> string) list"

fun NestedFieldNoCopy :: "val \<Rightarrow> string list \<Rightarrow> string + val option" where
  "NestedFieldNoCopy v [] = Inr (Some v)"
| "NestedFieldNoCopy v (f # fs) =
     (case v of
        VNil \<Rightarrow> Inr None
      | VMap m \<Rightarrow> (case mget m f of None \<Rightarrow> Inr None | Some w \<Rightarrow> NestedFieldNoCopy w fs)
      | _ \<Rightarrow> Inl ''accessor error'')"

definition NestedString :: "object \<Rightarrow> string list \<Rightarrow> string + string option" where
  "NestedString obj fs =
     (case NestedFieldNoCopy (VMap obj) fs of
        Inl e \<Rightarrow> Inl e
      | Inr None \<Rightarrow> Inr None
      | Inr (Some (VString s)) \<Rightarrow> Inr (Some s)
      | Inr (Some _) \<Rightarrow> Inl ''accessor error'')"

definition getNestedString :: "object \<Rightarrow> string list \<Rightarrow> string" where
  "getNestedString obj fs = (case NestedString obj fs of Inr (Some s) \<Rightarrow> s | _ \<Rightarrow> [])"

fun string_entries :: "(string \<times> val) list \<Rightarrow> labels option" where
  "string_entries [] = Some []"
| "string_entries ((k, v) # m) =
     (case (v, string_entries m) of (VString s, Some r) \<Rightarrow> Some ((k, s) # r) | _ \<Rightarrow> None)"

definition NestedStringMap :: "object \<Rightarrow> string list \<Rightarrow> labels" where
  "NestedStringMap obj fs =
     (case NestedFieldNoCopy (VMap obj) fs of
        Inr (Some (VMap m)) \<Rightarrow> (case string_entries m of Some r \<Rightarrow> r | None \<Rightarrow> [])
      | _ \<Rightarrow> [])"

definition GetName :: "object \<Rightarrow> string" where
  "GetName obj = getNestedString obj [''metadata'', ''name'']"

definition GetNamespace :: "object \<Rightarrow> string" where
  "GetNamespace obj = getNestedString obj [''metadata'', ''namespace'']"

definition GetLabels :: "object \<Rightarrow> labels" where
  "GetLabels obj = NestedStringMap obj [''metadata'', ''labels'']"

definition ParseGroupVersion :: "string \<Rightarrow> (string \<times> string) option" where
  "ParseGroupVersion gv =
     (if gv = [] \<or> gv = ''/'' then Some ([], [])
      else let n = length (filter (\<lambda>c. c = CHR ''/'') gv) in
        if n = 0 then Some ([], gv)
        else if n = 1 then
          Some (takeWhile (\<lambda>c. c \<noteq> CHR ''/'') gv, tl (dropWhile (\<lambda>c. c \<noteq> CHR ''/'') gv))
        else None)"

definition GroupVersionKind :: "object \<Rightarrow> GVK" where
  "GroupVersionKind obj =
     (case ParseGroupVersion (getNestedString obj [''apiVersion'']) of
        None \<Rightarrow> GVK [] [] []
      | Some (g, v) \<Rightarrow> GVK g v (getNestedString obj [''kind'']))"

section \<open>Match specifications\<close>

record ApplyTo =
  at_Groups :: "string list"
  at_Kinds :: "string list"
  at_Versions :: "string list"

definition Flatten :: "ApplyTo \<Rightarrow> GVK list" where
  "Flatten a =
     concat (map (\<lambda>group. concat (map (\<lambda>version.
       map (\<lambda>kind. GVK group version kind) (at_Kinds a)) (at_Versions a))) (at_Groups a))"

record Kinds =
  APIGroups :: "string list"
  kk_Kinds :: "string list"

datatype LabelSelector =
  LabelSelector (MatchLabels: labels) (MatchExpressions: "(string \<times> string \<times> string list) list")

record Match =
  match_Kinds :: "Kinds list"
  Scope :: string
  Namespaces :: "string list"
  ExcludedNamespaces :: "string list"
  label_Selector :: "LabelSelector option"
  NamespaceSelector :: "LabelSelector option"

text \<open>A \<open>*corev1.Namespace\<close>: name and labels.\<close>

record NamespaceObj =
  ns_Name :: string
  ns_Labels :: labels

type_synonym selectors = "LabelSelector \<Rightarrow> (labels \<Rightarrow> bool) option"

datatype MatchErr = NilNamespace | InvalidSelector LabelSelector

definition isNamespace :: "object \<Rightarrow> bool" where
  "isNamespace obj \<longleftrightarrow> gvk_Kind (GroupVersionKind obj) = ''Namespace'' \<and> gvk_Group (GroupVersionKind obj) = []"

definition prefixMatch :: "string \<Rightarrow> string \<Rightarrow> bool" where
  "prefixMatch source candidate =
     (if \<not> HasSuffix source ''*'' then False
      else HasPrefix candidate (TrimSuffix source ''*''))"

text \<open>The two inner loops over \<open>kk.Kinds\<close> and \<open>kk.APIGroups\<close>.\<close>

definition kinds_match :: "GVK \<Rightarrow> Kinds \<Rightarrow> bool" where
  "kinds_match gvk kk \<longleftrightarrow>
     (list_ex (\<lambda>k. k = ''*'' \<or> k = gvk_Kind gvk) (kk_Kinds kk) \<or> length (kk_Kinds kk) = 0) \<and>
     (list_ex (\<lambda>g. g = ''*'' \<or> g = gvk_Group gvk) (APIGroups kk) \<or> length (APIGroups kk) = 0)"

definition selector_matches :: "selectors \<Rightarrow> LabelSelector \<Rightarrow> labels \<Rightarrow> MatchErr + bool" where
  "selector_matches asSelector sel ls =
     (case asSelector sel of None \<Rightarrow> Inl (InvalidSelector sel) | Some f \<Rightarrow> Inr (f ls))"

definition Matches :: "selectors \<Rightarrow> Match \<Rightarrow> object \<Rightarrow> NamespaceObj option \<Rightarrow> MatchErr + bool" where
  "Matches asSelector match obj ns =
     (if isNamespace obj \<and> ns = None then Inl NilNamespace
      else if \<not> (list_ex (kinds_match (GroupVersionKind obj)) (match_Kinds match) \<or> length (match_Kinds match) = 0)
      then Inr False
      else let clusterScoped = (ns = None \<or> isNamespace obj) in
      if Scope match = ''Cluster'' \<and> \<not> clusterScoped then Inr False
      else if Scope match = ''Namespaced'' \<and> clusterScoped then Inr False
      else (case ns of
        None \<Rightarrow> Inr True
      | Some n \<Rightarrow>
          if \<not> list_ex (\<lambda>p. ns_Name n = p \<or> prefixMatch p (ns_Name n)) (Namespaces match) \<and>
             length (Namespaces match) > 0 then Inr False
          else if list_ex (\<lambda>p. ns_Name n = p \<or> prefixMatch p (ns_Name n)) (ExcludedNamespaces match)
          then Inr False
          else (case (case label_Selector match of
                        None \<Rightarrow> Inr True
                      | Some sel \<Rightarrow> selector_matches asSelector sel (GetLabels obj)) of
                  Inl e \<Rightarrow> Inl e
                | Inr False \<Rightarrow> Inr False
                | Inr True \<Rightarrow>
                    (case NamespaceSelector match of
                       None \<Rightarrow> Inr True
                     | Some sel \<Rightarrow>
                         (if isNamespace obj then selector_matches asSelector sel (GetLabels obj)
                          else if clusterScoped
                          then map_sum id (\<lambda>_. True) (selector_matches asSelector sel [])
                          else selector_matches asSelector sel (ns_Labels n))))))"

fun AppliesTo :: "ApplyTo list \<Rightarrow> object \<Rightarrow> bool" where
  "AppliesTo [] obj = False"
| "AppliesTo (apply # rest) obj =
     (let gvk = GroupVersionKind obj;
          matchesGroup = list_ex (\<lambda>g. g = gvk_Group gvk) (at_Groups apply);
          matchesVersion = list_ex (\<lambda>g. g = gvk_Version gvk) (at_Versions apply);
          matchesKind = list_ex (\<lambda>g. g = gvk_Kind gvk) (at_Kinds apply)
      in if matchesGroup \<and> matchesVersion \<and> matchesKind then True else AppliesTo rest obj)"

section \<open>Correctness\<close>

lemma set_Flatten:
  "set (Flatten a) = {GVK g v k |g v k. g \<in> set (at_Groups a) \<and> v \<in> set (at_Versions a) \<and> k \<in> set (at_Kinds a)}"
  by (auto simp: Flatten_def)

lemma mem_Flatten:
  "g \<in> set (Flatten a) \<longleftrightarrow>
    gvk_Group g \<in> set (at_Groups a) \<and> gvk_Version g \<in> set (at_Versions a) \<and> gvk_Kind g \<in> set (at_Kinds a)"
  by (cases g) (simp add: set_Flatten)

lemma AppliesTo_Flatten:
  "AppliesTo as obj \<longleftrightarrow> (\<exists>a \<in> set as. GroupVersionKind obj \<in> set (Flatten a))"
  by (induction as) (auto simp: Let_def mem_Flatten list_ex_iff)

lemma prefixMatch_iff:
  "prefixMatch source candidate \<longleftrightarrow> (\<exists>p rest. source = p @ ''*'' \<and> candidate = p @ rest)"
  by (auto simp: prefixMatch_def HasSuffix_def HasPrefix_def TrimSuffix_def prefix_def suffix_def)

text \<open>The reference: what it means for a match to select an object.\<close>

definition names_namespace :: "string list \<Rightarrow> string \<Rightarrow> bool" where
  "names_namespace pats n \<longleftrightarrow>
     (\<exists>p \<in> set pats. p = n \<or> (\<exists>q. p = q @ ''*'' \<and> prefix q n))"

lemma names_namespace_list_ex:
  "list_ex (\<lambda>p. n = p \<or> prefixMatch p n) pats = names_namespace pats n"
  by (auto simp: names_namespace_def list_ex_iff prefixMatch_iff prefix_def)

definition selected_by :: "selectors \<Rightarrow> LabelSelector option \<Rightarrow> labels \<Rightarrow> bool" where
  "selected_by asSelector sel ls \<longleftrightarrow>
     (case sel of None \<Rightarrow> True | Some l \<Rightarrow> (case asSelector l of None \<Rightarrow> False | Some f \<Rightarrow> f ls))"

definition match_spec :: "selectors \<Rightarrow> Match \<Rightarrow> object \<Rightarrow> NamespaceObj option \<Rightarrow> bool" where
  "match_spec asSelector match obj ns \<longleftrightarrow>
     (let gvk = GroupVersionKind obj; is_ns = isNamespace obj in
      (is_ns \<longrightarrow> ns \<noteq> None) \<and>
      (match_Kinds match = [] \<or> (\<exists>kk \<in> set (match_Kinds match).
         (kk_Kinds kk = [] \<or> ''*'' \<in> set (kk_Kinds kk) \<or> gvk_Kind gvk \<in> set (kk_Kinds kk)) \<and>
         (APIGroups kk = [] \<or> ''*'' \<in> set (APIGroups kk) \<or> gvk_Group gvk \<in> set (APIGroups kk)))) \<and>
      (Scope match = ''Cluster'' \<longrightarrow> ns = None \<or> is_ns) \<and>
      (Scope match = ''Namespaced'' \<longrightarrow> ns \<noteq> None \<and> \<not> is_ns) \<and>
      (case ns of None \<Rightarrow> True | Some n \<Rightarrow>
         (Namespaces match = [] \<or> names_namespace (Namespaces match) (ns_Name n)) \<and>
         \<not> names_namespace (ExcludedNamespaces match) (ns_Name n) \<and>
         selected_by asSelector (label_Selector match) (GetLabels obj) \<and>
         selected_by asSelector (NamespaceSelector match) (if is_ns then GetLabels obj else ns_Labels n)))"

lemma kinds_match_iff:
  "kinds_match gvk kk \<longleftrightarrow>
     (kk_Kinds kk = [] \<or> ''*'' \<in> set (kk_Kinds kk) \<or> gvk_Kind gvk \<in> set (kk_Kinds kk)) \<and>
     (APIGroups kk = [] \<or> ''*'' \<in> set (APIGroups kk) \<or> gvk_Group gvk \<in> set (APIGroups kk))"
  unfolding kinds_match_def list_ex_iff by auto

lemma list_ex_kinds:
  "(list_ex (kinds_match gvk) kks \<or> length kks = 0) \<longleftrightarrow> (kks = [] \<or> (\<exists>kk \<in> set kks. kinds_match gvk kk))"
  by (auto simp: list_ex_iff)

lemma Matches_spec: "Matches asSelector match obj ns = Inr True \<longleftrightarrow> match_spec asSelector match obj ns"
  unfolding Matches_def match_spec_def Let_def names_namespace_list_ex list_ex_kinds kinds_match_iff
  by (cases ns; cases "label_Selector match"; cases "NamespaceSelector match")
    (simp_all add: selector_matches_def selected_by_def split: option.splits bool.splits)

text \<open>Only a nil namespace or a selector that does not convert makes an error.\<close>

lemma Matches_Inl:
  "Matches asSelector match obj ns = Inl e \<Longrightarrow>
    (e = NilNamespace \<and> isNamespace obj \<and> ns = None) \<or>
    (\<exists>sel. e = InvalidSelector sel \<and> asSelector sel = None \<and> ns \<noteq> None)"
  unfolding Matches_def Let_def
  by (auto simp: selector_matches_def split: if_splits option.splits sum.splits bool.splits)

end
