(* ===== verification/Path_Tester.thy ===== *)
theory Path_Tester
  imports Path_Parser
begin

text \<open>
  Path tests (\<open>pkg/mutation/path/tester\<close>): conditions that the object being mutated must
  meet at given depths of the location. The theory shows that a tester that \<open>New\<close>
  accepts enforces exactly the conditions it was given, and characterises the conflicts
  that \<open>New\<close> finds between two tests.
\<close>

type_synonym Condition = string

definition MustExist :: Condition where
  "MustExist = ''MustExist''"

definition MustNotExist :: Condition where
  "MustNotExist = ''MustNotExist''"

definition conditions :: "(string \<times> Condition) list" where
  "conditions = [(''MustExist'', MustExist), (''MustNotExist'', MustNotExist)]"

definition StringToCondition :: "string \<Rightarrow> Condition option" where
  "StringToCondition s = mget conditions s"

record Test =
  SubPath :: Path
  test_Condition :: Condition

datatype TesterErr =
    ErrPrefix Path Path
  | ErrConflictBoth Path
  | ErrConflictParent "Path option" "Path option"

definition isPrefix :: "Path \<Rightarrow> Path \<Rightarrow> bool" where
  "isPrefix short long =
     (if length long < length short then False
      else list_all (\<lambda>(i, e). e = long ! i) (enumerate 0 short))"

fun validatePathTests :: "Path \<Rightarrow> Test list \<Rightarrow> TesterErr option" where
  "validatePathTests loc [] = None"
| "validatePathTests loc (t # ts) =
     (if \<not> isPrefix (SubPath t) loc then Some (ErrPrefix (SubPath t) loc)
      else validatePathTests loc ts)"

record Tester =
  tests :: "(int, Condition) gomap"

record tester_scan =
  ts_tests :: "(int, Condition) gomap"
  ts_paths :: "(int, Path) gomap"
  idxLowestMustNot :: int
  idxHighestMust :: int

definition MaxInt32 :: int where
  "MaxInt32 = 2147483647"

text \<open>One turn of the loop that reads in all tests; \<open>i\<close> is the index of the test.\<close>

definition New_read :: "nat \<times> Test \<Rightarrow> tester_scan \<Rightarrow> tester_scan" where
  "New_read it st =
     (let i = int (fst it); test = snd it; j = int (length (SubPath test)) - 1;
          st' = st\<lparr>ts_tests := mput j (test_Condition test) (ts_tests st),
                   ts_paths := mput j (SubPath test) (ts_paths st)\<rparr>
      in if test_Condition test = MustNotExist \<and> i < idxLowestMustNot st'
         then st'\<lparr>idxLowestMustNot := i\<rparr>
         else if test_Condition test = MustExist \<and> idxHighestMust st' < i
         then st'\<lparr>idxHighestMust := i\<rparr>
         else st')"

fun New_conflict :: "(int, Condition) gomap \<Rightarrow> Test list \<Rightarrow> TesterErr option" where
  "New_conflict m [] = None"
| "New_conflict m (test # ts) =
     (case mget m (int (length (SubPath test)) - 1) of
        Some v \<Rightarrow> if v \<noteq> test_Condition test then Some (ErrConflictBoth (SubPath test))
                  else New_conflict m ts
      | None \<Rightarrow> New_conflict m ts)"

definition New_scan :: "Test list \<Rightarrow> tester_scan" where
  "New_scan ts = fold New_read (enumerate 0 ts)
     \<lparr>ts_tests = [], ts_paths = [], idxLowestMustNot = MaxInt32, idxHighestMust = 0\<rparr>"

definition New :: "Path \<Rightarrow> Test list \<Rightarrow> TesterErr + Tester" where
  "New location ts =
     (case validatePathTests location ts of
        Some e \<Rightarrow> Inl e
      | None \<Rightarrow>
          (let st = New_scan ts in
           case New_conflict (ts_tests st) ts of
             Some e \<Rightarrow> Inl e
           | None \<Rightarrow>
               if idxLowestMustNot st < idxHighestMust st
               then Inl (ErrConflictParent (mget (ts_paths st) (idxHighestMust st))
                                           (mget (ts_paths st) (idxLowestMustNot st)))
               else Inr \<lparr>tests = ts_tests st\<rparr>))"

definition ExistsOkay :: "Tester \<Rightarrow> nat \<Rightarrow> bool" where
  "ExistsOkay pt depth =
     (case mget (tests pt) (int depth) of None \<Rightarrow> True | Some c \<Rightarrow> c = MustExist)"

definition MissingOkay :: "Tester \<Rightarrow> nat \<Rightarrow> bool" where
  "MissingOkay pt depth =
     (case mget (tests pt) (int depth) of None \<Rightarrow> True | Some c \<Rightarrow> c = MustNotExist)"

definition Tester_DeepCopy :: "Tester option \<Rightarrow> Tester option" where
  "Tester_DeepCopy pt =
     (case pt of None \<Rightarrow> None
      | Some t \<Rightarrow> Some \<lparr>tests = fold (\<lambda>(k, v). mput k v) (tests t) []\<rparr>)"

section \<open>Lemmas\<close>

lemma MustExist_neq [simp]: "MustExist \<noteq> MustNotExist" "MustNotExist \<noteq> MustExist"
  by (simp_all add: MustExist_def MustNotExist_def)

lemma isPrefix_iff: "isPrefix short long \<longleftrightarrow> prefix short long"
proof (cases "length long < length short")
  case True
  then show ?thesis by (auto simp: isPrefix_def dest: prefix_length_le)
next
  case False
  then have "list_all (\<lambda>(i, e). e = long ! i) (enumerate 0 short) \<longleftrightarrow>
      (\<forall>i < length short. short ! i = long ! i)"
    by (auto simp: list_all_length nth_enumerate_eq)
  also have "\<dots> \<longleftrightarrow> take (length short) long = short"
    using False by (auto simp: list_eq_iff_nth_eq)
  also have "\<dots> \<longleftrightarrow> prefix short long" by (metis append_take_drop_id prefix_def append_eq_conv_conj)
  finally show ?thesis using False by (simp add: isPrefix_def)
qed

lemma validatePathTests_None:
  "validatePathTests loc ts = None \<longleftrightarrow> (\<forall>t \<in> set ts. prefix (SubPath t) loc)"
  by (induction ts) (auto simp: isPrefix_iff)

lemma New_read_tests [simp]:
  "ts_tests (New_read it st) = mput (int (length (SubPath (snd it))) - 1) (test_Condition (snd it)) (ts_tests st)"
  by (simp add: New_read_def Let_def)

lemma New_scan_dom:
  "fst ` set (ts_tests (fold New_read its st)) =
     fst ` set (ts_tests st) \<union> (\<lambda>it. int (length (SubPath (snd it))) - 1) ` set its"
  by (induction its arbitrary: st) auto

lemma New_scan_wf: "mwf (ts_tests st) \<Longrightarrow> mwf (ts_tests (fold New_read its st))"
  by (induction its arbitrary: st) auto

lemma New_conflict_None:
  "New_conflict m ts = None \<longleftrightarrow>
     (\<forall>t \<in> set ts. \<forall>v. mget m (int (length (SubPath t)) - 1) = Some v \<longrightarrow> v = test_Condition t)"
  by (induction ts) (auto split: option.splits)

lemma New_Inr_tests: "New loc ts = Inr pt \<Longrightarrow> tests pt = ts_tests (New_scan ts)"
  by (auto simp: New_def Let_def split: option.splits if_splits)

lemma New_Inr_wf: "New loc ts = Inr pt \<Longrightarrow> mwf (tests pt)"
  by (simp add: New_Inr_tests New_scan_def New_scan_wf)

lemma New_tests_keys:
  assumes "New loc ts = Inr pt"
  shows "fst ` set (tests pt) = (\<lambda>t. int (length (SubPath t)) - 1) ` set ts"
proof -
  have "snd ` set (enumerate 0 ts) = set ts"
    by (metis map_snd_enumerate set_map)
  then have "(\<lambda>it. int (length (SubPath (snd it))) - 1) ` set (enumerate 0 ts)
      = (\<lambda>t. int (length (SubPath t)) - 1) ` set ts"
    by (metis (mono_tags, lifting) image_cong image_image)
  then show ?thesis
    by (simp add: New_Inr_tests [OF assms] New_scan_def New_scan_dom)
qed

lemma New_enforces:
  assumes "New loc ts = Inr pt" and "t \<in> set ts"
  shows "mget (tests pt) (int (length (SubPath t)) - 1) = Some (test_Condition t)"
proof -
  have "int (length (SubPath t)) - 1 \<in> fst ` set (tests pt)"
    using New_tests_keys [OF assms(1)] assms(2) by auto
  then obtain v where v: "mget (tests pt) (int (length (SubPath t)) - 1) = Some v"
    by (metis mget_None_iff option.exhaust)
  moreover have "New_conflict (tests pt) ts = None"
    using assms(1) by (auto simp: New_def Let_def split: option.splits if_splits)
  ultimately show ?thesis using assms(2) by (auto simp: New_conflict_None)
qed

lemma Tester_DeepCopy_id:
  assumes "mwf (tests t)"
  shows "Tester_DeepCopy (Some t) = Some t"
proof -
  have "mget (fold (\<lambda>(k, v). mput k v) xs m) k = (case mget xs k of Some v \<Rightarrow> Some v | None \<Rightarrow> mget m k)"
    if "distinct (map fst xs)" for xs :: "(int, Condition) gomap" and m k
    using that by (induction xs arbitrary: m) (auto split: option.splits simp: mget_None_iff image_iff)
  then have "mget (fold (\<lambda>(k, v). mput k v) (tests t) []) = mget (tests t)"
    using mwf_distinct [OF assms] by (auto split: option.splits)
  moreover have "mwf (fold (\<lambda>(k, v). mput k v) xs m)" if "mwf m"
    for xs :: "(int, Condition) gomap" and m
    using that by (induction xs arbitrary: m) auto
  ultimately show ?thesis
    using assms by (simp add: Tester_DeepCopy_def mwf_ext)
qed

end
