(* ===== verification/Mutation_Core.thy ===== *)
theory Mutation_Core
  imports Path_Tester
begin

text \<open>
  The generic mutation walk (\<open>pkg/mutation/mutators/core\<close>). The code changes Go maps in
  place while it copies slices, and it may return an error after it has already changed
  part of the object. The model therefore returns two things: the state in which the call
  leaves the value it was given, and the returned triple. The theory shows that the walk is
  equivalent to a purely functional assignment, that a walk that reports no mutation
  changed nothing, that it is idempotent, and what it leaves alone.
\<close>

datatype MutErr =
    EmptyTargetLocation
  | NilObject
  | MismatchObject Node
  | MismatchList Node
  | LastEntryGlobbed
  | ObjectValueRequired Node
  | NilKeyValue
  | KeyValueMustNotChange
  | ConsecutiveLists Node Node
  | NoKeyValue
  | CastError
  | ValueError string

record mutatorState =
  ms_path :: Path
  ms_Value :: "MutErr + val"
  ms_tester :: Tester
  ms_valueTest :: "(val \<Rightarrow> bool \<Rightarrow> bool) option"

text \<open>The returned \<open>(mutated, value, err)\<close>; \<open>nil\<close> is \<open>VNil\<close>.\<close>

type_synonym mutRes = "MutErr + bool \<times> val"

definition nestedFieldNoCopy :: "val \<Rightarrow> string \<Rightarrow> MutErr + val option" where
  "nestedFieldNoCopy current k =
     (case current of VMap m \<Rightarrow> Inr (mget m k) | _ \<Rightarrow> Inl CastError)"

text \<open>\<open>pathEntry\<close> is the entry at the current depth and \<open>nextPathEntry\<close> the one after it.\<close>

definition createMissingElement :: "Node \<Rightarrow> Node \<Rightarrow> MutErr + val" where
  "createMissingElement pathEntry nextPathEntry =
     (let next = (case nextPathEntry of Object _ \<Rightarrow> VMap [] | ListN _ _ _ \<Rightarrow> VList []) in
      case pathEntry of
        Object _ \<Rightarrow> Inr next
      | ListN kf kv g \<Rightarrow>
          (case next of
             VMap m \<Rightarrow> if kv = VNil then Inl NoKeyValue else Inr (VMap (mput kf kv m))
           | _ \<Rightarrow> Inl (ConsecutiveLists pathEntry nextPathEntry)))"

text \<open>The loop of \<open>setListElementToValue\<close>: \<open>None\<close> when no element has the key, else the
  result the loop returns.\<close>

fun replaceListElement ::
    "mutatorState \<Rightarrow> nat \<Rightarrow> string \<Rightarrow> val \<Rightarrow> (string \<times> val) list \<Rightarrow> val list \<Rightarrow> val list \<Rightarrow> mutRes option" where
  "replaceListElement s depth k keyValue newValue done [] = None"
| "replaceListElement s depth k keyValue newValue done (e # es) =
     (case nestedFieldNoCopy e k of
        Inl err \<Rightarrow> Some (Inl err)
      | Inr (Some elementValue) \<Rightarrow>
          if keyValue = elementValue then
            (if mget newValue k \<noteq> Some keyValue then Some (Inl KeyValueMustNotChange)
             else if \<not> ExistsOkay (ms_tester s) depth then Some (Inr (False, VNil))
             else Some (Inr (True, VList (done @ VMap newValue # es))))
          else replaceListElement s depth k keyValue newValue (done @ [e]) es
      | Inr None \<Rightarrow> replaceListElement s depth k keyValue newValue (done @ [e]) es)"

definition setListElementToValue ::
    "mutatorState \<Rightarrow> val list \<Rightarrow> string \<Rightarrow> val \<Rightarrow> bool \<Rightarrow> nat \<Rightarrow> mutRes" where
  "setListElementToValue s currentAsList kf kv glob depth =
     (if glob then Inl LastEntryGlobbed
      else (case ms_Value s of
        Inl e \<Rightarrow> Inl e
      | Inr (VMap newValue) \<Rightarrow>
          if kv = VNil then Inl NilKeyValue
          else (case replaceListElement s depth kf kv newValue [] currentAsList of
                  Some r \<Rightarrow> r
                | None \<Rightarrow>
                    if \<not> MissingOkay (ms_tester s) depth then Inr (False, VNil)
                    else Inr (True, VList (currentAsList @ [VMap newValue])))
      | Inr _ \<Rightarrow> Inl (ObjectValueRequired (ListN kf kv glob))))"

text \<open>
  The loop over the elements of a list. \<open>rec\<close> is the recursive call on an element. The
  result is the list with the changes made in place, and either how the loop left the
  function early or the flags \<open>mutated\<close> and \<open>elementFound\<close>.
\<close>

fun mutateElements ::
    "(val \<Rightarrow> val \<times> mutRes) \<Rightarrow> bool \<Rightarrow> string \<Rightarrow> val \<Rightarrow> bool \<Rightarrow> val list \<Rightarrow> bool \<Rightarrow> bool
     \<Rightarrow> val list \<times> (mutRes + bool \<times> bool)" where
  "mutateElements rec glob k kv existsOkay [] mutated found = ([], Inr (mutated, found))"
| "mutateElements rec glob k kv existsOkay (e # es) mutated found =
     (let selected = (glob \<or> (case e of VMap em \<Rightarrow> mget em k = Some kv | _ \<Rightarrow> False)) in
      if \<not> selected then
        (let (es', r) = mutateElements rec glob k kv existsOkay es mutated found in (e # es', r))
      else if \<not> glob \<and> \<not> existsOkay then (e # es, Inl (Inr (False, VNil)))
      else (case rec e of
              (e', Inl err) \<Rightarrow> (e' # es, Inl (Inl err))
            | (e', Inr (m, _)) \<Rightarrow>
                (let (es', r) = mutateElements rec glob k kv existsOkay es (mutated \<or> m) True
                 in (e' # es', r))))"

text \<open>\<open>mutateInternal s nodes current depth\<close>: \<open>nodes\<close> are the path entries from
  \<open>depth\<close> on.\<close>

fun mutateInternal :: "mutatorState \<Rightarrow> Path \<Rightarrow> val \<Rightarrow> nat \<Rightarrow> val \<times> mutRes" where
  "mutateInternal s [] current depth = (current, Inl EmptyTargetLocation)"
| "mutateInternal s (Object ref # ps) current depth =
     (case current of
        VMap m \<Rightarrow>
          (let next = mget m ref; exists = (next \<noteq> None) in
           if exists \<and> \<not> ExistsOkay (ms_tester s) depth then (current, Inr (False, VNil))
           else if \<not> exists \<and> \<not> MissingOkay (ms_tester s) depth then (current, Inr (False, VNil))
           else (case ps of
             [] \<Rightarrow>
               (if (case ms_valueTest s of None \<Rightarrow> False
                    | Some vt \<Rightarrow> \<not> vt (case next of Some v \<Rightarrow> v | None \<Rightarrow> VNil) exists)
                then (current, Inr (False, VNil))
                else (case ms_Value s of
                        Inl e \<Rightarrow> (current, Inl e)
                      | Inr value \<Rightarrow>
                          (VMap (mput ref value m), Inr (True, VMap (mput ref value m)))))
           | q # _ \<Rightarrow>
               (case (case next of Some v \<Rightarrow> Inr v | None \<Rightarrow> createMissingElement (Object ref) q) of
                  Inl e \<Rightarrow> (current, Inl e)
                | Inr child \<Rightarrow>
                    (let (child', r) = mutateInternal s ps child (Suc depth);
                         m1 = (if exists then mput ref child' m else m)
                     in (case r of
                           Inl e \<Rightarrow> (VMap m1, Inl e)
                         | Inr (mutated, next') \<Rightarrow>
                             (let m2 = (if mutated then mput ref next' m1 else m1)
                              in (VMap m2, Inr (mutated, VMap m2))))))))
      | _ \<Rightarrow> (current, Inl (MismatchObject (Object ref))))"
| "mutateInternal s (ListN kf kv glob # ps) current depth =
     (case current of
        VList xs \<Rightarrow>
          (case ps of
             [] \<Rightarrow> (current, setListElementToValue s xs kf kv glob depth)
           | q # _ \<Rightarrow>
               (if glob \<and> \<not> ExistsOkay (ms_tester s) depth then (current, Inr (False, VNil))
                else (case mutateElements (\<lambda>e. mutateInternal s ps e (Suc depth)) glob kf kv
                             (ExistsOkay (ms_tester s) depth) xs False False of
                  (xs', Inl r) \<Rightarrow> (VList xs', r)
                | (xs', Inr (mutated, found)) \<Rightarrow>
                    (if \<not> glob \<and> \<not> found then
                       (if \<not> MissingOkay (ms_tester s) depth then (VList xs', Inr (False, VNil))
                        else (case createMissingElement (ListN kf kv glob) q of
                          Inl e \<Rightarrow> (VList xs', Inl e)
                        | Inr next \<Rightarrow>
                            (case mutateInternal s ps next (Suc depth) of
                               (next', Inl e) \<Rightarrow> (VList xs', Inl e)
                             | (next', Inr (m, _)) \<Rightarrow>
                                 (VList xs', Inr (mutated \<or> m, VList (xs' @ [next']))))))
                     else (VList xs', Inr (mutated, VList xs'))))))
      | _ \<Rightarrow> (current, Inl (MismatchList (ListN kf kv glob))))"

text \<open>\<open>core.Mutate\<close> on \<open>obj.Object\<close>; the object \<open>None\<close> is a nil pointer.\<close>

definition core_Mutate :: "mutatorState \<Rightarrow> (string \<times> val) list option \<Rightarrow> val \<times> (MutErr + bool)" where
  "core_Mutate s obj =
     (if length (ms_path s) = 0
      then ((case obj of Some m \<Rightarrow> VMap m | None \<Rightarrow> VNil), Inl EmptyTargetLocation)
      else (case obj of
              None \<Rightarrow> (VNil, Inl NilObject)
            | Some m \<Rightarrow>
                (case mutateInternal s (ms_path s) (VMap m) 0 of
                   (obj', Inl e) \<Rightarrow> (obj', Inl e)
                 | (obj', Inr (mutated, _)) \<Rightarrow> (obj', Inr mutated))))"

section \<open>The functional assignment\<close>

text \<open>
  The reference: the value that takes the place of \<open>current\<close>, or \<open>None\<close> when the
  conditions of the mutator keep the object as it is. Nothing is changed in place.
\<close>

definition selects :: "bool \<Rightarrow> string \<Rightarrow> val \<Rightarrow> val \<Rightarrow> bool" where
  "selects glob k kv e \<longleftrightarrow> glob \<or> (case e of VMap em \<Rightarrow> mget em k = Some kv | _ \<Rightarrow> False)"

fun assignElements :: "(val \<Rightarrow> MutErr + val option) \<Rightarrow> (val \<Rightarrow> bool) \<Rightarrow> val list \<Rightarrow> MutErr + val list \<times> bool" where
  "assignElements rec sel [] = Inr ([], False)"
| "assignElements rec sel (e # es) =
     (if \<not> sel e then
        (case assignElements rec sel es of Inl err \<Rightarrow> Inl err | Inr (es', b) \<Rightarrow> Inr (e # es', b))
      else (case rec e of
        Inl err \<Rightarrow> Inl err
      | Inr r \<Rightarrow>
          (case assignElements rec sel es of
             Inl err \<Rightarrow> Inl err
           | Inr (es', b) \<Rightarrow> Inr ((case r of None \<Rightarrow> e | Some e' \<Rightarrow> e') # es', r \<noteq> None \<or> b))))"

definition outcome :: "mutRes \<Rightarrow> MutErr + val option" where
  "outcome res = (case res of Inl e \<Rightarrow> Inl e | Inr (mutated, v) \<Rightarrow> Inr (if mutated then Some v else None))"

fun assignAt :: "mutatorState \<Rightarrow> Path \<Rightarrow> val \<Rightarrow> nat \<Rightarrow> MutErr + val option" where
  "assignAt s [] current depth = Inl EmptyTargetLocation"
| "assignAt s (Object ref # ps) current depth =
     (case current of
        VMap m \<Rightarrow>
          (if (if mhas m ref then \<not> ExistsOkay (ms_tester s) depth else \<not> MissingOkay (ms_tester s) depth)
           then Inr None
           else (case ps of
             [] \<Rightarrow>
               (if (case ms_valueTest s of None \<Rightarrow> False
                    | Some vt \<Rightarrow> \<not> vt (case mget m ref of Some v \<Rightarrow> v | None \<Rightarrow> VNil) (mhas m ref))
                then Inr None
                else map_sum id (\<lambda>v. Some (VMap (mput ref v m))) (ms_Value s))
           | q # _ \<Rightarrow>
               (case (case mget m ref of Some v \<Rightarrow> Inr v | None \<Rightarrow> createMissingElement (Object ref) q) of
                  Inl e \<Rightarrow> Inl e
                | Inr child \<Rightarrow>
                    map_sum id (map_option (\<lambda>c. VMap (mput ref c m))) (assignAt s ps child (Suc depth)))))
      | _ \<Rightarrow> Inl (MismatchObject (Object ref)))"
| "assignAt s (ListN kf kv glob # ps) current depth =
     (case current of
        VList xs \<Rightarrow>
          (case ps of
             [] \<Rightarrow> outcome (setListElementToValue s xs kf kv glob depth)
           | q # _ \<Rightarrow>
               (if \<not> glob \<and> \<not> list_ex (selects glob kf kv) xs then
                  (if \<not> MissingOkay (ms_tester s) depth then Inr None
                   else (case createMissingElement (ListN kf kv glob) q of
                     Inl e \<Rightarrow> Inl e
                   | Inr next \<Rightarrow>
                       map_sum id (map_option (\<lambda>c. VList (xs @ [c]))) (assignAt s ps next (Suc depth))))
                else if \<not> ExistsOkay (ms_tester s) depth then Inr None
                else (case assignElements (\<lambda>e. assignAt s ps e (Suc depth)) (selects glob kf kv) xs of
                        Inl e \<Rightarrow> Inl e
                      | Inr (ys, b) \<Rightarrow> Inr (if b then Some (VList ys) else None))))
      | _ \<Rightarrow> Inl (MismatchList (ListN kf kv glob)))"

section \<open>The walk implements the assignment\<close>

definition path_okay :: "Path \<Rightarrow> bool" where
  "path_okay p \<longleftrightarrow> successively not_two_lists p \<and> list_all wf_node p"

lemma wf_path_okay: "wf_path p \<Longrightarrow> path_okay p"
  by (simp add: wf_path_def path_okay_def)

lemma path_okay_tl: "path_okay (p # ps) \<Longrightarrow> path_okay ps"
  by (cases ps) (auto simp: path_okay_def)

lemma path_okay_list: "path_okay (ListN kf kv g # q # ps) \<Longrightarrow> \<exists>r. q = Object r"
  by (cases q) (auto simp: path_okay_def not_two_lists_def)

lemma wf_node_kv: "wf_node (ListN kf kv g) \<Longrightarrow> wf_val kv"
  by (auto split: if_splits val.splits)

lemma createMissing_wf:
  "createMissingElement p q = Inr v \<Longrightarrow> wf_node p \<Longrightarrow> wf_val v"
  by (cases p) (auto simp: createMissingElement_def Let_def mwf_def dest: wf_node_kv
      simp del: wf_node.simps split: Node.splits val.splits if_splits)

text \<open>What the walk has to satisfy on one value: the returned triple is the assignment's,
  an unmutated value is untouched, and a mutated map is the returned one.\<close>

definition simulates :: "val \<Rightarrow> val \<times> mutRes \<Rightarrow> MutErr + val option \<Rightarrow> bool" where
  "simulates v step ref \<longleftrightarrow> outcome (snd step) = ref \<and>
     (ref = Inr None \<longrightarrow> fst step = v) \<and>
     (\<forall>w. ref = Inr (Some w) \<and> (\<exists>m. v = VMap m) \<longrightarrow> fst step = w)"

lemma mutateElements_blocked:
  assumes "list_ex (selects False k kv) xs"
  shows "mutateElements rec False k kv False xs mu fo = (xs, Inl (Inr (False, VNil)))"
  using assms by (induction xs) (auto simp: selects_def Let_def)

lemma mutateElements_none:
  assumes "\<not> list_ex (selects g k kv) xs"
  shows "mutateElements rec g k kv E xs mu fo = (xs, Inr (mu, fo))"
  using assms by (induction xs) (auto simp: selects_def Let_def)

lemma mutateElements_sim:
  assumes "glob \<or> E"
    and "\<And>e. e \<in> set xs \<Longrightarrow> selects glob k kv e \<Longrightarrow>
      simulates e (step e) (ref e) \<and> (\<forall>w. ref e = Inr (Some w) \<longrightarrow> (\<exists>m. e = VMap m))"
  shows "case assignElements ref (selects glob k kv) xs of
      Inl err \<Rightarrow> snd (mutateElements step glob k kv E xs mu fo) = Inl (Inl err)
    | Inr (ys, b) \<Rightarrow> mutateElements step glob k kv E xs mu fo =
        (ys, Inr (mu \<or> b, fo \<or> list_ex (selects glob k kv) xs))"
  using assms(2)
proof (induction xs arbitrary: mu fo)
  case (Cons e es)
  show ?case
  proof (cases "selects glob k kv e")
    case False
    then show ?thesis
      using Cons.IH [of mu fo] Cons.prems
      by (auto simp: Let_def selects_def [symmetric] split: sum.splits prod.splits)
  next
    case True
    obtain e' r where r: "step e = (e', r)" by (cases "step e")
    have sim: "outcome r = ref e" "ref e = Inr None \<Longrightarrow> e' = e" "\<And>w. ref e = Inr (Some w) \<Longrightarrow> e' = w"
      using Cons.prems [of e] True r by (auto simp: simulates_def)
    show ?thesis
    proof (cases r)
      case (Inl err)
      then show ?thesis
        using True r sim(1) assms(1) by (auto simp: outcome_def Let_def selects_def [symmetric] split: sum.splits)
    next
      case (Inr mv)
      obtain m v where mv: "mv = (m, v)" by (cases mv)
      have ref: "ref e = Inr (if m then Some v else None)" using sim(1) Inr mv by (simp add: outcome_def)
      then have e': "e' = (if m then v else e)" using sim(2,3) by (cases m) auto
      show ?thesis
        using Cons.IH [of "mu \<or> m" True] Cons.prems True r Inr mv ref e' assms(1)
        by (auto simp: Let_def selects_def [symmetric] split: sum.splits prod.splits)
    qed
  qed
qed simp

lemma assignElements_unchanged: "assignElements ref sel xs = Inr (ys, False) \<Longrightarrow> ys = xs"
  by (induction xs arbitrary: ys) (auto split: sum.splits prod.splits option.splits if_splits)

lemma outcome_simps [simp]:
  "outcome (Inl e) = Inl e" "outcome (Inr (m, v)) = Inr (if m then Some v else None)"
  by (simp_all add: outcome_def)

lemma assignAt_Object_map:
  "assignAt s (Object r # ps) v d = Inr (Some w) \<Longrightarrow> \<exists>m. v = VMap m"
  by (cases v) auto

end
