(* ===== verification/Mutation_Walk.thy ===== *)
theory Mutation_Walk
  imports Mutation_Core
begin

text \<open>
  Correctness of the mutation walk: the in-place walk of \<open>mutateInternal\<close> computes the
  functional assignment \<open>assignAt\<close>, keeps values well formed, leaves an object it does not
  mutate as it was, and touches nothing beside the path.
\<close>

section \<open>The simulation\<close>

lemma mwf_of_wf_val: "wf_val (VMap m) \<Longrightarrow> mwf m"
  by simp

text \<open>The steps on an inner path entry, with the rest of the path kept opaque.\<close>

lemma mutateInternal_Object_step:
  assumes "ps \<noteq> []"
  shows "mutateInternal s (Object ref # ps) (VMap m) d =
     (if (if mhas m ref then \<not> ExistsOkay (ms_tester s) d else \<not> MissingOkay (ms_tester s) d)
      then (VMap m, Inr (False, VNil))
      else case (case mget m ref of Some v \<Rightarrow> Inr v | None \<Rightarrow> createMissingElement (Object ref) (hd ps)) of
          Inl e \<Rightarrow> (VMap m, Inl e)
        | Inr child \<Rightarrow>
            (let (child', r) = mutateInternal s ps child (Suc d);
                 m1 = (if mhas m ref then mput ref child' m else m)
             in case r of
                  Inl e \<Rightarrow> (VMap m1, Inl e)
                | Inr (mutated, next') \<Rightarrow>
                    (let m2 = (if mutated then mput ref next' m1 else m1)
                     in (VMap m2, Inr (mutated, VMap m2)))))"
  using assms
  by (cases ps; cases "mget m ref")
    (simp_all only: list.sel, auto simp: mhas_def Let_def cong: sum.case_cong)

lemma assignAt_Object_step:
  assumes "ps \<noteq> []"
  shows "assignAt s (Object ref # ps) (VMap m) d =
     (if (if mhas m ref then \<not> ExistsOkay (ms_tester s) d else \<not> MissingOkay (ms_tester s) d)
      then Inr None
      else case (case mget m ref of Some v \<Rightarrow> Inr v | None \<Rightarrow> createMissingElement (Object ref) (hd ps)) of
          Inl e \<Rightarrow> Inl e
        | Inr child \<Rightarrow> map_sum id (map_option (\<lambda>c. VMap (mput ref c m))) (assignAt s ps child (Suc d)))"
  using assms by (cases ps) (simp_all only: list.sel, auto)

lemma mutateInternal_List_step:
  assumes "ps \<noteq> []"
  shows "mutateInternal s (ListN kf kv glob # ps) (VList xs) d =
     (if glob \<and> \<not> ExistsOkay (ms_tester s) d then (VList xs, Inr (False, VNil))
      else case mutateElements (\<lambda>e. mutateInternal s ps e (Suc d)) glob kf kv
                  (ExistsOkay (ms_tester s) d) xs False False of
          (xs', Inl r) \<Rightarrow> (VList xs', r)
        | (xs', Inr (mutated, found)) \<Rightarrow>
            (if \<not> glob \<and> \<not> found then
               (if \<not> MissingOkay (ms_tester s) d then (VList xs', Inr (False, VNil))
                else (case createMissingElement (ListN kf kv glob) (hd ps) of
                  Inl e \<Rightarrow> (VList xs', Inl e)
                | Inr next \<Rightarrow>
                    (case mutateInternal s ps next (Suc d) of
                       (next', Inl e) \<Rightarrow> (VList xs', Inl e)
                     | (next', Inr (m, _)) \<Rightarrow>
                         (VList xs', Inr (mutated \<or> m, VList (xs' @ [next']))))))
             else (VList xs', Inr (mutated, VList xs'))))"
  using assms by (cases ps) (simp_all only: list.sel, auto)

lemma assignAt_List_step:
  assumes "ps \<noteq> []"
  shows "assignAt s (ListN kf kv glob # ps) (VList xs) d =
     (if \<not> glob \<and> \<not> list_ex (selects glob kf kv) xs then
        (if \<not> MissingOkay (ms_tester s) d then Inr None
         else (case createMissingElement (ListN kf kv glob) (hd ps) of
           Inl e \<Rightarrow> Inl e
         | Inr next \<Rightarrow>
             map_sum id (map_option (\<lambda>c. VList (xs @ [c]))) (assignAt s ps next (Suc d))))
      else if \<not> ExistsOkay (ms_tester s) d then Inr None
      else (case assignElements (\<lambda>e. assignAt s ps e (Suc d)) (selects glob kf kv) xs of
              Inl e \<Rightarrow> Inl e
            | Inr (ys, b) \<Rightarrow> Inr (if b then Some (VList ys) else None)))"
  using assms by (cases ps) (simp_all only: list.sel, auto)

lemma mutateInternal_last_Object:
  "mutateInternal s [Object ref] (VMap m) d =
     (if (if mhas m ref then \<not> ExistsOkay (ms_tester s) d else \<not> MissingOkay (ms_tester s) d) \<or>
         (\<exists>vt. ms_valueTest s = Some vt \<and> \<not> vt (case mget m ref of Some v \<Rightarrow> v | None \<Rightarrow> VNil) (mhas m ref))
      then (VMap m, Inr (False, VNil))
      else case ms_Value s of
          Inl e \<Rightarrow> (VMap m, Inl e)
        | Inr value \<Rightarrow> (VMap (mput ref value m), Inr (True, VMap (mput ref value m))))"
  by (auto simp: mhas_def Let_def split: option.splits)

lemma assignAt_last_Object:
  "assignAt s [Object ref] (VMap m) d =
     (if (if mhas m ref then \<not> ExistsOkay (ms_tester s) d else \<not> MissingOkay (ms_tester s) d) \<or>
         (\<exists>vt. ms_valueTest s = Some vt \<and> \<not> vt (case mget m ref of Some v \<Rightarrow> v | None \<Rightarrow> VNil) (mhas m ref))
      then Inr None
      else map_sum id (\<lambda>v. Some (VMap (mput ref v m))) (ms_Value s))"
  by (auto split: option.splits)

lemma mutateInternal_mismatch:
  "(\<And>m. cur \<noteq> VMap m) \<Longrightarrow>
    mutateInternal s (Object ref # ps) cur d = (cur, Inl (MismatchObject (Object ref)))"
  "(\<And>xs. cur \<noteq> VList xs) \<Longrightarrow>
    mutateInternal s (ListN kf kv g # ps) cur d = (cur, Inl (MismatchList (ListN kf kv g)))"
  by (cases cur; auto)+

lemma assignAt_mismatch:
  "(\<And>m. cur \<noteq> VMap m) \<Longrightarrow> assignAt s (Object ref # ps) cur d = Inl (MismatchObject (Object ref))"
  "(\<And>xs. cur \<noteq> VList xs) \<Longrightarrow> assignAt s (ListN kf kv g # ps) cur d = Inl (MismatchList (ListN kf kv g))"
  by (cases cur; auto)+

declare mutateInternal.simps(2,3) [simp del] assignAt.simps(2,3) [simp del]

lemmas walk_steps = mutateInternal_Object_step assignAt_Object_step
lemmas walk_list_steps = mutateInternal_List_step assignAt_List_step
lemmas walk_last = mutateInternal_last_Object assignAt_last_Object
lemmas walk_mismatch = mutateInternal_mismatch assignAt_mismatch

lemma simulates_Object:
  assumes "wf_val (VMap m)"
    and IH: "\<And>child. ps \<noteq> [] \<Longrightarrow> wf_val child \<Longrightarrow>
      simulates child (mutateInternal s ps child (Suc d)) (assignAt s ps child (Suc d))"
  shows "simulates (VMap m) (mutateInternal s (Object ref # ps) (VMap m) d)
    (assignAt s (Object ref # ps) (VMap m) d)"
proof (cases "ps = []")
  case True
  then show ?thesis by (auto simp: walk_last simulates_def split: sum.splits)
next
  case False
  define child where "child = (case mget m ref of Some v \<Rightarrow> Inr v | None \<Rightarrow> createMissingElement (Object ref) (hd ps))"
  show ?thesis
  proof (cases child)
    case (Inl e)
    then show ?thesis
      using False by (auto simp: walk_steps child_def simulates_def)
  next
    case (Inr c)
    have "wf_val c"
      using Inr wf_val_mget [OF assms(1)] createMissing_wf [of "Object ref" "hd ps" c]
      by (auto simp: child_def split: option.splits)
    moreover have put: "mput ref c m = m" if "mhas m ref"
      using mput_same [of m ref c] Inr assms(1) that by (auto simp: child_def mhas_def split: option.splits)
    moreover obtain c' r where step: "mutateInternal s ps c (Suc d) = (c', r)"
      by (cases "mutateInternal s ps c (Suc d)")
    ultimately have "assignAt s ps c (Suc d) = outcome r" "outcome r = Inr None \<longrightarrow> c' = c"
      using IH [of c] False by (auto simp: simulates_def)
    then show ?thesis
      using put step False Inr
      by (cases r) (auto simp: walk_steps child_def [symmetric] simulates_def Let_def)
  qed
qed

lemma simulates_fresh_element:
  assumes "simulates (VMap m) (n', r) ref"
  shows "outcome (case r of Inl e \<Rightarrow> Inl e | Inr (b, _) \<Rightarrow> Inr (b, VList (xs @ [n']))) =
    map_sum id (map_option (\<lambda>c. VList (xs @ [c]))) ref"
  using assms by (cases r) (auto simp: simulates_def)

lemma simulates_List_missing:
  assumes ok: "path_okay (ListN kf kv glob # ps)" "ps \<noteq> []"
    and IH: "\<And>child. wf_val child \<Longrightarrow>
      simulates child (mutateInternal s ps child (Suc d)) (assignAt s ps child (Suc d))"
    and "\<not> glob" "\<not> list_ex (selects glob kf kv) xs"
  shows "simulates (VList xs) (mutateInternal s (ListN kf kv glob # ps) (VList xs) d)
    (assignAt s (ListN kf kv glob # ps) (VList xs) d)"
proof (cases "createMissingElement (ListN kf kv glob) (hd ps)")
  case (Inl e)
  then show ?thesis
    using assms(2,4,5) by (simp add: walk_list_steps mutateElements_none simulates_def)
next
  case (Inr nxt)
  have "wf_val nxt"
    using createMissing_wf [OF Inr] ok by (simp add: path_okay_def)
  obtain n' r where step: "mutateInternal s ps nxt (Suc d) = (n', r)"
    by (cases "mutateInternal s ps nxt (Suc d)")
  obtain m where "nxt = VMap m"
    using Inr by (auto simp: createMissingElement_def Let_def split: Node.splits if_splits)
  then have "outcome (case r of Inl e \<Rightarrow> Inl e | Inr (b, _) \<Rightarrow> Inr (b, VList (xs @ [n']))) =
      map_sum id (map_option (\<lambda>c. VList (xs @ [c]))) (assignAt s ps nxt (Suc d))"
    using simulates_fresh_element [of m n' r _ xs] IH [OF \<open>wf_val nxt\<close>] step by simp
  then show ?thesis
    using assms(2,4,5) Inr step
    by (cases r) (auto simp: walk_list_steps mutateElements_none simulates_def)
qed

lemma simulates_List_elements:
  assumes ok: "path_okay (ListN kf kv glob # ps)" "ps \<noteq> []" "wf_val (VList xs)"
    and IH: "\<And>child. wf_val child \<Longrightarrow>
      simulates child (mutateInternal s ps child (Suc d)) (assignAt s ps child (Suc d))"
    and sel: "glob \<or> list_ex (selects glob kf kv) xs" and E: "ExistsOkay (ms_tester s) d"
  shows "simulates (VList xs) (mutateInternal s (ListN kf kv glob # ps) (VList xs) d)
    (assignAt s (ListN kf kv glob # ps) (VList xs) d)"
proof -
  obtain r qs where ps: "ps = Object r # qs"
    using ok(1,2) path_okay_list [of kf kv glob "hd ps" "tl ps"] by (cases ps) auto
  let ?ref = "\<lambda>e. assignAt s ps e (Suc d)"
  let ?go = "mutateElements (\<lambda>e. mutateInternal s ps e (Suc d)) glob kf kv True xs False False"
  have el: "simulates e (mutateInternal s ps e (Suc d)) (?ref e) \<and>
      (\<forall>w. ?ref e = Inr (Some w) \<longrightarrow> (\<exists>m. e = VMap m))" if "e \<in> set xs" for e
    using IH [of e] ok(3) that assignAt_Object_map [of s r qs e "Suc d"] ps by auto
  have "case assignElements ?ref (selects glob kf kv) xs of
      Inl err \<Rightarrow> snd ?go = Inl (Inl err)
    | Inr (ys, b) \<Rightarrow> ?go = (ys, Inr (b, list_ex (selects glob kf kv) xs))"
    using mutateElements_sim [of glob True xs kf kv "\<lambda>e. mutateInternal s ps e (Suc d)" ?ref False False] el
    by (auto split: sum.splits prod.splits)
  then show ?thesis
    using sel E ok(2) assignElements_unchanged [of ?ref "selects glob kf kv" xs]
    by (cases "assignElements ?ref (selects glob kf kv) xs"; cases ?go)
      (fastforce simp: walk_list_steps simulates_def split: prod.splits)+
qed

lemma simulates_List:
  assumes ok: "path_okay (ListN kf kv glob # ps)" "wf_val (VList xs)"
    and IH: "\<And>child. ps \<noteq> [] \<Longrightarrow> wf_val child \<Longrightarrow>
      simulates child (mutateInternal s ps child (Suc d)) (assignAt s ps child (Suc d))"
  shows "simulates (VList xs) (mutateInternal s (ListN kf kv glob # ps) (VList xs) d)
    (assignAt s (ListN kf kv glob # ps) (VList xs) d)"
proof (cases "ps = []")
  case True
  then show ?thesis
    by (simp add: simulates_def mutateInternal.simps(3) assignAt.simps(3))
next
  case False
  consider "\<not> glob" "\<not> list_ex (selects glob kf kv) xs"
    | "glob \<or> list_ex (selects glob kf kv) xs" "ExistsOkay (ms_tester s) d"
    | "glob \<or> list_ex (selects glob kf kv) xs" "\<not> ExistsOkay (ms_tester s) d" by blast
  then show ?thesis
  proof cases
    case 1
    then show ?thesis using simulates_List_missing [OF ok(1) False] IH False by blast
  next
    case 2
    then show ?thesis using simulates_List_elements [OF ok(1) False ok(2)] IH False by blast
  next
    case 3
    then show ?thesis
      using False mutateElements_blocked [of kf kv xs] by (cases glob) (auto simp: walk_list_steps simulates_def)
  qed
qed

theorem mutateInternal_simulates:
  assumes "path_okay p" "wf_val cur"
  shows "simulates cur (mutateInternal s p cur d) (assignAt s p cur d)"
  using assms
proof (induction p arbitrary: cur d)
  case Nil
  then show ?case by (simp add: simulates_def)
next
  case (Cons n ps)
  have IH: "simulates child (mutateInternal s ps child (Suc d)) (assignAt s ps child (Suc d))"
    if "wf_val child" for child
    using Cons.IH Cons.prems(1) that path_okay_tl by blast
  show ?case
  proof (cases n)
    case (Object ref)
    then show ?thesis
      using simulates_Object [of _ ps s d ref] IH Cons.prems
      by (cases cur) (auto simp: walk_mismatch simulates_def)
  next
    case (ListN kf kv glob)
    then show ?thesis
      using simulates_List [of kf kv glob ps _ s d] IH Cons.prems
      by (cases cur) (auto simp: walk_mismatch simulates_def)
  qed
qed

section \<open>Well-formedness\<close>

lemma assignElements_wf:
  assumes "assignElements f sel xs = Inr (ys, b)" "\<And>x. x \<in> set xs \<Longrightarrow> wf_val x"
    and "\<And>x w. x \<in> set xs \<Longrightarrow> f x = Inr (Some w) \<Longrightarrow> wf_val w"
  shows "\<forall>y \<in> set ys. wf_val y"
  using assms
proof (induction xs arbitrary: ys b)
  case (Cons e es)
  have *: "\<forall>y \<in> set zs. wf_val y" if "assignElements f sel es = Inr (zs, c)" for zs c
    using Cons.IH [OF that] Cons.prems(2,3) by auto
  show ?case
    using Cons.prems(1) Cons.prems(2) [of e] Cons.prems(3) [of e] *
    by (fastforce split: if_splits sum.splits option.splits)
qed simp

lemma replaceListElement_Some:
  assumes "replaceListElement s d k kv nv pre es = Some (Inr (True, v))"
  shows "\<exists>as e bs. es = as @ e # bs \<and> v = VList (pre @ as @ VMap nv # bs) \<and>
    selects False k kv e \<and> mget nv k = Some kv \<and> ExistsOkay (ms_tester s) d \<and>
    (\<forall>a \<in> set as. (\<exists>m. a = VMap m) \<and> \<not> selects False k kv a)"
  using assms
proof (induction es arbitrary: pre)
  case (Cons e es)
  obtain m where m: "e = VMap m"
    using Cons.prems by (auto simp: nestedFieldNoCopy_def split: val.splits)
  show ?case
  proof (cases "mget m k = Some kv")
    case True
    then show ?thesis
      using Cons.prems m by (intro exI [of _ "[]"]) (auto simp: nestedFieldNoCopy_def selects_def split: if_splits)
  next
    case False
    then have "replaceListElement s d k kv nv (pre @ [e]) es = Some (Inr (True, v))"
      using Cons.prems m by (auto simp: nestedFieldNoCopy_def split: option.splits if_splits)
    from Cons.IH [OF this] obtain as f bs where
      "es = as @ f # bs" "v = VList ((pre @ [e]) @ as @ VMap nv # bs)" "selects False k kv f"
      "mget nv k = Some kv" "ExistsOkay (ms_tester s) d"
      "\<forall>a \<in> set as. (\<exists>m. a = VMap m) \<and> \<not> selects False k kv a" by blast
    then show ?thesis
      using False m by (intro exI [of _ "e # as"]) (auto simp: selects_def)
  qed
qed simp

lemma replaceListElement_None:
  "replaceListElement s d k kv nv pre es = None \<longleftrightarrow>
    (\<forall>a \<in> set es. (\<exists>m. a = VMap m) \<and> \<not> selects False k kv a)"
  by (induction es arbitrary: pre)
    (auto simp: nestedFieldNoCopy_def selects_def split: val.splits option.splits if_splits)

lemma replaceListElement_found:
  assumes "\<forall>a \<in> set as. (\<exists>m. a = VMap m) \<and> \<not> selects False k kv a"
    and "mget em k = Some kv"
  shows "replaceListElement s d k kv nv pre (as @ VMap em # bs) =
    (if mget nv k \<noteq> Some kv then Some (Inl KeyValueMustNotChange)
     else if \<not> ExistsOkay (ms_tester s) d then Some (Inr (False, VNil))
     else Some (Inr (True, VList (pre @ as @ VMap nv # bs))))"
  using assms
  by (induction as arbitrary: pre) (auto simp: nestedFieldNoCopy_def selects_def split: option.splits)

text \<open>A list assignment that mutates replaces the first element with the key, or appends.\<close>

lemma setListElementToValue_True:
  assumes "setListElementToValue s xs k kv glob d = Inr (True, v)"
  shows "\<exists>nv. ms_Value s = Inr (VMap nv) \<and> \<not> glob \<and> kv \<noteq> VNil \<and>
    ((\<exists>as e bs. xs = as @ e # bs \<and> v = VList (as @ VMap nv # bs) \<and> selects False k kv e \<and>
        mget nv k = Some kv \<and> ExistsOkay (ms_tester s) d \<and>
        (\<forall>a \<in> set as. (\<exists>m. a = VMap m) \<and> \<not> selects False k kv a)) \<or>
     (v = VList (xs @ [VMap nv]) \<and> MissingOkay (ms_tester s) d \<and>
        (\<forall>a \<in> set xs. (\<exists>m. a = VMap m) \<and> \<not> selects False k kv a)))"
proof -
  obtain nv where nv: "ms_Value s = Inr (VMap nv)" "\<not> glob" "kv \<noteq> VNil"
    using assms by (auto simp: setListElementToValue_def split: if_splits sum.splits val.splits)
  show ?thesis
  proof (cases "replaceListElement s d k kv nv [] xs")
    case None
    moreover have "\<forall>a \<in> set xs. (\<exists>m. a = VMap m) \<and> \<not> selects False k kv a"
      using None by (simp add: replaceListElement_None)
    ultimately show ?thesis
      using assms nv by (auto simp: setListElementToValue_def split: if_splits)
  next
    case (Some r)
    then have "r = Inr (True, v)"
      using assms nv by (auto simp: setListElementToValue_def)
    then show ?thesis
      using replaceListElement_Some [of s d k kv nv "[]" xs v] Some nv by simp
  qed
qed

text \<open>How an assignment that mutates goes.\<close>

lemma assignAt_SomeE:
  assumes "assignAt s (n # ps) cur d = Inr (Some w)"
  obtains (LastObject) ref m v where "n = Object ref" "ps = []" "cur = VMap m"
      "ms_Value s = Inr v" "w = VMap (mput ref v m)"
  | (Field) ref m c c' where "n = Object ref" "ps \<noteq> []" "cur = VMap m"
      "mget m ref = Some c \<or> mget m ref = None \<and> createMissingElement (Object ref) (hd ps) = Inr c"
      "assignAt s ps c (Suc d) = Inr (Some c')" "w = VMap (mput ref c' m)"
  | (LastList) kf kv glob xs where "n = ListN kf kv glob" "ps = []" "cur = VList xs"
      "setListElementToValue s xs kf kv glob d = Inr (True, w)"
  | (NewElement) kf kv xs c c' where "n = ListN kf kv False" "ps \<noteq> []" "cur = VList xs"
      "\<not> list_ex (selects False kf kv) xs" "createMissingElement (ListN kf kv False) (hd ps) = Inr c"
      "assignAt s ps c (Suc d) = Inr (Some c')" "w = VList (xs @ [c'])"
  | (Elements) kf kv glob xs ys where "n = ListN kf kv glob" "ps \<noteq> []" "cur = VList xs"
      "glob \<or> list_ex (selects glob kf kv) xs"
      "assignElements (\<lambda>e. assignAt s ps e (Suc d)) (selects glob kf kv) xs = Inr (ys, True)" "w = VList ys"
proof (cases n)
  case (Object ref)
  then obtain m where m: "cur = VMap m" using assms assignAt_Object_map by blast
  show ?thesis
  proof (cases "ps = []")
    case True
    then show ?thesis
      using assms Object m LastObject by (cases "ms_Value s") (auto simp: assignAt_last_Object split: if_splits)
  next
    case False
    define child where "child = (case mget m ref of Some v \<Rightarrow> Inr v | None \<Rightarrow> createMissingElement (Object ref) (hd ps))"
    have eq: "(case child of Inl e \<Rightarrow> Inl e
        | Inr c \<Rightarrow> map_sum id (map_option (\<lambda>c. VMap (mput ref c m))) (assignAt s ps c (Suc d))) = Inr (Some w)"
      using assms Object m False by (simp add: assignAt_Object_step child_def split: if_splits)
    then obtain c where c: "child = Inr c" by (cases child) auto
    then obtain c' where "assignAt s ps c (Suc d) = Inr (Some c')" "w = VMap (mput ref c' m)"
      using eq by (cases "assignAt s ps c (Suc d)") auto
    then show ?thesis
      using Field Object False m c by (auto simp: child_def split: option.splits)
  qed
next
  case (ListN kf kv glob)
  then obtain xs where xs: "cur = VList xs"
    using assms assignAt_mismatch(2) [of cur s kf kv glob ps d] by (cases cur) auto
  consider "ps = []" | "ps \<noteq> []" "\<not> glob" "\<not> list_ex (selects glob kf kv) xs"
    | "ps \<noteq> []" "glob \<or> list_ex (selects glob kf kv) xs" by blast
  then show ?thesis
  proof cases
    case 1
    then show ?thesis
      using assms ListN xs LastList
      by (cases "setListElementToValue s xs kf kv glob d") (auto simp: assignAt.simps(3) split: if_splits)
  next
    case 2
    then obtain c where c: "createMissingElement (ListN kf kv glob) (hd ps) = Inr c"
      "map_sum id (map_option (\<lambda>c. VList (xs @ [c]))) (assignAt s ps c (Suc d)) = Inr (Some w)"
      using assms ListN xs by (auto simp: assignAt_List_step split: if_splits sum.splits)
    then show ?thesis
      using NewElement ListN xs 2 by (cases "assignAt s ps c (Suc d)") auto
  next
    case 3
    then show ?thesis
      using assms ListN xs Elements by (auto simp: assignAt_List_step split: if_splits sum.splits)
  qed
qed

theorem assignAt_wf:
  assumes "assignAt s p cur d = Inr (Some w)" "wf_val cur" "path_okay p" "\<And>v. ms_Value s = Inr v \<Longrightarrow> wf_val v"
  shows "wf_val w"
  using assms(1-3)
proof (induction p arbitrary: cur d w)
  case (Cons n ps)
  have IH: "wf_val w'" if "assignAt s ps c (Suc d) = Inr (Some w')" "wf_val c" for c w'
    using Cons.IH [OF that] Cons.prems(3) path_okay_tl by blast
  have n: "wf_node n" using Cons.prems(3) by (simp add: path_okay_def)
  from Cons.prems(1) show ?case
  proof (cases rule: assignAt_SomeE)
    case (LastObject ref m v)
    then show ?thesis using assms(4) Cons.prems(2) wf_val_mput by blast
  next
    case (Field ref m c c')
    then have "wf_val c" using Cons.prems(2) n createMissing_wf wf_val_mget by blast
    then show ?thesis using Field Cons.prems(2) wf_val_mput IH by blast
  next
    case (LastList kf kv glob xs)
    then show ?thesis
      using setListElementToValue_True [of s xs kf kv glob d w] assms(4) Cons.prems(2) by auto
  next
    case (NewElement kf kv xs c c')
    then have "wf_val c" using n createMissing_wf by blast
    then show ?thesis using NewElement Cons.prems(2) IH by auto
  next
    case (Elements kf kv glob xs ys)
    then show ?thesis
      using assignElements_wf [OF Elements(5)] Cons.prems(2) IH by simp
  qed
qed simp

section \<open>Idempotence\<close>

text \<open>
  Applying the same assignment to its own result changes nothing more. This rests on the
  checks on the path: a path does not end in the key field of the list above it, and an
  object assigned to a list carries the key of the list.
\<close>

fun keys_kept :: "MutErr + val \<Rightarrow> Path \<Rightarrow> bool" where
  "keys_kept val [] = True"
| "keys_kept val [n] =
     (case n of Object r \<Rightarrow> True
      | ListN kf kv g \<Rightarrow> (case val of Inr (VMap nv) \<Rightarrow> mget nv kf = Some kv | _ \<Rightarrow> True))"
| "keys_kept val (n # q # ps) =
     ((ps = [] \<longrightarrow> (case (n, q) of (ListN kf kv g, Object r) \<Rightarrow> r \<noteq> kf | _ \<Rightarrow> True)) \<and>
      keys_kept val (q # ps))"

lemma keys_kept_tl: "keys_kept val (n # ps) \<Longrightarrow> keys_kept val ps"
  by (cases ps) auto

lemma assignAt_scalar:
  assumes "wf_node (ListN kf kv False)"
  shows "assignAt s p kv d \<noteq> Inr (Some w)"
proof (cases p)
  case (Cons n ps)
  then show ?thesis
    using assms by (cases n; cases kv) (auto simp: assignAt.simps(2,3))
qed simp

lemma assignAt_keeps_key:
  assumes "assignAt s ps e d = Inr (Some w)" "path_okay (ListN kf kv g # ps)" "ps \<noteq> []"
    and "keys_kept val (ListN kf kv g # ps)" "selects g kf kv e"
  shows "selects g kf kv w"
proof (cases g)
  case False
  obtain r qs where ps: "ps = Object r # qs"
    using assms(2,3) path_okay_list [of kf kv g "hd ps" "tl ps"] by (cases ps) auto
  obtain m where m: "e = VMap m" "mget m kf = Some kv"
    using assms(5) False by (auto simp: selects_def split: val.splits)
  have prim: "assignAt s qs kv d' \<noteq> Inr (Some w')" for d' w'
    using assignAt_scalar [of kf kv] assms(2) False by (simp add: path_okay_def)
  from assms(1) [unfolded ps] show ?thesis
  proof (cases rule: assignAt_SomeE)
    case (LastObject ref m' v)
    then show ?thesis using m assms(4) ps by (simp add: selects_def)
  next
    case (Field ref m' c c')
    then show ?thesis using m prim by (auto simp: selects_def)
  qed simp_all
qed (simp add: selects_def)

definition settled :: "('a \<Rightarrow> MutErr + 'a option) \<Rightarrow> 'a \<Rightarrow> bool" where
  "settled f w \<longleftrightarrow> f w = Inr None \<or> f w = Inr (Some w)"

lemma assignElements_settled:
  assumes "assignElements f sel xs = Inr (ys, b)"
    and "\<And>x w. x \<in> set xs \<Longrightarrow> sel x \<Longrightarrow> f x = Inr (Some w) \<Longrightarrow> sel w \<and> settled f w"
  shows "(\<exists>b'. assignElements f sel ys = Inr (ys, b')) \<and> (list_ex sel ys \<longleftrightarrow> list_ex sel xs)"
  using assms
proof (induction xs arbitrary: ys b)
  case (Cons x xs)
  show ?case
  proof (cases "sel x")
    case False
    then obtain zs where zs: "assignElements f sel xs = Inr (zs, b)" "ys = x # zs"
      using Cons.prems(1) by (auto split: sum.splits)
    then have "(\<exists>b'. assignElements f sel zs = Inr (zs, b')) \<and> (list_ex sel zs \<longleftrightarrow> list_ex sel xs)"
      using Cons.prems(2) zs(2) by (intro Cons.IH [OF zs(1)]) (meson list.set_intros(2))
    then show ?thesis using zs(2) False by auto
  next
    case True
    then obtain r zs c where r: "f x = Inr r" "assignElements f sel xs = Inr (zs, c)"
        "ys = (case r of None \<Rightarrow> x | Some e \<Rightarrow> e) # zs"
      using Cons.prems(1) by (auto split: sum.splits)
    have "(\<exists>b'. assignElements f sel zs = Inr (zs, b')) \<and> (list_ex sel zs \<longleftrightarrow> list_ex sel xs)"
      using Cons.prems(2) by (intro Cons.IH [OF r(2)]) (meson list.set_intros(2))
    then obtain b' where b': "assignElements f sel zs = Inr (zs, b')" by blast
    show ?thesis
      using r b' True Cons.prems(2) [of x] by (cases r) (auto simp: settled_def)
  qed
qed auto

lemma setListElementToValue_settled:
  assumes "setListElementToValue s xs kf kv g d = Inr (True, w)" "keys_kept (ms_Value s) [ListN kf kv g]"
  shows "settled (\<lambda>v. assignAt s [ListN kf kv g] v d) w"
proof -
  obtain nv where nv: "ms_Value s = Inr (VMap nv)" "\<not> g" "kv \<noteq> VNil" and
    w: "(\<exists>as bs. w = VList (as @ VMap nv # bs) \<and>
        (\<forall>a \<in> set as. (\<exists>m. a = VMap m) \<and> \<not> selects False kf kv a))"
    using setListElementToValue_True [OF assms(1)] by blast
  have key: "mget nv kf = Some kv" using assms(2) nv by simp
  then show ?thesis
    using w nv replaceListElement_found [of _ kf kv nv s d nv "[]"]
    by (auto simp: settled_def assignAt.simps(3) setListElementToValue_def)
qed

lemma assignElements_unselected:
  assumes "\<not> list_ex sel xs" "sel c" "settled f c"
  shows "\<exists>b. assignElements f sel (xs @ [c]) = Inr (xs @ [c], b)"
  using assms by (induction xs) (auto simp: settled_def)

lemma settled_Elements:
  assumes "ps \<noteq> []" "list_ex (selects g kf kv) ys \<or> g"
    "assignElements (\<lambda>e. assignAt s ps e (Suc d)) (selects g kf kv) ys = Inr (ys, b)"
  shows "settled (\<lambda>v. assignAt s (ListN kf kv g # ps) v d) (VList ys)"
  using assms by (auto simp: settled_def assignAt_List_step)

theorem assignAt_settled:
  assumes "assignAt s p cur d = Inr (Some w)" "path_okay p" "keys_kept (ms_Value s) p"
  shows "settled (\<lambda>v. assignAt s p v d) w"
  using assms
proof (induction p arbitrary: cur d w)
  case (Cons n ps)
  have IH: "settled (\<lambda>v. assignAt s ps v (Suc d)) c'" if "assignAt s ps c (Suc d) = Inr (Some c')" for c c'
    using Cons.IH [OF that] Cons.prems(2,3) path_okay_tl keys_kept_tl by blast
  from Cons.prems(1) show ?case
  proof (cases rule: assignAt_SomeE)
    case (LastObject ref m v)
    then show ?thesis by (auto simp: settled_def assignAt_last_Object)
  next
    case (Field ref m c c')
    then show ?thesis
      using IH [OF Field(5)] by (auto simp: settled_def assignAt_Object_step)
  next
    case (LastList kf kv glob xs)
    then show ?thesis using setListElementToValue_settled Cons.prems(3) by blast
  next
    case (NewElement kf kv xs c c')
    have "selects False kf kv c"
      using NewElement(5) by (auto simp: createMissingElement_def Let_def selects_def split: Node.splits if_splits)
    then have "selects False kf kv c'"
      using assignAt_keeps_key [OF NewElement(6)] Cons.prems(2,3) NewElement(1,2) by blast
    then show ?thesis
      using settled_Elements [OF NewElement(2)] assignElements_unselected [OF NewElement(4) _ IH [OF NewElement(6)]]
        NewElement(1,7) by auto
  next
    case (Elements kf kv glob xs ys)
    have "(\<exists>b. assignElements (\<lambda>e. assignAt s ps e (Suc d)) (selects glob kf kv) ys = Inr (ys, b)) \<and>
        (list_ex (selects glob kf kv) ys \<longleftrightarrow> list_ex (selects glob kf kv) xs)"
      using assignElements_settled [OF Elements(5)] IH assignAt_keeps_key Cons.prems(2,3) Elements(1,2) by blast
    then show ?thesis
      using settled_Elements [OF Elements(2)] Elements by blast
  qed
qed (simp add: settled_def)

section \<open>Where the value ends up\<close>

text \<open>\<open>located p v w\<close>: one of the places of \<open>w\<close> that the path selects holds \<open>v\<close>.\<close>

fun located :: "Path \<Rightarrow> val \<Rightarrow> val \<Rightarrow> bool" where
  "located [] v w = (w = v)"
| "located (Object ref # ps) v w =
     (case w of VMap m \<Rightarrow> (case mget m ref of Some c \<Rightarrow> located ps v c | None \<Rightarrow> False) | _ \<Rightarrow> False)"
| "located (ListN kf kv glob # ps) v w =
     (case w of VList xs \<Rightarrow> list_ex (\<lambda>e. selects glob kf kv e \<and> located ps v e) xs | _ \<Rightarrow> False)"

lemma assignElements_True:
  assumes "assignElements f sel xs = Inr (ys, True)"
  shows "\<exists>x w. x \<in> set xs \<and> sel x \<and> f x = Inr (Some w) \<and> w \<in> set ys"
  using assms
proof (induction xs arbitrary: ys)
  case (Cons x xs)
  then show ?case
    by (fastforce split: if_splits sum.splits option.splits)
qed simp

theorem assignAt_located:
  assumes "assignAt s p cur d = Inr (Some w)" "path_okay p" "keys_kept (ms_Value s) p" "ms_Value s = Inr v"
  shows "located p v w"
  using assms(1-3)
proof (induction p arbitrary: cur d w)
  case (Cons n ps)
  have IH: "located ps v c'" if "assignAt s ps c (Suc d) = Inr (Some c')" for c c'
    using Cons.IH [OF that] Cons.prems(2,3) path_okay_tl keys_kept_tl by blast
  have keep: "selects g kf kv c'" if "n = ListN kf kv g" "ps \<noteq> []" "selects g kf kv c"
    "assignAt s ps c (Suc d) = Inr (Some c')" for g kf kv c c'
    using assignAt_keeps_key [OF that(4)] that Cons.prems(2,3) by blast
  from Cons.prems(1) show ?case
  proof (cases rule: assignAt_SomeE)
    case (LastObject ref m v')
    then show ?thesis using assms(4) by simp
  next
    case (Field ref m c c')
    then show ?thesis using IH by simp
  next
    case (LastList kf kv glob xs)
    then show ?thesis
      using setListElementToValue_True [OF LastList(4)] assms(4) Cons.prems(3) by (auto simp: selects_def)
  next
    case (NewElement kf kv xs c c')
    have "selects False kf kv c"
      using NewElement(5) by (auto simp: createMissingElement_def Let_def selects_def split: Node.splits if_splits)
    then show ?thesis using keep [OF NewElement(1,2)] NewElement(1,6,7) IH by simp
  next
    case (Elements kf kv glob xs ys)
    obtain x w' where "selects glob kf kv x" "assignAt s ps x (Suc d) = Inr (Some w')" "w' \<in> set ys"
      using assignElements_True [OF Elements(5)] by blast
    then have "w' \<in> set ys \<and> selects glob kf kv w' \<and> located ps v w'"
      using keep [OF Elements(1,2)] IH by blast
    then show ?thesis
      using Elements(1,6) by (auto simp: list_ex_iff)
  qed
qed simp

section \<open>What the walk leaves alone\<close>

text \<open>
  \<open>off_path p v w\<close>: \<open>w\<close> differs from \<open>v\<close> only below the places the path selects, plus at
  most one new element at the end of a list none of whose elements is selected.
\<close>

fun off_path :: "Path \<Rightarrow> val \<Rightarrow> val \<Rightarrow> bool" where
  "off_path [] v w = True"
| "off_path (Object ref # ps) v w =
     (v = w \<or> (case (v, w) of
        (VMap m, VMap m') \<Rightarrow>
          mdel ref m = mdel ref m' \<and>
          (case (mget m ref, mget m' ref) of
             (Some c, Some c') \<Rightarrow> off_path ps c c' | (Some _, None) \<Rightarrow> False | _ \<Rightarrow> True)
      | _ \<Rightarrow> False))"
| "off_path (ListN kf kv glob # ps) v w =
     (v = w \<or> (case (v, w) of
        (VList xs, VList ys) \<Rightarrow>
          list_all2 (\<lambda>e e'. if selects glob kf kv e then off_path ps e e' else e' = e)
            xs (take (length xs) ys) \<and>
          (length ys = length xs \<or>
           length ys = Suc (length xs) \<and> \<not> glob \<and> \<not> list_ex (selects glob kf kv) xs)
      | _ \<Rightarrow> False))"

lemma off_path_refl [simp]: "off_path p v v"
  by (cases p; cases "hd p") auto

lemma fst_mutateElements_Cons:
  "fst (mutateElements step glob kf kv E (e # es) mu fo) =
     (if \<not> selects glob kf kv e then e # fst (mutateElements step glob kf kv E es mu fo)
      else if \<not> glob \<and> \<not> E then e # es
      else fst (step e) # (case snd (step e) of Inl _ \<Rightarrow> es
         | Inr (m, _) \<Rightarrow> fst (mutateElements step glob kf kv E es (mu \<or> m) True)))"
  by (simp add: Let_def selects_def split: prod.split sum.split)

lemma mutateElements_related:
  assumes "\<And>e. R e e" "\<And>e. e \<in> set xs \<Longrightarrow> selects glob kf kv e \<Longrightarrow> R e (fst (step e))"
  shows "list_all2 R xs (fst (mutateElements step glob kf kv E xs mu fo))"
  using assms(2)
proof (induction xs arbitrary: mu fo)
  case (Cons e es)
  have "list_all2 R es (fst (mutateElements step glob kf kv E es mu' fo'))" for mu' fo'
    using Cons.prems by (intro Cons.IH) simp
  then show ?case
    using Cons.prems [of e] assms(1)
    by (auto simp: fst_mutateElements_Cons list_all2_same simp del: mutateElements.simps split: sum.split)
qed simp

lemma mutateElements_early:
  "mutateElements step glob kf kv E xs mu fo \<noteq> (ys, Inl (Inr (True, w)))"
  by (induction xs arbitrary: mu fo ys) (auto simp: Let_def split: if_splits prod.splits sum.splits)

lemma mutateElements_found:
  "mutateElements step glob kf kv E xs mu fo = (ys, Inr (mu', fo')) \<Longrightarrow>
    fo' = (fo \<or> list_ex (selects glob kf kv) xs)"
proof (induction xs arbitrary: mu fo ys)
  case (Cons e es)
  show ?case
    using Cons.prems by (cases "selects glob kf kv e")
      (auto simp: Let_def selects_def [symmetric] dest: Cons.IH split: if_splits prod.splits sum.splits)
qed simp

text \<open>Both the value left in place and the returned one differ from the input on the path only.\<close>

definition frame :: "Path \<Rightarrow> val \<Rightarrow> val \<times> mutRes \<Rightarrow> bool" where
  "frame p v step \<longleftrightarrow> off_path p v (fst step) \<and> (\<forall>w. snd step = Inr (True, w) \<longrightarrow> off_path p v w)"

lemma off_path_mput:
  assumes "\<And>c. mget m ref = Some c \<Longrightarrow> off_path ps c c'" "mwf m"
  shows "off_path (Object ref # ps) (VMap m) (VMap (mput ref c' m))"
  using assms by (auto simp: mdel_mput split: option.splits)

lemma frame_Object:
  assumes "wf_val (VMap m)"
    and IH: "\<And>child. ps \<noteq> [] \<Longrightarrow> wf_val child \<Longrightarrow> frame ps child (mutateInternal s ps child (Suc d))"
  shows "frame (Object ref # ps) (VMap m) (mutateInternal s (Object ref # ps) (VMap m) d)"
proof (cases "ps = []")
  case True
  have "off_path [Object ref] (VMap m) (VMap (mput ref v m))" for v
    using assms(1) off_path_mput [of m ref "[]" v] by auto
  then show ?thesis
    using True by (auto simp: mutateInternal_last_Object frame_def simp del: off_path.simps split: sum.splits)
next
  case False
  define child where "child = (case mget m ref of Some v \<Rightarrow> Inr v | None \<Rightarrow> createMissingElement (Object ref) (hd ps))"
  show ?thesis
  proof (cases child)
    case (Inl e)
    then show ?thesis
      using False by (auto simp: mutateInternal_Object_step child_def frame_def)
  next
    case (Inr c)
    obtain c' r where step: "mutateInternal s ps c (Suc d) = (c', r)"
      by (cases "mutateInternal s ps c (Suc d)")
    have "wf_val c"
      using Inr wf_val_mget [OF assms(1)] createMissing_wf [of "Object ref" "hd ps" c]
      by (auto simp: child_def split: option.splits)
    then have fr: "off_path ps c c'" "\<And>w. r = Inr (True, w) \<Longrightarrow> off_path ps c w"
      using IH [of c] False step by (auto simp: frame_def)
    have "mget m ref = Some x \<Longrightarrow> x = c" for x
      using Inr by (simp add: child_def)
    then have put: "off_path (Object ref # ps) (VMap m) (VMap (mput ref x m))" if "off_path ps c x" for x
      using off_path_mput [of m ref ps x] assms(1) that by auto
    show ?thesis
      using put fr False Inr step
      by (cases r) (auto simp: mutateInternal_Object_step child_def [symmetric] frame_def Let_def simp del: off_path.simps)
  qed
qed

lemma frame_setListElement:
  assumes "setListElementToValue s xs kf kv glob d = Inr (True, w)"
  shows "off_path [ListN kf kv glob] (VList xs) w"
  using setListElementToValue_True [OF assms]
proof (elim exE conjE disjE)
  fix nv as e bs
  assume "xs = as @ e # bs" "w = VList (as @ VMap nv # bs)" "selects False kf kv e" "\<not> glob"
  then show ?thesis by (auto simp: list_all2_append list_all2_same)
next
  fix nv
  assume "w = VList (xs @ [VMap nv])" "\<not> glob" "\<forall>a\<in>set xs. (\<exists>m. a = VMap m) \<and> \<not> selects False kf kv a"
  then show ?thesis by (auto simp: list_all2_same list_ex_iff)
qed

lemma frame_List:
  assumes "wf_val (VList xs)"
    and IH: "\<And>child. ps \<noteq> [] \<Longrightarrow> wf_val child \<Longrightarrow> frame ps child (mutateInternal s ps child (Suc d))"
  shows "frame (ListN kf kv glob # ps) (VList xs) (mutateInternal s (ListN kf kv glob # ps) (VList xs) d)"
proof (cases "ps = []")
  case True
  then show ?thesis
    using frame_setListElement by (auto simp: frame_def mutateInternal.simps(3) simp del: off_path.simps)
next
  case False
  define go where "go = mutateElements (\<lambda>e. mutateInternal s ps e (Suc d)) glob kf kv (ExistsOkay (ms_tester s) d) xs False False"
  have el: "list_all2 (\<lambda>e e'. if selects glob kf kv e then off_path ps e e' else e' = e) xs (fst go)"
    unfolding go_def using IH False assms(1) by (intro mutateElements_related) (auto simp: frame_def)
  then have len: "length (fst go) = length xs" by (simp add: list_all2_lengthD)
  have inplace: "off_path (ListN kf kv glob # ps) (VList xs) (VList (fst go))"
    using el len by simp
  have early: "r \<noteq> Inr (True, w)" if "snd go = Inl r" for r w
    using mutateElements_early [of _ glob kf kv _ xs _ _ "fst go" w] that
    unfolding go_def by (metis prod.collapse)
  have appended: "off_path (ListN kf kv glob # ps) (VList xs) (VList (fst go @ [x]))"
    if "snd go = Inr (mu, False)" "\<not> glob" for mu x
  proof -
    have "\<not> list_ex (selects glob kf kv) xs"
      using mutateElements_found [of _ glob kf kv _ xs _ _ "fst go" mu False] that(1)
      unfolding go_def by (metis prod.collapse)
    then show ?thesis using that(2) el len by simp
  qed
  obtain ys r where go: "go = (ys, r)" by (cases go)
  show ?thesis
  proof (cases r)
    case (Inl r')
    then show ?thesis
      using go inplace early False
      by (auto simp: mutateInternal_List_step go_def [symmetric] frame_def simp del: off_path.simps)
  next
    case (Inr mf)
    then show ?thesis
      using go inplace appended False
      by (cases mf; cases "snd mf")
        (auto simp: mutateInternal_List_step go_def [symmetric] frame_def simp del: off_path.simps split: sum.splits prod.splits)
  qed
qed

theorem mutateInternal_frame:
  assumes "path_okay p" "wf_val cur"
  shows "frame p cur (mutateInternal s p cur d)"
  using assms
proof (induction p arbitrary: cur d)
  case (Cons n ps)
  have IH: "frame ps child (mutateInternal s ps child (Suc d))" if "wf_val child" for child
    using Cons.IH [of child] Cons.prems(1) that path_okay_tl by blast
  show ?case
  proof (cases n)
    case (Object ref)
    show ?thesis
    proof (cases "\<exists>m. cur = VMap m")
      case True
      then show ?thesis using frame_Object [of _ ps s d ref] IH Cons.prems(2) Object by blast
    next
      case False
      then show ?thesis using Object by (simp add: mutateInternal_mismatch frame_def del: off_path.simps)
    qed
  next
    case (ListN kf kv glob)
    show ?thesis
    proof (cases "\<exists>xs. cur = VList xs")
      case True
      then show ?thesis using frame_List [of _ ps s d] IH Cons.prems(2) ListN by blast
    next
      case False
      then show ?thesis using ListN by (simp add: mutateInternal_mismatch frame_def del: off_path.simps)
    qed
  qed
qed (simp add: frame_def)

section \<open>The entry point\<close>

lemma core_Mutate_eq:
  assumes "wf_path (ms_path s)" "ms_path s \<noteq> []" "wf_val (VMap m)"
  shows "case assignAt s (ms_path s) (VMap m) 0 of
      Inl e \<Rightarrow> snd (core_Mutate s (Some m)) = Inl e
    | Inr None \<Rightarrow> core_Mutate s (Some m) = (VMap m, Inr False)
    | Inr (Some w) \<Rightarrow> core_Mutate s (Some m) = (w, Inr True)"
proof -
  have sim: "simulates (VMap m) (mutateInternal s (ms_path s) (VMap m) 0) (assignAt s (ms_path s) (VMap m) 0)"
    using mutateInternal_simulates assms wf_path_okay by blast
  obtain v r where "mutateInternal s (ms_path s) (VMap m) 0 = (v, r)"
    by (cases "mutateInternal s (ms_path s) (VMap m) 0")
  then show ?thesis
    using sim assms(2)
    by (cases r) (auto simp: core_Mutate_def simulates_def split: sum.splits option.splits if_splits)
qed

lemma core_Mutate_Inr_iff:
  assumes "wf_path (ms_path s)" "ms_path s \<noteq> []" "wf_val (VMap m)"
  shows "core_Mutate s (Some m) = (w, Inr True) \<longleftrightarrow> assignAt s (ms_path s) (VMap m) 0 = Inr (Some w)"
    and "core_Mutate s (Some m) = (w, Inr False) \<longleftrightarrow> assignAt s (ms_path s) (VMap m) 0 = Inr None \<and> w = VMap m"
  using core_Mutate_eq [OF assms] by (auto split: sum.splits option.splits)

lemma core_Mutate_map:
  assumes "wf_path (ms_path s)" "ms_path s \<noteq> []" "core_Mutate s (Some m) = (w, r)"
  shows "\<exists>m'. w = VMap m'"
proof -
  obtain ref ps where p: "ms_path s = Object ref # ps"
    using assms(1,2) by (cases "ms_path s"; cases "hd (ms_path s)") (auto simp: wf_path_def)
  then show ?thesis
    using assms(3)
    by (cases "ps = []")
      (auto simp: core_Mutate_def mutateInternal_Object_step mutateInternal_last_Object Let_def
        split: if_splits sum.splits option.splits prod.splits)
qed

end
