(* ===== verification/Mutators.thy ===== *)
theory Mutators
  imports Match Mutation_Walk
begin

text \<open>
  The two mutators (\<open>pkg/mutation/mutators\<close>) and the API types they are built from
  (\<open>apis/mutations/v1alpha1\<close>): \<open>Assign\<close> sets any field outside the metadata,
  \<open>AssignMetadata\<close> adds labels and annotations. Each has a validating constructor; the
  facts that the constructor guarantees are what the behaviour of \<open>Mutate\<close> rests on.
\<close>

section \<open>The API types\<close>

text \<open>A \<open>runtime.RawExtension\<close>: the bytes, and the JSON document they spell (\<open>None\<close> when
  they are not JSON).\<close>

datatype RawExtension = RawExtension (raw_bytes: string) (raw_doc: "json option")

record PathTest =
  pt_SubPath :: string
  pt_Condition :: Condition

record Parameters =
  PathTests :: "PathTest list"
  AssignIfRaw :: RawExtension
  AssignRaw :: RawExtension

record AssignSpec =
  as_ApplyTo :: "ApplyTo list"
  as_Match :: Match
  as_Location :: string
  as_Parameters :: Parameters

record Assign = ObjectMeta +
  as_Generation :: int
  as_Spec :: AssignSpec

record AssignMetadataSpec =
  ms_Match :: Match
  ms_Location :: string
  ms_AssignRaw :: RawExtension

record AssignMetadata = ObjectMeta +
  amd_Generation :: int
  amd_Spec :: AssignMetadataSpec

record AssignIf =
  If_In :: "val list"
  If_NotIn :: "val list"

datatype AssignErr =
    InvalidLocation ParseErr
  | ChangesMetadata
  | EmptyPath
  | ListChildOfList
  | KeyChanged
  | InvalidAssignFormat
  | MissingValue
  | AppendToGlob
  | InvalidKeyValue
  | NotAnObject
  | DifferentKey string val val
  | InvalidSubPath string ParseErr
  | InvalidTests TesterErr
  | InvalidAssignIf
  | IncompleteApplyTo
  | NoApplyTo
  | InvalidMetadataLocation
  | NotAString

text \<open>\<open>json.Unmarshal\<close> into the struct \<open>AssignIf\<close>: field names are matched without
  regard to the case of their letters, later fields win, \<open>null\<close> is no list, and a field
  that is not a list is an error.\<close>

definition to_lower :: "string \<Rightarrow> string" where
  "to_lower = map (\<lambda>c. if 65 \<le> (of_char c :: nat) \<and> (of_char c :: nat) \<le> 90 then char_of (of_char c + (32 :: nat)) else c)"

definition json_list :: "json \<Rightarrow> val list option" where
  "json_list j = (case j of JNull \<Rightarrow> Some [] | JArray xs \<Rightarrow> Some (map (decode_json False) xs) | _ \<Rightarrow> None)"

fun Unmarshal_AssignIf :: "(string \<times> json) list \<Rightarrow> AssignIf \<Rightarrow> AssignIf option" where
  "Unmarshal_AssignIf [] out = Some out"
| "Unmarshal_AssignIf ((k, j) # fs) out =
     (if to_lower k = ''in'' then
        (case json_list j of None \<Rightarrow> None | Some xs \<Rightarrow> Unmarshal_AssignIf fs (out\<lparr>If_In := xs\<rparr>))
      else if to_lower k = ''notin'' then
        (case json_list j of None \<Rightarrow> None | Some xs \<Rightarrow> Unmarshal_AssignIf fs (out\<lparr>If_NotIn := xs\<rparr>))
      else Unmarshal_AssignIf fs out)"

definition ValueTests :: "Assign \<Rightarrow> AssignErr + AssignIf" where
  "ValueTests a =
     (let raw = AssignIfRaw (as_Parameters (as_Spec a)); out = \<lparr>If_In = [], If_NotIn = []\<rparr> in
      if length (raw_bytes raw) = 0 then Inr out
      else (case raw_doc raw of
              Some JNull \<Rightarrow> Inr out
            | Some (JObject fs) \<Rightarrow>
                (case Unmarshal_AssignIf fs out of Some r \<Rightarrow> Inr r | None \<Rightarrow> Inl InvalidAssignIf)
            | _ \<Rightarrow> Inl InvalidAssignIf))"

definition AssignIf_DeepCopy :: "AssignIf \<Rightarrow> AssignIf" where
  "AssignIf_DeepCopy a = \<lparr>If_In = If_In a, If_NotIn = If_NotIn a\<rparr>"

section \<open>Assign\<close>

record AssignMutator =
  am_id :: ID
  am_assign :: Assign
  am_assignValue :: val
  am_path :: Path
  am_bindings :: "GVK list"
  am_tester :: Tester
  am_valueTest :: AssignIf

definition AssignMutator_Matches :: "selectors \<Rightarrow> AssignMutator \<Rightarrow> object \<Rightarrow> NamespaceObj option \<Rightarrow> bool" where
  "AssignMutator_Matches asSelector m obj ns =
     (if \<not> AppliesTo (as_ApplyTo (as_Spec (am_assign m))) obj then False
      else (case Matches asSelector (as_Match (as_Spec (am_assign m))) obj ns of
              Inl e \<Rightarrow> False | Inr matches \<Rightarrow> matches))"

definition testValue :: "AssignMutator \<Rightarrow> val \<Rightarrow> bool \<Rightarrow> bool" where
  "testValue m v exists =
     (if length (If_In (am_valueTest m)) \<noteq> 0 \<and> (\<not> exists \<or> \<not> list_ex (\<lambda>obj. v = obj) (If_In (am_valueTest m)))
      then False
      else if \<not> exists then True
      else if list_ex (\<lambda>obj. v = obj) (If_NotIn (am_valueTest m)) then False
      else True)"

definition AssignMutator_Value :: "AssignMutator \<Rightarrow> MutErr + val" where
  "AssignMutator_Value m = Inr (am_assignValue m)"

definition AssignMutator_state :: "AssignMutator \<Rightarrow> mutatorState" where
  "AssignMutator_state m =
     \<lparr>ms_path = am_path m, ms_Value = AssignMutator_Value m, ms_tester = am_tester m,
      ms_valueTest = Some (testValue m)\<rparr>"

definition AssignMutator_Mutate :: "AssignMutator \<Rightarrow> object option \<Rightarrow> val \<times> (MutErr + bool)" where
  "AssignMutator_Mutate m obj = core_Mutate (AssignMutator_state m) obj"

definition AssignMutator_DeepCopy :: "AssignMutator \<Rightarrow> AssignMutator" where
  "AssignMutator_DeepCopy m =
     \<lparr>am_id = am_id m, am_assign = am_assign m, am_assignValue = am_assignValue m,
      am_path = am_path m, am_bindings = am_bindings m,
      am_tester = the (Tester_DeepCopy (Some (am_tester m))), am_valueTest = AssignIf_DeepCopy (am_valueTest m)\<rparr>"

definition mutator_String :: "ID \<Rightarrow> int \<Rightarrow> string" where
  "mutator_String i generation =
     Kind i @ ''/'' @ Namespace i @ ''/'' @ Name i @ '':'' @ format_int generation"

definition AssignMutator_String :: "AssignMutator \<Rightarrow> string" where
  "AssignMutator_String m = mutator_String (am_id m) (as_Generation (am_assign m))"

fun gatherPathTests_loop :: "PathTest list \<Rightarrow> AssignErr + Test list" where
  "gatherPathTests_loop [] = Inr []"
| "gatherPathTests_loop (pt # pts) =
     (case Parse (pt_SubPath pt) of
        Inl e \<Rightarrow> Inl (InvalidSubPath (pt_SubPath pt) e)
      | Inr p \<Rightarrow> map_sum id (\<lambda>ts. \<lparr>SubPath = p, test_Condition = pt_Condition pt\<rparr> # ts) (gatherPathTests_loop pts))"

definition gatherPathTests :: "Assign \<Rightarrow> AssignErr + Test list" where
  "gatherPathTests a = gatherPathTests_loop (PathTests (as_Parameters (as_Spec a)))"

definition hasMetadataRoot :: "Path \<Rightarrow> bool" where
  "hasMetadataRoot path =
     (if length path = 0 then False
      else if path ! 0 = Object ''metadata'' then True
      else False)"

definition checkKeyNotChanged :: "Path \<Rightarrow> AssignErr option" where
  "checkKeyNotChanged p =
     (if length p = 0 then Some EmptyPath
      else if length p < 2 then None
      else (case (p ! (length p - 2), p ! (length p - 1)) of
              (Object _, _) \<Rightarrow> None
            | (ListN _ _ _, ListN _ _ _) \<Rightarrow> Some ListChildOfList
            | (ListN kf _ _, Object ref) \<Rightarrow> if ref = kf then Some KeyChanged else None))"

definition validateObjectAssignedToList :: "Path \<Rightarrow> val \<Rightarrow> AssignErr option" where
  "validateObjectAssignedToList p v =
     (if length p = 0 then Some EmptyPath
      else (case p ! (length p - 1) of
              Object _ \<Rightarrow> None
            | ListN kf kv glob \<Rightarrow>
                if glob then Some AppendToGlob
                else if kv = VNil then Some InvalidKeyValue
                else (case v of
                        VMap valueMap \<Rightarrow>
                          (let k = (case mget valueMap kf of Some x \<Rightarrow> x | None \<Rightarrow> VNil) in
                           if kv \<noteq> k then Some (DifferentKey kf kv k) else None)
                      | _ \<Rightarrow> Some NotAnObject)))"

definition getSortedGVKs :: "ApplyTo list \<Rightarrow> GVK list" where
  "getSortedGVKs bindings =
     (let gvksMap = fold (\<lambda>binding m. fold (\<lambda>gvk. mput gvk ()) (Flatten binding) m) bindings []
      in sort_key GVK_String (mkeys gvksMap))"

definition MutatorForAssign :: "Assign \<Rightarrow> AssignErr + AssignMutator" where
  "MutatorForAssign a =
     (case Parse (as_Location (as_Spec a)) of
        Inl e \<Rightarrow> Inl (InvalidLocation e)
      | Inr path \<Rightarrow>
          if hasMetadataRoot path then Inl ChangesMetadata
          else (case checkKeyNotChanged path of
            Some e \<Rightarrow> Inl e
          | None \<Rightarrow>
              (case Unmarshal_map (raw_doc (AssignRaw (as_Parameters (as_Spec a)))) of
                 None \<Rightarrow> Inl InvalidAssignFormat
               | Some toAssign \<Rightarrow>
                   (case mget toAssign ''value'' of
                      None \<Rightarrow> Inl MissingValue
                    | Some value \<Rightarrow>
                        (case validateObjectAssignedToList path value of
                           Some e \<Rightarrow> Inl e
                         | None \<Rightarrow>
                             (case gatherPathTests a of
                                Inl e \<Rightarrow> Inl e
                              | Inr pathTests \<Rightarrow>
                                  (case New path pathTests of
                                     Inl e \<Rightarrow> Inl (InvalidTests e)
                                   | Inr tester \<Rightarrow>
                                       (case ValueTests a of
                                          Inl e \<Rightarrow> Inl e
                                        | Inr valueTests \<Rightarrow>
                                            if list_ex (\<lambda>t. length (at_Groups t) = 0 \<or> length (at_Versions t) = 0
                                                 \<or> length (at_Kinds t) = 0) (as_ApplyTo (as_Spec a))
                                            then Inl IncompleteApplyTo
                                            else let gvks = getSortedGVKs (as_ApplyTo (as_Spec a)) in
                                              if length gvks = 0 then Inl NoApplyTo
                                              else Inr \<lparr>am_id = MakeID (ObjectMeta.truncate a), am_assign = a,
                                                am_assignValue = value, am_path = path, am_bindings = gvks,
                                                am_tester = tester, am_valueTest = valueTests\<rparr>))))))))"

definition IsValidAssign :: "Assign \<Rightarrow> AssignErr option" where
  "IsValidAssign a = (case MutatorForAssign a of Inl e \<Rightarrow> Some e | Inr _ \<Rightarrow> None)"

section \<open>AssignMetadata\<close>

definition labelsValidSubPath :: Path where
  "labelsValidSubPath = [Object ''metadata'', Object ''labels'']"

definition annotationValidSubPath :: Path where
  "annotationValidSubPath = [Object ''metadata'', Object ''annotations'']"

record AssignMetadataMutator =
  mm_id :: ID
  mm_assignMetadata :: AssignMetadata
  mm_assignValue :: string
  mm_path :: Path
  mm_tester :: Tester

definition AssignMetadataMutator_Matches ::
    "selectors \<Rightarrow> AssignMetadataMutator \<Rightarrow> object \<Rightarrow> NamespaceObj option \<Rightarrow> bool" where
  "AssignMetadataMutator_Matches asSelector m obj ns =
     (case Matches asSelector (ms_Match (amd_Spec (mm_assignMetadata m))) obj ns of
        Inl e \<Rightarrow> False | Inr matches \<Rightarrow> matches)"

definition AssignMetadataMutator_Value :: "AssignMetadataMutator \<Rightarrow> MutErr + val" where
  "AssignMetadataMutator_Value m = Inr (VString (mm_assignValue m))"

definition AssignMetadataMutator_state :: "AssignMetadataMutator \<Rightarrow> mutatorState" where
  "AssignMetadataMutator_state m =
     \<lparr>ms_path = mm_path m, ms_Value = AssignMetadataMutator_Value m, ms_tester = mm_tester m,
      ms_valueTest = None\<rparr>"

definition AssignMetadataMutator_Mutate ::
    "AssignMetadataMutator \<Rightarrow> object option \<Rightarrow> val \<times> (MutErr + bool)" where
  "AssignMetadataMutator_Mutate m obj = core_Mutate (AssignMetadataMutator_state m) obj"

definition AssignMetadataMutator_DeepCopy :: "AssignMetadataMutator \<Rightarrow> AssignMetadataMutator" where
  "AssignMetadataMutator_DeepCopy m =
     \<lparr>mm_id = mm_id m, mm_assignMetadata = mm_assignMetadata m, mm_assignValue = mm_assignValue m,
      mm_path = Path_DeepCopy (mm_path m), mm_tester = the (Tester_DeepCopy (Some (mm_tester m)))\<rparr>"

definition AssignMetadataMutator_String :: "AssignMetadataMutator \<Rightarrow> string" where
  "AssignMetadataMutator_String m = mutator_String (mm_id m) (amd_Generation (mm_assignMetadata m))"

definition isValidMetadataPath :: "Path \<Rightarrow> bool" where
  "isValidMetadataPath path =
     (if length path \<noteq> 3 \<or> node_Type (path ! 0) \<noteq> ObjectNode \<or> node_Type (path ! 1) \<noteq> ObjectNode
         \<or> node_Type (path ! 2) \<noteq> ObjectNode then False
      else if take 2 path = labelsValidSubPath then True
      else if take 2 path = annotationValidSubPath then True
      else False)"

definition MutatorForAssignMetadata :: "AssignMetadata \<Rightarrow> AssignErr + AssignMetadataMutator" where
  "MutatorForAssignMetadata a =
     (case Parse (ms_Location (amd_Spec a)) of
        Inl e \<Rightarrow> Inl (InvalidLocation e)
      | Inr path \<Rightarrow>
          if \<not> isValidMetadataPath path then Inl InvalidMetadataLocation
          else (case Unmarshal_map (raw_doc (ms_AssignRaw (amd_Spec a))) of
            None \<Rightarrow> Inl InvalidAssignFormat
          | Some assign \<Rightarrow>
              (case mget assign ''value'' of
                 None \<Rightarrow> Inl MissingValue
               | Some (VString valueString) \<Rightarrow>
                   (case New path [\<lparr>SubPath = path, test_Condition = MustNotExist\<rparr>] of
                      Inl e \<Rightarrow> Inl (InvalidTests e)
                    | Inr t \<Rightarrow>
                        Inr \<lparr>mm_id = MakeID (ObjectMeta.truncate a), mm_assignMetadata = a,
                          mm_assignValue = valueString, mm_path = path, mm_tester = t\<rparr>)
               | Some _ \<Rightarrow> Inl NotAString)))"

definition IsValidAssignMetadata :: "AssignMetadata \<Rightarrow> AssignErr option" where
  "IsValidAssignMetadata a = (case MutatorForAssignMetadata a of Inl e \<Rightarrow> Some e | Inr _ \<Rightarrow> None)"

section \<open>The interface types.Mutator\<close>

text \<open>The two implementations behind \<open>types.Mutator\<close>, and the dispatch of its methods.\<close>

datatype Mutator = MAssign AssignMutator | MAssignMetadata AssignMetadataMutator

fun Mutator_ID :: "Mutator \<Rightarrow> ID" where
  "Mutator_ID (MAssign m) = am_id m"
| "Mutator_ID (MAssignMetadata m) = mm_id m"

fun AssignMutator_HasDiff :: "AssignMutator \<Rightarrow> Mutator \<Rightarrow> bool" where
  "AssignMutator_HasDiff m (MAssignMetadata _) = True"
| "AssignMutator_HasDiff m (MAssign toCheck) =
     (if am_id toCheck \<noteq> am_id m then True
      else if am_path toCheck \<noteq> am_path m then True
      else if am_bindings toCheck \<noteq> am_bindings m then True
      else if as_Spec (am_assign toCheck) \<noteq> as_Spec (am_assign m) then True
      else False)"

fun AssignMetadataMutator_HasDiff :: "AssignMetadataMutator \<Rightarrow> Mutator \<Rightarrow> bool" where
  "AssignMetadataMutator_HasDiff m (MAssign _) = True"
| "AssignMetadataMutator_HasDiff m (MAssignMetadata toCheck) =
     (if mm_id toCheck \<noteq> mm_id m then True
      else if amd_Spec (mm_assignMetadata toCheck) \<noteq> amd_Spec (mm_assignMetadata m) then True
      else False)"

fun HasDiff :: "Mutator \<Rightarrow> Mutator \<Rightarrow> bool" where
  "HasDiff (MAssign m) = AssignMutator_HasDiff m"
| "HasDiff (MAssignMetadata m) = AssignMetadataMutator_HasDiff m"

fun Mutator_DeepCopy :: "Mutator \<Rightarrow> Mutator" where
  "Mutator_DeepCopy (MAssign m) = MAssign (AssignMutator_DeepCopy m)"
| "Mutator_DeepCopy (MAssignMetadata m) = MAssignMetadata (AssignMetadataMutator_DeepCopy m)"

fun Mutator_Path :: "Mutator \<Rightarrow> Path" where
  "Mutator_Path (MAssign m) = am_path m"
| "Mutator_Path (MAssignMetadata m) = mm_path m"

fun Mutator_String :: "Mutator \<Rightarrow> string" where
  "Mutator_String (MAssign m) = AssignMutator_String m"
| "Mutator_String (MAssignMetadata m) = AssignMetadataMutator_String m"

fun Mutator_Matches :: "selectors \<Rightarrow> Mutator \<Rightarrow> object \<Rightarrow> NamespaceObj option \<Rightarrow> bool" where
  "Mutator_Matches asSelector (MAssign m) = AssignMutator_Matches asSelector m"
| "Mutator_Matches asSelector (MAssignMetadata m) = AssignMetadataMutator_Matches asSelector m"

fun Mutator_Mutate :: "Mutator \<Rightarrow> object option \<Rightarrow> val \<times> (MutErr + bool)" where
  "Mutator_Mutate (MAssign m) = AssignMutator_Mutate m"
| "Mutator_Mutate (MAssignMetadata m) = AssignMetadataMutator_Mutate m"

end
