(* ===== verification/Mutator_Facts.thy ===== *)
theory Mutator_Facts imports Mutators begin

text \<open>
  Facts about the mutators: what their constructors guarantee, the contract of the
  interface \<open>types.Mutator\<close> (the locale \<open>mutator\<close>, interpreted on both implementations),
  and what each mutator does to an object and leaves alone.
\<close>
section \<open>What the constructors guarantee\<close>

definition valid_AssignMutator :: "AssignMutator \<Rightarrow> bool" where
  "valid_AssignMutator m \<longleftrightarrow>
     wf_path (am_path m) \<and> am_path m \<noteq> [] \<and> hd (am_path m) \<noteq> Object ''metadata'' \<and>
     keys_kept (Inr (am_assignValue m)) (am_path m) \<and> wf_val (am_assignValue m) \<and>
     mwf (tests (am_tester m)) \<and>
     am_bindings m = getSortedGVKs (as_ApplyTo (as_Spec (am_assign m))) \<and> am_bindings m \<noteq> []"

definition valid_AssignMetadataMutator :: "AssignMetadataMutator \<Rightarrow> bool" where
  "valid_AssignMetadataMutator m \<longleftrightarrow>
     (\<exists>part \<in> {''labels'', ''annotations''}. \<exists>k.
        mm_path m = [Object ''metadata'', Object part, Object k]) \<and>
     mm_tester m = \<lparr>tests = [(2, MustNotExist)]\<rparr>"

fun valid_Mutator :: "Mutator \<Rightarrow> bool" where
  "valid_Mutator (MAssign m) = valid_AssignMutator m"
| "valid_Mutator (MAssignMetadata m) = valid_AssignMetadataMutator m"

subsection \<open>Bindings\<close>

lemma fold_mput_unit:
  "mget (fold (\<lambda>g. mput g ()) gs m) x = (if x \<in> set gs then Some () else mget m x)"
  by (induction gs arbitrary: m) auto

lemma mwf_fold_mput_unit: "mwf m \<Longrightarrow> mwf (fold (\<lambda>g. mput g ()) gs m)"
  by (induction gs arbitrary: m) auto

lemma gvksMap_spec:
  fixes bs :: "ApplyTo list"
  defines "M m \<equiv> fold (\<lambda>b m. fold (\<lambda>gvk. mput gvk ()) (Flatten b) m) bs m"
  shows "mwf m \<Longrightarrow> mwf (M m)" and "mhas (M m) x \<longleftrightarrow> mhas m x \<or> (\<exists>b \<in> set bs. x \<in> set (Flatten b))"
proof -
  show "mwf m \<Longrightarrow> mwf (M m)"
    unfolding M_def by (induction bs arbitrary: m) (auto intro: mwf_fold_mput_unit)
  show "mhas (M m) x \<longleftrightarrow> mhas m x \<or> (\<exists>b \<in> set bs. x \<in> set (Flatten b))"
    unfolding M_def by (induction bs arbitrary: m) (auto simp: mhas_def fold_mput_unit)
qed

lemma getSortedGVKs_spec:
  shows set_getSortedGVKs: "set (getSortedGVKs bs) = (\<Union>b \<in> set bs. set (Flatten b))"
    and distinct_getSortedGVKs: "distinct (getSortedGVKs bs)"
    and sorted_getSortedGVKs: "sorted (map GVK_String (getSortedGVKs bs))"
proof -
  let ?M = "fold (\<lambda>b m. fold (\<lambda>gvk. mput gvk ()) (Flatten b) m) bs []"
  have wf: "mwf ?M" by (rule gvksMap_spec(1)) simp
  then have "distinct (mkeys ?M)" using mwf_distinct by (simp add: mkeys_def)
  then show "distinct (getSortedGVKs bs)"
    by (simp add: getSortedGVKs_def)
  have "set (mkeys ?M) = {x. mhas ?M x}"
    by (auto simp: mkeys_def mhas_def map_of_eq_None_iff)
  then show "set (getSortedGVKs bs) = (\<Union>b \<in> set bs. set (Flatten b))"
    by (simp add: getSortedGVKs_def gvksMap_spec(2)) (auto simp: mhas_def)
  show "sorted (map GVK_String (getSortedGVKs bs))"
    by (simp add: getSortedGVKs_def)
qed

subsection \<open>Paths\<close>

lemma keys_kept_last_two:
  "keys_kept val (p @ [n, q]) \<longleftrightarrow>
    (case (n, q) of (ListN kf kv g, Object r) \<Rightarrow> r \<noteq> kf | _ \<Rightarrow> True) \<and> keys_kept val [q]"
proof (induction p)
  case (Cons x p)
  then show ?case by (cases p) auto
qed simp

lemma checks_keys_kept:
  assumes "checkKeyNotChanged p = None" "validateObjectAssignedToList p v = None"
  shows "keys_kept (Inr v) p"
proof (cases p rule: rev_cases)
  case (snoc p' q)
  have q: "keys_kept (Inr v) [q]"
    using assms(2) snoc
    by (auto simp: validateObjectAssignedToList_def Let_def split: Node.splits if_splits val.splits option.splits)
  show ?thesis
  proof (cases p' rule: rev_cases)
    case Nil
    then show ?thesis using q snoc by simp
  next
    case (snoc p'' n)
    then have p: "p = p'' @ [n, q]" using \<open>p = p' @ [q]\<close> by simp
    then show ?thesis
      using assms(1) q
      by (auto simp: checkKeyNotChanged_def keys_kept_last_two nth_append split: Node.splits if_splits)
  qed
qed simp

lemma MutatorForAssign_fields:
  assumes "MutatorForAssign a = Inr m"
  shows "Parse (as_Location (as_Spec a)) = Inr (am_path m)" "\<not> hasMetadataRoot (am_path m)"
    "checkKeyNotChanged (am_path m) = None"
    "validateObjectAssignedToList (am_path m) (am_assignValue m) = None"
    "\<exists>obj. Unmarshal_map (raw_doc (AssignRaw (as_Parameters (as_Spec a)))) = Some obj \<and>
       mget obj ''value'' = Some (am_assignValue m)"
    "\<exists>ts. gatherPathTests a = Inr ts \<and> New (am_path m) ts = Inr (am_tester m)"
    "ValueTests a = Inr (am_valueTest m)" "am_assign m = a" "am_id m = MakeID (ObjectMeta.truncate a)"
    "am_bindings m = getSortedGVKs (as_ApplyTo (as_Spec a))" "am_bindings m \<noteq> []"
  using assms by (auto simp: MutatorForAssign_def Let_def split: sum.splits option.splits if_splits)

lemma MutatorForAssign_valid:
  assumes "MutatorForAssign a = Inr m"
  shows "valid_AssignMutator m"
proof -
  note f = MutatorForAssign_fields [OF assms]
  have "am_path m \<noteq> []" using f(3) by (auto simp: checkKeyNotChanged_def)
  moreover have "hd (am_path m) \<noteq> Object ''metadata''"
    using f(2) \<open>am_path m \<noteq> []\<close> by (auto simp: hasMetadataRoot_def hd_conv_nth split: if_splits)
  moreover have "wf_val (am_assignValue m)"
    using f(5) Unmarshal_map_wf wf_val_mget by blast
  ultimately show ?thesis
    using f Parse_wf_path checks_keys_kept [OF f(3,4)] New_Inr_wf
    by (auto simp: valid_AssignMutator_def)
qed

lemma MutatorForAssignMetadata_fields:
  assumes "MutatorForAssignMetadata a = Inr m"
  shows "Parse (ms_Location (amd_Spec a)) = Inr (mm_path m)" "isValidMetadataPath (mm_path m)"
    "\<exists>obj. Unmarshal_map (raw_doc (ms_AssignRaw (amd_Spec a))) = Some obj \<and>
       mget obj ''value'' = Some (VString (mm_assignValue m))"
    "New (mm_path m) [\<lparr>SubPath = mm_path m, test_Condition = MustNotExist\<rparr>] = Inr (mm_tester m)"
    "mm_assignMetadata m = a" "mm_id m = MakeID (ObjectMeta.truncate a)"
  using assms
  by (auto simp: MutatorForAssignMetadata_def Let_def split: sum.splits option.splits if_splits val.splits)

lemma node_Type_Object: "node_Type n = ObjectNode \<longleftrightarrow> (\<exists>k. n = Object k)"
  by (cases n) auto

lemma isValidMetadataPath_iff:
  "isValidMetadataPath p \<longleftrightarrow>
    (\<exists>part \<in> {''labels'', ''annotations''}. \<exists>k. p = [Object ''metadata'', Object part, Object k])"
proof (cases "length p = 3")
  case True
  then obtain a b c where p: "p = [a, b, c]"
    by (auto simp: numeral_3_eq_3 length_Suc_conv)
  have "isValidMetadataPath p \<longleftrightarrow>
      (a = Object ''metadata'' \<and> (b = Object ''labels'' \<or> b = Object ''annotations'')) \<and> (\<exists>k. c = Object k)"
    unfolding isValidMetadataPath_def labelsValidSubPath_def annotationValidSubPath_def p node_Type_Object
    by (auto simp: numeral_2_eq_2)
  then show ?thesis unfolding p by blast
next
  case False
  then show ?thesis by (auto simp: isValidMetadataPath_def)
qed

lemma MutatorForAssignMetadata_valid:
  assumes "MutatorForAssignMetadata a = Inr m"
  shows "valid_AssignMetadataMutator m"
proof -
  note f = MutatorForAssignMetadata_fields [OF assms]
  have len: "length (mm_path m) = 3" using f(2) by (auto simp: isValidMetadataPath_iff)
  then have "tests (mm_tester m) = [(2, MustNotExist)]"
    using New_Inr_tests [OF f(4)] by (simp add: New_scan_def)
  then show ?thesis
    using f(2) by (cases "mm_tester m") (auto simp: valid_AssignMetadataMutator_def isValidMetadataPath_iff)
qed

section \<open>The interface contract\<close>

text \<open>What the mutation system relies on in a mutator.\<close>

locale mutator =
  fixes valid :: "'m \<Rightarrow> bool"
    and ident :: "'m \<Rightarrow> ID"
    and has_diff :: "'m \<Rightarrow> 'm \<Rightarrow> bool"
    and deep_copy :: "'m \<Rightarrow> 'm"
    and mutate :: "'m \<Rightarrow> object option \<Rightarrow> val \<times> (MutErr + bool)"
  assumes deep_copy_id: "valid m \<Longrightarrow> deep_copy m = m"
    and no_diff_ident: "\<not> has_diff m m' \<Longrightarrow> ident m' = ident m"
    and has_diff_refl: "\<not> has_diff m m"
    and mutate_map: "valid m \<Longrightarrow> mutate m (Some obj) = (v, r) \<Longrightarrow> \<exists>obj'. v = VMap obj'"
    and mutate_wf: "valid m \<Longrightarrow> wf_val (VMap obj) \<Longrightarrow> mutate m (Some obj) = (v, Inr b) \<Longrightarrow> wf_val v"
    and unmutated: "valid m \<Longrightarrow> wf_val (VMap obj) \<Longrightarrow> mutate m (Some obj) = (v, Inr False) \<Longrightarrow> v = VMap obj"
    and mutate_settled: "valid m \<Longrightarrow> wf_val (VMap obj) \<Longrightarrow> mutate m (Some obj) = (VMap obj', Inr b) \<Longrightarrow>
      \<exists>c. mutate m (Some obj') = (VMap obj', Inr c)"

text \<open>The generic walk gives the contract, given a well-formed path that keeps its keys.\<close>

definition valid_state :: "mutatorState \<Rightarrow> bool" where
  "valid_state s \<longleftrightarrow> wf_path (ms_path s) \<and> ms_path s \<noteq> [] \<and> keys_kept (ms_Value s) (ms_path s) \<and>
     (\<forall>v. ms_Value s = Inr v \<longrightarrow> wf_val v)"

lemma core_Mutate_wf:
  assumes "valid_state s" "wf_val (VMap m)" "core_Mutate s (Some m) = (v, Inr b)"
  shows "wf_val v"
  using assms core_Mutate_Inr_iff [of s m v] assignAt_wf [of s "ms_path s" "VMap m" 0 v] wf_path_okay
  by (cases b) (auto simp: valid_state_def)

lemma core_Mutate_settled:
  assumes "valid_state s" "wf_val (VMap m)" "core_Mutate s (Some m) = (VMap m', Inr b)"
  shows "\<exists>c. core_Mutate s (Some m') = (VMap m', Inr c)"
proof (cases b)
  case True
  have p: "wf_path (ms_path s)" "ms_path s \<noteq> []" using assms(1) by (auto simp: valid_state_def)
  have wf: "wf_val (VMap m')" using core_Mutate_wf [OF assms] .
  have "assignAt s (ms_path s) (VMap m) 0 = Inr (Some (VMap m'))"
    using assms(3) True core_Mutate_Inr_iff(1) [OF p assms(2)] by simp
  then have "settled (\<lambda>v. assignAt s (ms_path s) v 0) (VMap m')"
    using assms(1) wf_path_okay by (intro assignAt_settled) (auto simp: valid_state_def)
  then show ?thesis
    using core_Mutate_Inr_iff [OF p wf] by (auto simp: settled_def)
next
  case False
  then show ?thesis
    using assms core_Mutate_Inr_iff(2) [of s m "VMap m'"] by (auto simp: valid_state_def)
qed

lemma core_Mutate_unmutated:
  assumes "valid_state s" "wf_val (VMap m)" "core_Mutate s (Some m) = (v, Inr False)"
  shows "v = VMap m"
  using assms core_Mutate_Inr_iff(2) [of s m v] by (auto simp: valid_state_def)

lemma valid_AssignMutator_state: "valid_AssignMutator m \<Longrightarrow> valid_state (AssignMutator_state m)"
  by (simp add: valid_AssignMutator_def valid_state_def AssignMutator_state_def AssignMutator_Value_def)

lemma valid_AssignMetadataMutator_state:
  "valid_AssignMetadataMutator m \<Longrightarrow> valid_state (AssignMetadataMutator_state m)"
  by (auto simp: valid_AssignMetadataMutator_def valid_state_def AssignMetadataMutator_state_def
      AssignMetadataMutator_Value_def wf_path_def not_two_lists_def)

fun Mutator_state :: "Mutator \<Rightarrow> mutatorState" where
  "Mutator_state (MAssign m) = AssignMutator_state m"
| "Mutator_state (MAssignMetadata m) = AssignMetadataMutator_state m"

lemma Mutator_Mutate_core: "Mutator_Mutate m obj = core_Mutate (Mutator_state m) obj"
  by (cases m) (simp_all add: AssignMutator_Mutate_def AssignMetadataMutator_Mutate_def)

lemma valid_Mutator_state: "valid_Mutator m \<Longrightarrow> valid_state (Mutator_state m)"
  by (cases m) (simp_all add: valid_AssignMutator_state valid_AssignMetadataMutator_state)

lemma Mutator_DeepCopy_id: "valid_Mutator m \<Longrightarrow> Mutator_DeepCopy m = m"
  by (cases m)
    (auto simp: AssignMutator_DeepCopy_def AssignMetadataMutator_DeepCopy_def AssignIf_DeepCopy_def
      valid_AssignMutator_def valid_AssignMetadataMutator_def Tester_DeepCopy_id Path_DeepCopy_id mwf_def)

lemma HasDiff_ID: "\<not> HasDiff m m' \<Longrightarrow> Mutator_ID m' = Mutator_ID m"
  by (cases m; cases m') (auto split: if_splits)

lemma HasDiff_refl: "\<not> HasDiff m m"
  by (cases m) auto

interpretation mutators: mutator valid_Mutator Mutator_ID HasDiff Mutator_DeepCopy Mutator_Mutate
proof unfold_locales
  fix m m' :: Mutator and obj obj' v r b
  show "valid_Mutator m \<Longrightarrow> Mutator_DeepCopy m = m" by (rule Mutator_DeepCopy_id)
  show "\<not> HasDiff m m' \<Longrightarrow> Mutator_ID m' = Mutator_ID m" by (rule HasDiff_ID)
  show "\<not> HasDiff m m" by (rule HasDiff_refl)
  show "valid_Mutator m \<Longrightarrow> Mutator_Mutate m (Some obj) = (v, r) \<Longrightarrow> \<exists>obj'. v = VMap obj'"
    unfolding Mutator_Mutate_core using core_Mutate_map valid_Mutator_state valid_state_def by metis
  show "valid_Mutator m \<Longrightarrow> wf_val (VMap obj) \<Longrightarrow> Mutator_Mutate m (Some obj) = (v, Inr b) \<Longrightarrow> wf_val v"
    unfolding Mutator_Mutate_core by (rule core_Mutate_wf [OF valid_Mutator_state])
  show "valid_Mutator m \<Longrightarrow> wf_val (VMap obj) \<Longrightarrow> Mutator_Mutate m (Some obj) = (v, Inr False) \<Longrightarrow> v = VMap obj"
    unfolding Mutator_Mutate_core by (rule core_Mutate_unmutated [OF valid_Mutator_state])
  show "valid_Mutator m \<Longrightarrow> wf_val (VMap obj) \<Longrightarrow> Mutator_Mutate m (Some obj) = (VMap obj', Inr b) \<Longrightarrow>
      \<exists>c. Mutator_Mutate m (Some obj') = (VMap obj', Inr c)"
    unfolding Mutator_Mutate_core by (rule core_Mutate_settled [OF valid_Mutator_state])
qed

section \<open>What the mutators do\<close>

lemma core_Mutate_frame:
  assumes "wf_path (ms_path s)" "ms_path s = Object ref # ps" "wf_val (VMap m)" "core_Mutate s (Some m) = (VMap m', r)"
  shows "off_path (ms_path s) (VMap m) (VMap m')"
proof -
  have "frame (ms_path s) (VMap m) (mutateInternal s (ms_path s) (VMap m) 0)"
    using mutateInternal_frame wf_path_okay assms(1,3) by blast
  moreover have "fst (mutateInternal s (ms_path s) (VMap m) 0) = VMap m'"
    using assms(2,4) by (auto simp: core_Mutate_def split: prod.splits sum.splits)
  ultimately show ?thesis by (simp add: frame_def)
qed

lemma mget_mdel_eq: "mdel r m = mdel r m' \<Longrightarrow> k \<noteq> r \<Longrightarrow> mget m k = mget m' k"
  by (metis mget_mdel)

lemma AssignMutator_keeps_other_fields:
  assumes "valid_AssignMutator m" "wf_val (VMap obj)" "AssignMutator_Mutate m (Some obj) = (VMap obj', r)"
    and "hd (am_path m) \<noteq> Object k"
  shows "mget obj' k = mget obj k"
proof -
  obtain ref ps where p: "am_path m = Object ref # ps"
    using assms(1) by (cases "am_path m"; cases "hd (am_path m)") (auto simp: valid_AssignMutator_def wf_path_def)
  have "off_path (Object ref # ps) (VMap obj) (VMap obj')"
    using core_Mutate_frame [of "AssignMutator_state m" ref ps obj obj' r] p assms
    by (simp add: AssignMutator_state_def AssignMutator_Mutate_def valid_AssignMutator_def del: off_path.simps)
  then show ?thesis
    using mget_mdel_eq [of ref obj obj' k] p assms(4) by auto
qed

text \<open>\<open>AssignMetadata\<close> adds its key if it is not there, and creates the maps above it.\<close>

definition add_metadata :: "string \<Rightarrow> string \<Rightarrow> val \<Rightarrow> object \<Rightarrow> object" where
  "add_metadata part k v obj =
     (let md = (case mget obj ''metadata'' of Some (VMap md) \<Rightarrow> md | _ \<Rightarrow> []);
          pm = (case mget md part of Some (VMap pm) \<Rightarrow> pm | _ \<Rightarrow> [])
      in mput ''metadata'' (VMap (mput part (VMap (mput k v pm)) md)) obj)"

lemma ExistsOkay_meta: "ExistsOkay \<lparr>tests = [(2, MustNotExist)]\<rparr> d \<longleftrightarrow> d \<noteq> 2"
  by (auto simp: ExistsOkay_def)

lemma MissingOkay_meta: "MissingOkay \<lparr>tests = [(2, MustNotExist)]\<rparr> d"
  by (auto simp: MissingOkay_def)

lemma AssignMetadata_assignAt:
  assumes "valid_AssignMetadataMutator m" "mm_path m = [Object ''metadata'', Object part, Object k]"
  shows "assignAt (AssignMetadataMutator_state m) (mm_path m) (VMap obj) 0 =
     (case NestedFieldNoCopy (VMap obj) [''metadata''] of
        Inr (Some (VMap md)) \<Rightarrow>
          (case mget md part of
             Some (VMap pm) \<Rightarrow>
               if mhas pm k then Inr None
               else Inr (Some (VMap (add_metadata part k (VString (mm_assignValue m)) obj)))
           | None \<Rightarrow> Inr (Some (VMap (add_metadata part k (VString (mm_assignValue m)) obj)))
           | Some _ \<Rightarrow> Inl (MismatchObject (Object k)))
      | Inr None \<Rightarrow> Inr (Some (VMap (add_metadata part k (VString (mm_assignValue m)) obj)))
      | _ \<Rightarrow> Inl (MismatchObject (Object part)))"
  using assms
  by (auto simp: valid_AssignMetadataMutator_def AssignMetadataMutator_state_def AssignMetadataMutator_Value_def
      assignAt.simps(2) ExistsOkay_meta MissingOkay_meta mhas_def createMissingElement_def add_metadata_def Let_def
      split: option.splits val.splits)

text \<open>An existing label or annotation is never changed, whatever the outcome.\<close>

lemma add_metadata_fields:
  "mget (add_metadata part k v obj) j =
     (if j = ''metadata'' then Some (VMap (mput part (VMap (mput k v
         (case NestedFieldNoCopy (VMap obj) [''metadata'', part] of Inr (Some (VMap pm)) \<Rightarrow> pm | _ \<Rightarrow> [])))
        (case mget obj ''metadata'' of Some (VMap md) \<Rightarrow> md | _ \<Rightarrow> []))) else mget obj j)"
  by (auto simp: add_metadata_def Let_def split: option.splits val.splits)

lemma error_unchanged:
  assumes "list_all (\<lambda>n. node_Type n = ObjectNode) p" "wf_val cur" "snd (mutateInternal s p cur d) = Inl e"
  shows "fst (mutateInternal s p cur d) = cur"
  using assms
proof (induction p arbitrary: cur d e)
  case (Cons n ps)
  obtain ref where n: "n = Object ref" using Cons.prems(1) by (auto simp: node_Type_Object)
  show ?case
  proof (cases "\<exists>m. cur = VMap m")
    case False
    then show ?thesis using n by (simp add: mutateInternal_mismatch)
  next
    case True
    then obtain m where m: "cur = VMap m" by blast
    show ?thesis
    proof (cases "ps = []")
      case True
      then show ?thesis using Cons.prems n m by (auto simp: mutateInternal_last_Object split: sum.splits if_splits)
    next
      case False
      have "mput ref c' m = m" if "mget m ref = Some c" "mutateInternal s ps c (Suc d) = (c', Inl e')" for c c' e'
        using Cons.IH [of c "Suc d" e'] Cons.prems(1,2) that wf_val_mget [of m ref c] m mput_same [of m ref c] by simp
      then show ?thesis
        using Cons.prems(3) False n m
        by (auto simp: mutateInternal_Object_step Let_def mhas_def split: if_splits sum.splits option.splits prod.splits)
    qed
  qed
qed simp

lemma AssignMetadata_error_unchanged:
  assumes "valid_AssignMetadataMutator m" "wf_val (VMap obj)" "AssignMetadataMutator_Mutate m (Some obj) = (w, Inl e)"
  shows "w = VMap obj"
proof -
  let ?s = "AssignMetadataMutator_state m"
  have "list_all (\<lambda>n. node_Type n = ObjectNode) (ms_path ?s)" "ms_path ?s \<noteq> []"
    using assms(1) by (auto simp: AssignMetadataMutator_state_def valid_AssignMetadataMutator_def)
  then show ?thesis
    using assms(2,3) error_unchanged [of "ms_path ?s" "VMap obj" ?s 0 e]
    by (auto simp: AssignMetadataMutator_Mutate_def core_Mutate_def split: prod.splits sum.splits)
qed

lemma AssignMetadata_Mutate_cases:
  assumes "valid_AssignMetadataMutator m" "mm_path m = [Object ''metadata'', Object part, Object k]"
    and "wf_val (VMap obj)" "AssignMetadataMutator_Mutate m (Some obj) = (w, r)"
  shows "(\<exists>e. r = Inl e \<and> w = VMap obj) \<or> (r = Inr False \<and> w = VMap obj) \<or>
    (r = Inr True \<and> w = VMap (add_metadata part k (VString (mm_assignValue m)) obj) \<and>
      (\<forall>x. NestedFieldNoCopy (VMap obj) [''metadata'', part, k] \<noteq> Inr (Some x)))"
proof -
  let ?s = "AssignMetadataMutator_state m"
  have p: "wf_path (ms_path ?s)" "ms_path ?s \<noteq> []" "ms_path ?s = mm_path m"
    using valid_AssignMetadataMutator_state [OF assms(1)] by (auto simp: valid_state_def AssignMetadataMutator_state_def)
  note eq = core_Mutate_eq [OF p(1,2) assms(3)] AssignMetadata_assignAt [OF assms(1,2), of obj]
  show ?thesis
  proof (cases "assignAt ?s (mm_path m) (VMap obj) 0")
    case (Inl e)
    then show ?thesis
      using assms(4) eq(1) p(3) AssignMetadata_error_unchanged [OF assms(1,3)]
      by (auto simp: AssignMetadataMutator_Mutate_def)
  next
    case (Inr o')
    then show ?thesis
      using assms(4) eq p(3)
      by (cases o') (auto simp: AssignMetadataMutator_Mutate_def mhas_def split: option.splits val.splits if_splits)
  qed
qed

section \<open>Two mutators without a difference behave alike\<close>

text \<open>Everything \<open>Mutate\<close> and \<open>Matches\<close> read is computed from the spec.\<close>

lemma no_diff_same_Assign:
  assumes "MutatorForAssign a = Inr m" "MutatorForAssign a' = Inr m'" "\<not> HasDiff (MAssign m) (MAssign m')"
  shows "AssignMutator_state m = AssignMutator_state m'" "AssignMutator_Matches sel m = AssignMutator_Matches sel m'"
proof -
  note f = MutatorForAssign_fields [OF assms(1)] and f' = MutatorForAssign_fields [OF assms(2)]
  have spec: "as_Spec a = as_Spec a'" "am_path m = am_path m'"
    using assms(3) f(8) f'(8) by (auto split: if_splits)
  have "gatherPathTests a = gatherPathTests a'" "ValueTests a = ValueTests a'"
    by (simp_all add: gatherPathTests_def ValueTests_def spec)
  then have "am_tester m = am_tester m'" "am_valueTest m = am_valueTest m'" "am_assignValue m = am_assignValue m'"
    using f(5-7) f'(5-7) spec by auto
  then show "AssignMutator_state m = AssignMutator_state m'"
    by (simp add: AssignMutator_state_def AssignMutator_Value_def spec testValue_def fun_eq_iff)
  show "AssignMutator_Matches sel m = AssignMutator_Matches sel m'"
    by (simp add: AssignMutator_Matches_def f(8) f'(8) spec fun_eq_iff)
qed

lemma no_diff_same_AssignMetadata:
  assumes "MutatorForAssignMetadata a = Inr m" "MutatorForAssignMetadata a' = Inr m'"
    "\<not> HasDiff (MAssignMetadata m) (MAssignMetadata m')"
  shows "AssignMetadataMutator_state m = AssignMetadataMutator_state m'"
    "AssignMetadataMutator_Matches sel m = AssignMetadataMutator_Matches sel m'"
proof -
  note f = MutatorForAssignMetadata_fields [OF assms(1)] and f' = MutatorForAssignMetadata_fields [OF assms(2)]
  have spec: "amd_Spec a = amd_Spec a'"
    using assms(3) f(5) f'(5) by (auto split: if_splits)
  then have "mm_path m = mm_path m'" "mm_assignValue m = mm_assignValue m'" using f(1,3) f'(1,3) by auto
  moreover from this have "mm_tester m = mm_tester m'" using f(4) f'(4) by simp
  ultimately show "AssignMetadataMutator_state m = AssignMetadataMutator_state m'"
    by (simp add: AssignMetadataMutator_state_def AssignMetadataMutator_Value_def)
  show "AssignMetadataMutator_Matches sel m = AssignMetadataMutator_Matches sel m'"
    by (simp add: AssignMetadataMutator_Matches_def f(5) f'(5) spec fun_eq_iff)
qed

text \<open>How a mutator is made.\<close>

inductive built :: "Mutator \<Rightarrow> bool" where
  built_Assign: "MutatorForAssign a = Inr m \<Longrightarrow> built (MAssign m)"
| built_AssignMetadata: "MutatorForAssignMetadata a = Inr m \<Longrightarrow> built (MAssignMetadata m)"

inductive_cases built_AssignE: "built (MAssign m)"
inductive_cases built_AssignMetadataE: "built (MAssignMetadata m)"

lemma built_valid: "built m \<Longrightarrow> valid_Mutator m"
  by (induction rule: built.induct) (simp_all add: MutatorForAssign_valid MutatorForAssignMetadata_valid)

lemma no_diff_same_behaviour:
  assumes "built m" "built m'" "\<not> HasDiff m m'"
  shows "Mutator_Mutate m = Mutator_Mutate m'" "Mutator_Matches sel m = Mutator_Matches sel m'"
proof -
  have "Mutator_state m = Mutator_state m' \<and> Mutator_Matches sel m = Mutator_Matches sel m'"
    using assms(1)
  proof (cases rule: built.cases)
    case (built_Assign a n)
    then obtain n' a' where "m' = MAssign n'" "MutatorForAssign a' = Inr n'"
      using assms(2,3) by (cases m') (auto elim: built_AssignE)
    then show ?thesis
      using no_diff_same_Assign [OF built_Assign(2)] assms(3) built_Assign(1) by simp
  next
    case (built_AssignMetadata a n)
    then obtain n' a' where "m' = MAssignMetadata n'" "MutatorForAssignMetadata a' = Inr n'"
      using assms(2,3) by (cases m') (auto elim: built_AssignMetadataE)
    then show ?thesis
      using no_diff_same_AssignMetadata [OF built_AssignMetadata(2)] assms(3) built_AssignMetadata(1) by simp
  qed
  then show "Mutator_Mutate m = Mutator_Mutate m'" "Mutator_Matches sel m = Mutator_Matches sel m'"
    by (auto simp: Mutator_Mutate_core fun_eq_iff)
qed

section \<open>Numbers\<close>

text \<open>Values decoded by \<open>encoding/json\<close> hold no \<open>int64\<close>.\<close>

lemma MutatorForAssign_value_no_int:
  "MutatorForAssign a = Inr m \<Longrightarrow> \<not> has_int (am_assignValue m)"
  using MutatorForAssign_fields(5) Unmarshal_map_no_int by blast

lemma validate_int_key:
  assumes "path \<noteq> []" "last path = ListN kf (VInt i) False" "\<not> has_int v"
  shows "validateObjectAssignedToList path v \<noteq> None"
proof -
  have "path ! (length path - 1) = ListN kf (VInt i) False"
    using assms(1,2) by (simp add: last_conv_nth)
  then show ?thesis
    using assms(1,3) by (force simp: validateObjectAssignedToList_def Let_def split: val.splits option.splits dest: map_of_SomeD)
qed

lemma json_list_no_int: "json_list j = Some xs \<Longrightarrow> x \<in> set xs \<Longrightarrow> \<not> has_int x"
  by (cases j) (auto simp: json_list_def decode_json_no_int)

lemma Unmarshal_AssignIf_no_int:
  assumes "Unmarshal_AssignIf fs out = Some r" "\<forall>x \<in> set (If_In out) \<union> set (If_NotIn out). \<not> has_int x"
  shows "\<forall>x \<in> set (If_In r) \<union> set (If_NotIn r). \<not> has_int x"
  using assms
  by (induction fs out rule: Unmarshal_AssignIf.induct)
    (auto split: if_splits option.splits dest: json_list_no_int)

lemma ValueTests_no_int:
  assumes "ValueTests a = Inr r" "x \<in> set (If_In r) \<union> set (If_NotIn r)"
  shows "\<not> has_int x"
  using assms Unmarshal_AssignIf_no_int [of _ "\<lparr>If_In = [], If_NotIn = []\<rparr>" r]
  by (auto simp: ValueTests_def Let_def split: if_splits option.splits json.splits)

end
