(* ===== verification/Schema_DB.thy ===== *)
theory Schema_DB
  imports Schema_Node Mutator_Facts
begin

text \<open>
  The schema database (\<open>pkg/mutation/schema/schema.go\<close>): the implicit schemas of the
  cached mutators, one tree per group-version-kind, and the set of mutators in conflict.
  A panic of the code is an \<open>Inl\<close>; the theory shows that the database never panics, that
  its trees hold exactly the paths of its cached mutators, and when they are free of
  conflicts. Of the two mutators only \<open>AssignMutator\<close> is a \<open>MutatorWithSchema\<close>.
\<close>

datatype Panic =
    MissingSchema ID GVK
  | NodePanic SchemaErr
  | NilMutatorPanic ID
  | NilSchemaPanic GVK

datatype DBErr = ErrNilMutator | ErrConflictingSchema "ID set"

record DB =
  cachedMutators :: "(ID, AssignMutator) gomap"
  schemas :: "(GVK, node) gomap"
  db_conflicts :: "(ID, bool) gomap"

definition New_DB :: DB where
  "New_DB = \<lparr>cachedMutators = [], schemas = [], db_conflicts = []\<rparr>"

definition SchemaBindings :: "AssignMutator \<Rightarrow> GVK list" where
  "SchemaBindings m = am_bindings m"

text \<open>The loop of \<open>remove\<close> over the bindings of the cached mutator.\<close>

fun remove_schemas :: "ID \<Rightarrow> Path \<Rightarrow> GVK list \<Rightarrow> (GVK, node) gomap \<Rightarrow> Panic + (GVK, node) gomap" where
  "remove_schemas i path [] ss = Inr ss"
| "remove_schemas i path (gvk # gvks) ss =
     (case mget ss gvk of
        None \<Rightarrow> Inl (MissingSchema i gvk)
      | Some s \<Rightarrow>
          (case Remove i path s of
             Inl e \<Rightarrow> Inl (NodePanic e)
           | Inr s' \<Rightarrow>
               (let ss' = mput gvk s' ss in
                remove_schemas i path gvks (if ReferencedBy s' = {} then mdel gvk ss' else ss'))))"

text \<open>Whether a mutator with this path still has a conflict in one of its bindings.\<close>

fun has_conflict :: "(GVK, node) gomap \<Rightarrow> Path \<Rightarrow> GVK list \<Rightarrow> Panic + bool" where
  "has_conflict ss path [] = Inr False"
| "has_conflict ss path (gvk # gvks) =
     (case mget ss gvk of
        None \<Rightarrow> if path = [] then has_conflict ss path gvks else Inl (NilSchemaPanic gvk)
      | Some n \<Rightarrow> if node_HasConflicts path n = Inr True then Inr True else has_conflict ss path gvks)"

text \<open>The loop of \<open>remove\<close> over the known conflicts, which deletes the resolved ones.\<close>

fun check_conflicts ::
    "(ID, AssignMutator) gomap \<Rightarrow> (GVK, node) gomap \<Rightarrow> ID list \<Rightarrow> (ID, bool) gomap \<Rightarrow> Panic + (ID, bool) gomap" where
  "check_conflicts cache ss [] cs = Inr cs"
| "check_conflicts cache ss (conflictID # ids) cs =
     (case mget cache conflictID of
        None \<Rightarrow> Inl (NilMutatorPanic conflictID)
      | Some m \<Rightarrow>
          (case has_conflict ss (am_path m) (SchemaBindings m) of
             Inl e \<Rightarrow> Inl e
           | Inr hasConflict \<Rightarrow>
               check_conflicts cache ss ids (if hasConflict then cs else mdel conflictID cs)))"

definition DB_remove :: "ID \<Rightarrow> DB \<Rightarrow> Panic + DB" where
  "DB_remove i db =
     (case mget (cachedMutators db) i of
        None \<Rightarrow> Inr db
      | Some cachedMutator \<Rightarrow>
          (case remove_schemas i (am_path cachedMutator) (SchemaBindings cachedMutator) (schemas db) of
             Inl e \<Rightarrow> Inl e
           | Inr ss \<Rightarrow>
               (let cache = mdel i (cachedMutators db);
                    cs = mdel i (db_conflicts db)
                in (case check_conflicts cache ss (mkeys cs) cs of
                      Inl e \<Rightarrow> Inl e
                    | Inr cs' \<Rightarrow> Inr \<lparr>cachedMutators = cache, schemas = ss, db_conflicts = cs'\<rparr>))))"

text \<open>The loop of \<open>upsert\<close> over the bindings.\<close>

fun add_schemas ::
    "ID \<Rightarrow> Path \<Rightarrow> GVK list \<Rightarrow> (GVK, node) gomap \<Rightarrow> ID set \<Rightarrow> (GVK, node) gomap \<times> ID set" where
  "add_schemas i path [] ss cs = (ss, cs)"
| "add_schemas i path (gvk # gvks) ss cs =
     (let s = (case mget ss gvk of None \<Rightarrow> SNode {} [] | Some s \<Rightarrow> s);
          (s', newConflicts) = Add i path s
      in add_schemas i path gvks (mput gvk s' ss) (merge_ids cs newConflicts))"

text \<open>\<open>db.conflicts[c] = true\<close> for every reported conflict; the order does not matter.\<close>

definition mark_conflicts :: "ID set \<Rightarrow> (ID, bool) gomap \<Rightarrow> (ID, bool) gomap" where
  "mark_conflicts ids cs = fold (\<lambda>c. mput c True) (sorted_list_of_set ids) cs"

definition DB_insert :: "AssignMutator \<Rightarrow> DB \<Rightarrow> DB \<times> DBErr option" where
  "DB_insert m db =
     (let i = am_id m;
          cache = mput i (AssignMutator_DeepCopy m) (cachedMutators db);
          (ss, cs) = add_schemas i (am_path m) (SchemaBindings m) (schemas db) {};
          db' = \<lparr>cachedMutators = cache, schemas = ss, db_conflicts = mark_conflicts cs (db_conflicts db)\<rparr>
      in (db', if cs \<noteq> {} then Some (ErrConflictingSchema cs) else None))"

definition DB_upsert :: "AssignMutator \<Rightarrow> DB \<Rightarrow> Panic + DB \<times> DBErr option" where
  "DB_upsert m db =
     (case mget (cachedMutators db) (am_id m) of
        Some oldMutator \<Rightarrow>
          if \<not> AssignMutator_HasDiff m (MAssign oldMutator) then Inr (db, None)
          else (case DB_remove (am_id m) db of
                  Inl e \<Rightarrow> Inl e
                | Inr db' \<Rightarrow> Inr (DB_insert m db'))
      | None \<Rightarrow> Inr (DB_insert m db))"

definition DB_Upsert :: "AssignMutator option \<Rightarrow> DB \<Rightarrow> Panic + DB \<times> DBErr option" where
  "DB_Upsert mo db =
     (case mo of None \<Rightarrow> Inr (db, Some ErrNilMutator) | Some m \<Rightarrow> DB_upsert m db)"

definition DB_Remove :: "ID \<Rightarrow> DB \<Rightarrow> Panic + DB" where
  "DB_Remove i db = DB_remove i db"

definition DB_HasConflicts :: "ID \<Rightarrow> DB \<Rightarrow> bool" where
  "DB_HasConflicts i db = (case mget (db_conflicts db) i of Some b \<Rightarrow> b | None \<Rightarrow> False)"

section \<open>The invariant\<close>

definition tree_at :: "(GVK, node) gomap \<Rightarrow> GVK \<Rightarrow> node" where
  "tree_at ss g = (case mget ss g of None \<Rightarrow> SNode {} [] | Some n \<Rightarrow> n)"

text \<open>The mutators of the cache whose path in \<open>g\<close> goes through \<open>q\<close>.\<close>

definition bound :: "(ID, AssignMutator) gomap \<Rightarrow> GVK \<Rightarrow> typed_path \<Rightarrow> ID set" where
  "bound cache g q =
     {i. \<exists>m. mget cache i = Some m \<and> g \<in> set (am_bindings m) \<and> prefix q (typed (am_path m))}"

definition schemas_wf :: "(GVK, node) gomap \<Rightarrow> bool" where
  "schemas_wf ss \<longleftrightarrow> mwf ss \<and> (\<forall>g n. mget ss g = Some n \<longrightarrow> wf_node_tree n \<and> ReferencedBy n \<noteq> {})"

definition db_inv :: "DB \<Rightarrow> bool" where
  "db_inv db \<longleftrightarrow>
     mwf (cachedMutators db) \<and> mwf (db_conflicts db) \<and> schemas_wf (schemas db) \<and>
     (\<forall>i m. mget (cachedMutators db) i = Some m \<longrightarrow> am_id m = i \<and> valid_AssignMutator m) \<and>
     (\<forall>g q. refs_at (tree_at (schemas db) g) q = bound (cachedMutators db) g q) \<and>
     (\<forall>i b. mget (db_conflicts db) i = Some b \<longrightarrow> b \<and> mhas (cachedMutators db) i)"

lemma wf_tree_at: "schemas_wf ss \<Longrightarrow> wf_node_tree (tree_at ss g)"
  by (auto simp: schemas_wf_def tree_at_def split: option.splits)

lemma valid_bindings: "valid_AssignMutator m \<Longrightarrow> distinct (am_bindings m) \<and> am_bindings m \<noteq> []"
  by (metis distinct_getSortedGVKs valid_AssignMutator_def)

lemma db_inv_New: "db_inv New_DB"
  by (simp add: db_inv_def New_DB_def schemas_wf_def tree_at_def bound_def)

text \<open>Removing a mutator from the trees removes exactly its references.\<close>

lemma tree_at_mput_del:
  "tree_at (if b then mdel g (mput g n ss) else mput g n ss) g' =
    (if g' = g then (if b then SNode {} [] else n) else tree_at ss g')"
  by (auto simp: tree_at_def)

lemma remove_schemas_spec:
  assumes "schemas_wf ss" "distinct gvks"
    and "\<And>g q. g \<in> set gvks \<Longrightarrow> i \<in> refs_at (tree_at ss g) q \<longleftrightarrow> prefix q (typed path)"
  shows "\<exists>ss'. remove_schemas i path gvks ss = Inr ss' \<and> schemas_wf ss' \<and>
    (\<forall>g q. refs_at (tree_at ss' g) q = refs_at (tree_at ss g) q - (if g \<in> set gvks then {i} else {}))"
  using assms
proof (induction gvks arbitrary: ss)
  case (Cons g gs)
  have root: "i \<in> refs_at (tree_at ss g) []" using Cons.prems(3) [of g "[]"] by simp
  then obtain n where n: "mget ss g = Some n" by (cases "mget ss g") (auto simp: tree_at_def)
  have wf: "wf_node_tree n" using Cons.prems(1) n by (auto simp: schemas_wf_def)
  have "\<exists>n'. Remove i path n = Inr n' \<and> wf_node_tree n' \<and> (\<forall>q. refs_at n' q = refs_at n q - {i})"
    using Remove_spec [OF wf, of i path] Cons.prems(3) [of g] n by (simp add: tree_at_def)
  then obtain n' where n': "Remove i path n = Inr n'" "wf_node_tree n'" "\<forall>q. refs_at n' q = refs_at n q - {i}"
    by blast
  define ss1 where "ss1 = (if ReferencedBy n' = {} then mdel g (mput g n' ss) else mput g n' ss)"
  have empty: "refs_at n' q = {}" if "ReferencedBy n' = {}" for q
    using refs_at_subset [OF n'(2), of q] that by simp
  have refs1: "refs_at (tree_at ss1 g') q = refs_at (tree_at ss g') q - (if g' = g then {i} else {})" for g' q
    using n'(3) n empty by (auto simp: ss1_def tree_at_mput_del) (auto simp: tree_at_def)
  have wf1: "schemas_wf ss1"
    using Cons.prems(1) n'(2) by (auto simp: schemas_wf_def ss1_def)
  have "\<exists>ss'. remove_schemas i path gs ss1 = Inr ss' \<and> schemas_wf ss' \<and>
      (\<forall>g q. refs_at (tree_at ss' g) q = refs_at (tree_at ss1 g) q - (if g \<in> set gs then {i} else {}))"
    using Cons.prems(2,3) refs1 by (intro Cons.IH [OF wf1]) auto
  then show ?case
    using n n'(1) refs1 by (auto simp: ss1_def [symmetric] Let_def)
qed simp

lemma has_conflict_total:
  assumes "\<And>g. g \<in> set gvks \<Longrightarrow> mget ss g \<noteq> None"
  shows "\<exists>b. has_conflict ss path gvks = Inr b"
  using assms
proof (induction gvks)
  case (Cons g gs)
  obtain n where "mget ss g = Some n" using Cons.prems [of g] by auto
  then show ?case using Cons by auto
qed auto

lemma check_conflicts_total:
  assumes "mwf cs" "\<And>i. i \<in> set ids \<Longrightarrow> \<exists>m. mget cache i = Some m \<and> (\<forall>g \<in> set (am_bindings m). mget ss g \<noteq> None)"
  shows "\<exists>cs'. check_conflicts cache ss ids cs = Inr cs' \<and> mwf cs' \<and> (\<forall>i b. mget cs' i = Some b \<longrightarrow> mget cs i = Some b)"
  using assms
proof (induction ids arbitrary: cs)
  case (Cons i ids)
  obtain m where m: "mget cache i = Some m" "\<forall>g \<in> set (am_bindings m). mget ss g \<noteq> None"
    using Cons.prems(2) [of i] by auto
  obtain b where b: "has_conflict ss (am_path m) (am_bindings m) = Inr b"
    using has_conflict_total m(2) by blast
  have "\<exists>cs'. check_conflicts cache ss ids (if b then cs else mdel i cs) = Inr cs' \<and> mwf cs' \<and>
      (\<forall>j c. mget cs' j = Some c \<longrightarrow> mget (if b then cs else mdel i cs) j = Some c)"
    using Cons.prems by (intro Cons.IH) auto
  then show ?case
    using m(1) b by (cases b) (auto simp: SchemaBindings_def, metis option.distinct(1))
qed simp

lemma tree_referenced:
  assumes "\<And>g q. refs_at (tree_at ss g) q = bound cache g q" "mget cache i = Some m" "g \<in> set (am_bindings m)"
  shows "mget ss g \<noteq> None"
  using assms(1) [of g "[]"] assms(2,3) by (auto simp: tree_at_def bound_def split: option.splits)

lemma DB_remove_absent: "mget (cachedMutators db) i = None \<Longrightarrow> DB_remove i db = Inr db"
  by (simp add: DB_remove_def)

lemma DB_remove_spec:
  assumes "db_inv db"
  shows "\<exists>db'. DB_remove i db = Inr db' \<and> db_inv db' \<and> cachedMutators db' = mdel i (cachedMutators db) \<and>
    (\<forall>j. DB_HasConflicts j db' \<longrightarrow> DB_HasConflicts j db \<and> j \<noteq> i)"
proof (cases "mget (cachedMutators db) i")
  case None
  have "\<not> DB_HasConflicts i db"
    using assms None by (force simp: db_inv_def DB_HasConflicts_def mhas_def split: option.splits)
  then show ?thesis using assms None by (auto simp: DB_remove_def mdel_absent)
next
  case (Some m)
  let ?cache = "cachedMutators db"
  have inv: "mwf ?cache" "mwf (db_conflicts db)" "schemas_wf (schemas db)" "valid_AssignMutator m" "am_id m = i"
    "\<And>g q. refs_at (tree_at (schemas db) g) q = bound ?cache g q"
    "\<And>j b. mget (db_conflicts db) j = Some b \<Longrightarrow> b \<and> mhas ?cache j"
    using assms Some by (auto simp: db_inv_def)
  have "i \<in> bound ?cache g q \<longleftrightarrow> prefix q (typed (am_path m))" if "g \<in> set (am_bindings m)" for g q
    using Some that by (simp add: bound_def)
  then obtain ss where ss: "remove_schemas i (am_path m) (am_bindings m) (schemas db) = Inr ss" "schemas_wf ss"
    "\<And>g q. refs_at (tree_at ss g) q = bound ?cache g q - (if g \<in> set (am_bindings m) then {i} else {})"
    using remove_schemas_spec [OF inv(3), of "am_bindings m" i "am_path m"] valid_bindings [OF inv(4)] inv(6) by auto
  have refs: "refs_at (tree_at ss g) q = bound (mdel i ?cache) g q" for g q
    using ss(3) [of g q] Some by (auto simp: bound_def)
  let ?cs = "mdel i (db_conflicts db)"
  have known: "\<exists>m'. mget (mdel i ?cache) j = Some m' \<and> (\<forall>g \<in> set (am_bindings m'). mget ss g \<noteq> None)"
    if "j \<in> set (mkeys ?cs)" for j
  proof -
    have "j \<noteq> i" "j \<in> fst ` set (db_conflicts db)" using that by (auto simp: mkeys_def)
    then obtain b where "mget (db_conflicts db) j = Some b" by (metis mget_None_iff not_Some_eq)
    then obtain m' where "mget (mdel i ?cache) j = Some m'"
      using inv(7) \<open>j \<noteq> i\<close> by (auto simp: mhas_def)
    then show ?thesis using tree_referenced [OF refs] by blast
  qed
  obtain cs where cs: "check_conflicts (mdel i ?cache) ss (mkeys ?cs) ?cs = Inr cs" "mwf cs"
    "\<And>j b. mget cs j = Some b \<Longrightarrow> mget ?cs j = Some b"
    using check_conflicts_total [of ?cs "mkeys ?cs" "mdel i ?cache" ss] known inv(2) by auto
  have cs': "b \<and> mhas ?cache j \<and> j \<noteq> i \<and> mget (db_conflicts db) j = Some b" if "mget cs j = Some b" for j b
    using cs(3) [OF that] inv(7) [of j b] by (auto split: if_splits)
  let ?db' = "\<lparr>cachedMutators = mdel i ?cache, schemas = ss, db_conflicts = cs\<rparr>"
  have "DB_remove i db = Inr ?db'"
    using Some ss(1) cs(1) by (simp add: DB_remove_def SchemaBindings_def Let_def)
  moreover have "db_inv ?db'"
    using inv(1) assms ss(2) cs(2) refs cs' unfolding db_inv_def by (simp add: mhas_def) blast
  moreover have "\<forall>j. DB_HasConflicts j ?db' \<longrightarrow> DB_HasConflicts j db \<and> j \<noteq> i"
    using cs' by (fastforce simp: DB_HasConflicts_def split: option.splits)
  ultimately show ?thesis by auto
qed

section \<open>Insertion\<close>

lemma tree_at_mput: "tree_at (mput g n ss) g' = (if g' = g then n else tree_at ss g')"
  by (simp add: tree_at_def)

lemma add_schemas_spec:
  assumes "schemas_wf ss" "distinct gvks"
  shows "schemas_wf (fst (add_schemas i path gvks ss cs)) \<and>
    (\<forall>g. tree_at (fst (add_schemas i path gvks ss cs)) g =
       (if g \<in> set gvks then fst (Add i path (tree_at ss g)) else tree_at ss g)) \<and>
    snd (add_schemas i path gvks ss cs) = cs \<union> (\<Union>g \<in> set gvks. snd (Add i path (tree_at ss g)))"
  using assms
proof (induction gvks arbitrary: ss cs)
  case (Cons g gs)
  obtain n' new where A: "Add i path (tree_at ss g) = (n', new)" by (cases "Add i path (tree_at ss g)")
  have "wf_node_tree n'" "ReferencedBy n' \<noteq> {}"
    using wf_Add [OF wf_tree_at [OF Cons.prems(1)], of i path g] ReferencedBy_Add [of i path "tree_at ss g"] A by auto
  then have wf: "schemas_wf (mput g n' ss)"
    using Cons.prems(1) by (auto simp: schemas_wf_def)
  have step: "add_schemas i path (g # gs) ss cs = add_schemas i path gs (mput g n' ss) (cs \<union> new)"
    using A by (simp add: Let_def tree_at_def merge_ids_def)
  have "tree_at (mput g n' ss) g' = tree_at ss g'" if "g' \<in> set gs" for g'
    using that Cons.prems(2) by (auto simp: tree_at_mput)
  then show ?case
    unfolding step using Cons.IH [OF wf, of "cs \<union> new"] Cons.prems(2) A
    by (auto simp: tree_at_mput)
qed simp

lemma fold_mark: "mget (fold (\<lambda>c. mput c True) xs cs) j = (if j \<in> set xs then Some True else mget cs j)"
  by (induction xs arbitrary: cs) auto

lemma mget_mark_conflicts:
  "finite ids \<Longrightarrow> mget (mark_conflicts ids cs) j = (if j \<in> ids then Some True else mget cs j)"
  by (simp add: mark_conflicts_def fold_mark)

lemma mwf_mark_conflicts: "mwf cs \<Longrightarrow> mwf (mark_conflicts ids cs)"
proof -
  have "mwf cs \<Longrightarrow> mwf (fold (\<lambda>c. mput c True) xs cs)" for xs by (induction xs arbitrary: cs) auto
  then show "mwf cs \<Longrightarrow> mwf (mark_conflicts ids cs)" by (simp add: mark_conflicts_def)
qed

lemma snd_Add_subset: "wf_node_tree n \<Longrightarrow> snd (Add i p n) \<subseteq> insert i (ReferencedBy n)"
proof (induction p arbitrary: n)
  case Nil
  then show ?case by (cases n) simp
next
  case (Cons p ps)
  have wf: "wf_node_tree (fst (Add i (p # ps) n))" using wf_Add Cons.prems by blast
  have "conflicts (fst (Add i (p # ps) n)) (key p) \<subseteq> ReferencedBy (fst (Add i (p # ps) n))"
    using conflicts_child [OF wf] wf_child_of(3) [OF wf] by blast
  then show ?case
    unfolding snd_Add
    using Cons.IH [OF child_or_empty(1) [OF Cons.prems]] child_or_empty(2) [OF Cons.prems] by auto blast
qed

lemma bound_finite: "finite (bound cache g q)"
proof (rule finite_subset)
  show "bound cache g q \<subseteq> fst ` set cache"
    by (auto simp: bound_def dest!: map_of_SomeD intro: rev_image_eqI)
qed simp

lemma ReferencedBy_tree_at:
  "db_inv db \<Longrightarrow> ReferencedBy (tree_at (schemas db) g) = bound (cachedMutators db) g []"
  by (metis db_inv_def refs_at.simps(1))

lemma db_inv_no_conflict: "db_inv db \<Longrightarrow> \<not> DB_HasConflicts j db \<Longrightarrow> mget (db_conflicts db) j = None"
  by (cases "mget (db_conflicts db) j") (auto simp: db_inv_def DB_HasConflicts_def)

lemma DB_insert_spec:
  fixes db m
  defines "new \<equiv> (\<Union>g \<in> set (am_bindings m). snd (Add (am_id m) (am_path m) (tree_at (schemas db) g)))"
  assumes "db_inv db" "valid_AssignMutator m" "mget (cachedMutators db) (am_id m) = None"
  shows "db_inv (fst (DB_insert m db))"
    and "cachedMutators (fst (DB_insert m db)) = mput (am_id m) m (cachedMutators db)"
    and "snd (DB_insert m db) = (if new \<noteq> {} then Some (ErrConflictingSchema new) else None)"
    and "\<And>j. DB_HasConflicts j (fst (DB_insert m db)) \<longleftrightarrow> j \<in> new \<or> DB_HasConflicts j db"
    and "\<And>g. tree_at (schemas (fst (DB_insert m db))) g =
      (if g \<in> set (am_bindings m) then fst (Add (am_id m) (am_path m) (tree_at (schemas db) g)) else tree_at (schemas db) g)"
proof -
  let ?i = "am_id m" and ?cache = "cachedMutators db"
  have inv: "mwf ?cache" "mwf (db_conflicts db)" "schemas_wf (schemas db)"
    "\<And>g q. refs_at (tree_at (schemas db) g) q = bound ?cache g q"
    "\<And>j b. mget (db_conflicts db) j = Some b \<Longrightarrow> b \<and> mhas ?cache j"
    "\<And>j m'. mget ?cache j = Some m' \<Longrightarrow> am_id m' = j \<and> valid_AssignMutator m'"
    using assms(2) by (auto simp: db_inv_def)
  have copy: "AssignMutator_DeepCopy m = m"
    using mutators.deep_copy_id [of "MAssign m"] assms(3) by simp
  define r where "r = add_schemas ?i (am_path m) (am_bindings m) (schemas db) {}"
  have r: "schemas_wf (fst r)" "snd r = new"
    "\<And>g. tree_at (fst r) g = (if g \<in> set (am_bindings m) then fst (Add ?i (am_path m) (tree_at (schemas db) g))
       else tree_at (schemas db) g)"
    using add_schemas_spec [OF inv(3), of "am_bindings m" ?i "am_path m" "{}"] valid_bindings [OF assms(3)]
    by (auto simp: r_def new_def)
  have ins: "DB_insert m db =
      (\<lparr>cachedMutators = mput ?i m ?cache, schemas = fst r, db_conflicts = mark_conflicts new (db_conflicts db)\<rparr>,
       if new \<noteq> {} then Some (ErrConflictingSchema new) else None)"
    using r(2) by (auto simp: DB_insert_def Let_def r_def SchemaBindings_def copy split: prod.splits)
  have sub: "new \<subseteq> insert ?i (\<Union>g \<in> set (am_bindings m). bound ?cache g [])"
    using snd_Add_subset [OF wf_tree_at [OF inv(3)]] inv(4) by (fastforce simp: new_def simp flip: inv(4))
  then have fin: "finite new" using bound_finite finite_subset by (metis finite.insertI finite_UN finite_set)
  show "cachedMutators (fst (DB_insert m db)) = mput ?i m ?cache"
    "snd (DB_insert m db) = (if new \<noteq> {} then Some (ErrConflictingSchema new) else None)"
    using ins by simp_all
  show "DB_HasConflicts j (fst (DB_insert m db)) \<longleftrightarrow> j \<in> new \<or> DB_HasConflicts j db" for j
    using ins fin by (simp add: DB_HasConflicts_def mget_mark_conflicts)
  show "tree_at (schemas (fst (DB_insert m db))) g = (if g \<in> set (am_bindings m) then
      fst (Add ?i (am_path m) (tree_at (schemas db) g)) else tree_at (schemas db) g)" for g
    using ins r(3) by simp
  have refs: "refs_at (tree_at (fst r) g) q = bound (mput ?i m ?cache) g q" for g q
    using r(3) [of g] inv(4) [of g q] assms(4) by (auto simp: refs_at_Add bound_def)
  have "j \<in> new \<Longrightarrow> mhas (mput ?i m ?cache) j" for j
    using sub by (auto simp: mhas_def bound_def)
  then show "db_inv (fst (DB_insert m db))"
    using ins inv(1,2,5,6) r(1) refs fin assms(3)
    by (auto simp: db_inv_def mget_mark_conflicts mwf_mark_conflicts mhas_def split: if_splits)
qed

section \<open>Conflict freedom\<close>

definition db_clean :: "DB \<Rightarrow> bool" where
  "db_clean db \<longleftrightarrow> db_inv db \<and> (\<forall>g. conflict_free (tree_at (schemas db) g)) \<and> db_conflicts db = []"

lemma db_clean_New: "db_clean New_DB"
  using db_inv_New by (simp add: db_clean_def New_DB_def tree_at_def)

lemma db_clean_no_conflicts: "db_clean db \<Longrightarrow> \<not> DB_HasConflicts i db"
  by (simp add: db_clean_def DB_HasConflicts_def)

lemma has_conflict_free:
  assumes "schemas_wf ss" "\<And>g. conflict_free (tree_at ss g)"
  shows "has_conflict ss path gvks \<noteq> Inr True"
proof (induction gvks)
  case (Cons g gs)
  have "node_HasConflicts path n \<noteq> Inr True" if "mget ss g = Some n" for n
    using HasConflicts_conflict_free [of n path] assms that assms(2) [of g] by (auto simp: schemas_wf_def tree_at_def)
  then show ?case using Cons by (auto split: option.splits)
qed simp

lemma check_conflicts_clears:
  assumes "schemas_wf ss" "\<And>g. conflict_free (tree_at ss g)"
    and "check_conflicts cache ss ids cs = Inr cs'"
  shows "mget cs' j = (if j \<in> set ids then None else mget cs j)"
  using assms(3)
proof (induction ids arbitrary: cs)
  case (Cons i ids)
  obtain m where m: "mget cache i = Some m" using Cons.prems by (cases "mget cache i") auto
  have "has_conflict ss (am_path m) (SchemaBindings m) \<noteq> Inr True"
    using has_conflict_free [OF assms(1,2)] by blast
  then have "check_conflicts cache ss ids (mdel i cs) = Inr cs'"
    using Cons.prems m by (auto split: sum.splits if_splits)
  from Cons.IH [OF this] show ?case by simp
qed simp

lemma conflict_free_refs_subset:
  assumes "db_inv db" "db_inv db'" "\<And>g. conflict_free (tree_at (schemas db) g)"
    and "\<And>i. mget (cachedMutators db') i \<noteq> None \<Longrightarrow> mget (cachedMutators db') i = mget (cachedMutators db) i"
  shows "conflict_free (tree_at (schemas db') g)"
proof (rule conflict_free_mono)
  show "wf_node_tree (tree_at (schemas db') g)" "wf_node_tree (tree_at (schemas db) g)"
    using assms(1,2) wf_tree_at by (auto simp: db_inv_def)
  show "refs_at (tree_at (schemas db') g) q \<subseteq> refs_at (tree_at (schemas db) g) q" for q
    using assms(1,2,4) by (fastforce simp: db_inv_def bound_def)
  show "conflict_free (tree_at (schemas db) g)" by (rule assms(3))
qed

lemma DB_remove_schemas_inv:
  assumes "DB_remove i db = Inr db'" "mget (cachedMutators db) i \<noteq> None"
  shows "\<exists>cache. check_conflicts cache (schemas db') (mkeys (mdel i (db_conflicts db))) (mdel i (db_conflicts db))
    = Inr (db_conflicts db')"
  using assms by (auto simp: DB_remove_def Let_def split: option.splits sum.splits)

text \<open>Once every tree is free of conflicts, a removal forgets every recorded conflict.\<close>

lemma DB_remove_clean:
  assumes "db_inv db" "DB_remove i db = Inr db'" "mget (cachedMutators db) i \<noteq> None"
    and "\<And>g. conflict_free (tree_at (schemas db') g)"
  shows "db_clean db'"
proof -
  have inv: "db_inv db'" using DB_remove_spec [OF assms(1), of i] assms(2) by auto
  obtain cache where "check_conflicts cache (schemas db') (mkeys (mdel i (db_conflicts db))) (mdel i (db_conflicts db))
      = Inr (db_conflicts db')"
    using DB_remove_schemas_inv assms(2,3) by blast
  then have "mget (db_conflicts db') j = None" for j
    using check_conflicts_clears [of "schemas db'"] inv assms(4)
    by (auto simp: db_inv_def mkeys_def mget_None_iff)
  then have "db_conflicts db' = []" by (simp add: mget_empty_iff fun_eq_iff)
  then show ?thesis using inv assms(4) by (simp add: db_clean_def)
qed

lemma DB_remove_keeps_clean:
  assumes "db_clean db"
  shows "\<exists>db'. DB_remove i db = Inr db' \<and> db_clean db' \<and> cachedMutators db' = mdel i (cachedMutators db)"
proof -
  obtain db' where db': "DB_remove i db = Inr db'" "db_inv db'" "cachedMutators db' = mdel i (cachedMutators db)"
    using DB_remove_spec [of db i] assms by (auto simp: db_clean_def)
  show ?thesis
  proof (cases "mget (cachedMutators db) i")
    case None
    then show ?thesis using assms by (simp add: DB_remove_absent mdel_absent)
  next
    case (Some m)
    have "conflict_free (tree_at (schemas db') g)" for g
    proof (rule conflict_free_refs_subset [of db db'])
      show "mget (cachedMutators db') j = mget (cachedMutators db) j" if "mget (cachedMutators db') j \<noteq> None" for j
        using that db'(3) by (simp split: if_splits)
    qed (use assms db' in \<open>simp_all add: db_clean_def\<close>)
    then show ?thesis
      using DB_remove_clean [of db i db'] assms db' Some by (auto simp: db_clean_def)
  qed
qed

text \<open>An insertion into a clean database either keeps it clean, or reports the inserted
  mutator together with another one, and removing it again restores the database.\<close>

lemma DB_insert_clean:
  assumes "db_clean db" "valid_AssignMutator m" "mget (cachedMutators db) (am_id m) = None"
  shows "snd (DB_insert m db) = None \<Longrightarrow> db_clean (fst (DB_insert m db))"
    and "snd (DB_insert m db) \<noteq> None \<Longrightarrow>
      (\<exists>S j. snd (DB_insert m db) = Some (ErrConflictingSchema S) \<and> am_id m \<in> S \<and> j \<in> S \<and> j \<noteq> am_id m \<and>
        mhas (cachedMutators db) j)"
proof -
  let ?i = "am_id m"
  have inv: "db_inv db" "\<And>g. conflict_free (tree_at (schemas db) g)" "db_conflicts db = []"
    using assms(1) by (auto simp: db_clean_def)
  note ins = DB_insert_spec [OF inv(1) assms(2,3)]
  have wf: "wf_node_tree (tree_at (schemas db) g)" for g using inv(1) wf_tree_at by (auto simp: db_inv_def)
  have fresh: "?i \<notin> ReferencedBy (tree_at (schemas db) g)" for g
    using ReferencedBy_tree_at [OF inv(1)] assms(3) by (simp add: bound_def)
  show "db_clean (fst (DB_insert m db))" if none: "snd (DB_insert m db) = None"
  proof -
    have new: "snd (Add ?i (am_path m) (tree_at (schemas db) g)) = {}" if "g \<in> set (am_bindings m)" for g
      using ins(3) none that by (auto split: if_splits)
    have "conflict_free (tree_at (schemas (fst (DB_insert m db))) g)" for g
      using ins(5) [of g] conflict_free_Add [OF wf inv(2) new] inv(2) by auto
    moreover have "\<not> DB_HasConflicts j (fst (DB_insert m db))" for j
      using ins(3,4) none assms(1) db_clean_no_conflicts by (auto split: if_splits)
    then have "mget (db_conflicts (fst (DB_insert m db))) j = None" for j
      using db_inv_no_conflict ins(1) by blast
    then have "db_conflicts (fst (DB_insert m db)) = []" by (simp add: mget_empty_iff fun_eq_iff)
    ultimately show ?thesis using ins(1) by (simp add: db_clean_def)
  qed
  assume "snd (DB_insert m db) \<noteq> None"
  then obtain g where g: "g \<in> set (am_bindings m)" "snd (Add ?i (am_path m) (tree_at (schemas db) g)) \<noteq> {}"
    using ins(3) by (auto split: if_splits)
  then obtain j where j: "?i \<in> snd (Add ?i (am_path m) (tree_at (schemas db) g))" "j \<noteq> ?i"
      "j \<in> snd (Add ?i (am_path m) (tree_at (schemas db) g))"
    using Add_reports [OF wf inv(2) fresh g(2)] by blast
  have "j \<in> ReferencedBy (tree_at (schemas db) g)"
    using snd_Add_subset [OF wf, of ?i "am_path m" g] j(2,3) by auto
  then have "mhas (cachedMutators db) j"
    using ReferencedBy_tree_at [OF inv(1)] by (auto simp: bound_def mhas_def)
  then show "\<exists>S j. snd (DB_insert m db) = Some (ErrConflictingSchema S) \<and> ?i \<in> S \<and> j \<in> S \<and> j \<noteq> ?i \<and>
        mhas (cachedMutators db) j"
    using ins(3) g j by (auto split: if_splits)
qed

text \<open>A clean database is determined by the mutators it caches.\<close>

lemma db_clean_ext:
  assumes "db_clean db" "db_clean db'" "cachedMutators db = cachedMutators db'"
  shows "db = db'"
proof -
  have inv: "db_inv db" "db_inv db'" using assms(1,2) by (auto simp: db_clean_def)
  have tree: "tree_at (schemas db) g = tree_at (schemas db') g" for g
    using inv assms(3) wf_tree_at by (intro node_ext) (auto simp: db_inv_def fun_eq_iff)
  have refs: "mget (schemas d) g = (if ReferencedBy (tree_at (schemas d) g) = {} then None else Some (tree_at (schemas d) g))"
    if "db_inv d" for d g
    using that by (auto simp: db_inv_def schemas_wf_def tree_at_def split: option.splits)
  have "mget (schemas db) g = mget (schemas db') g" for g
    using refs inv tree by simp
  then have "schemas db = schemas db'"
    using inv by (intro mwf_ext) (auto simp: db_inv_def schemas_wf_def)
  then show ?thesis
    using assms by (cases db; cases db') (simp add: db_clean_def)
qed

lemma DB_rollback:
  assumes "db_clean db" "valid_AssignMutator m" "mget (cachedMutators db) (am_id m) = None"
  shows "DB_remove (am_id m) (fst (DB_insert m db)) = Inr db"
proof -
  note ins = DB_insert_spec [OF _ assms(2,3)]
  have inv: "db_inv db" using assms(1) by (simp add: db_clean_def)
  obtain db' where db': "DB_remove (am_id m) (fst (DB_insert m db)) = Inr db'" "db_inv db'"
    "cachedMutators db' = mdel (am_id m) (mput (am_id m) m (cachedMutators db))"
    using DB_remove_spec [OF ins(1) [OF inv], of "am_id m"] ins(2) [OF inv] by auto
  have cache: "cachedMutators db' = cachedMutators db"
    using db'(3) assms(3) inv mdel_mput [of "cachedMutators db" "am_id m" m] mdel_absent
    by (simp add: db_inv_def)
  have "conflict_free (tree_at (schemas db') g)" for g
    using conflict_free_refs_subset [OF inv db'(2)] cache assms(1) by (simp add: db_clean_def)
  then have "db_clean db'"
    using DB_remove_clean [OF ins(1) [OF inv] db'(1)] ins(2) [OF inv] by simp
  then show ?thesis using db_clean_ext [OF _ assms(1) cache] db'(1) by simp
qed

lemma DB_upsert_clean:
  assumes "db_clean db" "valid_AssignMutator m"
  shows "\<exists>db' e. DB_upsert m db = Inr (db', e) \<and>
    (e = None \<longrightarrow> db_clean db' \<and>
       (cachedMutators db' = mput (am_id m) m (cachedMutators db) \<or>
        db' = db \<and> (\<exists>old. mget (cachedMutators db) (am_id m) = Some old \<and> \<not> HasDiff (MAssign m) (MAssign old)))) \<and>
    (e \<noteq> None \<longrightarrow> (\<exists>S j db''. e = Some (ErrConflictingSchema S) \<and> am_id m \<in> S \<and> j \<in> S \<and> j \<noteq> am_id m \<and>
       mhas (cachedMutators db) j \<and> DB_remove (am_id m) db' = Inr db'' \<and> db_clean db'' \<and>
       cachedMutators db'' = mdel (am_id m) (cachedMutators db)))"
proof -
  let ?i = "am_id m"
  have main: ?thesis if up: "DB_upsert m db = Inr (DB_insert m db0)" and clean: "db_clean db0"
      and cache: "cachedMutators db0 = mdel ?i (cachedMutators db)" for db0
  proof -
    have abs: "mget (cachedMutators db0) ?i = None" using cache by simp
    have "mwf (cachedMutators db)" using assms(1) by (simp add: db_clean_def db_inv_def)
    then have put: "mput ?i m (cachedMutators db0) = mput ?i m (cachedMutators db)"
      using cache by (intro mwf_ext) (auto simp: fun_eq_iff)
    have sub: "mhas (cachedMutators db0) j \<Longrightarrow> mhas (cachedMutators db) j" for j
      using cache by (auto simp: mhas_def split: if_splits)
    have inv: "db_inv db0" using clean by (simp add: db_clean_def)
    show ?thesis
      using up DB_insert_clean [OF clean assms(2) abs] DB_insert_spec(2) [OF inv assms(2) abs] put sub
        DB_rollback [OF clean assms(2) abs] clean cache
      by (cases "DB_insert m db0") fastforce
  qed
  show ?thesis
  proof (cases "mget (cachedMutators db) ?i")
    case None
    then show ?thesis using main [of db] assms(1) by (simp add: DB_upsert_def mdel_absent)
  next
    case (Some old)
    show ?thesis
    proof (cases "AssignMutator_HasDiff m (MAssign old)")
      case False
      then show ?thesis
        using Some assms(1) by (auto simp: DB_upsert_def simp del: AssignMutator_HasDiff.simps)
    next
      case True
      obtain db0 where db0: "DB_remove ?i db = Inr db0" "db_clean db0" "cachedMutators db0 = mdel ?i (cachedMutators db)"
        using DB_remove_keeps_clean [OF assms(1)] by blast
      then have "DB_upsert m db = Inr (DB_insert m db0)"
        using Some True by (simp add: DB_upsert_def del: AssignMutator_HasDiff.simps)
      then show ?thesis using main db0 by blast
    qed
  qed
qed

section \<open>The contract of the database\<close>

text \<open>
  What the mutation system relies on: from a clean database an upsert either succeeds and
  leaves it clean, or reports a conflict that the removal of the mutator takes back; no
  operation panics, and nothing in a clean database is in conflict.
\<close>

locale schema_db =
  fixes clean :: "'db \<Rightarrow> bool"
    and ok :: "'m \<Rightarrow> bool"
    and ident :: "'m \<Rightarrow> ID"
    and cached :: "'db \<Rightarrow> (ID \<times> 'm) list"
    and upsert :: "'m \<Rightarrow> 'db \<Rightarrow> 'p + 'db \<times> 'e option"
    and remove :: "ID \<Rightarrow> 'db \<Rightarrow> 'p + 'db"
    and in_conflict :: "ID \<Rightarrow> 'db \<Rightarrow> bool"
  assumes upsert_ok: "clean db \<Longrightarrow> ok m \<Longrightarrow> \<exists>db' e. upsert m db = Inr (db', e) \<and>
      (e = None \<longrightarrow> clean db' \<and> mhas (cached db') (ident m) \<and>
        (\<forall>i. i \<noteq> ident m \<longrightarrow> mget (cached db') i = mget (cached db) i)) \<and>
      (e \<noteq> None \<longrightarrow> (\<exists>db''. remove (ident m) db' = Inr db'' \<and> clean db'' \<and>
        cached db'' = mdel (ident m) (cached db)))"
    and remove_ok: "clean db \<Longrightarrow> \<exists>db'. remove i db = Inr db' \<and> clean db' \<and> cached db' = mdel i (cached db)"
    and clean_no_conflict: "clean db \<Longrightarrow> \<not> in_conflict i db"
begin

text \<open>The way the system uses it: upsert, and remove again after a conflict.\<close>

lemma guarded_upsert:
  assumes "clean db" "ok m" "upsert m db = Inr (db', e)"
    and "remove (ident m) db' = Inr db''"
    and "d = (if e = None then db' else db'')"
  shows "clean d" and "i \<noteq> ident m \<Longrightarrow> mget (cached d) i = mget (cached db) i"
    and "mhas (cached d) (ident m) \<longleftrightarrow> e = None"
proof -
  have up: "(e = None \<longrightarrow> clean db' \<and> mhas (cached db') (ident m) \<and>
        (\<forall>i. i \<noteq> ident m \<longrightarrow> mget (cached db') i = mget (cached db) i)) \<and>
      (e \<noteq> None \<longrightarrow> clean db'' \<and> cached db'' = mdel (ident m) (cached db))"
    using upsert_ok [OF assms(1,2)] assms(3,4) by auto
  show "clean d" "i \<noteq> ident m \<Longrightarrow> mget (cached d) i = mget (cached db) i"
    "mhas (cached d) (ident m) \<longleftrightarrow> e = None"
    using up assms(5) by (auto simp: mhas_def)
qed

end

interpretation dbs: schema_db db_clean valid_AssignMutator am_id cachedMutators DB_upsert DB_remove DB_HasConflicts
proof unfold_locales
  fix db m i
  show "db_clean db \<Longrightarrow> \<exists>db'. DB_remove i db = Inr db' \<and> db_clean db' \<and> cachedMutators db' = mdel i (cachedMutators db)"
    by (rule DB_remove_keeps_clean)
  show "db_clean db \<Longrightarrow> \<not> DB_HasConflicts i db" by (rule db_clean_no_conflicts)
  assume "db_clean db" "valid_AssignMutator m"
  from DB_upsert_clean [OF this]
  show "\<exists>db' e. DB_upsert m db = Inr (db', e) \<and>
      (e = None \<longrightarrow> db_clean db' \<and> mhas (cachedMutators db') (am_id m) \<and>
        (\<forall>i. i \<noteq> am_id m \<longrightarrow> mget (cachedMutators db') i = mget (cachedMutators db) i)) \<and>
      (e \<noteq> None \<longrightarrow> (\<exists>db''. DB_remove (am_id m) db' = Inr db'' \<and> db_clean db'' \<and>
        cachedMutators db'' = mdel (am_id m) (cachedMutators db)))"
    by (elim exE conjE) (auto simp: mhas_def)
qed

end
