(* ===== verification/Mutation_System.thy ===== *)
theory Mutation_System
  imports Schema_DB
begin

text \<open>
  The mutation system (\<open>pkg/mutation/system.go\<close>): the active mutators in a map and in a
  list ordered by ID, guarded by the schema database, and the loop that applies them until
  nothing changes. The read-write lock serialises the operations; each is one step here. A
  panic is an \<open>Inl\<close>.
\<close>

datatype SysPanic = DBPanic Panic | IndexOutOfRange

datatype SysErr =
    SchemaConflict ID DBErr
  | NotOnSortedList ID
  | MutationFailed ID MutErr
  | OscillatingMutation
  | NotConverging

record System =
  schemaDB :: DB
  orderedMutators :: "Mutator list"
  mutatorsMap :: "(ID, Mutator) gomap"

definition NewSystem :: System where
  "NewSystem = \<lparr>schemaDB = New_DB, orderedMutators = [], mutatorsMap = []\<rparr>"

definition greaterOrEqual :: "ID \<Rightarrow> ID \<Rightarrow> bool" where
  "greaterOrEqual id1 id2 =
     (if Group id1 > Group id2 then True
      else if Group id1 < Group id2 then False
      else if Kind id1 > Kind id2 then True
      else if Kind id1 < Kind id2 then False
      else if Namespace id1 > Namespace id2 then True
      else if Namespace id1 < Namespace id2 then False
      else if Name id1 > Name id2 then True
      else if Name id1 < Name id2 then False
      else True)"

definition equal_ID :: "ID \<Rightarrow> ID \<Rightarrow> bool" where
  "equal_ID id1 id2 =
     (if Group id1 = Group id2 \<and> Kind id1 = Kind id2 \<and> Namespace id1 = Namespace id2 \<and> Name id1 = Name id2
      then True else False)"

text \<open>The schema check of \<open>Upsert\<close>, for the mutators that have a schema.\<close>

definition check_schema :: "Mutator \<Rightarrow> DB \<Rightarrow> Panic + DB \<times> DBErr option" where
  "check_schema toAdd db =
     (case toAdd of
        MAssignMetadata _ \<Rightarrow> Inr (db, None)
      | MAssign withSchema \<Rightarrow>
          (case DB_Upsert (Some withSchema) db of
             Inl p \<Rightarrow> Inl p
           | Inr (db', None) \<Rightarrow> Inr (db', None)
           | Inr (db', Some e) \<Rightarrow>
               (case DB_Remove (am_id withSchema) db' of
                  Inl p \<Rightarrow> Inl p
                | Inr db'' \<Rightarrow> Inr (db'', Some e))))"

definition insert_ordered :: "Mutator \<Rightarrow> Mutator list \<Rightarrow> Mutator list" where
  "insert_ordered toAdd ms =
     (let i = Search (length ms) (\<lambda>i. greaterOrEqual (Mutator_ID (ms ! i)) (Mutator_ID toAdd)) in
      if i = length ms then ms @ [toAdd]
      else if equal_ID (Mutator_ID (ms ! i)) (Mutator_ID toAdd) then ms[i := toAdd]
      else take i ms @ toAdd # drop i ms)"

definition System_Upsert :: "Mutator \<Rightarrow> System \<Rightarrow> SysPanic + System \<times> SysErr option" where
  "System_Upsert m s =
     (if (case mget (mutatorsMap s) (Mutator_ID m) of
            Some current \<Rightarrow> \<not> HasDiff m current | None \<Rightarrow> False)
      then Inr (s, None)
      else let toAdd = Mutator_DeepCopy m in
        (case check_schema toAdd (schemaDB s) of
           Inl p \<Rightarrow> Inl (DBPanic p)
         | Inr (db, Some e) \<Rightarrow> Inr (s\<lparr>schemaDB := db\<rparr>, Some (SchemaConflict (Mutator_ID m) e))
         | Inr (db, None) \<Rightarrow>
             Inr (\<lparr>schemaDB = db,
                   orderedMutators = insert_ordered toAdd (orderedMutators s),
                   mutatorsMap = mput (Mutator_ID toAdd) toAdd (mutatorsMap s)\<rparr>, None)))"

definition System_Remove :: "ID \<Rightarrow> System \<Rightarrow> SysPanic + System \<times> SysErr option" where
  "System_Remove i s =
     (if \<not> mhas (mutatorsMap s) i then Inr (s, None)
      else (case DB_Remove i (schemaDB s) of
        Inl p \<Rightarrow> Inl (DBPanic p)
      | Inr db \<Rightarrow>
          (let ms = orderedMutators s;
               k = Search (length ms) (\<lambda>j.
                     if equal_ID (Mutator_ID (ms ! j)) i then True
                     else greaterOrEqual (Mutator_ID (ms ! j)) i);
               s' = s\<lparr>schemaDB := db, mutatorsMap := mdel i (mutatorsMap s)\<rparr>
           in if length ms \<le> k then Inl IndexOutOfRange
              else if \<not> equal_ID (Mutator_ID (ms ! k)) i then Inr (s', Some (NotOnSortedList i))
              else Inr (s'\<lparr>orderedMutators := take k ms @ drop (Suc k) ms\<rparr>, None))))"

definition System_Get :: "ID \<Rightarrow> System \<Rightarrow> Mutator option" where
  "System_Get i s = (case mget (mutatorsMap s) i of None \<Rightarrow> None | Some m \<Rightarrow> Some (Mutator_DeepCopy m))"

section \<open>Mutate\<close>

record MutationFlags =
  MutationLoggingEnabled :: bool
  MutationAnnotationsEnabled :: bool

definition obj_of :: "val \<Rightarrow> object" where
  "obj_of v = (case v of VMap m \<Rightarrow> m | _ \<Rightarrow> [])"

text \<open>One pass over the ordered mutators: the object it leaves, and the error or the
  mutators that were applied.\<close>

fun mutate_pass ::
    "MutationFlags \<Rightarrow> selectors \<Rightarrow> DB \<Rightarrow> NamespaceObj option \<Rightarrow> Mutator list \<Rightarrow> object \<Rightarrow> Mutator list
     \<Rightarrow> object \<times> (SysErr + Mutator list)" where
  "mutate_pass fl sel db ns [] obj applied = (obj, Inr applied)"
| "mutate_pass fl sel db ns (m # ms) obj applied =
     (if DB_HasConflicts (Mutator_ID m) db then mutate_pass fl sel db ns ms obj applied
      else if Mutator_Matches sel m obj ns then
        (case Mutator_Mutate m (Some obj) of
           (v, Inl e) \<Rightarrow> (obj_of v, Inl (MutationFailed (Mutator_ID m) e))
         | (v, Inr mutated) \<Rightarrow>
             mutate_pass fl sel db ns ms (obj_of v)
               (if mutated \<and> (MutationLoggingEnabled fl \<or> MutationAnnotationsEnabled fl)
                then applied @ [m] else applied))
      else mutate_pass fl sel db ns ms obj applied)"

text \<open>The annotations of the applied mutators. Go iterates over the set of their strings in
  an unspecified order; here in increasing order. \<open>uuid\<close> is the value stored for the
  mutation's fresh identifier; \<open>None\<close> is an error, which the caller only logs.\<close>

definition mutationAnnotations :: "object \<Rightarrow> Mutator list list \<Rightarrow> val \<Rightarrow> object option" where
  "mutationAnnotations obj allApplied uuid =
     (let mutatorStrings = sorted_list_of_set (Mutator_String ` set (concat allApplied)) in
      case mget obj ''metadata'' of
        Some (VMap metadata) \<Rightarrow>
          (case mget metadata ''annotations'' of
             Some (VMap annotations) \<Rightarrow>
               Some (mput ''metadata'' (VMap (mput ''annotations''
                 (VMap (mput ''gatekeeper.sh/mutation-id'' uuid
                   (mput ''gatekeeper.sh/mutations'' (VString (Join mutatorStrings '', '')) annotations)))
                 metadata)) obj)
           | _ \<Rightarrow> None)
      | _ \<Rightarrow> None)"

text \<open>The loop of \<open>Mutate\<close>: \<open>fuel\<close> iterations are left, \<open>i\<close> have been done. The code's
  bound \<open>maxIterations\<close> is the initial fuel.\<close>

fun mutate_loop ::
    "MutationFlags \<Rightarrow> selectors \<Rightarrow> val \<Rightarrow> DB \<Rightarrow> NamespaceObj option \<Rightarrow> Mutator list \<Rightarrow> object
     \<Rightarrow> nat \<Rightarrow> nat \<Rightarrow> Mutator list list \<Rightarrow> object \<Rightarrow> object \<times> (SysErr + bool)" where
  "mutate_loop fl sel uuid db ns ms original 0 i allApplied obj = (obj, Inl NotConverging)"
| "mutate_loop fl sel uuid db ns ms original (Suc fuel) i allApplied obj =
     (case mutate_pass fl sel db ns ms obj [] of
        (obj', Inl e) \<Rightarrow> (obj', Inl e)
      | (obj', Inr applied) \<Rightarrow>
          if obj = obj' then
            (if i = 0 then (obj', Inr False)
             else if original = obj' then (obj', Inl OscillatingMutation)
             else if MutationAnnotationsEnabled fl then
               ((case mutationAnnotations obj' allApplied uuid of None \<Rightarrow> obj' | Some o' \<Rightarrow> o'), Inr True)
             else (obj', Inr True))
          else mutate_loop fl sel uuid db ns ms original fuel (Suc i)
                 (if MutationLoggingEnabled fl \<or> MutationAnnotationsEnabled fl
                  then allApplied @ [applied] else allApplied) obj')"

definition System_Mutate ::
    "MutationFlags \<Rightarrow> selectors \<Rightarrow> val \<Rightarrow> System \<Rightarrow> object \<Rightarrow> NamespaceObj option \<Rightarrow> object \<times> (SysErr + bool)" where
  "System_Mutate fl sel uuid s obj ns =
     (let maxIterations = length (orderedMutators s) + 1 in
      mutate_loop fl sel uuid (schemaDB s) ns (orderedMutators s) obj maxIterations 0 [] obj)"

section \<open>The order of mutators\<close>

lemma greaterOrEqual_iff: "greaterOrEqual id1 id2 \<longleftrightarrow> id2 \<le> id1"
  by (cases id1; cases id2)
    (auto simp: greaterOrEqual_def less_eq_ID_def ID_tuple_def less_eq_prod_def not_less_iff_gr_or_eq)

lemma equal_ID_iff: "equal_ID id1 id2 \<longleftrightarrow> id1 = id2"
  by (cases id1; cases id2) (auto simp: equal_ID_def)

end
