(* ===== verification/System_Facts.thy ===== *)
theory System_Facts
  imports Mutation_System
begin

text \<open>
  Facts about the mutation system: the ordered list is the map in ID order, the invariant
  holds in every reachable state and no operation panics, and the loop of \<open>Mutate\<close> is the
  iteration of a pass until it changes nothing.
\<close>

section \<open>The ordered list follows the map\<close>

lemma mput_at:
  assumes "mwf M" "k \<le> length M"
    and "\<And>j. j < k \<Longrightarrow> fst (M ! j) < x" "\<And>j. k \<le> j \<Longrightarrow> j < length M \<Longrightarrow> x \<le> fst (M ! j)"
  shows "mput x v M =
    (if k = length M then M @ [(x, v)]
     else if fst (M ! k) = x then M[k := (x, v)]
     else take k M @ (x, v) # drop k M)"
  using assms
proof (induction M arbitrary: k)
  case (Cons e M)
  obtain y w where e: "e = (y, w)" by (cases e)
  show ?case
  proof (cases k)
    case 0
    then show ?thesis using Cons.prems(4) [of 0] e by auto
  next
    case (Suc k')
    have "y < x" using Cons.prems(3) [of 0] Suc e by simp
    moreover have "mput x v M = (if k' = length M then M @ [(x, v)]
        else if fst (M ! k') = x then M[k' := (x, v)] else take k' M @ (x, v) # drop k' M)"
    proof (rule Cons.IH)
      show "fst (M ! j) < x" if "j < k'" for j using Cons.prems(3) [of "Suc j"] that Suc by simp
      show "x \<le> fst (M ! j)" if "k' \<le> j" "j < length M" for j using Cons.prems(4) [of "Suc j"] that Suc by simp
    qed (use Cons.prems(1,2) Suc e in \<open>auto simp: mwf_Cons\<close>)
    ultimately show ?thesis using Suc e by auto
  qed
qed simp

lemma mdel_at:
  assumes "mwf M" "k < length M" "fst (M ! k) = x"
  shows "mdel x M = take k M @ drop (Suc k) M"
  using assms
proof (induction M arbitrary: k)
  case (Cons e M)
  obtain y w where e: "e = (y, w)" by (cases e)
  show ?case
  proof (cases k)
    case 0
    then have "mget M x = None" using Cons.prems e by (auto simp: mwf_Cons mget_None_iff)
    then show ?thesis using 0 Cons.prems e mdel_absent [of M x] by (simp add: mdel_def)
  next
    case (Suc k')
    have "y \<noteq> x"
      using Cons.prems Suc e by (metis fst_conv image_eqI length_Cons less_irrefl mwf_Cons not_less_eq nth_Cons_Suc nth_mem)
    moreover have "mdel x M = take k' M @ drop (Suc k') M"
      using Cons.IH [of k'] Cons.prems Suc e by (simp add: mwf_Cons)
    ultimately show ?thesis using Suc e by (simp add: mdel_def)
  qed
qed simp

definition keyed :: "(ID, Mutator) gomap \<Rightarrow> bool" where
  "keyed M \<longleftrightarrow> mwf M \<and> (\<forall>p \<in> set M. Mutator_ID (snd p) = fst p)"

lemma keyed_nth: "keyed M \<Longrightarrow> j < length M \<Longrightarrow> Mutator_ID (map snd M ! j) = fst (M ! j)"
  by (simp add: keyed_def)

lemma keyed_mono: "keyed M \<Longrightarrow> k \<le> l \<Longrightarrow> l < length M \<Longrightarrow> fst (M ! k) \<le> fst (M ! l)"
  by (auto simp: keyed_def mwf_def sorted_wrt_iff_nth_less le_less)

lemma Search_keyed:
  assumes "keyed M"
    and "\<And>j. j < length M \<Longrightarrow> f j \<longleftrightarrow> x \<le> fst (M ! j)"
  defines "k \<equiv> Search (length M) f"
  shows "k \<le> length M" "\<And>j. j < k \<Longrightarrow> fst (M ! j) < x" "\<And>j. k \<le> j \<Longrightarrow> j < length M \<Longrightarrow> x \<le> fst (M ! j)"
proof -
  have mono: "f b" if "a \<le> b" "b < length M" "f a" for a b
    using assms(2) [of a] assms(2) [of b] keyed_mono [OF assms(1) that(1,2)] that by auto
  have spec: "Search (length M) f \<le> length M" "\<And>j. j < Search (length M) f \<Longrightarrow> \<not> f j"
      "\<And>j. Search (length M) f \<le> j \<Longrightarrow> j < length M \<Longrightarrow> f j"
    using Search_spec [of "length M" f] mono by blast+
  show "k \<le> length M" using spec(1) by (simp add: k_def)
  show "fst (M ! j) < x" if "j < k" for j
    using spec(2) [of j] that spec(1) assms(2) [of j] by (simp add: k_def not_le)
  show "x \<le> fst (M ! j)" if "k \<le> j" "j < length M" for j
    using spec(3) [of j] that assms(2) [of j] by (simp add: k_def)
qed

lemma insert_ordered_mput:
  assumes "keyed M"
  shows "insert_ordered m (map snd M) = map snd (mput (Mutator_ID m) m M)"
proof -
  let ?f = "\<lambda>i. greaterOrEqual (Mutator_ID (map snd M ! i)) (Mutator_ID m)"
  have f: "?f j \<longleftrightarrow> Mutator_ID m \<le> fst (M ! j)" if "j < length M" for j
    using keyed_nth [OF assms that] by (simp add: greaterOrEqual_iff)
  note S = Search_keyed [of M ?f, OF assms f]
  have "mput (Mutator_ID m) m M =
    (if Search (length M) ?f = length M then M @ [(Mutator_ID m, m)]
     else if fst (M ! Search (length M) ?f) = Mutator_ID m then M[Search (length M) ?f := (Mutator_ID m, m)]
     else take (Search (length M) ?f) M @ (Mutator_ID m, m) # drop (Search (length M) ?f) M)"
    using assms S by (intro mput_at) (auto simp: keyed_def)
  then show ?thesis
    using keyed_nth [OF assms] S(1)
    by (auto simp: insert_ordered_def Let_def equal_ID_iff take_map drop_map map_update)
qed

lemma remove_ordered_mdel:
  assumes "keyed M" "mhas M i"
  defines "k \<equiv> Search (length M) (\<lambda>j. if equal_ID (Mutator_ID (map snd M ! j)) i then True
                     else greaterOrEqual (Mutator_ID (map snd M ! j)) i)"
  shows "k < length M" "Mutator_ID (map snd M ! k) = i"
    "take k (map snd M) @ drop (Suc k) (map snd M) = map snd (mdel i M)"
proof -
  let ?f = "\<lambda>j. if equal_ID (Mutator_ID (map snd M ! j)) i then True else greaterOrEqual (Mutator_ID (map snd M ! j)) i"
  have f: "?f j \<longleftrightarrow> i \<le> fst (M ! j)" if "j < length M" for j
    using keyed_nth [OF assms(1) that] by (auto simp: greaterOrEqual_iff equal_ID_iff)
  note S = Search_keyed [of M ?f, OF assms(1) f, folded k_def]
  have "i \<in> fst ` set M" using assms(2) mget_None_iff [of M i] by (auto simp: mhas_def)
  then obtain j where j: "j < length M" "fst (M ! j) = i" by (auto simp: in_set_conv_nth)
  have "k \<le> j" using S(2) [of j] j by (metis less_irrefl not_le_imp_less)
  then show k: "k < length M" using j by simp
  have "i \<le> fst (M ! k)" using S(3) [of k] k by simp
  moreover have "fst (M ! k) \<le> fst (M ! j)" using keyed_mono [OF assms(1) \<open>k \<le> j\<close> j(1)] .
  ultimately have e: "fst (M ! k) = i" using j by simp
  then show "Mutator_ID (map snd M ! k) = i" using keyed_nth [OF assms(1) k] by simp
  show "take k (map snd M) @ drop (Suc k) (map snd M) = map snd (mdel i M)"
    using mdel_at [of M k i] assms(1) k e by (simp add: keyed_def take_map drop_map)
qed

section \<open>The invariant of the system\<close>

definition sys_inv :: "System \<Rightarrow> bool" where
  "sys_inv s \<longleftrightarrow>
     db_clean (schemaDB s) \<and> mwf (mutatorsMap s) \<and>
     (\<forall>i m. mget (mutatorsMap s) i = Some m \<longrightarrow> Mutator_ID m = i \<and> valid_Mutator m) \<and>
     orderedMutators s = map snd (mutatorsMap s) \<and>
     (\<forall>i. mhas (cachedMutators (schemaDB s)) i \<longrightarrow> mhas (mutatorsMap s) i)"

lemma sys_inv_New: "sys_inv NewSystem"
  using db_clean_New by (simp add: sys_inv_def NewSystem_def) (simp add: New_DB_def mhas_def)

lemma sys_inv_keyed: "sys_inv s \<Longrightarrow> keyed (mutatorsMap s)"
  by (auto simp: sys_inv_def keyed_def mget_iff_set)

lemma check_schema_spec:
  assumes "db_clean db" "valid_Mutator m"
  shows "\<exists>db' e. check_schema m db = Inr (db', e) \<and> db_clean db' \<and>
    (\<forall>i. i \<noteq> Mutator_ID m \<longrightarrow> mget (cachedMutators db') i = mget (cachedMutators db) i) \<and>
    (e \<noteq> None \<longrightarrow> \<not> mhas (cachedMutators db') (Mutator_ID m) \<and>
       (\<exists>S j. e = Some (ErrConflictingSchema S) \<and> Mutator_ID m \<in> S \<and> j \<in> S \<and> j \<noteq> Mutator_ID m \<and> mhas (cachedMutators db) j))"
proof (cases m)
  case (MAssign a)
  then have v: "valid_AssignMutator a" using assms(2) by simp
  obtain db' e where up: "DB_upsert a db = Inr (db', e)" using dbs.upsert_ok [OF assms(1) v] by blast
  show ?thesis
  proof (cases e)
    case None
    then show ?thesis
      using dbs.upsert_ok [OF assms(1) v] up MAssign by (auto simp: check_schema_def DB_Upsert_def)
  next
    case (Some err)
    then obtain S j db'' where "e = Some (ErrConflictingSchema S)" "am_id a \<in> S" "j \<in> S" "j \<noteq> am_id a"
       "mhas (cachedMutators db) j" "DB_remove (am_id a) db' = Inr db''" "db_clean db''"
       "cachedMutators db'' = mdel (am_id a) (cachedMutators db)"
      using DB_upsert_clean [OF assms(1) v] up by auto
    then show ?thesis
      using up MAssign by (auto simp: check_schema_def DB_Upsert_def DB_Remove_def mhas_def)
  qed
next
  case (MAssignMetadata a)
  then show ?thesis using assms(1) by (auto simp: check_schema_def)
qed

lemma System_Upsert_spec:
  assumes "sys_inv s" "valid_Mutator m"
  shows "\<exists>s' e. System_Upsert m s = Inr (s', e) \<and> sys_inv s' \<and>
    (e = None \<longrightarrow> mutatorsMap s' = mput (Mutator_ID m) m (mutatorsMap s) \<or>
       s' = s \<and> (\<exists>old. mget (mutatorsMap s) (Mutator_ID m) = Some old \<and> \<not> HasDiff m old)) \<and>
    (e \<noteq> None \<longrightarrow> mutatorsMap s' = mutatorsMap s \<and>
       (\<exists>S j. e = Some (SchemaConflict (Mutator_ID m) (ErrConflictingSchema S)) \<and> Mutator_ID m \<in> S \<and>
          j \<in> S \<and> j \<noteq> Mutator_ID m \<and> mhas (mutatorsMap s) j))"
proof (cases "case mget (mutatorsMap s) (Mutator_ID m) of Some current \<Rightarrow> \<not> HasDiff m current | None \<Rightarrow> False")
  case True
  then show ?thesis using assms(1) by (auto simp: System_Upsert_def split: option.splits)
next
  case False
  have copy: "Mutator_DeepCopy m = m" using mutators.deep_copy_id assms(2) by blast
  have inv: "db_clean (schemaDB s)" "mwf (mutatorsMap s)"
    "\<And>i m. mget (mutatorsMap s) i = Some m \<Longrightarrow> Mutator_ID m = i \<and> valid_Mutator m"
    "orderedMutators s = map snd (mutatorsMap s)"
    "\<And>i. mhas (cachedMutators (schemaDB s)) i \<Longrightarrow> mhas (mutatorsMap s) i"
    using assms(1) by (auto simp: sys_inv_def)
  obtain db e where db: "check_schema m (schemaDB s) = Inr (db, e)" "db_clean db"
    "\<And>i. i \<noteq> Mutator_ID m \<Longrightarrow> mget (cachedMutators db) i = mget (cachedMutators (schemaDB s)) i"
    "e \<noteq> None \<Longrightarrow> \<not> mhas (cachedMutators db) (Mutator_ID m) \<and>
       (\<exists>S j. e = Some (ErrConflictingSchema S) \<and> Mutator_ID m \<in> S \<and> j \<in> S \<and> j \<noteq> Mutator_ID m \<and>
          mhas (cachedMutators (schemaDB s)) j)"
    using check_schema_spec [OF inv(1) assms(2)] by blast
  have cached: "mhas (mutatorsMap s) i" if "mhas (cachedMutators db) i" "i \<noteq> Mutator_ID m" for i
    using that db(3) [of i] inv(5) [of i] by (simp add: mhas_def)
  show ?thesis
  proof (cases e)
    case None
    let ?s = "\<lparr>schemaDB = db, orderedMutators = insert_ordered m (orderedMutators s),
      mutatorsMap = mput (Mutator_ID m) m (mutatorsMap s)\<rparr>"
    have "System_Upsert m s = Inr (?s, None)"
      using False db(1) None copy by (simp add: System_Upsert_def Let_def)
    moreover have "sys_inv ?s"
      using db(2) inv(2,3,4) assms(2) cached insert_ordered_mput [OF sys_inv_keyed [OF assms(1)], of m]
      by (auto simp: sys_inv_def mhas_def)
    ultimately show ?thesis by simp
  next
    case (Some err)
    have "System_Upsert m s = Inr (s\<lparr>schemaDB := db\<rparr>, Some (SchemaConflict (Mutator_ID m) err))"
      using False db(1) Some copy by (simp add: System_Upsert_def Let_def)
    moreover have "sys_inv (s\<lparr>schemaDB := db\<rparr>)"
      using db(2,4) Some inv(2,3,4) cached by (auto simp: sys_inv_def)
    ultimately show ?thesis
      using db(4) Some inv(5) by auto
  qed
qed

lemma System_Remove_spec:
  assumes "sys_inv s"
  shows "\<exists>s'. System_Remove i s = Inr (s', None) \<and> sys_inv s' \<and> mutatorsMap s' = mdel i (mutatorsMap s)"
proof (cases "mhas (mutatorsMap s) i")
  case False
  then show ?thesis using assms by (simp add: System_Remove_def mhas_def mdel_absent)
next
  case True
  obtain db where db: "DB_remove i (schemaDB s) = Inr db" "db_clean db"
    "cachedMutators db = mdel i (cachedMutators (schemaDB s))"
    using dbs.remove_ok [of "schemaDB s" i] assms by (auto simp: sys_inv_def)
  have om: "orderedMutators s = map snd (mutatorsMap s)" using assms by (simp add: sys_inv_def)
  let ?s = "\<lparr>schemaDB = db, orderedMutators = map snd (mdel i (mutatorsMap s)), mutatorsMap = mdel i (mutatorsMap s)\<rparr>"
  have "System_Remove i s = Inr (?s, None)"
    using remove_ordered_mdel [OF sys_inv_keyed [OF assms] True] True db(1) om
    by (simp add: System_Remove_def DB_Remove_def Let_def equal_ID_iff)
  moreover have "sys_inv ?s"
    using assms db by (auto simp: sys_inv_def mhas_def)
  ultimately show ?thesis by simp
qed

lemma System_Get_eq: "sys_inv s \<Longrightarrow> System_Get i s = mget (mutatorsMap s) i"
  using mutators.deep_copy_id by (auto simp: System_Get_def sys_inv_def split: option.splits)

lemma sorted_orderedMutators: "sys_inv s \<Longrightarrow> sorted_wrt (<) (map Mutator_ID (orderedMutators s))"
proof -
  assume inv: "sys_inv s"
  have "map Mutator_ID (orderedMutators s) = map fst (mutatorsMap s)"
    using inv sys_inv_keyed [OF inv] by (auto simp: sys_inv_def keyed_def)
  then show ?thesis using inv unfolding sys_inv_def mwf_def by metis
qed

section \<open>Reachable states\<close>

inductive reachable :: "System \<Rightarrow> bool" where
  reach_New: "reachable NewSystem"
| reach_Upsert: "reachable s \<Longrightarrow> built m \<Longrightarrow> System_Upsert m s = Inr (s', e) \<Longrightarrow> reachable s'"
| reach_Remove: "reachable s \<Longrightarrow> System_Remove i s = Inr (s', e) \<Longrightarrow> reachable s'"

lemma reachable_inv: "reachable s \<Longrightarrow> sys_inv s"
proof (induction rule: reachable.induct)
  case (reach_Upsert s m s' e)
  then show ?case using System_Upsert_spec [of s m] built_valid by auto
next
  case (reach_Remove s i s' e)
  then show ?case using System_Remove_spec [of s i] by auto
qed (rule sys_inv_New)

section \<open>Passes and the loop\<close>

lemma obj_of_VMap [simp]: "obj_of (VMap m) = m"
  by (simp add: obj_of_def)

text \<open>The functional reading of a pass: every matching mutator in turn.\<close>

fun apply_all :: "selectors \<Rightarrow> NamespaceObj option \<Rightarrow> Mutator list \<Rightarrow> object \<Rightarrow> SysErr + object" where
  "apply_all sel ns [] obj = Inr obj"
| "apply_all sel ns (m # ms) obj =
     (if Mutator_Matches sel m obj ns then
        (case Mutator_Mutate m (Some obj) of
           (v, Inl e) \<Rightarrow> Inl (MutationFailed (Mutator_ID m) e)
         | (v, Inr b) \<Rightarrow> apply_all sel ns ms (obj_of v))
      else apply_all sel ns ms obj)"

lemma mutate_pass_apply_all:
  assumes "db_clean db"
  shows "apply_all sel ns ms obj =
    (case mutate_pass fl sel db ns ms obj applied of (obj', Inl e) \<Rightarrow> Inl e | (obj', Inr _) \<Rightarrow> Inr obj')"
  using db_clean_no_conflicts [OF assms]
proof (induction ms arbitrary: obj applied)
  case (Cons m ms)
  obtain v r where vr: "Mutator_Mutate m (Some obj) = (v, r)" by (cases "Mutator_Mutate m (Some obj)")
  show ?case
    using Cons.prems Cons.IH [of obj applied] Cons.IH [of "obj_of v"] vr by (cases r) auto
qed simp

lemma mutate_pass_Inr:
  assumes "db_clean db"
  shows "(\<exists>ap'. mutate_pass fl sel db ns ms obj ap = (obj', Inr ap')) \<longleftrightarrow> apply_all sel ns ms obj = Inr obj'"
  using mutate_pass_apply_all [OF assms, of sel ns ms obj fl ap] by (auto split: prod.splits sum.splits)

lemma mutate_pass_Inl:
  assumes "db_clean db"
  shows "(\<exists>o'. mutate_pass fl sel db ns ms obj ap = (o', Inl e)) \<longleftrightarrow> apply_all sel ns ms obj = Inl e"
  using mutate_pass_apply_all [OF assms, of sel ns ms obj fl ap] by (auto split: prod.splits sum.splits)

lemma apply_all_wf:
  assumes "\<forall>m \<in> set ms. valid_Mutator m" "wf_val (VMap obj)" "apply_all sel ns ms obj = Inr obj'"
  shows "wf_val (VMap obj')"
  using assms
proof (induction ms arbitrary: obj)
  case (Cons m ms)
  show ?case
  proof (cases "Mutator_Matches sel m obj ns")
    case False
    then show ?thesis using Cons.IH [of obj] Cons.prems by auto
  next
    case True
    obtain v r where vr: "Mutator_Mutate m (Some obj) = (v, r)" by (cases "Mutator_Mutate m (Some obj)")
    obtain b where r: "r = Inr b" using Cons.prems(3) True vr by (cases r) auto
    have m: "valid_Mutator m" using Cons.prems(1) by simp
    obtain o1 where o1: "v = VMap o1" using mutators.mutate_map [OF m vr] by blast
    have "wf_val v" using mutators.mutate_wf [OF m Cons.prems(2)] vr r by blast
    then show ?thesis
      using Cons.IH [of o1] Cons.prems(1,3) True vr r o1 by simp
  qed
qed simp

text \<open>The loop without the recording for logs and annotations.\<close>

fun converge :: "(object \<Rightarrow> SysErr + object) \<Rightarrow> object \<Rightarrow> nat \<Rightarrow> nat \<Rightarrow> object \<Rightarrow> SysErr + object option" where
  "converge f original 0 i obj = Inl NotConverging"
| "converge f original (Suc n) i obj =
     (case f obj of
        Inl e \<Rightarrow> Inl e
      | Inr obj' \<Rightarrow>
          if obj' = obj then
            (if i = 0 then Inr None
             else if obj = original then Inl OscillatingMutation else Inr (Some obj))
          else converge f original n (Suc i) obj')"

lemma mutate_loop_converge:
  assumes "db_clean db"
  shows "case converge (apply_all sel ns ms) original fuel i obj of
      Inl e \<Rightarrow> snd (mutate_loop fl sel uuid db ns ms original fuel i ap obj) = Inl e
    | Inr None \<Rightarrow> mutate_loop fl sel uuid db ns ms original fuel i ap obj = (obj, Inr False) \<and> i = 0
    | Inr (Some o') \<Rightarrow> snd (mutate_loop fl sel uuid db ns ms original fuel i ap obj) = Inr True \<and>
        (\<not> MutationAnnotationsEnabled fl \<longrightarrow> fst (mutate_loop fl sel uuid db ns ms original fuel i ap obj) = o')"
proof (induction fuel arbitrary: i ap obj)
  case (Suc fuel)
  show ?case
  proof (cases "apply_all sel ns ms obj")
    case (Inl e)
    then obtain o' where "mutate_pass fl sel db ns ms obj [] = (o', Inl e)"
      using mutate_pass_Inl [OF assms] by blast
    then show ?thesis using Inl by simp
  next
    case (Inr o')
    then obtain ap' where p: "mutate_pass fl sel db ns ms obj [] = (o', Inr ap')"
      using mutate_pass_Inr [OF assms] by blast
    show ?thesis
    proof (cases "o' = obj")
      case True
      then show ?thesis using Inr p by (auto split: option.splits)
    next
      case False
      define ap1 where "ap1 = (if MutationLoggingEnabled fl \<or> MutationAnnotationsEnabled fl then ap @ [ap'] else ap)"
      have step: "mutate_loop fl sel uuid db ns ms original (Suc fuel) i ap obj =
          mutate_loop fl sel uuid db ns ms original fuel (Suc i) ap1 o'"
        using p False by (auto simp: ap1_def)
      have "converge (apply_all sel ns ms) original (Suc fuel) i obj =
          converge (apply_all sel ns ms) original fuel (Suc i) o'"
        using Inr False by simp
      then show ?thesis
        unfolding step using Suc.IH [where i = "Suc i" and ap = ap1 and obj = o'] by (auto split: sum.splits option.splits)
    qed
  qed
qed simp

lemma converge_Some:
  assumes "converge f original n i obj = Inr (Some o')"
  shows "f o' = Inr o' \<and> o' \<noteq> original"
  using assms
  by (induction f original n i obj rule: converge.induct) (auto split: sum.splits if_splits)

lemma converge_None: "converge f original n i obj = Inr None \<Longrightarrow> i = 0 \<and> f obj = Inr obj"
  by (induction f original n i obj rule: converge.induct) (auto split: sum.splits if_splits)

lemma System_Mutate_converge:
  assumes "sys_inv s"
  shows "case converge (apply_all sel ns (orderedMutators s)) obj (Suc (length (orderedMutators s))) 0 obj of
      Inl e \<Rightarrow> snd (System_Mutate fl sel uuid s obj ns) = Inl e
    | Inr None \<Rightarrow> System_Mutate fl sel uuid s obj ns = (obj, Inr False)
    | Inr (Some o') \<Rightarrow> snd (System_Mutate fl sel uuid s obj ns) = Inr True \<and>
        (\<not> MutationAnnotationsEnabled fl \<longrightarrow> fst (System_Mutate fl sel uuid s obj ns) = o')"
  using mutate_loop_converge [where db = "schemaDB s" and original = obj and i = 0 and ap = "[]" and obj = obj
      and fuel = "Suc (length (orderedMutators s))" and fl = fl and uuid = uuid and sel = sel and ns = ns
      and ms = "orderedMutators s"] assms
  by (auto simp: System_Mutate_def sys_inv_def simp del: mutate_loop.simps converge.simps split: sum.splits option.splits)

lemma System_Mutate_Inr:
  assumes "sys_inv s" "\<not> MutationAnnotationsEnabled fl" "System_Mutate fl sel uuid s obj ns = (obj', Inr b)"
  shows "apply_all sel ns (orderedMutators s) obj' = Inr obj'" "b \<longleftrightarrow> obj' \<noteq> obj"
proof -
  let ?c = "converge (apply_all sel ns (orderedMutators s)) obj (Suc (length (orderedMutators s))) 0 obj"
  consider "?c = Inr None" "b = False" "obj' = obj" | "?c = Inr (Some obj')" "b = True"
    using System_Mutate_converge [where sel = sel and ns = ns and obj = obj and fl = fl and uuid = uuid, OF assms(1)] assms(2,3)
    by (auto simp del: converge.simps split: sum.splits option.splits)
  then have "apply_all sel ns (orderedMutators s) obj' = Inr obj' \<and> (b \<longleftrightarrow> obj' \<noteq> obj)"
  proof cases
    case 1
    then show ?thesis using converge_None [OF 1(1)] by simp
  next
    case 2
    then show ?thesis using converge_Some [OF 2(1)] by simp
  qed
  then show "apply_all sel ns (orderedMutators s) obj' = Inr obj'" "b \<longleftrightarrow> obj' \<noteq> obj" by simp_all
qed

lemma System_Mutate_stable:
  assumes "sys_inv s" "apply_all sel ns (orderedMutators s) obj = Inr obj"
  shows "System_Mutate fl sel uuid s obj ns = (obj, Inr False)"
  using System_Mutate_converge [where sel = sel and ns = ns and obj = obj and fl = fl and uuid = uuid, OF assms(1)] assms(2) by simp

lemma System_Mutate_single:
  assumes "sys_inv s" "orderedMutators s = [m]" "wf_val (VMap obj)"
    and "snd (System_Mutate fl sel uuid s obj ns) = Inl e"
  shows "\<exists>e'. e = MutationFailed (Mutator_ID m) e'"
proof -
  have v: "valid_Mutator m"
    using assms(1,2) by (auto simp: sys_inv_def map_eq_Cons_conv mget_iff_set)
  have c: "converge (apply_all sel ns [m]) obj 2 0 obj = Inl e"
    using System_Mutate_converge [where sel = sel and ns = ns and obj = obj and fl = fl and uuid = uuid, OF assms(1)] assms(2,4)
    by (auto simp: numeral_2_eq_2 simp del: converge.simps split: sum.splits option.splits)
  show ?thesis
  proof (cases "apply_all sel ns [m] obj")
    case (Inl e')
    then show ?thesis using c by (auto simp: numeral_2_eq_2 split: if_splits prod.splits sum.splits)
  next
    case (Inr o1)
    have "apply_all sel ns [m] o1 = Inr o1"
    proof (cases "Mutator_Matches sel m obj ns")
      case True
      then obtain v b where vb: "Mutator_Mutate m (Some obj) = (v, Inr b)" "o1 = obj_of v"
        using Inr by (auto split: prod.splits sum.splits)
      then obtain o2 where "v = VMap o2" using mutators.mutate_map [OF v] by blast
      then have "\<exists>c. Mutator_Mutate m (Some o1) = (VMap o1, Inr c)"
        using mutators.mutate_settled [OF v assms(3)] vb by simp
      then show ?thesis by auto
    qed (use Inr in auto)
    then show ?thesis using c Inr by (auto simp: numeral_2_eq_2 split: if_splits)
  qed
qed

end
