(* ===== verification/Examples.thy ===== *)
theory Examples
  imports System_Facts
begin

text \<open>
  Sample specifications and objects, on which the theorems with hypotheses are instantiated
  and on which some behaviours of the code are shown by evaluation.
\<close>

definition ex_match :: Match where
  "ex_match = \<lparr>match_Kinds = [], Scope = [], Namespaces = [], ExcludedNamespaces = [],
     label_Selector = None, NamespaceSelector = None\<rparr>"

definition ex_assign :: "string \<Rightarrow> string \<Rightarrow> json \<Rightarrow> Assign" where
  "ex_assign name location v =
     \<lparr>om_GVK = GVK ''mutations.gatekeeper.sh'' ''v1alpha1'' ''Assign'', om_Name = name, om_Namespace = [],
      as_Generation = 1,
      as_Spec = \<lparr>as_ApplyTo = [\<lparr>at_Groups = [[]], at_Kinds = [''Pod''], at_Versions = [''v1'']\<rparr>],
        as_Match = ex_match, as_Location = location,
        as_Parameters = \<lparr>PathTests = [], AssignIfRaw = RawExtension [] None,
          AssignRaw = RawExtension ''{...}'' (Some (JObject [(''value'', v)]))\<rparr>\<rparr>\<rparr>"

definition ex_assignmeta :: "string \<Rightarrow> string \<Rightarrow> json \<Rightarrow> AssignMetadata" where
  "ex_assignmeta name location v =
     \<lparr>om_GVK = GVK ''mutations.gatekeeper.sh'' ''v1alpha1'' ''AssignMetadata'', om_Name = name, om_Namespace = [],
      amd_Generation = 1,
      amd_Spec = \<lparr>ms_Match = ex_match, ms_Location = location,
        ms_AssignRaw = RawExtension ''{...}'' (Some (JObject [(''value'', v)]))\<rparr>\<rparr>"

definition ex_pod :: object where
  "ex_pod = [(''apiVersion'', VString ''v1''), (''kind'', VString ''Pod''),
     (''metadata'', VMap [(''name'', VString ''p'')]),
     (''spec'', VMap [(''containers'', VList [VMap [(''name'', VString ''c'')]])])]"

definition ex_selectors :: selectors where
  "ex_selectors sel = Some (\<lambda>ls. list_all (\<lambda>(k, v). mget ls k = Some v) (MatchLabels sel))"

definition ex_flags :: MutationFlags where
  "ex_flags = \<lparr>MutationLoggingEnabled = False, MutationAnnotationsEnabled = False\<rparr>"

fun get_Inr :: "'a + 'b \<Rightarrow> 'b" where
  "get_Inr (Inr b) = b"

definition ex_mutator :: "string \<Rightarrow> string \<Rightarrow> json \<Rightarrow> AssignMutator" where
  "ex_mutator name location v = get_Inr (MutatorForAssign (ex_assign name location v))"

definition ex_metamutator :: "string \<Rightarrow> string \<Rightarrow> json \<Rightarrow> AssignMetadataMutator" where
  "ex_metamutator name location v = get_Inr (MutatorForAssignMetadata (ex_assignmeta name location v))"

text \<open>A sequence of upserts, with the error of each.\<close>

fun upserts :: "Mutator list \<Rightarrow> System \<Rightarrow> SysPanic + System \<times> SysErr option list" where
  "upserts [] s = Inr (s, [])"
| "upserts (m # ms) s =
     (case System_Upsert m s of
        Inl p \<Rightarrow> Inl p
      | Inr (s', e) \<Rightarrow> map_sum id (\<lambda>(s'', es). (s'', e # es)) (upserts ms s'))"

definition image_mutator :: AssignMutator where
  "image_mutator = ex_mutator ''image'' ''spec.containers[name: c].image'' (JString ''i'')"

definition owner_mutator :: AssignMetadataMutator where
  "owner_mutator = ex_metamutator ''owner'' ''metadata.labels.owner'' (JString ''me'')"

lemma image_mutator_for:
  "MutatorForAssign (ex_assign ''image'' ''spec.containers[name: c].image'' (JString ''i'')) = Inr image_mutator"
  by code_simp

lemma owner_mutator_for:
  "MutatorForAssignMetadata (ex_assignmeta ''owner'' ''metadata.labels.owner'' (JString ''me'')) = Inr owner_mutator"
  by code_simp

lemma built_image: "built (MAssign image_mutator)"
  using image_mutator_for by (rule built_Assign)

lemma built_owner: "built (MAssignMetadata owner_mutator)"
  using owner_mutator_for by (rule built_AssignMetadata)

definition ex_system :: System where
  "ex_system = fst (get_Inr (upserts [MAssign image_mutator, MAssignMetadata owner_mutator] NewSystem))"

lemma reachable_upserts:
  "reachable s \<Longrightarrow> \<forall>m \<in> set ms. built m \<Longrightarrow> upserts ms s = Inr (s', es) \<Longrightarrow> reachable s'"
proof (induction ms arbitrary: s es)
  case (Cons m ms)
  obtain s1 e where s1: "System_Upsert m s = Inr (s1, e)"
    using Cons.prems(3) by (cases "System_Upsert m s") auto
  then have "reachable s1" using reach_Upsert Cons.prems(1,2) by auto
  moreover obtain es' where "upserts ms s1 = Inr (s', es')"
    using Cons.prems(3) s1 by (cases "upserts ms s1") auto
  ultimately show ?case using Cons.IH Cons.prems(2) by simp
qed simp

lemma ex_system_upserts: "upserts [MAssign image_mutator, MAssignMetadata owner_mutator] NewSystem = Inr (ex_system, [None, None])"
  by code_simp

lemma reachable_ex_system: "reachable ex_system"
  using reachable_upserts [OF reach_New _ ex_system_upserts] built_image built_owner by simp

lemma wf_ex_pod: "wf_val (VMap ex_pod)"
  by (simp add: ex_pod_def mwf_def)

text \<open>
  A conflicting update leaves the old version of the mutator in the list, but drops it from
  the schema database: a later mutator that contradicts it is then accepted, and both are
  applied.
\<close>

definition ex_conflict :: "SysPanic + System \<times> SysErr option list" where
  "ex_conflict = upserts
     [MAssign (ex_mutator ''a'' ''spec.x.f'' (JString ''v'')),
      MAssign (ex_mutator ''b'' ''spec.y.f'' (JString ''v'')),
      MAssign (ex_mutator ''a'' ''spec.y[name: q].f'' (JString ''v'')),
      MAssign (ex_mutator ''c'' ''spec.x[name: q].f'' (JString ''v''))] NewSystem"

lemma Upsert_conflict_unprotected:
  "case ex_conflict of Inr (s, es) \<Rightarrow>
     map (\<lambda>e. e = None) es = [True, True, False, True] \<and>
     map Mutator_Path (orderedMutators s) =
       [[Object ''spec'', Object ''x'', Object ''f''], [Object ''spec'', Object ''y'', Object ''f''],
        [Object ''spec'', Object ''x'', ListN ''name'' (VString ''q'') False, Object ''f'']] \<and>
     mkeys (cachedMutators (schemaDB s)) = map Mutator_ID (tl (orderedMutators s))
   | Inl _ \<Rightarrow> False"
  by code_simp

section \<open>Behaviours that diverge from what the code or its documentation intends\<close>

text \<open>\<open>parseInt64\<close> takes \<open>2\<^sup>6\<^sup>4 + 1\<close> for 1: the sum wraps past the negative range.\<close>

lemma parseInt64_wraps: "parseInt64 ''18446744073709551617'' = Inr 1"
  by code_simp

text \<open>The printed form of a name with a slash is not quoted and does not parse.\<close>

lemma slash_not_printable:
  "Path_String [Object ''a/b''] = ''a/b'' \<and> (case Parse ''a/b'' of Inl _ \<Rightarrow> True | Inr _ \<Rightarrow> False)"
  by code_simp

text \<open>The parent check of path tests depends on the order in which they are listed.\<close>

definition ex_test :: "Path \<Rightarrow> Condition \<Rightarrow> Test" where
  "ex_test p c = \<lparr>SubPath = p, test_Condition = c\<rparr>"

lemma tests_order_matters:
  "(case New [Object ''a'', Object ''b''] [ex_test [Object ''a'', Object ''b''] MustExist, ex_test [Object ''a''] MustNotExist]
      of Inr _ \<Rightarrow> True | Inl _ \<Rightarrow> False) \<and>
   (case New [Object ''a'', Object ''b''] [ex_test [Object ''a'', Object ''b''] MustNotExist, ex_test [Object ''a''] MustExist]
      of Inr _ \<Rightarrow> False | Inl _ \<Rightarrow> True)"
  by code_simp

text \<open>A path that ends at a key in conflict is not itself reported.\<close>

lemma Add_omits_unknown:
  "(let n1 = fst (Add (ID [] [] [] ''k'') [Object ''a'', Object ''b''] (SNode {} []));
        n2 = fst (Add (ID [] [] [] ''l'') [Object ''a'', ListN ''b'' VNil True] n1);
        r = snd (Add (ID [] [] [] ''m'') [Object ''a''] n2)
    in r \<noteq> {} \<and> ID [] [] [] ''m'' \<notin> r)"
  by code_simp

text \<open>An integer field is never equal to a value of \<open>assignIf\<close>.\<close>

lemma AssignIf_never_matches_int:
  assumes "MutatorForAssign a = Inr m" "has_int v" "If_In (am_valueTest m) \<noteq> []"
  shows "\<not> testValue m v exists"
  using ValueTests_no_int [OF MutatorForAssign_fields(7) [OF assms(1)]] assms(2,3)
  by (auto simp: testValue_def list_ex_iff)

text \<open>The label selector does not constrain an object without a namespace.\<close>

lemma label_selector_ignored_without_namespace:
  "Matches sel (ex_match\<lparr>label_Selector := Some l\<rparr>) obj None =
     (if isNamespace obj then Inl NilNamespace else Inr True)"
  by (simp add: Matches_def ex_match_def Let_def)

end
