(* ===== verification/Mutation_Properties.thy ===== *)
theory Mutation_Properties
  imports Examples
begin

text \<open>
  The properties of the mutation packages: paths and their printed form, path tests, the
  schema trees and database, the mutation walk, the two mutators, and the mutation system.
  Each is stated over the definitions that translate the code; the proofs apply the lemmas
  of the component theories.
\<close>

section \<open>Locations\<close>



text \<open>C14: a location the parser accepts starts with a field name, has no list specification
  right after another, and gives every list a key value unless it is a glob.\<close>

theorem parsed_location_wf:
  assumes "Parse input = Inr p"
  shows "wf_path p"
  using assms by (rule Parse_wf_path)

theorem parsed_location_wf_witness: "wf_path [Object ''a'', ListN ''k'' VNil True, Object ''b'']"
  by (rule parsed_location_wf [of "''a[k: *].b''"]) code_simp

text \<open>An accepted set of path tests is what the tester enforces: an element may exist at
  a depth exactly when every test of that depth is \<open>MustExist\<close>, and may be missing exactly
  when every test of that depth is \<open>MustNotExist\<close>.\<close>

theorem tester_enforces:
  assumes "New location ts = Inr pt"
  shows "(ExistsOkay pt d \<longleftrightarrow> (\<forall>t \<in> set ts. length (SubPath t) = Suc d \<longrightarrow> test_Condition t = MustExist)) \<and>
    (MissingOkay pt d \<longleftrightarrow> (\<forall>t \<in> set ts. length (SubPath t) = Suc d \<longrightarrow> test_Condition t = MustNotExist))"
proof (cases "\<exists>t \<in> set ts. length (SubPath t) = Suc d")
  case True
  then obtain t where t: "t \<in> set ts" "length (SubPath t) = Suc d" by blast
  have cond: "mget (tests pt) (int d) = Some (test_Condition u)" if "u \<in> set ts" "length (SubPath u) = Suc d" for u
    using New_enforces [OF assms that(1)] that(2) by simp
  show ?thesis
    using cond [OF t] cond t by (fastforce simp: ExistsOkay_def MissingOkay_def)
next
  case False
  have "mget (tests pt) (int d) = None"
    using New_tests_keys [OF assms] False by (auto simp: mget_None_iff)
  then show ?thesis using False by (auto simp: ExistsOkay_def MissingOkay_def)
qed

theorem tester_enforces_witness:
  "\<exists>pt. New [Object ''a'', Object ''b''] [\<lparr>SubPath = [Object ''a''], test_Condition = MustExist\<rparr>] = Inr pt \<and>
     ExistsOkay pt 0 \<and> \<not> MissingOkay pt 0"
proof -
  have new: "New [Object ''a'', Object ''b''] [\<lparr>SubPath = [Object ''a''], test_Condition = MustExist\<rparr>]
      = Inr \<lparr>tests = [(0, MustExist)]\<rparr>"
    by code_simp
  from tester_enforces [OF new, of 0] new show ?thesis by auto
qed

section \<open>Schemas\<close>

text \<open>Adding the path of a mutator to a schema tree and removing it again restores the
  tree, and does not panic.\<close>

theorem schema_Remove_Add:
  assumes "wf_node_tree n" "i \<notin> ReferencedBy n"
  shows "Remove i p (fst (Add i p n)) = Inr n"
  using assms by (rule Remove_Add)

theorem schema_Remove_Add_witness:
  "Remove (ID [] [] [] ''m'') [Object ''a'', Object ''b''] (fst (Add (ID [] [] [] ''m'') [Object ''a'', Object ''b''] (SNode {} [])))
     = Inr (SNode {} [])"
  by (rule schema_Remove_Add) simp_all



text \<open>C8: the database never panics. In a state with the invariant (the trees hold exactly
  the typed paths of the cached mutators under their bindings, and only cached mutators are
  in conflict), an upsert and a removal return and keep the invariant, and a removed mutator
  is neither cached nor in conflict.\<close>

theorem db_never_panics:
  assumes "db_inv db" "valid_AssignMutator m"
  shows "(\<exists>db' e. DB_Upsert (Some m) db = Inr (db', e) \<and> db_inv db') \<and>
    (\<exists>db'. DB_Remove i db = Inr db' \<and> db_inv db' \<and> cachedMutators db' = mdel i (cachedMutators db) \<and>
      \<not> DB_HasConflicts i db')"
proof -
  have rem: "\<exists>db'. DB_remove k db = Inr db' \<and> db_inv db' \<and> cachedMutators db' = mdel k (cachedMutators db) \<and>
      \<not> DB_HasConflicts k db'" for k
    using DB_remove_spec [OF assms(1), of k] by blast
  have ins: "db_inv (fst (DB_insert m d))" if "db_inv d" "mget (cachedMutators d) (am_id m) = None" for d
    using DB_insert_spec(1) [OF that(1) assms(2) that(2)] .
  have "\<exists>db' e. DB_upsert m db = Inr (db', e) \<and> db_inv db'"
  proof (cases "mget (cachedMutators db) (am_id m)")
    case None
    then show ?thesis using ins [OF assms(1)] by (cases "DB_insert m db") (auto simp: DB_upsert_def)
  next
    case (Some old)
    obtain d where d: "DB_remove (am_id m) db = Inr d" "db_inv d" "mget (cachedMutators d) (am_id m) = None"
      using rem [of "am_id m"] by auto
    then show ?thesis
      using Some assms(1) ins [OF d(2,3)]
      by (cases "DB_insert m d") (simp add: DB_upsert_def del: AssignMutator_HasDiff.simps)
  qed
  then show ?thesis using rem [of i] by (simp add: DB_Upsert_def DB_Remove_def)
qed

theorem db_never_panics_witness: "\<exists>db' e. DB_Upsert (Some image_mutator) New_DB = Inr (db', e) \<and> db_inv db'"
  using db_never_panics [OF db_inv_New, of image_mutator] built_valid [OF built_image] by simp



section \<open>The mutation walk\<close>

text \<open>C5: the walk that changes maps in place and copies lists computes the functional
  assignment: same error, same unmutated result with the object untouched, same mutated
  object.\<close>

theorem Mutate_refines_assignment:
  assumes "wf_path (ms_path s)" "ms_path s \<noteq> []" "wf_val (VMap obj)"
  shows "case assignAt s (ms_path s) (VMap obj) 0 of
      Inl e \<Rightarrow> snd (core_Mutate s (Some obj)) = Inl e
    | Inr None \<Rightarrow> core_Mutate s (Some obj) = (VMap obj, Inr False)
    | Inr (Some w) \<Rightarrow> core_Mutate s (Some obj) = (w, Inr True)"
  using assms by (rule core_Mutate_eq)

theorem Mutate_refines_assignment_witness:
  "case assignAt (AssignMutator_state image_mutator) (am_path image_mutator) (VMap ex_pod) 0 of
      Inl e \<Rightarrow> snd (core_Mutate (AssignMutator_state image_mutator) (Some ex_pod)) = Inl e
    | Inr None \<Rightarrow> core_Mutate (AssignMutator_state image_mutator) (Some ex_pod) = (VMap ex_pod, Inr False)
    | Inr (Some w) \<Rightarrow> core_Mutate (AssignMutator_state image_mutator) (Some ex_pod) = (w, Inr True)"
  using Mutate_refines_assignment [OF _ _ wf_ex_pod, of "AssignMutator_state image_mutator"]
    valid_AssignMutator_state [of image_mutator] built_valid [OF built_image]
  by (simp add: valid_state_def AssignMutator_state_def)

text \<open>C6: a walk changes nothing beside its path, even when it fails half-way: outside the
  places the path selects the object is the same, and a list gains at most one element, at
  its end, when none of its elements has the key.\<close>

theorem Mutate_frame:
  assumes "wf_path p" "wf_val cur"
  shows "off_path p cur (fst (mutateInternal s p cur d))"
  using mutateInternal_frame [OF wf_path_okay [OF assms(1)] assms(2)] by (simp add: frame_def)

theorem Mutate_frame_witness:
  "off_path (am_path image_mutator) (VMap ex_pod)
     (fst (mutateInternal (AssignMutator_state image_mutator) (am_path image_mutator) (VMap ex_pod) 0))"
  by (rule Mutate_frame [OF _ wf_ex_pod])
    (use built_valid [OF built_image] in \<open>simp add: valid_AssignMutator_def\<close>)

text \<open>When a walk mutates, the assigned value is then at a place the path selects.\<close>

theorem Mutate_assigns:
  assumes "valid_state s" "wf_val (VMap obj)" "ms_Value s = Inr v" "core_Mutate s (Some obj) = (w, Inr True)"
  shows "located (ms_path s) v w"
proof -
  have p: "wf_path (ms_path s)" "ms_path s \<noteq> []" "keys_kept (ms_Value s) (ms_path s)"
    using assms(1) by (auto simp: valid_state_def)
  have "assignAt s (ms_path s) (VMap obj) 0 = Inr (Some w)"
    using core_Mutate_Inr_iff(1) [OF p(1,2) assms(2)] assms(4) by blast
  then show ?thesis using assignAt_located wf_path_okay [OF p(1)] p(3) assms(3) by blast
qed

theorem Mutate_assigns_witness:
  "\<exists>w. core_Mutate (AssignMutator_state image_mutator) (Some ex_pod) = (w, Inr True) \<and>
     located (am_path image_mutator) (VString ''i'') w"
proof -
  have "case core_Mutate (AssignMutator_state image_mutator) (Some ex_pod) of (w, Inr b) \<Rightarrow> b | (w, Inl e) \<Rightarrow> False"
    by code_simp
  then obtain w where w: "core_Mutate (AssignMutator_state image_mutator) (Some ex_pod) = (w, Inr True)"
    by (auto split: prod.splits sum.splits)
  have val: "ms_Value (AssignMutator_state image_mutator) = Inr (VString ''i'')" by code_simp
  have "valid_state (AssignMutator_state image_mutator)"
    using valid_AssignMutator_state built_valid [OF built_image] by simp
  from Mutate_assigns [OF this wf_ex_pod val w] w show ?thesis
    by (auto simp: AssignMutator_state_def)
qed

section \<open>The mutators\<close>

text \<open>C11: an \<open>Assign\<close> that the constructor accepts never changes the metadata of an object,
  whatever it returns.\<close>

theorem Assign_keeps_metadata:
  assumes "MutatorForAssign a = Inr m" "wf_val (VMap obj)" "AssignMutator_Mutate m (Some obj) = (VMap obj', r)"
  shows "mget obj' ''metadata'' = mget obj ''metadata''"
  using AssignMutator_keeps_other_fields [OF MutatorForAssign_valid [OF assms(1)] assms(2,3)]
    MutatorForAssign_valid [OF assms(1)] by (simp add: valid_AssignMutator_def)

theorem Assign_keeps_metadata_witness:
  "mget (obj_of (fst (AssignMutator_Mutate image_mutator (Some ex_pod)))) ''metadata'' = mget ex_pod ''metadata''"
proof -
  have "\<exists>obj'. fst (AssignMutator_Mutate image_mutator (Some ex_pod)) = VMap obj'"
    using mutators.mutate_map [OF built_valid [OF built_image]] by (metis Mutator_Mutate.simps(1) prod.collapse)
  then obtain obj' where "AssignMutator_Mutate image_mutator (Some ex_pod) =
      (VMap obj', snd (AssignMutator_Mutate image_mutator (Some ex_pod)))"
    by (metis prod.collapse)
  from Assign_keeps_metadata [OF image_mutator_for wf_ex_pod this] this show ?thesis by (metis fst_conv obj_of_VMap)
qed

text \<open>An \<open>AssignMetadata\<close> never changes or removes an existing label or annotation, nor
  any field outside the metadata; it only adds its own key, and an error leaves the object
  as it was.\<close>

theorem AssignMetadata_only_adds:
  assumes "MutatorForAssignMetadata a = Inr m" "wf_val (VMap obj)"
    "AssignMetadataMutator_Mutate m (Some obj) = (VMap obj', r)"
  shows "(part \<in> {''labels'', ''annotations''} \<and> NestedFieldNoCopy (VMap obj) [''metadata'', part, k] = Inr (Some x) \<longrightarrow>
      NestedFieldNoCopy (VMap obj') [''metadata'', part, k] = Inr (Some x)) \<and>
    (j \<noteq> ''metadata'' \<longrightarrow> mget obj' j = mget obj j) \<and>
    (r \<noteq> Inr True \<longrightarrow> obj' = obj)"
proof -
  have valid: "valid_AssignMetadataMutator m" by (rule MutatorForAssignMetadata_valid [OF assms(1)])
  then obtain q l where p: "mm_path m = [Object ''metadata'', Object q, Object l]"
    by (auto simp: valid_AssignMetadataMutator_def)
  consider "obj' = obj" "r \<noteq> Inr True"
    | "r = Inr True" "obj' = add_metadata q l (VString (mm_assignValue m)) obj"
      "\<And>x. NestedFieldNoCopy (VMap obj) [''metadata'', q, l] \<noteq> Inr (Some x)"
    using AssignMetadata_Mutate_cases [OF valid p assms(2,3)] by auto
  then show ?thesis
  proof cases
    case 2
    show ?thesis
      using 2(1,2) 2(3) [of x] by (auto simp: add_metadata_def Let_def split: option.splits val.splits if_splits)
  qed simp
qed

theorem AssignMetadata_only_adds_witness:
  "\<exists>obj'. AssignMetadataMutator_Mutate owner_mutator (Some ex_pod) = (VMap obj', Inr True) \<and>
     mget obj' ''spec'' = mget ex_pod ''spec''"
proof -
  have "case AssignMetadataMutator_Mutate owner_mutator (Some ex_pod) of (VMap obj', Inr b) \<Rightarrow> b | _ \<Rightarrow> False"
    by code_simp
  then obtain obj' where o: "AssignMetadataMutator_Mutate owner_mutator (Some ex_pod) = (VMap obj', Inr True)"
    by (auto split: prod.splits val.splits sum.splits)
  show ?thesis
    using AssignMetadata_only_adds [OF owner_mutator_for wf_ex_pod o, of "''labels''" k x "''spec''" for k x] o by simp
qed

text \<open>C7: applying a mutator to its own result changes nothing more.\<close>

theorem mutator_idempotent:
  assumes "built m" "wf_val (VMap obj)" "Mutator_Mutate m (Some obj) = (VMap obj', Inr b)"
  shows "\<exists>c. Mutator_Mutate m (Some obj') = (VMap obj', Inr c)"
  using mutators.mutate_settled built_valid assms by blast

theorem mutator_idempotent_witness:
  "\<exists>obj' b c. Mutator_Mutate (MAssign image_mutator) (Some ex_pod) = (VMap obj', Inr b) \<and>
     Mutator_Mutate (MAssign image_mutator) (Some obj') = (VMap obj', Inr c)"
proof -
  have "case Mutator_Mutate (MAssign image_mutator) (Some ex_pod) of (VMap obj', Inr b) \<Rightarrow> True | _ \<Rightarrow> False"
    by code_simp
  then obtain obj' b where o: "Mutator_Mutate (MAssign image_mutator) (Some ex_pod) = (VMap obj', Inr b)"
    by (auto split: prod.splits val.splits sum.splits)
  from mutator_idempotent [OF built_image wf_ex_pod o] o show ?thesis by blast
qed

text \<open>Two mutators that \<open>HasDiff\<close> finds equal match and mutate alike, so that keeping the
  old one loses nothing.\<close>

theorem no_diff_same:
  assumes "built m" "built m'" "\<not> HasDiff m m'"
  shows "Mutator_Mutate m = Mutator_Mutate m' \<and> Mutator_Matches sel m = Mutator_Matches sel m' \<and>
    Mutator_ID m = Mutator_ID m'"
  using no_diff_same_behaviour [OF assms] mutators.no_diff_ident [OF assms(3)] by simp

theorem no_diff_same_witness:
  "Mutator_Matches ex_selectors (MAssign image_mutator) = Mutator_Matches ex_selectors (MAssign image_mutator)"
  using no_diff_same [OF built_image built_image mutators.has_diff_refl] by simp

text \<open>The bindings of an accepted \<open>Assign\<close> are distinct, ordered by their text, not
  empty, and they are exactly the kinds it applies to.\<close>

theorem Assign_bindings:
  assumes "MutatorForAssign a = Inr m"
  shows "distinct (SchemaBindings m) \<and> sorted (map GVK_String (SchemaBindings m)) \<and> SchemaBindings m \<noteq> [] \<and>
    (AppliesTo (as_ApplyTo (as_Spec a)) obj \<longleftrightarrow> GroupVersionKind obj \<in> set (SchemaBindings m))"
  using MutatorForAssign_fields [OF assms] getSortedGVKs_spec [of "as_ApplyTo (as_Spec a)"]
  by (auto simp: SchemaBindings_def AppliesTo_Flatten)

theorem Assign_bindings_witness: "GroupVersionKind ex_pod \<in> set (SchemaBindings image_mutator)"
proof -
  have "AppliesTo (as_ApplyTo (as_Spec (ex_assign ''image'' ''spec.containers[name: c].image'' (JString ''i'')))) ex_pod"
    by code_simp
  then show ?thesis using Assign_bindings [OF image_mutator_for, of ex_pod] by simp
qed

text \<open>No \<open>Assign\<close> that sets an element of a list with an integer key is ever accepted,
  because the assigned object's number is decoded as a \<open>float64\<close> and compared with the
  path's \<open>int64\<close>.\<close>

theorem Assign_integer_key_rejected:
  assumes "Parse (as_Location (as_Spec a)) = Inr p" "p \<noteq> []" "last p = ListN kf (VInt i) False"
  shows "\<exists>e. MutatorForAssign a = Inl e"
proof (cases "MutatorForAssign a")
  case (Inr m)
  have "am_path m = p" "validateObjectAssignedToList (am_path m) (am_assignValue m) = None"
    using MutatorForAssign_fields [OF Inr] assms(1) by auto
  then show ?thesis
    using validate_int_key [OF assms(2,3)] MutatorForAssign_value_no_int [OF Inr] by blast
qed simp

theorem Assign_integer_key_rejected_witness:
  "\<exists>e. MutatorForAssign (ex_assign ''p'' ''spec.ports[port: 80]'' (JObject [(''port'', JNum 80)])) = Inl e"
proof (rule Assign_integer_key_rejected)
  show "Parse (as_Location (as_Spec (ex_assign ''p'' ''spec.ports[port: 80]'' (JObject [(''port'', JNum 80)])))) =
      Inr [Object ''spec'', Object ''ports'', ListN ''port'' (VInt 80) False]"
    by code_simp
qed simp_all

section \<open>Matching\<close>


section \<open>The mutation system\<close>

text \<open>C4: in every reachable state the mutators are listed in strictly increasing order of
  ID, exactly those of the map; an upsert and a removal return without a panic, a removal
  without an error, and an upsert fails only because of a conflict with another active
  mutator.\<close>

theorem system_invariant:
  assumes "reachable s" "built m"
  shows "sorted_wrt (<) (map Mutator_ID (orderedMutators s)) \<and>
    orderedMutators s = map snd (mutatorsMap s) \<and> mwf (mutatorsMap s) \<and>
    (\<exists>s'. System_Remove i s = Inr (s', None)) \<and>
    (\<exists>s' e. System_Upsert m s = Inr (s', e) \<and>
      (e \<noteq> None \<longrightarrow> (\<exists>S j. e = Some (SchemaConflict (Mutator_ID m) (ErrConflictingSchema S)) \<and> j \<in> S \<and>
         j \<noteq> Mutator_ID m \<and> mhas (mutatorsMap s) j)))"
proof -
  have inv: "sys_inv s" by (rule reachable_inv [OF assms(1)])
  then have "orderedMutators s = map snd (mutatorsMap s) \<and> mwf (mutatorsMap s)" by (simp add: sys_inv_def)
  then show ?thesis
    using sorted_orderedMutators [OF inv] System_Remove_spec [OF inv, of i]
      System_Upsert_spec [OF inv built_valid [OF assms(2)]] by fastforce
qed

theorem system_invariant_witness: "sorted_wrt (<) (map Mutator_ID (orderedMutators ex_system))"
  using system_invariant [OF reachable_ex_system built_image] by blast

text \<open>After a successful upsert, the mutator found under its ID matches and mutates like
  the one upserted; a failed upsert and the other IDs leave what is found.\<close>

theorem system_upsert_get:
  assumes "reachable s" "built m" "System_Upsert m s = Inr (s', e)"
  shows "(e = None \<longrightarrow> (\<exists>m'. System_Get (Mutator_ID m) s' = Some m' \<and> \<not> HasDiff m m')) \<and>
    (e \<noteq> None \<longrightarrow> System_Get (Mutator_ID m) s' = System_Get (Mutator_ID m) s) \<and>
    (i \<noteq> Mutator_ID m \<longrightarrow> System_Get i s' = System_Get i s)"
proof -
  have inv: "sys_inv s" by (rule reachable_inv [OF assms(1)])
  have valid: "valid_Mutator m" by (rule built_valid [OF assms(2)])
  have up: "sys_inv s'" "e = None \<Longrightarrow> mutatorsMap s' = mput (Mutator_ID m) m (mutatorsMap s) \<or>
       s' = s \<and> (\<exists>old. mget (mutatorsMap s) (Mutator_ID m) = Some old \<and> \<not> HasDiff m old)"
     "e \<noteq> None \<Longrightarrow> mutatorsMap s' = mutatorsMap s"
    using System_Upsert_spec [OF inv valid] assms(3) by auto
  note get = System_Get_eq [OF inv] System_Get_eq [OF up(1)]
  show ?thesis
  proof (cases e)
    case None
    then show ?thesis using up(2) mutators.has_diff_refl [of m] unfolding get by auto
  next
    case (Some err)
    then show ?thesis using up(3) unfolding get by simp
  qed
qed

theorem system_upsert_get_witness:
  "\<exists>s' e. System_Upsert (MAssign image_mutator) NewSystem = Inr (s', e) \<and>
     (e = None \<longrightarrow> (\<exists>m'. System_Get (am_id image_mutator) s' = Some m' \<and> \<not> HasDiff (MAssign image_mutator) m'))"
proof -
  have "case System_Upsert (MAssign image_mutator) NewSystem of Inr (s', e) \<Rightarrow> True | Inl _ \<Rightarrow> False" by code_simp
  then obtain s' e where "System_Upsert (MAssign image_mutator) NewSystem = Inr (s', e)"
    by (auto split: sum.splits prod.splits)
  from system_upsert_get [OF reach_New built_image this] this show ?thesis by auto
qed

text \<open>After a removal nothing is found under the ID, the mutator is not applied any more,
  and the other mutators stay in their order.\<close>

theorem system_remove_get:
  assumes "reachable s"
  shows "\<exists>s'. System_Remove i s = Inr (s', None) \<and> System_Get i s' = None \<and>
    orderedMutators s' = filter (\<lambda>m. Mutator_ID m \<noteq> i) (orderedMutators s) \<and>
    (\<forall>j. j \<noteq> i \<longrightarrow> System_Get j s' = System_Get j s)"
proof -
  have inv: "sys_inv s" by (rule reachable_inv [OF assms])
  obtain s' where s': "System_Remove i s = Inr (s', None)" "sys_inv s'" "mutatorsMap s' = mdel i (mutatorsMap s)"
    using System_Remove_spec [OF inv, of i] by blast
  have "orderedMutators s' = map snd (filter (\<lambda>p. fst p \<noteq> i) (mutatorsMap s))"
    using s'(2,3) by (simp add: sys_inv_def mdel_def)
  also have "\<dots> = map snd (filter (\<lambda>p. Mutator_ID (snd p) \<noteq> i) (mutatorsMap s))"
    using sys_inv_keyed [OF inv] by (intro arg_cong [where f = "map snd"] filter_cong) (auto simp: keyed_def)
  also have "\<dots> = filter (\<lambda>m. Mutator_ID m \<noteq> i) (orderedMutators s)"
    using inv by (simp add: sys_inv_def filter_map o_def)
  finally show ?thesis using s'(1,3) by (simp add: System_Get_def)
qed

theorem system_remove_get_witness:
  "\<exists>s'. System_Remove (am_id image_mutator) ex_system = Inr (s', None) \<and> System_Get (am_id image_mutator) s' = None"
  using system_remove_get [OF reachable_ex_system, of "am_id image_mutator"] by blast

text \<open>C3: when \<open>Mutate\<close> returns without an error (and annotations are off), the object is a
  fixed point of the mutators: one more pass changes nothing, \<open>Mutate\<close> reports a mutation
  exactly when the object differs from the original, and mutating the result again reports
  no mutation and leaves it.\<close>

theorem system_mutate_fixpoint:
  assumes "reachable s" "\<not> MutationAnnotationsEnabled fl" "System_Mutate fl sel uuid s obj ns = (obj', Inr b)"
  shows "apply_all sel ns (orderedMutators s) obj' = Inr obj' \<and> (b \<longleftrightarrow> obj' \<noteq> obj) \<and>
    System_Mutate fl sel uuid' s obj' ns = (obj', Inr False)"
  using System_Mutate_Inr [OF reachable_inv [OF assms(1)] assms(2,3)]
    System_Mutate_stable [OF reachable_inv [OF assms(1)]] by blast

theorem system_mutate_fixpoint_witness:
  "\<exists>obj'. System_Mutate ex_flags ex_selectors VNil ex_system ex_pod (Some \<lparr>ns_Name = ''n'', ns_Labels = []\<rparr>) = (obj', Inr True) \<and>
     System_Mutate ex_flags ex_selectors VNil ex_system obj' (Some \<lparr>ns_Name = ''n'', ns_Labels = []\<rparr>) = (obj', Inr False)"
proof -
  let ?ns = "Some \<lparr>ns_Name = ''n'', ns_Labels = []\<rparr>"
  have "case System_Mutate ex_flags ex_selectors VNil ex_system ex_pod ?ns of (obj', Inr b) \<Rightarrow> b | (_, Inl _) \<Rightarrow> False"
    by code_simp
  then obtain obj' where o: "System_Mutate ex_flags ex_selectors VNil ex_system ex_pod ?ns = (obj', Inr True)"
    by (auto split: prod.splits sum.splits)
  have "\<not> MutationAnnotationsEnabled ex_flags" by (simp add: ex_flags_def)
  from system_mutate_fixpoint [OF reachable_ex_system this o] o show ?thesis by blast
qed

text \<open>With one active mutator, \<open>Mutate\<close> always converges: it fails only when the mutator
  itself fails on the object.\<close>

theorem system_single_converges:
  assumes "reachable s" "orderedMutators s = [m]" "wf_val (VMap obj)"
    "snd (System_Mutate fl sel uuid s obj ns) = Inl e"
  shows "\<exists>e'. e = MutationFailed (Mutator_ID m) e'"
  using System_Mutate_single [OF reachable_inv [OF assms(1)] assms(2-4)] .

theorem system_single_converges_witness:
  "(let s = fst (get_Inr (upserts [MAssign image_mutator] NewSystem));
        obj = [(''apiVersion'', VString ''v1''), (''kind'', VString ''Pod''), (''spec'', VBool True)]
    in \<exists>e. snd (System_Mutate ex_flags ex_selectors VNil s obj None) = Inl (MutationFailed (am_id image_mutator) e))"
proof -
  define s where "s = fst (get_Inr (upserts [MAssign image_mutator] NewSystem))"
  let ?obj = "[(''apiVersion'', VString ''v1''), (''kind'', VString ''Pod''), (''spec'', VBool True)]"
  have "upserts [MAssign image_mutator] NewSystem = Inr (s, [None])" unfolding s_def by code_simp
  then have r: "reachable s" by (rule reachable_upserts [OF reach_New, rotated]) (use built_image in simp)
  have one: "orderedMutators s = [MAssign image_mutator]" unfolding s_def by code_simp
  have wf: "wf_val (VMap ?obj)" by (simp add: mwf_def)
  have "case snd (System_Mutate ex_flags ex_selectors VNil s ?obj None) of Inl e \<Rightarrow> True | Inr b \<Rightarrow> False"
    unfolding s_def by code_simp
  then obtain e where "snd (System_Mutate ex_flags ex_selectors VNil s ?obj None) = Inl e" by (auto split: sum.splits)
  from system_single_converges [OF r one wf this] this show ?thesis unfolding s_def by (auto simp: Let_def)
qed

end
