(* ===== verification/Object_Tracker.thy ===== *)
theory Object_Tracker
  imports Match
begin

text \<open>
  Readiness expectations for one kind of object (\<open>pkg/readiness/object_tracker.go\<close>,
  \<open>objset.go\<close>, \<open>noop_expectations.go\<close>). Every method holds the tracker's lock, so each is one
  step; \<open>Satisfied\<close> takes the lock twice and is two steps, between which others may run. Go
  sets (\<open>map[objKey]struct{}\<close>) are sets; a freed (nil) map reads like an empty one.
\<close>

section \<open>Keys and objects\<close>

datatype objKey = ObjKey (key_gvk: GVK) (key_Namespace: string) (key_Name: string)

definition objKey_tuple :: "objKey \<Rightarrow> GVK \<times> string \<times> string" where
  "objKey_tuple k = (key_gvk k, key_Namespace k, key_Name k)"

lemma objKey_tuple_inject [simp]: "objKey_tuple i = objKey_tuple j \<longleftrightarrow> i = j"
  by (cases i; cases j) (simp add: objKey_tuple_def)

instantiation objKey :: linorder
begin

definition less_eq_objKey :: "objKey \<Rightarrow> objKey \<Rightarrow> bool" where
  "less_eq_objKey i j \<longleftrightarrow> objKey_tuple i \<le> objKey_tuple j"

definition less_objKey :: "objKey \<Rightarrow> objKey \<Rightarrow> bool" where
  "less_objKey i j \<longleftrightarrow> objKey_tuple i < objKey_tuple j"

instance
  by standard (auto simp: less_eq_objKey_def less_objKey_def less_le_not_le dest: order.antisym)

end

definition objKey_String :: "objKey \<Rightarrow> string" where
  "objKey_String k = key_Namespace k @ ''/'' @ key_Name k @ '' ['' @ GVK_String (key_gvk k) @ '']''"

text \<open>The objects the readiness code is given: templates (of either version) with the kind of
  their constraints, unstructured objects, other typed objects, and values that are no API
  objects. The flags say whether a deletion timestamp is set.\<close>

record ConstraintTemplate =
  ct_Kind :: string
  ct_Namespace :: string
  ct_Name :: string
  ct_deleting :: bool

datatype RuntimeObject =
    TemplateObject ConstraintTemplate
  | UnstructuredObject object bool
  | TypedObject GVK string string bool
  | NoObject

definition constraintGroup :: string where
  "constraintGroup = ''constraints.gatekeeper.sh''"

definition templateGVK :: GVK where
  "templateGVK = GVK ''templates.gatekeeper.sh'' ''v1beta1'' ''ConstraintTemplate''"

definition constraintGVK :: "string \<Rightarrow> GVK" where
  "constraintGVK kind = GVK constraintGroup (gvk_Version templateGVK) kind"

text \<open>\<open>Inl\<close> is an error. A template without the nested kind is not an error: the code wraps the
  nil error of the lookup, which is nil again, and returns the zero key.\<close>

definition objKeyFromObject :: "RuntimeObject \<Rightarrow> string + objKey" where
  "objKeyFromObject obj =
     (case obj of
        NoObject \<Rightarrow> Inl ''object does not implement the Object interfaces''
      | TemplateObject ct \<Rightarrow> Inr (ObjKey (constraintGVK (ct_Kind ct)) (ct_Namespace ct) (ct_Name ct))
      | TypedObject gvk ns name _ \<Rightarrow> Inr (ObjKey gvk ns name)
      | UnstructuredObject u _ \<Rightarrow>
          (let ugvk = GroupVersionKind u in
           if ugvk = templateGVK then
             (case NestedString u [''spec'', ''crd'', ''spec'', ''names'', ''kind''] of
                Inl e \<Rightarrow> Inl e
              | Inr None \<Rightarrow> Inr (ObjKey (GVK [] [] []) [] [])
              | Inr (Some cKind) \<Rightarrow> Inr (ObjKey (constraintGVK cKind) (GetNamespace u) (GetName u)))
           else Inr (ObjKey ugvk (GetNamespace u) (GetName u))))"

definition is_deleting :: "RuntimeObject \<Rightarrow> bool" where
  "is_deleting o' =
     (case o' of
        TemplateObject ct \<Rightarrow> ct_deleting ct
      | UnstructuredObject _ del \<Rightarrow> del
      | TypedObject _ _ _ del \<Rightarrow> del
      | NoObject \<Rightarrow> False)"

section \<open>The tracker\<close>

text \<open>\<open>decrementRetries\<close>: the new count, and whether to delete the entry.\<close>

definition decrementRetries :: "int \<Rightarrow> int \<times> bool" where
  "decrementRetries retries =
     (if retries < 0 then (retries, False)
      else if retries > 0 then (retries - 1, False)
      else (retries, True))"

record objectTracker =
  ot_gvk :: GVK
  canceled :: "objKey set"
  expected :: "objKey set"
  tryCanceled :: "(objKey, int) gomap"
  seen :: "objKey set"
  satisfied :: "objKey set"
  populated :: bool
  allSatisfied :: bool
  kindsSnapshot :: "GVK set"
  tryCancelObj :: int

definition newObjTracker :: "GVK \<Rightarrow> int \<Rightarrow> objectTracker" where
  "newObjTracker gvk retries =
     \<lparr>ot_gvk = gvk, canceled = {}, expected = {}, tryCanceled = [], seen = {}, satisfied = {},
      populated = False, allSatisfied = False, kindsSnapshot = {}, tryCancelObj = retries\<rparr>"

definition Expect :: "RuntimeObject \<Rightarrow> objectTracker \<Rightarrow> objectTracker" where
  "Expect obj t =
     (if populated t then t
      else if is_deleting obj then t
      else (case objKeyFromObject obj of
        Inl _ \<Rightarrow> t
      | Inr k \<Rightarrow>
          if k \<in> canceled t then t
          else if k \<in> seen t
          then t\<lparr>seen := seen t - {k}, expected := expected t - {k}, satisfied := insert k (satisfied t)\<rparr>
          else t\<lparr>expected := insert k (expected t)\<rparr>))"

definition cancelExpectNoLock :: "objKey \<Rightarrow> objectTracker \<Rightarrow> objectTracker" where
  "cancelExpectNoLock k t =
     t\<lparr>expected := expected t - {k}, seen := seen t - {k}, satisfied := satisfied t - {k},
       tryCanceled := mdel k (tryCanceled t), canceled := insert k (canceled t)\<rparr>"

definition CancelExpect :: "RuntimeObject \<Rightarrow> objectTracker \<Rightarrow> objectTracker" where
  "CancelExpect obj t =
     (if allSatisfied t then t
      else (case objKeyFromObject obj of Inl _ \<Rightarrow> t | Inr k \<Rightarrow> cancelExpectNoLock k t))"

definition TryCancelExpect :: "RuntimeObject \<Rightarrow> objectTracker \<Rightarrow> objectTracker \<times> bool" where
  "TryCancelExpect obj t =
     (if allSatisfied t then (t, False)
      else (case objKeyFromObject obj of
        Inl _ \<Rightarrow> (t, False)
      | Inr k \<Rightarrow>
          (let retries = (case mget (tryCanceled t) k of Some r \<Rightarrow> r | None \<Rightarrow> tryCancelObj t);
               (retries', shouldDel) = decrementRetries retries;
               t' = t\<lparr>tryCanceled := mput k retries' (tryCanceled t)\<rparr>
           in (if shouldDel then cancelExpectNoLock k t' else t', shouldDel))))"

definition ExpectationsDone :: "objectTracker \<Rightarrow> objectTracker" where
  "ExpectationsDone t = t\<lparr>populated := True\<rparr>"

definition unsatisfied :: "objectTracker \<Rightarrow> objKey set" where
  "unsatisfied t = {k \<in> expected t. k \<notin> satisfied t}"

definition Observe :: "RuntimeObject \<Rightarrow> objectTracker \<Rightarrow> objectTracker" where
  "Observe obj t =
     (if allSatisfied t then t
      else (case objKeyFromObject obj of
        Inl _ \<Rightarrow> t
      | Inr k \<Rightarrow>
          if k \<in> canceled t then t
          else if k \<in> satisfied t then t
          else if k \<in> expected t
          then t\<lparr>seen := seen t - {k}, expected := expected t - {k}, satisfied := insert k (satisfied t)\<rparr>
          else if populated t then t\<lparr>seen := seen t - {k}\<rparr>
          else t\<lparr>seen := insert k (seen t)\<rparr>))"

definition kindsNoLock :: "objectTracker \<Rightarrow> GVK set" where
  "kindsNoLock t =
     (if kindsSnapshot t \<noteq> {} then kindsSnapshot t else key_gvk ` (satisfied t \<union> expected t))"

text \<open>The two critical sections of \<open>Satisfied\<close>: the first reads whether the circuit breaker has
  tripped and whether there is anything to do; the second resolves and trips.\<close>

definition Satisfied_read :: "objectTracker \<Rightarrow> bool \<times> bool" where
  "Satisfied_read t =
     (let resolvable = seen t \<noteq> {} \<and> expected t \<noteq> {};
          needMutate = \<not> allSatisfied t \<and> populated t \<and> (resolvable \<or> expected t = {})
      in (allSatisfied t, needMutate))"

definition Satisfied_write :: "objectTracker \<Rightarrow> objectTracker \<times> bool" where
  "Satisfied_write t =
     (let both = seen t \<inter> expected t;
          t1 = t\<lparr>seen := seen t - both, expected := expected t - both, satisfied := satisfied t \<union> both\<rparr>;
          t2 = (if populated t1 \<and> expected t1 = {}
                then t1\<lparr>allSatisfied := True, kindsSnapshot := kindsNoLock t1, seen := {}, expected := {},
                  satisfied := {}, canceled := {}, tryCanceled := []\<rparr>
                else t1)
      in (t2, allSatisfied t2))"

definition Satisfied :: "objectTracker \<Rightarrow> objectTracker \<times> bool" where
  "Satisfied t =
     (let (sat, needMutate) = Satisfied_read t in
      if sat then (t, True)
      else if \<not> needMutate then (t, False)
      else Satisfied_write t)"

definition kinds :: "objectTracker \<Rightarrow> GVK set" where
  "kinds t = kindsNoLock t"

definition IsExpecting :: "GVK \<Rightarrow> string \<Rightarrow> string \<Rightarrow> objectTracker \<Rightarrow> bool" where
  "IsExpecting gvk ns name t =
     (let k = ObjKey gvk ns name in if k \<in> expected t then True else if k \<in> satisfied t then True else False)"

section \<open>Histories\<close>

text \<open>The calls a tracker can receive. \<open>EvCheck\<close> is the first half of \<open>Satisfied\<close> followed
  by the second without interruption, \<open>EvWrite\<close> a second half that was delayed.\<close>

datatype event =
    EvExpect RuntimeObject
  | EvCancel RuntimeObject
  | EvTryCancel RuntimeObject
  | EvObserve RuntimeObject
  | EvDone
  | EvCheck
  | EvWrite

fun ot_step :: "event \<Rightarrow> objectTracker \<Rightarrow> objectTracker" where
  "ot_step (EvExpect o') t = Expect o' t"
| "ot_step (EvCancel o') t = CancelExpect o' t"
| "ot_step (EvTryCancel o') t = fst (TryCancelExpect o' t)"
| "ot_step (EvObserve o') t = Observe o' t"
| "ot_step EvDone t = ExpectationsDone t"
| "ot_step EvCheck t = fst (Satisfied t)"
| "ot_step EvWrite t = fst (Satisfied_write t)"

definition ot_run :: "event list \<Rightarrow> objectTracker \<Rightarrow> objectTracker" where
  "ot_run es t = fold ot_step es t"

definition has_key :: "objKey \<Rightarrow> RuntimeObject \<Rightarrow> bool" where
  "has_key k o' \<longleftrightarrow> objKeyFromObject o' = Inr k"

text \<open>What a history says about a key: expected in time, observed, or given up (cancelled, or
  tried more often than the retries allow).\<close>

definition expected_in :: "event list \<Rightarrow> objKey \<Rightarrow> bool" where
  "expected_in es k \<longleftrightarrow>
     (\<exists>o'. EvExpect o' \<in> set (takeWhile (\<lambda>e. e \<noteq> EvDone) es) \<and> has_key k o' \<and> \<not> is_deleting o')"

definition observed_in :: "event list \<Rightarrow> objKey \<Rightarrow> bool" where
  "observed_in es k \<longleftrightarrow> (\<exists>o'. EvObserve o' \<in> set es \<and> has_key k o')"

definition tries_in :: "event list \<Rightarrow> objKey \<Rightarrow> nat" where
  "tries_in es k = length (filter (\<lambda>e. case e of EvTryCancel o' \<Rightarrow> has_key k o' | _ \<Rightarrow> False) es)"

definition given_up_in :: "int \<Rightarrow> event list \<Rightarrow> objKey \<Rightarrow> bool" where
  "given_up_in retries es k \<longleftrightarrow>
     (\<exists>o'. EvCancel o' \<in> set es \<and> has_key k o') \<or> (0 \<le> retries \<and> retries < int (tries_in es k))"

text \<open>The relation between the state of a tracker and its history.\<close>

definition tries_left :: "int \<Rightarrow> nat \<Rightarrow> int option \<Rightarrow> bool" where
  "tries_left r tries left \<longleftrightarrow>
     (case left of
        None \<Rightarrow> tries = 0
      | Some n \<Rightarrow> (0 \<le> r \<longrightarrow> 0 \<le> n \<and> n = r - int tries) \<and> (r < 0 \<longrightarrow> n = r))"

definition ot_inv :: "int \<Rightarrow> event list \<Rightarrow> objectTracker \<Rightarrow> bool" where
  "ot_inv r es t \<longleftrightarrow>
     tryCancelObj t = r \<and> (populated t \<longleftrightarrow> EvDone \<in> set es) \<and> (allSatisfied t \<longrightarrow> populated t) \<and>
     (allSatisfied t \<longrightarrow> (\<forall>k. expected_in es k \<longrightarrow> observed_in es k \<or> given_up_in r es k)) \<and>
     (\<not> allSatisfied t \<longrightarrow>
       (\<forall>k. expected_in es k \<longrightarrow> k \<in> expected t \<union> satisfied t \<union> canceled t) \<and>
       (\<forall>k \<in> satisfied t \<union> seen t. observed_in es k) \<and>
       (\<forall>k \<in> canceled t. given_up_in r es k) \<and>
       (\<forall>k. k \<notin> canceled t \<longrightarrow> tries_left r (tries_in es k) (mget (tryCanceled t) k)))"


subsection \<open>Extending a history\<close>

lemma takeWhile_Done_snoc:
  "set (takeWhile (\<lambda>e. e \<noteq> EvDone) (es @ [e])) =
    (if EvDone \<in> set es then set (takeWhile (\<lambda>e. e \<noteq> EvDone) es)
     else set es \<union> (if e = EvDone then {} else {e}))"
  by (induction es) auto

lemma takeWhile_no_Done: "EvDone \<notin> set es \<Longrightarrow> takeWhile (\<lambda>e. e \<noteq> EvDone) es = es"
  by (induction es) auto

lemma expected_in_snoc:
  "expected_in (es @ [e]) k \<longleftrightarrow> expected_in es k \<or>
    (EvDone \<notin> set es \<and> (\<exists>o'. e = EvExpect o' \<and> has_key k o' \<and> \<not> is_deleting o'))"
  unfolding expected_in_def takeWhile_Done_snoc by (auto simp: takeWhile_no_Done)

lemma observed_in_snoc:
  "observed_in (es @ [e]) k \<longleftrightarrow> observed_in es k \<or> (\<exists>o'. e = EvObserve o' \<and> has_key k o')"
  by (auto simp: observed_in_def)

lemma tries_in_snoc:
  "tries_in (es @ [e]) k = tries_in es k + (if \<exists>o'. e = EvTryCancel o' \<and> has_key k o' then 1 else 0)"
  by (auto simp: tries_in_def split: event.splits)

lemma given_up_in_snoc:
  "given_up_in r (es @ [e]) k \<longleftrightarrow> given_up_in r es k \<or> (\<exists>o'. e = EvCancel o' \<and> has_key k o') \<or>
    (\<exists>o'. e = EvTryCancel o' \<and> has_key k o' \<and> 0 \<le> r \<and> r \<le> int (tries_in es k))"
  by (auto simp: given_up_in_def tries_in_snoc)

lemmas history_snoc = expected_in_snoc observed_in_snoc given_up_in_snoc tries_in_snoc

lemma ot_inv_frozen:
  assumes "ot_inv r es t" "allSatisfied t" "ot_step e t = t"
  shows "ot_inv r (es @ [e]) (ot_step e t)"
  using assms unfolding ot_inv_def by (auto simp: history_snoc ExpectationsDone_def)

lemma frozen_steps:
  assumes "allSatisfied t" "populated t"
  shows "ot_step (EvExpect o') t = t" "ot_step (EvCancel o') t = t" "ot_step (EvTryCancel o') t = t"
    "ot_step (EvObserve o') t = t" "ot_step EvDone t = t" "ot_step EvCheck t = t"
  using assms
  by (simp_all add: Expect_def CancelExpect_def TryCancelExpect_def Observe_def ExpectationsDone_def
      Satisfied_def Satisfied_read_def)

lemma ot_inv_Expect:
  assumes "ot_inv r es t" "\<not> allSatisfied t"
  shows "ot_inv r (es @ [EvExpect o']) (Expect o' t)"
proof (cases "objKeyFromObject o'")
  case (Inl e)
  then have "Expect o' t = t" by (simp add: Expect_def)
  then show ?thesis using assms Inl unfolding ot_inv_def by (auto simp: history_snoc has_key_def)
next
  case (Inr k)
  then show ?thesis
    using assms unfolding ot_inv_def by (auto simp: history_snoc has_key_def Expect_def)
qed

lemma ot_inv_Observe:
  assumes "ot_inv r es t" "\<not> allSatisfied t"
  shows "ot_inv r (es @ [EvObserve o']) (Observe o' t)"
proof (cases "objKeyFromObject o'")
  case (Inl e)
  then have "Observe o' t = t" by (simp add: Observe_def)
  then show ?thesis using assms Inl unfolding ot_inv_def by (auto simp: history_snoc has_key_def)
next
  case (Inr k)
  then show ?thesis
    using assms unfolding ot_inv_def by (auto simp: history_snoc has_key_def Observe_def)
qed

lemma ot_inv_Cancel:
  assumes "ot_inv r es t" "\<not> allSatisfied t"
  shows "ot_inv r (es @ [EvCancel o']) (CancelExpect o' t)"
proof (cases "objKeyFromObject o'")
  case (Inl e)
  then have "CancelExpect o' t = t" by (simp add: CancelExpect_def)
  then show ?thesis using assms Inl unfolding ot_inv_def by (auto simp: history_snoc has_key_def)
next
  case (Inr k)
  then show ?thesis
    using assms unfolding ot_inv_def
    by (auto simp: history_snoc has_key_def CancelExpect_def cancelExpectNoLock_def)
qed

lemma tries_left_decrement:
  assumes "tries_left r n left" "decrementRetries (case left of Some m \<Rightarrow> m | None \<Rightarrow> r) = (m', b)"
  shows "b \<Longrightarrow> 0 \<le> r \<and> r \<le> int n" "\<not> b \<Longrightarrow> tries_left r (Suc n) (Some m')"
  using assms by (auto simp: tries_left_def decrementRetries_def split: option.splits if_splits)

lemma ot_inv_TryCancel:
  assumes "ot_inv r es t" "\<not> allSatisfied t"
  shows "ot_inv r (es @ [EvTryCancel o']) (fst (TryCancelExpect o' t))"
proof (cases "objKeyFromObject o'")
  case (Inl e)
  then have "fst (TryCancelExpect o' t) = t" by (simp add: TryCancelExpect_def)
  then show ?thesis using assms Inl unfolding ot_inv_def by (auto simp: history_snoc has_key_def)
next
  case (Inr k)
  define left where "left = (case mget (tryCanceled t) k of Some n \<Rightarrow> n | None \<Rightarrow> r)"
  obtain m b where d: "decrementRetries left = (m, b)" by (cases "decrementRetries left")
  have inv: "tryCancelObj t = r" "k \<notin> canceled t \<Longrightarrow> tries_left r (tries_in es k) (mget (tryCanceled t) k)"
    using assms by (auto simp: ot_inv_def)
  have "fst (TryCancelExpect o' t) =
      (if b then cancelExpectNoLock k (t\<lparr>tryCanceled := mput k m (tryCanceled t)\<rparr>)
       else t\<lparr>tryCanceled := mput k m (tryCanceled t)\<rparr>)"
    using Inr assms(2) d inv(1) by (simp add: TryCancelExpect_def Let_def left_def cong: option.case_cong)
  moreover have "k \<notin> canceled t \<Longrightarrow> b \<Longrightarrow> 0 \<le> r \<and> r \<le> int (tries_in es k)"
    "k \<notin> canceled t \<Longrightarrow> \<not> b \<Longrightarrow> tries_left r (Suc (tries_in es k)) (Some m)"
    using tries_left_decrement [OF inv(2) d [unfolded left_def]] by auto
  ultimately show ?thesis
    using assms Inr unfolding ot_inv_def
    by (cases b) (auto simp: history_snoc has_key_def cancelExpectNoLock_def)
qed

lemma ot_inv_Write:
  assumes "ot_inv r es t"
  shows "ot_inv r (es @ [EvWrite]) (fst (Satisfied_write t))"
proof (cases "allSatisfied t")
  case True
  then show ?thesis
    using assms unfolding ot_inv_def by (auto simp: history_snoc Satisfied_write_def Let_def)
next
  case False
  have sound: "observed_in es k \<or> given_up_in r es k"
    if "expected_in es k" "expected t \<subseteq> seen t" for k
    using assms False that unfolding ot_inv_def by blast
  show ?thesis
    using assms False sound unfolding ot_inv_def
    by (auto simp: history_snoc Satisfied_write_def Let_def)
qed

lemma ot_inv_Check:
  assumes "ot_inv r es t"
  shows "ot_inv r (es @ [EvCheck]) (fst (Satisfied t))"
proof -
  have "ot_inv r (es @ [EvCheck]) t"
    using assms unfolding ot_inv_def by (auto simp: history_snoc)
  moreover have "ot_inv r (es @ [EvCheck]) (fst (Satisfied_write t))"
    using ot_inv_Write [OF assms] unfolding ot_inv_def by (auto simp: history_snoc)
  ultimately show ?thesis by (simp add: Satisfied_def Let_def split: prod.split)
qed

lemma ot_inv_Done:
  "ot_inv r es t \<Longrightarrow> \<not> allSatisfied t \<Longrightarrow> ot_inv r (es @ [EvDone]) (ExpectationsDone t)"
  unfolding ot_inv_def by (auto simp: history_snoc ExpectationsDone_def)

lemma ot_inv_step:
  assumes "ot_inv r es t"
  shows "ot_inv r (es @ [e]) (ot_step e t)"
proof (cases "allSatisfied t")
  case True
  then have "populated t" using assms unfolding ot_inv_def by blast
  then show ?thesis
    using ot_inv_frozen [OF assms True] frozen_steps [OF True] ot_inv_Write [OF assms] by (cases e) simp_all
next
  case False
  then show ?thesis
    using ot_inv_Expect ot_inv_Cancel ot_inv_TryCancel ot_inv_Observe ot_inv_Done ot_inv_Check ot_inv_Write assms
    by (cases e) simp_all
qed

lemma ot_inv_new: "ot_inv r [] (newObjTracker g r)"
  by (simp add: ot_inv_def newObjTracker_def expected_in_def tries_in_def tries_left_def)

lemma ot_inv_run: "ot_inv r es (ot_run es (newObjTracker g r))"
proof (induction es rule: rev_induct)
  case (snoc e es)
  then show ?case using ot_inv_step by (simp add: ot_run_def)
qed (simp add: ot_inv_new ot_run_def)

section \<open>The circuit breaker\<close>

lemma allSatisfied_step:
  assumes "allSatisfied t" "populated t"
  shows "allSatisfied (ot_step e t)" "populated (ot_step e t)"
  using frozen_steps [OF assms] assms by (cases e; simp add: Satisfied_write_def Let_def)+

lemma allSatisfied_run:
  "allSatisfied t \<Longrightarrow> populated t \<Longrightarrow> allSatisfied (ot_run es t) \<and> populated (ot_run es t)"
  unfolding ot_run_def by (induction es arbitrary: t) (auto dest: allSatisfied_step)

lemma Satisfied_iff:
  "snd (Satisfied t) \<longleftrightarrow> allSatisfied t \<or> (populated t \<and> expected t \<subseteq> seen t)"
  by (auto simp: Satisfied_def Satisfied_read_def Satisfied_write_def Let_def)

lemma Satisfied_allSatisfied: "allSatisfied (fst (Satisfied t)) = snd (Satisfied t)"
  by (auto simp: Satisfied_def Satisfied_read_def Satisfied_write_def Let_def)

lemma Satisfied_populated: "populated (fst (Satisfied t)) = populated t"
  by (auto simp: Satisfied_def Satisfied_read_def Satisfied_write_def Let_def)


section \<open>Completeness: when a tracker does become satisfied\<close>

text \<open>How often a key is expected in time. The invariant below is the converse of \<open>ot_inv\<close>: a
  key that is still expected has been neither observed nor given up, as long as no key is
  expected twice.\<close>

definition expect_count :: "event list \<Rightarrow> objKey \<Rightarrow> nat" where
  "expect_count es k =
     length (filter (\<lambda>e. case e of EvExpect o' \<Rightarrow> has_key k o' \<and> \<not> is_deleting o' | _ \<Rightarrow> False)
       (takeWhile (\<lambda>e. e \<noteq> EvDone) es))"

definition live_inv :: "int \<Rightarrow> event list \<Rightarrow> objectTracker \<Rightarrow> bool" where
  "live_inv r es t \<longleftrightarrow>
     (\<not> allSatisfied t \<longrightarrow>
       (\<forall>k \<in> expected t. \<not> observed_in es k \<and> \<not> given_up_in r es k \<and> expected_in es k) \<and>
       (\<forall>k. \<not> populated t \<and> observed_in es k \<longrightarrow> k \<in> seen t \<union> satisfied t \<union> canceled t) \<and>
       (\<forall>k \<in> satisfied t. 0 < expect_count es k) \<and>
       (\<forall>k. given_up_in r es k \<longrightarrow> k \<in> canceled t))"

lemma takeWhile_snoc:
  "takeWhile P (xs @ [x]) = (if \<forall>y \<in> set xs. P y then xs @ (if P x then [x] else []) else takeWhile P xs)"
  by (induction xs) auto

lemma expect_count_snoc:
  "expect_count (es @ [e]) k = expect_count es k +
    (if EvDone \<notin> set es \<and> (\<exists>o'. e = EvExpect o' \<and> has_key k o' \<and> \<not> is_deleting o') then 1 else 0)"
proof (cases "EvDone \<in> set es")
  case True
  then have "takeWhile (\<lambda>e. e \<noteq> EvDone) (es @ [e]) = takeWhile (\<lambda>e. e \<noteq> EvDone) es"
    by (auto simp: takeWhile_snoc)
  then show ?thesis using True by (simp add: expect_count_def)
next
  case False
  then have "takeWhile (\<lambda>e. e \<noteq> EvDone) (es @ [e]) = es @ (if e = EvDone then [] else [e])"
    by (auto simp: takeWhile_snoc)
  moreover from False have "takeWhile (\<lambda>e. e \<noteq> EvDone) es = es" by (rule takeWhile_no_Done)
  ultimately show ?thesis using False
    by (auto simp: expect_count_def simp del: takeWhile_eq_all_conv split: event.splits)
qed

lemma populated_iff: "ot_inv r es t \<Longrightarrow> populated t \<longleftrightarrow> EvDone \<in> set es"
  unfolding ot_inv_def by blast

lemmas live_snoc = history_snoc expect_count_snoc

lemma live_Expect:
  assumes "ot_inv r es t" "live_inv r es t" "\<forall>k. expect_count (es @ [EvExpect o']) k \<le> 1" "\<not> allSatisfied t"
  shows "live_inv r (es @ [EvExpect o']) (Expect o' t)"
proof (cases "objKeyFromObject o'")
  case (Inl e)
  then have "Expect o' t = t" by (simp add: Expect_def)
  then show ?thesis using assms Inl unfolding live_inv_def by (auto simp: live_snoc has_key_def)
next
  case (Inr k)
  note pop = populated_iff [OF assms(1)]
  have fresh: "\<not> populated t \<Longrightarrow> \<not> is_deleting o' \<Longrightarrow> expect_count es k = 0"
    using assms(3) [THEN spec, of k] Inr pop by (simp add: expect_count_snoc has_key_def)
  moreover have "expect_count es k = 0 \<Longrightarrow> k \<notin> satisfied t"
    using assms(2,4) unfolding live_inv_def by fastforce
  ultimately show ?thesis
    using assms(2,4) Inr pop unfolding live_inv_def
    by (auto simp: live_snoc has_key_def Expect_def)
qed

lemma live_Observe:
  assumes "live_inv r es t" "\<not> allSatisfied t" "ot_inv r es t"
  shows "live_inv r (es @ [EvObserve o']) (Observe o' t)"
proof (cases "objKeyFromObject o'")
  case (Inl e)
  then have "Observe o' t = t" by (simp add: Observe_def)
  then show ?thesis using assms Inl unfolding live_inv_def by (auto simp: live_snoc has_key_def)
next
  case (Inr k)
  have "expected_in es k \<Longrightarrow> 0 < expect_count es k"
    unfolding expected_in_def expect_count_def by (force simp: filter_empty_conv)
  moreover have "k \<in> expected t \<Longrightarrow> k \<notin> satisfied t \<union> canceled t"
    using assms unfolding live_inv_def ot_inv_def by blast
  ultimately show ?thesis
    using assms(1,2) Inr unfolding live_inv_def by (auto simp: live_snoc has_key_def Observe_def)
qed

lemma live_Cancel:
  assumes "live_inv r es t" "\<not> allSatisfied t"
  shows "live_inv r (es @ [EvCancel o']) (CancelExpect o' t)"
proof (cases "objKeyFromObject o'")
  case (Inl e)
  then have "CancelExpect o' t = t" by (simp add: CancelExpect_def)
  then show ?thesis using assms Inl unfolding live_inv_def by (auto simp: live_snoc has_key_def)
next
  case (Inr k)
  then show ?thesis
    using assms unfolding live_inv_def
    by (auto simp: live_snoc has_key_def CancelExpect_def cancelExpectNoLock_def)
qed


lemma live_TryCancel:
  assumes "ot_inv r es t" "live_inv r es t" "\<not> allSatisfied t"
  shows "live_inv r (es @ [EvTryCancel o']) (fst (TryCancelExpect o' t))"
proof (cases "objKeyFromObject o'")
  case (Inl e)
  then have "fst (TryCancelExpect o' t) = t" by (simp add: TryCancelExpect_def)
  then show ?thesis using assms Inl unfolding live_inv_def by (auto simp: live_snoc has_key_def)
next
  case (Inr k)
  define left where "left = (case mget (tryCanceled t) k of Some n \<Rightarrow> n | None \<Rightarrow> r)"
  obtain m b where d: "decrementRetries left = (m, b)" by (cases "decrementRetries left")
  have inv: "tryCancelObj t = r" "k \<notin> canceled t \<Longrightarrow> tries_left r (tries_in es k) (mget (tryCanceled t) k)"
    using assms by (auto simp: ot_inv_def)
  have "fst (TryCancelExpect o' t) =
      (if b then cancelExpectNoLock k (t\<lparr>tryCanceled := mput k m (tryCanceled t)\<rparr>)
       else t\<lparr>tryCanceled := mput k m (tryCanceled t)\<rparr>)"
    using Inr assms(3) d inv(1) by (simp add: TryCancelExpect_def Let_def left_def cong: option.case_cong)
  moreover have "k \<notin> canceled t \<Longrightarrow> \<not> b \<Longrightarrow> \<not> (0 \<le> r \<and> r \<le> int (tries_in es k))"
    using inv(2) d unfolding left_def
    by (auto simp: tries_left_def decrementRetries_def split: option.splits if_splits)
  moreover have "k \<in> expected t \<Longrightarrow> k \<notin> canceled t"
    using assms unfolding live_inv_def ot_inv_def by blast
  ultimately show ?thesis
    using assms(2,3) Inr unfolding live_inv_def
    by (cases b) (auto simp: live_snoc has_key_def cancelExpectNoLock_def)
qed

lemma live_Write:
  assumes "ot_inv r es t" "live_inv r es t"
  shows "live_inv r (es @ [EvWrite]) (fst (Satisfied_write t))"
proof -
  have "k \<in> expected t \<Longrightarrow> k \<notin> seen t" if "\<not> allSatisfied t" for k
    using assms that unfolding live_inv_def ot_inv_def by blast
  then show ?thesis
    using assms(2) unfolding live_inv_def
    by (auto simp: live_snoc Satisfied_write_def Let_def)
qed

lemma live_Check:
  assumes "ot_inv r es t" "live_inv r es t"
  shows "live_inv r (es @ [EvCheck]) (fst (Satisfied t))"
proof -
  have "live_inv r (es @ [EvCheck]) t"
    using assms unfolding live_inv_def by (auto simp: live_snoc)
  moreover have "live_inv r (es @ [EvCheck]) (fst (Satisfied_write t))"
    using live_Write [OF assms] unfolding live_inv_def by (auto simp: live_snoc)
  ultimately show ?thesis by (simp add: Satisfied_def Let_def split: prod.split)
qed

lemma live_Done:
  "live_inv r es t \<Longrightarrow> live_inv r (es @ [EvDone]) (ExpectationsDone t)"
  unfolding live_inv_def by (auto simp: live_snoc ExpectationsDone_def)

lemma live_step:
  assumes "ot_inv r es t" "live_inv r es t" "\<forall>k. expect_count (es @ [e]) k \<le> 1"
  shows "live_inv r (es @ [e]) (ot_step e t)"
proof (cases "allSatisfied t")
  case True
  moreover have "populated t" using assms(1) True unfolding ot_inv_def by blast
  ultimately have "allSatisfied (ot_step e t)" by (rule allSatisfied_step(1))
  then show ?thesis by (simp add: live_inv_def)
next
  case False
  then show ?thesis
    using assms
    by (cases e) (simp_all add: live_Expect live_Cancel live_TryCancel live_Observe live_Done live_Check live_Write
        del: One_nat_def)
qed

lemma live_inv_run:
  "\<forall>k. expect_count es k \<le> 1 \<Longrightarrow> live_inv r es (ot_run es (newObjTracker g r))"
proof (induction es rule: rev_induct)
  case Nil
  then show ?case
    by (simp add: live_inv_def newObjTracker_def ot_run_def observed_in_def given_up_in_def tries_in_def)
next
  case (snoc e es)
  have "expect_count es k \<le> expect_count (es @ [e]) k" for k by (simp add: expect_count_snoc)
  then have "\<forall>k. expect_count es k \<le> 1" using snoc.prems le_trans by blast
  then show ?case
    using snoc live_step [OF ot_inv_run] by (metis fold_append fold_simps comp_apply ot_run_def)
qed

text \<open>The answers of a tracker against its history: sound always, and exact when each key is
  expected at most once.\<close>

lemma Satisfied_history_sound:
  assumes "snd (Satisfied (ot_run es (newObjTracker g r)))"
  shows "EvDone \<in> set es \<and> (\<forall>k. expected_in es k \<longrightarrow> observed_in es k \<or> given_up_in r es k)"
proof -
  let ?t = "ot_run es (newObjTracker g r)"
  have "allSatisfied (fst (Satisfied ?t))" using assms by (simp add: Satisfied_allSatisfied)
  then show ?thesis
    using ot_inv_Check [OF ot_inv_run [of r es g]] unfolding ot_inv_def by (auto simp: history_snoc)
qed

lemma Satisfied_history_iff:
  assumes "\<forall>k. expect_count es k \<le> 1"
  shows "snd (Satisfied (ot_run es (newObjTracker g r))) \<longleftrightarrow>
    EvDone \<in> set es \<and> (\<forall>k. expected_in es k \<longrightarrow> observed_in es k \<or> given_up_in r es k)"
  using Satisfied_history_sound ot_inv_run [of r es g] live_inv_run [OF assms, of r g]
    populated_iff [OF ot_inv_run [of r es g]]
  unfolding live_inv_def Satisfied_iff by blast

section \<open>The interface\<close>

text \<open>
  What the clients of an \<open>Expectations\<close> rely on, whatever its implementation: the calls
  (\<open>step\<close>) keep the invariant, an answer \<open>true\<close> of \<open>Satisfied\<close> needs a populated tracker and is
  never taken back, and \<open>ExpectationsDone\<close> populates for good.
\<close>

locale expectations =
  fixes inv :: "'s \<Rightarrow> bool"
    and step :: "event \<Rightarrow> 's \<Rightarrow> 's"
    and sat :: "'s \<Rightarrow> 's \<times> bool"
    and pop :: "'s \<Rightarrow> bool"
  assumes inv_step: "inv s \<Longrightarrow> inv (step e s)"
    and check_sat: "step EvCheck s = fst (sat s)"
    and sat_idem: "inv s \<Longrightarrow> snd (sat s) \<Longrightarrow> sat (fst (sat s)) = sat s"
    and sat_step: "inv s \<Longrightarrow> sat s = (s, True) \<Longrightarrow> sat (step e s) = (step e s, True)"
    and sat_pop: "inv s \<Longrightarrow> snd (sat s) \<Longrightarrow> pop s"
    and done_pop: "inv s \<Longrightarrow> pop (step EvDone s)"
    and pop_step: "inv s \<Longrightarrow> pop s \<Longrightarrow> pop (step e s)"
begin

lemma inv_run: "inv s \<Longrightarrow> inv (fold step es s)"
  by (induction es arbitrary: s) (auto intro: inv_step)

lemma pop_run: "inv s \<Longrightarrow> pop s \<Longrightarrow> pop (fold step es s)"
  by (induction es arbitrary: s) (auto intro: inv_step pop_step)

lemma populated_after_done: "inv s \<Longrightarrow> EvDone \<in> set es \<Longrightarrow> pop (fold step es s)"
proof (induction es arbitrary: s)
  case (Cons e es)
  then show ?case by (cases "e = EvDone") (auto intro: inv_step done_pop pop_run)
qed simp

text \<open>Satisfied is a latch: the answers that follow are true, with any calls in between.\<close>

lemma sat_run: "inv s \<Longrightarrow> sat s = (s, True) \<Longrightarrow> sat (fold step es s) = (fold step es s, True)"
  by (induction es arbitrary: s) (auto intro: inv_step sat_step)

lemma sat_latch:
  assumes "inv s" "snd (sat s)"
  shows "snd (sat (fold step es (fst (sat s))))"
proof -
  have "sat (fst (sat s)) = (fst (sat s), True)"
    using sat_idem [OF assms] assms(2) by (metis prod.collapse)
  moreover have "inv (fst (sat s))" using assms(1) inv_step check_sat by metis
  ultimately show ?thesis using sat_run by simp
qed

end

definition latch_ok :: "objectTracker \<Rightarrow> bool" where
  "latch_ok t \<longleftrightarrow> (allSatisfied t \<longrightarrow> populated t)"

lemma populated_step: "populated t \<Longrightarrow> populated (ot_step e t)"
  by (cases e)
    (auto simp: Expect_def CancelExpect_def cancelExpectNoLock_def TryCancelExpect_def Observe_def
      ExpectationsDone_def Satisfied_populated Satisfied_write_def Let_def split: sum.split prod.split)

lemma allSatisfied_cases:
  "allSatisfied (ot_step e t) \<Longrightarrow> allSatisfied t \<or> populated t"
  by (cases e)
    (auto simp: Expect_def CancelExpect_def cancelExpectNoLock_def TryCancelExpect_def Observe_def
      ExpectationsDone_def Satisfied_allSatisfied Satisfied_iff Satisfied_write_def Let_def
      split: sum.splits prod.splits if_splits)

lemma latch_ok_step: "latch_ok t \<Longrightarrow> latch_ok (ot_step e t)"
  using allSatisfied_cases populated_step unfolding latch_ok_def by blast

lemma Satisfied_latched: "allSatisfied t \<Longrightarrow> Satisfied t = (t, True)"
  by (simp add: Satisfied_def Satisfied_read_def)

interpretation ot: expectations latch_ok ot_step Satisfied populated
proof
  show "latch_ok t \<Longrightarrow> latch_ok (ot_step e t)" for t e by (rule latch_ok_step)
  show "ot_step EvCheck t = fst (Satisfied t)" for t by simp
  show "Satisfied (fst (Satisfied t)) = Satisfied t" if "snd (Satisfied t)" for t
    using that Satisfied_latched [of "fst (Satisfied t)"] by (simp add: Satisfied_allSatisfied prod_eq_iff)
  show "Satisfied (ot_step e t) = (ot_step e t, True)" if "latch_ok t" "Satisfied t = (t, True)" for t e
  proof -
    have "allSatisfied t" using that(2) Satisfied_allSatisfied [of t] by simp
    with that(1) have "allSatisfied (ot_step e t)" using allSatisfied_step unfolding latch_ok_def by blast
    then show ?thesis by (rule Satisfied_latched)
  qed
  show "populated t" if "latch_ok t" "snd (Satisfied t)" for t
    using that by (auto simp: Satisfied_iff latch_ok_def)
  show "populated (ot_step EvDone t)" for t by (simp add: ExpectationsDone_def)
  show "populated t \<Longrightarrow> populated (ot_step e t)" for t e by (rule populated_step)
qed

section \<open>Retries\<close>

text \<open>The answers of \<open>n\<close> calls of \<open>TryCancelExpect\<close> for one object.\<close>

fun try_cancels :: "nat \<Rightarrow> RuntimeObject \<Rightarrow> objectTracker \<Rightarrow> bool list" where
  "try_cancels 0 o' t = []"
| "try_cancels (Suc n) o' t = (let (t', b) = TryCancelExpect o' t in b # try_cancels n o' t')"

lemma TryCancelExpect_left:
  assumes "\<not> allSatisfied t" "has_key k o'" "(case mget (tryCanceled t) k of Some m \<Rightarrow> m | None \<Rightarrow> tryCancelObj t) = left"
    "left \<noteq> 0"
  shows "TryCancelExpect o' t =
    (t\<lparr>tryCanceled := mput k (if left < 0 then left else left - 1) (tryCanceled t)\<rparr>, False)"
  using assms by (auto simp: TryCancelExpect_def has_key_def decrementRetries_def Let_def)

lemma TryCancelExpect_last:
  assumes "\<not> allSatisfied t" "has_key k o'" "(case mget (tryCanceled t) k of Some m \<Rightarrow> m | None \<Rightarrow> tryCancelObj t) = 0"
  shows "TryCancelExpect o' t =
    (cancelExpectNoLock k (t\<lparr>tryCanceled := mput k 0 (tryCanceled t)\<rparr>), True)"
  using assms by (auto simp: TryCancelExpect_def has_key_def decrementRetries_def Let_def)

lemma try_cancels_left:
  assumes "\<not> allSatisfied t" "has_key k o'"
    "(case mget (tryCanceled t) k of Some m \<Rightarrow> m | None \<Rightarrow> tryCancelObj t) = int r"
  shows "try_cancels (Suc r) o' t = replicate r False @ [True]"
  using assms
proof (induction r arbitrary: t)
  case 0
  then show ?case by (simp add: TryCancelExpect_last)
next
  case (Suc r)
  let ?t = "t\<lparr>tryCanceled := mput k (int r) (tryCanceled t)\<rparr>"
  have "TryCancelExpect o' t = (?t, False)"
    using TryCancelExpect_left [OF Suc.prems] by simp
  moreover have "try_cancels (Suc r) o' ?t = replicate r False @ [True]"
    by (rule Suc.IH) (use Suc.prems in simp_all)
  ultimately show ?case by (simp del: try_cancels.simps add: try_cancels.simps(2) [of "Suc r"])
qed

lemma try_cancels_unbounded:
  assumes "\<not> allSatisfied t" "has_key k o'"
    "(case mget (tryCanceled t) k of Some m \<Rightarrow> m | None \<Rightarrow> tryCancelObj t) = left" "left < 0"
  shows "try_cancels n o' t = replicate n False"
  using assms
proof (induction n arbitrary: t)
  case (Suc n)
  let ?t = "t\<lparr>tryCanceled := mput k left (tryCanceled t)\<rparr>"
  have "TryCancelExpect o' t = (?t, False)"
    using TryCancelExpect_left [OF Suc.prems(1-3)] Suc.prems(4) by simp
  moreover have "try_cancels n o' ?t = replicate n False"
    by (rule Suc.IH) (use Suc.prems in simp_all)
  ultimately show ?case by simp
qed simp

end
