(* ===== verification/Sync_Util.thy ===== *)
theory Sync_Util
  imports Prelude
begin

text \<open>
  Synchronisation helpers (\<open>pkg/syncutil\<close>) and the retrying lister of the readiness tracker
  (\<open>pkg/readiness/list.go\<close>). Contexts are booleans (cancelled or not), the environment of a
  polling loop is the list of what its attempts meet, and a result \<open>None\<close> says that the loop
  is still polling after those attempts.
\<close>

section \<open>Flags and waiting\<close>

type_synonym SyncBool = int

definition SyncBool_Set :: "bool \<Rightarrow> SyncBool \<Rightarrow> SyncBool" where
  "SyncBool_Set v b = (if v then 1 else 0)"

definition SyncBool_Get :: "SyncBool \<Rightarrow> bool" where
  "SyncBool_Get b \<longleftrightarrow> b = 1"

fun WaitAll_loop :: "'e option list \<Rightarrow> 'e option \<Rightarrow> 'e option" where
  "WaitAll_loop [] final = final"
| "WaitAll_loop (err # w) final = WaitAll_loop w (if err \<noteq> None \<and> final = None then err else final)"

text \<open>The argument lists what the \<open>Wait\<close> of each waiter returns.\<close>

definition WaitAll :: "'e option list \<Rightarrow> 'e option" where
  "WaitAll w = WaitAll_loop w None"

lemma WaitAll_loop_Some [simp]: "WaitAll_loop w (Some e) = Some e"
  by (induction w) auto

lemma WaitAll_first: "WaitAll w = (case dropWhile (\<lambda>e. e = None) w of [] \<Rightarrow> None | e # _ \<Rightarrow> e)"
  by (induction w) (auto simp: WaitAll_def)

section \<open>Single-use goroutines\<close>

text \<open>
  A task is a scheduled goroutine: its key, its work and whether its context has been cancelled.
  The map of the runner sends a used key to the cancel function of its task (the index of the
  task), or to nil after a cancellation. \<open>sr_grp\<close> is whether the error group is set.
\<close>

record 'w task =
  task_key :: string
  task_work :: 'w
  task_cancelled :: bool

record 'w SingleRunner =
  sr_grp :: bool
  sr_m :: "(string, nat option) gomap"
  sr_tasks :: "'w task list"

definition zeroRunner :: "'w SingleRunner" where
  "zeroRunner = \<lparr>sr_grp = False, sr_m = [], sr_tasks = []\<rparr>"

definition RunnerWithContext :: "'w SingleRunner" where
  "RunnerWithContext = \<lparr>sr_grp = True, sr_m = [], sr_tasks = []\<rparr>"

definition cancel_task :: "nat \<Rightarrow> 'w SingleRunner \<Rightarrow> 'w SingleRunner" where
  "cancel_task i s = s\<lparr>sr_tasks := (sr_tasks s)[i := (sr_tasks s ! i)\<lparr>task_cancelled := True\<rparr>]\<rparr>"

text \<open>\<open>None\<close> is the panic of a nil error group.\<close>

definition Runner_Go :: "string \<Rightarrow> 'w \<Rightarrow> 'w SingleRunner \<Rightarrow> 'w SingleRunner option" where
  "Runner_Go key f s =
     (if mget (sr_m s) key \<noteq> None then Some s
      else if \<not> sr_grp s then None
      else Some (s\<lparr>sr_m := mput key (Some (length (sr_tasks s))) (sr_m s),
             sr_tasks := sr_tasks s @ [\<lparr>task_key = key, task_work = f, task_cancelled = False\<rparr>]\<rparr>))"

definition Runner_Cancel :: "string \<Rightarrow> 'w SingleRunner \<Rightarrow> 'w SingleRunner" where
  "Runner_Cancel key s =
     (case mget (sr_m s) key of
        Some (Some i) \<Rightarrow> (cancel_task i s)\<lparr>sr_m := mput key None (sr_m s)\<rparr>
      | _ \<Rightarrow> s)"

text \<open>\<open>Wait\<close> after the error group has returned: the remaining contexts are cancelled.\<close>

definition Runner_Wait :: "'w SingleRunner \<Rightarrow> 'w SingleRunner" where
  "Runner_Wait s =
     (if \<not> sr_grp s then s
      else fold (\<lambda>(key, c) s. case c of None \<Rightarrow> s | Some i \<Rightarrow> cancel_task i s) (sr_m s) s)"

text \<open>Keys are single use: the used keys are those of the tasks, each of which has its own, and
  the cancel function of a key is that of its task.\<close>

definition runner_inv :: "'w SingleRunner \<Rightarrow> bool" where
  "runner_inv s \<longleftrightarrow>
     distinct (map task_key (sr_tasks s)) \<and>
     (\<forall>key. mget (sr_m s) key \<noteq> None \<longleftrightarrow> key \<in> task_key ` set (sr_tasks s)) \<and>
     (\<forall>key i. mget (sr_m s) key = Some (Some i) \<longrightarrow>
        i < length (sr_tasks s) \<and> task_key (sr_tasks s ! i) = key) \<and>
     (\<forall>key. mget (sr_m s) key = Some None \<longrightarrow>
        (\<exists>i < length (sr_tasks s). task_key (sr_tasks s ! i) = key \<and> task_cancelled (sr_tasks s ! i)))"

lemma runner_inv_new [simp]: "runner_inv RunnerWithContext" "runner_inv zeroRunner"
  by (simp_all add: runner_inv_def RunnerWithContext_def zeroRunner_def)

lemma runner_inv_Go:
  assumes "runner_inv s" "Runner_Go key f s = Some s'"
  shows "runner_inv s'"
proof (cases "mget (sr_m s) key")
  case None
  then have s': "s' = s\<lparr>sr_m := mput key (Some (length (sr_tasks s))) (sr_m s),
      sr_tasks := sr_tasks s @ [\<lparr>task_key = key, task_work = f, task_cancelled = False\<rparr>]\<rparr>"
    using assms(2) by (simp add: Runner_Go_def split: if_splits)
  have "key \<notin> task_key ` set (sr_tasks s)" using assms(1) None unfolding runner_inv_def by metis
  then show ?thesis
    using assms(1) None unfolding s' runner_inv_def
    by (auto simp: nth_append less_Suc_eq simp del: not_None_eq)
next
  case Some
  then show ?thesis using assms by (simp add: Runner_Go_def)
qed

lemma map_task_key_cancel [simp]: "map task_key (sr_tasks (cancel_task i s)) = map task_key (sr_tasks s)"
  by (cases "i < length (sr_tasks s)") (simp_all add: cancel_task_def map_update list_update_same_conv list_update_beyond)

lemma nth_cancel_task:
  "j < length (sr_tasks s) \<Longrightarrow> sr_tasks (cancel_task i s) ! j =
    (if i = j then (sr_tasks s ! j)\<lparr>task_cancelled := True\<rparr> else sr_tasks s ! j)"
  by (auto simp: cancel_task_def)

lemma length_cancel_task [simp]: "length (sr_tasks (cancel_task i s)) = length (sr_tasks s)"
  by (simp add: cancel_task_def)

lemma task_keys_cancel [simp]:
  "task_key ` set (sr_tasks (cancel_task i s)) = task_key ` set (sr_tasks s)"
  by (metis list.set_map map_task_key_cancel)

lemma sr_m_cancel_task [simp]: "sr_m (cancel_task i s) = sr_m s" "sr_grp (cancel_task i s) = sr_grp s"
  by (simp_all add: cancel_task_def)

lemma task_key_cancel_nth [simp]:
  "task_key (sr_tasks (cancel_task i s) ! j) = task_key (sr_tasks s ! j)"
  by (cases "i = j"; cases "j < length (sr_tasks s)") (auto simp: cancel_task_def list_update_beyond)

lemma task_cancelled_mono:
  "task_cancelled (sr_tasks s ! j) \<Longrightarrow> task_cancelled (sr_tasks (cancel_task i s) ! j)"
  by (cases "i = j"; cases "j < length (sr_tasks s)") (auto simp: cancel_task_def list_update_beyond)

lemma runner_inv_cancel_task:
  assumes "runner_inv s"
  shows "runner_inv (cancel_task i s)"
  using assms unfolding runner_inv_def by (simp del: not_None_eq) (blast intro: task_cancelled_mono)

lemma runner_inv_Cancel:
  assumes "runner_inv s"
  shows "runner_inv (Runner_Cancel key s)"
proof (cases "\<exists>i. mget (sr_m s) key = Some (Some i)")
  case True
  then obtain i where k: "mget (sr_m s) key = Some (Some i)" by blast
  then have R: "Runner_Cancel key s = (cancel_task i s)\<lparr>sr_m := mput key None (sr_m s)\<rparr>"
    by (simp add: Runner_Cancel_def)
  have i: "i < length (sr_tasks s)" "task_key (sr_tasks s ! i) = key"
    using assms k unfolding runner_inv_def by blast+
  have "task_cancelled (sr_tasks (cancel_task i s) ! i)" using i by (simp add: nth_cancel_task)
  moreover have "key \<in> task_key ` set (sr_tasks s)" using i by auto
  ultimately show ?thesis
    using i runner_inv_cancel_task [OF assms, of i] unfolding R runner_inv_def
    by (auto simp del: not_None_eq)
qed (use assms in \<open>auto simp: Runner_Cancel_def split: option.split\<close>)

lemma runner_inv_Wait: "runner_inv s \<Longrightarrow> runner_inv (Runner_Wait s)"
proof -
  have "runner_inv s \<Longrightarrow> runner_inv (fold (\<lambda>(key, c) s. case c of None \<Rightarrow> s | Some i \<Rightarrow> cancel_task i s) cs s)"
    for cs :: "(string \<times> nat option) list" and s :: "'a SingleRunner"
    by (induction cs arbitrary: s) (auto simp: runner_inv_cancel_task split: option.split)
  then show "runner_inv s \<Longrightarrow> ?thesis" by (simp add: Runner_Wait_def)
qed

text \<open>Another use of a key schedules nothing, cancelled or not.\<close>

lemma Runner_Go_used: "mget (sr_m s) key \<noteq> None \<Longrightarrow> Runner_Go key f s = Some s"
  by (simp add: Runner_Go_def)

lemma Runner_Cancel_keys: "mget (sr_m (Runner_Cancel key s)) k = None \<longleftrightarrow> mget (sr_m s) k = None"
  by (auto simp: Runner_Cancel_def split: option.split)

section \<open>Polling\<close>

datatype 'e WaitErr = ErrWaitTimeout | NilOutput | CondErr 'e

text \<open>One round of the polling loop: whether the context is cancelled when the round starts, the
  condition (it may update the output \<open>'o\<close>, and returns ok and an error), and whether the
  context is cancelled during the sleep.\<close>

record ('o, 'e) poll =
  poll_ctx :: bool
  poll_cond :: "'o \<Rightarrow> 'o \<times> bool \<times> 'e option"
  poll_done :: bool

fun BackoffWithContext :: "('o, 'e) poll list \<Rightarrow> 'o \<Rightarrow> ('o \<times> 'e WaitErr option) option" where
  "BackoffWithContext [] out = None"
| "BackoffWithContext (p # ps) out =
     (if poll_ctx p then Some (out, Some ErrWaitTimeout)
      else let (out', ok, err) = poll_cond p out in
        if err \<noteq> None \<or> ok then Some (out', map_option CondErr err)
        else if poll_done p then Some (out', Some ErrWaitTimeout)
        else BackoffWithContext ps out')"

text \<open>One attempt to list: what is left in the output, the error, and the context afterwards.\<close>

record ('o, 'e) attempt =
  at_ctx :: bool
  at_out :: 'o
  at_err :: "'e option"
  at_ctx_after :: bool
  at_done :: bool

definition retry_cond :: "('e \<Rightarrow> bool) option \<Rightarrow> ('o, 'e) attempt \<Rightarrow> 'o \<Rightarrow> 'o \<times> bool \<times> 'e option" where
  "retry_cond predicate a out =
     (case at_err a of
        Some err \<Rightarrow>
          if at_ctx_after a then (at_out a, False, Some err)
          else if predicate \<noteq> None \<and> \<not> the predicate err then (at_out a, False, Some err)
          else (at_out a, False, None)
      | None \<Rightarrow> (at_out a, True, None))"

definition retryLister :: "('e \<Rightarrow> bool) option \<Rightarrow> ('o, 'e) attempt list \<Rightarrow> 'o option \<Rightarrow>
    ('o option \<times> 'e WaitErr option) option" where
  "retryLister predicate attempts out =
     (case out of
        None \<Rightarrow> Some (None, Some NilOutput)
      | Some out' \<Rightarrow>
          map_option (map_prod Some (\<lambda>e. e))
            (BackoffWithContext
              (map (\<lambda>a. \<lparr>poll_ctx = at_ctx a, poll_cond = retry_cond predicate a, poll_done = at_done a\<rparr>)
                attempts) out'))"

definition retryAll :: "'e \<Rightarrow> bool" where
  "retryAll _ = True"

definition retryUnlessUnregistered :: "('e \<Rightarrow> bool) \<Rightarrow> 'e \<Rightarrow> bool" where
  "retryUnlessUnregistered IsNoMatchError err = (\<not> IsNoMatchError err)"

definition retries_on :: "('e \<Rightarrow> bool) option \<Rightarrow> ('o, 'e) attempt \<Rightarrow> bool" where
  "retries_on predicate a \<longleftrightarrow>
     \<not> at_ctx a \<and> \<not> at_ctx_after a \<and> \<not> at_done a \<and>
     (\<exists>err. at_err a = Some err \<and> (predicate = None \<or> the predicate err))"

text \<open>Transient failures are skipped.\<close>

lemma retryLister_skip:
  "\<forall>a \<in> set pre. retries_on predicate a \<Longrightarrow> post \<noteq> [] \<Longrightarrow>
    retryLister predicate (pre @ post) (Some out) = retryLister predicate post (Some (case pre of [] \<Rightarrow> out | _ \<Rightarrow> at_out (last pre)))"
proof (induction pre arbitrary: out)
  case (Cons a pre)
  then have "retryLister predicate ((a # pre) @ post) (Some out) = retryLister predicate (pre @ post) (Some (at_out a))"
    by (auto simp: retryLister_def retry_cond_def retries_on_def)
  then show ?case using Cons by (cases pre) simp_all
qed simp

lemma retryLister_success:
  "\<not> at_ctx a \<Longrightarrow> at_err a = None \<Longrightarrow>
    retryLister predicate (a # post) (Some out) = Some (Some (at_out a), None)"
  by (simp add: retryLister_def retry_cond_def)

lemma retryLister_terminal:
  "\<not> at_ctx a \<Longrightarrow> at_err a = Some err \<Longrightarrow> \<not> p err \<Longrightarrow>
    retryLister (Some p) (a # post) (Some out) = Some (Some (at_out a), Some (CondErr err))"
  by (simp add: retryLister_def retry_cond_def)

text \<open>A result without error is the output of a successful attempt.\<close>

lemma retryLister_sound:
  "retryLister predicate as (Some out) = Some (out', None) \<Longrightarrow>
    \<exists>a \<in> set as. at_err a = None \<and> \<not> at_ctx a \<and> out' = Some (at_out a)"
proof (induction as arbitrary: out)
  case (Cons a as)
  show ?case
  proof (cases "at_err a = None \<or> \<not> retries_on predicate a")
    case True
    then show ?thesis using Cons.prems
      by (auto simp: retryLister_def retry_cond_def retries_on_def split: if_splits option.splits)
  next
    case False
    then have "retryLister predicate (a # as) (Some out) = retryLister predicate as (Some (at_out a))"
      by (auto simp: retryLister_def retry_cond_def retries_on_def)
    then show ?thesis using Cons by (metis list.set_intros(2))
  qed
qed (simp add: retryLister_def)

end
