(* ===== verification/Ready_Tracker.thy ===== *)
theory Ready_Tracker
  imports Object_Tracker Sync_Util
begin

text \<open>
  The readiness tracker of the process (\<open>pkg/readiness/ready_tracker.go\<close>, \<open>tracker_map.go\<close>,
  \<open>noop_expectations.go\<close>). Object trackers are shared by pointer between the maps, the
  tracking goroutines and the controllers, so they live in a heap (a list, the address being the
  position), and a value of the interface \<open>Expectations\<close> is an address or the no-op. Every
  method that takes a lock is one step; what the API server returns to a listing is an argument.
\<close>

section \<open>References to trackers\<close>

datatype Expectations = Noop | Ref nat

type_synonym heap = "objectTracker list"

definition noop_TryCancelExpect :: "RuntimeObject \<Rightarrow> bool" where
  "noop_TryCancelExpect o' = False"

definition noop_Satisfied :: bool where
  "noop_Satisfied = True"

definition noop_Populated :: bool where
  "noop_Populated = True"

fun es_step :: "Expectations \<Rightarrow> event \<Rightarrow> heap \<Rightarrow> heap" where
  "es_step Noop e h = h"
| "es_step (Ref a) e h = h[a := ot_step e (h ! a)]"

fun es_Satisfied :: "Expectations \<Rightarrow> heap \<Rightarrow> heap \<times> bool" where
  "es_Satisfied Noop h = (h, noop_Satisfied)"
| "es_Satisfied (Ref a) h = (let (t, b) = Satisfied (h ! a) in (h[a := t], b))"

fun es_Populated :: "Expectations \<Rightarrow> heap \<Rightarrow> bool" where
  "es_Populated Noop h = noop_Populated"
| "es_Populated (Ref a) h = populated (h ! a)"

section \<open>Maps of trackers\<close>

text \<open>\<open>tm_fn\<close> is the number of retries the factory gives to a new object.\<close>

record trackerMap =
  tm_m :: "(GVK, nat) gomap"
  tm_removed :: "GVK set"
  tm_fn :: int

definition newTrackerMap :: "int \<Rightarrow> trackerMap" where
  "newTrackerMap fn = \<lparr>tm_m = [], tm_removed = {}, tm_fn = fn\<rparr>"

definition tm_Has :: "GVK \<Rightarrow> trackerMap \<Rightarrow> bool" where
  "tm_Has gvk t \<longleftrightarrow> mget (tm_m t) gvk \<noteq> None"

text \<open>The two critical sections of \<open>Get\<close>: a read, and, when it finds nothing, a write that does
  not look again.\<close>

definition tm_Get_read :: "GVK \<Rightarrow> trackerMap \<Rightarrow> Expectations option" where
  "tm_Get_read gvk t =
     (if gvk \<in> tm_removed t then Some Noop
      else case mget (tm_m t) gvk of Some a \<Rightarrow> Some (Ref a) | None \<Rightarrow> None)"

definition tm_Get_write :: "GVK \<Rightarrow> heap \<times> trackerMap \<Rightarrow> (heap \<times> trackerMap) \<times> Expectations" where
  "tm_Get_write gvk s =
     (let (h, t) = s; a = length h in
      ((h @ [newObjTracker gvk (tm_fn t)], t\<lparr>tm_m := mput gvk a (tm_m t)\<rparr>), Ref a))"

definition tm_Get :: "GVK \<Rightarrow> heap \<times> trackerMap \<Rightarrow> (heap \<times> trackerMap) \<times> Expectations" where
  "tm_Get gvk s = (case tm_Get_read gvk (snd s) of Some es \<Rightarrow> (s, es) | None \<Rightarrow> tm_Get_write gvk s)"

definition tm_Keys :: "trackerMap \<Rightarrow> GVK list" where
  "tm_Keys t = mkeys (tm_m t)"

definition tm_Remove :: "GVK \<Rightarrow> trackerMap \<Rightarrow> trackerMap" where
  "tm_Remove gvk t = t\<lparr>tm_m := mdel gvk (tm_m t), tm_removed := insert gvk (tm_removed t)\<rparr>"

fun tm_Satisfied_loop :: "nat list \<Rightarrow> heap \<Rightarrow> heap \<times> bool" where
  "tm_Satisfied_loop [] h = (h, True)"
| "tm_Satisfied_loop (a # as) h =
     (let (h', b) = es_Satisfied (Ref a) h in if \<not> b then (h', False) else tm_Satisfied_loop as h')"

definition tm_Satisfied :: "trackerMap \<Rightarrow> heap \<Rightarrow> heap \<times> bool" where
  "tm_Satisfied t h = tm_Satisfied_loop (map snd (tm_m t)) h"

definition tm_Populated :: "trackerMap \<Rightarrow> heap \<Rightarrow> bool" where
  "tm_Populated t h = list_all (\<lambda>a. populated (h ! a)) (map snd (tm_m t))"

section \<open>The tracker\<close>

definition configGVK :: GVK where
  "configGVK = GVK ''config.gatekeeper.sh'' ''v1alpha1'' ''Config''"

definition assignGVK :: GVK where
  "assignGVK = GVK ''mutations.gatekeeper.sh'' ''v1alpha1'' ''Assign''"

definition assignMetadataGVK :: GVK where
  "assignMetadataGVK = GVK ''mutations.gatekeeper.sh'' ''v1alpha1'' ''AssignMetadata''"

text \<open>The work of a constraint tracking goroutine: the kind and its tracker.\<close>

record Tracker =
  tr_satisfied :: bool
  tr_heap :: heap
  tr_templates :: nat
  tr_config :: nat
  tr_assignMetadata :: "nat option"
  tr_assign :: "nat option"
  tr_constraints :: trackerMap
  tr_data :: trackerMap
  tr_ready :: bool
  constraintTrackers :: "(GVK \<times> Expectations) SingleRunner"
  statsEnabled :: SyncBool
  mutationEnabled :: bool

definition newTracker :: "bool \<Rightarrow> int \<Rightarrow> Tracker" where
  "newTracker mutation fn =
     \<lparr>tr_satisfied = False,
      tr_heap = [newObjTracker templateGVK fn, newObjTracker configGVK fn] @
        (if mutation then [newObjTracker assignMetadataGVK fn, newObjTracker assignGVK fn] else []),
      tr_templates = 0, tr_config = 1,
      tr_assignMetadata = (if mutation then Some 2 else None),
      tr_assign = (if mutation then Some 3 else None),
      tr_constraints = newTrackerMap fn, tr_data = newTrackerMap fn,
      tr_ready = False, constraintTrackers = zeroRunner, statsEnabled = 0,
      mutationEnabled = mutation\<rparr>"

text \<open>Calls through an \<open>Expectations\<close>, and the maps' \<open>Get\<close>, on the state of the tracker.\<close>

definition call :: "Expectations \<Rightarrow> event \<Rightarrow> Tracker \<Rightarrow> Tracker" where
  "call es e t = t\<lparr>tr_heap := es_step es e (tr_heap t)\<rparr>"

definition call_Satisfied :: "Expectations \<Rightarrow> Tracker \<Rightarrow> Tracker \<times> bool" where
  "call_Satisfied es t = (let (h, b) = es_Satisfied es (tr_heap t) in (t\<lparr>tr_heap := h\<rparr>, b))"

definition constraints_Get :: "GVK \<Rightarrow> Tracker \<Rightarrow> Tracker \<times> Expectations" where
  "constraints_Get gvk t =
     (let ((h, m), es) = tm_Get gvk (tr_heap t, tr_constraints t)
      in (t\<lparr>tr_heap := h, tr_constraints := m\<rparr>, es))"

definition data_Get :: "GVK \<Rightarrow> Tracker \<Rightarrow> Tracker \<times> Expectations" where
  "data_Get gvk t =
     (let ((h, m), es) = tm_Get gvk (tr_heap t, tr_data t)
      in (t\<lparr>tr_heap := h, tr_data := m\<rparr>, es))"

definition For :: "GVK \<Rightarrow> Tracker \<Rightarrow> Tracker \<times> Expectations" where
  "For gvk t =
     (if gvk = templateGVK then (t, Ref (tr_templates t))
      else if gvk = configGVK then (t, Ref (tr_config t))
      else if gvk = assignMetadataGVK then
        (t, case tr_assignMetadata t of Some a \<Rightarrow> if mutationEnabled t then Ref a else Noop | None \<Rightarrow> Noop)
      else if gvk = assignGVK then
        (t, case tr_assign t of Some a \<Rightarrow> if mutationEnabled t then Ref a else Noop | None \<Rightarrow> Noop)
      else if es_Populated (Ref (tr_templates t)) (tr_heap t) \<and> \<not> tm_Has gvk (tr_constraints t) then (t, Noop)
      else constraints_Get gvk t)"

definition ForData :: "GVK \<Rightarrow> Tracker \<Rightarrow> Tracker \<times> Expectations" where
  "ForData gvk t =
     (if es_Populated (Ref (tr_config t)) (tr_heap t) \<and> \<not> tm_Has gvk (tr_data t) then (t, Noop)
      else data_Get gvk t)"

text \<open>\<open>templateCleanup\<close> waits until \<open>Run\<close> has installed the runner; the flag says whether it
  returns, and a \<open>False\<close> leaves it blocked before the last call.\<close>

definition templateCleanup :: "ConstraintTemplate \<Rightarrow> Tracker \<Rightarrow> Tracker \<times> bool" where
  "templateCleanup ct t =
     (let gvk = constraintGVK (ct_Kind ct);
          t1 = t\<lparr>tr_constraints := tm_Remove gvk (tr_constraints t)\<rparr>
      in if \<not> tr_ready t1 then (t1, False)
         else (t1\<lparr>constraintTrackers := Runner_Cancel (GVK_String gvk) (constraintTrackers t1)\<rparr>, True))"

definition CancelTemplate :: "ConstraintTemplate \<Rightarrow> Tracker \<Rightarrow> Tracker \<times> bool" where
  "CancelTemplate ct t =
     templateCleanup ct (call (Ref (tr_templates t)) (EvCancel (TemplateObject ct)) t)"

definition TryCancelTemplate :: "ConstraintTemplate \<Rightarrow> Tracker \<Rightarrow> Tracker \<times> bool" where
  "TryCancelTemplate ct t =
     (let a = tr_templates t;
          (ot, cancelled) = TryCancelExpect (TemplateObject ct) (tr_heap t ! a);
          t1 = t\<lparr>tr_heap := (tr_heap t)[a := ot]\<rparr>
      in if cancelled then templateCleanup ct t1 else (t1, True))"

definition CancelData :: "GVK \<Rightarrow> Tracker \<Rightarrow> Tracker" where
  "CancelData gvk t = t\<lparr>tr_data := tm_Remove gvk (tr_data t)\<rparr>"

text \<open>The loops over kinds: \<open>get\<close> is the \<open>Get\<close> of the map. Go visits the kinds in an arbitrary
  order, the model in ascending order.\<close>

fun satisfied_loop :: "(GVK \<Rightarrow> Tracker \<Rightarrow> Tracker \<times> Expectations) \<Rightarrow> GVK list \<Rightarrow> Tracker \<Rightarrow> Tracker \<times> bool" where
  "satisfied_loop get [] t = (t, True)"
| "satisfied_loop get (gvk # gvks) t =
     (let (t1, es) = get gvk t; (t2, ok) = call_Satisfied es t1
      in if \<not> ok then (t2, False) else satisfied_loop get gvks t2)"

definition kinds_of :: "nat \<Rightarrow> Tracker \<Rightarrow> GVK list" where
  "kinds_of a t = sorted_list_of_set (kinds (tr_heap t ! a))"

definition mutation_Satisfied :: "Tracker \<Rightarrow> Tracker \<times> bool" where
  "mutation_Satisfied t =
     (case (tr_assignMetadata t, tr_assign t) of
        (Some am, Some a) \<Rightarrow>
          (let (t1, ok1) = call_Satisfied (Ref am) t in
           if \<not> ok1 then (t1, False) else call_Satisfied (Ref a) t1)
      | _ \<Rightarrow> (t, False))"

definition templates_Satisfied :: "Tracker \<Rightarrow> Tracker \<times> bool" where
  "templates_Satisfied t =
     (let (t1, ok) = call_Satisfied (Ref (tr_templates t)) t in
      if \<not> ok then (t1, False)
      else satisfied_loop constraints_Get (kinds_of (tr_templates t1) t1) t1)"

definition config_Satisfied :: "Tracker \<Rightarrow> Tracker \<times> bool" where
  "config_Satisfied t =
     (let (t1, ok) = call_Satisfied (Ref (tr_config t)) t in
      if \<not> ok then (t1, False)
      else satisfied_loop data_Get (kinds_of (tr_config t1) t1) t1)"

definition Tracker_Satisfied :: "Tracker \<Rightarrow> Tracker \<times> bool" where
  "Tracker_Satisfied t =
     (if tr_satisfied t then (t, True)
      else let (t1, ok1) = (if mutationEnabled t then mutation_Satisfied t else (t, True)) in
        if \<not> ok1 then (t1, False)
        else let (t2, ok2) = templates_Satisfied t1 in
          if \<not> ok2 then (t2, False)
          else let (t3, ok3) = config_Satisfied t2 in
            if \<not> ok3 then (t3, False)
            else (t3\<lparr>tr_satisfied := True\<rparr>, True))"

text \<open>The health check: \<open>None\<close> is the nil error.\<close>

definition CheckSatisfied :: "Tracker \<Rightarrow> Tracker \<times> string option" where
  "CheckSatisfied t =
     (let (t', ok) = Tracker_Satisfied t
      in (t', if \<not> ok then Some ''expectations not satisfied'' else None))"

text \<open>With mutation enabled a nil tracker would be a nil dereference, \<open>None\<close>.\<close>

definition Tracker_Populated :: "Tracker \<Rightarrow> bool option" where
  "Tracker_Populated t =
     (let pop = (\<lambda>a. es_Populated (Ref a) (tr_heap t)) in
      map_option (\<lambda>mutationPopulated. pop (tr_templates t) \<and> pop (tr_config t) \<and> mutationPopulated \<and>
          tm_Populated (tr_constraints t) (tr_heap t) \<and> tm_Populated (tr_data t) (tr_heap t))
        (if mutationEnabled t
         then (case (tr_assignMetadata t, tr_assign t) of
             (Some am, Some a) \<Rightarrow> Some (pop am \<and> pop a)
           | _ \<Rightarrow> None)
         else Some True))"

section \<open>Collecting the expectations of deleted objects\<close>

text \<open>\<open>newUnstructured\<close>: an empty unstructured object after \<open>SetName\<close>, \<open>SetNamespace\<close> and
  \<open>SetGroupVersionKind\<close> of apimachinery; empty names leave no field.\<close>

definition GroupVersion_String :: "GVK \<Rightarrow> string" where
  "GroupVersion_String gvk =
     (if gvk_Group gvk \<noteq> [] then gvk_Group gvk @ ''/'' @ gvk_Version gvk else gvk_Version gvk)"

definition newUnstructured :: "GVK \<Rightarrow> string \<Rightarrow> string \<Rightarrow> object" where
  "newUnstructured gvk ns name =
     (let meta = (if name = [] then [] else [(''name'', VString name)]) @
                 (if ns = [] then [] else [(''namespace'', VString ns)])
      in [(''apiVersion'', VString (GroupVersion_String gvk)), (''kind'', VString (gvk_Kind gvk))] @
         (if meta = [] then [] else [(''metadata'', VMap meta)]))"

fun delete_listed :: "RuntimeObject list \<Rightarrow> objKey set \<Rightarrow> string + objKey set" where
  "delete_listed [] m = Inr m"
| "delete_listed (o' # os) m =
     (case objKeyFromObject o' of
        Inl err \<Rightarrow> Inl err
      | Inr k \<Rightarrow> delete_listed os (m - {k}))"

definition cancel_key :: "nat \<Rightarrow> (Tracker \<Rightarrow> Tracker) \<Rightarrow> objKey \<Rightarrow> Tracker \<Rightarrow> Tracker" where
  "cancel_key a cleanup k t =
     cleanup (call (Ref a)
       (EvCancel (UnstructuredObject (newUnstructured (key_gvk k) (key_Namespace k) (key_Name k)) False)) t)"

text \<open>\<open>lister\<close> is the retrying listing of one kind; \<open>cleanup\<close> is the nil function (\<open>None\<close>) or
  the callback, called with the kind of the tracker.\<close>

definition collectForObjectTracker ::
    "(GVK \<Rightarrow> string + RuntimeObject list) \<Rightarrow> Expectations option \<Rightarrow> (GVK \<Rightarrow> Tracker \<Rightarrow> Tracker) option \<Rightarrow>
     Tracker \<Rightarrow> Tracker \<times> string option" where
  "collectForObjectTracker lister es cleanup t =
     (case es of
        None \<Rightarrow> (t, Some ''nil Expectations provided to collectForObjectTracker'')
      | Some e \<Rightarrow>
          if \<not> es_Populated e (tr_heap t) then (t, None)
          else let (t1, sat) = call_Satisfied e t in
            if sat then (t1, None)
            else (case e of
              Noop \<Rightarrow> (t1, Some ''expectations was not an objectTracker in collectForObjectTracker'')
            | Ref a \<Rightarrow>
                (let gvk = ot_gvk (tr_heap t1 ! a) in
                 case lister gvk of
                   Inl err \<Rightarrow> (t1, Some err)
                 | Inr items \<Rightarrow>
                     (case delete_listed items (unsatisfied (tr_heap t1 ! a)) of
                        Inl err \<Rightarrow> (t1, Some err)
                      | Inr m \<Rightarrow>
                          (fold (cancel_key a (case cleanup of None \<Rightarrow> (\<lambda>t. t) | Some f \<Rightarrow> f gvk))
                             (sorted_list_of_set m) t1, None)))))"

definition cleanupTemplate :: "GVK \<Rightarrow> Tracker \<Rightarrow> Tracker" where
  "cleanupTemplate gvk t =
     t\<lparr>tr_constraints := tm_Remove gvk (tr_constraints t),
       constraintTrackers := Runner_Cancel (GVK_String gvk) (constraintTrackers t)\<rparr>"

definition cleanupData :: "GVK \<Rightarrow> Tracker \<Rightarrow> Tracker" where
  "cleanupData gvk t = t\<lparr>tr_data := tm_Remove gvk (tr_data t)\<rparr>"

fun collect_kinds :: "(GVK \<Rightarrow> string + RuntimeObject list) \<Rightarrow>
    (GVK \<Rightarrow> Tracker \<Rightarrow> Tracker \<times> Expectations) \<Rightarrow> GVK list \<Rightarrow> Tracker \<Rightarrow> Tracker" where
  "collect_kinds lister get [] t = t"
| "collect_kinds lister get (gvk # gvks) t =
     (let (t1, es) = get gvk t
      in collect_kinds lister get gvks (fst (collectForObjectTracker lister (Some es) None t1)))"

definition collectInvalidExpectations :: "(GVK \<Rightarrow> string + RuntimeObject list) \<Rightarrow> Tracker \<Rightarrow> Tracker" where
  "collectInvalidExpectations lister t =
     (let t1 = fst (collectForObjectTracker lister (Some (Ref (tr_templates t))) (Some cleanupTemplate) t);
          t2 = fst (collectForObjectTracker lister (Some (Ref (tr_config t1))) (Some cleanupData) t1);
          t3 = collect_kinds lister constraints_Get (tm_Keys (tr_constraints t2)) t2
      in collect_kinds lister data_Get (tm_Keys (tr_data t3)) t3)"

text \<open>One tick of the polling goroutine of \<open>Run\<close>; the flag says whether it stops.\<close>

definition poll_tick :: "(GVK \<Rightarrow> string + RuntimeObject list) \<Rightarrow> Tracker \<Rightarrow> Tracker \<times> bool" where
  "poll_tick lister t =
     (let (t1, sat) = Tracker_Satisfied t
      in if sat then (t1, True) else (collectInvalidExpectations lister t1, False))"

section \<open>Setting expectations\<close>

definition expect_all :: "Expectations \<Rightarrow> RuntimeObject list \<Rightarrow> Tracker \<Rightarrow> Tracker" where
  "expect_all es items t = fold (\<lambda>o' t. call es (EvExpect o') t) items t"

text \<open>The listing is an error or the items. A nil tracker is a nil dereference, \<open>None\<close>.\<close>

definition trackAssignMetadata :: "string + RuntimeObject list \<Rightarrow> Tracker \<Rightarrow> (Tracker \<times> string option) option" where
  "trackAssignMetadata listing t =
     (case tr_assignMetadata t of
        None \<Rightarrow> None
      | Some a \<Rightarrow>
          (let (t1, err) =
             (if \<not> mutationEnabled t then (t, None)
              else (case listing of
                Inl e \<Rightarrow> (t, Some (''listing AssignMetadata: '' @ e))
              | Inr items \<Rightarrow> (expect_all (Ref a) items t, None)))
           in Some (call (Ref a) EvDone t1, err)))"

definition trackAssign :: "string + RuntimeObject list \<Rightarrow> Tracker \<Rightarrow> (Tracker \<times> string option) option" where
  "trackAssign listing t =
     (case tr_assign t of
        None \<Rightarrow> None
      | Some a \<Rightarrow>
          (let (t1, err) =
             (if \<not> mutationEnabled t then (t, None)
              else (case listing of
                Inl e \<Rightarrow> (t, Some (''listing Assign: '' @ e))
              | Inr items \<Rightarrow> (expect_all (Ref a) items t, None)))
           in Some (call (Ref a) EvDone t1, err)))"

fun track_templates :: "ConstraintTemplate list \<Rightarrow> GVK set \<Rightarrow> Tracker \<Rightarrow> Tracker option" where
  "track_templates [] handled t = Some t"
| "track_templates (ct # cts) handled t =
     (let t1 = call (Ref (tr_templates t)) (EvExpect (TemplateObject ct)) t;
          gvk = constraintGVK (ct_Kind ct)
      in if gvk \<in> handled then track_templates cts handled t1
         else let (t2, ot) = constraints_Get gvk t1 in
           (case Runner_Go (GVK_String gvk) (gvk, ot) (constraintTrackers t2) of
              None \<Rightarrow> None
            | Some r \<Rightarrow> track_templates cts (insert gvk handled) (t2\<lparr>constraintTrackers := r\<rparr>)))"

definition trackConstraintTemplates ::
    "string + ConstraintTemplate list \<Rightarrow> Tracker \<Rightarrow> (Tracker \<times> string option) option" where
  "trackConstraintTemplates listing t =
     (case listing of
        Inl e \<Rightarrow> Some (call (Ref (tr_templates t)) EvDone t, Some (''listing templates: '' @ e))
      | Inr items \<Rightarrow>
          map_option (\<lambda>t1. (call (Ref (tr_templates t1)) EvDone t1, None)) (track_templates items {} t))"

definition trackConstraints :: "GVK \<Rightarrow> Expectations \<Rightarrow> string + RuntimeObject list \<Rightarrow> Tracker \<Rightarrow> Tracker \<times> string option" where
  "trackConstraints gvk es listing t =
     (case listing of
        Inl e \<Rightarrow> (call es EvDone t, Some e)
      | Inr items \<Rightarrow> (call es EvDone (expect_all es items t), None))"

text \<open>\<open>trackData\<close> lists the kind with the suffix \<open>List\<close>.\<close>

definition listKind :: "GVK \<Rightarrow> GVK" where
  "listKind gvk = GVK (gvk_Group gvk) (gvk_Version gvk) (gvk_Kind gvk @ ''List'')"

definition trackData :: "(GVK \<Rightarrow> string + RuntimeObject list) \<Rightarrow> GVK \<Rightarrow> Expectations \<Rightarrow> Tracker \<Rightarrow> Tracker \<times> string option" where
  "trackData lister gvk dt t =
     (case lister (listKind gvk) of
        Inl e \<Rightarrow> (call dt EvDone t, Some e)
      | Inr items \<Rightarrow> (call dt EvDone (expect_all dt items t), None))"

record Config =
  cfg_Namespace :: string
  cfg_Name :: string
  cfg_deleting :: bool
  cfg_SyncOnly :: "GVK list"

fun find_config :: "string \<Rightarrow> Config list \<Rightarrow> Config option" where
  "find_config ns [] = None"
| "find_config ns (c # cs) =
     (if cfg_Name c \<noteq> ''config'' \<or> cfg_Namespace c \<noteq> ns then find_config ns cs else Some c)"

definition getConfigResource :: "string \<Rightarrow> string + Config list \<Rightarrow> string + Config option" where
  "getConfigResource ns listing =
     (case listing of Inl e \<Rightarrow> Inl (''listing config: '' @ e) | Inr items \<Rightarrow> Inr (find_config ns items))"

fun track_entries :: "GVK list \<Rightarrow> Tracker \<Rightarrow> Tracker \<times> (GVK \<times> Expectations) list" where
  "track_entries [] t = (t, [])"
| "track_entries (gvk # gvks) t =
     (let u = UnstructuredObject (newUnstructured gvk [] []) False;
          t1 = call (Ref (tr_config t)) (EvExpect u) t;
          t2 = call (Ref (tr_config t1)) (EvObserve u) t1;
          (t3, dt) = ForData gvk t2;
          (t4, spawned) = track_entries gvks t3
      in (t4, (gvk, dt) # spawned))"

text \<open>\<open>trackConfig\<close> waits for the goroutines it starts, here run one after the other in the
  order of their start, before its expectations are done.\<close>

definition trackConfig :: "string \<Rightarrow> string + Config list \<Rightarrow> (GVK \<Rightarrow> string + RuntimeObject list) \<Rightarrow>
    Tracker \<Rightarrow> Tracker \<times> string option" where
  "trackConfig ns listing lister t =
     (case getConfigResource ns listing of
        Inl e \<Rightarrow> (call (Ref (tr_config t)) EvDone t, Some (''fetching config resource: '' @ e))
      | Inr None \<Rightarrow> (call (Ref (tr_config t)) EvDone t, None)
      | Inr (Some cfg) \<Rightarrow>
          if cfg_deleting cfg then (call (Ref (tr_config t)) EvDone t, None)
          else let (t1, spawned) = track_entries (cfg_SyncOnly cfg) t;
                   t2 = fold (\<lambda>(gvk, dt) t. fst (trackData lister gvk dt t)) spawned t1
               in (call (Ref (tr_config t2)) EvDone t2, None))"

text \<open>The start of \<open>Run\<close>; closing a closed channel panics.\<close>

definition Run_start :: "Tracker \<Rightarrow> Tracker option" where
  "Run_start t =
     (if tr_ready t then None else Some (t\<lparr>constraintTrackers := RunnerWithContext, tr_ready := True\<rparr>))"

section \<open>Statistics\<close>

definition EnableStats :: "Tracker \<Rightarrow> Tracker" where
  "EnableStats t = t\<lparr>statsEnabled := SyncBool_Set True (statsEnabled t)\<rparr>"

definition DisableStats :: "Tracker \<Rightarrow> Tracker" where
  "DisableStats t = t\<lparr>statsEnabled := SyncBool_Set False (statsEnabled t)\<rparr>"

fun stats_kinds :: "(GVK \<Rightarrow> Tracker \<Rightarrow> Tracker \<times> Expectations) \<Rightarrow> GVK list \<Rightarrow> Tracker \<Rightarrow>
    Tracker \<times> (GVK \<times> objKey set) list" where
  "stats_kinds get [] t = (t, [])"
| "stats_kinds get (gvk # gvks) t =
     (let (t1, es) = get gvk t; (t2, sat) = call_Satisfied es t1 in
      if sat then stats_kinds get gvks t2
      else let (t3, c) = get gvk t2 in
        (case c of
           Noop \<Rightarrow> stats_kinds get gvks t3
         | Ref a \<Rightarrow>
             let unsat = unsatisfied (tr_heap t3 ! a); (t4, rest) = stats_kinds get gvks t3
             in (t4, if unsat = {} then rest else (gvk, unsat) # rest)))"

text \<open>One round of \<open>statsPrinter\<close>: the state, whether it returns, and the unsatisfied keys it
  logs, by template, constraint kind, data kind, AssignMetadata and Assign.\<close>

definition stats_tick :: "Tracker \<Rightarrow> Tracker \<times> bool \<times>
    (objKey set \<times> (GVK \<times> objKey set) list \<times> (GVK \<times> objKey set) list \<times> objKey set \<times> objKey set)" where
  "stats_tick t =
     (if \<not> SyncBool_Get (statsEnabled t) then (t, False, {}, [], [], {}, {})
      else let (t1, sat) = Tracker_Satisfied t in
        if sat then (t1, True, {}, [], [], {}, {})
        else let unsat = unsatisfied (tr_heap t1 ! tr_templates t1);
                 (t2, cs) = stats_kinds constraints_Get (kinds_of (tr_templates t1) t1) t1;
                 (t3, ds) = stats_kinds data_Get (kinds_of (tr_config t2) t2) t2;
                 of_opt = (\<lambda>a. case a of Some i \<Rightarrow> unsatisfied (tr_heap t3 ! i) | None \<Rightarrow> {})
             in (t3, False, unsat, cs, ds,
                 if mutationEnabled t3 then of_opt (tr_assignMetadata t3) else {},
                 if mutationEnabled t3 then of_opt (tr_assign t3) else {}))"

end
