(* ===== verification/Ready_Facts.thy ===== *)
theory Ready_Facts
  imports Ready_Tracker
begin

text \<open>
  Facts on the readiness tracker: every object tracker of the heap is a run of a fresh one
  (\<open>tracker_run\<close>, a history per address), so that the history theorems of one object tracker
  carry over to the tracker of the process; \<open>Tracker_Satisfied\<close> answers exactly when the awaited
  trackers do; the answer \<open>true\<close> is a latch; collection gives up exactly the deleted objects.
\<close>

section \<open>References implement the interface\<close>

definition heap_ok :: "heap \<Rightarrow> bool" where
  "heap_ok h \<longleftrightarrow> (\<forall>t \<in> set h. latch_ok t)"

definition valid_es :: "Expectations \<Rightarrow> heap \<Rightarrow> bool" where
  "valid_es es h \<longleftrightarrow> (case es of Noop \<Rightarrow> True | Ref a \<Rightarrow> a < length h)"

lemma valid_es_simps [simp]: "valid_es Noop h" "valid_es (Ref a) h \<longleftrightarrow> a < length h"
  by (simp_all add: valid_es_def)

lemma length_es_step [simp]: "length (es_step es e h) = length h"
  by (cases es) simp_all

lemma es_Satisfied_Ref: "es_Satisfied (Ref a) h = (h[a := fst (Satisfied (h ! a))], snd (Satisfied (h ! a)))"
  by (simp split: prod.split)

declare es_Satisfied.simps(2) [simp del]

lemma es_Satisfied_fst: "fst (es_Satisfied es h) = es_step es EvCheck h"
  by (cases es) (simp_all add: es_Satisfied_Ref)

lemma heap_ok_nth: "heap_ok h \<Longrightarrow> a < length h \<Longrightarrow> latch_ok (h ! a)"
  by (simp add: heap_ok_def)

interpretation refs: expectations "\<lambda>h. heap_ok h \<and> valid_es es h" "es_step es" "es_Satisfied es" "es_Populated es"
  for es
proof
  fix h e
  show "es_step es EvCheck h = fst (es_Satisfied es h)" by (simp add: es_Satisfied_fst)
  assume inv: "heap_ok h \<and> valid_es es h"
  show "heap_ok (es_step es e h) \<and> valid_es es (es_step es e h)"
    using inv by (cases es) (auto simp: heap_ok_def dest!: set_update_subset_insert [THEN subsetD] intro: latch_ok_step)
  show "es_Satisfied es (fst (es_Satisfied es h)) = es_Satisfied es h" if "snd (es_Satisfied es h)"
    using inv that ot.sat_idem [OF heap_ok_nth, of h] by (cases es) (simp_all add: es_Satisfied_Ref noop_Satisfied_def)
  show "es_Satisfied es (es_step es e h) = (es_step es e h, True)" if "es_Satisfied es h = (h, True)"
  proof (cases es)
    case (Ref a)
    then have "Satisfied (h ! a) = (h ! a, True)"
      using that inv by (metis es_Satisfied_Ref nth_list_update_eq prod.collapse prod.inject valid_es_simps(2))
    then have "Satisfied (ot_step e (h ! a)) = (ot_step e (h ! a), True)"
      using inv Ref by (intro ot.sat_step) (auto intro: heap_ok_nth)
    then show ?thesis using Ref inv by (simp add: es_Satisfied_Ref)
  qed (simp add: noop_Satisfied_def)
  show "es_Populated es h" if "snd (es_Satisfied es h)"
    using inv that ot.sat_pop [OF heap_ok_nth] by (cases es) (simp_all add: es_Satisfied_Ref noop_Populated_def)
  show "es_Populated es (es_step es EvDone h)"
    using inv by (cases es) (simp_all add: noop_Populated_def ExpectationsDone_def)
  show "es_Populated es (es_step es e h)" if "es_Populated es h"
    using inv that by (cases es) (auto intro: populated_step)
qed

section \<open>Histories of the heap\<close>

type_synonym history = "nat \<Rightarrow> event list"

text \<open>The smallest steps of all goroutines: a call on one object tracker, the writing half of a
  \<open>Get\<close>, the removal of a kind, and changes of the runner and the flags. Any interleaving of
  the operations is such a run.\<close>

definition constraints_write :: "GVK \<Rightarrow> Tracker \<Rightarrow> Tracker" where
  "constraints_write gvk t =
     (let ((h, m), es) = tm_Get_write gvk (tr_heap t, tr_constraints t)
      in t\<lparr>tr_heap := h, tr_constraints := m\<rparr>)"

definition data_write :: "GVK \<Rightarrow> Tracker \<Rightarrow> Tracker" where
  "data_write gvk t =
     (let ((h, m), es) = tm_Get_write gvk (tr_heap t, tr_data t)
      in t\<lparr>tr_heap := h, tr_data := m\<rparr>)"

inductive tracker_run :: "bool \<Rightarrow> int \<Rightarrow> history \<Rightarrow> Tracker \<Rightarrow> bool" for mutation r where
  start: "tracker_run mutation r (\<lambda>_. []) (newTracker mutation r)"
| called: "tracker_run mutation r H t \<Longrightarrow> a < length (tr_heap t) \<Longrightarrow>
    tracker_run mutation r (H(a := H a @ [e])) (call (Ref a) e t)"
| c_write: "tracker_run mutation r H t \<Longrightarrow> tracker_run mutation r H (constraints_write gvk t)"
| d_write: "tracker_run mutation r H t \<Longrightarrow> tracker_run mutation r H (data_write gvk t)"
| c_remove: "tracker_run mutation r H t \<Longrightarrow>
    tracker_run mutation r H (t\<lparr>tr_constraints := tm_Remove gvk (tr_constraints t)\<rparr>)"
| d_remove: "tracker_run mutation r H t \<Longrightarrow>
    tracker_run mutation r H (t\<lparr>tr_data := tm_Remove gvk (tr_data t)\<rparr>)"
| others: "tracker_run mutation r H t \<Longrightarrow>
    tracker_run mutation r H (t\<lparr>tr_satisfied := b, tr_ready := c, constraintTrackers := s, statsEnabled := v\<rparr>)"

definition tracker_inv :: "bool \<Rightarrow> int \<Rightarrow> history \<Rightarrow> Tracker \<Rightarrow> bool" where
  "tracker_inv mutation r H t \<longleftrightarrow>
     (\<forall>a < length (tr_heap t). \<exists>g. tr_heap t ! a = ot_run (H a) (newObjTracker g r)) \<and>
     (\<forall>a \<ge> length (tr_heap t). H a = []) \<and>
     tr_templates t < length (tr_heap t) \<and> tr_config t < length (tr_heap t) \<and>
     mutationEnabled t = mutation \<and>
     (mutation \<longrightarrow> (\<exists>a b. tr_assignMetadata t = Some a \<and> tr_assign t = Some b \<and>
        a < length (tr_heap t) \<and> b < length (tr_heap t))) \<and>
     (\<not> mutation \<longrightarrow> tr_assignMetadata t = None \<and> tr_assign t = None) \<and>
     (\<forall>gvk a. mget (tm_m (tr_constraints t)) gvk = Some a \<longrightarrow> a < length (tr_heap t)) \<and>
     (\<forall>gvk a. mget (tm_m (tr_data t)) gvk = Some a \<longrightarrow> a < length (tr_heap t)) \<and>
     tm_fn (tr_constraints t) = r \<and> tm_fn (tr_data t) = r"

lemma ot_run_snoc: "ot_run (es @ [e]) t = ot_step e (ot_run es t)"
  by (simp add: ot_run_def)

lemma ot_run_Nil [simp]: "ot_run [] t = t"
  by (simp add: ot_run_def)

lemma heap_history_call:
  assumes "\<forall>a < length h. \<exists>g. h ! a = ot_run (H a) (newObjTracker g r)" "a < length h"
  shows "\<forall>b < length h. \<exists>g. h[a := ot_step e (h ! a)] ! b = ot_run ((H(a := H a @ [e])) b) (newObjTracker g r)"
  using assms by (auto simp: nth_list_update ot_run_snoc) metis

lemma heap_history_write:
  assumes "\<forall>a < length h. \<exists>g. h ! a = ot_run (H a) (newObjTracker g r)" "\<forall>a \<ge> length h. H a = []"
  shows "\<forall>a < length (h @ [newObjTracker gvk r]). \<exists>g. (h @ [newObjTracker gvk r]) ! a = ot_run (H a) (newObjTracker g r)"
proof (intro allI impI)
  fix a
  assume "a < length (h @ [newObjTracker gvk r])"
  then show "\<exists>g. (h @ [newObjTracker gvk r]) ! a = ot_run (H a) (newObjTracker g r)"
    using assms by (cases "a < length h") (auto simp: nth_append)
qed

lemma tracker_inv_run: "tracker_run mutation r H t \<Longrightarrow> tracker_inv mutation r H t"
proof (induction rule: tracker_run.induct)
  case start
  show ?case
    by (auto simp: tracker_inv_def newTracker_def newTrackerMap_def less_Suc_eq nth_Cons split: nat.split)
next
  case (called H t a e)
  then show ?case
    using heap_history_call [of "tr_heap t" H r a e] unfolding tracker_inv_def by (auto simp: call_def)
next
  case (c_write H t gvk)
  then show ?case
    using heap_history_write [of "tr_heap t" H r gvk] unfolding tracker_inv_def
    by (auto simp: constraints_write_def tm_Get_write_def Let_def split: if_splits intro: less_SucI)
next
  case (d_write H t gvk)
  then show ?case
    using heap_history_write [of "tr_heap t" H r gvk] unfolding tracker_inv_def
    by (auto simp: data_write_def tm_Get_write_def Let_def split: if_splits intro: less_SucI)
qed (auto simp: tracker_inv_def tm_Remove_def)

section \<open>What a check of a tracker leaves unchanged\<close>

definition answers :: "heap \<Rightarrow> nat \<Rightarrow> bool" where
  "answers h a \<longleftrightarrow> snd (Satisfied (h ! a))"

definition es_answers :: "Expectations \<Rightarrow> heap \<Rightarrow> bool" where
  "es_answers es h \<longleftrightarrow> (case es of Noop \<Rightarrow> True | Ref a \<Rightarrow> answers h a)"

lemma es_answers_simps [simp]: "es_answers Noop h" "es_answers (Ref a) h \<longleftrightarrow> answers h a"
  by (simp_all add: es_answers_def)

lemma answers_Check: "snd (Satisfied (fst (Satisfied t))) = snd (Satisfied t)"
  by (auto simp: Satisfied_def Satisfied_read_def Satisfied_write_def Let_def)

lemma kinds_Check: "kinds (fst (Satisfied t)) = kinds t"
  by (auto simp: kinds_def kindsNoLock_def Satisfied_def Satisfied_read_def Satisfied_write_def Let_def)

lemma answers_new: "\<not> snd (Satisfied (newObjTracker g r))"
  by (simp add: Satisfied_iff newObjTracker_def)

text \<open>What two states of the tracker share when the second follows by checks and \<open>Get\<close>s: the
  answers and kinds of the trackers, the removed kinds and the entries; new entries do not
  answer.\<close>

definition same_map :: "heap \<Rightarrow> trackerMap \<Rightarrow> heap \<Rightarrow> trackerMap \<Rightarrow> bool" where
  "same_map h m h' m' \<longleftrightarrow>
     tm_removed m' = tm_removed m \<and>
     (\<forall>g a. mget (tm_m m) g = Some a \<longrightarrow> mget (tm_m m') g = Some a) \<and>
     (\<forall>g a. mget (tm_m m) g = None \<and> mget (tm_m m') g = Some a \<longrightarrow> \<not> answers h' a) \<and>
     (\<forall>g a. mget (tm_m m') g = Some a \<longrightarrow> a < length h')"

definition same_view :: "Tracker \<Rightarrow> Tracker \<Rightarrow> bool" where
  "same_view t t' \<longleftrightarrow>
     length (tr_heap t) \<le> length (tr_heap t') \<and>
     (\<forall>a < length (tr_heap t). answers (tr_heap t') a = answers (tr_heap t) a \<and>
        kinds (tr_heap t' ! a) = kinds (tr_heap t ! a)) \<and>
     tr_templates t' = tr_templates t \<and> tr_config t' = tr_config t \<and>
     tr_assignMetadata t' = tr_assignMetadata t \<and> tr_assign t' = tr_assign t \<and>
     mutationEnabled t' = mutationEnabled t \<and> tr_satisfied t' = tr_satisfied t \<and>
     same_map (tr_heap t) (tr_constraints t) (tr_heap t') (tr_constraints t') \<and>
     same_map (tr_heap t) (tr_data t) (tr_heap t') (tr_data t')"

definition map_valid :: "heap \<Rightarrow> trackerMap \<Rightarrow> bool" where
  "map_valid h m \<longleftrightarrow> (\<forall>g a. mget (tm_m m) g = Some a \<longrightarrow> a < length h)"

definition maps_valid :: "Tracker \<Rightarrow> bool" where
  "maps_valid t \<longleftrightarrow> map_valid (tr_heap t) (tr_constraints t) \<and> map_valid (tr_heap t) (tr_data t)"

lemma same_map_refl: "map_valid h m \<Longrightarrow> same_map h m h m"
  by (auto simp: same_map_def map_valid_def)

lemma same_view_refl: "maps_valid t \<Longrightarrow> same_view t t"
  by (simp add: same_view_def same_map_refl maps_valid_def)

lemma same_map_trans:
  assumes "same_map h1 m1 h2 m2" "same_map h2 m2 h3 m3" "\<forall>a < length h2. answers h3 a = answers h2 a"
  shows "same_map h1 m1 h3 m3"
proof -
  have "\<not> answers h3 a" if "mget (tm_m m1) g = None" "mget (tm_m m3) g = Some a" for g a
  proof (cases "mget (tm_m m2) g")
    case None
    then show ?thesis using assms(2) that unfolding same_map_def by blast
  next
    case (Some b)
    then have "b = a" using assms(2) that(2) unfolding same_map_def by fastforce
    then have "\<not> answers h2 a" "a < length h2" using assms(1) that(1) Some unfolding same_map_def by blast+
    then show ?thesis using assms(3) by blast
  qed
  then show ?thesis using assms(1,2) unfolding same_map_def by simp blast
qed

lemma same_view_trans: "same_view t1 t2 \<Longrightarrow> same_view t2 t3 \<Longrightarrow> same_view t1 t3"
  unfolding same_view_def by (auto intro: same_map_trans)

lemma same_view_valid: "same_view t t' \<Longrightarrow> maps_valid t'"
  by (simp add: same_view_def same_map_def maps_valid_def map_valid_def)

lemma same_view_call_Satisfied:
  assumes "maps_valid t" "valid_es es (tr_heap t)"
  shows "same_view t (fst (call_Satisfied es t))"
proof (cases es)
  case Noop
  then show ?thesis using assms by (simp add: call_Satisfied_def same_view_refl)
next
  case (Ref a)
  let ?h = "(tr_heap t)[a := fst (Satisfied (tr_heap t ! a))]"
  have "fst (call_Satisfied es t) = t\<lparr>tr_heap := ?h\<rparr>"
    using Ref by (simp add: call_Satisfied_def es_Satisfied_Ref)
  moreover have "answers ?h b = answers (tr_heap t) b \<and> kinds (?h ! b) = kinds (tr_heap t ! b)"
    if "b < length (tr_heap t)" for b
    using that by (cases "a = b") (simp_all add: answers_def answers_Check kinds_Check)
  ultimately show ?thesis
    using assms unfolding same_view_def same_map_def maps_valid_def map_valid_def by auto
qed

lemma snd_call_Satisfied:
  "snd (call_Satisfied es t) \<longleftrightarrow> es_answers es (tr_heap t)"
  by (cases es) (simp_all add: call_Satisfied_def es_Satisfied_Ref noop_Satisfied_def answers_def)

text \<open>\<open>Get\<close> on a map with its heap.\<close>

lemma tm_Get_cases:
  assumes "tm_Get g (h, m) = ((h', m'), es)"
  obtains (removed) "g \<in> tm_removed m" "h' = h" "m' = m" "es = Noop"
  | (found) a where "g \<notin> tm_removed m" "mget (tm_m m) g = Some a" "h' = h" "m' = m" "es = Ref a"
  | (fresh) "g \<notin> tm_removed m" "mget (tm_m m) g = None" "h' = h @ [newObjTracker g (tm_fn m)]"
      "m' = m\<lparr>tm_m := mput g (length h) (tm_m m)\<rparr>" "es = Ref (length h)"
proof (cases "g \<in> tm_removed m")
  case True
  then show ?thesis using assms by (intro removed) (simp_all add: tm_Get_def tm_Get_read_def)
next
  case rm: False
  show ?thesis
  proof (cases "mget (tm_m m) g")
    case None
    then show ?thesis using assms rm
      by (intro fresh) (simp_all add: tm_Get_def tm_Get_read_def tm_Get_write_def Let_def)
  next
    case (Some a)
    then show ?thesis using assms rm by (intro found [of a]) (simp_all add: tm_Get_def tm_Get_read_def)
  qed
qed

lemma same_map_append:
  "map_valid h m \<Longrightarrow> same_map h m (h @ [o']) m"
  by (auto simp: same_map_def map_valid_def intro: less_SucI)

lemma same_map_fresh:
  "map_valid h m \<Longrightarrow> mget (tm_m m) g = None \<Longrightarrow>
    same_map h m (h @ [newObjTracker g (tm_fn m)]) (m\<lparr>tm_m := mput g (length h) (tm_m m)\<rparr>)"
  by (auto simp: same_map_def map_valid_def answers_def answers_new intro: less_SucI split: if_splits)

lemma same_view_constraints_Get:
  assumes "maps_valid t" "constraints_Get g t = (t', es)"
  shows "same_view t t'"
proof -
  obtain h' m' where G: "tm_Get g (tr_heap t, tr_constraints t) = ((h', m'), es)"
    and t': "t' = t\<lparr>tr_heap := h', tr_constraints := m'\<rparr>"
    using assms(2) by (auto simp: constraints_Get_def split: prod.splits)
  from G show ?thesis
    using assms(1) same_view_refl [OF assms(1)]
    by (cases rule: tm_Get_cases)
      (auto simp: t' same_view_def maps_valid_def answers_def nth_append intro: same_map_append same_map_fresh)
qed

lemma same_view_data_Get:
  assumes "maps_valid t" "data_Get g t = (t', es)"
  shows "same_view t t'"
proof -
  obtain h' m' where G: "tm_Get g (tr_heap t, tr_data t) = ((h', m'), es)"
    and t': "t' = t\<lparr>tr_heap := h', tr_data := m'\<rparr>"
    using assms(2) by (auto simp: data_Get_def split: prod.splits)
  from G show ?thesis
    using assms(1) same_view_refl [OF assms(1)]
    by (cases rule: tm_Get_cases)
      (auto simp: t' same_view_def maps_valid_def answers_def nth_append intro: same_map_append same_map_fresh)
qed

text \<open>A kind is satisfied when it was removed or its tracker answers.\<close>

definition kind_answers :: "trackerMap \<Rightarrow> heap \<Rightarrow> GVK \<Rightarrow> bool" where
  "kind_answers m h g \<longleftrightarrow> g \<in> tm_removed m \<or> (\<exists>a. mget (tm_m m) g = Some a \<and> answers h a)"

lemma kind_answers_same:
  assumes "same_map h m h' m'" "map_valid h m" "\<forall>a < length h. answers h' a = answers h a"
  shows "kind_answers m' h' g = kind_answers m h g"
proof (cases "mget (tm_m m) g")
  case None
  then show ?thesis using assms unfolding kind_answers_def same_map_def by (metis option.distinct(1))
next
  case (Some a)
  then show ?thesis using assms unfolding kind_answers_def same_map_def map_valid_def by (metis option.inject)
qed

lemma tm_Get_answers:
  assumes "tm_Get g (h, m) = ((h', m'), es)" "map_valid h m"
  shows "valid_es es h'" "es_answers es h' \<longleftrightarrow> kind_answers m h g"
  using assms(1)
  by (cases rule: tm_Get_cases; use assms(2) in \<open>auto simp: kind_answers_def answers_def answers_new map_valid_def\<close>)+


lemma constraints_Get_answers:
  assumes "constraints_Get g t = (t', es)" "maps_valid t"
  shows "valid_es es (tr_heap t')"
    "snd (call_Satisfied es t') \<longleftrightarrow> kind_answers (tr_constraints t) (tr_heap t) g"
proof -
  obtain h' m' where G: "tm_Get g (tr_heap t, tr_constraints t) = ((h', m'), es)"
    and t': "t' = t\<lparr>tr_heap := h', tr_constraints := m'\<rparr>"
    using assms(1) by (auto simp: constraints_Get_def split: prod.splits)
  show "valid_es es (tr_heap t')"
    "snd (call_Satisfied es t') \<longleftrightarrow> kind_answers (tr_constraints t) (tr_heap t) g"
    using tm_Get_answers [OF G] assms(2) by (simp_all add: t' maps_valid_def snd_call_Satisfied)
qed

lemma data_Get_answers:
  assumes "data_Get g t = (t', es)" "maps_valid t"
  shows "valid_es es (tr_heap t')"
    "snd (call_Satisfied es t') \<longleftrightarrow> kind_answers (tr_data t) (tr_heap t) g"
proof -
  obtain h' m' where G: "tm_Get g (tr_heap t, tr_data t) = ((h', m'), es)"
    and t': "t' = t\<lparr>tr_heap := h', tr_data := m'\<rparr>"
    using assms(1) by (auto simp: data_Get_def split: prod.splits)
  show "valid_es es (tr_heap t')"
    "snd (call_Satisfied es t') \<longleftrightarrow> kind_answers (tr_data t) (tr_heap t) g"
    using tm_Get_answers [OF G] assms(2) by (simp_all add: t' maps_valid_def snd_call_Satisfied)
qed

lemma kind_answers_view:
  assumes "same_view t t'" "maps_valid t"
  shows "kind_answers (tr_constraints t') (tr_heap t') g = kind_answers (tr_constraints t) (tr_heap t) g"
    "kind_answers (tr_data t') (tr_heap t') g = kind_answers (tr_data t) (tr_heap t) g"
  by (rule kind_answers_same; use assms in \<open>simp add: same_view_def maps_valid_def\<close>)+

text \<open>A loop over the kinds of a map answers for all of them.\<close>

lemma satisfied_loop_answers:
  assumes get: "\<And>g t t' es. maps_valid t \<Longrightarrow> get g t = (t', es) \<Longrightarrow>
      same_view t t' \<and> valid_es es (tr_heap t') \<and> (snd (call_Satisfied es t') \<longleftrightarrow> K t g)"
    and K: "\<And>g t t'. same_view t t' \<Longrightarrow> maps_valid t \<Longrightarrow> K t' g = K t g"
  shows "maps_valid t \<Longrightarrow>
    same_view t (fst (satisfied_loop get gs t)) \<and> (snd (satisfied_loop get gs t) \<longleftrightarrow> (\<forall>g \<in> set gs. K t g))"
proof (induction gs arbitrary: t)
  case (Cons g gs)
  obtain t1 es where g: "get g t = (t1, es)" by (cases "get g t")
  obtain t2 ok where c: "call_Satisfied es t1 = (t2, ok)" by (cases "call_Satisfied es t1")
  note get = get [OF Cons.prems g]
  have v: "same_view t t1" "valid_es es (tr_heap t1)" "ok \<longleftrightarrow> K t g" using get c by auto
  have "same_view t1 t2"
    using same_view_call_Satisfied [OF same_view_valid [OF v(1)] v(2)] c by simp
  with v have v2: "same_view t t2" by (blast intro: same_view_trans)
  then have "K t2 g' = K t g'" for g' using K Cons.prems by blast
  then show ?case
    using Cons.IH [OF same_view_valid [OF v2]] v2 v(3) g c by (auto intro: same_view_trans)
qed (simp add: same_view_refl)

lemma constraints_loop:
  assumes "maps_valid t"
  shows "same_view t (fst (satisfied_loop constraints_Get gs t))"
    "snd (satisfied_loop constraints_Get gs t) \<longleftrightarrow> (\<forall>g \<in> set gs. kind_answers (tr_constraints t) (tr_heap t) g)"
proof -
  have "same_view t (fst (satisfied_loop constraints_Get gs t)) \<and> (snd (satisfied_loop constraints_Get gs t) \<longleftrightarrow>
      (\<forall>g \<in> set gs. kind_answers (tr_constraints t) (tr_heap t) g))"
    by (rule satisfied_loop_answers [where K = "\<lambda>t. kind_answers (tr_constraints t) (tr_heap t)"])
      (simp_all add: assms same_view_constraints_Get constraints_Get_answers kind_answers_view(1))
  then show "same_view t (fst (satisfied_loop constraints_Get gs t))"
    "snd (satisfied_loop constraints_Get gs t) \<longleftrightarrow> (\<forall>g \<in> set gs. kind_answers (tr_constraints t) (tr_heap t) g)"
    by auto
qed

lemma data_loop:
  assumes "maps_valid t"
  shows "same_view t (fst (satisfied_loop data_Get gs t))"
    "snd (satisfied_loop data_Get gs t) \<longleftrightarrow> (\<forall>g \<in> set gs. kind_answers (tr_data t) (tr_heap t) g)"
proof -
  have "same_view t (fst (satisfied_loop data_Get gs t)) \<and> (snd (satisfied_loop data_Get gs t) \<longleftrightarrow>
      (\<forall>g \<in> set gs. kind_answers (tr_data t) (tr_heap t) g))"
    by (rule satisfied_loop_answers [where K = "\<lambda>t. kind_answers (tr_data t) (tr_heap t)"])
      (simp_all add: assms same_view_data_Get data_Get_answers kind_answers_view(2))
  then show "same_view t (fst (satisfied_loop data_Get gs t))"
    "snd (satisfied_loop data_Get gs t) \<longleftrightarrow> (\<forall>g \<in> set gs. kind_answers (tr_data t) (tr_heap t) g)"
    by auto
qed

section \<open>When the tracker is ready\<close>

text \<open>The finite sets of an object tracker.\<close>

definition ot_finite :: "objectTracker \<Rightarrow> bool" where
  "ot_finite t \<longleftrightarrow> finite (expected t) \<and> finite (satisfied t) \<and> finite (seen t) \<and> finite (kindsSnapshot t)"

lemma ot_finite_step: "ot_finite t \<Longrightarrow> ot_finite (ot_step e t)"
  by (cases e)
    (auto simp: ot_finite_def Expect_def CancelExpect_def cancelExpectNoLock_def TryCancelExpect_def Observe_def
      ExpectationsDone_def Satisfied_def Satisfied_read_def Satisfied_write_def kindsNoLock_def Let_def
      split: sum.split prod.split)

lemma ot_finite_run: "ot_finite (ot_run es (newObjTracker g r))"
  by (induction es rule: rev_induct)
    (simp_all add: ot_finite_step ot_run_def, simp add: ot_finite_def newObjTracker_def)

lemma finite_kinds: "ot_finite t \<Longrightarrow> finite (kinds t)"
  by (simp add: ot_finite_def kinds_def kindsNoLock_def)

text \<open>All trackers that readiness waits for answer.\<close>

definition all_answer :: "Tracker \<Rightarrow> bool" where
  "all_answer t \<longleftrightarrow>
     (mutationEnabled t \<longrightarrow> (\<exists>a b. tr_assignMetadata t = Some a \<and> tr_assign t = Some b \<and>
        answers (tr_heap t) a \<and> answers (tr_heap t) b)) \<and>
     answers (tr_heap t) (tr_templates t) \<and>
     (\<forall>g \<in> kinds (tr_heap t ! tr_templates t). kind_answers (tr_constraints t) (tr_heap t) g) \<and>
     answers (tr_heap t) (tr_config t) \<and>
     (\<forall>g \<in> kinds (tr_heap t ! tr_config t). kind_answers (tr_data t) (tr_heap t) g)"

definition tracker_wf :: "Tracker \<Rightarrow> bool" where
  "tracker_wf t \<longleftrightarrow>
     maps_valid t \<and> tr_templates t < length (tr_heap t) \<and> tr_config t < length (tr_heap t) \<and>
     finite (kinds (tr_heap t ! tr_templates t)) \<and> finite (kinds (tr_heap t ! tr_config t)) \<and>
     (mutationEnabled t \<longrightarrow> (\<exists>a b. tr_assignMetadata t = Some a \<and> tr_assign t = Some b \<and>
        a < length (tr_heap t) \<and> b < length (tr_heap t))) \<and>
     (\<not> mutationEnabled t \<longrightarrow> tr_assignMetadata t = None \<and> tr_assign t = None)"

lemma tracker_run_wf:
  assumes "tracker_run mutation r H t"
  shows "tracker_wf t"
proof -
  have inv: "tracker_inv mutation r H t" using assms by (rule tracker_inv_run)
  then have "finite (kinds (tr_heap t ! a))" if "a < length (tr_heap t)" for a
    using that finite_kinds [OF ot_finite_run] unfolding tracker_inv_def by metis
  then show ?thesis using inv unfolding tracker_inv_def tracker_wf_def maps_valid_def map_valid_def by auto
qed

lemma tracker_wf_view: "same_view t t' \<Longrightarrow> tracker_wf t \<Longrightarrow> tracker_wf t'"
  using same_view_valid [of t t'] unfolding tracker_wf_def same_view_def by auto

lemma all_answer_view: "same_view t t' \<Longrightarrow> tracker_wf t \<Longrightarrow> all_answer t' = all_answer t"
  using kind_answers_view [of t t'] unfolding all_answer_def tracker_wf_def same_view_def by auto

lemma call_Satisfied_cases:
  assumes "tracker_wf t" "valid_es es (tr_heap t)"
  obtains t' where "call_Satisfied es t = (t', es_answers es (tr_heap t))" "same_view t t'" "tracker_wf t'"
proof -
  have v: "same_view t (fst (call_Satisfied es t))"
    using same_view_call_Satisfied assms by (simp add: tracker_wf_def)
  have "call_Satisfied es t = (fst (call_Satisfied es t), es_answers es (tr_heap t))"
    by (simp add: prod_eq_iff snd_call_Satisfied)
  with v tracker_wf_view [OF v assms(1)] show ?thesis by (rule that [rotated])
qed

lemma mutation_view:
  assumes "tracker_wf t" "mutationEnabled t"
  shows "same_view t (fst (mutation_Satisfied t)) \<and> (snd (mutation_Satisfied t) \<longleftrightarrow>
    (\<exists>a b. tr_assignMetadata t = Some a \<and> tr_assign t = Some b \<and> answers (tr_heap t) a \<and> answers (tr_heap t) b))"
proof -
  obtain a b where ab: "tr_assignMetadata t = Some a" "tr_assign t = Some b"
    "a < length (tr_heap t)" "b < length (tr_heap t)"
    using assms unfolding tracker_wf_def by blast
  obtain t1 where t1: "call_Satisfied (Ref a) t = (t1, answers (tr_heap t) a)" "same_view t t1" "tracker_wf t1"
    using call_Satisfied_cases [OF assms(1), of "Ref a"] ab(3) by auto
  have b: "b < length (tr_heap t1)" "answers (tr_heap t1) b = answers (tr_heap t) b"
    using t1(2) ab(4) unfolding same_view_def by auto
  obtain t2 where t2: "call_Satisfied (Ref b) t1 = (t2, answers (tr_heap t1) b)" "same_view t1 t2"
    using call_Satisfied_cases [OF t1(3), of "Ref b"] b(1) by auto
  show ?thesis
    using t1 t2 b ab by (auto simp: mutation_Satisfied_def intro: same_view_trans)
qed

lemma templates_view:
  assumes "tracker_wf t"
  shows "same_view t (fst (templates_Satisfied t)) \<and> (snd (templates_Satisfied t) \<longleftrightarrow>
    answers (tr_heap t) (tr_templates t) \<and>
    (\<forall>g \<in> kinds (tr_heap t ! tr_templates t). kind_answers (tr_constraints t) (tr_heap t) g))"
proof -
  have v: "tr_templates t < length (tr_heap t)" using assms by (simp add: tracker_wf_def)
  obtain t1 where t1: "call_Satisfied (Ref (tr_templates t)) t = (t1, answers (tr_heap t) (tr_templates t))"
    "same_view t t1" "tracker_wf t1"
    using call_Satisfied_cases [OF assms, of "Ref (tr_templates t)"] v by auto
  have "set (kinds_of (tr_templates t1) t1) = kinds (tr_heap t ! tr_templates t)"
    using t1(2,3) v by (simp add: kinds_of_def tracker_wf_def) (simp add: same_view_def)
  then show ?thesis
    using t1 constraints_loop [of t1 "kinds_of (tr_templates t1) t1"] kind_answers_view(1) [OF t1(2)] assms
    by (auto simp: templates_Satisfied_def tracker_wf_def intro: same_view_trans)
qed

lemma config_view:
  assumes "tracker_wf t"
  shows "same_view t (fst (config_Satisfied t)) \<and> (snd (config_Satisfied t) \<longleftrightarrow>
    answers (tr_heap t) (tr_config t) \<and>
    (\<forall>g \<in> kinds (tr_heap t ! tr_config t). kind_answers (tr_data t) (tr_heap t) g))"
proof -
  have v: "tr_config t < length (tr_heap t)" using assms by (simp add: tracker_wf_def)
  obtain t1 where t1: "call_Satisfied (Ref (tr_config t)) t = (t1, answers (tr_heap t) (tr_config t))"
    "same_view t t1" "tracker_wf t1"
    using call_Satisfied_cases [OF assms, of "Ref (tr_config t)"] v by auto
  have "set (kinds_of (tr_config t1) t1) = kinds (tr_heap t ! tr_config t)"
    using t1(2,3) v by (simp add: kinds_of_def tracker_wf_def) (simp add: same_view_def)
  then show ?thesis
    using t1 data_loop [of t1 "kinds_of (tr_config t1) t1"] kind_answers_view(2) [OF t1(2)] assms
    by (auto simp: config_Satisfied_def tracker_wf_def intro: same_view_trans)
qed

lemma Tracker_Satisfied_iff:
  assumes "tracker_wf t"
  shows "snd (Tracker_Satisfied t) \<longleftrightarrow> tr_satisfied t \<or> all_answer t"
proof (cases "tr_satisfied t")
  case False
  obtain t1 ok1 where m: "(if mutationEnabled t then mutation_Satisfied t else (t, True)) = (t1, ok1)"
    by (cases "if mutationEnabled t then mutation_Satisfied t else (t, True)")
  have v1: "same_view t t1"
    using mutation_view [OF assms] m assms same_view_refl [of t] by (auto simp: tracker_wf_def split: if_splits)
  have wf1: "tracker_wf t1" by (rule tracker_wf_view [OF v1 assms])
  obtain t2 ok2 where c: "templates_Satisfied t1 = (t2, ok2)" by (cases "templates_Satisfied t1")
  have v2: "same_view t1 t2" using templates_view [OF wf1] c by simp
  have wf2: "tracker_wf t2" by (rule tracker_wf_view [OF v2 wf1])
  have ok1: "ok1 \<longleftrightarrow> (mutationEnabled t1 \<longrightarrow> (\<exists>a b. tr_assignMetadata t1 = Some a \<and> tr_assign t1 = Some b \<and>
        answers (tr_heap t1) a \<and> answers (tr_heap t1) b))"
  proof (cases "mutationEnabled t")
    case True
    then obtain a b where ab: "tr_assignMetadata t = Some a" "tr_assign t = Some b"
      "a < length (tr_heap t)" "b < length (tr_heap t)" using assms unfolding tracker_wf_def by blast
    then show ?thesis using mutation_view [OF assms True] m v1 True by (simp add: same_view_def)
  next
    case False
    then show ?thesis using m by simp
  qed
  have "all_answer t \<longleftrightarrow> ok1 \<and> ok2 \<and> snd (config_Satisfied t2)"
    using all_answer_view [OF v1 assms] all_answer_view [OF v2 wf1] ok1 templates_view [OF wf1] config_view [OF wf2] c
      kind_answers_view [OF v2] v2 wf1
    unfolding all_answer_def same_view_def tracker_wf_def by simp
  then show ?thesis
    using False m c by (auto simp: Tracker_Satisfied_def Let_def split: prod.split)
qed (simp add: Tracker_Satisfied_def)

text \<open>The trackers readiness waits for.\<close>

definition kind_addresses :: "trackerMap \<Rightarrow> GVK set \<Rightarrow> nat set" where
  "kind_addresses m gs = {a. \<exists>g \<in> gs. g \<notin> tm_removed m \<and> mget (tm_m m) g = Some a}"

definition awaited :: "Tracker \<Rightarrow> nat set" where
  "awaited t =
     {tr_templates t, tr_config t} \<union>
     (if mutationEnabled t then set_option (tr_assignMetadata t) \<union> set_option (tr_assign t) else {}) \<union>
     kind_addresses (tr_constraints t) (kinds (tr_heap t ! tr_templates t)) \<union>
     kind_addresses (tr_data t) (kinds (tr_heap t ! tr_config t))"

definition tracked_or_removed :: "trackerMap \<Rightarrow> GVK set \<Rightarrow> bool" where
  "tracked_or_removed m gs \<longleftrightarrow> (\<forall>g \<in> gs. g \<in> tm_removed m \<or> tm_Has g m)"

lemma kind_answers_addresses:
  "(\<forall>g \<in> gs. kind_answers m h g) \<longleftrightarrow>
    tracked_or_removed m gs \<and> (\<forall>a \<in> kind_addresses m gs. answers h a)"
  unfolding kind_answers_def tracked_or_removed_def kind_addresses_def tm_Has_def by fastforce

lemma all_answer_awaited:
  assumes "tracker_wf t"
  shows "all_answer t \<longleftrightarrow>
    (\<forall>a \<in> awaited t. answers (tr_heap t) a) \<and>
    tracked_or_removed (tr_constraints t) (kinds (tr_heap t ! tr_templates t)) \<and>
    tracked_or_removed (tr_data t) (kinds (tr_heap t ! tr_config t))"
proof (cases "mutationEnabled t")
  case True
  then obtain a b where "tr_assignMetadata t = Some a" "tr_assign t = Some b"
    using assms unfolding tracker_wf_def by blast
  then show ?thesis
    using True by (simp add: all_answer_def awaited_def kind_answers_addresses ball_Un) blast
next
  case False
  then show ?thesis by (simp add: all_answer_def awaited_def kind_answers_addresses ball_Un) blast
qed

definition history_done :: "int \<Rightarrow> event list \<Rightarrow> bool" where
  "history_done r es \<longleftrightarrow>
     EvDone \<in> set es \<and> (\<forall>k. expected_in es k \<longrightarrow> observed_in es k \<or> given_up_in r es k)"

definition single_expects :: "event list \<Rightarrow> bool" where
  "single_expects es \<longleftrightarrow> (\<forall>k. expect_count es k \<le> 1)"

lemma awaited_valid:
  assumes "tracker_inv mutation r H t" "a \<in> awaited t"
  shows "\<exists>g. tr_heap t ! a = ot_run (H a) (newObjTracker g r)"
proof -
  have "a < length (tr_heap t)"
    using assms unfolding tracker_inv_def awaited_def kind_addresses_def
    by (auto split: if_splits)
  then show ?thesis using assms(1) unfolding tracker_inv_def by blast
qed

lemma answers_awaited:
  assumes "tracker_inv mutation r H t" "a \<in> awaited t"
  shows "answers (tr_heap t) a \<Longrightarrow> history_done r (H a)"
    "single_expects (H a) \<Longrightarrow> history_done r (H a) \<Longrightarrow> answers (tr_heap t) a"
proof -
  obtain g where g: "tr_heap t ! a = ot_run (H a) (newObjTracker g r)"
    using awaited_valid [OF assms] by blast
  show "answers (tr_heap t) a \<Longrightarrow> history_done r (H a)"
    using Satisfied_history_sound [of "H a" g r] g by (simp add: answers_def history_done_def)
  show "single_expects (H a) \<Longrightarrow> history_done r (H a) \<Longrightarrow> answers (tr_heap t) a"
    using Satisfied_history_iff [of "H a" g r] g by (simp add: answers_def history_done_def single_expects_def)
qed

section \<open>Operations are runs\<close>

definition reach :: "bool \<Rightarrow> int \<Rightarrow> Tracker \<Rightarrow> bool" where
  "reach mutation r t \<longleftrightarrow> (\<exists>H. tracker_run mutation r H t)"

lemma reach_start: "reach mutation r (newTracker mutation r)"
  unfolding reach_def by (blast intro: tracker_run.start)

lemma reach_wf: "reach mutation r t \<Longrightarrow> tracker_wf t"
  unfolding reach_def by (blast intro: tracker_run_wf)

lemma call_Noop [simp]: "call Noop e t = t"
  by (simp add: call_def)

lemma reach_call:
  assumes "reach mutation r t" "valid_es es (tr_heap t)"
  shows "reach mutation r (call es e t)"
proof (cases es)
  case (Ref a)
  then show ?thesis using assms unfolding reach_def by (auto intro: tracker_run.called)
qed (use assms in simp)

lemma valid_es_call [simp]: "valid_es es' (tr_heap (call es e t)) \<longleftrightarrow> valid_es es' (tr_heap t)"
  by (cases es') (simp_all add: call_def)

lemma reach_templates [simp]: "reach mutation r t \<Longrightarrow> tr_templates t < length (tr_heap t)"
  and reach_config [simp]: "reach mutation r t \<Longrightarrow> tr_config t < length (tr_heap t)"
  using reach_wf unfolding tracker_wf_def by blast+

lemma call_simps [simp]:
  "length (tr_heap (call es e t)) = length (tr_heap t)" "tr_templates (call es e t) = tr_templates t"
  "tr_config (call es e t) = tr_config t" "tr_constraints (call es e t) = tr_constraints t"
  "tr_data (call es e t) = tr_data t" "mutationEnabled (call es e t) = mutationEnabled t"
  "tr_satisfied (call es e t) = tr_satisfied t" "tr_ready (call es e t) = tr_ready t"
  "constraintTrackers (call es e t) = constraintTrackers t"
  by (simp_all add: call_def)

lemma fst_call_Satisfied: "fst (call_Satisfied es t) = call es EvCheck t"
  by (simp add: call_Satisfied_def call_def es_Satisfied_fst [symmetric] split: prod.split)

lemma constraints_Get_alt:
  "fst (constraints_Get g t) = (if tm_Get_read g (tr_constraints t) = None then constraints_write g t else t)"
  by (auto simp: constraints_Get_def constraints_write_def tm_Get_def split: prod.split option.split)

lemma data_Get_alt:
  "fst (data_Get g t) = (if tm_Get_read g (tr_data t) = None then data_write g t else t)"
  by (auto simp: data_Get_def data_write_def tm_Get_def split: prod.split option.split)

text \<open>What an operation does to a reachable state: the state stays reachable, references stay
  valid and the circuit breaker stays tripped.\<close>

definition op_ok :: "bool \<Rightarrow> int \<Rightarrow> Tracker \<Rightarrow> Tracker \<Rightarrow> bool" where
  "op_ok mutation r t t' \<longleftrightarrow>
     (reach mutation r t \<longrightarrow>
        reach mutation r t' \<and> length (tr_heap t) \<le> length (tr_heap t') \<and> (tr_satisfied t \<longrightarrow> tr_satisfied t'))"

lemma op_ok_refl: "op_ok mutation r t t"
  by (simp add: op_ok_def)

lemma op_ok_trans: "op_ok mutation r t1 t2 \<Longrightarrow> op_ok mutation r t2 t3 \<Longrightarrow> op_ok mutation r t1 t3"
  by (auto simp: op_ok_def)

lemma op_ok_call: "valid_es es (tr_heap t) \<Longrightarrow> op_ok mutation r t (call es e t)"
  by (simp add: op_ok_def reach_call)

lemma op_ok_call_templates: "op_ok mutation r t (call (Ref (tr_templates t)) e t)"
  by (auto simp: op_ok_def reach_call)

lemma op_ok_call_config: "op_ok mutation r t (call (Ref (tr_config t)) e t)"
  by (auto simp: op_ok_def reach_call)

lemma op_ok_Satisfied: "valid_es es (tr_heap t) \<Longrightarrow> op_ok mutation r t (fst (call_Satisfied es t))"
  by (simp add: fst_call_Satisfied op_ok_call)

lemma reach_others:
  "reach mutation r t \<Longrightarrow>
    reach mutation r (t\<lparr>tr_satisfied := b, tr_ready := c, constraintTrackers := s, statsEnabled := v\<rparr>)"
  unfolding reach_def by (blast intro: tracker_run.others)

lemma runner_ready_commute:
  "(t :: Tracker)\<lparr>constraintTrackers := s, tr_ready := c\<rparr> = t\<lparr>tr_ready := c, constraintTrackers := s\<rparr>"
  by (cases t) simp

lemma op_ok_fields:
  "op_ok mutation r t (t\<lparr>tr_satisfied := True\<rparr>)"
  "op_ok mutation r t (t\<lparr>constraintTrackers := s\<rparr>)"
  "op_ok mutation r t (t\<lparr>constraintTrackers := s, tr_ready := c\<rparr>)"
  "op_ok mutation r t (t\<lparr>statsEnabled := v\<rparr>)"
  using reach_others [of mutation r t, where b = True and c = "tr_ready t" and s = "constraintTrackers t" and v = "statsEnabled t"]
    reach_others [of mutation r t, where b = "tr_satisfied t" and c = "tr_ready t" and s = s and v = "statsEnabled t"]
    reach_others [of mutation r t, where b = "tr_satisfied t" and c = c and s = s and v = "statsEnabled t"]
    reach_others [of mutation r t, where b = "tr_satisfied t" and c = "tr_ready t" and s = "constraintTrackers t" and v = v]
  by (simp_all add: op_ok_def runner_ready_commute)

lemma op_ok_remove:
  "op_ok mutation r t (t\<lparr>tr_constraints := tm_Remove gvk (tr_constraints t)\<rparr>)"
  "op_ok mutation r t (t\<lparr>tr_data := tm_Remove gvk (tr_data t)\<rparr>)"
  unfolding op_ok_def reach_def by (auto intro: tracker_run.c_remove tracker_run.d_remove)

text \<open>A \<open>Get\<close> also yields a valid reference.\<close>

definition get_ok :: "bool \<Rightarrow> int \<Rightarrow> (GVK \<Rightarrow> Tracker \<Rightarrow> Tracker \<times> Expectations) \<Rightarrow> bool" where
  "get_ok mutation r get \<longleftrightarrow>
     (\<forall>g t. op_ok mutation r t (fst (get g t)) \<and>
        (reach mutation r t \<longrightarrow> valid_es (snd (get g t)) (tr_heap (fst (get g t)))))"

lemma reach_valid: "reach mutation r t \<Longrightarrow> maps_valid t"
  using reach_wf by (auto simp: tracker_wf_def)

lemma get_ok_constraints: "get_ok mutation r constraints_Get"
proof -
  have "op_ok mutation r t (fst (constraints_Get g t))" for g t
    using same_view_constraints_Get [of t g] reach_valid [of mutation r t] constraints_Get_alt [of g t]
    unfolding op_ok_def reach_def same_view_def
    by (metis prod.collapse tracker_run.c_write)
  moreover have "valid_es (snd (constraints_Get g t)) (tr_heap (fst (constraints_Get g t)))"
    if "reach mutation r t" for g t
    using constraints_Get_answers(1) [of g t] reach_valid [OF that] by (metis prod.collapse)
  ultimately show ?thesis by (simp add: get_ok_def)
qed

lemma get_ok_data: "get_ok mutation r data_Get"
proof -
  have "op_ok mutation r t (fst (data_Get g t))" for g t
    using same_view_data_Get [of t g] reach_valid [of mutation r t] data_Get_alt [of g t]
    unfolding op_ok_def reach_def same_view_def
    by (metis prod.collapse tracker_run.d_write)
  moreover have "valid_es (snd (data_Get g t)) (tr_heap (fst (data_Get g t)))"
    if "reach mutation r t" for g t
    using data_Get_answers(1) [of g t] reach_valid [OF that] by (metis prod.collapse)
  ultimately show ?thesis by (simp add: get_ok_def)
qed

lemma op_ok_get:
  assumes "get_ok mutation r get" "get g t = (t', es)"
  shows "op_ok mutation r t t'" "reach mutation r t \<Longrightarrow> valid_es es (tr_heap t')"
  using assms unfolding get_ok_def by (metis fst_conv snd_conv)+

lemma op_ok_get_call:
  assumes "get_ok mutation r get" "get g t = (t', es)"
  shows "op_ok mutation r t (call es e t')"
  using op_ok_get [OF assms] by (auto simp: op_ok_def reach_call)

lemma op_ok_loop:
  assumes "get_ok mutation r get"
  shows "op_ok mutation r t (fst (satisfied_loop get gs t))"
proof (induction gs arbitrary: t)
  case (Cons g gs)
  obtain t1 es where g: "get g t = (t1, es)" by (cases "get g t")
  obtain t2 ok where c: "call_Satisfied es t1 = (t2, ok)" by (cases "call_Satisfied es t1")
  have t2: "op_ok mutation r t t2"
    using op_ok_get_call [OF assms g, of EvCheck] fst_call_Satisfied [of es t1] c by simp
  show ?case
    using g c t2 op_ok_trans [OF t2 Cons.IH] by simp
qed (simp add: op_ok_refl)

lemma valid_mono: "valid_es es h \<Longrightarrow> length h \<le> length h' \<Longrightarrow> valid_es es h'"
  by (cases es) simp_all

lemma op_ok_mutation: "mutationEnabled t \<Longrightarrow> op_ok mutation r t (fst (mutation_Satisfied t))"
proof (cases "reach mutation r t")
  case True
  assume m: "mutationEnabled t"
  then obtain a b where ab: "tr_assignMetadata t = Some a" "tr_assign t = Some b"
    "a < length (tr_heap t)" "b < length (tr_heap t)"
    using reach_wf [OF True] unfolding tracker_wf_def by blast
  obtain t1 ok where c: "call_Satisfied (Ref a) t = (t1, ok)" by (cases "call_Satisfied (Ref a) t")
  then have t1: "t1 = call (Ref a) EvCheck t" using fst_call_Satisfied [of "Ref a" t] by simp
  obtain t2 ok' where c': "call_Satisfied (Ref b) t1 = (t2, ok')" by (cases "call_Satisfied (Ref b) t1")
  then have t2: "t2 = call (Ref b) EvCheck t1" using fst_call_Satisfied [of "Ref b" t1] by simp
  have o1: "op_ok mutation r t t1" using ab(3) unfolding t1 by (intro op_ok_call) simp
  have "op_ok mutation r t1 t2" using ab(4) unfolding t2 t1 by (intro op_ok_call) simp
  with o1 have "op_ok mutation r t t2" by (rule op_ok_trans)
  with o1 show ?thesis
    using ab c c' by (simp add: mutation_Satisfied_def)
qed (simp add: op_ok_def)

lemma op_ok_templates_Satisfied: "op_ok mutation r t (fst (templates_Satisfied t))"
proof -
  obtain t1 ok where c: "call_Satisfied (Ref (tr_templates t)) t = (t1, ok)"
    by (cases "call_Satisfied (Ref (tr_templates t)) t")
  have t1: "op_ok mutation r t t1"
    using op_ok_call_templates [of mutation r t EvCheck] fst_call_Satisfied [of "Ref (tr_templates t)" t] c by simp
  show ?thesis
    using c t1 op_ok_trans [OF t1 op_ok_loop [OF get_ok_constraints]] by (simp add: templates_Satisfied_def)
qed

lemma op_ok_config_Satisfied: "op_ok mutation r t (fst (config_Satisfied t))"
proof -
  obtain t1 ok where c: "call_Satisfied (Ref (tr_config t)) t = (t1, ok)"
    by (cases "call_Satisfied (Ref (tr_config t)) t")
  have t1: "op_ok mutation r t t1"
    using op_ok_call_config [of mutation r t EvCheck] fst_call_Satisfied [of "Ref (tr_config t)" t] c by simp
  show ?thesis
    using c t1 op_ok_trans [OF t1 op_ok_loop [OF get_ok_data]] by (simp add: config_Satisfied_def)
qed

lemma op_ok_Tracker_Satisfied: "op_ok mutation r t (fst (Tracker_Satisfied t))"
proof -
  define S1 where "S1 = (if mutationEnabled t then mutation_Satisfied t else (t, True))"
  have s1: "op_ok mutation r t (fst S1)"
    using op_ok_mutation by (simp add: S1_def op_ok_refl)
  have s2: "op_ok mutation r t (fst (templates_Satisfied (fst S1)))"
    by (rule op_ok_trans [OF s1 op_ok_templates_Satisfied])
  have s3: "op_ok mutation r t (fst (config_Satisfied (fst (templates_Satisfied (fst S1)))))"
    by (rule op_ok_trans [OF s2 op_ok_config_Satisfied])
  have s4: "op_ok mutation r t ((fst (config_Satisfied (fst (templates_Satisfied (fst S1)))))\<lparr>tr_satisfied := True\<rparr>)"
    by (rule op_ok_trans [OF s3 op_ok_fields(1)])
  show ?thesis
    using s1 s2 s3 s4 by (auto simp: Tracker_Satisfied_def S1_def [symmetric] op_ok_refl Let_def split: prod.split)
qed

end
