(* ===== verification/Ready_Operations.thy ===== *)
theory Ready_Operations
  imports Ready_Facts
begin

text \<open>
  Every operation of the readiness tracker is a run of the smallest steps (\<open>op_ok\<close>), for any
  result of the API server, so what holds along runs holds whatever is called in whatever order;
  and what a collection does to the tracker it is for.
\<close>

section \<open>The operations\<close>

lemma op_ok_For: "op_ok mutation r t (fst (For g t))"
  and For_valid: "reach mutation r t \<Longrightarrow> valid_es (snd (For g t)) (tr_heap (fst (For g t)))"
proof -
  show "op_ok mutation r t (fst (For g t))"
    using op_ok_refl op_ok_get(1) [OF get_ok_constraints prod.collapse [symmetric]] by (simp add: For_def)
  assume t: "reach mutation r t"
  then have m: "mutationEnabled t \<Longrightarrow> \<exists>a b. tr_assignMetadata t = Some a \<and> tr_assign t = Some b \<and>
      a < length (tr_heap t) \<and> b < length (tr_heap t)"
    using reach_wf by (auto simp: tracker_wf_def)
  show "valid_es (snd (For g t)) (tr_heap (fst (For g t)))"
    using t m op_ok_get(2) [OF get_ok_constraints prod.collapse [symmetric] t]
    by (auto simp: For_def split: option.split)
qed

lemma op_ok_ForData: "op_ok mutation r t (fst (ForData g t))"
  and ForData_valid: "reach mutation r t \<Longrightarrow> valid_es (snd (ForData g t)) (tr_heap (fst (ForData g t)))"
  using op_ok_refl op_ok_get [OF get_ok_data prod.collapse [symmetric]] by (simp_all add: ForData_def)

lemma op_ok_cleanup: "op_ok mutation r t (fst (templateCleanup ct t))"
  using op_ok_trans [OF op_ok_remove(1) op_ok_fields(2)] op_ok_remove(1)
  by (simp add: templateCleanup_def Let_def)

lemma op_ok_CancelTemplate: "op_ok mutation r t (fst (CancelTemplate ct t))"
  unfolding CancelTemplate_def by (rule op_ok_trans [OF op_ok_call_templates op_ok_cleanup])

lemma op_ok_TryCancelTemplate: "op_ok mutation r t (fst (TryCancelTemplate ct t))"
proof -
  obtain ot b where c: "TryCancelExpect (TemplateObject ct) (tr_heap t ! tr_templates t) = (ot, b)"
    by (cases "TryCancelExpect (TemplateObject ct) (tr_heap t ! tr_templates t)")
  have "call (Ref (tr_templates t)) (EvTryCancel (TemplateObject ct)) t =
      t\<lparr>tr_heap := (tr_heap t)[tr_templates t := ot]\<rparr>"
    using c by (simp add: call_def)
  then have "op_ok mutation r t (t\<lparr>tr_heap := (tr_heap t)[tr_templates t := ot]\<rparr>)"
    using op_ok_call_templates by metis
  then show ?thesis
    using c op_ok_trans [OF _ op_ok_cleanup] by (simp add: TryCancelTemplate_def Let_def)
qed

lemma op_ok_CancelData: "op_ok mutation r t (CancelData g t)"
  unfolding CancelData_def by (rule op_ok_remove)

lemma op_ok_expect_all: "valid_es es (tr_heap t) \<Longrightarrow> op_ok mutation r t (expect_all es items t)"
proof (induction items arbitrary: t)
  case (Cons o' os)
  have "op_ok mutation r (call es (EvExpect o') t) (expect_all es os (call es (EvExpect o') t))"
    by (rule Cons.IH) (simp add: Cons.prems)
  with op_ok_call [OF Cons.prems] show ?case by (auto simp: expect_all_def intro: op_ok_trans)
qed (simp add: expect_all_def op_ok_refl)

lemma length_expect_all [simp]: "length (tr_heap (expect_all es items t)) = length (tr_heap t)"
  unfolding expect_all_def by (induction items arbitrary: t) simp_all

lemma op_ok_expect_done:
  assumes "valid_es es (tr_heap t)"
  shows "op_ok mutation r t (call es EvDone (expect_all es items t))"
  by (rule op_ok_trans [OF op_ok_expect_all op_ok_call]) (use assms in \<open>auto simp: valid_mono\<close>)

lemma op_ok_trackConstraints:
  "valid_es es (tr_heap t) \<Longrightarrow> op_ok mutation r t (fst (trackConstraints g es listing t))"
  by (auto simp: trackConstraints_def op_ok_expect_done op_ok_call split: sum.split)

lemma op_ok_trackData:
  "valid_es es (tr_heap t) \<Longrightarrow> op_ok mutation r t (fst (trackData lister g es t))"
  by (auto simp: trackData_def op_ok_expect_done op_ok_call split: sum.split)

lemma op_ok_trackAssignMetadata:
  assumes "reach mutation r t" "trackAssignMetadata listing t = Some (t', err)"
  shows "op_ok mutation r t t'"
proof -
  obtain a where a: "tr_assignMetadata t = Some a"
    using assms(2) by (auto simp: trackAssignMetadata_def split: option.splits)
  have "mutationEnabled t \<and> a < length (tr_heap t)"
    using reach_wf [OF assms(1)] a by (cases "mutationEnabled t") (auto simp: tracker_wf_def)
  then show ?thesis
    using assms(2) a by (auto simp: trackAssignMetadata_def op_ok_call op_ok_expect_done split: if_splits sum.splits)
qed


lemma op_ok_trackAssign:
  assumes "reach mutation r t" "trackAssign listing t = Some (t', err)"
  shows "op_ok mutation r t t'"
proof -
  obtain a where a: "tr_assign t = Some a"
    using assms(2) by (auto simp: trackAssign_def split: option.splits)
  have "mutationEnabled t \<and> a < length (tr_heap t)"
    using reach_wf [OF assms(1)] a by (cases "mutationEnabled t") (auto simp: tracker_wf_def)
  then show ?thesis
    using assms(2) a by (auto simp: trackAssign_def op_ok_call op_ok_expect_done split: if_splits sum.splits)
qed

lemma op_ok_track_templates:
  "track_templates cts handled t = Some t' \<Longrightarrow> op_ok mutation r t t'"
proof (induction cts arbitrary: handled t)
  case (Cons ct cts)
  define t1 where "t1 = call (Ref (tr_templates t)) (EvExpect (TemplateObject ct)) t"
  define g where "g = constraintGVK (ct_Kind ct)"
  obtain t2 es where G: "constraints_Get g t1 = (t2, es)" by (cases "constraints_Get g t1")
  have t1: "op_ok mutation r t t1" unfolding t1_def by (rule op_ok_call_templates)
  have t2: "op_ok mutation r t (t2\<lparr>constraintTrackers := s\<rparr>)" for s
    using t1 op_ok_get(1) [OF get_ok_constraints G] op_ok_fields(2) by (blast intro: op_ok_trans)
  show ?case
  proof (cases "g \<in> handled")
    case True
    then have "track_templates cts handled t1 = Some t'"
      using Cons.prems by (simp add: t1_def g_def Let_def)
    then show ?thesis using Cons.IH t1 op_ok_trans by blast
  next
    case False
    then obtain s where "track_templates cts (insert g handled) (t2\<lparr>constraintTrackers := s\<rparr>) = Some t'"
      using Cons.prems G unfolding track_templates.simps Let_def t1_def g_def
      by (simp split: option.splits)
    then show ?thesis using Cons.IH t2 op_ok_trans by blast
  qed
qed (simp add: op_ok_refl)

lemma op_ok_trackConstraintTemplates:
  "trackConstraintTemplates listing t = Some (t', err) \<Longrightarrow> op_ok mutation r t t'"
  using op_ok_call_templates op_ok_trans [OF op_ok_track_templates op_ok_call_templates]
  by (auto simp: trackConstraintTemplates_def split: sum.splits)

lemma op_ok_track_entries:
  assumes "reach mutation r t"
  shows "op_ok mutation r t (fst (track_entries gs t)) \<and>
    (\<forall>(g, es) \<in> set (snd (track_entries gs t)). valid_es es (tr_heap (fst (track_entries gs t))))"
  using assms
proof (induction gs arbitrary: t)
  case (Cons g gs)
  define u where "u = UnstructuredObject (newUnstructured g [] []) False"
  define t1 where "t1 = call (Ref (tr_config t)) (EvExpect u) t"
  define t2 where "t2 = call (Ref (tr_config t1)) (EvObserve u) t1"
  obtain t3 dt where D: "ForData g t2 = (t3, dt)" by (cases "ForData g t2")
  have t2: "op_ok mutation r t t2"
    unfolding t2_def t1_def by (rule op_ok_trans [OF op_ok_call_config op_ok_call_config])
  then have "reach mutation r t2" using Cons.prems by (simp add: op_ok_def)
  then have dt: "valid_es dt (tr_heap t3)" using ForData_valid D by (metis fst_conv snd_conv)
  have t3: "op_ok mutation r t t3" using t2 op_ok_ForData D op_ok_trans by (metis fst_conv)
  then have "reach mutation r t3" using Cons.prems by (simp add: op_ok_def)
  note IH = Cons.IH [OF this]
  obtain t4 sp where R: "track_entries gs t3 = (t4, sp)" by (cases "track_entries gs t3")
  have "track_entries (g # gs) t = (t4, (g, dt) # sp)"
    using D R by (simp add: Let_def u_def t1_def t2_def)
  moreover have "valid_es dt (tr_heap t4)"
    using IH R dt \<open>reach mutation r t3\<close> valid_mono by (auto simp: op_ok_def)
  ultimately show ?case
    using IH R t3 by (auto intro: op_ok_trans)
qed (simp add: op_ok_refl)

lemma op_ok_spawned:
  assumes "reach mutation r t" "\<forall>(g, es) \<in> set sp. valid_es es (tr_heap t)"
  shows "op_ok mutation r t (fold (\<lambda>(g, dt) t. fst (trackData lister g dt t)) sp t)"
  using assms
proof (induction sp arbitrary: t)
  case (Cons p sp)
  obtain g es where p: "p = (g, es)" by (cases p)
  have "op_ok mutation r t (fst (trackData lister g es t))"
    using Cons.prems(2) p by (intro op_ok_trackData) simp
  then have "reach mutation r (fst (trackData lister g es t))"
    "length (tr_heap t) \<le> length (tr_heap (fst (trackData lister g es t)))"
    using Cons.prems(1) by (simp_all add: op_ok_def)
  then have "op_ok mutation r (fst (trackData lister g es t))
      (fold (\<lambda>(g, dt) t. fst (trackData lister g dt t)) sp (fst (trackData lister g es t)))"
    using Cons.prems(2) valid_mono by (intro Cons.IH) fastforce+
  then show ?case
    using p \<open>op_ok mutation r t (fst (trackData lister g es t))\<close> by (auto intro: op_ok_trans)
qed (simp add: op_ok_refl)

lemma op_ok_trackConfig:
  assumes "reach mutation r t"
  shows "op_ok mutation r t (fst (trackConfig ns listing lister t))"
proof -
  have "op_ok mutation r t (call (Ref (tr_config t2)) EvDone t2)"
    if "track_entries gs t = (t1, sp)" "t2 = fold (\<lambda>(g, dt) t. fst (trackData lister g dt t)) sp t1" for gs t1 t2 sp
  proof -
    have t1: "op_ok mutation r t t1" "\<forall>(g, es) \<in> set sp. valid_es es (tr_heap t1)"
      using op_ok_track_entries [OF assms, of gs] that(1) by auto
    then have "reach mutation r t1" using assms by (simp add: op_ok_def)
    then have "op_ok mutation r t1 t2" using op_ok_spawned t1(2) that(2) by blast
    then show ?thesis using t1(1) op_ok_call_config op_ok_trans by blast
  qed
  then show ?thesis
    using op_ok_call_config by (auto simp: trackConfig_def Let_def split: sum.split option.split prod.split)
qed


lemma op_ok_fold:
  assumes "\<And>x t. x \<in> set xs \<Longrightarrow> P t \<Longrightarrow> op_ok mutation r t (f x t) \<and> P (f x t)" "P t"
  shows "op_ok mutation r t (fold f xs t)"
  using assms
proof (induction xs arbitrary: t)
  case (Cons x xs)
  have f: "op_ok mutation r t (f x t)" "P (f x t)" using Cons.prems by auto
  have "op_ok mutation r (f x t) (fold f xs (f x t))"
    by (rule Cons.IH) (use Cons.prems f in auto)
  with f(1) show ?case by (auto intro: op_ok_trans)
qed (simp add: op_ok_refl)

definition cleanup_ok :: "bool \<Rightarrow> int \<Rightarrow> (Tracker \<Rightarrow> Tracker) \<Rightarrow> bool" where
  "cleanup_ok mutation r f \<longleftrightarrow> (\<forall>t. op_ok mutation r t (f t) \<and> length (tr_heap (f t)) = length (tr_heap t))"

lemma cleanup_ok_simps:
  "cleanup_ok mutation r (\<lambda>t. t)" "cleanup_ok mutation r (cleanupTemplate g)" "cleanup_ok mutation r (cleanupData g)"
  using op_ok_remove op_ok_trans [OF op_ok_remove(1) op_ok_fields(2)]
  by (auto simp: cleanup_ok_def op_ok_refl cleanupTemplate_def cleanupData_def)

lemma op_ok_cancel_keys:
  assumes "cleanup_ok mutation r f" "a < length (tr_heap t)"
  shows "op_ok mutation r t (fold (cancel_key a f) ks t)"
proof (rule op_ok_fold [where P = "\<lambda>t. a < length (tr_heap t)"])
  fix k and t :: Tracker
  assume "a < length (tr_heap t)"
  then show "op_ok mutation r t (cancel_key a f k t) \<and> a < length (tr_heap (cancel_key a f k t))"
    using assms(1) op_ok_trans [OF op_ok_call [of "Ref a" t]] unfolding cancel_key_def cleanup_ok_def
    by (simp, blast)
qed (rule assms(2))

lemma op_ok_collect:
  assumes "valid_es e (tr_heap t)" "\<And>g f. cleanup = Some f \<Longrightarrow> cleanup_ok mutation r (f g)"
  shows "op_ok mutation r t (fst (collectForObjectTracker lister (Some e) cleanup t))"
proof -
  obtain t1 sat where c: "call_Satisfied e t = (t1, sat)" by (cases "call_Satisfied e t")
  then have t1: "t1 = call e EvCheck t" using fst_call_Satisfied [of e t] by simp
  have o1: "op_ok mutation r t t1" unfolding t1 by (rule op_ok_call [OF assms(1)])
  have f: "cleanup_ok mutation r (case cleanup of None \<Rightarrow> (\<lambda>t. t) | Some f \<Rightarrow> f g)" for g
    using assms(2) cleanup_ok_simps(1) by (cases cleanup) auto
  show ?thesis
  proof (cases e)
    case Noop
    then show ?thesis using c o1 by (simp add: collectForObjectTracker_def op_ok_refl)
  next
    case (Ref a)
    then have "a < length (tr_heap t1)" using assms(1) t1 by simp
    then have "op_ok mutation r t (fold (cancel_key a (case cleanup of None \<Rightarrow> (\<lambda>t. t) | Some f \<Rightarrow> f g)) ks t1)" for g ks
      using op_ok_trans [OF o1 op_ok_cancel_keys [OF f]] by blast
    then show ?thesis using c o1 Ref
      by (simp add: collectForObjectTracker_def op_ok_refl Let_def split: sum.split)
  qed
qed

lemma op_ok_collect_kinds:
  assumes "get_ok mutation r get"
  shows "op_ok mutation r t (collect_kinds lister get gs t)"
proof (cases "reach mutation r t")
  case True
  then show ?thesis
  proof (induction gs arbitrary: t)
    case (Cons g gs)
    obtain t1 es where G: "get g t = (t1, es)" by (cases "get g t")
    have "valid_es es (tr_heap t1)" using op_ok_get(2) [OF assms G] Cons.prems by blast
    then have "op_ok mutation r t1 (fst (collectForObjectTracker lister (Some es) None t1))"
      by (rule op_ok_collect) simp
    then have o2: "op_ok mutation r t (fst (collectForObjectTracker lister (Some es) None t1))"
      by (rule op_ok_trans [OF op_ok_get(1) [OF assms G]])
    then have "reach mutation r (fst (collectForObjectTracker lister (Some es) None t1))"
      using Cons.prems by (simp add: op_ok_def)
    then show ?case using G op_ok_trans [OF o2 Cons.IH] by simp
  qed (simp add: op_ok_refl)
qed (simp add: op_ok_def)

lemma op_ok_collectInvalid: "op_ok mutation r t (collectInvalidExpectations lister t)"
proof (cases "reach mutation r t")
  case True
  define t1 where "t1 = fst (collectForObjectTracker lister (Some (Ref (tr_templates t))) (Some cleanupTemplate) t)"
  define t2 where "t2 = fst (collectForObjectTracker lister (Some (Ref (tr_config t1))) (Some cleanupData) t1)"
  have o1: "op_ok mutation r t t1"
    unfolding t1_def using True by (intro op_ok_collect) (auto intro: cleanup_ok_simps)
  then have "reach mutation r t1" using True by (simp add: op_ok_def)
  then have "op_ok mutation r t1 t2"
    unfolding t2_def by (intro op_ok_collect) (auto intro: cleanup_ok_simps)
  with o1 have "op_ok mutation r t t2" by (rule op_ok_trans)
  then show ?thesis
    unfolding collectInvalidExpectations_def Let_def t1_def [symmetric] t2_def [symmetric]
    by (blast intro: op_ok_trans op_ok_collect_kinds get_ok_constraints get_ok_data)
qed (simp add: op_ok_def)

lemma op_ok_poll: "op_ok mutation r t (fst (poll_tick lister t))"
  using op_ok_Tracker_Satisfied [of mutation r t] op_ok_collectInvalid
  by (auto simp: poll_tick_def split: prod.split intro: op_ok_trans)

lemma op_ok_stats_kinds:
  assumes "get_ok mutation r get"
  shows "op_ok mutation r t (fst (stats_kinds get gs t))"
proof (induction gs arbitrary: t)
  case (Cons g gs)
  obtain t1 es where G: "get g t = (t1, es)" by (cases "get g t")
  obtain t2 sat where c: "call_Satisfied es t1 = (t2, sat)" by (cases "call_Satisfied es t1")
  have t2: "op_ok mutation r t t2"
    using op_ok_get_call [OF assms G, of EvCheck] fst_call_Satisfied [of es t1] c by simp
  obtain t3 es' where G': "get g t2 = (t3, es')" by (cases "get g t2")
  have t3: "op_ok mutation r t t3" using t2 op_ok_get(1) [OF assms G'] by (rule op_ok_trans)
  show ?case
    using G G' c op_ok_trans [OF t2 Cons.IH] op_ok_trans [OF t3 Cons.IH]
    by (auto simp: Let_def split: prod.split Expectations.split)
qed (simp add: op_ok_refl)


lemma op_ok_stats: "op_ok mutation r t (fst (stats_tick t))"
proof -
  obtain t1 sat where c: "Tracker_Satisfied t = (t1, sat)" by (cases "Tracker_Satisfied t")
  obtain t2 cs where c2: "stats_kinds constraints_Get (kinds_of (tr_templates t1) t1) t1 = (t2, cs)"
    by (cases "stats_kinds constraints_Get (kinds_of (tr_templates t1) t1) t1")
  obtain t3 ds where c3: "stats_kinds data_Get (kinds_of (tr_config t2) t2) t2 = (t3, ds)"
    by (cases "stats_kinds data_Get (kinds_of (tr_config t2) t2) t2")
  have "op_ok mutation r t t1" "op_ok mutation r t1 t2" "op_ok mutation r t2 t3"
    using op_ok_Tracker_Satisfied [of mutation r t] op_ok_stats_kinds [OF get_ok_constraints, of mutation r t1]
      op_ok_stats_kinds [OF get_ok_data, of mutation r t2] c c2 c3 by (metis fst_conv)+
  then have "op_ok mutation r t t1" "op_ok mutation r t t3" by (blast intro: op_ok_trans)+
  then show ?thesis using c c2 c3 by (simp add: stats_tick_def op_ok_refl Let_def)
qed

text \<open>The operations as data. \<open>OpUse\<close> is a call through a reference a client got before.\<close>

datatype tracker_op =
    OpFor GVK
  | OpForData GVK
  | OpUse Expectations event
  | OpCancelTemplate ConstraintTemplate
  | OpTryCancelTemplate ConstraintTemplate
  | OpCancelData GVK
  | OpSatisfied
  | OpPoll "GVK \<Rightarrow> string + RuntimeObject list"
  | OpTrackTemplates "string + ConstraintTemplate list"
  | OpTrackConstraints GVK Expectations "string + RuntimeObject list"
  | OpTrackConfig string "string + Config list" "GVK \<Rightarrow> string + RuntimeObject list"
  | OpTrackAssign "string + RuntimeObject list"
  | OpTrackAssignMetadata "string + RuntimeObject list"
  | OpRun
  | OpStats
  | OpEnableStats
  | OpDisableStats

fun tracker_do :: "tracker_op \<Rightarrow> Tracker \<Rightarrow> Tracker option" where
  "tracker_do (OpFor g) t = Some (fst (For g t))"
| "tracker_do (OpForData g) t = Some (fst (ForData g t))"
| "tracker_do (OpUse es e) t = Some (call es e t)"
| "tracker_do (OpCancelTemplate ct) t = Some (fst (CancelTemplate ct t))"
| "tracker_do (OpTryCancelTemplate ct) t = Some (fst (TryCancelTemplate ct t))"
| "tracker_do (OpCancelData g) t = Some (CancelData g t)"
| "tracker_do OpSatisfied t = Some (fst (Tracker_Satisfied t))"
| "tracker_do (OpPoll lister) t = Some (fst (poll_tick lister t))"
| "tracker_do (OpTrackTemplates listing) t = map_option fst (trackConstraintTemplates listing t)"
| "tracker_do (OpTrackConstraints g es listing) t = Some (fst (trackConstraints g es listing t))"
| "tracker_do (OpTrackConfig ns listing lister) t = Some (fst (trackConfig ns listing lister t))"
| "tracker_do (OpTrackAssign listing) t = map_option fst (trackAssign listing t)"
| "tracker_do (OpTrackAssignMetadata listing) t = map_option fst (trackAssignMetadata listing t)"
| "tracker_do OpRun t = Run_start t"
| "tracker_do OpStats t = Some (fst (stats_tick t))"
| "tracker_do OpEnableStats t = Some (EnableStats t)"
| "tracker_do OpDisableStats t = Some (DisableStats t)"

text \<open>The references an operation uses must exist.\<close>

fun op_valid :: "tracker_op \<Rightarrow> Tracker \<Rightarrow> bool" where
  "op_valid (OpUse es e) t \<longleftrightarrow> valid_es es (tr_heap t)"
| "op_valid (OpTrackConstraints g es listing) t \<longleftrightarrow> valid_es es (tr_heap t)"
| "op_valid _ t \<longleftrightarrow> True"

lemma tracker_do_ok:
  assumes "tracker_do c t = Some t'" "op_valid c t"
  shows "op_ok mutation r t t'"
proof (cases "reach mutation r t")
  case True
  then show ?thesis
    using assms op_ok_For op_ok_ForData op_ok_call op_ok_CancelTemplate op_ok_TryCancelTemplate
      op_ok_CancelData op_ok_Tracker_Satisfied op_ok_poll op_ok_trackConstraintTemplates
      op_ok_trackConstraints op_ok_trackConfig op_ok_trackAssign op_ok_trackAssignMetadata op_ok_stats
      op_ok_fields
    by (cases c) (auto simp: Run_start_def EnableStats_def DisableStats_def split: if_splits)
qed (simp add: op_ok_def)

inductive op_reachable :: "Tracker \<Rightarrow> Tracker \<Rightarrow> bool" for t where
  here: "op_reachable t t"
| more: "op_reachable t t1 \<Longrightarrow> op_valid c t1 \<Longrightarrow> tracker_do c t1 = Some t2 \<Longrightarrow> op_reachable t t2"

lemma op_reachable_ok: "op_reachable t t' \<Longrightarrow> op_ok mutation r t t'"
  by (induction rule: op_reachable.induct) (auto intro: op_ok_refl op_ok_trans tracker_do_ok)

section \<open>Collection\<close>

text \<open>Keys that survive the way through an unstructured object.\<close>

definition plain_gvk :: "GVK \<Rightarrow> bool" where
  "plain_gvk g \<longleftrightarrow> CHR ''/'' \<notin> set (gvk_Group g) \<and> CHR ''/'' \<notin> set (gvk_Version g) \<and>
     g \<noteq> templateGVK \<and> gvk_Version g \<noteq> []"

lemma ParseGroupVersion_String:
  assumes "plain_gvk g"
  shows "ParseGroupVersion (GroupVersion_String g) = Some (gvk_Group g, gvk_Version g)"
proof (cases "gvk_Group g = []")
  case True
  have v: "CHR ''/'' \<notin> set (gvk_Version g)" "gvk_Version g \<noteq> []"
    using assms by (simp_all add: plain_gvk_def)
  then have "gvk_Version g \<noteq> ''/''" by force
  moreover have "filter (\<lambda>c. c = CHR ''/'') (gvk_Version g) = []"
    unfolding filter_empty_conv using v(1) by blast
  ultimately show ?thesis using True v(2) by (simp add: GroupVersion_String_def ParseGroupVersion_def)
next
  case False
  have f: "filter (\<lambda>c. c = CHR ''/'') (gvk_Group g) = []" "filter (\<lambda>c. c = CHR ''/'') (gvk_Version g) = []"
    using assms by (auto simp: plain_gvk_def filter_empty_conv)
  have g: "c \<noteq> CHR ''/''" if "c \<in> set (gvk_Group g)" for c
    using assms that by (auto simp: plain_gvk_def)
  have "takeWhile (\<lambda>c. c \<noteq> CHR ''/'') (gvk_Group g @ ''/'' @ gvk_Version g) = gvk_Group g"
    by (subst takeWhile_append2) (simp_all add: g)
  moreover have "dropWhile (\<lambda>c. c \<noteq> CHR ''/'') (gvk_Group g @ ''/'' @ gvk_Version g) = ''/'' @ gvk_Version g"
    by (subst dropWhile_append2) (simp_all add: g)
  moreover have "GroupVersion_String g = gvk_Group g @ ''/'' @ gvk_Version g"
    using False by (simp add: GroupVersion_String_def)
  moreover have "length (filter (\<lambda>c. c = CHR ''/'') (gvk_Group g @ ''/'' @ gvk_Version g)) = 1"
    using f by simp
  moreover have "gvk_Group g @ ''/'' @ gvk_Version g \<noteq> ''/''" "gvk_Group g @ ''/'' @ gvk_Version g \<noteq> []"
    using False by (cases "gvk_Group g"; simp)+
  ultimately show ?thesis by (simp add: ParseGroupVersion_def Let_def)
qed

lemma newUnstructured_fields [simp]:
  "getNestedString (newUnstructured g ns name) [''apiVersion''] = GroupVersion_String g"
  "getNestedString (newUnstructured g ns name) [''kind''] = gvk_Kind g"
  "GetName (newUnstructured g ns name) = name"
  "GetNamespace (newUnstructured g ns name) = ns"
  by (auto simp: newUnstructured_def getNestedString_def NestedString_def GetName_def GetNamespace_def Let_def)

lemma key_newUnstructured:
  "plain_gvk g \<Longrightarrow> objKeyFromObject (UnstructuredObject (newUnstructured g ns name) del) = Inr (ObjKey g ns name)"
  by (cases g) (simp add: objKeyFromObject_def GroupVersionKind_def ParseGroupVersion_String plain_gvk_def Let_def)

lemma delete_listed_iff:
  "delete_listed items m = Inr m' \<longleftrightarrow>
    (\<forall>o' \<in> set items. \<exists>k. has_key k o') \<and> m' = m - {k. \<exists>o' \<in> set items. has_key k o'}"
proof (induction items arbitrary: m)
  case (Cons o' os)
  show ?case
    by (cases "objKeyFromObject o'") (auto simp: has_key_def Cons.IH)
qed auto

text \<open>Cancelling a list of keys.\<close>

lemma cancel_keys_heap:
  assumes "\<And>t. tr_heap (f t) = tr_heap t" "a < length (tr_heap t)" "\<not> allSatisfied (tr_heap t ! a)"
    "\<forall>k \<in> set ks. plain_gvk (key_gvk k)"
  shows "expected (tr_heap (fold (cancel_key a f) ks t) ! a) = expected (tr_heap t ! a) - set ks \<and>
    satisfied (tr_heap (fold (cancel_key a f) ks t) ! a) = satisfied (tr_heap t ! a) - set ks \<and>
    canceled (tr_heap (fold (cancel_key a f) ks t) ! a) = canceled (tr_heap t ! a) \<union> set ks"
  using assms(2-)
proof (induction ks arbitrary: t)
  case (Cons k ks)
  have "CancelExpect (UnstructuredObject (newUnstructured (key_gvk k) (key_Namespace k) (key_Name k)) False)
      (tr_heap t ! a) = cancelExpectNoLock k (tr_heap t ! a)"
    using Cons.prems by (simp add: CancelExpect_def key_newUnstructured)
  then have h: "tr_heap (cancel_key a f k t) = (tr_heap t)[a := cancelExpectNoLock k (tr_heap t ! a)]"
    by (simp add: cancel_key_def assms(1) call_def)
  show ?case
    using Cons.IH [of "cancel_key a f k t"] Cons.prems h by (auto simp: cancelExpectNoLock_def)
qed simp

lemma not_answers_allSatisfied: "\<not> answers h a \<Longrightarrow> \<not> allSatisfied (ot_step EvCheck (h ! a))"
  by (simp add: answers_def Satisfied_allSatisfied)

definition cleanup_heap :: "(GVK \<Rightarrow> Tracker \<Rightarrow> Tracker) option \<Rightarrow> bool" where
  "cleanup_heap cleanup \<longleftrightarrow> (\<forall>f g t. cleanup = Some f \<longrightarrow> tr_heap (f g t) = tr_heap t)"

lemma cleanup_heap_simps [simp]:
  "cleanup_heap None" "cleanup_heap (Some cleanupTemplate)" "cleanup_heap (Some cleanupData)"
  by (simp_all add: cleanup_heap_def cleanupTemplate_def cleanupData_def)

text \<open>What a successful collection does to the tracker it is for.\<close>

lemma collect_exact:
  assumes "reach mutation r t" "a < length (tr_heap t)" "populated (tr_heap t ! a)" "\<not> answers (tr_heap t) a"
    "collectForObjectTracker lister (Some (Ref a)) cleanup t = (t', None)" "cleanup_heap cleanup"
    "u = unsatisfied (ot_step EvCheck (tr_heap t ! a))" "\<forall>k \<in> u. plain_gvk (key_gvk k)"
  shows "\<exists>items. lister (ot_gvk (ot_step EvCheck (tr_heap t ! a))) = Inr items \<and>
    unsatisfied (tr_heap t' ! a) = {k \<in> u. \<exists>o' \<in> set items. has_key k o'} \<and>
    canceled (tr_heap t' ! a) = canceled (ot_step EvCheck (tr_heap t ! a)) \<union>
      {k \<in> u. \<not> (\<exists>o' \<in> set items. has_key k o')}"
proof -
  obtain t1 where c: "call_Satisfied (Ref a) t = (t1, False)"
    using snd_call_Satisfied [of "Ref a" t] assms(4) by (metis es_answers_simps(2) prod.collapse)
  then have t1: "t1 = call (Ref a) EvCheck t" using fst_call_Satisfied [of "Ref a" t] by simp
  then have ta: "tr_heap t1 ! a = ot_step EvCheck (tr_heap t ! a)" using assms(2) by (simp add: call_def)
  have "reach mutation r t1" unfolding t1 by (rule reach_call) (use assms in auto)
  then have fin: "finite (unsatisfied (tr_heap t1 ! a))"
    using tracker_inv_run ot_finite_run assms(2) t1 unfolding reach_def tracker_inv_def
    by (metis (no_types, lifting) Collect_mem_eq Collect_mono_iff call_simps(1) finite_subset ot_finite_def unsatisfied_def)
  obtain items m where l: "lister (ot_gvk (tr_heap t1 ! a)) = Inr items"
    "delete_listed items (unsatisfied (tr_heap t1 ! a)) = Inr m"
    "t' = fold (cancel_key a (case cleanup of None \<Rightarrow> (\<lambda>t. t) | Some f \<Rightarrow> f (ot_gvk (tr_heap t1 ! a)))) (sorted_list_of_set m) t1"
    using assms(3,5) c by (auto simp: collectForObjectTracker_def Let_def split: sum.splits)
  have m: "m = u - {k. \<exists>o' \<in> set items. has_key k o'}"
    using l(2) delete_listed_iff assms(7) ta by metis
  then have set_m: "set (sorted_list_of_set m) = m" using fin assms(7) ta by simp
  let ?ks = "sorted_list_of_set m"
  have "expected (tr_heap t' ! a) = expected (tr_heap t1 ! a) - set ?ks \<and>
      satisfied (tr_heap t' ! a) = satisfied (tr_heap t1 ! a) - set ?ks \<and>
      canceled (tr_heap t' ! a) = canceled (tr_heap t1 ! a) \<union> set ?ks"
    unfolding l(3)
    by (rule cancel_keys_heap)
      (use assms(2,6,8) m set_m not_answers_allSatisfied [OF assms(4)] ta t1 in
        \<open>auto simp: cleanup_heap_def split: option.split\<close>)
  then show ?thesis
    using l(1) m ta assms(7) set_m by (auto simp: unsatisfied_def)
qed

end
