(* ===== verification/Ready_Properties.thy ===== *)
theory Ready_Properties
  imports Ready_Operations
begin

text \<open>The properties of the readiness tracker, each with a witness on concrete data.\<close>

section \<open>Sample data\<close>

definition ex_template :: ConstraintTemplate where
  "ex_template = \<lparr>ct_Kind = ''K8sLabels'', ct_Namespace = [], ct_Name = ''k8slabels'', ct_deleting = False\<rparr>"

definition ex_kind :: GVK where
  "ex_kind = constraintGVK ''K8sLabels''"

definition ex_constraint :: RuntimeObject where
  "ex_constraint = UnstructuredObject (newUnstructured ex_kind [] ''must-have'') False"

text \<open>A tracker whose template and its constraint are expected and observed.\<close>

definition ex_tracker :: Tracker where
  "ex_tracker =
     call (Ref 1) EvDone (call (Ref 2) (EvObserve ex_constraint) (call (Ref 2) EvDone
       (call (Ref 2) (EvExpect ex_constraint) (constraints_write ex_kind
         (call (Ref 0) (EvObserve (TemplateObject ex_template)) (call (Ref 0) EvDone
           (call (Ref 0) (EvExpect (TemplateObject ex_template)) (newTracker False 0))))))))"

definition ex_history :: history where
  "ex_history = (((((((\<lambda>_. [])(0 := [EvExpect (TemplateObject ex_template)]))
     (0 := [EvExpect (TemplateObject ex_template), EvDone]))
     (0 := [EvExpect (TemplateObject ex_template), EvDone, EvObserve (TemplateObject ex_template)]))
     (2 := [EvExpect ex_constraint]))
     (2 := [EvExpect ex_constraint, EvDone]))
     (2 := [EvExpect ex_constraint, EvDone, EvObserve ex_constraint]))
     (1 := [EvDone])"

lemma called_eq:
  "tracker_run mutation r H t \<Longrightarrow> a < length (tr_heap t) \<Longrightarrow> es = H a @ [e] \<Longrightarrow>
    tracker_run mutation r (H(a := es)) (call (Ref a) e t)"
  by (simp add: tracker_run.called)

lemma length_constraints_write [simp]:
  "length (tr_heap (constraints_write g t)) = Suc (length (tr_heap t))"
  by (simp add: constraints_write_def tm_Get_write_def Let_def)

lemma ex_run: "tracker_run False 0 ex_history ex_tracker"
  unfolding ex_history_def ex_tracker_def
  by (intro called_eq tracker_run.c_write tracker_run.start) (simp_all add: newTracker_def)

lemma ex_ready: "snd (Tracker_Satisfied ex_tracker)" "\<not> tr_satisfied ex_tracker"
  by code_simp+

section \<open>Object trackers\<close>


definition ex_events :: "event list" where
  "ex_events = [EvObserve ex_constraint, EvExpect ex_constraint, EvDone]"

lemma ex_events_single: "single_expects ex_events"
  by (auto simp: single_expects_def expect_count_def ex_events_def)


text \<open>Retries: for an object not tried before, a tracker with \<open>r\<close> retries answers false to the
  first \<open>r\<close> calls of \<open>TryCancelExpect\<close> and cancels the expectation at the next one; with a
  negative number of retries it never does.\<close>

theorem try_cancel_bounds:
  assumes "\<not> allSatisfied t" "objKeyFromObject o' = Inr k" "mget (tryCanceled t) k = None"
  shows "(0 \<le> tryCancelObj t \<longrightarrow>
      try_cancels (Suc (nat (tryCancelObj t))) o' t = replicate (nat (tryCancelObj t)) False @ [True]) \<and>
    (tryCancelObj t < 0 \<longrightarrow> try_cancels n o' t = replicate n False)"
  using try_cancels_left [of t k o' "nat (tryCancelObj t)"] try_cancels_unbounded [of t k o' _ n] assms
  by (simp add: has_key_def del: try_cancels.simps)

theorem try_cancel_bounds_witness:
  "try_cancels 4 ex_constraint (newObjTracker ex_kind 3) = [False, False, False, True]"
proof -
  have "objKeyFromObject ex_constraint = Inr (ObjKey ex_kind [] ''must-have'')" by code_simp
  then have "try_cancels (Suc 3) ex_constraint (newObjTracker ex_kind 3) = replicate 3 False @ [True]"
    using try_cancel_bounds [of "newObjTracker ex_kind 3" ex_constraint "ObjKey ex_kind [] ''must-have''"]
    by (simp add: newObjTracker_def del: try_cancels.simps)
  then show ?thesis by (simp add: numeral_eq_Suc del: try_cancels.simps)
qed

section \<open>The tracker of the process\<close>



text \<open>C16: liveness of readiness: when every awaited tracker has complete expectations, none of them
  stated twice, all observed or given up, and no kind is untracked unless removed, then
  \<open>Tracker.Satisfied\<close> answers true.\<close>

theorem readiness_live:
  assumes "tracker_run mutation retries H t"
    and "\<forall>a \<in> awaited t. single_expects (H a) \<and> history_done retries (H a)"
    and "tracked_or_removed (tr_constraints t) (kinds (tr_heap t ! tr_templates t))"
    and "tracked_or_removed (tr_data t) (kinds (tr_heap t ! tr_config t))"
  shows "snd (Tracker_Satisfied t)"
proof -
  have wf: "tracker_wf t" by (rule tracker_run_wf [OF assms(1)])
  have "all_answer t"
    using all_answer_awaited [OF wf] answers_awaited(2) [OF tracker_inv_run [OF assms(1)]] assms(2-) by blast
  then show ?thesis using Tracker_Satisfied_iff [OF wf] by blast
qed

lemma ex_awaited: "awaited ex_tracker \<subseteq> {0, 1, 2}"
proof -
  have "kind_addresses (tr_constraints ex_tracker) X \<subseteq> {2}" for X
    by (auto simp: kind_addresses_def ex_tracker_def constraints_write_def tm_Get_write_def Let_def
        newTracker_def newTrackerMap_def call_def split: if_splits)
  moreover have "kind_addresses (tr_data ex_tracker) X = {}" for X
    by (auto simp: kind_addresses_def ex_tracker_def constraints_write_def tm_Get_write_def Let_def
        newTracker_def newTrackerMap_def call_def split: if_splits)
  moreover have "tr_templates ex_tracker = 0 \<and> tr_config ex_tracker = 1 \<and> \<not> mutationEnabled ex_tracker"
    by code_simp
  ultimately show ?thesis by (auto simp: awaited_def)
qed

lemma ex_history_values:
  "ex_history 0 = [EvExpect (TemplateObject ex_template), EvDone, EvObserve (TemplateObject ex_template)]"
  "ex_history (Suc 0) = [EvDone]" "ex_history 2 = [EvExpect ex_constraint, EvDone, EvObserve ex_constraint]"
  by (simp_all add: ex_history_def)

theorem readiness_live_witness: "snd (Tracker_Satisfied ex_tracker)"
proof (rule readiness_live [OF ex_run])
  have "single_expects (ex_history a) \<and> history_done 0 (ex_history a)" if "a \<in> {0, 1, 2}" for a
    using that
    by (auto simp: ex_history_values single_expects_def history_done_def expect_count_def expected_in_def observed_in_def)
  then show "\<forall>a \<in> awaited ex_tracker. single_expects (ex_history a) \<and> history_done 0 (ex_history a)"
    using ex_awaited by blast
  show "tracked_or_removed (tr_constraints ex_tracker) (kinds (tr_heap ex_tracker ! tr_templates ex_tracker))"
    "tracked_or_removed (tr_data ex_tracker) (kinds (tr_heap ex_tracker ! tr_config ex_tracker))"
    unfolding tracked_or_removed_def by code_simp+
qed

text \<open>C37: readiness is a latch: after an answer true of \<open>Tracker.Satisfied\<close>, every operation in
  whatever order and with whatever results of the API server keeps the answer true.\<close>

theorem readiness_latch:
  assumes "tracker_run mutation retries H t" "Tracker_Satisfied t = (t1, True)" "op_reachable t1 t2"
  shows "Tracker_Satisfied t2 = (t2, True)"
proof -
  have "tr_satisfied t1"
    using assms(2) by (auto simp: Tracker_Satisfied_def split: if_splits prod.splits)
  moreover have "op_ok mutation retries t t1"
    using op_ok_Tracker_Satisfied [of mutation retries t] assms(2) by simp
  ultimately have "tr_satisfied t2"
    using op_reachable_ok [OF assms(3), of mutation retries] assms(1) unfolding op_ok_def reach_def by blast
  then show ?thesis by (simp add: Tracker_Satisfied_def)
qed

theorem readiness_latch_witness:
  "snd (Tracker_Satisfied (fst (For ex_kind (fst (Tracker_Satisfied ex_tracker)))))"
proof -
  let ?t1 = "fst (Tracker_Satisfied ex_tracker)"
  have "op_reachable ?t1 (fst (For ex_kind ?t1))"
    by (rule op_reachable.more [OF op_reachable.here, where c = "OpFor ex_kind"]) simp_all
  moreover have "Tracker_Satisfied ex_tracker = (?t1, True)" using ex_ready(1) by (simp add: prod_eq_iff)
  ultimately show ?thesis using readiness_latch [OF ex_run] by (metis snd_conv)
qed

text \<open>Collection of deleted objects: for a tracker that is populated and not satisfied, a
  collection without error keeps waiting for exactly the unsatisfied objects the API server
  still lists, and cancels exactly the others.\<close>

theorem collect_deleted:
  assumes "tracker_run mutation retries H t" "a < length (tr_heap t)"
    and "populated (tr_heap t ! a)" "\<not> snd (Satisfied (tr_heap t ! a))"
    and "cleanup \<in> {None, Some cleanupTemplate, Some cleanupData}"
    and "collectForObjectTracker lister (Some (Ref a)) cleanup t = (t', None)"
    and "ot = fst (Satisfied (tr_heap t ! a))" "\<forall>k \<in> unsatisfied ot. plain_gvk (key_gvk k)"
  shows "\<exists>items. lister (ot_gvk ot) = Inr items \<and>
    unsatisfied (tr_heap t' ! a) = {k \<in> unsatisfied ot. \<exists>o' \<in> set items. objKeyFromObject o' = Inr k} \<and>
    canceled (tr_heap t' ! a) =
      canceled ot \<union> {k \<in> unsatisfied ot. \<not> (\<exists>o' \<in> set items. objKeyFromObject o' = Inr k)}"
proof -
  have "reach mutation retries t" "cleanup_heap cleanup" "\<not> answers (tr_heap t) a"
    using assms by (auto simp: reach_def answers_def)
  then show ?thesis
    using collect_exact [of mutation retries t a lister cleanup t' "unsatisfied ot"] assms
    by (simp add: has_key_def)
qed

text \<open>A tracker that waits for two constraints, one of which is deleted.\<close>

definition ex_gone :: RuntimeObject where
  "ex_gone = UnstructuredObject (newUnstructured ex_kind [] ''gone'') False"

definition ex_waiting :: Tracker where
  "ex_waiting = call (Ref 2) EvDone (call (Ref 2) (EvExpect ex_gone) (call (Ref 2) (EvExpect ex_constraint)
     (constraints_write ex_kind (newTracker False 0))))"

lemma ex_waiting_run: "\<exists>H. tracker_run False 0 H ex_waiting"
proof -
  have "reach False 0 (constraints_write ex_kind (newTracker False 0))"
    unfolding reach_def by (blast intro: tracker_run.c_write tracker_run.start)
  moreover have "length (tr_heap (newTracker False 0)) = 2" by (simp add: newTracker_def)
  ultimately have "reach False 0 ex_waiting"
    unfolding ex_waiting_def by (intro reach_call) simp_all
  then show ?thesis by (simp add: reach_def)
qed

definition ex_lister :: "GVK \<Rightarrow> string + RuntimeObject list" where
  "ex_lister g = Inr [ex_constraint]"

theorem collect_deleted_witness:
  "unsatisfied (tr_heap (fst (collectForObjectTracker ex_lister (Some (Ref 2)) None ex_waiting)) ! 2) =
     {ObjKey ex_kind [] ''must-have''}"
proof -
  obtain H where H: "tracker_run False 0 H ex_waiting" using ex_waiting_run by blast
  let ?ot = "fst (Satisfied (tr_heap ex_waiting ! 2))"
  let ?t' = "fst (collectForObjectTracker ex_lister (Some (Ref 2)) None ex_waiting)"
  have facts: "2 < length (tr_heap ex_waiting)" "populated (tr_heap ex_waiting ! 2)"
    "\<not> snd (Satisfied (tr_heap ex_waiting ! 2))"
    "snd (collectForObjectTracker ex_lister (Some (Ref 2)) None ex_waiting) = None" by code_simp+
  have u: "unsatisfied ?ot = {ObjKey ex_kind [] ''must-have'', ObjKey ex_kind [] ''gone''}" by code_simp
  have "plain_gvk ex_kind" by code_simp
  then have "\<forall>k \<in> unsatisfied ?ot. plain_gvk (key_gvk k)" unfolding u by simp
  moreover have "objKeyFromObject ex_constraint = Inr (ObjKey ex_kind [] ''must-have'')" by code_simp
  moreover have "collectForObjectTracker ex_lister (Some (Ref 2)) None ex_waiting = (?t', None)"
    using facts(4) by (simp add: prod_eq_iff)
  ultimately show ?thesis
    using collect_deleted [OF H facts(1-3), of None ex_lister ?t' ?ot] u
    by (auto simp: ex_lister_def)
qed

section \<open>Behaviours worth knowing\<close>

text \<open>A second expectation of an observed object is never met: the tracker does not look whether
  the object is already satisfied, and further observations of it are ignored.\<close>

lemma second_Expect_stuck:
  "\<not> snd (Satisfied (ot_run ([EvExpect ex_constraint, EvObserve ex_constraint, EvExpect ex_constraint,
     EvObserve ex_constraint, EvDone] @ replicate 3 (EvObserve ex_constraint)) (newObjTracker ex_kind 0)))"
  by code_simp

text \<open>The same through the config: two entries of the same kind.\<close>

lemma duplicate_sync_entries_stuck:
  "\<not> snd (Tracker_Satisfied (call (Ref 0) EvDone (fst (trackConfig ''ns''
     (Inr [\<lparr>cfg_Namespace = ''ns'', cfg_Name = ''config'', cfg_deleting = False,
            cfg_SyncOnly = [GVK [] ''v1'' ''Pod'', GVK [] ''v1'' ''Pod'']\<rparr>])
     (\<lambda>g. Inr []) (newTracker False 0)))))"
  by code_simp

lemma single_sync_entry_ready:
  "snd (Tracker_Satisfied (call (Ref 0) EvDone (fst (trackConfig ''ns''
     (Inr [\<lparr>cfg_Namespace = ''ns'', cfg_Name = ''config'', cfg_deleting = False,
            cfg_SyncOnly = [GVK [] ''v1'' ''Pod'']\<rparr>])
     (\<lambda>g. Inr []) (newTracker False 0)))))"
  by code_simp

text \<open>An unstructured template without its nested kind gets the zero key and no error.\<close>

lemma template_without_kind:
  "objKeyFromObject (UnstructuredObject (newUnstructured templateGVK [] ''t'') False) =
     Inr (ObjKey (GVK [] [] []) [] [])"
  by code_simp

text \<open>Two \<open>Get\<close>s of one kind that both read before either writes leave the map with the tracker
  of the later one, while the first caller populates its own, so that the kind is never ready.\<close>

lemma racing_Get_stuck:
  "let t = call (Ref 2) EvDone (constraints_write ex_kind (constraints_write ex_kind (newTracker False 0))) in
   mget (tm_m (tr_constraints t)) ex_kind = Some 3 \<and> populated (tr_heap t ! 2) \<and> \<not> populated (tr_heap t ! 3)"
  by code_simp

text \<open>The cleanup of a collected template is given the kind of templates, not of its constraints,
  so the constraint tracker of a deleted template stays in the map.\<close>

lemma collected_template_keeps_constraints:
  "let t = call (Ref 0) EvDone (call (Ref 0) (EvExpect (TemplateObject ex_template))
       (constraints_write ex_kind (newTracker False 0)));
       t' = fst (collectForObjectTracker (\<lambda>g. Inr []) (Some (Ref 0)) (Some cleanupTemplate) t)
   in unsatisfied (tr_heap t' ! 0) = {} \<and> tm_Has ex_kind (tr_constraints t') \<and>
      templateGVK \<in> tm_removed (tr_constraints t')"
  by code_simp

end
