(* ===== verification/Watch_Manager.thy ===== *)
theory Watch_Manager
  imports Match
begin

text \<open>
  The watch manager (\<open>pkg/watch/manager.go\<close>, \<open>registrar.go\<close>, \<open>replay.go\<close>,
  \<open>errorlist.go\<close>): which registrar wants which resource kind, which is watched, and the replay of
  past events to a registrar that joins a watch. Registrars are pointers, here the positions of a
  list. A running manager is modelled: a request sent to the replay loop is handled when it is
  received, and waiting for the replays of a kind is the end of those replays. Maps are visited
  in key order, where Go's order is arbitrary.
\<close>

section \<open>The record keeper\<close>

record vitals =
  v_gvk :: GVK
  v_registrars :: "nat set"

type_synonym vitalsByGVK = "(GVK, vitals) gomap"

definition zero_vitals :: vitals where
  "zero_vitals = \<lparr>v_gvk = GVK [] [] [], v_registrars = {}\<rparr>"

text \<open>The receiver may be nil.\<close>

definition merge_vitals :: "vitals option \<Rightarrow> vitals \<Rightarrow> vitals" where
  "merge_vitals w wv =
     (case w of
        None \<Rightarrow> wv
      | Some w' \<Rightarrow> \<lparr>v_gvk = v_gvk w', v_registrars = v_registrars w' \<union> v_registrars wv\<rparr>)"

text \<open>A registrar: its name and whether it has a channel for events.\<close>

record Registrar =
  parentName :: string
  has_events :: bool

record recordKeeper =
  intent :: "(string, vitalsByGVK) gomap"
  rk_registrars :: "(string, nat) gomap"

definition newRecordKeeper :: recordKeeper where
  "newRecordKeeper = \<lparr>intent = [], rk_registrars = []\<rparr>"

text \<open>A roster of the intent; a missing one reads as the nil map.\<close>

definition roster :: "string \<Rightarrow> recordKeeper \<Rightarrow> vitalsByGVK" where
  "roster name r = (case mget (intent r) name of Some m \<Rightarrow> m | None \<Rightarrow> [])"

definition rk_Update :: "string \<Rightarrow> vitalsByGVK \<Rightarrow> recordKeeper \<Rightarrow> recordKeeper" where
  "rk_Update name m r =
     (let r1 = (if mget (intent r) name = None then r\<lparr>intent := mput name [] (intent r)\<rparr> else r)
      in fold (\<lambda>(gvk, v) r. r\<lparr>intent := mput name (mput gvk v (roster name r)) (intent r)\<rparr>) m r1)"

definition ReplaceRegistrarRoster :: "string \<Rightarrow> vitalsByGVK \<Rightarrow> recordKeeper \<Rightarrow> recordKeeper" where
  "ReplaceRegistrarRoster name m r = r\<lparr>intent := mput name m (intent r)\<rparr>"

definition rk_Watching :: "string \<Rightarrow> GVK \<Rightarrow> recordKeeper \<Rightarrow> bool" where
  "rk_Watching name gvk r \<longleftrightarrow> mget (roster name r) gvk \<noteq> None"

text \<open>Deleting from a nil map does nothing.\<close>

definition rk_Remove :: "string \<Rightarrow> GVK \<Rightarrow> recordKeeper \<Rightarrow> recordKeeper" where
  "rk_Remove name gvk r =
     (case mget (intent r) name of
        None \<Rightarrow> r
      | Some m \<Rightarrow> r\<lparr>intent := mput name (mdel gvk m) (intent r)\<rparr>)"

definition merge_roster :: "vitalsByGVK \<Rightarrow> vitalsByGVK \<Rightarrow> vitalsByGVK" where
  "merge_roster registrar managedKinds =
     fold (\<lambda>(gvk, v) mk. case mget mk gvk of
         Some k \<Rightarrow> mput gvk (merge_vitals (Some k) v) mk
       | None \<Rightarrow> mput gvk v mk) registrar managedKinds"

definition rk_Get :: "recordKeeper \<Rightarrow> vitalsByGVK" where
  "rk_Get r = fold (\<lambda>(name, registrar) mk. merge_roster registrar mk) (intent r) []"

definition rk_count :: "recordKeeper \<Rightarrow> nat" where
  "rk_count r = card (\<Union>(name, registrar) \<in> set (intent r). fst ` set registrar)"

definition rk_GetGVK :: "recordKeeper \<Rightarrow> GVK list" where
  "rk_GetGVK r = mkeys (rk_Get r)"

section \<open>Replays\<close>

record replayTracker =
  rt_counts :: "(GVK, int) gomap"
  rt_channels :: "GVK set"
  rt_intent :: "(nat, GVK set) gomap"

definition newReplayTracker :: replayTracker where
  "newReplayTracker = \<lparr>rt_counts = [], rt_channels = {}, rt_intent = []\<rparr>"

definition setIntent :: "nat \<Rightarrow> GVK \<Rightarrow> bool \<Rightarrow> replayTracker \<Rightarrow> replayTracker" where
  "setIntent reg gvk wantReplay r =
     (let cur = mget (rt_intent r) reg in
      if wantReplay then
        r\<lparr>rt_intent := mput reg (insert gvk (case cur of None \<Rightarrow> {} | Some s \<Rightarrow> s)) (rt_intent r)\<rparr>
      else (case cur of
         None \<Rightarrow> r
       | Some s \<Rightarrow> r\<lparr>rt_intent := mput reg (s - {gvk}) (rt_intent r)\<rparr>))"

definition replayIntended :: "nat \<Rightarrow> GVK \<Rightarrow> replayTracker \<Rightarrow> bool" where
  "replayIntended reg gvk r = (case mget (rt_intent r) reg of None \<Rightarrow> False | Some s \<Rightarrow> gvk \<in> s)"

definition rt_count :: "replayTracker \<Rightarrow> GVK \<Rightarrow> int" where
  "rt_count r gvk = (case mget (rt_counts r) gvk of Some c \<Rightarrow> c | None \<Rightarrow> 0)"

definition addReplay :: "GVK \<Rightarrow> replayTracker \<Rightarrow> replayTracker" where
  "addReplay gvk r =
     r\<lparr>rt_counts := mput gvk (rt_count r gvk + 1) (rt_counts r), rt_channels := insert gvk (rt_channels r)\<rparr>"

text \<open>\<open>None\<close> is the panic on a counter below zero, or on closing a channel that is not there.\<close>

definition replayDone :: "GVK \<Rightarrow> replayTracker \<Rightarrow> replayTracker option" where
  "replayDone gvk r =
     (let c = rt_count r gvk in
      if c = 0 then None
      else if c - 1 = 0 then
        (if gvk \<notin> rt_channels r then None
         else Some (r\<lparr>rt_counts := mdel gvk (rt_counts r), rt_channels := rt_channels r - {gvk}\<rparr>))
      else Some (r\<lparr>rt_counts := mput gvk (c - 1) (rt_counts r)\<rparr>))"

text \<open>Whether the channel of \<open>replayWaitCh\<close> is closed already.\<close>

definition replayWaitCh_closed :: "GVK \<Rightarrow> replayTracker \<Rightarrow> bool" where
  "replayWaitCh_closed gvk r \<longleftrightarrow> gvk \<notin> rt_channels r"

record replayRequest =
  rr_r :: "nat option"
  rr_gvk :: GVK
  isCancel :: bool

text \<open>A replay goroutine: for whom, of what, and whether its context is cancelled. The number
  identifies it, as the cancel function in the loop's map does.\<close>

record replay =
  rp_reg :: nat
  rp_gvk :: GVK
  rp_cancelled :: bool

section \<open>The manager\<close>

text \<open>\<open>wm_replays\<close> holds the running goroutines by number, \<open>wm_loop\<close> the map of the replay loop,
  \<open>wm_handlers\<close> how often the manager has been added as an event handler to the informer of a
  kind that the cache has, \<open>wm_sent\<close> what was sent to the registrars' channels.\<close>

record Manager =
  wm_started :: bool
  wm_stopped :: bool
  wm_regs :: "Registrar list"
  managedKinds :: recordKeeper
  watchedKinds :: vitalsByGVK
  wm_replayTracker :: replayTracker
  wm_loop :: "(GVK, (nat, nat) gomap) gomap"
  wm_replays :: "(nat, replay) gomap"
  wm_next :: nat
  wm_handlers :: "(GVK, nat) gomap"
  wm_sent :: "(nat \<times> object) list"

definition New_Manager :: Manager where
  "New_Manager =
     \<lparr>wm_started = False, wm_stopped = False, wm_regs = [], managedKinds = newRecordKeeper,
      watchedKinds = [], wm_replayTracker = newReplayTracker, wm_loop = [], wm_replays = [], wm_next = 0,
      wm_handlers = [], wm_sent = []\<rparr>"

definition checkStarted :: "Manager \<Rightarrow> Manager \<times> string option" where
  "checkStarted wm = (if wm_started wm then (wm, Some ''already started'') else (wm\<lparr>wm_started := True\<rparr>, None))"

text \<open>The informer cache of controller-runtime: the errors it gives for a kind.\<close>

record cache_env =
  informer_err :: "GVK \<Rightarrow> string option"
  remove_err :: "GVK \<Rightarrow> string option"

subsection \<open>Requests to the replay loop\<close>

definition cancel_replay :: "nat \<Rightarrow> Manager \<Rightarrow> Manager" where
  "cancel_replay i wm =
     (case mget (wm_replays wm) i of
        None \<Rightarrow> wm
      | Some p \<Rightarrow> wm\<lparr>wm_replays := mput i (p\<lparr>rp_cancelled := True\<rparr>) (wm_replays wm)\<rparr>)"

definition loop_entry :: "GVK \<Rightarrow> Manager \<Rightarrow> (nat, nat) gomap" where
  "loop_entry gvk wm = (case mget (wm_loop wm) gvk of None \<Rightarrow> [] | Some m \<Rightarrow> m)"

definition replay_request :: "replayRequest \<Rightarrow> Manager \<Rightarrow> Manager" where
  "replay_request req wm =
     (case rr_r req of
        None \<Rightarrow> wm
      | Some r \<Rightarrow>
          (let byRegistrar = loop_entry (rr_gvk req) wm;
               c = mget byRegistrar r
           in if isCancel req \<and> c \<noteq> None then
                (let byRegistrar' = mdel r byRegistrar
                 in cancel_replay (the c)
                      (wm\<lparr>wm_loop := (if byRegistrar' = [] then mdel (rr_gvk req) (wm_loop wm)
                                      else mput (rr_gvk req) byRegistrar' (wm_loop wm))\<rparr>))
              else if isCancel req \<or> c \<noteq> None then wm
              else if \<not> replayIntended r (rr_gvk req) (wm_replayTracker wm) then wm
              else if \<not> has_events (wm_regs wm ! r) then wm
              else wm\<lparr>wm_loop := mput (rr_gvk req) (mput r (wm_next wm) byRegistrar) (wm_loop wm),
                      wm_replays := mput (wm_next wm) \<lparr>rp_reg = r, rp_gvk = rr_gvk req, rp_cancelled = False\<rparr> (wm_replays wm),
                      wm_next := Suc (wm_next wm),
                      wm_replayTracker := addReplay (rr_gvk req) (wm_replayTracker wm)\<rparr>))"

definition send_request :: "replayRequest \<Rightarrow> Manager \<Rightarrow> Manager" where
  "send_request req wm = (if wm_stopped wm then wm else replay_request req wm)"

definition requestReplay :: "nat \<Rightarrow> GVK \<Rightarrow> Manager \<Rightarrow> Manager" where
  "requestReplay r gvk wm =
     send_request \<lparr>rr_r = Some r, rr_gvk = gvk, isCancel = False\<rparr>
       (wm\<lparr>wm_replayTracker := setIntent r gvk True (wm_replayTracker wm)\<rparr>)"

definition cancelReplay :: "nat \<Rightarrow> GVK \<Rightarrow> Manager \<Rightarrow> Manager" where
  "cancelReplay r gvk wm =
     send_request \<lparr>rr_r = Some r, rr_gvk = gvk, isCancel = True\<rparr>
       (wm\<lparr>wm_replayTracker := setIntent r gvk False (wm_replayTracker wm)\<rparr>)"

text \<open>The end of a replay goroutine; \<open>None\<close> is a panic.\<close>

definition replay_end :: "nat \<Rightarrow> Manager \<Rightarrow> Manager option" where
  "replay_end i wm =
     (case mget (wm_replays wm) i of
        None \<Rightarrow> Some wm
      | Some p \<Rightarrow>
          map_option (\<lambda>rt. wm\<lparr>wm_replays := mdel i (wm_replays wm), wm_replayTracker := rt\<rparr>)
            (replayDone (rp_gvk p) (wm_replayTracker wm)))"

fun replay_ends :: "nat list \<Rightarrow> Manager \<Rightarrow> Manager option" where
  "replay_ends [] wm = Some wm"
| "replay_ends (i # is) wm = (case replay_end i wm of None \<Rightarrow> None | Some wm' \<Rightarrow> replay_ends is wm')"

text \<open>Waiting for the channel of a kind: unless the manager is stopped, all replays of the kind
  have ended.\<close>

definition await_replays :: "GVK \<Rightarrow> Manager \<Rightarrow> Manager option" where
  "await_replays gvk wm =
     (if replayWaitCh_closed gvk (wm_replayTracker wm) \<or> wm_stopped wm then Some wm
      else replay_ends (map fst (filter (\<lambda>(i, p). rp_gvk p = gvk) (wm_replays wm))) wm)"

text \<open>What a replay goroutine does: it lists the kind and sends every item, until its context
  is cancelled, here after the first \<open>n\<close> items.\<close>

definition replayEvents :: "string + object list \<Rightarrow> nat option \<Rightarrow> nat option \<Rightarrow> Manager \<Rightarrow> Manager \<times> string option" where
  "replayEvents listing n r wm =
     (case r of
        None \<Rightarrow> (wm, Some ''nil registrar'')
      | Some reg \<Rightarrow>
          if \<not> has_events (wm_regs wm ! reg) then (wm, None)
          else (case listing of
             Inl err \<Rightarrow> (wm, Some (''listing resources '' @ err))
           | Inr items \<Rightarrow>
               (case n of
                  None \<Rightarrow> (wm\<lparr>wm_sent := wm_sent wm @ map (Pair reg) items\<rparr>, None)
                | Some k \<Rightarrow>
                    if length items \<le> k then (wm\<lparr>wm_sent := wm_sent wm @ map (Pair reg) items\<rparr>, None)
                    else (wm\<lparr>wm_sent := wm_sent wm @ map (Pair reg) (take k items)\<rparr>, Some ''context canceled''))))"

subsection \<open>Adding and removing watches\<close>

definition watchers :: "GVK \<Rightarrow> Manager \<Rightarrow> vitals" where
  "watchers gvk wm = (case mget (watchedKinds wm) gvk of Some v \<Rightarrow> v | None \<Rightarrow> zero_vitals)"

definition handlers :: "GVK \<Rightarrow> Manager \<Rightarrow> nat" where
  "handlers gvk wm = (case mget (wm_handlers wm) gvk of Some n \<Rightarrow> n | None \<Rightarrow> 0)"

definition mark_watched :: "nat \<Rightarrow> GVK \<Rightarrow> vitals \<Rightarrow> Manager \<Rightarrow> Manager" where
  "mark_watched r gvk w wm =
     wm\<lparr>watchedKinds := mput gvk (merge_vitals (Some w) \<lparr>v_gvk = gvk, v_registrars = {r}\<rparr>) (watchedKinds wm)\<rparr>"

definition doAddWatch :: "cache_env \<Rightarrow> nat option \<Rightarrow> GVK \<Rightarrow> Manager \<Rightarrow> Manager \<times> string option" where
  "doAddWatch env reg gvk wm =
     (case reg of
        None \<Rightarrow> (wm, Some ''nil registrar cannot watch'')
      | Some r \<Rightarrow>
          (let w = watchers gvk wm; m = rk_Get (managedKinds wm) in
           case mget m gvk of
             None \<Rightarrow> (wm, Some (''could not mark '' @ GVK_String gvk @ '' as managed''))
           | Some want \<Rightarrow>
               if r \<notin> v_registrars want then
                 (wm, Some (''registrar '' @ parentName (wm_regs wm ! r) @ '' not in desired watch set''))
               else if r \<in> v_registrars w then (wm, None)
               else if v_registrars w \<noteq> {} then (mark_watched r gvk w (requestReplay r gvk wm), None)
               else (case informer_err env gvk of
                  Some err \<Rightarrow> (wm, Some (''getting informer for kind: '' @ err))
                | None \<Rightarrow>
                    (mark_watched r gvk w
                       (wm\<lparr>wm_handlers := mput gvk (Suc (handlers gvk wm)) (wm_handlers wm)\<rparr>), None))))"

text \<open>\<open>None\<close> is a panic.\<close>

definition doRemoveWatch :: "cache_env \<Rightarrow> nat \<Rightarrow> GVK \<Rightarrow> Manager \<Rightarrow> (Manager \<times> string option) option" where
  "doRemoveWatch env r gvk wm =
     (case mget (watchedKinds wm) gvk of
        None \<Rightarrow> Some (wm, None)
      | Some v \<Rightarrow>
          if r \<notin> v_registrars v then Some (wm, None)
          else (let wm1 = cancelReplay r gvk wm;
                    v' = v\<lparr>v_registrars := v_registrars v - {r}\<rparr>;
                    wm2 = wm1\<lparr>watchedKinds := mput gvk v' (watchedKinds wm1)\<rparr>
                in if v_registrars v' \<noteq> {} then Some (wm2, None)
                   else (case await_replays gvk wm2 of
                      None \<Rightarrow> None
                    | Some wm3 \<Rightarrow>
                        (case remove_err env gvk of
                           Some err \<Rightarrow> Some (wm3, Some (''removing '' @ err))
                         | None \<Rightarrow>
                             Some (wm3\<lparr>watchedKinds := mdel gvk (watchedKinds wm3),
                                       wm_handlers := mdel gvk (wm_handlers wm3)\<rparr>, None)))))"

fun remove_undesired :: "cache_env \<Rightarrow> vitalsByGVK \<Rightarrow> nat \<Rightarrow> GVK list \<Rightarrow> Manager \<Rightarrow> string list \<Rightarrow>
    (Manager \<times> string list) option" where
  "remove_undesired env desired r [] wm errs = Some (wm, errs)"
| "remove_undesired env desired r (gvk # gvks) wm errs =
     (if (case mget desired gvk of Some v \<Rightarrow> r \<in> v_registrars v | None \<Rightarrow> False)
      then remove_undesired env desired r gvks wm errs
      else (case doRemoveWatch env r gvk wm of
         None \<Rightarrow> None
       | Some (wm', err) \<Rightarrow>
           remove_undesired env desired r gvks wm' (case err of None \<Rightarrow> errs | Some e \<Rightarrow> errs @ [''removing watch for '' @ e])))"

fun add_desired :: "cache_env \<Rightarrow> nat \<Rightarrow> (GVK \<times> vitals) list \<Rightarrow> Manager \<Rightarrow> string list \<Rightarrow> Manager \<times> string list" where
  "add_desired env r [] wm errs = (wm, errs)"
| "add_desired env r ((gvk, v) # ds) wm errs =
     (if r \<notin> v_registrars v then add_desired env r ds wm errs
      else let (wm', err) = doAddWatch env (Some r) gvk wm
        in add_desired env r ds wm' (case err of None \<Rightarrow> errs | Some e \<Rightarrow> errs @ [''adding watch for '' @ e]))"

definition replaceWatches :: "cache_env \<Rightarrow> nat \<Rightarrow> Manager \<Rightarrow> (Manager \<times> string list) option" where
  "replaceWatches env r wm =
     (let desired = rk_Get (managedKinds wm) in
      map_option (\<lambda>(wm1, errs). add_desired env r desired wm1 errs)
        (remove_undesired env desired r (mkeys (watchedKinds wm)) wm []))"

text \<open>The error list as one error: its texts by line.\<close>

fun errorList_Error :: "string list \<Rightarrow> string" where
  "errorList_Error [] = []"
| "errorList_Error [e] = e"
| "errorList_Error (e # es) = e @ [CHR 0x0A] @ errorList_Error es"

subsection \<open>Registrars\<close>

definition NewRegistrar :: "string \<Rightarrow> bool \<Rightarrow> Manager \<Rightarrow> Manager \<times> (string + nat)" where
  "NewRegistrar name events wm =
     (if mget (rk_registrars (managedKinds wm)) name \<noteq> None
      then (wm, Inl (''registrar for '' @ name @ '' already exists''))
      else let r = length (wm_regs wm) in
        (wm\<lparr>wm_regs := wm_regs wm @ [\<lparr>parentName = name, has_events = events\<rparr>],
            managedKinds := (managedKinds wm)\<lparr>rk_registrars := mput name r (rk_registrars (managedKinds wm))\<rparr>\<rparr>,
         Inr r))"

definition name_of :: "nat \<Rightarrow> Manager \<Rightarrow> string" where
  "name_of r wm = parentName (wm_regs wm ! r)"

definition watch_of :: "nat \<Rightarrow> GVK \<Rightarrow> vitals" where
  "watch_of r gvk = \<lparr>v_gvk = gvk, v_registrars = {r}\<rparr>"

definition AddWatch :: "cache_env \<Rightarrow> nat \<Rightarrow> GVK \<Rightarrow> Manager \<Rightarrow> Manager \<times> string option" where
  "AddWatch env r gvk wm =
     doAddWatch env (Some r) gvk
       (wm\<lparr>managedKinds := rk_Update (name_of r wm) [(gvk, watch_of r gvk)] (managedKinds wm)\<rparr>)"

definition new_roster :: "nat \<Rightarrow> GVK list \<Rightarrow> vitalsByGVK" where
  "new_roster r gvks = fold (\<lambda>gvk. mput gvk (watch_of r gvk)) gvks []"

definition ReplaceWatch :: "cache_env \<Rightarrow> nat \<Rightarrow> GVK list \<Rightarrow> Manager \<Rightarrow> (Manager \<times> string list) option" where
  "ReplaceWatch env r gvks wm =
     replaceWatches env r
       (wm\<lparr>managedKinds := ReplaceRegistrarRoster (name_of r wm) (new_roster r gvks) (managedKinds wm)\<rparr>)"

definition RemoveWatch :: "cache_env \<Rightarrow> nat \<Rightarrow> GVK \<Rightarrow> Manager \<Rightarrow> (Manager \<times> string option) option" where
  "RemoveWatch env r gvk wm =
     doRemoveWatch env r gvk (wm\<lparr>managedKinds := rk_Remove (name_of r wm) gvk (managedKinds wm)\<rparr>)"

definition Registrar_Watching :: "nat \<Rightarrow> GVK \<Rightarrow> Manager \<Rightarrow> bool" where
  "Registrar_Watching r gvk wm = rk_Watching (name_of r wm) gvk (managedKinds wm)"

definition RemoveRegistrar :: "cache_env \<Rightarrow> string \<Rightarrow> Manager \<Rightarrow> (Manager \<times> string list) option" where
  "RemoveRegistrar env name wm =
     (case mget (rk_registrars (managedKinds wm)) name of
        None \<Rightarrow> Some (wm, [])
      | Some r \<Rightarrow>
          (case ReplaceWatch env r [] wm of
             None \<Rightarrow> None
           | Some (wm', errs) \<Rightarrow>
               if errs \<noteq> [] then Some (wm', errs)
               else Some (wm'\<lparr>managedKinds := (managedKinds wm')
                   \<lparr>rk_registrars := mdel name (rk_registrars (managedKinds wm'))\<rparr>\<rparr>, [])))"

definition GetManagedGVK :: "Manager \<Rightarrow> GVK list" where
  "GetManagedGVK wm = rk_GetGVK (managedKinds wm)"

subsection \<open>Events\<close>

text \<open>An object that is no API object is dropped; the others go to all watchers with a channel.\<close>

definition distributeEvent :: "object option \<Rightarrow> Manager \<Rightarrow> Manager" where
  "distributeEvent obj wm =
     (case obj of
        None \<Rightarrow> wm
      | Some o' \<Rightarrow>
          (case mget (watchedKinds wm) (GroupVersionKind o') of
             None \<Rightarrow> wm
           | Some v \<Rightarrow>
               wm\<lparr>wm_sent := wm_sent wm @
                 map (\<lambda>r. (r, o')) (filter (\<lambda>r. has_events (wm_regs wm ! r)) (sorted_list_of_set (v_registrars v)))\<rparr>))"

text \<open>The informer callbacks queue objects for the event loop; here they are distributed at once,
  the old version of an update before the new one.\<close>

definition OnAdd :: "object option \<Rightarrow> Manager \<Rightarrow> Manager" where
  "OnAdd obj wm = (if wm_stopped wm then wm else distributeEvent obj wm)"

definition OnUpdate :: "object option \<Rightarrow> object option \<Rightarrow> Manager \<Rightarrow> Manager" where
  "OnUpdate oldObj newObj wm =
     (if wm_stopped wm then wm else distributeEvent newObj (distributeEvent oldObj wm))"

definition OnDelete :: "object option \<Rightarrow> Manager \<Rightarrow> Manager" where
  "OnDelete obj wm = (if wm_stopped wm then wm else distributeEvent obj wm)"

end
