(* ===== verification/Watch_Facts.thy ===== *)
theory Watch_Facts
  imports Watch_Manager
begin

text \<open>
  Facts on the watch manager: what its operations do to who watches what, the invariant of the
  intent, of the replay counters and of the running replays, and that no operation panics.
\<close>

section \<open>Who wants and who watches\<close>

definition regs_at :: "vitalsByGVK \<Rightarrow> GVK \<Rightarrow> nat set" where
  "regs_at m g = (case mget m g of None \<Rightarrow> {} | Some v \<Rightarrow> v_registrars v)"

definition watching :: "nat \<Rightarrow> GVK \<Rightarrow> Manager \<Rightarrow> bool" where
  "watching r g wm \<longleftrightarrow> r \<in> regs_at (watchedKinds wm) g"

definition wants :: "nat \<Rightarrow> GVK \<Rightarrow> Manager \<Rightarrow> bool" where
  "wants r g wm \<longleftrightarrow> r \<in> regs_at (rk_Get (managedKinds wm)) g"

lemma regs_at_mput [simp]: "regs_at (mput k v m) g = (if g = k then v_registrars v else regs_at m g)"
  by (simp add: regs_at_def)

lemma regs_at_mdel [simp]: "regs_at (mdel k m) g = (if g = k then {} else regs_at m g)"
  by (simp add: regs_at_def)

lemma regs_at_Nil [simp]: "regs_at [] g = {}"
  by (simp add: regs_at_def)

lemma v_registrars_merge [simp]: "v_registrars (merge_vitals (Some w) v) = v_registrars w \<union> v_registrars v"
  by (simp add: merge_vitals_def)

lemma v_registrars_watchers [simp]: "v_registrars (watchers g wm) = regs_at (watchedKinds wm) g"
  by (simp add: watchers_def regs_at_def zero_vitals_def split: option.split)

definition list_regs :: "vitalsByGVK \<Rightarrow> GVK \<Rightarrow> nat set" where
  "list_regs m g = \<Union> ((\<lambda>(k, v). if k = g then v_registrars v else {}) ` set m)"

lemma list_regs_simps [simp]:
  "list_regs [] g = {}"
  "list_regs ((k, v) # m) g = (if k = g then v_registrars v else {}) \<union> list_regs m g"
  by (simp_all add: list_regs_def)

lemma regs_at_merge_roster: "regs_at (merge_roster m mk) g = regs_at mk g \<union> list_regs m g"
  unfolding merge_roster_def
  by (induction m arbitrary: mk) (auto simp: regs_at_def split: option.splits if_splits)

lemma regs_at_rk_Get: "regs_at (rk_Get r) g = \<Union> ((\<lambda>(name, m). list_regs m g) ` set (intent r))"
proof -
  have "regs_at (fold (\<lambda>(name, registrar) mk. merge_roster registrar mk) xs mk) g =
      regs_at mk g \<union> \<Union> ((\<lambda>(name, m). list_regs m g) ` set xs)" for xs :: "(string \<times> vitalsByGVK) list" and mk
    by (induction xs arbitrary: mk) (auto simp: regs_at_merge_roster)
  then show ?thesis by (simp add: rk_Get_def)
qed

lemma list_regs_absent: "g \<notin> fst ` set m \<Longrightarrow> list_regs m g = {}"
  by (induction m) auto

lemma list_regs_wf: "mwf m \<Longrightarrow> list_regs m g = regs_at m g"
proof (induction m)
  case (Cons p m)
  obtain k v where p: "p = (k, v)" by (cases p)
  have "k \<notin> fst ` set m" using Cons.prems by (auto simp: p mwf_Cons)
  then show ?case using Cons by (auto simp: p mwf_Cons regs_at_def list_regs_absent)
qed simp

section \<open>The intent\<close>

definition intent_wf :: "recordKeeper \<Rightarrow> bool" where
  "intent_wf r \<longleftrightarrow> mwf (intent r) \<and> (\<forall>p \<in> set (intent r). mwf (snd p))"

text \<open>Each roster holds only watches of registrars of its own name.\<close>

definition intent_inv :: "Manager \<Rightarrow> bool" where
  "intent_inv wm \<longleftrightarrow>
     intent_wf (managedKinds wm) \<and>
     (\<forall>name g r. r \<in> regs_at (roster name (managedKinds wm)) g \<longrightarrow>
        r < length (wm_regs wm) \<and> name_of r wm = name)"

lemma regs_at_Get_roster:
  assumes "intent_wf r"
  shows "regs_at (rk_Get r) g = (\<Union>name. regs_at (roster name r) g)"
proof -
  have "\<Union> ((\<lambda>(name, m). list_regs m g) ` set (intent r)) = \<Union> ((\<lambda>(name, m). regs_at m g) ` set (intent r))"
    using assms by (force simp: intent_wf_def list_regs_wf)
  also have "\<dots> = (\<Union>name. regs_at (roster name r) g)"
    using assms by (force simp: intent_wf_def roster_def mget_iff_set [symmetric] split: option.splits)
  finally show ?thesis by (simp add: regs_at_rk_Get)
qed

lemma wants_iff:
  assumes "intent_inv wm"
  shows "wants r g wm \<longleftrightarrow> r \<in> regs_at (roster (name_of r wm) (managedKinds wm)) g"
  using assms unfolding wants_def intent_inv_def by (auto simp: regs_at_Get_roster)

lemma roster_mput [simp]: "roster n (r\<lparr>intent := mput name m (intent r)\<rparr>) = (if n = name then m else roster n r)"
  by (simp add: roster_def)

lemma intent_wf_mput: "intent_wf r \<Longrightarrow> mwf m \<Longrightarrow> intent_wf (r\<lparr>intent := mput name m (intent r)\<rparr>)"
  using set_mput_subset [of name m "intent r"] unfolding intent_wf_def by auto

lemma roster_wf: "intent_wf r \<Longrightarrow> mwf (roster n r)"
  unfolding intent_wf_def roster_def by (auto simp: mget_iff_set split: option.split)

lemma rk_Update_single:
  "rk_Update name [(g, v)] r =
    (if mget (intent r) name = None then r\<lparr>intent := mput name [(g, v)] (intent r)\<rparr>
     else r\<lparr>intent := mput name (mput g v (roster name r)) (intent r)\<rparr>)"
  by (simp add: rk_Update_def Let_def roster_def)

section \<open>What the operations do to the watches\<close>

text \<open>The part of the state that the replays do not touch.\<close>

definition same_watches :: "Manager \<Rightarrow> Manager \<Rightarrow> bool" where
  "same_watches wm wm' \<longleftrightarrow>
     watchedKinds wm' = watchedKinds wm \<and> managedKinds wm' = managedKinds wm \<and> wm_regs wm' = wm_regs wm \<and>
     wm_handlers wm' = wm_handlers wm \<and> wm_stopped wm' = wm_stopped wm"

lemma same_watches_refl [simp]: "same_watches wm wm"
  by (simp add: same_watches_def)

lemma same_watches_trans: "same_watches a b \<Longrightarrow> same_watches b c \<Longrightarrow> same_watches a c"
  by (simp add: same_watches_def)

lemma same_watches_cancel_replay: "same_watches wm (cancel_replay i wm)"
  by (auto simp: same_watches_def cancel_replay_def split: option.split)

lemma same_watches_request: "same_watches wm (replay_request req wm)"
proof -
  have "same_watches wm (cancel_replay i (wm\<lparr>wm_loop := m\<rparr>))" for i m
    by (rule same_watches_trans [OF _ same_watches_cancel_replay]) (simp add: same_watches_def)
  then show ?thesis
    by (auto simp: replay_request_def Let_def same_watches_def split: option.split)
qed

lemma same_watches_send: "same_watches wm (send_request req wm)"
  by (simp add: send_request_def same_watches_request)

lemma same_watches_setIntent: "same_watches wm (wm\<lparr>wm_replayTracker := rt\<rparr>)"
  by (simp add: same_watches_def)

lemma same_watches_requestReplay: "same_watches wm (requestReplay r g wm)"
  and same_watches_cancelReplay: "same_watches wm (cancelReplay r g wm)"
  unfolding requestReplay_def cancelReplay_def
  by (rule same_watches_trans [OF same_watches_setIntent same_watches_send])+

lemma same_watches_replay_end: "replay_end i wm = Some wm' \<Longrightarrow> same_watches wm wm'"
  by (auto simp: replay_end_def same_watches_def split: option.splits)

lemma same_watches_replay_ends: "replay_ends is wm = Some wm' \<Longrightarrow> same_watches wm wm'"
  by (induction "is" arbitrary: wm)
    (auto split: option.splits dest!: same_watches_replay_end intro: same_watches_trans)

lemma same_watches_await: "await_replays g wm = Some wm' \<Longrightarrow> same_watches wm wm'"
  by (auto simp: await_replays_def split: if_splits dest: same_watches_replay_ends)

lemma doAddWatch_cases:
  assumes "doAddWatch env (Some r) g wm = (wm', err)"
  obtains (refused) e where "err = Some e" "wm' = wm"
  | (already) "err = None" "wm' = wm" "wants r g wm" "watching r g wm"
  | (joins) "err = None" "wants r g wm" "\<not> watching r g wm" "regs_at (watchedKinds wm) g \<noteq> {}"
      "wm' = mark_watched r g (watchers g wm) (requestReplay r g wm)"
  | (first) "err = None" "wants r g wm" "regs_at (watchedKinds wm) g = {}" "informer_err env g = None"
      "wm' = mark_watched r g (watchers g wm)
         (wm\<lparr>wm_handlers := mput g (Suc (handlers g wm)) (wm_handlers wm)\<rparr>)"
  using assms
  by (auto simp: doAddWatch_def Let_def wants_def watching_def regs_at_def split: option.splits if_splits)

lemma watching_mark:
  "watching r' g' (mark_watched r g w wm) \<longleftrightarrow>
    (if g' = g then r' = r \<or> r' \<in> v_registrars w else watching r' g' wm)"
  by (auto simp: watching_def mark_watched_def)

lemma watching_same: "same_watches wm wm' \<Longrightarrow> watching r g wm' = watching r g wm"
  by (simp add: watching_def same_watches_def)

lemma doAddWatch_watching:
  assumes "doAddWatch env (Some r) g wm = (wm', err)"
  shows "watching r' g' wm' \<longleftrightarrow> watching r' g' wm \<or> (err = None \<and> r' = r \<and> g' = g)"
    "managedKinds wm' = managedKinds wm" "wm_regs wm' = wm_regs wm" "wm_stopped wm' = wm_stopped wm"
  using assms
  by (cases rule: doAddWatch_cases;
      use same_watches_requestReplay [of wm r g] in
        \<open>auto simp: watching_def mark_watched_def same_watches_def\<close>)+

lemma doRemoveWatch_cases:
  assumes "doRemoveWatch env r g wm = Some (wm', err)"
  obtains (idle) "\<not> watching r g wm" "wm' = wm" "err = None"
  | (others) v where "watching r g wm" "mget (watchedKinds wm) g = Some v" "v_registrars v - {r} \<noteq> {}" "err = None"
      "wm' = (cancelReplay r g wm)\<lparr>watchedKinds := mput g (v\<lparr>v_registrars := v_registrars v - {r}\<rparr>)
         (watchedKinds (cancelReplay r g wm))\<rparr>"
  | (last) v wm3 where "watching r g wm" "mget (watchedKinds wm) g = Some v" "v_registrars v - {r} = {}"
      "await_replays g ((cancelReplay r g wm)\<lparr>watchedKinds := mput g (v\<lparr>v_registrars := {}\<rparr>)
         (watchedKinds (cancelReplay r g wm))\<rparr>) = Some wm3"
      "(err, wm') = (case remove_err env g of Some e \<Rightarrow> (Some (''removing '' @ e), wm3)
         | None \<Rightarrow> (None, wm3\<lparr>watchedKinds := mdel g (watchedKinds wm3), wm_handlers := mdel g (wm_handlers wm3)\<rparr>))"
proof (cases "watching r g wm")
  case False
  then show ?thesis using assms
    by (intro idle) (auto simp: doRemoveWatch_def watching_def regs_at_def split: option.splits)
next
  case True
  then obtain v where v: "mget (watchedKinds wm) g = Some v" "r \<in> v_registrars v"
    by (auto simp: watching_def regs_at_def split: option.splits)
  show ?thesis
  proof (cases "v_registrars v - {r} = {}")
    case False
    then show ?thesis using assms v True by (intro others [of v]) (auto simp: doRemoveWatch_def Let_def)
  next
    case empty: True
    let ?wm2 = "(cancelReplay r g wm)\<lparr>watchedKinds := mput g (v\<lparr>v_registrars := {}\<rparr>)
       (watchedKinds (cancelReplay r g wm))\<rparr>"
    obtain wm3 where w3: "await_replays g ?wm2 = Some wm3"
      using assms v empty
      by (cases "await_replays g ?wm2") (simp_all add: doRemoveWatch_def Let_def del: Diff_eq_empty_iff)
    then have "(err, wm') = (case remove_err env g of Some e \<Rightarrow> (Some (''removing '' @ e), wm3)
         | None \<Rightarrow> (None, wm3\<lparr>watchedKinds := mdel g (watchedKinds wm3), wm_handlers := mdel g (wm_handlers wm3)\<rparr>))"
      using assms v empty
      by (cases "remove_err env g") (simp_all add: doRemoveWatch_def Let_def del: Diff_eq_empty_iff)
    with True v(1) empty w3 show ?thesis by (intro last)
  qed
qed

lemma doRemoveWatch_watching:
  assumes "doRemoveWatch env r g wm = Some (wm', err)"
  shows "watching r' g' wm' \<longleftrightarrow> watching r' g' wm \<and> \<not> (r' = r \<and> g' = g)"
    "managedKinds wm' = managedKinds wm" "wm_regs wm' = wm_regs wm" "wm_stopped wm' = wm_stopped wm"
proof -
  have "(watching r' g' wm' \<longleftrightarrow> watching r' g' wm \<and> \<not> (r' = r \<and> g' = g)) \<and>
      managedKinds wm' = managedKinds wm \<and> wm_regs wm' = wm_regs wm \<and> wm_stopped wm' = wm_stopped wm"
    using assms
  proof (cases rule: doRemoveWatch_cases)
    case idle
    then show ?thesis by auto
  next
    case (others v)
    then show ?thesis using same_watches_cancelReplay [of wm r g]
      by (auto simp: watching_def same_watches_def regs_at_def)
  next
    case (last v wm3)
    then show ?thesis using same_watches_cancelReplay [of wm r g] same_watches_await [OF last(4)]
      by (cases "remove_err env g") (auto simp: watching_def same_watches_def regs_at_def)
  qed
  then show "watching r' g' wm' \<longleftrightarrow> watching r' g' wm \<and> \<not> (r' = r \<and> g' = g)"
    "managedKinds wm' = managedKinds wm" "wm_regs wm' = wm_regs wm" "wm_stopped wm' = wm_stopped wm" by blast+
qed

lemma remove_undesired_watching:
  assumes "remove_undesired env desired r gs wm errs = Some (wm', errs')"
  shows "(\<forall>r' g. watching r' g wm' \<longleftrightarrow> watching r' g wm \<and> \<not> (r' = r \<and> g \<in> set gs \<and> r \<notin> regs_at desired g)) \<and>
    managedKinds wm' = managedKinds wm \<and> wm_regs wm' = wm_regs wm \<and> wm_stopped wm' = wm_stopped wm"
  using assms
proof (induction gs arbitrary: wm errs)
  case (Cons g gs)
  show ?case
  proof (cases "r \<in> regs_at desired g")
    case True
    then have "remove_undesired env desired r gs wm errs = Some (wm', errs')"
      using Cons.prems by (auto simp: regs_at_def split: option.splits)
    then show ?thesis using Cons.IH True by auto
  next
    case False
    then obtain wm1 err where w1: "doRemoveWatch env r g wm = Some (wm1, err)"
      "remove_undesired env desired r gs wm1 (case err of None \<Rightarrow> errs | Some e \<Rightarrow> errs @ [''removing watch for '' @ e]) = Some (wm', errs')"
      using Cons.prems by (auto simp: regs_at_def split: option.splits if_splits)
    show ?thesis
      using Cons.IH [OF w1(2)] doRemoveWatch_watching [OF w1(1)] False by auto
  qed
qed simp

lemma add_desired_watching:
  assumes "add_desired env r ds wm errs = (wm', errs')"
  shows "(\<forall>r' g. r' \<noteq> r \<longrightarrow> watching r' g wm' = watching r' g wm) \<and>
    (\<forall>g. watching r g wm' \<longrightarrow> watching r g wm \<or> r \<in> list_regs ds g) \<and>
    (\<forall>g. watching r g wm \<longrightarrow> watching r g wm') \<and>
    (errs' = [] \<longrightarrow> errs = [] \<and> (\<forall>g. r \<in> list_regs ds g \<longrightarrow> watching r g wm')) \<and>
    managedKinds wm' = managedKinds wm \<and> wm_regs wm' = wm_regs wm \<and> wm_stopped wm' = wm_stopped wm"
  using assms
proof (induction ds arbitrary: wm errs)
  case (Cons d ds)
  obtain g v where d: "d = (g, v)" by (cases d)
  show ?case
  proof (cases "r \<in> v_registrars v")
    case False
    then have "add_desired env r ds wm errs = (wm', errs')" using Cons.prems d by simp
    from Cons.IH [OF this] show ?thesis using False d by auto
  next
    case True
    obtain wm1 err where w1: "doAddWatch env (Some r) g wm = (wm1, err)" by (cases "doAddWatch env (Some r) g wm")
    then have "add_desired env r ds wm1 (case err of None \<Rightarrow> errs | Some e \<Rightarrow> errs @ [''adding watch for '' @ e]) = (wm', errs')"
      using Cons.prems d True by simp
    from Cons.IH [OF this] show ?thesis
      using doAddWatch_watching [OF w1] True d by (cases err) auto
  qed
qed simp

lemma watching_key: "watching r g wm \<Longrightarrow> g \<in> set (mkeys (watchedKinds wm))"
  by (auto simp: watching_def regs_at_def mkeys_def split: option.splits) (metis mget_None_iff option.distinct(1))

text \<open>Replacing the watches of a registrar, for any desired set.\<close>

lemma replaceWatches_watching:
  assumes "replaceWatches env r wm = Some (wm', errs)" "mwf (rk_Get (managedKinds wm))"
  shows "watching r g wm' \<Longrightarrow> wants r g wm" "errs = [] \<Longrightarrow> wants r g wm \<Longrightarrow> watching r g wm'"
    "r' \<noteq> r \<Longrightarrow> watching r' g wm' = watching r' g wm"
    "managedKinds wm' = managedKinds wm" "wm_regs wm' = wm_regs wm" "wm_stopped wm' = wm_stopped wm"
proof -
  let ?d = "rk_Get (managedKinds wm)"
  obtain wm1 errs1 where w1: "remove_undesired env ?d r (mkeys (watchedKinds wm)) wm [] = Some (wm1, errs1)"
    "add_desired env r ?d wm1 errs1 = (wm', errs)"
    using assms(1) by (auto simp: replaceWatches_def Let_def)
  note rm = remove_undesired_watching [OF w1(1)] and ad = add_desired_watching [OF w1(2)]
  have d: "r \<in> list_regs ?d g \<longleftrightarrow> wants r g wm" for g
    using assms(2) by (simp add: wants_def list_regs_wf)
  have k: "watching r g wm1 \<longleftrightarrow> watching r g wm \<and> wants r g wm" for g
    using rm watching_key by (auto simp: wants_def)
  show "watching r g wm' \<Longrightarrow> wants r g wm" using ad k d by blast
  show "errs = [] \<Longrightarrow> wants r g wm \<Longrightarrow> watching r g wm'" using ad d by blast
  show "r' \<noteq> r \<Longrightarrow> watching r' g wm' = watching r' g wm" using ad rm by blast
  show "managedKinds wm' = managedKinds wm" "wm_regs wm' = wm_regs wm" "wm_stopped wm' = wm_stopped wm"
    using ad rm by auto
qed

lemma mwf_rk_Get: "mwf (rk_Get r)"
proof -
  have m: "mwf mk \<Longrightarrow> mwf (merge_roster x mk)" for x mk
    unfolding merge_roster_def by (induction x arbitrary: mk) (auto split: option.split)
  have "mwf mk \<Longrightarrow> mwf (fold (\<lambda>(name, registrar) mk. merge_roster registrar mk) xs mk)" for xs :: "(string \<times> vitalsByGVK) list" and mk
    by (induction xs arbitrary: mk) (auto intro: m)
  then show ?thesis by (simp add: rk_Get_def)
qed

lemma regs_at_new_roster: "regs_at (new_roster r gs) g = (if g \<in> set gs then {r} else {})"
proof -
  have "regs_at (fold (\<lambda>g. mput g (watch_of r g)) gs m) g = (if g \<in> set gs then {r} else regs_at m g)" for m
    by (induction gs arbitrary: m) (auto simp: watch_of_def)
  then show ?thesis by (simp add: new_roster_def)
qed

lemma mwf_new_roster: "mwf (new_roster r gs)"
proof -
  have "mwf m \<Longrightarrow> mwf (fold (\<lambda>g. mput g (watch_of r g)) gs m)" for m
    by (induction gs arbitrary: m) auto
  then show ?thesis by (simp add: new_roster_def)
qed

text \<open>Changing one roster.\<close>

definition set_roster :: "string \<Rightarrow> vitalsByGVK \<Rightarrow> Manager \<Rightarrow> Manager" where
  "set_roster name m wm = wm\<lparr>managedKinds := (managedKinds wm)\<lparr>intent := mput name m (intent (managedKinds wm))\<rparr>\<rparr>"

lemma set_roster_simps [simp]:
  "watching r g (set_roster name m wm) = watching r g wm" "wm_regs (set_roster name m wm) = wm_regs wm"
  "name_of r (set_roster name m wm) = name_of r wm"
  "roster n (managedKinds (set_roster name m wm)) = (if n = name then m else roster n (managedKinds wm))"
  by (simp_all add: set_roster_def watching_def name_of_def)

lemma intent_inv_set_roster:
  assumes "intent_inv wm" "mwf m" "r < length (wm_regs wm)"
    "\<And>g. regs_at m g \<subseteq> insert r (regs_at (roster (name_of r wm) (managedKinds wm)) g)"
  shows "intent_inv (set_roster (name_of r wm) m wm)"
proof -
  have "intent_wf (managedKinds (set_roster (name_of r wm) m wm))"
    using assms(1,2) intent_wf_mput by (simp add: intent_inv_def set_roster_def)
  then show ?thesis using assms(1,3,4) unfolding intent_inv_def by (auto split: if_splits) blast+
qed

lemma ReplaceWatch_set_roster:
  "ReplaceWatch env r gs wm = replaceWatches env r (set_roster (name_of r wm) (new_roster r gs) wm)"
  by (simp add: ReplaceWatch_def ReplaceRegistrarRoster_def set_roster_def)

lemma AddWatch_set_roster:
  "AddWatch env r g wm = doAddWatch env (Some r) g
    (set_roster (name_of r wm) (mput g (watch_of r g) (roster (name_of r wm) (managedKinds wm))) wm)"
  by (auto simp: AddWatch_def rk_Update_single set_roster_def roster_def)

lemma RemoveWatch_set_roster:
  "RemoveWatch env r g wm = doRemoveWatch env r g
    (if mget (intent (managedKinds wm)) (name_of r wm) = None then wm
     else set_roster (name_of r wm) (mdel g (roster (name_of r wm) (managedKinds wm))) wm)"
  by (auto simp: RemoveWatch_def rk_Remove_def set_roster_def roster_def split: option.split)

lemma ReplaceWatch_watching:
  assumes "ReplaceWatch env r gs wm = Some (wm', errs)" "intent_inv wm" "r < length (wm_regs wm)"
  shows "watching r g wm' \<Longrightarrow> g \<in> set gs" "errs = [] \<Longrightarrow> g \<in> set gs \<Longrightarrow> watching r g wm'"
    "r' \<noteq> r \<Longrightarrow> watching r' g wm' = watching r' g wm"
proof -
  let ?wm = "set_roster (name_of r wm) (new_roster r gs) wm"
  have inv: "intent_inv ?wm"
    by (rule intent_inv_set_roster) (use assms in \<open>auto simp: mwf_new_roster regs_at_new_roster\<close>)
  have w: "wants r g ?wm \<longleftrightarrow> g \<in> set gs" for g
    using wants_iff [OF inv, of r g] by (simp add: regs_at_new_roster)
  note R = replaceWatches_watching [OF assms(1) [unfolded ReplaceWatch_set_roster] mwf_rk_Get]
  show "watching r g wm' \<Longrightarrow> g \<in> set gs" "errs = [] \<Longrightarrow> g \<in> set gs \<Longrightarrow> watching r g wm'"
    "r' \<noteq> r \<Longrightarrow> watching r' g wm' = watching r' g wm"
    using R(1-3) w by auto
qed

end
