(* ===== verification/Watch_Replay.thy ===== *)
theory Watch_Replay
  imports Watch_Facts
begin

text \<open>
  The replays of the watch manager: the counters count the running replays, so that no operation
  panics, and a running replay that is not cancelled is for a current watcher of its kind.
\<close>

section \<open>Replays\<close>

definition running :: "Manager \<Rightarrow> GVK \<Rightarrow> nat set" where
  "running wm g = {i. \<exists>p. mget (wm_replays wm) i = Some p \<and> rp_gvk p = g}"

text \<open>The counters count the running replays, and a replay that is not cancelled is for a current
  watcher of its kind, known to the loop.\<close>

definition counts_ok :: "Manager \<Rightarrow> bool" where
  "counts_ok wm \<longleftrightarrow>
     (\<forall>i. mget (wm_replays wm) i \<noteq> None \<longrightarrow> i < wm_next wm) \<and>
     (\<forall>g. rt_count (wm_replayTracker wm) g = int (card (running wm g))) \<and>
     rt_channels (wm_replayTracker wm) = {g. running wm g \<noteq> {}}"

definition live_ok :: "Manager \<Rightarrow> bool" where
  "live_ok wm \<longleftrightarrow>
     (\<forall>i p. mget (wm_replays wm) i = Some p \<and> \<not> rp_cancelled p \<longrightarrow>
        mget (loop_entry (rp_gvk p) wm) (rp_reg p) = Some i) \<and>
     (\<forall>g r i p. mget (loop_entry g wm) r = Some i \<and> mget (wm_replays wm) i = Some p \<longrightarrow>
        rp_reg p = r \<and> rp_gvk p = g) \<and>
     (\<forall>g r i. mget (loop_entry g wm) r = Some i \<longrightarrow> watching r g wm \<and> i < wm_next wm)"

lemma live_okI:
  assumes "\<And>i p. mget (wm_replays wm) i = Some p \<Longrightarrow> \<not> rp_cancelled p \<Longrightarrow>
      mget (loop_entry (rp_gvk p) wm) (rp_reg p) = Some i"
    and "\<And>g r i p. mget (loop_entry g wm) r = Some i \<Longrightarrow> mget (wm_replays wm) i = Some p \<Longrightarrow>
      rp_reg p = r \<and> rp_gvk p = g"
    and "\<And>g r i. mget (loop_entry g wm) r = Some i \<Longrightarrow> watching r g wm \<and> i < wm_next wm"
  shows "live_ok wm"
  using assms unfolding live_ok_def by blast

lemma live_okD:
  assumes "live_ok wm"
  shows "mget (wm_replays wm) i = Some p \<Longrightarrow> \<not> rp_cancelled p \<Longrightarrow>
      mget (loop_entry (rp_gvk p) wm) (rp_reg p) = Some i"
    and "mget (loop_entry g wm) r = Some i \<Longrightarrow> mget (wm_replays wm) i = Some p \<Longrightarrow> rp_reg p = r \<and> rp_gvk p = g"
    and "mget (loop_entry g wm) r = Some i \<Longrightarrow> watching r g wm" "mget (loop_entry g wm) r = Some i \<Longrightarrow> i < wm_next wm"
  using assms unfolding live_ok_def by blast+

lemma finite_running: "finite (running wm g)"
proof -
  have "running wm g \<subseteq> fst ` set (wm_replays wm)"
    unfolding running_def by (force simp: mget_None_iff dest: map_of_SomeD)
  then show ?thesis by (rule finite_subset) simp
qed

lemma rt_count_simps [simp]:
  "rt_count (addReplay g rt) g' = (if g' = g then rt_count rt g + 1 else rt_count rt g')"
  "rt_count (rt\<lparr>rt_intent := x\<rparr>) g' = rt_count rt g'"
  "rt_count (setIntent r g b rt) g' = rt_count rt g'"
  "rt_channels (setIntent r g b rt) = rt_channels rt"
  by (auto simp: addReplay_def rt_count_def setIntent_def Let_def split: option.split)

lemma rt_channels_addReplay [simp]: "rt_channels (addReplay g rt) = insert g (rt_channels rt)"
  by (simp add: addReplay_def)

lemma running_cong: "wm_replays wm' = wm_replays wm \<Longrightarrow> running wm' g = running wm g"
  by (simp add: running_def)

lemma counts_ok_cong:
  "counts_ok wm \<Longrightarrow> wm_replays wm' = wm_replays wm \<Longrightarrow> wm_next wm' = wm_next wm \<Longrightarrow>
    (\<And>g. rt_count (wm_replayTracker wm') g = rt_count (wm_replayTracker wm) g) \<Longrightarrow>
    rt_channels (wm_replayTracker wm') = rt_channels (wm_replayTracker wm) \<Longrightarrow> counts_ok wm'"
  unfolding counts_ok_def by (simp add: running_cong [of wm' wm])

lemma live_ok_cong:
  "live_ok wm \<Longrightarrow> wm_replays wm' = wm_replays wm \<Longrightarrow> wm_next wm' = wm_next wm \<Longrightarrow> wm_loop wm' = wm_loop wm \<Longrightarrow>
    (\<And>r g i. mget (loop_entry g wm) r = Some i \<Longrightarrow> watching r g wm \<Longrightarrow> watching r g wm') \<Longrightarrow> live_ok wm'"
  unfolding live_ok_def by (simp add: loop_entry_def)

lemma loop_entry_mput [simp]:
  "loop_entry g (wm\<lparr>wm_loop := mput k m (wm_loop wm)\<rparr>) = (if g = k then m else loop_entry g wm)"
  "loop_entry g (wm\<lparr>wm_loop := mdel k (wm_loop wm)\<rparr>) = (if g = k then [] else loop_entry g wm)"
  by (simp_all add: loop_entry_def)

lemma cancel_replay_simps [simp]:
  "wm_next (cancel_replay i wm) = wm_next wm" "wm_loop (cancel_replay i wm) = wm_loop wm"
  "wm_replayTracker (cancel_replay i wm) = wm_replayTracker wm"
  "loop_entry g (cancel_replay i wm) = loop_entry g wm" "watching r g (cancel_replay i wm) = watching r g wm"
  by (auto simp: cancel_replay_def loop_entry_def watching_def split: option.split)

lemma mget_cancel_replay:
  "mget (wm_replays (cancel_replay i wm)) j =
    (if j = i then map_option (\<lambda>p. p\<lparr>rp_cancelled := True\<rparr>) (mget (wm_replays wm) i) else mget (wm_replays wm) j)"
  by (simp add: cancel_replay_def split: option.split)

lemma running_cancel_replay [simp]: "running (cancel_replay i wm) g = running wm g"
  by (auto simp: running_def mget_cancel_replay)

lemma counts_ok_cancel_replay: "counts_ok wm \<Longrightarrow> counts_ok (cancel_replay i wm)"
  unfolding counts_ok_def by (simp add: mget_cancel_replay)

text \<open>Cancelling the replay of one registrar and kind.\<close>

lemma request_cancel:
  assumes "counts_ok wm" "live_ok wm"
  shows "counts_ok (replay_request \<lparr>rr_r = Some r, rr_gvk = g, isCancel = True\<rparr> wm) \<and>
    live_ok (replay_request \<lparr>rr_r = Some r, rr_gvk = g, isCancel = True\<rparr> wm) \<and>
    mget (loop_entry g (replay_request \<lparr>rr_r = Some r, rr_gvk = g, isCancel = True\<rparr> wm)) r = None"
proof (cases "mget (loop_entry g wm) r")
  case None
  then show ?thesis using assms by (simp add: replay_request_def Let_def)
next
  case (Some i)
  define wm1 where "wm1 = wm\<lparr>wm_loop := (if mdel r (loop_entry g wm) = [] then mdel g (wm_loop wm)
      else mput g (mdel r (loop_entry g wm)) (wm_loop wm))\<rparr>"
  have R: "replay_request \<lparr>rr_r = Some r, rr_gvk = g, isCancel = True\<rparr> wm = cancel_replay i wm1"
    using Some by (simp add: replay_request_def Let_def wm1_def)
  have e: "loop_entry g' wm1 = (if g' = g then mdel r (loop_entry g wm) else loop_entry g' wm)" for g'
    by (simp add: wm1_def)
  have s: "wm_replays wm1 = wm_replays wm" "wm_next wm1 = wm_next wm" "wm_replayTracker wm1 = wm_replayTracker wm"
    "watching r' g' wm1 = watching r' g' wm" for r' g'
    by (simp_all add: wm1_def watching_def)
  have "counts_ok wm1" by (rule counts_ok_cong [OF assms(1)]) (simp_all add: s)
  moreover have "live_ok (cancel_replay i wm1)"
  proof -
    note L = live_okD [OF assms(2)]
    have sub: "mget (loop_entry g' wm1) r' = Some j \<Longrightarrow> mget (loop_entry g' wm) r' = Some j" for g' r' j
      by (simp add: e split: if_splits)
    have keep: "mget (loop_entry g' wm) r' = Some j \<Longrightarrow> j \<noteq> i \<Longrightarrow> mget (loop_entry g' wm1) r' = Some j" for g' r' j
      using Some by (auto simp: e)
    have rep: "\<exists>p. mget (wm_replays wm) j = Some p \<and> rp_reg p' = rp_reg p \<and> rp_gvk p' = rp_gvk p \<and>
        (\<not> rp_cancelled p' \<longrightarrow> p' = p \<and> j \<noteq> i)" if "mget (wm_replays (cancel_replay i wm1)) j = Some p'" for j p'
      using that by (auto simp: mget_cancel_replay s split: if_splits)
    show ?thesis
    proof (rule live_okI, unfold cancel_replay_simps s)
      fix j p'
      assume j: "mget (wm_replays (cancel_replay i wm1)) j = Some p'"
      { assume "\<not> rp_cancelled p'"
        then have "mget (wm_replays wm) j = Some p'" "j \<noteq> i" using rep [OF j] by blast+
        then show "mget (loop_entry (rp_gvk p') wm1) (rp_reg p') = Some j"
          using L(1) keep \<open>\<not> rp_cancelled p'\<close> by blast }
      { fix g' r'
        assume "mget (loop_entry g' wm1) r' = Some j"
        then show "rp_reg p' = r' \<and> rp_gvk p' = g'" using sub L(2) rep [OF j] by metis }
    next
      fix g' r' j
      assume "mget (loop_entry g' wm1) r' = Some j"
      then show "watching r' g' wm \<and> j < wm_next wm" using sub L(3,4) by blast
    qed
  qed
  ultimately show ?thesis by (simp add: R counts_ok_cancel_replay e)
qed

text \<open>Starting a replay for a registrar that is about to watch.\<close>

lemma request_start:
  fixes r :: nat and g :: GVK
  assumes "counts_ok wm" "live_ok wm"
  defines "wm' \<equiv> replay_request \<lparr>rr_r = Some r, rr_gvk = g, isCancel = False\<rparr> wm"
  shows "counts_ok wm' \<and> (\<forall>w. live_ok (mark_watched r g w wm') \<or> \<not> regs_at (watchedKinds wm) g \<subseteq> v_registrars w)"
proof (cases "wm' = wm")
  case True
  have "live_ok (mark_watched r g w wm)" if "regs_at (watchedKinds wm) g \<subseteq> v_registrars w" for w
    by (rule live_ok_cong [OF assms(2)])
      (use that in \<open>auto simp: mark_watched_def watching_def\<close>)
  then show ?thesis using True assms(1) by auto
next
  case False
  let ?i = "wm_next wm" and ?p = "\<lparr>rp_reg = r, rp_gvk = g, rp_cancelled = False\<rparr>"
  have c: "mget (loop_entry g wm) r = None" and
    w': "wm' = wm\<lparr>wm_loop := mput g (mput r ?i (loop_entry g wm)) (wm_loop wm),
      wm_replays := mput ?i ?p (wm_replays wm), wm_next := Suc ?i,
      wm_replayTracker := addReplay g (wm_replayTracker wm)\<rparr>"
    using False unfolding wm'_def by (auto simp: replay_request_def Let_def split: if_splits)
  have new: "mget (wm_replays wm) ?i = None" using assms(1) unfolding counts_ok_def by blast
  have run: "running wm' g' = (if g' = g then insert ?i (running wm g) else running wm g')" for g'
    using new by (auto simp: w' running_def)
  have "?i \<notin> running wm g" using new by (simp add: running_def)
  then have counts: "counts_ok wm'"
    using assms(1) finite_running [of wm g] unfolding counts_ok_def
    by (auto simp: run) (auto simp: w' less_Suc_eq)
  have e: "loop_entry g' (mark_watched r g w wm') =
      (if g' = g then mput r ?i (loop_entry g wm) else loop_entry g' wm)" for g' w
    by (simp add: w' mark_watched_def loop_entry_def)
  have live: "live_ok (mark_watched r g w wm')" if "regs_at (watchedKinds wm) g \<subseteq> v_registrars w" for w
  proof -
    have rep: "wm_replays (mark_watched r g w wm') = mput ?i ?p (wm_replays wm)"
      "wm_next (mark_watched r g w wm') = Suc ?i" by (simp_all add: w' mark_watched_def)
    note L = live_okD [OF assms(2)]
    have wat: "watching r' g' (mark_watched r g w wm')" if "watching r' g' wm \<or> (r' = r \<and> g' = g)" for r' g'
      using that \<open>regs_at (watchedKinds wm) g \<subseteq> v_registrars w\<close> by (auto simp: w' watching_def mark_watched_def)
    show ?thesis
    proof (rule live_okI, unfold rep)
      fix j p
      assume j: "mget (mput ?i ?p (wm_replays wm)) j = Some p"
      show "mget (loop_entry (rp_gvk p) (mark_watched r g w wm')) (rp_reg p) = Some j" if "\<not> rp_cancelled p"
      proof (cases "j = ?i")
        case True
        then show ?thesis using j by (auto simp: e)
      next
        case False
        then have "mget (loop_entry (rp_gvk p) wm) (rp_reg p) = Some j" using j L(1) that by simp
        then show ?thesis using c by (auto simp: e)
      qed
      show "rp_reg p = r' \<and> rp_gvk p = g'" if "mget (loop_entry g' (mark_watched r g w wm')) r' = Some j" for g' r'
      proof (cases "r' = r \<and> g' = g")
        case True
        then show ?thesis using j that by (auto simp: e)
      next
        case False
        then have o: "mget (loop_entry g' wm) r' = Some j" using that by (auto simp: e split: if_splits)
        then have "j \<noteq> ?i" using L(4) by blast
        then show ?thesis using j o L(2) by simp
      qed
    next
      fix g' r' j
      assume "mget (loop_entry g' (mark_watched r g w wm')) r' = Some j"
      then have "r' = r \<and> g' = g \<and> j = ?i \<or> mget (loop_entry g' wm) r' = Some j"
        by (auto simp: e split: if_splits)
      then show "watching r' g' (mark_watched r g w wm') \<and> j < Suc ?i"
        using wat L(3,4) by (auto intro: less_SucI)
    qed
  qed
  then show ?thesis using counts by blast
qed

lemma replay_end_ok:
  assumes "counts_ok wm" "live_ok wm"
  obtains wm' where "replay_end i wm = Some wm'" "counts_ok wm'" "live_ok wm'"
proof (cases "mget (wm_replays wm) i")
  case None
  then show ?thesis using assms by (intro that [of wm]) (simp_all add: replay_end_def)
next
  case (Some p)
  let ?g = "rp_gvk p" and ?rt = "wm_replayTracker wm"
  have mem: "i \<in> running wm ?g" using Some by (auto simp: running_def)
  then have pos: "0 < card (running wm ?g)" using finite_running card_gt_0_iff by blast
  have cnt: "rt_count ?rt ?g = int (card (running wm ?g))" "?g \<in> rt_channels ?rt"
    using assms(1) mem unfolding counts_ok_def by auto
  have "replayDone ?g ?rt \<noteq> None" using cnt pos by (simp add: replayDone_def Let_def)
  then obtain rt' where rt': "replayDone ?g ?rt = Some rt'" by blast
  have rt: "rt_count rt' g = (if g = ?g then rt_count ?rt ?g - 1 else rt_count ?rt g)"
    "rt_channels rt' = (if card (running wm ?g) = 1 then rt_channels ?rt - {?g} else rt_channels ?rt)" for g
    using rt' cnt pos by (auto simp: replayDone_def Let_def rt_count_def split: if_splits option.splits)
  let ?wm = "wm\<lparr>wm_replays := mdel i (wm_replays wm), wm_replayTracker := rt'\<rparr>"
  have run: "running ?wm g = (if g = ?g then running wm g - {i} else running wm g)" for g
    using Some by (auto simp: running_def)
  have one: "running wm ?g - {i} = {} \<longleftrightarrow> card (running wm ?g) = 1"
    using mem finite_running [of wm ?g] by (auto simp: card_1_singleton_iff)
  have "counts_ok ?wm"
    unfolding counts_ok_def
  proof (intro conjI allI impI)
    show "j < wm_next ?wm" if "mget (wm_replays ?wm) j \<noteq> None" for j
      using that assms(1) unfolding counts_ok_def by (auto split: if_splits)
    show "rt_count (wm_replayTracker ?wm) g = int (card (running ?wm g))" for g
      using assms(1) mem pos finite_running [of wm ?g] unfolding counts_ok_def run by (simp add: rt)
    show "rt_channels (wm_replayTracker ?wm) = {g. running ?wm g \<noteq> {}}"
      using assms(1) one mem unfolding counts_ok_def by (auto simp: rt run split: if_splits)
  qed
  moreover have "live_ok ?wm"
    using live_okD [OF assms(2)] by (intro live_okI) (auto simp: loop_entry_def watching_def split: if_splits)
  moreover have "replay_end i wm = Some ?wm" using Some rt' by (simp add: replay_end_def)
  ultimately show ?thesis by (intro that)
qed

lemma replay_ends_ok:
  assumes "counts_ok wm" "live_ok wm"
  obtains wm' where "replay_ends is wm = Some wm'" "counts_ok wm'" "live_ok wm'"
  using assms
proof (induction "is" arbitrary: wm thesis)
  case (Cons i "is")
  obtain wm1 where "replay_end i wm = Some wm1" "counts_ok wm1" "live_ok wm1"
    by (rule replay_end_ok [OF Cons.prems(2,3)])
  then show ?case using Cons.IH [of wm1] Cons.prems(1) by simp blast
qed simp

lemma await_ok:
  assumes "counts_ok wm" "live_ok wm"
  obtains wm' where "await_replays g wm = Some wm'" "counts_ok wm'" "live_ok wm'" "same_watches wm wm'"
proof (cases "replayWaitCh_closed g (wm_replayTracker wm) \<or> wm_stopped wm")
  case True
  then show ?thesis using assms by (intro that [of wm]) (simp_all add: await_replays_def)
next
  case False
  let ?is = "map fst (filter (\<lambda>(i, p). rp_gvk p = g) (wm_replays wm))"
  obtain wm' where "replay_ends ?is wm = Some wm'" "counts_ok wm'" "live_ok wm'"
    by (rule replay_ends_ok [OF assms])
  then show ?thesis using False by (intro that [of wm']) (simp_all add: await_replays_def same_watches_replay_ends)
qed

section \<open>The invariant of the manager\<close>

definition wm_inv :: "Manager \<Rightarrow> bool" where
  "wm_inv wm \<longleftrightarrow> intent_inv wm \<and> counts_ok wm \<and> live_ok wm \<and> \<not> wm_stopped wm"

lemma intent_inv_same:
  "intent_inv wm \<Longrightarrow> managedKinds wm' = managedKinds wm \<Longrightarrow> wm_regs wm' = wm_regs wm \<Longrightarrow> intent_inv wm'"
  by (simp add: intent_inv_def name_of_def)

lemma setIntent_ok:
  "counts_ok wm \<Longrightarrow> live_ok wm \<Longrightarrow>
    counts_ok (wm\<lparr>wm_replayTracker := setIntent r g b (wm_replayTracker wm)\<rparr>) \<and>
    live_ok (wm\<lparr>wm_replayTracker := setIntent r g b (wm_replayTracker wm)\<rparr>)"
  using counts_ok_cong [of wm "wm\<lparr>wm_replayTracker := setIntent r g b (wm_replayTracker wm)\<rparr>"]
    live_ok_cong [of wm "wm\<lparr>wm_replayTracker := setIntent r g b (wm_replayTracker wm)\<rparr>"]
  by (simp add: watching_def)

lemma doAddWatch_inv:
  assumes "wm_inv wm" "doAddWatch env (Some r) g wm = (wm', err)"
  shows "wm_inv wm'"
proof -
  have inv: "intent_inv wm" "counts_ok wm" "live_ok wm" "\<not> wm_stopped wm" using assms(1) by (auto simp: wm_inv_def)
  note D = doAddWatch_watching [OF assms(2)]
  have "counts_ok wm' \<and> live_ok wm'"
    using assms(2)
  proof (cases rule: doAddWatch_cases)
    case joins
    let ?wm0 = "wm\<lparr>wm_replayTracker := setIntent r g True (wm_replayTracker wm)\<rparr>"
    have q: "requestReplay r g wm = replay_request \<lparr>rr_r = Some r, rr_gvk = g, isCancel = False\<rparr> ?wm0"
      using inv(4) by (simp add: requestReplay_def send_request_def)
    have "counts_ok (requestReplay r g wm)" "live_ok (mark_watched r g (watchers g wm) (requestReplay r g wm))"
      using setIntent_ok [OF inv(2,3)] request_start [of ?wm0 r g] unfolding q by auto
    then show ?thesis using joins(5)
      by (auto intro: counts_ok_cong simp: mark_watched_def)
  next
    case first
    have "counts_ok wm'" unfolding first
      by (rule counts_ok_cong [OF inv(2)]) (simp_all add: mark_watched_def)
    moreover have "live_ok wm'" unfolding first
      by (rule live_ok_cong [OF inv(3)]) (auto simp: mark_watched_def watching_def)
    ultimately show ?thesis by blast
  qed (use inv in auto)
  then show ?thesis using inv D(2-4) intent_inv_same by (auto simp: wm_inv_def)
qed

lemma doRemoveWatch_inv:
  assumes "wm_inv wm"
  obtains wm' err where "doRemoveWatch env r g wm = Some (wm', err)" "wm_inv wm'"
proof -
  have inv: "intent_inv wm" "counts_ok wm" "live_ok wm" "\<not> wm_stopped wm" using assms(1) by (auto simp: wm_inv_def)
  let ?wm0 = "wm\<lparr>wm_replayTracker := setIntent r g False (wm_replayTracker wm)\<rparr>"
  have q: "cancelReplay r g wm = replay_request \<lparr>rr_r = Some r, rr_gvk = g, isCancel = True\<rparr> ?wm0"
    using inv(4) by (simp add: cancelReplay_def send_request_def)
  have c: "counts_ok (cancelReplay r g wm)" "live_ok (cancelReplay r g wm)"
    "mget (loop_entry g (cancelReplay r g wm)) r = None"
    using setIntent_ok [OF inv(2,3)] request_cancel [of ?wm0 r g] unfolding q by auto
  have sw: "same_watches wm (cancelReplay r g wm)" by (rule same_watches_cancelReplay)
  have upd: "counts_ok ((cancelReplay r g wm)\<lparr>watchedKinds := m\<rparr>) \<and> live_ok ((cancelReplay r g wm)\<lparr>watchedKinds := m\<rparr>)"
    if "\<And>r' g'. watching r' g' wm \<Longrightarrow> (r', g') \<noteq> (r, g) \<Longrightarrow> r' \<in> regs_at m g'" for m
  proof
    show "counts_ok ((cancelReplay r g wm)\<lparr>watchedKinds := m\<rparr>)"
      by (rule counts_ok_cong [OF c(1)]) simp_all
    show "live_ok ((cancelReplay r g wm)\<lparr>watchedKinds := m\<rparr>)"
    proof (rule live_ok_cong [OF c(2)])
      fix r' g' i
      assume "mget (loop_entry g' (cancelReplay r g wm)) r' = Some i" "watching r' g' (cancelReplay r g wm)"
      then have "(r', g') \<noteq> (r, g)" "watching r' g' wm" using c(3) watching_same [OF sw] by auto
      then show "watching r' g' ((cancelReplay r g wm)\<lparr>watchedKinds := m\<rparr>)"
        using that by (simp add: watching_def)
    qed simp_all
  qed
  have "\<exists>wm' err. doRemoveWatch env r g wm = Some (wm', err) \<and> counts_ok wm' \<and> live_ok wm'"
  proof (cases "watching r g wm")
    case False
    then have "doRemoveWatch env r g wm = Some (wm, None)"
      by (auto simp: doRemoveWatch_def watching_def regs_at_def split: option.splits)
    then show ?thesis using inv by blast
  next
    case True
    then obtain v where v: "mget (watchedKinds wm) g = Some v" "r \<in> v_registrars v"
      by (auto simp: watching_def regs_at_def split: option.splits)
    define wm2 where "wm2 = (cancelReplay r g wm)\<lparr>watchedKinds :=
        mput g (v\<lparr>v_registrars := v_registrars v - {r}\<rparr>) (watchedKinds (cancelReplay r g wm))\<rparr>"
    have ok2: "counts_ok wm2 \<and> live_ok wm2"
      unfolding wm2_def by (rule upd) (use v sw in \<open>auto simp: watching_def regs_at_def same_watches_def\<close>)
    show ?thesis
    proof (cases "v_registrars v - {r} = {}")
      case False
      then show ?thesis using v ok2 by (auto simp: doRemoveWatch_def Let_def wm2_def)
    next
      case empty: True
      obtain wm3 where w3: "await_replays g wm2 = Some wm3" "counts_ok wm3" "live_ok wm3" "same_watches wm2 wm3"
        using await_ok ok2 by blast
      have regs: "regs_at (watchedKinds wm3) g = {}"
        using w3(4) empty by (simp add: same_watches_def wm2_def)
      let ?wm4 = "wm3\<lparr>watchedKinds := mdel g (watchedKinds wm3), wm_handlers := mdel g (wm_handlers wm3)\<rparr>"
      have "counts_ok ?wm4" by (rule counts_ok_cong [OF w3(2)]) simp_all
      moreover have "live_ok ?wm4" by (rule live_ok_cong [OF w3(3)]) (use regs in \<open>auto simp: watching_def\<close>)
      ultimately show ?thesis using v empty w3
        by (cases "remove_err env g") (simp_all add: doRemoveWatch_def Let_def wm2_def [symmetric])
    qed
  qed
  then obtain wm' err where R: "doRemoveWatch env r g wm = Some (wm', err)" "counts_ok wm'" "live_ok wm'" by blast
  then show ?thesis
    using doRemoveWatch_watching(2-4) [OF R(1)] inv intent_inv_same [OF inv(1)] by (intro that) (auto simp: wm_inv_def)
qed


lemma set_roster_inv:
  assumes "wm_inv wm" "r < length (wm_regs wm)" "mwf m"
    "\<And>g. regs_at m g \<subseteq> insert r (regs_at (roster (name_of r wm) (managedKinds wm)) g)"
  shows "wm_inv (set_roster (name_of r wm) m wm)"
proof -
  have "counts_ok (set_roster (name_of r wm) m wm)"
    by (rule counts_ok_cong [of wm]) (use assms(1) in \<open>simp_all add: wm_inv_def set_roster_def\<close>)
  moreover have "live_ok (set_roster (name_of r wm) m wm)"
    by (rule live_ok_cong [of wm]) (use assms(1) in \<open>simp_all add: wm_inv_def set_roster_def watching_def\<close>)
  moreover have "wm_stopped (set_roster (name_of r wm) m wm) = wm_stopped wm" by (simp add: set_roster_def)
  ultimately show ?thesis using assms intent_inv_set_roster [of wm m r] by (auto simp: wm_inv_def)
qed

lemma wm_inv_roster_mwf: "wm_inv wm \<Longrightarrow> mwf (roster n (managedKinds wm))"
  by (auto simp: wm_inv_def intent_inv_def intro: roster_wf)

lemma AddWatch_inv:
  assumes "wm_inv wm" "r < length (wm_regs wm)" "AddWatch env r g wm = (wm', err)"
  shows "wm_inv wm'"
proof (rule doAddWatch_inv [OF _ assms(3) [unfolded AddWatch_set_roster]])
  show "wm_inv (set_roster (name_of r wm) (mput g (watch_of r g) (roster (name_of r wm) (managedKinds wm))) wm)"
    by (rule set_roster_inv [OF assms(1,2)]) (use wm_inv_roster_mwf [OF assms(1)] in \<open>auto simp: watch_of_def\<close>)
qed

lemma RemoveWatch_inv:
  assumes "wm_inv wm" "r < length (wm_regs wm)"
  obtains wm' err where "RemoveWatch env r g wm = Some (wm', err)" "wm_inv wm'"
proof -
  let ?wm = "if mget (intent (managedKinds wm)) (name_of r wm) = None then wm
     else set_roster (name_of r wm) (mdel g (roster (name_of r wm) (managedKinds wm))) wm"
  have "wm_inv (set_roster (name_of r wm) (mdel g (roster (name_of r wm) (managedKinds wm))) wm)"
    by (rule set_roster_inv [OF assms]) (use wm_inv_roster_mwf [OF assms(1)] in auto)
  then have "wm_inv ?wm" using assms(1) by simp
  then obtain wm' err where "doRemoveWatch env r g ?wm = Some (wm', err)" "wm_inv wm'"
    by (rule doRemoveWatch_inv)
  then show ?thesis by (intro that [of wm' err]) (simp_all only: RemoveWatch_set_roster)
qed

lemma remove_undesired_inv:
  assumes "wm_inv wm"
  obtains wm' errs' where "remove_undesired env desired r gs wm errs = Some (wm', errs')" "wm_inv wm'"
  using assms
proof (induction gs arbitrary: wm errs thesis)
  case (Cons g gs)
  show ?case
  proof (cases "r \<in> regs_at desired g")
    case True
    obtain wm' errs' where "remove_undesired env desired r gs wm errs = Some (wm', errs')" "wm_inv wm'"
      by (rule Cons.IH [OF _ Cons.prems(2)])
    with True show ?thesis by (intro Cons.prems(1) [of wm' errs']) (auto simp: regs_at_def split: option.splits)
  next
    case False
    obtain wm1 err where w1: "doRemoveWatch env r g wm = Some (wm1, err)" "wm_inv wm1"
      by (rule doRemoveWatch_inv [OF Cons.prems(2)])
    let ?errs = "case err of None \<Rightarrow> errs | Some e \<Rightarrow> errs @ [''removing watch for '' @ e]"
    obtain wm' errs' where "remove_undesired env desired r gs wm1 ?errs = Some (wm', errs')" "wm_inv wm'"
      by (rule Cons.IH [OF _ w1(2)])
    with False w1 show ?thesis by (intro Cons.prems(1) [of wm' errs']) (auto simp: regs_at_def split: option.splits)
  qed
qed simp

lemma add_desired_inv: "wm_inv wm \<Longrightarrow> add_desired env r ds wm errs = (wm', errs') \<Longrightarrow> wm_inv wm'"
  by (induction env r ds wm errs rule: add_desired.induct)
    (auto split: if_splits prod.splits dest: doAddWatch_inv)

lemma ReplaceWatch_inv:
  assumes "wm_inv wm" "r < length (wm_regs wm)"
  obtains wm' errs where "ReplaceWatch env r gs wm = Some (wm', errs)" "wm_inv wm'"
proof -
  let ?wm = "set_roster (name_of r wm) (new_roster r gs) wm"
  let ?d = "rk_Get (managedKinds ?wm)"
  have "wm_inv ?wm" by (rule set_roster_inv [OF assms]) (auto simp: mwf_new_roster regs_at_new_roster)
  then obtain wm1 errs1 where w1: "remove_undesired env ?d r (mkeys (watchedKinds ?wm)) ?wm [] = Some (wm1, errs1)" "wm_inv wm1"
    by (rule remove_undesired_inv)
  obtain wm' errs where w2: "add_desired env r ?d wm1 errs1 = (wm', errs)" by (cases "add_desired env r ?d wm1 errs1")
  show ?thesis
    by (rule that [of wm' errs]) (use w1 w2 add_desired_inv [OF w1(2) w2] in \<open>simp_all add: ReplaceWatch_set_roster replaceWatches_def Let_def\<close>)
qed

text \<open>Registrations: the names of the registered pointers.\<close>

definition names_ok :: "Manager \<Rightarrow> bool" where
  "names_ok wm \<longleftrightarrow> (\<forall>name r. mget (rk_registrars (managedKinds wm)) name = Some r \<longrightarrow>
     r < length (wm_regs wm) \<and> name_of r wm = name)"

inductive wm_reachable :: "cache_env \<Rightarrow> Manager \<Rightarrow> bool" for env where
  new: "wm_reachable env New_Manager"
| registrar: "wm_reachable env wm \<Longrightarrow> wm_reachable env (fst (NewRegistrar name events wm))"
| add: "wm_reachable env wm \<Longrightarrow> r < length (wm_regs wm) \<Longrightarrow> wm_reachable env (fst (AddWatch env r g wm))"
| remove: "wm_reachable env wm \<Longrightarrow> r < length (wm_regs wm) \<Longrightarrow> RemoveWatch env r g wm = Some (wm', err) \<Longrightarrow>
    wm_reachable env wm'"
| replace: "wm_reachable env wm \<Longrightarrow> r < length (wm_regs wm) \<Longrightarrow> ReplaceWatch env r gs wm = Some (wm', errs) \<Longrightarrow>
    wm_reachable env wm'"
| unregister: "wm_reachable env wm \<Longrightarrow> RemoveRegistrar env name wm = Some (wm', errs) \<Longrightarrow> wm_reachable env wm'"
| replayed: "wm_reachable env wm \<Longrightarrow> wm_reachable env (fst (replayEvents listing n r wm))"
| ended: "wm_reachable env wm \<Longrightarrow> replay_end i wm = Some wm' \<Longrightarrow> wm_reachable env wm'"
| started: "wm_reachable env wm \<Longrightarrow> wm_reachable env (fst (checkStarted wm))"
| event: "wm_reachable env wm \<Longrightarrow> wm_reachable env (distributeEvent obj wm)"

lemma wm_inv_sent:
  assumes "wm_inv wm"
  shows "wm_inv (wm\<lparr>wm_sent := s\<rparr>)" "wm_inv (wm\<lparr>wm_started := b\<rparr>)"
proof -
  have i: "counts_ok wm" "live_ok wm" "intent_inv wm" "\<not> wm_stopped wm" using assms by (auto simp: wm_inv_def)
  show "wm_inv (wm\<lparr>wm_sent := s\<rparr>)"
    using counts_ok_cong [OF i(1), of "wm\<lparr>wm_sent := s\<rparr>"] live_ok_cong [OF i(2), of "wm\<lparr>wm_sent := s\<rparr>"]
      intent_inv_same [OF i(3), of "wm\<lparr>wm_sent := s\<rparr>"] i(4) by (simp add: wm_inv_def watching_def)
  show "wm_inv (wm\<lparr>wm_started := b\<rparr>)"
    using counts_ok_cong [OF i(1), of "wm\<lparr>wm_started := b\<rparr>"] live_ok_cong [OF i(2), of "wm\<lparr>wm_started := b\<rparr>"]
      intent_inv_same [OF i(3), of "wm\<lparr>wm_started := b\<rparr>"] i(4) by (simp add: wm_inv_def watching_def)
qed


lemma NewRegistrar_inv:
  assumes "wm_inv wm" "names_ok wm"
  shows "wm_inv (fst (NewRegistrar name events wm))" "names_ok (fst (NewRegistrar name events wm))"
proof -
  define wm' where "wm' = fst (NewRegistrar name events wm)"
  have i: "counts_ok wm" "live_ok wm" "intent_inv wm" "\<not> wm_stopped wm" using assms by (auto simp: wm_inv_def)
  show "wm_inv (fst (NewRegistrar name events wm))" unfolding wm'_def [symmetric]
  proof (cases "wm' = wm")
    case True
    then show "wm_inv wm'" using assms by simp
  next
    case False
    then have w: "wm' = wm\<lparr>wm_regs := wm_regs wm @ [\<lparr>parentName = name, has_events = events\<rparr>],
        managedKinds := (managedKinds wm)\<lparr>rk_registrars := mput name (length (wm_regs wm)) (rk_registrars (managedKinds wm))\<rparr>\<rparr>"
      by (auto simp: wm'_def NewRegistrar_def Let_def split: if_splits)
    have "counts_ok wm'" by (rule counts_ok_cong [OF i(1)]) (simp_all add: w)
    moreover have "live_ok wm'" by (rule live_ok_cong [OF i(2)]) (simp_all add: w watching_def)
    moreover have "intent_inv wm'"
      using i(3) by (auto simp: w intent_inv_def intent_wf_def roster_def name_of_def nth_append intro: less_SucI)
    ultimately show "wm_inv wm'" using i(4) by (simp add: wm_inv_def w)
  qed
  show "names_ok (fst (NewRegistrar name events wm))"
    using assms(2) by (auto simp: NewRegistrar_def Let_def names_ok_def name_of_def nth_append intro: less_SucI)
qed

text \<open>The registrations are not touched by the operations on watches.\<close>

definition same_names :: "Manager \<Rightarrow> Manager \<Rightarrow> bool" where
  "same_names wm wm' \<longleftrightarrow>
     wm_regs wm' = wm_regs wm \<and> rk_registrars (managedKinds wm') = rk_registrars (managedKinds wm)"

lemma names_ok_same: "names_ok wm \<Longrightarrow> same_names wm wm' \<Longrightarrow> names_ok wm'"
  by (simp add: names_ok_def same_names_def name_of_def)

lemma same_names_set_roster: "same_names wm (set_roster name m wm)"
  by (simp add: same_names_def set_roster_def)

lemma AddWatch_names: "AddWatch env r g wm = (wm', err) \<Longrightarrow> same_names wm wm'"
  unfolding AddWatch_set_roster
  using doAddWatch_watching(2,3) same_names_set_roster unfolding same_names_def by metis

lemma RemoveWatch_names:
  assumes "RemoveWatch env r g wm = Some (wm', err)"
  shows "same_names wm wm'"
proof -
  let ?wm = "if mget (intent (managedKinds wm)) (name_of r wm) = None then wm
     else set_roster (name_of r wm) (mdel g (roster (name_of r wm) (managedKinds wm))) wm"
  have "same_names wm ?wm" using same_names_set_roster by (simp add: same_names_def)
  then show ?thesis
    using doRemoveWatch_watching(2,3) [OF assms [unfolded RemoveWatch_set_roster]]
    unfolding same_names_def by metis
qed

lemma ReplaceWatch_names:
  assumes "ReplaceWatch env r gs wm = Some (wm', errs)"
  shows "same_names wm wm'"
  using replaceWatches_watching(4,5) [OF assms [unfolded ReplaceWatch_set_roster] mwf_rk_Get]
    same_names_set_roster [of wm "name_of r wm" "new_roster r gs"]
  unfolding same_names_def by metis

lemma RemoveRegistrar_inv:
  assumes "wm_inv wm" "names_ok wm"
  obtains wm' errs where "RemoveRegistrar env name wm = Some (wm', errs)" "wm_inv wm'" "names_ok wm'"
proof (cases "mget (rk_registrars (managedKinds wm)) name")
  case None
  then show ?thesis using assms by (intro that [of wm "[]"]) (simp_all add: RemoveRegistrar_def)
next
  case (Some r)
  then have "r < length (wm_regs wm)" using assms(2) by (simp add: names_ok_def)
  then obtain wm1 errs where R: "ReplaceWatch env r [] wm = Some (wm1, errs)" "wm_inv wm1"
    by (rule ReplaceWatch_inv [OF assms(1)])
  have n1: "names_ok wm1" by (rule names_ok_same [OF assms(2) ReplaceWatch_names [OF R(1)]])
  define wm2 where "wm2 = wm1\<lparr>managedKinds := (managedKinds wm1)
      \<lparr>rk_registrars := mdel name (rk_registrars (managedKinds wm1))\<rparr>\<rparr>"
  have i: "counts_ok wm1" "live_ok wm1" "intent_inv wm1" "\<not> wm_stopped wm1" using R(2) by (auto simp: wm_inv_def)
  have "counts_ok wm2" by (rule counts_ok_cong [OF i(1)]) (simp_all add: wm2_def)
  moreover have "live_ok wm2" by (rule live_ok_cong [OF i(2)]) (simp_all add: wm2_def watching_def)
  moreover have "intent_inv wm2"
    using i(3) by (simp add: wm2_def intent_inv_def intent_wf_def roster_def name_of_def)
  ultimately have inv2: "wm_inv wm2" using i(4) by (simp add: wm_inv_def wm2_def)
  have n2: "names_ok wm2" using n1 by (simp add: names_ok_def wm2_def name_of_def)
  show ?thesis
  proof (cases "errs = []")
    case True
    then show ?thesis using Some R inv2 n2 by (intro that [of wm2 "[]"]) (simp_all add: RemoveRegistrar_def wm2_def)
  next
    case False
    then show ?thesis using Some R n1 by (intro that [of wm1 errs]) (simp_all add: RemoveRegistrar_def)
  qed
qed

lemma replay_end_inv:
  assumes "wm_inv wm" "replay_end i wm = Some wm'"
  shows "wm_inv wm'"
proof -
  have "counts_ok wm" "live_ok wm" using assms(1) by (auto simp: wm_inv_def)
  then obtain wm1 where "replay_end i wm = Some wm1" "counts_ok wm1" "live_ok wm1" by (rule replay_end_ok)
  then show ?thesis
    using assms same_watches_replay_end [OF assms(2)] intent_inv_same [of wm wm']
    by (simp add: wm_inv_def same_watches_def)
qed

lemma wm_inv_New: "wm_inv New_Manager" "names_ok New_Manager"
  by (simp_all add: wm_inv_def names_ok_def New_Manager_def intent_inv_def intent_wf_def newRecordKeeper_def
      counts_ok_def live_ok_def running_def newReplayTracker_def rt_count_def loop_entry_def roster_def)

lemma wm_reachable_inv: "wm_reachable env wm \<Longrightarrow> wm_inv wm \<and> names_ok wm"
proof (induction rule: wm_reachable.induct)
  case new
  show ?case using wm_inv_New by blast
next
  case (registrar wm name events)
  then show ?case using NewRegistrar_inv by blast
next
  case (add wm r g)
  obtain wm' err where A: "AddWatch env r g wm = (wm', err)" by (cases "AddWatch env r g wm")
  then show ?case using add AddWatch_inv [OF _ _ A] names_ok_same [OF _ AddWatch_names [OF A]] by simp
next
  case (remove wm r g wm' err)
  then show ?case using RemoveWatch_inv names_ok_same RemoveWatch_names by (metis option.inject prod.inject)
next
  case (replace wm r gs wm' errs)
  then show ?case using ReplaceWatch_inv names_ok_same ReplaceWatch_names by (metis option.inject prod.inject)
next
  case (unregister wm name wm' errs)
  then show ?case using RemoveRegistrar_inv by (metis option.inject prod.inject)
next
  case (replayed wm listing n r)
  have "\<exists>s. fst (replayEvents listing n r wm) = wm\<lparr>wm_sent := s\<rparr>"
    by (auto simp: replayEvents_def split: option.split sum.split intro: exI [of _ "wm_sent wm"])
  then show ?case using replayed.IH wm_inv_sent by (auto simp: names_ok_def name_of_def)
next
  case (ended wm i wm')
  then show ?case
    using replay_end_inv names_ok_same [of wm wm'] same_watches_replay_end [of i wm wm']
    by (auto simp: same_watches_def same_names_def)
next
  case (started wm)
  then show ?case using wm_inv_sent(2) by (auto simp: checkStarted_def names_ok_def name_of_def)
next
  case (event wm obj)
  have "\<exists>s. distributeEvent obj wm = wm\<lparr>wm_sent := s\<rparr>"
    by (auto simp: distributeEvent_def split: option.split intro: exI [of _ "wm_sent wm"])
  then show ?case using event.IH wm_inv_sent by (auto simp: names_ok_def name_of_def)
qed

section \<open>Event handlers\<close>

text \<open>A property of states that adding and removing one watch preserve is preserved by replacing
  watches.\<close>

lemma remove_undesired_preserves:
  assumes "\<And>wm g wm' err. P wm \<Longrightarrow> doRemoveWatch env r g wm = Some (wm', err) \<Longrightarrow> P wm'"
  shows "P wm \<Longrightarrow> remove_undesired env desired r gs wm errs = Some (wm', errs') \<Longrightarrow> P wm'"
proof (induction gs arbitrary: wm errs)
  case (Cons g gs)
  show ?case
  proof (cases "r \<in> regs_at desired g")
    case True
    then have "remove_undesired env desired r gs wm errs = Some (wm', errs')"
      using Cons.prems(2) by (auto simp: regs_at_def split: option.splits)
    then show ?thesis by (rule Cons.IH [OF Cons.prems(1)])
  next
    case False
    then obtain wm1 err where "doRemoveWatch env r g wm = Some (wm1, err)"
      "remove_undesired env desired r gs wm1 (case err of None \<Rightarrow> errs | Some e \<Rightarrow> errs @ [''removing watch for '' @ e]) = Some (wm', errs')"
      using Cons.prems(2) by (auto simp: regs_at_def split: option.splits if_splits)
    then show ?thesis using assms Cons.IH Cons.prems(1) by blast
  qed
qed simp

lemma add_desired_preserves:
  assumes "\<And>wm g wm' err. P wm \<Longrightarrow> doAddWatch env (Some r) g wm = (wm', err) \<Longrightarrow> P wm'"
  shows "P wm \<Longrightarrow> add_desired env r ds wm errs = (wm', errs') \<Longrightarrow> P wm'"
proof (induction ds arbitrary: wm errs)
  case (Cons d ds)
  obtain g v where d: "d = (g, v)" by (cases d)
  obtain wm1 err where w1: "doAddWatch env (Some r) g wm = (wm1, err)" by (cases "doAddWatch env (Some r) g wm")
  show ?case
  proof (cases "r \<in> v_registrars v")
    case True
    then have "add_desired env r ds wm1 (case err of None \<Rightarrow> errs | Some e \<Rightarrow> errs @ [''adding watch for '' @ e]) = (wm', errs')"
      using Cons.prems(2) d w1 by simp
    then show ?thesis using Cons.IH assms [OF Cons.prems(1) w1] by blast
  next
    case False
    then show ?thesis using Cons.IH Cons.prems d by simp
  qed
qed simp

lemma ReplaceWatch_preserves:
  assumes "\<And>wm g wm' err. P wm \<Longrightarrow> doRemoveWatch env r g wm = Some (wm', err) \<Longrightarrow> P wm'"
    "\<And>wm g wm' err. P wm \<Longrightarrow> doAddWatch env (Some r) g wm = (wm', err) \<Longrightarrow> P wm'"
    "\<And>name m wm. P wm \<Longrightarrow> P (set_roster name m wm)" "P wm" "ReplaceWatch env r gs wm = Some (wm', errs)"
  shows "P wm'"
proof -
  let ?wm = "set_roster (name_of r wm) (new_roster r gs) wm"
  obtain wm1 errs1 where w: "remove_undesired env (rk_Get (managedKinds ?wm)) r (mkeys (watchedKinds ?wm)) ?wm [] = Some (wm1, errs1)"
    "add_desired env r (rk_Get (managedKinds ?wm)) wm1 errs1 = (wm', errs)"
    using assms(5) by (auto simp: ReplaceWatch_set_roster replaceWatches_def Let_def)
  have "P ?wm" by (rule assms(3) [OF assms(4)])
  then have "P wm1" by (rule remove_undesired_preserves [rotated, OF _ w(1)]) (rule assms(1))
  then show ?thesis by (rule add_desired_preserves [rotated, OF _ w(2)]) (rule assms(2))
qed

text \<open>A kind with watchers has the manager as a handler of its informer exactly once, the others
  have none, as long as the cache does not fail to remove an informer; and only existing
  registrars watch.\<close>

definition handlers_ok :: "Manager \<Rightarrow> bool" where
  "handlers_ok wm \<longleftrightarrow>
     (\<forall>g. handlers g wm = (if regs_at (watchedKinds wm) g = {} then 0 else 1)) \<and>
     (\<forall>g. regs_at (watchedKinds wm) g \<subseteq> {..<length (wm_regs wm)})"

lemma handlers_ok_same: "same_watches wm wm' \<Longrightarrow> handlers_ok wm' = handlers_ok wm"
  by (simp add: same_watches_def handlers_ok_def handlers_def)

lemma handlers_ok_frame:
  "handlers_ok wm \<Longrightarrow> watchedKinds wm' = watchedKinds wm \<Longrightarrow> wm_handlers wm' = wm_handlers wm \<Longrightarrow>
    length (wm_regs wm) \<le> length (wm_regs wm') \<Longrightarrow> handlers_ok wm'"
  unfolding handlers_ok_def handlers_def by fastforce

lemma handlers_doAddWatch:
  assumes "handlers_ok wm \<and> r < length (wm_regs wm)" "doAddWatch env (Some r) g wm = (wm', err)"
  shows "handlers_ok wm' \<and> r < length (wm_regs wm')"
  using assms(2)
proof (cases rule: doAddWatch_cases)
  case joins
  then show ?thesis
    using assms(1) same_watches_requestReplay [of wm r g]
    by (auto simp: same_watches_def handlers_ok_def handlers_def mark_watched_def)
next
  case first
  then show ?thesis using assms(1) by (auto simp: handlers_ok_def handlers_def mark_watched_def)
qed (use assms(1) in auto)

lemma handlers_doRemoveWatch:
  assumes "handlers_ok wm \<and> r < length (wm_regs wm)" "doRemoveWatch env r g wm = Some (wm', err)"
    "remove_err env = (\<lambda>_. None)"
  shows "handlers_ok wm' \<and> r < length (wm_regs wm')"
  using assms(2)
proof (cases rule: doRemoveWatch_cases)
  case (others v)
  then have "regs_at (watchedKinds wm) g = v_registrars v" by (simp add: regs_at_def)
  then show ?thesis
    using others assms(1) same_watches_cancelReplay [of wm r g]
    by (auto simp: same_watches_def handlers_ok_def handlers_def)
next
  case (last v wm3)
  then show ?thesis
    using assms(1,3) same_watches_cancelReplay [of wm r g] same_watches_await [OF last(4)]
    by (auto simp: same_watches_def handlers_ok_def handlers_def split: if_splits)
qed (use assms(1) in auto)

lemma handlers_set_roster: "handlers_ok (set_roster name m wm) = handlers_ok wm"
  by (simp add: handlers_ok_def handlers_def set_roster_def)

lemma handlers_managedKinds [simp]: "handlers_ok (wm\<lparr>managedKinds := x\<rparr>) = handlers_ok wm"
  by (simp add: handlers_ok_def handlers_def)

lemma handlers_ReplaceWatch:
  assumes "handlers_ok wm" "r < length (wm_regs wm)" "remove_err env = (\<lambda>_. None)"
    "ReplaceWatch env r gs wm = Some (wm', errs)"
  shows "handlers_ok wm'"
proof -
  have "handlers_ok wm' \<and> r < length (wm_regs wm')"
  proof (rule ReplaceWatch_preserves [OF _ _ _ _ assms(4), where P = "\<lambda>wm. handlers_ok wm \<and> r < length (wm_regs wm)"])
    show "handlers_ok wm \<and> r < length (wm_regs wm)" using assms by blast
    show "handlers_ok wm' \<and> r < length (wm_regs wm')"
      if "handlers_ok wm \<and> r < length (wm_regs wm)" "doRemoveWatch env r g wm = Some (wm', err)" for wm g wm' err
      by (rule handlers_doRemoveWatch [OF that assms(3)])
    show "handlers_ok wm' \<and> r < length (wm_regs wm')"
      if "handlers_ok wm \<and> r < length (wm_regs wm)" "doAddWatch env (Some r) g wm = (wm', err)" for wm g wm' err
      by (rule handlers_doAddWatch [OF that])
    show "handlers_ok (set_roster name m wm) \<and> r < length (wm_regs (set_roster name m wm))"
      if "handlers_ok wm \<and> r < length (wm_regs wm)" for name m wm
      using that by (simp add: handlers_set_roster)
  qed
  then show ?thesis by blast
qed

lemma wm_reachable_handlers:
  "wm_reachable env wm \<Longrightarrow> remove_err env = (\<lambda>_. None) \<Longrightarrow> handlers_ok wm"
proof (induction rule: wm_reachable.induct)
  case new
  show ?case by (simp add: handlers_ok_def handlers_def New_Manager_def)
next
  case (registrar wm name events)
  then show ?case
    by (auto simp: NewRegistrar_def Let_def intro: handlers_ok_frame)
next
  case (add wm r g)
  obtain wm' err where A: "AddWatch env r g wm = (wm', err)" by (cases "AddWatch env r g wm")
  then show ?case
    using handlers_doAddWatch [OF _ A [unfolded AddWatch_set_roster]] add by (simp add: handlers_set_roster)
next
  case (remove wm r g wm' err)
  then show ?case
    using handlers_doRemoveWatch [OF _ remove.hyps(3) [unfolded RemoveWatch_set_roster]] by (simp add: handlers_set_roster)
next
  case (replace wm r gs wm' errs)
  then show ?case using handlers_ReplaceWatch by blast
next
  case (unregister wm name wm' errs)
  show ?case
  proof (cases "mget (rk_registrars (managedKinds wm)) name")
    case None
    then show ?thesis using unregister by (simp add: RemoveRegistrar_def)
  next
    case (Some r)
    then have "r < length (wm_regs wm)" using wm_reachable_inv [OF unregister.hyps(1)] by (simp add: names_ok_def)
    then have "handlers_ok wm1" if "ReplaceWatch env r [] wm = Some (wm1, errs1)" for wm1 errs1
      using handlers_ReplaceWatch unregister that by blast
    then show ?thesis using unregister.hyps(2) Some
      by (auto simp: RemoveRegistrar_def split: option.splits if_splits intro: handlers_ok_frame)
  qed
next
  case (replayed wm listing n r)
  then show ?case
    by (auto simp: replayEvents_def split: option.split sum.split intro: handlers_ok_frame)
next
  case (ended wm i wm')
  then show ?case using handlers_ok_same same_watches_replay_end by blast
next
  case (started wm)
  then show ?case by (auto simp: checkStarted_def intro: handlers_ok_frame)
next
  case (event wm obj)
  then show ?case by (auto simp: distributeEvent_def split: option.split intro: handlers_ok_frame)
qed

end
