(* ===== verification/Watch_Set.thy ===== *)
theory Watch_Set
  imports Go_Lib Mutation_Types
begin

text \<open>
  Sets of resource kinds (\<open>pkg/watch/set.go\<close>): a Go map to booleans behind a lock, here a Go
  map whose values are read the way the code reads them. A nil pointer is \<open>None\<close>. The sets refine
  mathematical sets of kinds (\<open>set_abs\<close>).
\<close>

type_synonym gvk_set = "(GVK, bool) gomap"

definition NewSet :: gvk_set where
  "NewSet = []"

definition Set_Size :: "gvk_set \<Rightarrow> nat" where
  "Set_Size w = length w"

definition Set_Items :: "gvk_set option \<Rightarrow> GVK list" where
  "Set_Items w = (case w of None \<Rightarrow> [] | Some w \<Rightarrow> mkeys w)"

definition Set_String :: "gvk_set option \<Rightarrow> string" where
  "Set_String w = ''['' @ Join (map GVK_String (Set_Items w)) '', '' @ '']''"

definition Set_Add :: "GVK list \<Rightarrow> gvk_set \<Rightarrow> gvk_set" where
  "Set_Add gvks w = fold (\<lambda>g. mput g True) gvks w"

definition Set_Remove :: "GVK list \<Rightarrow> gvk_set \<Rightarrow> gvk_set" where
  "Set_Remove gvks w = fold mdel gvks w"

definition Set_Dump :: "gvk_set option \<Rightarrow> gvk_set" where
  "Set_Dump w = (case w of None \<Rightarrow> [] | Some w \<Rightarrow> fold (\<lambda>(k, v). mput k v) w [])"

definition Set_AddSet :: "gvk_set option \<Rightarrow> gvk_set \<Rightarrow> gvk_set" where
  "Set_AddSet other w = fold (\<lambda>g. mput g True) (mkeys (Set_Dump other)) w"

definition Set_RemoveSet :: "gvk_set option \<Rightarrow> gvk_set \<Rightarrow> gvk_set" where
  "Set_RemoveSet other w = fold mdel (mkeys (Set_Dump other)) w"

definition Set_Equals :: "gvk_set option \<Rightarrow> gvk_set option \<Rightarrow> bool" where
  "Set_Equals w other =
     (case (w, other) of
        (None, None) \<Rightarrow> True
      | (Some w', Some _) \<Rightarrow> w' = Set_Dump other
      | _ \<Rightarrow> False)"

definition Set_Replace :: "gvk_set option \<Rightarrow> gvk_set \<Rightarrow> gvk_set" where
  "Set_Replace other w = fold (\<lambda>(k, v). mput k v) (Set_Dump other) []"

definition Set_Contains :: "GVK \<Rightarrow> gvk_set \<Rightarrow> bool" where
  "Set_Contains g w \<longleftrightarrow> mget w g = Some True"

definition Set_Difference :: "gvk_set \<Rightarrow> gvk_set option \<Rightarrow> gvk_set" where
  "Set_Difference w other =
     fold (\<lambda>k out. if Set_Contains k (Set_Dump other) then out else mput k True out) (mkeys w) []"

definition Set_Intersection :: "gvk_set \<Rightarrow> gvk_set option \<Rightarrow> gvk_set" where
  "Set_Intersection w other =
     fold (\<lambda>k out. if \<not> Set_Contains k (Set_Dump other) then out else mput k True out) (mkeys w) []"

section \<open>Refinement of sets\<close>

definition set_inv :: "gvk_set \<Rightarrow> bool" where
  "set_inv w \<longleftrightarrow> mwf w \<and> (\<forall>p \<in> set w. snd p)"

definition set_abs :: "gvk_set \<Rightarrow> GVK set" where
  "set_abs w = fst ` set w"

lemma set_inv_NewSet [simp]: "set_inv NewSet" and set_abs_NewSet [simp]: "set_abs NewSet = {}"
  by (simp_all add: set_inv_def set_abs_def NewSet_def)

lemma set_inv_mput [simp]: "set_inv w \<Longrightarrow> set_inv (mput g True w)"
  unfolding set_inv_def
  by (auto simp: mget_iff_set [symmetric] split: if_splits)

lemma set_abs_mput [simp]: "set_abs (mput g v w) = insert g (set_abs w)"
  by (simp add: set_abs_def)

lemma set_inv_mdel [simp]: "set_inv w \<Longrightarrow> set_inv (mdel g w)"
  by (auto simp: set_inv_def mdel_def intro: mwf_mdel [unfolded mdel_def])

lemma set_abs_mdel [simp]: "set_abs (mdel g w) = set_abs w - {g}"
  by (simp add: set_abs_def)

lemma fold_mput_abs [simp]:
  "set_abs (fold (\<lambda>g. mput g True) gs w) = set_abs w \<union> set gs"
  "set_inv w \<Longrightarrow> set_inv (fold (\<lambda>g. mput g True) gs w)"
  by (induction gs arbitrary: w) auto

lemma fold_mdel_abs [simp]:
  "set_abs (fold mdel gs w) = set_abs w - set gs"
  "set_inv w \<Longrightarrow> set_inv (fold mdel gs w)"
  by (induction gs arbitrary: w) auto

lemma fold_mput_if_abs:
  "set_abs (fold (\<lambda>k out. if P k then out else mput k True out) gs w) = set_abs w \<union> {g \<in> set gs. \<not> P g}"
  "set_inv w \<Longrightarrow> set_inv (fold (\<lambda>k out. if P k then out else mput k True out) gs w)"
  by (induction gs arbitrary: w) auto

lemma Contains_abs: "set_inv w \<Longrightarrow> Set_Contains g w \<longleftrightarrow> g \<in> set_abs w"
  unfolding Set_Contains_def set_inv_def set_abs_def
  by (force simp: mget_iff_set image_iff)

lemma mkeys_abs [simp]: "set (mkeys w) = set_abs w"
  by (simp add: mkeys_def set_abs_def)

text \<open>A copy of a well-formed map is the map.\<close>

lemma fold_mput_get:
  "mget (fold (\<lambda>(k, v). mput k v) m w) = mget w ++ mget (rev m)"
  by (induction m arbitrary: w) (auto simp: map_add_def fun_eq_iff split: option.split)

lemma mget_rev: "distinct (map fst m) \<Longrightarrow> mget (rev m) = mget m"
  by (simp add: map_of_inject_set rev_map [symmetric])

lemma fold_mput_mwf: "mwf w \<Longrightarrow> mwf (fold (\<lambda>(k, v). mput k v) m w)"
  by (induction m arbitrary: w) auto

lemma copy_map: "mwf m \<Longrightarrow> fold (\<lambda>(k, v). mput k v) m [] = m"
  by (rule mwf_ext) (simp_all add: fold_mput_get fold_mput_mwf mget_rev mwf_distinct)

lemma Dump_Some [simp]: "set_inv w \<Longrightarrow> Set_Dump (Some w) = w"
  by (simp add: Set_Dump_def copy_map set_inv_def)

lemma Dump_None [simp]: "Set_Dump None = []"
  by (simp add: Set_Dump_def)

text \<open>Sets are determined by their elements.\<close>

lemma set_abs_inject: "set_inv w \<Longrightarrow> set_inv v \<Longrightarrow> set_abs w = set_abs v \<longleftrightarrow> w = v"
proof
  assume inv: "set_inv w" "set_inv v" and eq: "set_abs w = set_abs v"
  have "mget w g = mget v g" for g
  proof (cases "g \<in> set_abs w")
    case True
    then have "mget w g = Some True" "mget v g = Some True"
      using eq inv Contains_abs unfolding Set_Contains_def by blast+
    then show ?thesis by simp
  next
    case False
    then have "mget w g = None" "mget v g = None" using eq by (auto simp: mget_None_iff set_abs_def)
    then show ?thesis by simp
  qed
  then show "w = v" using inv by (intro mwf_ext) (auto simp: set_inv_def)
qed simp

section \<open>The interface\<close>

text \<open>What the users of such a set rely on, for arguments that are not nil.\<close>

locale kind_set =
  fixes inv :: "'s \<Rightarrow> bool"
    and abs :: "'s \<Rightarrow> GVK set"
    and add :: "'s \<Rightarrow> 's \<Rightarrow> 's"
    and remove :: "'s \<Rightarrow> 's \<Rightarrow> 's"
    and difference :: "'s \<Rightarrow> 's \<Rightarrow> 's"
    and intersection :: "'s \<Rightarrow> 's \<Rightarrow> 's"
    and equals :: "'s \<Rightarrow> 's \<Rightarrow> bool"
  assumes add: "inv w \<Longrightarrow> inv v \<Longrightarrow> inv (add v w) \<and> abs (add v w) = abs w \<union> abs v"
    and remove: "inv w \<Longrightarrow> inv v \<Longrightarrow> inv (remove v w) \<and> abs (remove v w) = abs w - abs v"
    and difference: "inv w \<Longrightarrow> inv v \<Longrightarrow> inv (difference w v) \<and> abs (difference w v) = abs w - abs v"
    and intersection: "inv w \<Longrightarrow> inv v \<Longrightarrow> inv (intersection w v) \<and> abs (intersection w v) = abs w \<inter> abs v"
    and equals: "inv w \<Longrightarrow> inv v \<Longrightarrow> equals w v \<longleftrightarrow> abs w = abs v"
begin

text \<open>Splitting a set by another and joining the parts gives the set back; adding what is new and
  removing what is gone turns one set into the other.\<close>

lemma split_join:
  assumes "inv w" "inv v"
  shows "equals (add (intersection w v) (difference w v)) w"
proof -
  note d = difference [OF assms] and i = intersection [OF assms]
  have "inv (add (intersection w v) (difference w v))"
    "abs (add (intersection w v) (difference w v)) = (abs w - abs v) \<union> (abs w \<inter> abs v)"
    using add d i by blast+
  then show ?thesis using equals assms by blast
qed

lemma update_by_differences:
  assumes "inv w" "inv v"
  shows "equals (add (difference v w) (remove (difference w v) w)) v"
proof -
  note d = difference [OF assms] difference [OF assms(2,1)]
  have r: "inv (remove (difference w v) w)" "abs (remove (difference w v) w) = abs w - (abs w - abs v)"
    using remove [OF assms(1)] d(1) by blast+
  have "inv (add (difference v w) (remove (difference w v) w))"
    "abs (add (difference v w) (remove (difference w v) w)) = (abs w - (abs w - abs v)) \<union> (abs v - abs w)"
    using add [OF r(1), of "difference v w"] d(2) r(2) by blast+
  then show ?thesis using equals assms(2) by blast
qed

end

interpretation ws: kind_set set_inv set_abs "\<lambda>v. Set_AddSet (Some v)" "\<lambda>v. Set_RemoveSet (Some v)"
  "\<lambda>w v. Set_Difference w (Some v)" "\<lambda>w v. Set_Intersection w (Some v)" "\<lambda>w v. Set_Equals (Some w) (Some v)"
proof
  show "set_inv (Set_AddSet (Some v) w) \<and> set_abs (Set_AddSet (Some v) w) = set_abs w \<union> set_abs v"
    if "set_inv w" "set_inv v" for w v
    using that by (simp add: Set_AddSet_def)
  show "set_inv (Set_RemoveSet (Some v) w) \<and> set_abs (Set_RemoveSet (Some v) w) = set_abs w - set_abs v"
    if "set_inv w" "set_inv v" for w v
    using that by (simp add: Set_RemoveSet_def)
  show "set_inv (Set_Difference w (Some v)) \<and> set_abs (Set_Difference w (Some v)) = set_abs w - set_abs v"
    if "set_inv w" "set_inv v" for w v
    using that fold_mput_if_abs [where w = "[]" and P = "\<lambda>k. Set_Contains k v"]
    by (auto simp: Set_Difference_def Contains_abs set_abs_def set_inv_def)
  show "set_inv (Set_Intersection w (Some v)) \<and> set_abs (Set_Intersection w (Some v)) = set_abs w \<inter> set_abs v"
    if "set_inv w" "set_inv v" for w v
    using that fold_mput_if_abs [where w = "[]" and P = "\<lambda>k. \<not> Set_Contains k v"]
    by (auto simp: Set_Intersection_def Contains_abs set_abs_def set_inv_def)
  show "Set_Equals (Some w) (Some v) \<longleftrightarrow> set_abs w = set_abs v" if "set_inv w" "set_inv v" for w v
    using that by (simp add: Set_Equals_def set_abs_inject)
qed

end
