(* ===== verification/Watch_Properties.thy ===== *)
theory Watch_Properties
  imports Watch_Replay Watch_Set
begin

text \<open>The properties of the watch manager and its sets of kinds, with witnesses.\<close>

section \<open>Sample data\<close>

definition ex_cache :: cache_env where
  "ex_cache = \<lparr>informer_err = (\<lambda>g. if gvk_Kind g = ''Gone'' then Some ''no kind'' else None), remove_err = (\<lambda>_. None)\<rparr>"

definition ex_pods :: GVK where
  "ex_pods = GVK [] ''v1'' ''Pod''"

definition ex_nodes :: GVK where
  "ex_nodes = GVK [] ''v1'' ''Node''"

text \<open>Two registrars; the first watches pods, the second joins.\<close>

definition ex_wm :: Manager where
  "ex_wm = fst (AddWatch ex_cache 1 ex_pods (fst (AddWatch ex_cache 0 ex_pods
     (fst (NewRegistrar ''b'' True (fst (NewRegistrar ''a'' True New_Manager)))))))"

lemma ex_regs: "length (wm_regs (fst (NewRegistrar ''b'' True (fst (NewRegistrar ''a'' True New_Manager))))) = 2"
  "length (wm_regs (fst (AddWatch ex_cache 0 ex_pods
     (fst (NewRegistrar ''b'' True (fst (NewRegistrar ''a'' True New_Manager))))))) = 2"
  "length (wm_regs ex_wm) = 2"
  by code_simp+

lemma ex_wm_reachable: "wm_reachable ex_cache ex_wm"
  unfolding ex_wm_def
  by (intro wm_reachable.add wm_reachable.registrar wm_reachable.new) (simp_all add: ex_regs)

section \<open>Sets of kinds\<close>

text \<open>The sets of the watch package implement mathematical sets of kinds: adding, removing,
  replacing, difference, intersection, membership and equality are those of sets.\<close>

theorem watch_sets_refine:
  assumes "set_inv w" "set_inv v"
  shows "set_abs (Set_Add gs w) = set_abs w \<union> set gs \<and> set_abs (Set_Remove gs w) = set_abs w - set gs \<and>
    set_abs (Set_AddSet (Some v) w) = set_abs w \<union> set_abs v \<and>
    set_abs (Set_RemoveSet (Some v) w) = set_abs w - set_abs v \<and>
    set_abs (Set_Difference w (Some v)) = set_abs w - set_abs v \<and>
    set_abs (Set_Intersection w (Some v)) = set_abs w \<inter> set_abs v \<and>
    set_abs (Set_Replace (Some v) w) = set_abs v \<and>
    (Set_Contains g w \<longleftrightarrow> g \<in> set_abs w) \<and> (Set_Equals (Some w) (Some v) \<longleftrightarrow> set_abs w = set_abs v) \<and>
    Set_Size w = card (set_abs w) \<and> set (Set_Items (Some w)) = set_abs w \<and>
    Set_Equals (Some (Set_AddSet (Some (Set_Difference v (Some w))) (Set_RemoveSet (Some (Set_Difference w (Some v))) w)))
      (Some v)"
proof -
  have "Set_Replace (Some v) w = v"
    using assms(2) copy_map [of v] by (simp add: Set_Replace_def set_inv_def)
  moreover have "Set_Size w = card (set_abs w)"
    using assms(1) mwf_distinct [of w] distinct_card [of "map fst w"]
    by (simp add: Set_Size_def set_abs_def set_inv_def)
  ultimately show ?thesis
    using ws.add ws.remove ws.difference ws.intersection ws.equals ws.update_by_differences Contains_abs assms
    by (simp add: Set_Add_def Set_Remove_def Set_Items_def)
qed

theorem watch_sets_refine_witness:
  "set_abs (Set_Difference (Set_Add [ex_pods, ex_nodes] NewSet) (Some (Set_Add [ex_pods] NewSet))) = {ex_nodes}"
proof -
  have "set_inv (Set_Add gs NewSet)" for gs by (simp add: Set_Add_def)
  then show ?thesis
    using watch_sets_refine [of "Set_Add [ex_pods, ex_nodes] NewSet" "Set_Add [ex_pods] NewSet"]
      watch_sets_refine [of NewSet NewSet] by (simp add: ex_pods_def ex_nodes_def)
qed

section \<open>The watch manager\<close>

text \<open>C35: replacing the watches of a registrar, in any reachable state: the operation never
  panics, afterwards the registrar watches none but the given kinds, and all of them when no
  error is reported; the watches of other registrars stay as they are.\<close>

theorem replace_watch_exact:
  assumes "wm_reachable env wm" "r < length (wm_regs wm)"
  shows "\<exists>wm' errs. ReplaceWatch env r gvks wm = Some (wm', errs) \<and>
    (\<forall>g. watching r g wm' \<longrightarrow> g \<in> set gvks) \<and>
    (errs = [] \<longrightarrow> (\<forall>g \<in> set gvks. watching r g wm')) \<and>
    (\<forall>r' g. r' \<noteq> r \<longrightarrow> watching r' g wm' = watching r' g wm)"
proof -
  have inv: "wm_inv wm" using wm_reachable_inv [OF assms(1)] by blast
  then obtain wm' errs where R: "ReplaceWatch env r gvks wm = Some (wm', errs)"
    by (rule ReplaceWatch_inv [OF _ assms(2)])
  have "intent_inv wm" using inv by (simp add: wm_inv_def)
  from ReplaceWatch_watching [OF R this assms(2)] show ?thesis using R by blast
qed

theorem replace_watch_exact_witness:
  "\<exists>wm' errs. ReplaceWatch ex_cache 0 [ex_nodes] ex_wm = Some (wm', errs) \<and> \<not> watching 0 ex_pods wm' \<and>
     watching 1 ex_pods wm'"
proof -
  have "watching 1 ex_pods ex_wm" by code_simp
  moreover have "ex_pods \<notin> set [ex_nodes]" by (simp add: ex_pods_def ex_nodes_def)
  ultimately show ?thesis
    using replace_watch_exact [OF ex_wm_reachable, of 0 "[ex_nodes]"] ex_regs(3) by auto
qed

text \<open>C36: the invariant of the watch manager: in every reachable state the counter of each kind is
  the number of its running replays, a replay that is not cancelled belongs to a current watcher
  of its kind, and no operation panics, whichever replay ends when.\<close>

theorem watch_invariant:
  assumes "wm_reachable env wm"
  shows "(\<forall>g. rt_count (wm_replayTracker wm) g = int (card (running wm g))) \<and>
    (\<forall>i p. mget (wm_replays wm) i = Some p \<longrightarrow> rp_cancelled p \<or> watching (rp_reg p) (rp_gvk p) wm) \<and>
    (\<forall>i. replay_end i wm \<noteq> None) \<and> (\<forall>name. RemoveRegistrar env name wm \<noteq> None) \<and>
    (\<forall>r < length (wm_regs wm). \<forall>g gvks. RemoveWatch env r g wm \<noteq> None \<and> ReplaceWatch env r gvks wm \<noteq> None)"
proof -
  have inv: "wm_inv wm" "names_ok wm" using wm_reachable_inv [OF assms] by auto
  then have ok: "counts_ok wm" "live_ok wm" by (auto simp: wm_inv_def)
  have "replay_end i wm \<noteq> None" for i using replay_end_ok [OF ok] by (metis option.distinct(1))
  moreover have "RemoveRegistrar env name wm \<noteq> None" for name
    using RemoveRegistrar_inv [OF inv] by (metis option.distinct(1))
  moreover have "RemoveWatch env r g wm \<noteq> None \<and> ReplaceWatch env r gvks wm \<noteq> None" if "r < length (wm_regs wm)" for r g gvks
    using RemoveWatch_inv [OF inv(1) that] ReplaceWatch_inv [OF inv(1) that] by (metis option.distinct(1))
  ultimately show ?thesis using ok live_okD(1,3) [OF ok(2)] unfolding counts_ok_def by blast
qed

theorem watch_invariant_witness: "rt_count (wm_replayTracker ex_wm) ex_pods = int (card (running ex_wm ex_pods))"
  using watch_invariant [OF ex_wm_reachable] by blast

text \<open>Delivery: as long as the cache does not fail to remove an informer, in every reachable
  state each watched kind has the manager exactly once as an event handler of its informer and
  the other kinds have none, and an event of a kind is sent exactly once to every registrar that
  watches the kind and has a channel, and to no other.\<close>

theorem events_delivered_once:
  assumes "wm_reachable env wm" "remove_err env = (\<lambda>_. None)"
  shows "(\<forall>g. handlers g wm = (if \<exists>r. watching r g wm then 1 else 0)) \<and>
    (\<exists>new. wm_sent (distributeEvent (Some obj) wm) = wm_sent wm @ new \<and> distinct new \<and>
      set new = {(r, o'). o' = obj \<and> watching r (GroupVersionKind obj) wm \<and> has_events (wm_regs wm ! r)})"
proof -
  have ok: "handlers_ok wm" by (rule wm_reachable_handlers [OF assms])
  let ?v = "regs_at (watchedKinds wm) (GroupVersionKind obj)"
  let ?new = "map (\<lambda>r. (r, obj)) (filter (\<lambda>r. has_events (wm_regs wm ! r)) (sorted_list_of_set ?v))"
  have "finite ?v" using ok finite_subset unfolding handlers_ok_def by blast
  moreover have "wm_sent (distributeEvent (Some obj) wm) = wm_sent wm @ ?new"
    by (simp add: distributeEvent_def regs_at_def split: option.split)
  moreover have "distinct ?new" by (simp add: distinct_map inj_on_def)
  ultimately have "wm_sent (distributeEvent (Some obj) wm) = wm_sent wm @ ?new \<and> distinct ?new \<and>
      set ?new = {(r, o'). o' = obj \<and> watching r (GroupVersionKind obj) wm \<and> has_events (wm_regs wm ! r)}"
    by (auto simp: watching_def)
  moreover have "\<forall>g. handlers g wm = (if \<exists>r. watching r g wm then 1 else 0)"
    using ok by (auto simp: handlers_ok_def watching_def)
  ultimately show ?thesis by blast
qed

theorem events_delivered_once_witness: "handlers ex_pods ex_wm = 1 \<and> watching 0 ex_pods ex_wm"
proof -
  have w: "watching 0 ex_pods ex_wm" by code_simp
  have "remove_err ex_cache = (\<lambda>_. None)" by (simp add: ex_cache_def)
  then have "handlers ex_pods ex_wm = (if \<exists>r. watching r ex_pods ex_wm then 1 else 0)"
    using events_delivered_once [OF ex_wm_reachable] by blast
  with w show ?thesis by auto
qed

section \<open>Behaviours worth knowing\<close>

text \<open>A failed removal of an informer leaves an entry without registrars; the next watch of the kind
  adds the manager to the informer a second time, so that every event arrives twice.\<close>

definition ex_stubborn :: cache_env where
  "ex_stubborn = ex_cache\<lparr>remove_err := (\<lambda>_. Some ''cannot remove'')\<rparr>"

lemma failed_removal_doubles_handlers:
  "map_option (\<lambda>(wm, _). handlers ex_pods (fst (AddWatch ex_stubborn 0 ex_pods wm)))
     (RemoveWatch ex_stubborn 0 ex_pods (fst (AddWatch ex_stubborn 0 ex_pods
       (fst (NewRegistrar ''a'' True New_Manager))))) = Some 2"
  by code_simp

text \<open>The recorded vitals of a watched kind lose the kind: the first watcher is merged into zero
  vitals.\<close>

lemma watched_vitals_zero_kind:
  "map_option v_gvk (mget (watchedKinds ex_wm) ex_pods) = Some (GVK [] [] [])"
  by code_simp

end
