(* ===== verification/Gk_Util.thy ===== *)
theory Gk_Util
  imports Match
begin

text \<open>
  The helpers that the controllers and webhooks share: namespace patterns with a trailing
  wildcard, enforcement actions, the packing of a kind into the name of a reconcile request
  and back (\<open>pkg/util\<close>), the set of operations assigned to a pod (\<open>pkg/operations\<close>) and
  the names of the status resources of a pod (\<open>apis/status/v1beta1\<close>).
\<close>

section \<open>Package strings, continued\<close>

text \<open>\<open>strings.SplitN(s, c, n)\<close> and \<open>strings.Split(s, c)\<close> for a one-byte separator.\<close>

fun SplitN :: "string \<Rightarrow> char \<Rightarrow> nat \<Rightarrow> string list" where
  "SplitN s c 0 = []"
| "SplitN s c (Suc 0) = [s]"
| "SplitN s c (Suc (Suc n)) =
     (if c \<in> set s
      then takeWhile (\<lambda>x. x \<noteq> c) s # SplitN (tl (dropWhile (\<lambda>x. x \<noteq> c) s)) c (Suc n)
      else [s])"

definition Split :: "string \<Rightarrow> char \<Rightarrow> string list" where
  "Split s c = SplitN s c (length s + 1)"

text \<open>\<open>strings.Count(s, c)\<close> for a one-byte pattern.\<close>

definition Count :: "string \<Rightarrow> char \<Rightarrow> nat" where
  "Count s c = length (filter (\<lambda>x. x = c) s)"

lemma takeWhile_sep [simp]: "c \<notin> set a \<Longrightarrow> takeWhile (\<lambda>x. x \<noteq> c) (a @ c # b) = a"
  by (induction a) auto

lemma dropWhile_sep [simp]: "c \<notin> set a \<Longrightarrow> dropWhile (\<lambda>x. x \<noteq> c) (a @ c # b) = c # b"
  by (induction a) auto

lemma SplitN_sep [simp]:
  "c \<notin> set a \<Longrightarrow> SplitN (a @ c # b) c (Suc (Suc n)) = a # SplitN b c (Suc n)"
  by simp

lemma SplitN_last [simp]: "c \<notin> set a \<Longrightarrow> SplitN a c (Suc n) = [a]"
  by (cases n) auto

lemma Join_SplitN: "Join (SplitN s c (Suc n)) [c] = s"
proof (induction n arbitrary: s)
  case (Suc n)
  show ?case
  proof (cases "c \<in> set s")
    case True
    then obtain a b where s: "s = a @ c # b" "c \<notin> set a"
      by (meson split_list_first)
    obtain x xs where "SplitN b c (Suc n) = x # xs"
      by (cases n; cases "c \<in> set b") auto
    with s Suc [of b] show ?thesis by simp
  qed simp
qed simp

text \<open>\<open>schema.ParseKindArg\<close>: the kind, version and group of a string with two dots or more.\<close>

definition ParseKindArg :: "string \<Rightarrow> GVK option" where
  "ParseKindArg arg =
     (if Count arg (CHR ''.'') \<ge> 2
      then (case SplitN arg (CHR ''.'') 3 of [k, v, g] \<Rightarrow> Some (GVK g v k) | _ \<Rightarrow> None)
      else None)"

section \<open>Namespace patterns\<close>

type_synonym PrefixWildcard = string

definition Wildcard_Matches :: "PrefixWildcard \<Rightarrow> string \<Rightarrow> bool" where
  "Wildcard_Matches pw candidate =
     (if HasSuffix pw ''*'' then HasPrefix candidate (TrimSuffix pw ''*'') else pw = candidate)"

text \<open>The reference: the pattern itself, or a pattern of a prefix.\<close>

lemma Wildcard_Matches_iff:
  "Wildcard_Matches pw candidate \<longleftrightarrow>
     (if \<exists>p. pw = p @ ''*'' then \<exists>p rest. pw = p @ ''*'' \<and> candidate = p @ rest else pw = candidate)"
  by (auto simp: Wildcard_Matches_def HasSuffix_def HasPrefix_def TrimSuffix_def prefix_def suffix_def)

section \<open>Enforcement actions\<close>

type_synonym EnforcementAction = string

definition Deny :: EnforcementAction where "Deny = ''deny''"
definition Dryrun :: EnforcementAction where "Dryrun = ''dryrun''"
definition Warn :: EnforcementAction where "Warn = ''warn''"
definition Unrecognized :: EnforcementAction where "Unrecognized = ''unrecognized''"

lemmas action_defs = Deny_def Dryrun_def Warn_def Unrecognized_def

definition supportedEnforcementActions :: "EnforcementAction list" where
  "supportedEnforcementActions = [Deny, Dryrun, Warn]"

definition KnownEnforcementActions :: "EnforcementAction list" where
  "KnownEnforcementActions = [Deny, Dryrun, Warn, Unrecognized]"

datatype EnforcementErr = ErrEnforcementAction EnforcementAction | ErrInvalidSpecEnforcementAction

definition ValidateEnforcementAction :: "EnforcementAction \<Rightarrow> EnforcementErr option" where
  "ValidateEnforcementAction input =
     (if list_ex (\<lambda>n. input = n) supportedEnforcementActions then None
      else Some (ErrEnforcementAction input))"

definition GetEnforcementAction :: "object \<Rightarrow> EnforcementErr + EnforcementAction" where
  "GetEnforcementAction item =
     (case NestedString item [''spec'', ''enforcementAction''] of
        Inl _ \<Rightarrow> Inl ErrInvalidSpecEnforcementAction
      | Inr spec \<Rightarrow>
          (let enforcementAction = (case spec of None \<Rightarrow> [] | Some a \<Rightarrow> a);
               enforcementAction = (if enforcementAction = [] then Deny else enforcementAction)
           in Inr (case ValidateEnforcementAction enforcementAction of
                     Some _ \<Rightarrow> Unrecognized | None \<Rightarrow> enforcementAction)))"

lemma ValidateEnforcementAction_None:
  "ValidateEnforcementAction a = None \<longleftrightarrow> a \<in> {Deny, Dryrun, Warn}"
  by (simp add: ValidateEnforcementAction_def supportedEnforcementActions_def)

lemma GetEnforcementAction_known:
  "GetEnforcementAction item = Inr a \<Longrightarrow> a \<in> set KnownEnforcementActions"
  by (auto simp: GetEnforcementAction_def KnownEnforcementActions_def Let_def ValidateEnforcementAction_def
      supportedEnforcementActions_def split: sum.splits option.splits if_splits)

section \<open>Packed reconcile requests\<close>

text \<open>\<open>reconcile.Request\<close> is a namespaced name; a \<open>client.Object\<close> is what its accessors
  return.\<close>

record Request =
  req_Namespace :: string
  req_Name :: string

record ClientObject =
  co_GVK :: GVK
  co_Namespace :: string
  co_Name :: string

definition ErrInvalidPackedName :: string where
  "ErrInvalidPackedName = ''invalid packed name''"

definition UnpackRequest :: "Request \<Rightarrow> string + GVK \<times> Request" where
  "UnpackRequest r =
     (let fields = SplitN (req_Name r) (CHR '':'') 3 in
      if length fields \<noteq> 3 \<or> fields ! 0 \<noteq> ''gvk'' then Inl ErrInvalidPackedName
      else (case ParseKindArg (fields ! 1) of
              None \<Rightarrow> Inl ErrInvalidPackedName
            | Some gvk \<Rightarrow> Inr (gvk, \<lparr>req_Namespace = req_Namespace r, req_Name = fields ! 2\<rparr>)))"

definition EventPackerMapFunc :: "ClientObject option \<Rightarrow> Request list" where
  "EventPackerMapFunc obj =
     (case obj of
        None \<Rightarrow> []
      | Some ob \<Rightarrow>
          (let version = (if gvk_Version (co_GVK ob) = [] then ''v1'' else gvk_Version (co_GVK ob));
               encodedGVK = gvk_Kind (co_GVK ob) @ ''.'' @ version @ ''.'' @ gvk_Group (co_GVK ob);
               packed = ''gvk:'' @ encodedGVK @ '':'' @ co_Name ob
           in [\<lparr>req_Namespace = co_Namespace ob, req_Name = packed\<rparr>]))"

text \<open>The kind of an unstructured object is stored as an API version and a kind.\<close>

definition GV_String :: "string \<Rightarrow> string \<Rightarrow> string" where
  "GV_String g v = (if g \<noteq> [] then g @ ''/'' @ v else v)"

definition stored_GVK :: "GVK \<Rightarrow> GVK" where
  "stored_GVK gvk =
     (case ParseGroupVersion (GV_String (gvk_Group gvk) (gvk_Version gvk)) of
        None \<Rightarrow> GVK [] [] []
      | Some (g, v) \<Rightarrow> GVK g v (gvk_Kind gvk))"

definition EventPackerMapFuncHardcodeGVK :: "GVK \<Rightarrow> ClientObject \<Rightarrow> Request list" where
  "EventPackerMapFuncHardcodeGVK gvk ob =
     EventPackerMapFunc (Some (ob\<lparr>co_GVK := stored_GVK gvk\<rparr>))"

lemma ParseKindArg_encoded:
  assumes "CHR ''.'' \<notin> set k" and "CHR ''.'' \<notin> set v"
  shows "ParseKindArg (k @ CHR ''.'' # v @ CHR ''.'' # g) = Some (GVK g v k)"
  using assms SplitN_sep [of "CHR ''.''" k "v @ CHR ''.'' # g" 1]
    SplitN_sep [of "CHR ''.''" v g 0]
  by (simp add: ParseKindArg_def Count_def numeral_3_eq_3)

lemma UnpackRequest_Inr:
  assumes "UnpackRequest r = Inr (gvk, r')"
  shows "req_Namespace r' = req_Namespace r \<and>
    req_Name r = ''gvk:'' @ gvk_Kind gvk @ ''.'' @ gvk_Version gvk @ ''.'' @ gvk_Group gvk @ '':'' @ req_Name r'"
proof -
  let ?fs = "SplitN (req_Name r) (CHR '':'') 3"
  from assms have 3: "length ?fs = 3" "?fs ! 0 = ''gvk''"
    by (auto simp: UnpackRequest_def Let_def split: if_splits)
  then obtain b c where fs: "?fs = [''gvk'', b, c]"
    by (auto simp: length_Suc_conv numeral_3_eq_3)
  with assms have p: "ParseKindArg b = Some gvk" and r': "r' = \<lparr>req_Namespace = req_Namespace r, req_Name = c\<rparr>"
    by (auto simp: UnpackRequest_def split: option.splits)
  have "req_Name r = ''gvk:'' @ b @ '':'' @ c"
    using Join_SplitN [of "req_Name r" "CHR '':''" 2] fs by (simp add: numeral_3_eq_3)
  moreover from p obtain k v g where s: "SplitN b (CHR ''.'') 3 = [k, v, g]" and gvk: "gvk = GVK g v k"
    by (auto simp: ParseKindArg_def split: if_splits list.splits)
  have "b = k @ ''.'' @ v @ ''.'' @ g"
    using Join_SplitN [of b "CHR ''.''" 2] s by (simp add: numeral_3_eq_3)
  ultimately show ?thesis using r' gvk by simp
qed

text \<open>A request for a kind whose parts do not contain the separators unpacks to that kind.\<close>

definition packable :: "GVK \<Rightarrow> bool" where
  "packable gvk \<longleftrightarrow> {CHR ''.'', CHR '':''} \<inter> (set (gvk_Kind gvk) \<union> set (gvk_Version gvk)) = {} \<and>
     CHR '':'' \<notin> set (gvk_Group gvk)"

definition default_version :: "GVK \<Rightarrow> GVK" where
  "default_version gvk =
     GVK (gvk_Group gvk) (if gvk_Version gvk = [] then ''v1'' else gvk_Version gvk) (gvk_Kind gvk)"

lemma Unpack_EventPacker:
  assumes "packable (co_GVK ob)"
  shows "map UnpackRequest (EventPackerMapFunc (Some ob)) =
    [Inr (default_version (co_GVK ob), \<lparr>req_Namespace = co_Namespace ob, req_Name = co_Name ob\<rparr>)]"
proof -
  define k g v where "k = gvk_Kind (co_GVK ob)" and "g = gvk_Group (co_GVK ob)"
    and "v = gvk_Version (default_version (co_GVK ob))"
  have sep: "CHR ''.'' \<notin> set k" "CHR ''.'' \<notin> set v" "CHR '':'' \<notin> set k" "CHR '':'' \<notin> set v" "CHR '':'' \<notin> set g"
    using assms by (auto simp: packable_def k_def v_def g_def default_version_def)
  let ?b = "k @ CHR ''.'' # v @ CHR ''.'' # g"
  have "SplitN (''gvk'' @ CHR '':'' # ?b @ CHR '':'' # co_Name ob) (CHR '':'') (Suc (Suc (Suc 0))) = [''gvk'', ?b, co_Name ob]"
    by (subst SplitN_sep, simp, subst SplitN_sep) (use sep in simp_all)
  then show ?thesis
    using ParseKindArg_encoded [OF sep(1,2), of g]
    by (simp add: EventPackerMapFunc_def UnpackRequest_def Let_def numeral_3_eq_3 k_def v_def g_def default_version_def)
qed

section \<open>Other helpers\<close>

text \<open>The environment variables of the pod; \<open>GetNamespace\<close> of the package \<open>util\<close>.\<close>

type_synonym environ = "(string, string) gomap"

definition GetPodName :: "environ \<Rightarrow> string" where
  "GetPodName env = (case mget env ''POD_NAME'' of Some s \<Rightarrow> s | None \<Rightarrow> [])"

definition GetID :: "environ \<Rightarrow> string" where
  "GetID env = GetPodName env"

definition util_GetNamespace :: "environ \<Rightarrow> string" where
  "util_GetNamespace env = (case mget env ''POD_NAMESPACE'' of Some ns \<Rightarrow> ns | None \<Rightarrow> ''gatekeeper-system'')"

record KindVersionResource =
  kvr_kind :: string
  kvr_version :: string
  kvr_resource :: string

definition GetUniqueKey :: "object \<Rightarrow> KindVersionResource" where
  "GetUniqueKey obj =
     \<lparr>kvr_kind = getNestedString obj [''kind''], kvr_version = getNestedString obj [''apiVersion''],
      kvr_resource = GetName obj\<rparr>"

type_synonym FlagSet = "(string, bool) gomap"

definition NewFlagSet :: FlagSet where
  "NewFlagSet = []"

definition FlagSet_ToSlice :: "FlagSet \<Rightarrow> string list" where
  "FlagSet_ToSlice l = mkeys l"

definition FlagSet_Set :: "FlagSet \<Rightarrow> string \<Rightarrow> FlagSet" where
  "FlagSet_Set l s = mput s True l"

text \<open>The value of a map of booleans at a key, false when it is absent.\<close>

definition mbool :: "('k, bool) gomap \<Rightarrow> 'k \<Rightarrow> bool" where
  "mbool m k = (case mget m k of Some b \<Rightarrow> b | None \<Rightarrow> False)"

lemma mbool_mput [simp]: "mbool (mput k v m) j = (if j = k then v else mbool m j)"
  by (simp add: mbool_def)

lemma mbool_Nil [simp]: "mbool [] k = False"
  by (simp add: mbool_def)

end
