(* ===== verification/Operations.thy ===== *)
theory Operations
  imports Gk_Util
begin

text \<open>
  The operations assigned to a pod by the flag \<open>--operation\<close> (\<open>pkg/operations\<close>) and the
  names and contents of the status resources that a pod writes (\<open>apis/status/v1beta1\<close>).
\<close>

section \<open>The set of assigned operations\<close>

type_synonym Operation = string

definition allOperations :: "Operation list" where
  "allOperations = [''audit'', ''status'', ''mutation-status'', ''webhook'']"

text \<open>A nil slice of cached strings is \<open>None\<close>.\<close>

record opSet =
  validOperations :: "(Operation, bool) gomap"
  assignedOperations :: "(Operation, bool) gomap"
  assignedStringList :: "string list option"
  initialized :: bool

definition newOperationSet :: opSet where
  "newOperationSet =
     (let ops = fold (\<lambda>v m. mput v True m) allOperations [] in
      \<lparr>validOperations = ops, assignedOperations = ops, assignedStringList = None, initialized = False\<rparr>)"

text \<open>The loop of \<open>Set\<close>: it stops at the first invalid operation, and those before it
  stay assigned.\<close>

fun assign_loop :: "(Operation, bool) gomap \<Rightarrow> string list \<Rightarrow> (Operation, bool) gomap
    \<Rightarrow> (Operation, bool) gomap \<times> string option" where
  "assign_loop valid [] assigned = (assigned, None)"
| "assign_loop valid (v # splt) assigned =
     (if \<not> mbool valid v then (assigned, Some v)
      else assign_loop valid splt (mput v True assigned))"

definition opSet_Set :: "string \<Rightarrow> opSet \<Rightarrow> opSet \<times> string option" where
  "opSet_Set s l =
     (let l = (if initialized l then l else l\<lparr>assignedOperations := [], initialized := True\<rparr>);
          (assigned, err) = assign_loop (validOperations l) (Split s (CHR '','')) (assignedOperations l)
      in (l\<lparr>assignedOperations := assigned\<rparr>, err))"

text \<open>The copy of the map that the caller gets.\<close>

definition AssignedOperations :: "opSet \<Rightarrow> (Operation, bool) gomap" where
  "AssignedOperations l = fold (\<lambda>(k, v) ret. mput k v ret) (assignedOperations l) []"

definition IsAssigned :: "Operation \<Rightarrow> opSet \<Rightarrow> bool" where
  "IsAssigned op l = mbool (assignedOperations l) op"

definition AssignedStringList :: "opSet \<Rightarrow> string list \<times> opSet" where
  "AssignedStringList l =
     (case assignedStringList l of
        Some ret \<Rightarrow> (ret, l)
      | None \<Rightarrow>
          (let ret = sort (mkeys (assignedOperations l)) in
           (ret, l\<lparr>assignedStringList := (if ret = [] then None else Some ret)\<rparr>)))"

lemma mbool_valid: "mbool (validOperations newOperationSet) v \<longleftrightarrow> v \<in> set allOperations"
  by (simp add: newOperationSet_def allOperations_def mbool_def Let_def)

text \<open>The operations that a call with the pieces \<open>vs\<close> and the result \<open>e\<close> assigns.\<close>

definition valid_upto :: "string list \<Rightarrow> string option \<Rightarrow> string set" where
  "valid_upto vs e =
     (case e of None \<Rightarrow> set vs | Some _ \<Rightarrow> set (takeWhile (\<lambda>v. v \<in> set allOperations) vs))"

definition ops_ok :: "(Operation, bool) gomap \<Rightarrow> bool" where
  "ops_ok m \<longleftrightarrow> mwf m \<and> (\<forall>k b. mget m k = Some b \<longrightarrow> b \<and> k \<in> set allOperations)"

lemma ops_ok_mput: "ops_ok m \<Longrightarrow> v \<in> set allOperations \<Longrightarrow> ops_ok (mput v True m)"
  by (auto simp: ops_ok_def)

definition op_inv :: "opSet \<Rightarrow> bool" where
  "op_inv l \<longleftrightarrow> validOperations l = validOperations newOperationSet \<and> ops_ok (assignedOperations l)"

lemma op_inv_new [simp]: "op_inv newOperationSet"
  by (auto simp: op_inv_def ops_ok_def newOperationSet_def allOperations_def Let_def mwf_def split: if_splits)

lemma assign_loop_inv:
  assumes "ops_ok m" and "assign_loop (validOperations newOperationSet) vs m = (m', e)"
  shows "ops_ok m' \<and> e = find (\<lambda>v. v \<notin> set allOperations) vs \<and>
    (\<forall>k. mbool m' k \<longleftrightarrow> mbool m k \<or> k \<in> valid_upto vs e)"
  using assms
proof (induction vs arbitrary: m)
  case Nil
  then show ?case by (simp add: valid_upto_def)
next
  case (Cons v vs)
  show ?case
  proof (cases "v \<in> set allOperations")
    case True
    then have "assign_loop (validOperations newOperationSet) vs (mput v True m) = (m', e)"
      using Cons.prems by (simp add: mbool_valid)
    note IH = Cons.IH [OF ops_ok_mput [OF Cons.prems(1) True] this]
    have "valid_upto (v # vs) e = insert v (valid_upto vs e)"
      using True by (simp add: valid_upto_def split: option.split)
    with IH True show ?thesis by simp
  next
    case False
    then show ?thesis using Cons.prems by (auto simp: mbool_valid valid_upto_def)
  qed
qed

lemma sorted_mkeys: "mwf m \<Longrightarrow> sort (mkeys m) = mkeys m"
  by (simp add: mwf_def mkeys_def strict_sorted_iff sorted_sort_id)

lemma set_mkeys: "set (mkeys m) = {k. mhas m k}"
  by (auto simp: mkeys_def mhas_def mget_None_iff)

lemma set_mkeys_op: "op_inv l \<Longrightarrow> set (mkeys (assignedOperations l)) = {k. IsAssigned k l}"
  unfolding set_mkeys mhas_def IsAssigned_def mbool_def op_inv_def ops_ok_def
  by (force split: option.splits)

text \<open>What a call of \<open>Set\<close> does: the first one drops the default; the operations before the
  first invalid one are assigned, and the error names that one; nothing else changes.\<close>

lemma opSet_Set_spec:
  assumes "op_inv l" and "opSet_Set s l = (l', e)"
  shows "op_inv l' \<and> initialized l' \<and> assignedStringList l' = assignedStringList l \<and>
    e = find (\<lambda>v. v \<notin> set allOperations) (Split s (CHR '','')) \<and>
    (\<forall>op. IsAssigned op l' \<longleftrightarrow> (initialized l \<and> IsAssigned op l) \<or> op \<in> valid_upto (Split s (CHR '','')) e)"
proof -
  define l0 where "l0 = (if initialized l then l else l\<lparr>assignedOperations := [], initialized := True\<rparr>)"
  have l0: "op_inv l0" "initialized l0" "assignedStringList l0 = assignedStringList l"
    "\<And>op. mbool (assignedOperations l0) op \<longleftrightarrow> initialized l \<and> IsAssigned op l"
    using assms(1) by (auto simp: l0_def op_inv_def ops_ok_def IsAssigned_def)
  obtain m' e' where a: "assign_loop (validOperations newOperationSet) (Split s (CHR '','')) (assignedOperations l0) = (m', e')"
    by fastforce
  have eq: "l' = l0\<lparr>assignedOperations := m'\<rparr>" "e = e'"
    using assms(2) a l0(1) unfolding opSet_Set_def l0_def [symmetric] Let_def op_inv_def by auto
  have "ops_ok (assignedOperations l0)" using l0(1) by (simp add: op_inv_def)
  from assign_loop_inv [OF this a] show ?thesis
    using l0 by (simp add: eq op_inv_def IsAssigned_def)
qed

section \<open>Names of status resources\<close>

text \<open>The parameters: \<open>strings.ToLower\<close>, whose table for runes beyond ASCII is not
  modelled, and \<open>controllerutil.SetOwnerReference\<close> of controller-runtime.\<close>

definition DisablePodOwnership :: "bool \<Rightarrow> bool" where
  "DisablePodOwnership podOwnershipEnabled = False"

definition PodOwnershipEnabled :: "bool \<Rightarrow> bool" where
  "PodOwnershipEnabled podOwnershipEnabled = podOwnershipEnabled"

text \<open>The state of the loop of \<open>dashExtractor\<close>: the builder, the tokens and \<open>prevDash\<close>.\<close>

fun dash_loop :: "rune list \<Rightarrow> string \<Rightarrow> string list \<Rightarrow> bool \<Rightarrow> string list" where
  "dash_loop [] b tokens prevDash = tokens @ [b]"
| "dash_loop (chr # rs) b tokens prevDash =
     (let (tokens, b, prevDash) =
        (if prevDash \<and> chr \<noteq> 45 then (tokens @ [b], [], False) else (tokens, b, prevDash))
      in if chr = 45
         then (if prevDash then dash_loop rs (b @ EncodeRune chr) tokens False
               else dash_loop rs b tokens True)
         else dash_loop rs (b @ EncodeRune chr) tokens prevDash)"

definition dashExtractor :: "string \<Rightarrow> string list" where
  "dashExtractor s = dash_loop (runes s) [] [] False"

datatype PackErr = PackNothing | DashAtEnd "string list" | PackEmpty

fun pack_loop :: "string list \<Rightarrow> nat \<Rightarrow> string list \<Rightarrow> string \<Rightarrow> PackErr + string" where
  "pack_loop vals i [] b = Inr b"
| "pack_loop vals i (v # vs) b =
     (if HasPrefix v ''-'' \<or> HasSuffix v ''-'' then Inl (DashAtEnd vals)
      else if length v = 0 then Inl PackEmpty
      else pack_loop vals (i + 1) vs
        ((if i \<noteq> 0 then b @ ''-'' else b) @ ReplaceAll v (CHR ''-'') ''--''))"

definition dashPacker :: "string list \<Rightarrow> PackErr + string" where
  "dashPacker vals = (if length vals = 0 then Inl PackNothing else pack_loop vals 0 vals [])"

text \<open>What can be packed, and the packed text.\<close>

definition dashable :: "string \<Rightarrow> bool" where
  "dashable v \<longleftrightarrow> v \<noteq> [] \<and> hd v \<noteq> CHR ''-'' \<and> last v \<noteq> CHR ''-''"

abbreviation escape_dash :: "string \<Rightarrow> string" where
  "escape_dash v \<equiv> ReplaceAll v (CHR ''-'') ''--''"

lemma dash_ends: "v \<noteq> [] \<Longrightarrow> HasPrefix v ''-'' \<longleftrightarrow> hd v = CHR ''-''" "v \<noteq> [] \<Longrightarrow> HasSuffix v ''-'' \<longleftrightarrow> last v = CHR ''-''"
  by (cases v; auto simp: HasPrefix_def)
    (cases v rule: rev_cases; auto simp: HasSuffix_def)

lemma pack_loop_Inr:
  "pack_loop vals i vs b = Inr s \<longleftrightarrow>
    list_all dashable vs \<and> s = b @ (if vs \<noteq> [] \<and> i \<noteq> 0 then ''-'' else []) @ Join (map escape_dash vs) ''-''"
proof (induction vs arbitrary: i b)
  case (Cons v vs)
  have "v = [] \<Longrightarrow> \<not> HasPrefix v ''-''" "v = [] \<Longrightarrow> \<not> HasSuffix v ''-''"
    by (simp_all add: HasPrefix_def HasSuffix_def)
  with Cons show ?case by (cases "v = []"; cases vs) (auto simp: dash_ends dashable_def)
qed auto

lemma dashPacker_Inr:
  "dashPacker vals = Inr s \<longleftrightarrow> vals \<noteq> [] \<and> list_all dashable vals \<and> s = Join (map escape_dash vals) ''-''"
  by (simp add: dashPacker_def pack_loop_Inr)

text \<open>Packing is injective on byte strings: the separator is the only single dash.\<close>

lemma escape_dash_simps [simp]:
  "escape_dash [] = []" "escape_dash (c # v) = (if c = CHR ''-'' then ''--'' else [c]) @ escape_dash v"
  by (simp_all add: ReplaceAll_def)

lemma escape_split:
  assumes "escape_dash v @ x = escape_dash w @ y"
    and "\<And>z. x \<noteq> CHR ''-'' # CHR ''-'' # z" "\<And>z. y \<noteq> CHR ''-'' # CHR ''-'' # z"
    and "x = [] \<or> hd x = CHR ''-''" "y = [] \<or> hd y = CHR ''-''"
  shows "v = w \<and> x = y"
  using assms
proof (induction v arbitrary: w)
  case Nil
  then show ?case by (cases w) (auto split: if_splits)
next
  case (Cons c v)
  show ?case
  proof (cases w)
    case Nil
    with Cons.prems show ?thesis by (cases y) (auto split: if_splits)
  next
    case (Cons d w')
    then have "c = d \<and> escape_dash v @ x = escape_dash w' @ y"
      using Cons.prems(1) by (auto split: if_splits)
    then show ?thesis using Cons.IH [of w'] Cons.prems(2-) Cons by blast
  qed
qed

lemma hd_escape: "v \<noteq> [] \<Longrightarrow> hd v \<noteq> CHR ''-'' \<Longrightarrow> \<exists>c r. escape_dash v = c # r \<and> c \<noteq> CHR ''-''"
  by (cases v) auto

lemma Join_escape_inj:
  assumes "list_all dashable vs" "list_all dashable ws" "vs \<noteq> []" "ws \<noteq> []"
    and "Join (map escape_dash vs) ''-'' = Join (map escape_dash ws) ''-''"
  shows "vs = ws"
  using assms
proof (induction vs arbitrary: ws)
  case (Cons v vs)
  obtain w ws' where ws: "ws = w # ws'" using Cons.prems(4) by (cases ws) auto
  have tail: "list_all dashable us \<Longrightarrow> Join (map escape_dash (u # us)) ''-'' =
      escape_dash u @ (if us = [] then [] else CHR ''-'' # Join (map escape_dash us) ''-'')" for u us
    by (cases us) auto
  have nodash: "list_all dashable us \<Longrightarrow> us \<noteq> [] \<Longrightarrow> \<exists>c r. Join (map escape_dash us) ''-'' = c # r \<and> c \<noteq> CHR ''-''" for us
  proof (cases us)
    case (Cons u us')
    assume "list_all dashable us"
    then obtain c r where "escape_dash u = c # r" "c \<noteq> CHR ''-''"
      using Cons hd_escape [of u] by (auto simp: dashable_def)
    then show ?thesis using Cons by (cases us') auto
  qed simp
  have all: "list_all dashable vs" "list_all dashable ws'" using Cons.prems ws by auto
  have "v = w \<and> (if vs = [] then [] else CHR ''-'' # Join (map escape_dash vs) ''-'') =
      (if ws' = [] then [] else CHR ''-'' # Join (map escape_dash ws') ''-'')"
    using Cons.prems(5) nodash [OF all(1)] nodash [OF all(2)]
    unfolding ws tail [OF all(1)] tail [OF all(2)]
    by (intro escape_split) (auto split: if_splits)
  then show ?case using Cons.IH [of ws'] all ws by (auto split: if_splits)
qed simp

lemma dashPacker_inj:
  "dashPacker vs = Inr s \<Longrightarrow> dashPacker ws = Inr s \<Longrightarrow> vs = ws"
  by (auto simp: dashPacker_Inr intro: Join_escape_inj)

lemma utf8_append: "utf8 (rs @ qs) = utf8 rs @ utf8 qs"
  by (simp add: utf8_def)

text \<open>Unpacking: on valid UTF-8 the extractor returns the packed strings.\<close>

definition esc_dash :: "rune list \<Rightarrow> rune list" where
  "esc_dash rs = concat (map (\<lambda>r. if r = 45 then [45, 45] else [r]) rs)"

lemma esc_dash_simps [simp]:
  "esc_dash [] = []" "esc_dash (r # rs) = (if r = 45 then [45, 45] else [r]) @ esc_dash rs"
  by (simp_all add: esc_dash_def)

lemma EncodeRune_dash [simp]: "EncodeRune 45 = ''-''"
  using EncodeRune_ascii [of "CHR ''-''"] by simp

lemma escape_dash_append [simp]: "escape_dash (v @ w) = escape_dash v @ escape_dash w"
  by (simp add: ReplaceAll_def)

lemma escape_dash_rune:
  assumes "valid_rune r"
  shows "escape_dash (EncodeRune r) = utf8 (esc_dash [r])"
proof (cases "r < 128")
  case True
  define c :: char where "c = char_of (nat r)"
  have r: "r = int (byte c)" and c: "byte c < 128"
    using True assms by (auto simp: c_def valid_rune_def)
  moreover have "byte c = 45 \<longleftrightarrow> c = CHR ''-''"
    using of_char_eq_iff [of c "CHR ''-''"] by auto
  ultimately show ?thesis by (auto simp: ReplaceAll_def)
next
  case False
  then have "CHR ''-'' \<notin> set (EncodeRune r)"
    using EncodeRune_high [OF assms] by fastforce
  with False show ?thesis by (simp add: ReplaceAll_absent)
qed

lemma escape_dash_utf8: "list_all valid_rune rs \<Longrightarrow> escape_dash (utf8 rs) = utf8 (esc_dash rs)"
  by (induction rs) (auto simp: escape_dash_rune)

lemma dash_loop_token:
  "dash_loop (esc_dash rs @ rest) b tokens False = dash_loop rest (b @ utf8 rs) tokens False"
  by (induction rs arbitrary: b) auto

lemma dash_loop_sep:
  "r \<noteq> 45 \<Longrightarrow> dash_loop (45 # r # rest) b tokens False = dash_loop (r # rest) [] (tokens @ [b]) False"
  by simp

lemma hd_not_dash: "rs \<noteq> [] \<Longrightarrow> hd rs \<noteq> 45 \<Longrightarrow> \<exists>r q. esc_dash rs @ x = r # q \<and> r \<noteq> 45"
  by (cases rs) auto

fun pack_runes :: "rune list list \<Rightarrow> rune list" where
  "pack_runes [] = []"
| "pack_runes [rs] = esc_dash rs"
| "pack_runes (rs # qs # rest) = esc_dash rs @ 45 # pack_runes (qs # rest)"

lemma dash_loop_pack:
  assumes "rss \<noteq> []" and "\<forall>rs \<in> set rss. rs \<noteq> [] \<and> hd rs \<noteq> 45"
  shows "dash_loop (pack_runes rss) [] tokens False = tokens @ map utf8 rss"
  using assms
proof (induction rss arbitrary: tokens rule: pack_runes.induct)
  case (2 rs)
  then show ?case using dash_loop_token [of rs "[]"] by simp
next
  case (3 rs qs rest)
  have "\<exists>r q. pack_runes (qs # rest) = r # q \<and> r \<noteq> 45"
    using 3(3) hd_not_dash [of qs "[]"] hd_not_dash [of qs] by (cases rest) auto
  then obtain r q where q: "pack_runes (qs # rest) = r # q" "r \<noteq> 45" by blast
  have "dash_loop (pack_runes (rs # qs # rest)) [] tokens False = dash_loop (45 # pack_runes (qs # rest)) (utf8 rs) tokens False"
    using dash_loop_token [of rs _ "[]"] by simp
  also have "\<dots> = dash_loop (pack_runes (qs # rest)) [] (tokens @ [utf8 rs]) False"
    unfolding q(1) using q(2) by (rule dash_loop_sep)
  also have "\<dots> = tokens @ map utf8 (rs # qs # rest)" using 3 by simp
  finally show ?case .
qed simp

lemma pack_runes_utf8:
  "\<forall>rs \<in> set rss. list_all valid_rune rs \<Longrightarrow> Join (map escape_dash (map utf8 rss)) ''-'' = utf8 (pack_runes rss)"
  by (induction rss rule: pack_runes.induct) (auto simp: escape_dash_utf8 utf8_append)

lemma valid_esc_dash: "list_all valid_rune rs \<Longrightarrow> list_all valid_rune (esc_dash rs)"
  by (induction rs) (auto simp: valid_rune_def)

lemma valid_pack_runes:
  "\<forall>rs \<in> set rss. list_all valid_rune rs \<Longrightarrow> list_all valid_rune (pack_runes rss)"
  by (induction rss rule: pack_runes.induct) (auto simp: valid_esc_dash valid_rune_def)

lemma dashExtractor_Packer:
  assumes "dashPacker vals = Inr s" and "list_all valid_utf8 vals"
  shows "dashExtractor s = vals"
proof -
  define rss where "rss = map runes vals"
  have vals: "map utf8 rss = vals" "\<forall>rs \<in> set rss. list_all valid_rune rs"
    using assms(2) by (auto simp: rss_def list_all_iff valid_utf8_def intro: map_idI)
  have pack: "vals \<noteq> []" "list_all dashable vals" "s = utf8 (pack_runes rss)"
    using assms(1) pack_runes_utf8 [OF vals(2)] by (simp_all add: dashPacker_Inr vals(1))
  have "rs \<noteq> [] \<and> hd rs \<noteq> 45" if "rs \<in> set rss" for rs
  proof -
    have "dashable (utf8 rs)" using that pack(2) vals(1) by (auto simp: list_all_iff)
    then show ?thesis by (cases rs) (auto simp: dashable_def)
  qed
  then have "dash_loop (pack_runes rss) [] [] False = map utf8 rss"
    using dash_loop_pack [of rss "[]"] pack(1) by (auto simp: rss_def)
  then show ?thesis
    using valid_pack_runes [OF vals(2)] by (simp add: dashExtractor_def pack(3) runes_utf8 vals(1))
qed

section \<open>Status resources\<close>

definition ConstraintNameLabel :: string where
  "ConstraintNameLabel = ''internal.gatekeeper.sh/constraint-name''"
definition ConstraintKindLabel :: string where
  "ConstraintKindLabel = ''internal.gatekeeper.sh/constraint-kind''"
definition ConstraintTemplateNameLabel :: string where
  "ConstraintTemplateNameLabel = ''internal.gatekeeper.sh/constrainttemplate-name''"
definition MutatorNameLabel :: string where
  "MutatorNameLabel = ''internal.gatekeeper.sh/mutator-name''"
definition MutatorKindLabel :: string where
  "MutatorKindLabel = ''internal.gatekeeper.sh/mutator-kind''"
definition PodLabel :: string where
  "PodLabel = ''internal.gatekeeper.sh/pod''"

lemmas label_defs = ConstraintNameLabel_def ConstraintKindLabel_def ConstraintTemplateNameLabel_def
  MutatorNameLabel_def MutatorKindLabel_def PodLabel_def

text \<open>A status object as the three constructors leave it; the fields that only the
  controllers set are left out. The owner reference is the pod's, when ownership is enabled
  and \<open>SetOwnerReference\<close>, the parameter \<open>owner_ok\<close>, succeeds.\<close>

record PodStatus =
  st_Name :: string
  st_Namespace :: string
  st_Labels :: "(string, string) gomap"
  st_ID :: string
  st_Operations :: "string list"
  st_Owner :: "string option"

datatype StatusErr = NameErr PackErr | OwnerErr

record StatusEnv =
  se_ToLower :: "string \<Rightarrow> string"
  se_OwnerOk :: "string \<Rightarrow> bool"
  se_PodOwnershipEnabled :: bool
  se_environ :: environ

definition KeyForConstraint :: "StatusEnv \<Rightarrow> string \<Rightarrow> object \<Rightarrow> PackErr + string" where
  "KeyForConstraint env i constraint =
     (let kind = se_ToLower env (gvk_Kind (GroupVersionKind constraint)); name = GetName constraint
      in dashPacker [i, kind, name])"

definition KeyForConstraintTemplate :: "string \<Rightarrow> string \<Rightarrow> PackErr + string" where
  "KeyForConstraintTemplate i templateName = dashPacker [i, templateName]"

definition KeyForMutatorID :: "StatusEnv \<Rightarrow> string \<Rightarrow> ID \<Rightarrow> PackErr + string" where
  "KeyForMutatorID env i mID = (let kind = se_ToLower env (Kind mID); name = Name mID in dashPacker [i, kind, name])"

text \<open>The ownership check at the end of the three constructors.\<close>

definition with_owner :: "StatusEnv \<Rightarrow> string \<Rightarrow> PodStatus \<Rightarrow> StatusErr + PodStatus" where
  "with_owner env pod obj =
     (if PodOwnershipEnabled (se_PodOwnershipEnabled env) then
        (if se_OwnerOk env pod then Inr (obj\<lparr>st_Owner := Some pod\<rparr>) else Inl OwnerErr)
      else Inr obj)"

definition new_status :: "StatusEnv \<Rightarrow> opSet \<Rightarrow> string \<Rightarrow> string \<Rightarrow> (string, string) gomap \<Rightarrow> PodStatus \<times> opSet" where
  "new_status env ops pod name labels =
     (case AssignedStringList ops of (operations, ops') \<Rightarrow>
        (\<lparr>st_Name = name, st_Namespace = util_GetNamespace (se_environ env), st_Labels = labels,
          st_ID = pod, st_Operations = operations, st_Owner = None\<rparr>, ops'))"

definition NewConstraintStatusForPod ::
    "StatusEnv \<Rightarrow> opSet \<Rightarrow> string \<Rightarrow> object \<Rightarrow> (StatusErr + PodStatus) \<times> opSet" where
  "NewConstraintStatusForPod env ops pod constraint =
     (case KeyForConstraint env pod constraint of
        Inl e \<Rightarrow> (Inl (NameErr e), ops)
      | Inr name \<Rightarrow>
          (let (obj, ops') = new_status env ops pod name
             (mput ConstraintNameLabel (GetName constraint)
               (mput ConstraintKindLabel (getNestedString constraint [''kind''])
                 (mput PodLabel pod
                   (mput ConstraintTemplateNameLabel (se_ToLower env (getNestedString constraint [''kind''])) []))))
           in (with_owner env pod obj, ops')))"

definition NewConstraintTemplateStatusForPod ::
    "StatusEnv \<Rightarrow> opSet \<Rightarrow> string \<Rightarrow> string \<Rightarrow> (StatusErr + PodStatus) \<times> opSet" where
  "NewConstraintTemplateStatusForPod env ops pod templateName =
     (case KeyForConstraintTemplate pod templateName of
        Inl e \<Rightarrow> (Inl (NameErr e), ops)
      | Inr name \<Rightarrow>
          (let (obj, ops') = new_status env ops pod name
             (mput ConstraintTemplateNameLabel templateName (mput PodLabel pod []))
           in (with_owner env pod obj, ops')))"

definition NewMutatorStatusForPod ::
    "StatusEnv \<Rightarrow> opSet \<Rightarrow> string \<Rightarrow> ID \<Rightarrow> (StatusErr + PodStatus) \<times> opSet" where
  "NewMutatorStatusForPod env ops pod mutatorID =
     (case KeyForMutatorID env pod mutatorID of
        Inl e \<Rightarrow> (Inl (NameErr e), ops)
      | Inr name \<Rightarrow>
          (let (obj, ops') = new_status env ops pod name
             (mput MutatorNameLabel (Name mutatorID)
               (mput MutatorKindLabel (Kind mutatorID) (mput PodLabel pod [])))
           in (with_owner env pod obj, ops')))"

end
