(* ===== verification/Excluder.thy ===== *)
theory Excluder
  imports Gk_Util
begin

text \<open>
  The process excluder (\<open>pkg/controller/config/process/excluder.go\<close>): for every process of
  Gatekeeper the patterns of the namespaces it leaves alone, as the \<open>Config\<close> resource lists
  them. The mutex makes every method one step; \<open>Replace\<close> takes over the map of an excluder
  that its caller drops, so that the map is a value here.
\<close>

type_synonym Process = string

definition process_Audit :: Process where "process_Audit = ''audit''"
definition process_Sync :: Process where "process_Sync = ''sync''"
definition process_Webhook :: Process where "process_Webhook = ''webhook''"
definition process_Mutation :: Process where "process_Mutation = ''mutation-webhook''"
definition process_Star :: Process where "process_Star = ''*''"

lemmas process_defs = process_Audit_def process_Sync_def process_Webhook_def process_Mutation_def process_Star_def

definition allProcesses :: "Process list" where
  "allProcesses = [process_Audit, process_Webhook, process_Sync]"

type_synonym Excluder = "(Process, (PrefixWildcard, bool) gomap) gomap"

definition New_Excluder :: Excluder where
  "New_Excluder = []"

record MatchEntry =
  me_Processes :: "string list"
  me_ExcludedNamespaces :: "PrefixWildcard list"

text \<open>The specification of a \<open>Config\<close> resource (\<open>apis/config/v1alpha1\<close>).\<close>

record Trace =
  tr_User :: string
  tr_Kind :: GVK
  tr_Dump :: string

record ConfigSpec =
  cs_SyncOnly :: "GVK list"
  cs_Traces :: "Trace list"
  cs_Match :: "MatchEntry list"
  cs_StatsEnabled :: bool

text \<open>The map of a process, which is made when it is nil, with one more pattern.\<close>

definition exclude :: "Process \<Rightarrow> PrefixWildcard \<Rightarrow> Excluder \<Rightarrow> Excluder" where
  "exclude p ns s = mput p (mput ns True (case mget s p of None \<Rightarrow> [] | Some m \<Rightarrow> m)) s"

definition exclude_op :: "PrefixWildcard \<Rightarrow> string \<Rightarrow> Excluder \<Rightarrow> Excluder" where
  "exclude_op ns op s =
     (if op = process_Star then fold (\<lambda>p. exclude p ns) allProcesses s else exclude op ns s)"

definition Excluder_Add :: "MatchEntry list \<Rightarrow> Excluder \<Rightarrow> Excluder" where
  "Excluder_Add entry s =
     fold (\<lambda>matchEntry. fold (\<lambda>ns. fold (exclude_op ns) (me_Processes matchEntry))
       (me_ExcludedNamespaces matchEntry)) entry s"

definition Excluder_Replace :: "Excluder \<Rightarrow> Excluder \<Rightarrow> Excluder" where
  "Excluder_Replace new s = new"

definition Excluder_Equals :: "Excluder \<Rightarrow> Excluder \<Rightarrow> bool" where
  "Excluder_Equals s new \<longleftrightarrow> s = new"

definition exactOrPrefixMatch :: "(PrefixWildcard, bool) gomap \<Rightarrow> string \<Rightarrow> bool" where
  "exactOrPrefixMatch boolMap ns \<longleftrightarrow> list_ex (\<lambda>k. Wildcard_Matches k ns) (mkeys boolMap)"

text \<open>A \<open>runtime.Object\<close>: its kind, and its name and namespace when \<open>meta.Accessor\<close>
  succeeds.\<close>

record MetaObject =
  ro_GVK :: GVK
  ro_Meta :: "(string \<times> string) option"

definition runtime_object :: "object \<Rightarrow> MetaObject" where
  "runtime_object obj = \<lparr>ro_GVK = GroupVersionKind obj, ro_Meta = Some (GetName obj, GetNamespace obj)\<rparr>"

datatype ExcluderErr = AccessorErr GVK

definition IsNamespaceExcluded :: "Process \<Rightarrow> MetaObject \<Rightarrow> Excluder \<Rightarrow> ExcluderErr + bool" where
  "IsNamespaceExcluded process obj s =
     (let boolMap = (case mget s process of None \<Rightarrow> [] | Some m \<Rightarrow> m) in
      case ro_Meta obj of
        None \<Rightarrow> Inl (AccessorErr (ro_GVK obj))
      | Some (name, namespace) \<Rightarrow>
          if gvk_Kind (ro_GVK obj) = ''Namespace'' \<and> gvk_Group (ro_GVK obj) = []
          then Inr (exactOrPrefixMatch boolMap name)
          else Inr (exactOrPrefixMatch boolMap namespace))"

section \<open>The patterns of a process\<close>

definition patterns :: "Excluder \<Rightarrow> Process \<Rightarrow> PrefixWildcard set" where
  "patterns s p = (case mget s p of None \<Rightarrow> {} | Some m \<Rightarrow> fst ` set m)"

definition excluder_wf :: "Excluder \<Rightarrow> bool" where
  "excluder_wf s \<longleftrightarrow> mwf s \<and>
     (\<forall>p m. mget s p = Some m \<longrightarrow> mwf m \<and> m \<noteq> [] \<and> (\<forall>k. mget m k \<noteq> Some False))"

lemma patterns_New [simp]: "patterns New_Excluder p = {}"
  by (simp add: patterns_def New_Excluder_def)

lemma excluder_wf_New [simp]: "excluder_wf New_Excluder"
  by (simp add: excluder_wf_def New_Excluder_def)

lemma patterns_exclude [simp]:
  "patterns (exclude p ns s) q = patterns s q \<union> (if q = p then {ns} else {})"
  by (auto simp: patterns_def exclude_def split: option.splits)

lemma excluder_wf_exclude: "excluder_wf s \<Longrightarrow> excluder_wf (exclude p ns s)"
  unfolding excluder_wf_def exclude_def
  by (cases "mget s p") (auto simp: mwf_Cons split: if_splits)

text \<open>The processes that an entry's operation stands for.\<close>

definition stands_for :: "string \<Rightarrow> Process set" where
  "stands_for op = (if op = process_Star then set allProcesses else {op})"

lemma patterns_fold_exclude:
  "patterns (fold (\<lambda>p. exclude p ns) ps s) q = patterns s q \<union> (if q \<in> set ps then {ns} else {})"
  by (induction ps arbitrary: s) auto

lemma patterns_exclude_op [simp]:
  "patterns (exclude_op ns op s) q = patterns s q \<union> (if q \<in> stands_for op then {ns} else {})"
  by (auto simp: exclude_op_def stands_for_def patterns_fold_exclude)

lemma fold_wf: "(\<And>x s. excluder_wf s \<Longrightarrow> excluder_wf (f x s)) \<Longrightarrow> excluder_wf s \<Longrightarrow> excluder_wf (fold f xs s)"
  by (induction xs arbitrary: s) auto

lemma excluder_wf_exclude_op: "excluder_wf s \<Longrightarrow> excluder_wf (exclude_op ns op s)"
  by (auto simp: exclude_op_def intro!: fold_wf excluder_wf_exclude)

lemma excluder_wf_Add: "excluder_wf s \<Longrightarrow> excluder_wf (Excluder_Add entries s)"
  unfolding Excluder_Add_def by (intro fold_wf excluder_wf_exclude_op)

text \<open>A fold over a list whose steps each add a set of patterns.\<close>

lemma patterns_fold:
  assumes "\<And>x s. patterns (f x s) q = patterns s q \<union> A x"
  shows "patterns (fold f xs s) q = patterns s q \<union> (\<Union>x \<in> set xs. A x)"
  by (induction xs arbitrary: s) (auto simp: assms)

definition entry_patterns :: "MatchEntry \<Rightarrow> Process \<Rightarrow> PrefixWildcard set" where
  "entry_patterns e p =
     (if \<exists>op \<in> set (me_Processes e). p \<in> stands_for op then set (me_ExcludedNamespaces e) else {})"

lemma patterns_Add:
  "patterns (Excluder_Add entries s) p = patterns s p \<union> (\<Union>e \<in> set entries. entry_patterns e p)"
proof -
  have ops: "patterns (fold (exclude_op ns) ops s) p =
      patterns s p \<union> (\<Union>op \<in> set ops. if p \<in> stands_for op then {ns} else {})" for ns ops s
    by (rule patterns_fold) simp
  have nss: "patterns (fold (\<lambda>ns. fold (exclude_op ns) ops) nss s) p =
      patterns s p \<union> (\<Union>ns \<in> set nss. \<Union>op \<in> set ops. if p \<in> stands_for op then {ns} else {})" for ops nss s
    by (rule patterns_fold) (rule ops)
  have "patterns (Excluder_Add entries s) p = patterns s p \<union> (\<Union>e \<in> set entries.
      \<Union>ns \<in> set (me_ExcludedNamespaces e). \<Union>op \<in> set (me_Processes e). if p \<in> stands_for op then {ns} else {})"
    unfolding Excluder_Add_def by (rule patterns_fold) (rule nss)
  moreover have "(\<Union>ns \<in> set (me_ExcludedNamespaces e). \<Union>op \<in> set (me_Processes e).
      if p \<in> stands_for op then {ns} else {}) = entry_patterns e p" for e
    by (auto simp: entry_patterns_def split: if_splits)
  ultimately show ?thesis by simp
qed

lemma exactOrPrefixMatch_patterns:
  "exactOrPrefixMatch (case mget s p of None \<Rightarrow> [] | Some m \<Rightarrow> m) ns \<longleftrightarrow>
    (\<exists>k \<in> patterns s p. Wildcard_Matches k ns)"
  by (force simp: exactOrPrefixMatch_def patterns_def mkeys_def list_ex_iff split: option.split)

text \<open>The namespace an object counts for: its own name when it is a namespace.\<close>

definition effective_namespace :: "MetaObject \<Rightarrow> string" where
  "effective_namespace obj =
     (case ro_Meta obj of
        None \<Rightarrow> []
      | Some (name, namespace) \<Rightarrow>
          if gvk_Kind (ro_GVK obj) = ''Namespace'' \<and> gvk_Group (ro_GVK obj) = [] then name else namespace)"

lemma IsNamespaceExcluded_eq:
  "IsNamespaceExcluded p obj s =
    (if ro_Meta obj = None then Inl (AccessorErr (ro_GVK obj))
     else Inr (\<exists>k \<in> patterns s p. Wildcard_Matches k (effective_namespace obj)))"
  unfolding IsNamespaceExcluded_def Let_def exactOrPrefixMatch_patterns
  by (cases "ro_Meta obj") (auto simp: effective_namespace_def)

lemma excluder_wfD:
  "excluder_wf s \<Longrightarrow> mget s p = Some m \<Longrightarrow> mwf m \<and> m \<noteq> [] \<and> (\<forall>k. mget m k \<noteq> Some False)"
  unfolding excluder_wf_def by blast

text \<open>Two excluders are equal for the code exactly when every process has the same
  patterns.\<close>

lemma mget_True_eq:
  assumes "mwf m" "mwf n" "\<And>k. mget m k \<noteq> Some False" "\<And>k. mget n k \<noteq> Some False"
    and "fst ` set m = fst ` set n"
  shows "m = n"
proof (rule mwf_ext [OF assms(1,2)], rule ext)
  fix k
  have "mget m k = None \<longleftrightarrow> mget n k = None" by (simp add: mget_None_iff assms(5))
  then show "mget m k = mget n k"
    using assms(3) [of k] assms(4) [of k] by (cases "mget m k"; cases "mget n k") auto
qed

lemma Excluder_Equals_iff:
  assumes "excluder_wf s" and "excluder_wf t"
  shows "Excluder_Equals s t \<longleftrightarrow> (\<forall>p. patterns s p = patterns t p)"
proof
  assume eq: "\<forall>p. patterns s p = patterns t p"
  have "mget s p = mget t p" for p
  proof -
    have "(case mget s p of None \<Rightarrow> {} | Some m \<Rightarrow> fst ` set m) = (case mget t p of None \<Rightarrow> {} | Some m \<Rightarrow> fst ` set m)"
      using eq by (simp add: patterns_def)
    then show ?thesis
      using excluder_wfD [OF assms(1), of p] excluder_wfD [OF assms(2), of p]
      by (cases "mget s p"; cases "mget t p") (auto intro!: mget_True_eq)
  qed
  then show "Excluder_Equals s t"
    using assms mwf_ext [of s t] by (auto simp: Excluder_Equals_def excluder_wf_def)
qed (simp add: Excluder_Equals_def)

text \<open>The wildcard process leaves out the mutation webhook.\<close>

lemma star_not_mutation: "process_Mutation \<notin> stands_for process_Star"
  by (simp add: stands_for_def allProcesses_def process_defs)

end
