(* ===== verification/Support_Properties.thy ===== *)
theory Support_Properties
  imports Operations Excluder
begin

text \<open>
  The properties of the shared helpers: packed reconcile requests, names of status
  resources, the operations of a pod and the process excluder.
\<close>

section \<open>Packing and unpacking\<close>

text \<open>A request packed for an object unpacks to the object's kind (with version v1 when it
  has none), namespace and name, provided the kind and version contain no dot or colon and the
  group no colon; and whatever unpacks was packed: its name is the text of the kind and
  name it unpacks to, in the same namespace.\<close>

theorem request_roundtrip:
  assumes "packable (co_GVK ob)"
  shows "map UnpackRequest (EventPackerMapFunc (Some ob)) =
      [Inr (default_version (co_GVK ob), \<lparr>req_Namespace = co_Namespace ob, req_Name = co_Name ob\<rparr>)] \<and>
    (\<forall>r gvk r'. UnpackRequest r = Inr (gvk, r') \<longrightarrow> req_Namespace r' = req_Namespace r \<and>
      req_Name r = ''gvk:'' @ gvk_Kind gvk @ ''.'' @ gvk_Version gvk @ ''.'' @ gvk_Group gvk @ '':'' @ req_Name r')"
  using Unpack_EventPacker [OF assms] UnpackRequest_Inr by blast

theorem request_roundtrip_witness:
  "map UnpackRequest (EventPackerMapFunc (Some
      \<lparr>co_GVK = GVK ''rbac.authorization.k8s.io'' [] ''Role'', co_Namespace = ''n'', co_Name = ''system:admin''\<rparr>)) =
    [Inr (GVK ''rbac.authorization.k8s.io'' ''v1'' ''Role'',
      \<lparr>req_Namespace = ''n'', req_Name = ''system:admin''\<rparr>)]"
  using request_roundtrip [of "\<lparr>co_GVK = GVK ''rbac.authorization.k8s.io'' [] ''Role'', co_Namespace = ''n'',
      co_Name = ''system:admin''\<rparr>"]
  by (simp add: packable_def default_version_def)

text \<open>The name of a status resource determines what it was made of: the packer is
  injective, it fails exactly on an empty list, an empty string or a string with a dash at
  an end, and the extractor gives the strings back when they are valid UTF-8.\<close>

theorem status_name_roundtrip:
  assumes "dashPacker vals = Inr s"
  shows "vals \<noteq> [] \<and> list_all dashable vals \<and> (\<forall>ws. dashPacker ws = Inr s \<longrightarrow> ws = vals) \<and>
    (list_all valid_utf8 vals \<longrightarrow> dashExtractor s = vals) \<and>
    (\<forall>ws. ws \<noteq> [] \<and> list_all dashable ws \<longrightarrow> (\<exists>t. dashPacker ws = Inr t))"
  using assms dashPacker_inj [of _ s vals] dashExtractor_Packer [OF assms] dashPacker_Inr by auto

theorem status_name_roundtrip_witness:
  "dashPacker [''pod-1'', ''k8srequiredlabels'', ''a--b''] = Inr ''pod--1-k8srequiredlabels-a----b'' \<and>
    dashExtractor ''pod--1-k8srequiredlabels-a----b'' = [''pod-1'', ''k8srequiredlabels'', ''a--b'']"
proof -
  have p: "dashPacker [''pod-1'', ''k8srequiredlabels'', ''a--b''] = Inr ''pod--1-k8srequiredlabels-a----b''"
    by code_simp
  have "list_all valid_utf8 [''pod-1'', ''k8srequiredlabels'', ''a--b'']" by code_simp
  with status_name_roundtrip [OF p] p show ?thesis by blast
qed

text \<open>The keys of two constraints on two pods are equal only for the same pod, the same
  lower-case kind and the same name.\<close>

lemma KeyForConstraint_inj:
  assumes "KeyForConstraint env i c = Inr s" and "KeyForConstraint env j d = Inr s"
  shows "i = j \<and> GetName c = GetName d \<and>
    se_ToLower env (gvk_Kind (GroupVersionKind c)) = se_ToLower env (gvk_Kind (GroupVersionKind d))"
  using dashPacker_inj assms unfolding KeyForConstraint_def Let_def by blast

section \<open>Operations\<close>

fun set_operations :: "string list \<Rightarrow> opSet \<Rightarrow> opSet \<times> string option list" where
  "set_operations [] l = (l, [])"
| "set_operations (s # ss) l =
     (let (l', e) = opSet_Set s l; (l'', es) = set_operations ss l' in (l'', e # es))"

lemma set_operations_spec:
  assumes "op_inv l" and "set_operations ss l = (l', es)"
  shows "op_inv l' \<and> assignedStringList l' = assignedStringList l \<and>
    es = map (\<lambda>s. find (\<lambda>v. v \<notin> set allOperations) (Split s (CHR '',''))) ss \<and>
    (\<forall>op. IsAssigned op l' \<longleftrightarrow>
       (if ss = [] \<or> initialized l then IsAssigned op l else False) \<or>
       (\<exists>s \<in> set ss. op \<in> valid_upto (Split s (CHR '','')) (find (\<lambda>v. v \<notin> set allOperations) (Split s (CHR '','')))))"
  using assms
proof (induction ss arbitrary: l l' es)
  case (Cons s ss)
  obtain l1 e where 1: "opSet_Set s l = (l1, e)" by (cases "opSet_Set s l")
  obtain l2 es2 where 2: "set_operations ss l1 = (l2, es2)" by (cases "set_operations ss l1")
  have eq: "l' = l2" "es = e # es2" using Cons.prems(2) 1 2 by simp_all
  note A = opSet_Set_spec [OF Cons.prems(1) 1]
  then have "op_inv l1" by blast
  note B = Cons.IH [OF this 2]
  show ?case using A B unfolding eq by (cases "ss = []") auto
qed simp

text \<open>After any number of \<open>--operation\<close> flags a pod has exactly the operations named by
  them, all operations when there is none; a flag with an unknown operation answers an error
  that names it and only counts up to it; and the serialized list is sorted and lists exactly
  the assigned operations.\<close>

theorem assigned_operations:
  assumes "set_operations ss newOperationSet = (l, es)"
  shows "es = map (\<lambda>s. find (\<lambda>v. v \<notin> set allOperations) (Split s (CHR '',''))) ss \<and>
    (\<forall>op. IsAssigned op l \<longleftrightarrow>
       (if ss = [] then op \<in> set allOperations
        else \<exists>s \<in> set ss. op \<in> valid_upto (Split s (CHR '','')) (find (\<lambda>v. v \<notin> set allOperations) (Split s (CHR '','')))))
    \<and> sorted (fst (AssignedStringList l)) \<and> distinct (fst (AssignedStringList l)) \<and>
    set (fst (AssignedStringList l)) = {op. IsAssigned op l}"
proof -
  note S = set_operations_spec [OF op_inv_new assms]
  have none: "assignedStringList l = None" using S by (simp add: newOperationSet_def Let_def)
  have wf: "mwf (assignedOperations l)" using S by (simp add: op_inv_def ops_ok_def)
  have "fst (AssignedStringList l) = mkeys (assignedOperations l)"
    using sorted_mkeys [OF wf] by (simp add: AssignedStringList_def none Let_def)
  then have "sorted (fst (AssignedStringList l)) \<and> distinct (fst (AssignedStringList l)) \<and>
      set (fst (AssignedStringList l)) = {op. IsAssigned op l}"
    using wf set_mkeys_op [of l] S by (simp add: mwf_def mkeys_def strict_sorted_iff)
  moreover have "IsAssigned op newOperationSet \<longleftrightarrow> op \<in> set allOperations" for op
    using mbool_valid [of op] by (simp add: IsAssigned_def newOperationSet_def Let_def)
  moreover have "\<not> initialized newOperationSet" by (simp add: newOperationSet_def Let_def)
  ultimately show ?thesis using S by (cases "ss = []") auto
qed

theorem assigned_operations_witness:
  "fst (AssignedStringList (fst (set_operations [''webhook'', ''audit,status''] newOperationSet)))
    = [''audit'', ''status'', ''webhook''] \<and>
   snd (set_operations [''webhook'', ''audit,status''] newOperationSet) = [None, None]"
proof -
  obtain l es where s: "set_operations [''webhook'', ''audit,status''] newOperationSet = (l, es)"
    by (cases "set_operations [''webhook'', ''audit,status''] newOperationSet")
  have "es = map (\<lambda>s. find (\<lambda>v. v \<notin> set allOperations) (Split s (CHR '',''))) [''webhook'', ''audit,status'']"
    using assigned_operations [OF s] by blast
  also have "\<dots> = [None, None]" by code_simp
  finally have "es = [None, None]" .
  moreover have "fst (AssignedStringList (fst (set_operations [''webhook'', ''audit,status''] newOperationSet)))
    = [''audit'', ''status'', ''webhook'']" by code_simp
  ultimately show ?thesis using s by simp
qed

text \<open>The list is cached: operations that are set after the first call are not in it.\<close>

lemma AssignedStringList_stale:
  "let l = snd (AssignedStringList (fst (opSet_Set ''audit'' newOperationSet)));
       l' = fst (opSet_Set ''webhook'' l)
   in IsAssigned ''webhook'' l' \<and> fst (AssignedStringList l') = [''audit'']"
  by code_simp

section \<open>The process excluder\<close>

text \<open>After \<open>Add\<close>, an object is excluded from a process exactly when it already was or
  an added entry names the process (or \<open>*\<close>, for the audit, webhook and sync processes)
  together with a pattern that matches the object's namespace, its own name for a namespace;
  and an excluder equals the one built from the entries alone exactly when both exclude with
  the same patterns.\<close>

theorem excluder_exact:
  assumes "excluder_wf s"
  shows "excluder_wf (Excluder_Add entries s) \<and>
    (\<forall>p obj. IsNamespaceExcluded p obj (Excluder_Add entries s) =
      (if ro_Meta obj = None then Inl (AccessorErr (ro_GVK obj))
       else Inr ((\<exists>k \<in> patterns s p. Wildcard_Matches k (effective_namespace obj)) \<or>
         (\<exists>e \<in> set entries. \<exists>op \<in> set (me_Processes e). \<exists>k \<in> set (me_ExcludedNamespaces e).
            (op = p \<and> op \<noteq> ''*'' \<or> op = ''*'' \<and> p \<in> {''audit'', ''webhook'', ''sync''}) \<and>
            Wildcard_Matches k (effective_namespace obj))))) \<and>
    (Excluder_Equals s (Excluder_Add entries New_Excluder) \<longleftrightarrow>
      (\<forall>p. patterns s p = (\<Union>e \<in> set entries. entry_patterns e p)))"
proof -
  have op: "p \<in> stands_for op \<longleftrightarrow> op = p \<and> op \<noteq> ''*'' \<or> op = ''*'' \<and> p \<in> {''audit'', ''webhook'', ''sync''}" for p op
    by (auto simp: stands_for_def allProcesses_def process_defs)
  have "(\<exists>k \<in> patterns (Excluder_Add entries s) p. P k) \<longleftrightarrow> (\<exists>k \<in> patterns s p. P k) \<or>
      (\<exists>e \<in> set entries. \<exists>op \<in> set (me_Processes e). \<exists>k \<in> set (me_ExcludedNamespaces e). p \<in> stands_for op \<and> P k)"
    for p P
    unfolding patterns_Add entry_patterns_def by auto
  then show ?thesis
    using assms Excluder_Equals_iff [OF assms excluder_wf_Add [OF excluder_wf_New]] excluder_wf_Add [OF assms]
    unfolding IsNamespaceExcluded_eq by (simp add: op patterns_Add)
qed

definition ex_entries :: "MatchEntry list" where
  "ex_entries = [\<lparr>me_Processes = [''*''], me_ExcludedNamespaces = [''kube-*'']\<rparr>,
     \<lparr>me_Processes = [''audit''], me_ExcludedNamespaces = [''dev'']\<rparr>]"

definition ex_pod_in :: "string \<Rightarrow> object" where
  "ex_pod_in ns = [(''apiVersion'', VString ''v1''), (''kind'', VString ''Pod''),
     (''metadata'', VMap [(''name'', VString ''p''), (''namespace'', VString ns)])]"

theorem excluder_exact_witness:
  "IsNamespaceExcluded ''sync'' (runtime_object (ex_pod_in ''kube-system'')) (Excluder_Add ex_entries New_Excluder) = Inr True \<and>
   IsNamespaceExcluded ''mutation-webhook'' (runtime_object (ex_pod_in ''kube-system'')) (Excluder_Add ex_entries New_Excluder) = Inr False"
proof -
  note E = excluder_exact [OF excluder_wf_New, of ex_entries]
  have ns: "effective_namespace (runtime_object (ex_pod_in ''kube-system'')) = ''kube-system''" by code_simp
  have m: "ro_Meta (runtime_object (ex_pod_in ''kube-system'')) \<noteq> None" by code_simp
  have k: "Wildcard_Matches ''kube-*'' ''kube-system''" by code_simp
  from E m ns k show ?thesis by (simp add: ex_entries_def)
qed

end
