(* ===== verification/Webhook.thy ===== *)
theory Webhook
  imports Mutation_System Excluder
begin

text \<open>
  The admission webhooks (\<open>pkg/webhook\<close>): the validating handler of \<open>policy.go\<close>, the
  mutating handler of \<open>mutation.go\<close>, the namespace-label handler of \<open>namespacelabel.go\<close>
  and what they share in \<open>common.go\<close>. A handler is a function of an environment and a
  request. The environment holds the flags, the process excluder and, as functions, what is
  not Gatekeeper's own code: the decoders and the JSON patch library, the API server's
  client, and the OPA client. A panic of a handler is \<open>Panics\<close>.
\<close>

section \<open>Requests and responses of the admission protocol\<close>

type_synonym raw = "string option"

record AdmissionRequest =
  rq_Kind :: GVK
  rq_Name :: string
  rq_Namespace :: string
  rq_Operation :: string
  rq_Username :: string
  rq_Object :: raw
  rq_OldObject :: raw

text \<open>The errors that end up in the reason or message of a response.\<close>

datatype WebErr =
    Text string
  | ActionErr EnforcementErr
  | AssignInvalid AssignErr
  | SystemErr SysErr
  | ExclusionErr ExcluderErr
  | AccessorError string

record Status =
  st_Code :: int
  st_Reason :: WebErr
  st_Message :: WebErr

datatype JsonPatchOperation = JsonPatch string string val

record Response =
  resp_Allowed :: bool
  resp_Result :: "Status option"
  resp_Warnings :: "string list"
  resp_Patches :: "JsonPatchOperation list"

datatype 'a outcome = Panics | Returns 'a

text \<open>The constructors of controller-runtime; the empty reason is \<open>Text []\<close>.\<close>

definition ValidationResponse :: "bool \<Rightarrow> WebErr \<Rightarrow> Response" where
  "ValidationResponse allowed reason =
     \<lparr>resp_Allowed = allowed,
      resp_Result = Some \<lparr>st_Code = (if allowed then 200 else 403), st_Reason = reason, st_Message = Text []\<rparr>,
      resp_Warnings = [], resp_Patches = []\<rparr>"

definition Errored :: "int \<Rightarrow> WebErr \<Rightarrow> Response" where
  "Errored code err =
     \<lparr>resp_Allowed = False,
      resp_Result = Some \<lparr>st_Code = code, st_Reason = Text [], st_Message = err\<rparr>,
      resp_Warnings = [], resp_Patches = []\<rparr>"

definition PatchResponse :: "JsonPatchOperation list \<Rightarrow> Response" where
  "PatchResponse patches =
     \<lparr>resp_Allowed = True, resp_Result = None, resp_Warnings = [], resp_Patches = patches\<rparr>"

text \<open>\<open>vResp.Result.Code = code\<close>, after a status was made for a response without one.\<close>

definition with_code :: "int \<Rightarrow> Response \<Rightarrow> Response" where
  "with_code code r =
     r\<lparr>resp_Result := Some (case resp_Result r of
         None \<Rightarrow> \<lparr>st_Code = code, st_Reason = Text [], st_Message = Text []\<rparr>
       | Some s \<Rightarrow> s\<lparr>st_Code := code\<rparr>)\<rparr>"

section \<open>The environment\<close>

datatype requestResponse =
  successResponse | errorResponse | denyResponse | allowResponse | unknownResponse | skipResponse

datatype GetErr = IsNotFound string | GetFailed string

record AugmentedReview =
  ar_Request :: AdmissionRequest
  ar_Namespace :: "NamespaceObj option"

record Violation =
  vi_Msg :: string
  vi_EnforcementAction :: EnforcementAction
  vi_Constraint :: object

text \<open>The client of the API server: \<open>Get\<close> of the config and of a namespace.\<close>

record Client =
  cl_GetConfig :: "ConfigSpec \<times> string option"
  cl_GetNamespace :: "string \<Rightarrow> GetErr + NamespaceObj"

text \<open>\<open>dec_Template\<close> decodes to some runtime object; the typed decoders answer \<open>None\<close>
  when the decoded object is of another type. \<open>we_slot\<close> is the outcome of the \<open>select\<close> on
  the semaphore: a slot, or a cancelled context.\<close>

record ('o, 't) webhookEnv =
  serviceaccount :: string
  disableEnforcementActionValidation :: bool
  logDenies :: bool
  emitAdmissionEvents :: bool
  injectedConfig :: "ConfigSpec option"
  we_client :: "Client option"
  we_reader :: "string \<Rightarrow> GetErr + NamespaceObj"
  processExcluder :: Excluder
  gkNamespace :: string
  we_semaphore :: bool
  we_slot :: bool
  dec_Unstructured :: "raw \<Rightarrow> string + object"
  dec_Template :: "raw \<Rightarrow> string + 'o"
  dec_AssignMetadata :: "raw \<Rightarrow> string + AssignMetadata option"
  dec_Assign :: "raw \<Rightarrow> string + Assign option"
  dec_Namespace :: "raw \<Rightarrow> string + NamespaceObj option"
  UnmarshalJSON :: "raw \<Rightarrow> string + object"
  MarshalJSON :: "object \<Rightarrow> string + string"
  CreatePatch :: "raw \<Rightarrow> string \<Rightarrow> string + JsonPatchOperation list"
  scheme_Convert :: "'o \<Rightarrow> string + 't"
  opa_CreateCRD :: "'t \<Rightarrow> string option"
  opa_ValidateConstraint :: "object \<Rightarrow> string option"
  opa_Review :: "AugmentedReview \<Rightarrow> bool \<Rightarrow> Violation list \<times> string option"

section \<open>What the handlers share (common.go)\<close>

definition mutationsGroup :: string where
  "mutationsGroup = ''mutations.gatekeeper.sh''"

definition namespaceKind :: string where
  "namespaceKind = ''Namespace''"

definition isGkServiceAccount :: "('o, 't) webhookEnv \<Rightarrow> AdmissionRequest \<Rightarrow> bool" where
  "isGkServiceAccount h req \<longleftrightarrow> rq_Username req = serviceaccount h"

text \<open>The config is the nil pointer \<open>None\<close> when there is no client to ask.\<close>

definition getConfig :: "('o, 't) webhookEnv \<Rightarrow> ConfigSpec option \<times> string option" where
  "getConfig h =
     (case injectedConfig h of
        Some cfg \<Rightarrow> (Some cfg, None)
      | None \<Rightarrow>
          (case we_client h of
             None \<Rightarrow> (None, Some ''no client available to retrieve validation config'')
           | Some c \<Rightarrow> (Some (fst (cl_GetConfig c)), snd (cl_GetConfig c))))"

definition isGatekeeperResource :: "AdmissionRequest \<Rightarrow> bool" where
  "isGatekeeperResource req =
     (if gvk_Group (rq_Kind req) = ''templates.gatekeeper.sh'' \<or>
         gvk_Group (rq_Kind req) = ''constraints.gatekeeper.sh'' \<or>
         gvk_Group (rq_Kind req) = mutationsGroup \<or>
         gvk_Group (rq_Kind req) = ''config.gatekeeper.sh'' \<or>
         gvk_Group (rq_Kind req) = ''status.gatekeeper.sh'' then True else False)"

text \<open>\<open>strings.EqualFold\<close> with an ASCII string none of whose letters folds to a rune beyond
  ASCII, as is the case of \<open>All\<close>.\<close>

definition lower :: "char \<Rightarrow> nat" where
  "lower c = (if 65 \<le> byte c \<and> byte c \<le> 90 then byte c + 32 else byte c)"

definition EqualFold :: "string \<Rightarrow> string \<Rightarrow> bool" where
  "EqualFold s t \<longleftrightarrow> map lower s = map lower t"

fun trace_loop :: "AdmissionRequest \<Rightarrow> Trace list \<Rightarrow> bool \<Rightarrow> bool \<Rightarrow> bool \<times> bool" where
  "trace_loop req [] traceEnabled dump = (traceEnabled, dump)"
| "trace_loop req (trace # traces) traceEnabled dump =
     (if tr_User trace \<noteq> rq_Username req then trace_loop req traces traceEnabled dump
      else if rq_Kind req = tr_Kind trace then
        trace_loop req traces True (if EqualFold (tr_Dump trace) ''All'' then True else dump)
      else trace_loop req traces traceEnabled dump)"

text \<open>The error of \<open>getConfig\<close> is dropped, and the nil config is dereferenced.\<close>

definition tracingLevel :: "('o, 't) webhookEnv \<Rightarrow> AdmissionRequest \<Rightarrow> (bool \<times> bool) outcome" where
  "tracingLevel h req =
     (case fst (getConfig h) of
        None \<Rightarrow> Panics
      | Some cfg \<Rightarrow> Returns (trace_loop req (cs_Traces cfg) False False))"

definition skipExcludedNamespace ::
    "('o, 't) webhookEnv \<Rightarrow> AdmissionRequest \<Rightarrow> Process \<Rightarrow> bool \<times> WebErr option" where
  "skipExcludedNamespace h req excludedProcess =
     (case dec_Unstructured h (rq_Object req) of
        Inl err \<Rightarrow> (False, Some (Text err))
      | Inr obj \<Rightarrow>
          (case IsNamespaceExcluded excludedProcess (runtime_object obj) (processExcluder h) of
             Inl err \<Rightarrow> (False, Some (ExclusionErr err))
           | Inr isNamespaceExcluded \<Rightarrow> (isNamespaceExcluded, None)))"

section \<open>The namespace-label webhook (namespacelabel.go)\<close>

definition ignoreLabel :: string where
  "ignoreLabel = ''admission.gatekeeper.sh/ignore''"

definition matchesPrefix :: "FlagSet \<Rightarrow> string \<Rightarrow> bool" where
  "matchesPrefix exemptNamespacePrefix s \<longleftrightarrow> list_ex (\<lambda>p. HasPrefix s p) (mkeys exemptNamespacePrefix)"

definition label_Handle ::
    "FlagSet \<Rightarrow> FlagSet \<Rightarrow> (raw \<Rightarrow> string + object) \<Rightarrow> AdmissionRequest \<Rightarrow> Response" where
  "label_Handle exemptNamespace exemptNamespacePrefix unmarshal req =
     (if rq_Operation req = ''DELETE'' then ValidationResponse True (Text ''Delete is always allowed'')
      else if gvk_Group (rq_Kind req) \<noteq> [] \<or> gvk_Kind (rq_Kind req) \<noteq> namespaceKind
      then ValidationResponse True (Text ''Not a namespace'')
      else (case unmarshal (rq_Object req) of
        Inl err \<Rightarrow> with_code 500 (ValidationResponse False (Text (''while deserializing resource: '' @ err)))
      | Inr obj \<Rightarrow>
          if mbool exemptNamespace (GetName obj) \<or> matchesPrefix exemptNamespacePrefix (GetName obj)
          then ValidationResponse True
            (Text (''Namespace '' @ GetName obj @ '' is allowed to set '' @ ignoreLabel))
          else if list_ex (\<lambda>(label, v). label = ignoreLabel) (GetLabels obj)
          then ValidationResponse False
            (Text (''Only exempt namespace can have the '' @ ignoreLabel @ '' label''))
          else ValidationResponse True
            (Text (''Namespace is not setting the '' @ ignoreLabel @ '' label''))))"

section \<open>The mutating webhook (mutation.go)\<close>

text \<open>The first part of \<open>mutateRequest\<close>: the namespace that the mutators see, or the
  response of a failure. The request's own namespace field is not read any more.\<close>

definition request_namespace ::
    "('o, 't) webhookEnv \<Rightarrow> AdmissionRequest \<Rightarrow> (Response + NamespaceObj option) outcome" where
  "request_namespace h req =
     (if gvk_Kind (rq_Kind req) = namespaceKind \<and> gvk_Group (rq_Kind req) = [] then
        Returns (case dec_Namespace h (rq_Object req) of
           Inl err \<Rightarrow> Inl (Errored 500 (Text err))
         | Inr None \<Rightarrow> Inl (Errored 500 (Text ''failed to cast namespace object''))
         | Inr (Some ns) \<Rightarrow> Inr (Some ns))
      else if rq_Namespace req \<noteq> [] then
        (case we_client h of
           None \<Rightarrow> Panics
         | Some c \<Rightarrow>
             Returns (case cl_GetNamespace c (rq_Namespace req) of
                Inr ns \<Rightarrow> Inr (Some ns)
              | Inl (GetFailed err) \<Rightarrow> Inl (Errored 500 (Text err))
              | Inl (IsNotFound _) \<Rightarrow>
                  (case we_reader h (rq_Namespace req) of
                     Inr ns \<Rightarrow> Inr (Some ns)
                   | Inl (IsNotFound err) \<Rightarrow> Inl (Errored 500 (Text err))
                   | Inl (GetFailed err) \<Rightarrow> Inl (Errored 500 (Text err)))))
      else Returns (Inr None))"

definition mutateRequest ::
    "('o, 't) webhookEnv \<Rightarrow> MutationFlags \<Rightarrow> selectors \<Rightarrow> val \<Rightarrow> System \<Rightarrow> AdmissionRequest \<Rightarrow> Response outcome" where
  "mutateRequest h fl sel uuid mutationSystem req =
     (case request_namespace h req of
        Panics \<Rightarrow> Panics
      | Returns (Inl r) \<Rightarrow> Returns r
      | Returns (Inr ns) \<Rightarrow>
          (case UnmarshalJSON h (rq_Object req) of
             Inl err \<Rightarrow> Returns (Errored 500 (Text err))
           | Inr obj \<Rightarrow>
               (case System_Mutate fl sel uuid mutationSystem obj ns of
                  (obj', Inl err) \<Rightarrow> Returns (Errored 500 (SystemErr err))
                | (obj', Inr False) \<Rightarrow> Returns (ValidationResponse True (Text ''Resource was not mutated''))
                | (obj', Inr True) \<Rightarrow>
                    (case MarshalJSON h obj' of
                       Inl err \<Rightarrow> Returns (Errored 500 (Text err))
                     | Inr newJSON \<Rightarrow>
                         (case CreatePatch h (rq_Object req) newJSON of
                            Inl err \<Rightarrow> Returns (Errored 500 (Text err))
                          | Inr patches \<Rightarrow> Returns (PatchResponse patches))))))"

text \<open>The response, and what is reported to the metrics when the reporter is reached. The
  error of \<open>mutateRequest\<close> is always nil, so the error branch of \<open>Handle\<close> is dead.\<close>

definition mutation_Handle ::
    "('o, 't) webhookEnv \<Rightarrow> MutationFlags \<Rightarrow> selectors \<Rightarrow> val \<Rightarrow> System \<Rightarrow> AdmissionRequest
     \<Rightarrow> Response outcome \<times> requestResponse option" where
  "mutation_Handle h fl sel uuid mutationSystem req =
     (if isGkServiceAccount h req
      then (Returns (ValidationResponse True (Text ''Gatekeeper does not self-manage'')), None)
      else if rq_Operation req \<noteq> ''CREATE'' \<and> rq_Operation req \<noteq> ''UPDATE''
      then (Returns (ValidationResponse True (Text ''Mutating only on create or update'')), None)
      else if isGatekeeperResource req
      then (Returns (ValidationResponse True (Text ''Not mutating gatekeeper resources'')), None)
      else if fst (skipExcludedNamespace h req process_Mutation)
      then (Returns (ValidationResponse True (Text ''Namespace is set to be ignored by Gatekeeper config'')),
            Some skipResponse)
      else (case mutateRequest h fl sel uuid mutationSystem req of
              Panics \<Rightarrow> (Panics, Some unknownResponse)
            | Returns resp \<Rightarrow> (Returns resp, Some successResponse)))"

text \<open>\<open>AddMutatingWebhook\<close> registers the handler, and \<open>AppendMutationWebhookIfEnabled\<close>
  lists the webhook for certificate rotation, only when mutation is enabled.\<close>

definition MwhName :: string where
  "MwhName = ''gatekeeper-mutating-webhook-configuration''"

definition AppendMutationWebhookIfEnabled :: "bool \<Rightarrow> (string \<times> string) list \<Rightarrow> (string \<times> string) list" where
  "AppendMutationWebhookIfEnabled mutationEnabled webhooks =
     (if mutationEnabled then webhooks @ [(MwhName, ''Mutating'')] else webhooks)"

end
