(* ===== verification/Validation_Webhook.thy ===== *)
theory Validation_Webhook
  imports Webhook
begin

text \<open>
  The validating admission webhook (\<open>pkg/webhook/policy.go\<close>): the checks of Gatekeeper's
  own resources, the review of a request by the OPA client, the messages, log entries and
  events made of its violations, and the response.
\<close>

section \<open>Gatekeeper's own resources\<close>

text \<open>Each check answers whether an error is the user's, and the error.\<close>

definition validateTemplate :: "('o, 't) webhookEnv \<Rightarrow> AdmissionRequest \<Rightarrow> bool \<times> WebErr option" where
  "validateTemplate h req =
     (case dec_Template h (rq_Object req) of
        Inl err \<Rightarrow> (False, Some (Text err))
      | Inr templ \<Rightarrow>
          (case scheme_Convert h templ of
             Inl err \<Rightarrow> (False, Some (Text err))
           | Inr unversioned \<Rightarrow>
               (case opa_CreateCRD h unversioned of
                  Some err \<Rightarrow> (True, Some (Text err))
                | None \<Rightarrow> (False, None))))"

definition validateConstraint :: "('o, 't) webhookEnv \<Rightarrow> AdmissionRequest \<Rightarrow> bool \<times> WebErr option" where
  "validateConstraint h req =
     (case dec_Unstructured h (rq_Object req) of
        Inl err \<Rightarrow> (False, Some (Text err))
      | Inr obj \<Rightarrow>
          (case opa_ValidateConstraint h obj of
             Some err \<Rightarrow> (True, Some (Text err))
           | None \<Rightarrow>
               (case NestedString obj [''spec'', ''enforcementAction''] of
                  Inl err \<Rightarrow> (False, Some (AccessorError err))
                | Inr found \<Rightarrow>
                    (let enforcementAction = (case found of None \<Rightarrow> [] | Some a \<Rightarrow> a) in
                     if found \<noteq> None \<and> enforcementAction \<noteq> [] then
                       (if \<not> disableEnforcementActionValidation h then
                          (case ValidateEnforcementAction enforcementAction of
                             Some err \<Rightarrow> (False, Some (ActionErr err))
                           | None \<Rightarrow> (False, None))
                        else (False, None))
                     else (True, None)))))"

definition validateConfigResource :: "AdmissionRequest \<Rightarrow> WebErr option" where
  "validateConfigResource req =
     (if rq_Name req \<noteq> ''config'' then Some (Text (''config resource must have name '' @ [CHR 0x27] @ ''config'' @ [CHR 0x27])) else None)"

definition validateAssignMetadata :: "('o, 't) webhookEnv \<Rightarrow> AdmissionRequest \<Rightarrow> bool \<times> WebErr option" where
  "validateAssignMetadata h req =
     (case dec_AssignMetadata h (rq_Object req) of
        Inl err \<Rightarrow> (False, Some (Text err))
      | Inr None \<Rightarrow> (False, Some (Text ''Deserialized object is not of type AssignMetadata''))
      | Inr (Some assignMetadata) \<Rightarrow>
          (case IsValidAssignMetadata assignMetadata of
             Some err \<Rightarrow> (True, Some (AssignInvalid err))
           | None \<Rightarrow> (False, None)))"

definition validateAssign :: "('o, 't) webhookEnv \<Rightarrow> AdmissionRequest \<Rightarrow> bool \<times> WebErr option" where
  "validateAssign h req =
     (case dec_Assign h (rq_Object req) of
        Inl err \<Rightarrow> (False, Some (Text err))
      | Inr None \<Rightarrow> (False, Some (Text ''Deserialized object is not of type Assign''))
      | Inr (Some assign) \<Rightarrow>
          (case IsValidAssign assign of
             Some err \<Rightarrow> (True, Some (AssignInvalid err))
           | None \<Rightarrow> (False, None)))"

definition validateGatekeeperResources ::
    "('o, 't) webhookEnv \<Rightarrow> AdmissionRequest \<Rightarrow> bool \<times> WebErr option" where
  "validateGatekeeperResources h req =
     (let gvk = rq_Kind req in
      if gvk_Group gvk = ''templates.gatekeeper.sh'' \<and> gvk_Kind gvk = ''ConstraintTemplate''
      then validateTemplate h req
      else if gvk_Group gvk = ''constraints.gatekeeper.sh'' then validateConstraint h req
      else if gvk_Group gvk = ''config.gatekeeper.sh'' \<and> gvk_Kind gvk = ''Config''
      then (case validateConfigResource req of Some err \<Rightarrow> (True, Some err) | None \<Rightarrow> (False, None))
      else if gvk_Group gvk = mutationsGroup \<and> gvk_Kind gvk = ''AssignMetadata''
      then validateAssignMetadata h req
      else if gvk_Group gvk = mutationsGroup \<and> gvk_Kind gvk = ''Assign''
      then validateAssign h req
      else (False, None))"

section \<open>Violations\<close>

record ObjectReference =
  or_Kind :: string
  or_Name :: string
  or_UID :: string
  or_Namespace :: string

record AnnotatedEvent =
  ev_Ref :: ObjectReference
  ev_Annotations :: "(string, string) gomap"
  ev_Reason :: string
  ev_Message :: string

definition getViolationRef ::
    "string \<Rightarrow> string \<Rightarrow> string \<Rightarrow> string \<Rightarrow> string \<Rightarrow> string \<Rightarrow> string \<Rightarrow> ObjectReference" where
  "getViolationRef gkNs rkind rname rnamespace ckind cname cnamespace =
     \<lparr>or_Kind = rkind, or_Name = rname,
      or_UID = rkind @ ''/'' @ rnamespace @ ''/'' @ rname @ ''/'' @ ckind @ ''/'' @ cnamespace @ ''/'' @ cname,
      or_Namespace = gkNs\<rparr>"

text \<open>The keys and values of a log entry, which are also the annotations of an event.\<close>

definition violation_fields :: "AdmissionRequest \<Rightarrow> string \<Rightarrow> Violation \<Rightarrow> (string \<times> string) list" where
  "violation_fields req resourceName r =
     (let c = vi_Constraint r in
      [(''process'', ''admission''),
       (''event_type'', ''violation''),
       (''constraint_name'', GetName c),
       (''constraint_group'', gvk_Group (GroupVersionKind c)),
       (''constraint_api_version'', gvk_Version (GroupVersionKind c)),
       (''constraint_kind'', getNestedString c [''kind'']),
       (''constraint_action'', vi_EnforcementAction r),
       (''resource_group'', gvk_Group (rq_Kind req)),
       (''resource_api_version'', gvk_Version (rq_Kind req)),
       (''resource_kind'', gvk_Kind (rq_Kind req)),
       (''resource_namespace'', rq_Namespace req),
       (''resource_name'', resourceName),
       (''request_username'', rq_Username req)])"

definition event_texts :: "EnforcementAction \<Rightarrow> string \<times> string" where
  "event_texts action =
     (if action = Dryrun then (''Dryrun violation'', ''DryrunViolation'')
      else if action = Warn then
        (''Admission webhook '' @ [CHR 0x22] @ ''validation.gatekeeper.sh'' @ [CHR 0x22] @
           '' raised a warning for this request'', ''WarningAdmission'')
      else
        (''Admission webhook '' @ [CHR 0x22] @ ''validation.gatekeeper.sh'' @ [CHR 0x22] @
           '' denied request'', ''FailedAdmission''))"

definition violation_event :: "('o, 't) webhookEnv \<Rightarrow> AdmissionRequest \<Rightarrow> string \<Rightarrow> Violation \<Rightarrow> AnnotatedEvent" where
  "violation_event h req resourceName r =
     (let c = vi_Constraint r; (eventMsg, reason) = event_texts (vi_EnforcementAction r) in
      \<lparr>ev_Ref = getViolationRef (gkNamespace h) (gvk_Kind (rq_Kind req)) resourceName (rq_Namespace req)
         (getNestedString c [''kind'']) (GetName c) (GetNamespace c),
       ev_Annotations = fold (\<lambda>(k, v). mput k v) (violation_fields req resourceName r) [],
       ev_Reason = reason,
       ev_Message = eventMsg @ '', Resource Namespace: '' @ rq_Namespace req @ '', Constraint: '' @ GetName c @
         '', Message: '' @ vi_Msg r\<rparr>)"

text \<open>The name of the reviewed object; a create request may omit it.\<close>

definition violation_resourceName :: "('o, 't) webhookEnv \<Rightarrow> Violation list \<Rightarrow> AdmissionRequest \<Rightarrow> string" where
  "violation_resourceName h res req =
     (if length res > 0 \<and> (logDenies h \<or> emitAdmissionEvents h) then
        (if length (rq_Name req) = 0 \<and> rq_Object req \<noteq> None then
           (case dec_Unstructured h (rq_Object req) of Inr obj \<Rightarrow> GetName obj | Inl _ \<Rightarrow> rq_Name req)
         else rq_Name req)
      else [])"

record Messages =
  denyMsgs :: "string list"
  warnMsgs :: "string list"
  logged :: "(string \<times> string) list list"
  emitted :: "AnnotatedEvent list"

definition violation_message :: "Violation \<Rightarrow> string" where
  "violation_message r = ''['' @ GetName (vi_Constraint r) @ ''] '' @ vi_Msg r"

fun messages_loop ::
    "('o, 't) webhookEnv \<Rightarrow> AdmissionRequest \<Rightarrow> string \<Rightarrow> Violation list \<Rightarrow> Messages \<Rightarrow> Messages" where
  "messages_loop h req resourceName [] ms = ms"
| "messages_loop h req resourceName (r # res) ms =
     (case ValidateEnforcementAction (vi_EnforcementAction r) of
        Some _ \<Rightarrow> messages_loop h req resourceName res ms
      | None \<Rightarrow>
          (let ms = (if logDenies h
                     then ms\<lparr>logged := logged ms @ [violation_fields req resourceName r]\<rparr> else ms);
               ms = (if emitAdmissionEvents h
                     then ms\<lparr>emitted := emitted ms @ [violation_event h req resourceName r]\<rparr> else ms);
               ms = (if vi_EnforcementAction r = Deny
                     then ms\<lparr>denyMsgs := denyMsgs ms @ [violation_message r]\<rparr> else ms);
               ms = (if vi_EnforcementAction r = Warn
                     then ms\<lparr>warnMsgs := warnMsgs ms @ [violation_message r]\<rparr> else ms)
           in messages_loop h req resourceName res ms))"

definition getValidationMessages ::
    "('o, 't) webhookEnv \<Rightarrow> Violation list \<Rightarrow> AdmissionRequest \<Rightarrow> Messages" where
  "getValidationMessages h res req =
     messages_loop h req (violation_resourceName h res req) res
       \<lparr>denyMsgs = [], warnMsgs = [], logged = [], emitted = []\<rparr>"

section \<open>Review\<close>

text \<open>The namespace of a review: the cached client is asked first, and the API server when
  the cache does not know it.\<close>

definition review_namespace ::
    "('o, 't) webhookEnv \<Rightarrow> AdmissionRequest \<Rightarrow> (string + NamespaceObj option) outcome" where
  "review_namespace h req =
     (if rq_Namespace req \<noteq> [] then
        (case we_client h of
           None \<Rightarrow> Panics
         | Some c \<Rightarrow>
             Returns (case cl_GetNamespace c (rq_Namespace req) of
                Inr ns \<Rightarrow> Inr (Some ns)
              | Inl (GetFailed err) \<Rightarrow> Inl err
              | Inl (IsNotFound _) \<Rightarrow>
                  (case we_reader h (rq_Namespace req) of
                     Inr ns \<Rightarrow> Inr (Some ns)
                   | Inl (IsNotFound err) \<Rightarrow> Inl err
                   | Inl (GetFailed err) \<Rightarrow> Inl err)))
      else Returns (Inr None))"

text \<open>\<open>reviewRequest\<close> resets the namespace of a request about a namespace, in the request
  that its caller goes on with. The dump only makes a log entry.\<close>

definition coerce_namespace :: "AdmissionRequest \<Rightarrow> AdmissionRequest" where
  "coerce_namespace req =
     (if gvk_Kind (rq_Kind req) = namespaceKind \<and> gvk_Group (rq_Kind req) = []
      then req\<lparr>rq_Namespace := []\<rparr> else req)"

definition reviewRequest ::
    "('o, 't) webhookEnv \<Rightarrow> AdmissionRequest \<Rightarrow> (AdmissionRequest \<times> (string + Violation list)) outcome" where
  "reviewRequest h req =
     (if we_semaphore h \<and> \<not> we_slot h
      then Returns (req, Inl ''serving context canceled, aborting request'')
      else (case tracingLevel h req of
        Panics \<Rightarrow> Panics
      | Returns (trace, dump) \<Rightarrow>
          (let req = coerce_namespace req in
           case review_namespace h req of
             Panics \<Rightarrow> Panics
           | Returns (Inl err) \<Rightarrow> Returns (req, Inl err)
           | Returns (Inr ns) \<Rightarrow>
               (case opa_Review h \<lparr>ar_Request = req, ar_Namespace = ns\<rparr> trace of
                  (results, Some err) \<Rightarrow> Returns (req, Inl err)
                | (results, None) \<Rightarrow> Returns (req, Inr results)))))"

section \<open>Handle\<close>

text \<open>The part of \<open>Handle\<close> after the review.\<close>

definition respond :: "Messages \<Rightarrow> Response \<times> requestResponse" where
  "respond ms =
     (if length (denyMsgs ms) > 0 then
        (let vResp = ValidationResponse False (Text (Join (denyMsgs ms) [CHR 0x0A]));
             vResp = (if length (warnMsgs ms) > 0 then vResp\<lparr>resp_Warnings := warnMsgs ms\<rparr> else vResp)
         in (with_code 403 vResp, denyResponse))
      else
        (let vResp = ValidationResponse True (Text []) in
         (if length (warnMsgs ms) > 0 then with_code 299 (vResp\<lparr>resp_Warnings := warnMsgs ms\<rparr>) else vResp,
          allowResponse)))"

record Handled =
  hd_Response :: "Response outcome"
  hd_Reported :: "requestResponse option"
  hd_Events :: "AnnotatedEvent list"
  hd_Logged :: "(string \<times> string) list list"

definition silent :: "Response outcome \<Rightarrow> requestResponse option \<Rightarrow> Handled" where
  "silent r rep = \<lparr>hd_Response = r, hd_Reported = rep, hd_Events = [], hd_Logged = []\<rparr>"

text \<open>A delete request is reviewed on its old object.\<close>

definition reviewed_object :: "AdmissionRequest \<Rightarrow> AdmissionRequest" where
  "reviewed_object req =
     (if rq_Operation req = ''DELETE'' then req\<lparr>rq_Object := rq_OldObject req\<rparr> else req)"

definition validation_Handle :: "('o, 't) webhookEnv \<Rightarrow> AdmissionRequest \<Rightarrow> Handled" where
  "validation_Handle h req =
     (if isGkServiceAccount h req
      then silent (Returns (ValidationResponse True (Text ''Gatekeeper does not self-manage''))) None
      else if rq_Operation req = ''DELETE'' \<and> rq_OldObject req = None
      then silent (Returns (with_code 500 (ValidationResponse False
        (Text ''For admission webhooks registered for DELETE operations, please use Kubernetes v1.15.0+.'')))) None
      else let req = reviewed_object req in
      (case validateGatekeeperResources h req of
         (userErr, Some err) \<Rightarrow>
           silent (Returns (with_code (if userErr then 422 else 500) (ValidationResponse False err))) None
       | (_, None) \<Rightarrow>
           if fst (skipExcludedNamespace h req process_Webhook)
           then silent (Returns (ValidationResponse True (Text ''Namespace is set to be ignored by Gatekeeper config'')))
             (Some allowResponse)
           else (case reviewRequest h req of
             Panics \<Rightarrow> silent Panics (Some unknownResponse)
           | Returns (req, Inl err) \<Rightarrow>
               silent (Returns (with_code 500 (ValidationResponse False (Text err)))) (Some errorResponse)
           | Returns (req, Inr res) \<Rightarrow>
               (let ms = getValidationMessages h res req; (vResp, rep) = respond ms in
                \<lparr>hd_Response = Returns vResp, hd_Reported = Some rep, hd_Events = emitted ms,
                 hd_Logged = logged ms\<rparr>))))"

end
