(* ===== verification/Webhook_Facts.thy ===== *)
theory Webhook_Facts
  imports Validation_Webhook System_Facts
begin

text \<open>
  The declarative reading of the admission handlers, and the lemmas that connect each step
  of the handlers with it.
\<close>

section \<open>Own resources\<close>

definition own_resource_ok :: "('o, 't) webhookEnv \<Rightarrow> AdmissionRequest \<Rightarrow> bool" where
  "own_resource_ok h req \<longleftrightarrow>
     (let g = gvk_Group (rq_Kind req); k = gvk_Kind (rq_Kind req); raw = rq_Object req in
      (g = ''templates.gatekeeper.sh'' \<and> k = ''ConstraintTemplate'' \<longrightarrow>
         (\<exists>ob t. dec_Template h raw = Inr ob \<and> scheme_Convert h ob = Inr t \<and> opa_CreateCRD h t = None)) \<and>
      (g = ''constraints.gatekeeper.sh'' \<longrightarrow>
         (\<exists>obj action. dec_Unstructured h raw = Inr obj \<and> opa_ValidateConstraint h obj = None \<and>
            NestedString obj [''spec'', ''enforcementAction''] = Inr action \<and>
            (disableEnforcementActionValidation h \<or>
             action \<in> {None, Some [], Some Deny, Some Dryrun, Some Warn}))) \<and>
      (g = ''config.gatekeeper.sh'' \<and> k = ''Config'' \<longrightarrow> rq_Name req = ''config'') \<and>
      (g = ''mutations.gatekeeper.sh'' \<and> k = ''AssignMetadata'' \<longrightarrow>
         (\<exists>a m. dec_AssignMetadata h raw = Inr (Some a) \<and> MutatorForAssignMetadata a = Inr m)) \<and>
      (g = ''mutations.gatekeeper.sh'' \<and> k = ''Assign'' \<longrightarrow>
         (\<exists>a m. dec_Assign h raw = Inr (Some a) \<and> MutatorForAssign a = Inr m)))"

lemma validateTemplate_None:
  "snd (validateTemplate h req) = None \<longleftrightarrow>
    (\<exists>ob t. dec_Template h (rq_Object req) = Inr ob \<and> scheme_Convert h ob = Inr t \<and> opa_CreateCRD h t = None)"
  by (auto simp: validateTemplate_def split: sum.splits option.splits)

lemma validateConstraint_None:
  "snd (validateConstraint h req) = None \<longleftrightarrow>
    (\<exists>obj action. dec_Unstructured h (rq_Object req) = Inr obj \<and> opa_ValidateConstraint h obj = None \<and>
      NestedString obj [''spec'', ''enforcementAction''] = Inr action \<and>
      (disableEnforcementActionValidation h \<or> action \<in> {None, Some [], Some Deny, Some Dryrun, Some Warn}))"
proof (cases "dec_Unstructured h (rq_Object req)")
  case (Inr obj)
  have action: "ValidateEnforcementAction a = (if a \<in> {Deny, Dryrun, Warn} then None else Some (ErrEnforcementAction a))" for a
    by (simp add: ValidateEnforcementAction_def supportedEnforcementActions_def)
  show ?thesis
    by (cases "NestedString obj [''spec'', ''enforcementAction'']")
      (auto simp: validateConstraint_def Let_def action Inr split: option.splits)
qed (simp add: validateConstraint_def)

lemma validateAssignMetadata_None:
  "snd (validateAssignMetadata h req) = None \<longleftrightarrow>
    (\<exists>a m. dec_AssignMetadata h (rq_Object req) = Inr (Some a) \<and> MutatorForAssignMetadata a = Inr m)"
  by (auto simp: validateAssignMetadata_def IsValidAssignMetadata_def split: sum.splits option.splits)

lemma validateAssign_None:
  "snd (validateAssign h req) = None \<longleftrightarrow>
    (\<exists>a m. dec_Assign h (rq_Object req) = Inr (Some a) \<and> MutatorForAssign a = Inr m)"
  by (auto simp: validateAssign_def IsValidAssign_def split: sum.splits option.splits)

lemma one_of_four: "g = a \<or> g = b \<or> g = c \<or> g = d \<or> g \<notin> {a, b, c, d}"
  by blast

lemma validateGatekeeperResources_None:
  "snd (validateGatekeeperResources h req) = None \<longleftrightarrow> own_resource_ok h req"
proof -
  define g k where "g = gvk_Group (rq_Kind req)" and "k = gvk_Kind (rq_Kind req)"
  from one_of_four [of g "''templates.gatekeeper.sh''" "''constraints.gatekeeper.sh''"
      "''config.gatekeeper.sh''" "''mutations.gatekeeper.sh''"]
  show ?thesis
    unfolding validateGatekeeperResources_def own_resource_ok_def Let_def mutationsGroup_def
      g_def [symmetric] k_def [symmetric] validateTemplate_None [symmetric] validateConstraint_None [symmetric]
      validateAssignMetadata_None [symmetric] validateAssign_None [symmetric] validateConfigResource_def
    by (elim disjE) simp_all
qed

section \<open>Exclusion and tracing\<close>

definition excluded_for :: "('o, 't) webhookEnv \<Rightarrow> AdmissionRequest \<Rightarrow> Process \<Rightarrow> bool" where
  "excluded_for h req p \<longleftrightarrow>
     (\<exists>obj k. dec_Unstructured h (rq_Object req) = Inr obj \<and> k \<in> patterns (processExcluder h) p \<and>
        Wildcard_Matches k (effective_namespace (runtime_object obj)))"

lemma skipExcludedNamespace_iff:
  "fst (skipExcludedNamespace h req p) \<longleftrightarrow> excluded_for h req p"
  by (auto simp: skipExcludedNamespace_def excluded_for_def IsNamespaceExcluded_eq runtime_object_def
      split: sum.splits)

definition trace_applies :: "AdmissionRequest \<Rightarrow> Trace \<Rightarrow> bool" where
  "trace_applies req t \<longleftrightarrow> tr_User t = rq_Username req \<and> tr_Kind t = rq_Kind req"

lemma trace_loop_eq:
  "trace_loop req ts a b =
    (a \<or> (\<exists>t \<in> set ts. trace_applies req t),
     b \<or> (\<exists>t \<in> set ts. trace_applies req t \<and> EqualFold (tr_Dump t) ''All''))"
  by (induction ts arbitrary: a b) (auto simp: trace_applies_def)

section \<open>Messages\<close>

abbreviation supported :: "Violation \<Rightarrow> bool" where
  "supported r \<equiv> ValidateEnforcementAction (vi_EnforcementAction r) = None"

lemma supported_actions [simp]:
  "ValidateEnforcementAction Deny = None" "ValidateEnforcementAction Warn = None" "Deny \<noteq> Warn"
  by (simp_all add: ValidateEnforcementAction_None) (simp add: action_defs)

lemma messages_loop_eq:
  "messages_loop h req name res ms =
    \<lparr>denyMsgs = denyMsgs ms @ map violation_message (filter (\<lambda>r. vi_EnforcementAction r = Deny) res),
     warnMsgs = warnMsgs ms @ map violation_message (filter (\<lambda>r. vi_EnforcementAction r = Warn) res),
     logged = logged ms @ (if logDenies h then map (violation_fields req name) (filter supported res) else []),
     emitted = emitted ms @ (if emitAdmissionEvents h then map (violation_event h req name) (filter supported res) else [])\<rparr>"
proof (induction res arbitrary: ms)
  case (Cons r res)
  have unsupported: "vi_EnforcementAction r \<noteq> Deny \<and> vi_EnforcementAction r \<noteq> Warn"
    if "ValidateEnforcementAction (vi_EnforcementAction r) = Some e" for e
    using that by auto
  show ?case
    by (cases "ValidateEnforcementAction (vi_EnforcementAction r)")
      (use unsupported Cons in \<open>auto simp: Let_def\<close>)
qed simp

lemma getValidationMessages_eq:
  "getValidationMessages h res req =
    \<lparr>denyMsgs = map violation_message (filter (\<lambda>r. vi_EnforcementAction r = Deny) res),
     warnMsgs = map violation_message (filter (\<lambda>r. vi_EnforcementAction r = Warn) res),
     logged = (if logDenies h
       then map (violation_fields req (violation_resourceName h res req)) (filter supported res) else []),
     emitted = (if emitAdmissionEvents h
       then map (violation_event h req (violation_resourceName h res req)) (filter supported res) else [])\<rparr>"
  by (simp add: getValidationMessages_def messages_loop_eq)

lemma with_code_simps [simp]:
  "resp_Allowed (with_code c r) = resp_Allowed r" "resp_Warnings (with_code c r) = resp_Warnings r"
  "resp_Patches (with_code c r) = resp_Patches r"
  by (simp_all add: with_code_def)

lemma ValidationResponse_simps [simp]:
  "resp_Allowed (ValidationResponse a t) = a" "resp_Warnings (ValidationResponse a t) = []"
  "resp_Patches (ValidationResponse a t) = []"
  by (simp_all add: ValidationResponse_def)

lemma Errored_simps [simp]:
  "resp_Allowed (Errored c e) = False" "resp_Patches (Errored c e) = []"
  by (simp_all add: Errored_def)

lemma PatchResponse_simps [simp]:
  "resp_Allowed (PatchResponse ps) = True" "resp_Patches (PatchResponse ps) = ps"
  by (simp_all add: PatchResponse_def)

definition status_code :: "Response \<Rightarrow> int" where
  "status_code r = (case resp_Result r of Some s \<Rightarrow> st_Code s | None \<Rightarrow> 0)"

lemma status_code_simps [simp]:
  "status_code (with_code c r) = c"
  "status_code (ValidationResponse a t) = (if a then 200 else 403)"
  "status_code (Errored c e) = c"
  by (simp_all add: status_code_def with_code_def ValidationResponse_def Errored_def split: option.split)

lemma respond_eq:
  "resp_Allowed (fst (respond ms)) \<longleftrightarrow> denyMsgs ms = []"
  "resp_Warnings (fst (respond ms)) = warnMsgs ms"
  "status_code (fst (respond ms)) =
    (if denyMsgs ms \<noteq> [] then 403 else if warnMsgs ms \<noteq> [] then 299 else 200)"
  by (auto simp: respond_def Let_def)

section \<open>Review\<close>

text \<open>The namespace object for a name: the cache's, or the API server's when the cache has
  none.\<close>

definition lookup_namespace :: "('o, 't) webhookEnv \<Rightarrow> Client \<Rightarrow> string \<Rightarrow> NamespaceObj option" where
  "lookup_namespace h c n =
     (case cl_GetNamespace c n of
        Inr ns \<Rightarrow> Some ns
      | Inl (IsNotFound _) \<Rightarrow> (case we_reader h n of Inr ns \<Rightarrow> Some ns | Inl _ \<Rightarrow> None)
      | Inl (GetFailed _) \<Rightarrow> None)"

definition review_context :: "('o, 't) webhookEnv \<Rightarrow> AdmissionRequest \<Rightarrow> NamespaceObj option \<Rightarrow> bool" where
  "review_context h req ns \<longleftrightarrow>
     (if rq_Namespace req = [] then ns = None
      else \<exists>c n. we_client h = Some c \<and> lookup_namespace h c (rq_Namespace req) = Some n \<and> ns = Some n)"

lemma review_namespace_iff:
  "review_namespace h req = Returns (Inr ns) \<longleftrightarrow> review_context h req ns"
  by (auto simp: review_namespace_def review_context_def lookup_namespace_def
      split: option.splits sum.splits GetErr.splits)

definition reviews :: "('o, 't) webhookEnv \<Rightarrow> AdmissionRequest \<Rightarrow> Violation list \<Rightarrow> bool" where
  "reviews h req res \<longleftrightarrow>
     (we_semaphore h \<longrightarrow> we_slot h) \<and>
     (\<exists>cfg ns. fst (getConfig h) = Some cfg \<and> review_context h (coerce_namespace req) ns \<and>
        opa_Review h \<lparr>ar_Request = coerce_namespace req, ar_Namespace = ns\<rparr>
          (\<exists>t \<in> set (cs_Traces cfg). trace_applies req t) = (res, None))"

lemma reviewRequest_iff:
  "reviewRequest h req = Returns (q, Inr res) \<longleftrightarrow> q = coerce_namespace req \<and> reviews h req res"
proof (cases "fst (getConfig h)")
  case (Some cfg)
  have rn: "review_context h (coerce_namespace req) ns \<longleftrightarrow> review_namespace h (coerce_namespace req) = Returns (Inr ns)" for ns
    by (rule review_namespace_iff [symmetric])
  show ?thesis
    unfolding reviews_def rn
    by (auto simp: reviewRequest_def tracingLevel_def Some trace_loop_eq Let_def
        split: outcome.splits sum.splits prod.splits option.splits)
next
  case None
  then show ?thesis by (simp add: reviews_def reviewRequest_def tracingLevel_def)
qed

lemma reviewRequest_returns:
  assumes "we_client h = Some c"
  shows "\<exists>q r. reviewRequest h req = Returns (q, r)"
proof -
  obtain cfg where cfg: "fst (getConfig h) = Some cfg"
    using assms by (cases "injectedConfig h") (auto simp: getConfig_def)
  obtain r where "review_namespace h (coerce_namespace req) = Returns r"
    using assms by (cases "rq_Namespace (coerce_namespace req) = []") (simp_all add: review_namespace_def)
  then show ?thesis
    by (cases r) (auto simp: reviewRequest_def tracingLevel_def cfg trace_loop_eq Let_def split: prod.split option.split)
qed

section \<open>The decision\<close>

definition admitted :: "('o, 't) webhookEnv \<Rightarrow> AdmissionRequest \<Rightarrow> bool" where
  "admitted h req \<longleftrightarrow>
     rq_Username req = serviceaccount h \<or>
     (let q = reviewed_object req in
      (rq_Operation req = ''DELETE'' \<longrightarrow> rq_OldObject req \<noteq> None) \<and>
      own_resource_ok h q \<and>
      (excluded_for h q process_Webhook \<or>
       (\<exists>res. reviews h q res \<and> (\<forall>v \<in> set res. vi_EnforcementAction v \<noteq> Deny))))"

lemma denyMsgs_empty:
  "denyMsgs (getValidationMessages h res req) = [] \<longleftrightarrow> (\<forall>v \<in> set res. vi_EnforcementAction v \<noteq> Deny)"
  by (auto simp: getValidationMessages_eq filter_empty_conv)

text \<open>What \<open>Handle\<close> does from the exclusion check on, and its decision.\<close>

definition handle_reviewed :: "('o, 't) webhookEnv \<Rightarrow> AdmissionRequest \<Rightarrow> Handled" where
  "handle_reviewed h q =
     (if excluded_for h q process_Webhook
      then silent (Returns (ValidationResponse True (Text ''Namespace is set to be ignored by Gatekeeper config'')))
        (Some allowResponse)
      else (case reviewRequest h q of
        Panics \<Rightarrow> silent Panics (Some unknownResponse)
      | Returns (req, Inl err) \<Rightarrow>
          silent (Returns (with_code 500 (ValidationResponse False (Text err)))) (Some errorResponse)
      | Returns (req, Inr res) \<Rightarrow>
          (let ms = getValidationMessages h res req; (vResp, rep) = respond ms in
           \<lparr>hd_Response = Returns vResp, hd_Reported = Some rep, hd_Events = emitted ms, hd_Logged = logged ms\<rparr>)))"

definition allows :: "Handled \<Rightarrow> bool" where
  "allows d \<longleftrightarrow> (\<exists>r. hd_Response d = Returns r \<and> resp_Allowed r)"

lemma allows_silent [simp]: "allows (silent (Returns r) rep) \<longleftrightarrow> resp_Allowed r" "\<not> allows (silent Panics rep)"
  by (simp_all add: allows_def silent_def)

lemma handle_reviewed_allows:
  "allows (handle_reviewed h q) \<longleftrightarrow>
    excluded_for h q process_Webhook \<or>
    (\<exists>res. reviews h q res \<and> (\<forall>v \<in> set res. vi_EnforcementAction v \<noteq> Deny))"
proof (cases "reviewRequest h q")
  case Panics
  then have "\<not> reviews h q res" for res
    using reviewRequest_iff [of h q "coerce_namespace q" res] by auto
  then show ?thesis using Panics by (simp add: handle_reviewed_def)
next
  case (Returns p)
  obtain q' r where p: "p = (q', r)" by (cases p)
  show ?thesis
  proof (cases r)
    case (Inl err)
    then have "\<not> reviews h q res" for res
      using reviewRequest_iff [of h q "coerce_namespace q" res] Returns p by auto
    then show ?thesis using Returns p Inl by (simp add: handle_reviewed_def)
  next
    case (Inr res)
    then have q': "reviews h q res'" "res' = res" if "reviews h q res'" for res'
      using that reviewRequest_iff [of h q "coerce_namespace q" res'] Returns p by auto
    have "reviews h q res" using reviewRequest_iff [of h q q' res] Returns p Inr by simp
    then have "(\<exists>res. reviews h q res \<and> (\<forall>v \<in> set res. vi_EnforcementAction v \<noteq> Deny)) \<longleftrightarrow>
        denyMsgs (getValidationMessages h res q') = []"
      unfolding denyMsgs_empty using q'(2) by blast
    then show ?thesis
      using Returns p Inr respond_eq(1) [of "getValidationMessages h res q'"]
      by (cases "respond (getValidationMessages h res q')")
        (simp add: handle_reviewed_def Let_def allows_def silent_def)
  qed
qed

lemma validation_Handle_eq:
  "validation_Handle h req =
    (if rq_Username req = serviceaccount h
     then silent (Returns (ValidationResponse True (Text ''Gatekeeper does not self-manage''))) None
     else if rq_Operation req = ''DELETE'' \<and> rq_OldObject req = None
     then silent (Returns (with_code 500 (ValidationResponse False
       (Text ''For admission webhooks registered for DELETE operations, please use Kubernetes v1.15.0+.'')))) None
     else (case validateGatekeeperResources h (reviewed_object req) of
        (userErr, Some err) \<Rightarrow>
          silent (Returns (with_code (if userErr then 422 else 500) (ValidationResponse False err))) None
      | (_, None) \<Rightarrow> handle_reviewed h (reviewed_object req)))"
  by (simp add: validation_Handle_def handle_reviewed_def isGkServiceAccount_def Let_def skipExcludedNamespace_iff)

lemma allows_iff: "allows (validation_Handle h req) \<longleftrightarrow> admitted h req"
proof -
  have "allows (case validateGatekeeperResources h q of
      (userErr, Some err) \<Rightarrow> silent (Returns (with_code (if userErr then 422 else 500) (ValidationResponse False err))) None
    | (_, None) \<Rightarrow> handle_reviewed h q) \<longleftrightarrow>
    own_resource_ok h q \<and> allows (handle_reviewed h q)" for q
    using validateGatekeeperResources_None [of h q]
    by (cases "validateGatekeeperResources h q") (auto split: option.splits)
  then show ?thesis
    by (auto simp: validation_Handle_eq admitted_def Let_def handle_reviewed_allows)
qed

lemma validation_Handle_returns:
  assumes "we_client h = Some c"
  shows "\<exists>r. hd_Response (validation_Handle h req) = Returns r"
proof -
  have "\<exists>r. hd_Response (handle_reviewed h q) = Returns r" for q
  proof -
    obtain q' r where r: "reviewRequest h q = Returns (q', r)"
      using reviewRequest_returns [OF assms] by blast
    show ?thesis
      by (cases r) (auto simp: handle_reviewed_def r silent_def Let_def split: prod.split)
  qed
  then show ?thesis
    by (auto simp: validation_Handle_eq silent_def split: prod.splits option.splits)
qed

section \<open>Mutation\<close>

lemma System_Mutate_obtain:
  obtains obj' r where "System_Mutate fl sel uuid s obj ns = (obj', r)"
  by (cases "System_Mutate fl sel uuid s obj ns")

text \<open>An allowed response of the mutating webhook carries a fixed point of the mutators.\<close>

lemma mutateRequest_allowed:
  assumes "sys_inv s" "\<not> MutationAnnotationsEnabled fl"
    and "request_namespace h req = Returns (Inr ns)" "UnmarshalJSON h (rq_Object req) = Inr obj"
    and "mutateRequest h fl sel uuid s req = Returns r" "resp_Allowed r"
  obtains obj' where "apply_all sel ns (orderedMutators s) obj' = Inr obj'"
    "System_Mutate fl sel uuid s obj ns = (obj', Inr (obj' \<noteq> obj))"
    "obj' = obj \<Longrightarrow> r = ValidationResponse True (Text ''Resource was not mutated'')"
    "obj' \<noteq> obj \<Longrightarrow> \<exists>json ps. MarshalJSON h obj' = Inr json \<and>
      CreatePatch h (rq_Object req) json = Inr ps \<and> r = PatchResponse ps"
proof -
  obtain obj' q where m: "System_Mutate fl sel uuid s obj ns = (obj', q)"
    by (rule System_Mutate_obtain)
  obtain b where q: "q = Inr b"
    using assms(3-6) m by (cases q) (auto simp: mutateRequest_def)
  note fp = System_Mutate_Inr [OF assms(1,2) m [unfolded q]]
  show thesis
  proof (rule that [of obj'])
    show "apply_all sel ns (orderedMutators s) obj' = Inr obj'" by (rule fp(1))
  next
    show "System_Mutate fl sel uuid s obj ns = (obj', Inr (obj' \<noteq> obj))" using m q fp(2) by simp
  next
    assume "obj' = obj"
    then show "r = ValidationResponse True (Text ''Resource was not mutated'')"
      using assms(3-5) m q fp(2) by (simp add: mutateRequest_def)
  next
    assume "obj' \<noteq> obj"
    then show "\<exists>json ps. MarshalJSON h obj' = Inr json \<and> CreatePatch h (rq_Object req) json = Inr ps \<and> r = PatchResponse ps"
      using assms(3-6) m q fp(2) by (auto simp: mutateRequest_def split: sum.splits)
  qed
qed

lemma mutateRequest_stable:
  assumes "sys_inv s" "apply_all sel ns (orderedMutators s) obj = Inr obj"
    and "request_namespace h req = Returns (Inr ns)" "UnmarshalJSON h (rq_Object req) = Inr obj"
  shows "mutateRequest h fl sel uuid s req = Returns (ValidationResponse True (Text ''Resource was not mutated''))"
  using System_Mutate_stable [OF assms(1,2)] assms(3,4) by (simp add: mutateRequest_def)

lemma mutateRequest_returns:
  assumes "we_client h = Some c"
  shows "\<exists>r. mutateRequest h fl sel uuid s req = Returns r"
proof -
  obtain q where q: "request_namespace h req = Returns q"
  proof (cases "request_namespace h req")
    case Panics
    then show thesis using assms by (simp add: request_namespace_def split: if_splits)
  qed (rule that)
  show ?thesis
  proof (cases q)
    case (Inr ns)
    obtain obj' e where m: "System_Mutate fl sel uuid s (projr (UnmarshalJSON h (rq_Object req))) ns = (obj', e)"
      by (rule System_Mutate_obtain)
    show ?thesis
      unfolding mutateRequest_def q Inr
      by (cases "UnmarshalJSON h (rq_Object req)"; cases e)
        (use m in \<open>auto split: bool.split sum.split\<close>)
  qed (simp add: mutateRequest_def q)
qed

text \<open>The mutating webhook only ever refuses with an internal error.\<close>

lemma request_namespace_code: "request_namespace h req = Returns (Inl r) \<Longrightarrow> status_code r = 500"
  by (auto simp: request_namespace_def split: if_splits sum.splits option.splits GetErr.splits)

lemma mutateRequest_code:
  assumes "mutateRequest h fl sel uuid s req = Returns r" and "\<not> resp_Allowed r"
  shows "status_code r = 500"
proof (cases "request_namespace h req")
  case Panics
  then show ?thesis using assms by (simp add: mutateRequest_def)
next
  case (Returns q)
  show ?thesis
  proof (cases q)
    case (Inl r')
    then show ?thesis using assms Returns request_namespace_code [of h req r'] by (simp add: mutateRequest_def)
  next
    case (Inr ns)
    obtain obj' e where m: "System_Mutate fl sel uuid s (projr (UnmarshalJSON h (rq_Object req))) ns = (obj', e)"
      by (rule System_Mutate_obtain)
    show ?thesis
      using assms unfolding mutateRequest_def Returns Inr
      by (cases "UnmarshalJSON h (rq_Object req)"; cases e)
        (use m in \<open>auto split: bool.splits sum.splits\<close>)
  qed
qed

lemma mutation_Handle_patches:
  assumes "fst (mutation_Handle h fl sel uuid s req) = Returns r" and "resp_Patches r \<noteq> []"
  shows "mutateRequest h fl sel uuid s req = Returns r \<and> rq_Operation req \<in> {''CREATE'', ''UPDATE''} \<and>
    rq_Username req \<noteq> serviceaccount h \<and> \<not> isGatekeeperResource req \<and> \<not> excluded_for h req process_Mutation"
  using assms
  by (auto simp: mutation_Handle_def isGkServiceAccount_def skipExcludedNamespace_iff split: if_splits outcome.splits)

text \<open>The response of the handler: an allowed one without a patch, or that of the mutation.\<close>

lemma mutation_Handle_cases:
  "(\<exists>t. fst (mutation_Handle h fl sel uuid s req) = Returns (ValidationResponse True t)) \<or>
    fst (mutation_Handle h fl sel uuid s req) = mutateRequest h fl sel uuid s req"
  by (cases "mutateRequest h fl sel uuid s req") (auto simp: mutation_Handle_def)

end
