(* ===== verification/Webhook_Properties.thy ===== *)
theory Webhook_Properties
  imports Webhook_Facts Examples Support_Properties
begin

text \<open>
  The properties of the admission webhooks, with a sample environment for their witnesses.
\<close>

section \<open>A sample environment\<close>

text \<open>Raw objects are names; the decoders look the object up.\<close>

definition ex_decode :: "raw \<Rightarrow> string + object" where
  "ex_decode raw =
     (case raw of
        Some r \<Rightarrow> (if r = ''pod'' then Inr ex_pod
                   else if r = ''system-pod'' then Inr (ex_pod_in ''kube-system'')
                   else if r = ''mutated'' then
                     Inr (fst (System_Mutate ex_flags ex_selectors VNil ex_system ex_pod None))
                   else Inl ''unknown'')
      | None \<Rightarrow> Inl ''no object'')"

definition ex_violation :: "EnforcementAction \<Rightarrow> string \<Rightarrow> Violation" where
  "ex_violation action msg =
     \<lparr>vi_Msg = msg, vi_EnforcementAction = action,
      vi_Constraint = [(''metadata'', VMap [(''name'', VString ''c'')])]\<rparr>"

definition ex_env :: "Violation list \<Rightarrow> (unit, unit) webhookEnv" where
  "ex_env violations =
     \<lparr>serviceaccount = ''gk'', disableEnforcementActionValidation = False, logDenies = False,
      emitAdmissionEvents = False, injectedConfig = None,
      we_client = Some \<lparr>cl_GetConfig = (\<lparr>cs_SyncOnly = [], cs_Traces = [], cs_Match = [], cs_StatsEnabled = False\<rparr>, None),
        cl_GetNamespace = (\<lambda>n. Inr \<lparr>ns_Name = n, ns_Labels = []\<rparr>)\<rparr>,
      we_reader = (\<lambda>n. Inl (GetFailed ''down'')), processExcluder = Excluder_Add ex_entries New_Excluder,
      gkNamespace = ''gatekeeper-system'', we_semaphore = False, we_slot = False,
      dec_Unstructured = ex_decode, dec_Template = (\<lambda>_. Inl ''none''), dec_AssignMetadata = (\<lambda>_. Inl ''none''),
      dec_Assign = (\<lambda>_. Inl ''none''), dec_Namespace = (\<lambda>_. Inl ''none''), UnmarshalJSON = ex_decode,
      MarshalJSON = (\<lambda>_. Inr ''mutated''), CreatePatch = (\<lambda>_ _. Inr [JsonPatch ''add'' ''/spec'' VNil]),
      scheme_Convert = (\<lambda>_. Inl ''none''), opa_CreateCRD = (\<lambda>_. None), opa_ValidateConstraint = (\<lambda>_. None),
      opa_Review = (\<lambda>_ _. (violations, None))\<rparr>"

definition ex_request :: "string \<Rightarrow> string \<Rightarrow> AdmissionRequest" where
  "ex_request op raw =
     \<lparr>rq_Kind = GVK [] ''v1'' ''Pod'', rq_Name = ''p'', rq_Namespace = [], rq_Operation = op,
      rq_Username = ''me'', rq_Object = Some raw, rq_OldObject = None\<rparr>"

section \<open>The validating webhook\<close>

text \<open>C1: the validating webhook allows a request exactly when its user is Gatekeeper itself,
  or the request is well formed, passes the checks of Gatekeeper's own resources, and is
  either about a namespace excluded from the webhook or reviewed without an error and without
  a violation of a constraint whose action is deny.\<close>

theorem admission_decides:
  "(\<exists>r. hd_Response (validation_Handle h req) = Returns r \<and> resp_Allowed r) \<longleftrightarrow> admitted h req"
  using allows_iff [of h req] by (simp only: allows_def)

lemma admission_examples:
  "map (\<lambda>(vs, raw). case hd_Response (validation_Handle (ex_env vs) (ex_request ''CREATE'' raw)) of
      Returns r \<Rightarrow> resp_Allowed r | Panics \<Rightarrow> False)
    [([], ''pod''), ([ex_violation Deny ''no''], ''pod''), ([ex_violation Deny ''no''], ''system-pod'')]
   = [True, False, True]"
  by code_simp

text \<open>A request reaches the review.\<close>

definition reaches_review :: "('o, 't) webhookEnv \<Rightarrow> AdmissionRequest \<Rightarrow> bool" where
  "reaches_review h req \<longleftrightarrow>
     rq_Username req \<noteq> serviceaccount h \<and> (rq_Operation req = ''DELETE'' \<longrightarrow> rq_OldObject req \<noteq> None) \<and>
     own_resource_ok h (reviewed_object req) \<and> \<not> excluded_for h (reviewed_object req) process_Webhook"

lemma reaches_review_Handle:
  assumes "reaches_review h req" and "reviews h (reviewed_object req) res"
  defines "ms \<equiv> getValidationMessages h res (coerce_namespace (reviewed_object req))"
  shows "validation_Handle h req =
    \<lparr>hd_Response = Returns (fst (respond ms)), hd_Reported = Some (snd (respond ms)),
     hd_Events = emitted ms, hd_Logged = logged ms\<rparr>"
proof -
  let ?q = "reviewed_object req"
  have "reviewRequest h ?q = Returns (coerce_namespace ?q, Inr res)"
    using assms(2) by (simp add: reviewRequest_iff)
  moreover have "snd (validateGatekeeperResources h ?q) = None"
    using assms(1) by (simp add: validateGatekeeperResources_None reaches_review_def)
  then obtain u where "validateGatekeeperResources h ?q = (u, None)"
    by (cases "validateGatekeeperResources h ?q") simp
  ultimately show ?thesis
    using assms(1)
    by (auto simp: validation_Handle_eq handle_reviewed_def reaches_review_def ms_def Let_def split: prod.split)
qed



section \<open>The namespace-label webhook\<close>

text \<open>The label webhook lets a create or update of a namespace through exactly when the
  object can be decoded and the namespace is exempt by name, has an exempt prefix, or does not
  carry the ignore label; deletions and other kinds always pass. So only an exempt namespace
  can opt out of the policies.\<close>

theorem label_webhook_decides:
  "resp_Allowed (label_Handle exempt exemptPrefixes unmarshal req) \<longleftrightarrow>
    rq_Operation req = ''DELETE'' \<or> gvk_Group (rq_Kind req) \<noteq> [] \<or> gvk_Kind (rq_Kind req) \<noteq> ''Namespace'' \<or>
    (\<exists>obj. unmarshal (rq_Object req) = Inr obj \<and>
       (mget exempt (GetName obj) = Some True \<or> (\<exists>p \<in> fst ` set exemptPrefixes. prefix p (GetName obj)) \<or>
        ''admission.gatekeeper.sh/ignore'' \<notin> fst ` set (GetLabels obj)))"
proof -
  have "matchesPrefix exemptPrefixes n \<longleftrightarrow> (\<exists>p \<in> fst ` set exemptPrefixes. prefix p n)" for n
    by (simp add: matchesPrefix_def list_ex_iff mkeys_def HasPrefix_def)
  moreover have "mbool exempt n \<longleftrightarrow> mget exempt n = Some True" for n
    by (simp add: mbool_def split: option.split)
  moreover have "list_ex (\<lambda>(label, v). label = ignoreLabel) ls \<longleftrightarrow> ''admission.gatekeeper.sh/ignore'' \<in> fst ` set ls"
    for ls :: labels
    by (force simp: list_ex_iff ignoreLabel_def)
  ultimately show ?thesis
    by (cases "unmarshal (rq_Object req)") (auto simp: label_Handle_def namespaceKind_def)
qed

definition ex_namespace :: "string \<Rightarrow> object" where
  "ex_namespace n = [(''apiVersion'', VString ''v1''), (''kind'', VString ''Namespace''),
     (''metadata'', VMap [(''labels'', VMap [(''admission.gatekeeper.sh/ignore'', VString ''yes'')]), (''name'', VString n)])]"

theorem label_webhook_decides_witness:
  "map (\<lambda>n. resp_Allowed (label_Handle [(''kube-system'', True)] [(''test-'', True)] (\<lambda>_. Inr (ex_namespace n))
      ((ex_request ''CREATE'' n)\<lparr>rq_Kind := GVK [] ''v1'' ''Namespace''\<rparr>))) [''kube-system'', ''test-1'', ''prod'']
    = [True, True, False]"
proof -
  have n: "GetName (ex_namespace n) = n"
    "''admission.gatekeeper.sh/ignore'' \<in> fst ` set (GetLabels (ex_namespace n))" for n
    by (simp_all add: ex_namespace_def GetName_def getNestedString_def NestedString_def GetLabels_def NestedStringMap_def)
  show ?thesis
    by (simp only: label_webhook_decides list.map) (simp add: n ex_request_def)
qed

section \<open>The mutating webhook\<close>

text \<open>C2: when the mutating webhook allows a request (annotations off), the object it answers
  with is a fixed point of the active mutators: the patch leads from the request's object to
  it, an unchanged object gets no patch, and a later request with the mutated object in the
  same namespace is allowed without any patch.\<close>

theorem mutation_webhook_settles:
  assumes "reachable s" and "\<not> MutationAnnotationsEnabled fl"
    and "request_namespace h req = Returns (Inr ns)" "UnmarshalJSON h (rq_Object req) = Inr obj"
    and "mutateRequest h fl sel uuid s req = Returns r" "resp_Allowed r"
  shows "\<exists>obj'. System_Mutate fl sel uuid s obj ns = (obj', Inr (obj' \<noteq> obj)) \<and>
    apply_all sel ns (orderedMutators s) obj' = Inr obj' \<and>
    (if obj' = obj then r = ValidationResponse True (Text ''Resource was not mutated'')
     else \<exists>json ps. MarshalJSON h obj' = Inr json \<and> CreatePatch h (rq_Object req) json = Inr ps \<and> r = PatchResponse ps) \<and>
    (\<forall>req'. request_namespace h req' = Returns (Inr ns) \<and> UnmarshalJSON h (rq_Object req') = Inr obj' \<longrightarrow>
       mutateRequest h fl sel uuid' s req' = Returns (ValidationResponse True (Text ''Resource was not mutated'')))"
proof -
  note inv = reachable_inv [OF assms(1)]
  obtain obj' where o: "apply_all sel ns (orderedMutators s) obj' = Inr obj'"
    "System_Mutate fl sel uuid s obj ns = (obj', Inr (obj' \<noteq> obj))"
    "obj' = obj \<Longrightarrow> r = ValidationResponse True (Text ''Resource was not mutated'')"
    "obj' \<noteq> obj \<Longrightarrow> \<exists>json ps. MarshalJSON h obj' = Inr json \<and>
      CreatePatch h (rq_Object req) json = Inr ps \<and> r = PatchResponse ps"
    using mutateRequest_allowed [OF inv assms(2-6)] by metis
  have again: "mutateRequest h fl sel uuid' s req' = Returns (ValidationResponse True (Text ''Resource was not mutated''))"
    if "request_namespace h req' = Returns (Inr ns)" "UnmarshalJSON h (rq_Object req') = Inr obj'" for req'
    using that by (rule mutateRequest_stable [OF inv o(1)])
  have "if obj' = obj then r = ValidationResponse True (Text ''Resource was not mutated'')
      else \<exists>json ps. MarshalJSON h obj' = Inr json \<and> CreatePatch h (rq_Object req) json = Inr ps \<and> r = PatchResponse ps"
    using o(3,4) by (simp del: not_ex)
  then show ?thesis using o(1,2) again by blast
qed

theorem mutation_webhook_settles_witness:
  "mutateRequest (ex_env []) ex_flags ex_selectors VNil ex_system (ex_request ''UPDATE'' ''mutated'') =
    Returns (ValidationResponse True (Text ''Resource was not mutated''))"
proof -
  let ?h = "ex_env []" and ?req = "ex_request ''CREATE'' ''pod''"
  have r: "mutateRequest ?h ex_flags ex_selectors VNil ex_system ?req = Returns (PatchResponse [JsonPatch ''add'' ''/spec'' VNil])"
    by code_simp
  have ns: "request_namespace ?h (ex_request op raw) = Returns (Inr None)" for op raw
    by (simp add: request_namespace_def ex_request_def namespaceKind_def)
  have u: "UnmarshalJSON ?h (rq_Object ?req) = Inr ex_pod"
    "UnmarshalJSON ?h (rq_Object (ex_request ''UPDATE'' ''mutated'')) =
      Inr (fst (System_Mutate ex_flags ex_selectors VNil ex_system ex_pod None))"
    by (simp_all add: ex_env_def ex_request_def ex_decode_def)
  have off: "\<not> MutationAnnotationsEnabled ex_flags" by (simp add: ex_flags_def)
  have "resp_Allowed (PatchResponse [JsonPatch ''add'' ''/spec'' VNil])" by simp
  from mutation_webhook_settles [OF reachable_ex_system off ns u(1) r this] ns u(2)
  show ?thesis by (metis fst_conv)
qed

text \<open>The mutating webhook only patches a create or update request of a user other than
  Gatekeeper, for an object that is none of Gatekeeper's own resources and is not in a
  namespace excluded from mutation; with a client it always returns, and it refuses only with
  an internal error.\<close>

theorem mutation_webhook_scope:
  assumes "we_client h = Some c"
  shows "\<exists>r. fst (mutation_Handle h fl sel uuid s req) = Returns r \<and>
    (resp_Allowed r \<or> status_code r = 500) \<and>
    (resp_Patches r = [] \<or>
     rq_Operation req \<in> {''CREATE'', ''UPDATE''} \<and> rq_Username req \<noteq> serviceaccount h \<and>
     gvk_Group (rq_Kind req) \<notin> {''templates.gatekeeper.sh'', ''constraints.gatekeeper.sh'',
       ''mutations.gatekeeper.sh'', ''config.gatekeeper.sh'', ''status.gatekeeper.sh''} \<and>
     \<not> excluded_for h req ''mutation-webhook'')"
proof -
  obtain r where r: "fst (mutation_Handle h fl sel uuid s req) = Returns r"
    and code: "resp_Allowed r \<or> status_code r = 500"
  proof -
    obtain r' where "mutateRequest h fl sel uuid s req = Returns r'"
      using mutateRequest_returns [OF assms] by blast
    then show thesis
      using that mutateRequest_code mutation_Handle_cases [where h = h and fl = fl and sel = sel and uuid = uuid and s = s and req = req]
      by (metis ValidationResponse_simps(1))
  qed
  have "resp_Patches r = [] \<or> rq_Operation req \<in> {''CREATE'', ''UPDATE''} \<and> rq_Username req \<noteq> serviceaccount h \<and>
      \<not> isGatekeeperResource req \<and> \<not> excluded_for h req process_Mutation"
    using mutation_Handle_patches [OF r] by blast
  then show ?thesis
    using r code unfolding isGatekeeperResource_def mutationsGroup_def process_Mutation_def
    by (intro exI [of _ r] conjI) (auto split: if_splits)
qed

theorem mutation_webhook_scope_witness:
  "\<exists>r. fst (mutation_Handle (ex_env []) ex_flags ex_selectors VNil ex_system (ex_request ''CREATE'' ''pod'')) = Returns r \<and>
    resp_Patches r \<noteq> [] \<and> rq_Username (ex_request ''CREATE'' ''pod'') \<noteq> serviceaccount (ex_env [])"
proof -
  have "case fst (mutation_Handle (ex_env []) ex_flags ex_selectors VNil ex_system (ex_request ''CREATE'' ''pod'')) of
      Returns r \<Rightarrow> resp_Patches r \<noteq> [] | Panics \<Rightarrow> False"
    by code_simp
  moreover have "\<exists>c. we_client (ex_env []) = Some c" by (simp add: ex_env_def)
  ultimately show ?thesis
    using mutation_webhook_scope [where h = "ex_env []" and fl = ex_flags and sel = ex_selectors and uuid = VNil
        and s = ex_system and req = "ex_request ''CREATE'' ''pod''"] by auto
qed

section \<open>Behaviours that diverge from what the code or its documentation intends\<close>

text \<open>A failed mutation is reported to the metrics as a success.\<close>

lemma failed_mutation_reported_success:
  "(case mutation_Handle (ex_env []) ex_flags ex_selectors VNil ex_system (ex_request ''CREATE'' ''bad'') of
     (Returns r, rep) \<Rightarrow> \<not> resp_Allowed r \<and> status_code r = 500 \<and> rep = Some successResponse
   | (Panics, _) \<Rightarrow> False)"
  by code_simp

text \<open>An unsupported enforcement action of a constraint, an error of the user, is answered as
  an internal error.\<close>

lemma unsupported_action_is_internal:
  assumes "dec_Unstructured h (rq_Object req) = Inr obj" "opa_ValidateConstraint h obj = None"
    "NestedString obj [''spec'', ''enforcementAction''] = Inr (Some a)" "a \<notin> {[], Deny, Dryrun, Warn}"
    "\<not> disableEnforcementActionValidation h"
  shows "validateConstraint h req = (False, Some (ActionErr (ErrEnforcementAction a)))"
  using assms by (simp add: validateConstraint_def ValidateEnforcementAction_def supportedEnforcementActions_def)

text \<open>Without a client and an injected config, a review dereferences the nil config.\<close>

lemma nil_config_panics:
  "injectedConfig h = None \<Longrightarrow> we_client h = None \<Longrightarrow> \<not> we_semaphore h \<Longrightarrow> reviewRequest h req = Panics"
  by (simp add: reviewRequest_def tracingLevel_def getConfig_def)

end
