(* ===== verification/Target.thy ===== *)
theory Target
  imports Webhook
begin

text \<open>
  The Kubernetes validation target (\<open>pkg/target/target.go\<close>): the document path under which an
  object is stored as data in OPA, the reviews made of the objects that callers hand in, the
  resource attached to a violation, and the validation of a constraint's selectors. JSON
  encoding is a parameter.
\<close>

section \<open>Package path and url.PathEscape\<close>

text \<open>The bytes that \<open>url.PathEscape\<close> leaves as they are.\<close>

definition unescaped :: "char \<Rightarrow> bool" where
  "unescaped c \<longleftrightarrow>
     (let b = byte c in (48 \<le> b \<and> b \<le> 57) \<or> (65 \<le> b \<and> b \<le> 90) \<or> (97 \<le> b \<and> b \<le> 122)) \<or>
     c \<in> set ''-_.~$&+:=@''"

definition upperhex :: "nat \<Rightarrow> char" where
  "upperhex n = ''0123456789ABCDEF'' ! n"

definition PathEscape :: "string \<Rightarrow> string" where
  "PathEscape s =
     concat (map (\<lambda>c. if unescaped c then [c]
       else [CHR ''%'', upperhex (byte c div 16), upperhex (byte c mod 16)]) s)"

text \<open>\<open>path.Clean\<close> on the elements of a path: empty and \<open>.\<close> elements go, \<open>..\<close> drops the
  element before it. \<open>acc\<close> holds the elements in reverse.\<close>

fun clean_loop :: "bool \<Rightarrow> string list \<Rightarrow> string list \<Rightarrow> string list" where
  "clean_loop rooted [] acc = rev acc"
| "clean_loop rooted (e # es) acc =
     (if e = [] \<or> e = ''.'' then clean_loop rooted es acc
      else if e = ''..'' then
        (case acc of
           [] \<Rightarrow> clean_loop rooted es (if rooted then [] else [''..''])
         | a # as \<Rightarrow> if a = ''..'' then clean_loop rooted es (''..'' # acc) else clean_loop rooted es as)
      else clean_loop rooted es (e # acc))"

definition path_Clean :: "string \<Rightarrow> string" where
  "path_Clean p =
     (if p = [] then ''.''
      else let rooted = (hd p = CHR ''/'');
               body = Join (clean_loop rooted (Split p (CHR ''/'')) []) ''/''
        in if rooted then CHR ''/'' # body else if body = [] then ''.'' else body)"

definition path_Join :: "string list \<Rightarrow> string" where
  "path_Join elems =
     (case filter (\<lambda>e. e \<noteq> []) elems of [] \<Rightarrow> [] | es \<Rightarrow> path_Clean (Join es ''/''))"

section \<open>Data\<close>

text \<open>What \<open>ProcessData\<close> is called with; the answer is whether the data is handled, its path
  and the document, or an error.\<close>

datatype target_data = UnstructuredData object | WipeData | OtherData

type_synonym processed = "bool \<times> string \<times> object option"

definition target_GetName :: string where
  "target_GetName = ''admission.k8s.gatekeeper.sh''"

definition processWipeData :: "processed" where
  "processWipeData = (True, [], None)"

definition gv_string :: "GVK \<Rightarrow> string" where
  "gv_string gvk = GV_String (gvk_Group gvk) (gvk_Version gvk)"

definition processUnstructured :: "object \<Rightarrow> string + processed" where
  "processUnstructured ob =
     (let gvk = GroupVersionKind ob in
      if gvk_Version gvk = [] then Inl (''resource '' @ GetName ob @ '' has no version'')
      else if gvk_Kind gvk = [] then Inl (''resource '' @ GetName ob @ '' has no kind'')
      else if GetNamespace ob = []
      then Inr (True, path_Join [''cluster'', PathEscape (gv_string gvk), gvk_Kind gvk, GetName ob], Some ob)
      else Inr (True, path_Join [''namespace'', GetNamespace ob, PathEscape (gv_string gvk), gvk_Kind gvk, GetName ob],
                Some ob))"

definition ProcessData :: "target_data \<Rightarrow> string + processed" where
  "ProcessData d =
     (case d of
        UnstructuredData ob \<Rightarrow> processUnstructured ob
      | WipeData \<Rightarrow> Inr processWipeData
      | OtherData \<Rightarrow> Inr (False, [], None))"

section \<open>Reviews\<close>

text \<open>The values that \<open>HandleReview\<close> knows, and the reviews it makes of them. An
  \<open>AugmentedReview\<close> carries the namespace object under \<open>_unstable\<close>.\<close>

datatype review_arg =
    ReqArg AdmissionRequest
  | AugReviewArg AugmentedReview
  | AugObjectArg object "NamespaceObj option"
  | ObjectArg object
  | OtherArg

datatype review =
    PlainReview AdmissionRequest
  | gkReview AdmissionRequest "NamespaceObj option"

definition unstructuredToAdmissionRequest :: "(object \<Rightarrow> string option) \<Rightarrow> object \<Rightarrow> string + AdmissionRequest" where
  "unstructuredToAdmissionRequest marshal obj =
     (case marshal obj of
        None \<Rightarrow> Inl ''Unable to marshal JSON encoding of object''
      | Some resourceJSON \<Rightarrow>
          Inr \<lparr>rq_Kind = GroupVersionKind obj, rq_Name = GetName obj, rq_Namespace = [], rq_Operation = [],
               rq_Username = [], rq_Object = Some resourceJSON, rq_OldObject = None\<rparr>)"

definition augmentedUnstructuredToAdmissionRequest ::
    "(object \<Rightarrow> string option) \<Rightarrow> object \<Rightarrow> NamespaceObj option \<Rightarrow> string + review" where
  "augmentedUnstructuredToAdmissionRequest marshal obj ns =
     (case unstructuredToAdmissionRequest marshal obj of
        Inl err \<Rightarrow> Inl err
      | Inr req \<Rightarrow>
          Inr (gkReview (case ns of None \<Rightarrow> req | Some n \<Rightarrow> req\<lparr>rq_Namespace := ns_Name n\<rparr>) ns))"

definition HandleReview :: "(object \<Rightarrow> string option) \<Rightarrow> review_arg \<Rightarrow> string + review option" where
  "HandleReview marshal obj =
     (case obj of
        ReqArg req \<Rightarrow> Inr (Some (PlainReview req))
      | AugReviewArg data \<Rightarrow> Inr (Some (gkReview (ar_Request data) (ar_Namespace data)))
      | AugObjectArg ob ns \<Rightarrow> map_sum id Some (augmentedUnstructuredToAdmissionRequest marshal ob ns)
      | ObjectArg ob \<Rightarrow> map_sum id (\<lambda>r. Some (PlainReview r)) (unstructuredToAdmissionRequest marshal ob)
      | OtherArg \<Rightarrow> Inr None)"

section \<open>Violations\<close>

definition target_getString :: "object \<Rightarrow> string \<Rightarrow> string + string" where
  "target_getString m k =
     (case NestedFieldNoCopy (VMap m) [''kind'', k] of
        Inl err \<Rightarrow> Inl err
      | Inr None \<Rightarrow> Inl (''review[kind]['' @ k @ ''] does not exist'')
      | Inr (Some (VString s)) \<Rightarrow> Inr s
      | Inr (Some _) \<Rightarrow> Inl (''review[kind]['' @ k @ ''] is not a string''))"

text \<open>\<open>unstructured.NestedMap\<close>: the deep copy of a nested map, \<open>None\<close> when it is missing.\<close>

definition NestedMap :: "object \<Rightarrow> string list \<Rightarrow> string + object option" where
  "NestedMap ob fs =
     (case NestedFieldNoCopy (VMap ob) fs of
        Inl err \<Rightarrow> Inl err
      | Inr None \<Rightarrow> Inr None
      | Inr (Some (VMap m)) \<Rightarrow> Inr (Some m)
      | Inr (Some _) \<Rightarrow> Inl ''accessor error'')"

definition nestedMap :: "object \<Rightarrow> string \<Rightarrow> string + object option" where
  "nestedMap rmap field =
     (case NestedMap rmap [field] of
        Inr (Some objMap) \<Rightarrow> Inr (Some objMap)
      | r \<Rightarrow> if NestedFieldNoCopy (VMap rmap) [field] = Inr (Some VNil) then Inr None else r)"

text \<open>The resource of a violation; \<open>reencode\<close> is \<open>json.Marshal\<close> followed by \<open>json.Unmarshal\<close> into
  an unstructured object.\<close>

definition HandleViolation :: "(object \<Rightarrow> string + object) \<Rightarrow> val \<Rightarrow> string + object" where
  "HandleViolation reencode rv =
     (case rv of
        VMap rmap \<Rightarrow>
          (case (target_getString rmap ''group'', target_getString rmap ''version'', target_getString rmap ''kind'') of
             (Inr g, Inr v, Inr k) \<Rightarrow>
               (let apiVersion = (if g = [] then v else g @ ''/'' @ v) in
                case (case nestedMap rmap ''object'' of
                        Inl err \<Rightarrow> Inl (''HandleViolation:NestedMap: '' @ err)
                      | Inr (Some objMap) \<Rightarrow> Inr objMap
                      | Inr None \<Rightarrow>
                          (case nestedMap rmap ''oldObject'' of
                             Inl err \<Rightarrow> Inl (''HandleViolation:NestedMapOldObj: '' @ err)
                           | Inr (Some objMap) \<Rightarrow> Inr objMap
                           | Inr None \<Rightarrow> Inl ''no object or oldObject returned in review'')) of
                  Inl err \<Rightarrow> Inl err
                | Inr objMap \<Rightarrow>
                    reencode (mput ''kind'' (VString k) (mput ''apiVersion'' (VString apiVersion) objMap)))
           | (Inl err, _, _) \<Rightarrow> Inl err
           | (_, Inl err, _) \<Rightarrow> Inl err
           | (_, _, Inl err) \<Rightarrow> Inl err)
      | _ \<Rightarrow> Inl ''could not cast review as map[string]'')"

section \<open>Constraints\<close>

text \<open>\<open>convert\<close> is the JSON encoding of a map decoded as a label selector, \<open>validate\<close> is
  \<open>ValidateLabelSelector\<close> of apimachinery.\<close>

definition check_selector ::
    "(object \<Rightarrow> string + LabelSelector) \<Rightarrow> (LabelSelector \<Rightarrow> string list) \<Rightarrow> object \<Rightarrow> string \<Rightarrow> string option" where
  "check_selector convert validate u field =
     (case NestedMap u [''spec'', ''match'', field] of
        Inl err \<Rightarrow> Some err
      | Inr None \<Rightarrow> None
      | Inr (Some m) \<Rightarrow>
          (case convert m of
             Inl err \<Rightarrow> Some err
           | Inr sel \<Rightarrow> if length (validate sel) > 0 then Some (Join (validate sel) '', '') else None))"

definition target_ValidateConstraint ::
    "(object \<Rightarrow> string + LabelSelector) \<Rightarrow> (LabelSelector \<Rightarrow> string list) \<Rightarrow> object \<Rightarrow> string option" where
  "target_ValidateConstraint convert validate u =
     (case check_selector convert validate u ''labelSelector'' of
        Some err \<Rightarrow> Some err
      | None \<Rightarrow> check_selector convert validate u ''namespaceSelector'')"

section \<open>Paths determine objects\<close>

text \<open>A path element that \<open>Clean\<close> keeps.\<close>

definition plain_element :: "string \<Rightarrow> bool" where
  "plain_element e \<longleftrightarrow> e \<noteq> [] \<and> e \<noteq> ''.'' \<and> e \<noteq> ''..'' \<and> CHR ''/'' \<notin> set e"

lemma clean_loop_plain:
  "list_all plain_element es \<Longrightarrow> clean_loop rooted es acc = rev acc @ es"
  by (induction es arbitrary: acc) (auto simp: plain_element_def)

lemma SplitN_Join:
  "list_all plain_element es \<Longrightarrow> es \<noteq> [] \<Longrightarrow> length es \<le> Suc n \<Longrightarrow>
    SplitN (Join es ''/'') (CHR ''/'') (Suc n) = es"
proof (induction es arbitrary: n)
  case (Cons e es)
  have e: "CHR ''/'' \<notin> set e" using Cons.prems by (simp add: plain_element_def)
  show ?case
  proof (cases es)
    case Nil
    then show ?thesis using SplitN_last [OF e, of n] by simp
  next
    case (Cons f fs)
    obtain n' where n: "n = Suc n'" using Cons.prems(3) Cons by (cases n) auto
    have "SplitN (e @ CHR ''/'' # Join es ''/'') (CHR ''/'') (Suc (Suc n')) = e # SplitN (Join es ''/'') (CHR ''/'') (Suc n')"
      by (rule SplitN_sep [OF e])
    then show ?thesis using Cons.IH [of n'] Cons.prems Cons n by simp
  qed
qed simp

lemma length_Join: "list_all plain_element es \<Longrightarrow> length es \<le> length (Join es ''/'')"
  by (induction es rule: induct_list012) (auto simp: plain_element_def neq_Nil_conv)

lemma Join_inj:
  assumes "list_all plain_element es" "list_all plain_element fs" "es \<noteq> []" "fs \<noteq> []"
    and "Join es ''/'' = Join fs ''/''"
  shows "es = fs"
proof -
  have "es = SplitN (Join es ''/'') (CHR ''/'') (Suc (length es + length fs))"
    by (rule SplitN_Join [symmetric]) (use assms in simp_all)
  also have "\<dots> = fs" unfolding assms(5) by (rule SplitN_Join) (use assms in simp_all)
  finally show ?thesis .
qed

lemma path_Join_plain:
  assumes "list_all plain_element es" "es \<noteq> []"
  shows "path_Join es = Join es ''/''"
proof -
  obtain e es' where es: "es = e # es'" using assms(2) by (cases es) auto
  have f: "filter (\<lambda>e. e \<noteq> []) es = es"
    using assms(1) by (auto simp: filter_id_conv list_all_iff plain_element_def)
  have e: "e \<noteq> []" "CHR ''/'' \<notin> set e" using assms(1) es by (simp_all add: plain_element_def)
  have hd: "hd (Join es ''/'') \<noteq> CHR ''/''" "Join es ''/'' \<noteq> []"
  proof -
    obtain r where "Join es ''/'' = e @ r" by (cases es') (simp_all add: es)
    then show "hd (Join es ''/'') \<noteq> CHR ''/''" "Join es ''/'' \<noteq> []" using e by (cases e; auto)+
  qed
  have "Split (Join es ''/'') (CHR ''/'') = es"
    unfolding Split_def using SplitN_Join [OF assms, of "length (Join es ''/'')"] length_Join [OF assms(1)] by simp
  then have "path_Clean (Join es ''/'') = Join es ''/''"
    using hd assms clean_loop_plain [OF assms(1), of False "[]"] by (simp add: path_Clean_def Let_def)
  then show ?thesis using f assms(2) by (auto simp: path_Join_def split: list.split)
qed

lemma upperhex_inj: "m < 16 \<Longrightarrow> n < 16 \<Longrightarrow> upperhex m = upperhex n \<Longrightarrow> m = n"
  unfolding upperhex_def by (subst (asm) nth_eq_iff_index_eq) simp_all

lemma hex_bounds: "byte c div 16 < 16" "byte c mod 16 < 16"
proof -
  have "byte c < 16 * 16" using nat_of_char_less_256 [of c] by simp
  then show "byte c div 16 < 16" by (rule less_mult_imp_div_less)
qed simp

lemma hex_inj:
  assumes "upperhex (byte c div 16) = upperhex (byte d div 16)" "upperhex (byte c mod 16) = upperhex (byte d mod 16)"
  shows "c = d"
proof -
  have "byte c div 16 = byte d div 16" by (rule upperhex_inj [OF hex_bounds(1) hex_bounds(1) assms(1)])
  moreover have "byte c mod 16 = byte d mod 16" by (rule upperhex_inj [OF hex_bounds(2) hex_bounds(2) assms(2)])
  ultimately have "byte c = byte d" by (metis div_mult_mod_eq)
  then show ?thesis by simp
qed

lemma unescaped_percent: "\<not> unescaped (CHR ''%'')"
  by (simp add: unescaped_def)

lemma PathEscape_simps [simp]:
  "PathEscape [] = []"
  "PathEscape (c # s) = (if unescaped c then [c] else [CHR ''%'', upperhex (byte c div 16), upperhex (byte c mod 16)]) @ PathEscape s"
  by (simp_all add: PathEscape_def)

lemma PathEscape_inj: "PathEscape s = PathEscape t \<Longrightarrow> s = t"
proof (induction s arbitrary: t)
  case Nil
  then show ?case by (cases t) (auto split: if_splits)
next
  case (Cons c s)
  then obtain d t' where t: "t = d # t'" by (cases t) (auto split: if_splits)
  have "c = d \<and> PathEscape s = PathEscape t'"
    using Cons.prems t unescaped_percent hex_inj [of c d] by (auto split: if_splits)
  then show ?case using Cons.IH t by simp
qed

lemma upperhex_not_slash: "n < 16 \<Longrightarrow> upperhex n \<noteq> CHR ''/''"
proof -
  assume "n < 16"
  then have "upperhex n \<in> set ''0123456789ABCDEF''" unfolding upperhex_def by (intro nth_mem) simp
  then show ?thesis by auto
qed

lemma PathEscape_no_slash: "CHR ''/'' \<notin> set (PathEscape s)"
proof (induction s)
  case (Cons c s)
  have "\<not> unescaped (CHR ''/'')" by (simp add: unescaped_def)
  moreover have "upperhex (byte c div 16) \<noteq> CHR ''/''" "upperhex (byte c mod 16) \<noteq> CHR ''/''"
    using hex_bounds [of c] by (simp_all add: upperhex_not_slash)
  ultimately show ?case using Cons by auto
qed simp

lemma PathEscape_plain:
  assumes "s \<noteq> []" "s \<noteq> ''.''" "s \<noteq> ''..''"
  shows "plain_element (PathEscape s)"
proof -
  have dots: "PathEscape ''.'' = ''.''" "PathEscape ''..'' = ''..''" "PathEscape [] = []"
    by (simp_all add: unescaped_def)
  show ?thesis
    using assms PathEscape_no_slash [of s] PathEscape_inj [of s "''.''"] PathEscape_inj [of s "''..''"]
      PathEscape_inj [of s "[]"] dots
    by (auto simp: plain_element_def)
qed

text \<open>Objects whose names have no slash and are not dots, as the API server requires.\<close>

definition plain_object :: "object \<Rightarrow> bool" where
  "plain_object ob \<longleftrightarrow>
     (let gvk = GroupVersionKind ob in
      plain_element (gvk_Version gvk) \<and> plain_element (gvk_Kind gvk) \<and> plain_element (GetName ob) \<and>
      (GetNamespace ob = [] \<or> plain_element (GetNamespace ob)))"

lemma group_no_slash: "CHR ''/'' \<notin> set (gvk_Group (GroupVersionKind ob))"
  by (auto simp: GroupVersionKind_def ParseGroupVersion_def Let_def split: option.split if_splits dest: set_takeWhileD)

definition path_elements :: "object \<Rightarrow> string list" where
  "path_elements ob =
     (let gvk = GroupVersionKind ob in
      (if GetNamespace ob = [] then [''cluster''] else [''namespace'', GetNamespace ob]) @
      [PathEscape (gv_string gvk), gvk_Kind gvk, GetName ob])"

lemma gv_string_plain:
  assumes "plain_object ob"
  shows "plain_element (PathEscape (gv_string (GroupVersionKind ob)))"
proof -
  define g v where "g = gvk_Group (GroupVersionKind ob)" and "v = gvk_Version (GroupVersionKind ob)"
  have v: "v \<noteq> []" "v \<noteq> ''.''" "v \<noteq> ''..''" "CHR ''/'' \<notin> set v"
    using assms by (simp_all add: plain_object_def plain_element_def v_def Let_def)
  have slash: "CHR ''/'' \<in> set (g @ ''/'' @ v)" by simp
  have "g @ ''/'' @ v \<noteq> ''.''"
  proof
    assume "g @ ''/'' @ v = ''.''"
    then show False using slash unfolding \<open>g @ ''/'' @ v = ''.''\<close> by simp
  qed
  moreover have "g @ ''/'' @ v \<noteq> ''..''"
  proof
    assume "g @ ''/'' @ v = ''..''"
    then show False using slash unfolding \<open>g @ ''/'' @ v = ''..''\<close> by simp
  qed
  ultimately show ?thesis
    using v by (intro PathEscape_plain) (auto simp: gv_string_def GV_String_def g_def [symmetric] v_def [symmetric])
qed

lemma processUnstructured_plain:
  assumes "plain_object ob"
  shows "processUnstructured ob = Inr (True, Join (path_elements ob) ''/'', Some ob)"
    and "list_all plain_element (path_elements ob)" "path_elements ob \<noteq> []"
proof -
  have lits: "plain_element ''cluster''" "plain_element ''namespace''" by (simp_all add: plain_element_def)
  show p: "list_all plain_element (path_elements ob)" "path_elements ob \<noteq> []"
    using assms gv_string_plain [OF assms] lits by (auto simp: path_elements_def plain_object_def Let_def)
  have "gvk_Version (GroupVersionKind ob) \<noteq> []" "gvk_Kind (GroupVersionKind ob) \<noteq> []"
    using assms by (simp_all add: plain_object_def plain_element_def Let_def)
  then show "processUnstructured ob = Inr (True, Join (path_elements ob) ''/'', Some ob)"
    using path_Join_plain [OF p] by (auto simp: processUnstructured_def path_elements_def Let_def)
qed

lemma gv_string_inj:
  assumes "gv_string a = gv_string b"
    and "CHR ''/'' \<notin> set (gvk_Group a)" "CHR ''/'' \<notin> set (gvk_Version a)"
    and "CHR ''/'' \<notin> set (gvk_Group b)" "CHR ''/'' \<notin> set (gvk_Version b)"
  shows "gvk_Group a = gvk_Group b \<and> gvk_Version a = gvk_Version b"
proof -
  have split: "SplitN (gv_string x) (CHR ''/'') 2 = (if gvk_Group x = [] then [gvk_Version x] else [gvk_Group x, gvk_Version x])"
    if "CHR ''/'' \<notin> set (gvk_Group x)" "CHR ''/'' \<notin> set (gvk_Version x)" for x
    using that SplitN_sep [of "CHR ''/''" "gvk_Group x" "gvk_Version x" 0]
    by (auto simp: gv_string_def GV_String_def numeral_2_eq_2)
  show ?thesis
    using split [OF assms(2,3)] split [OF assms(4,5)] assms(1) by (auto split: if_splits)
qed

lemma data_path_inj:
  assumes "plain_object a" "plain_object b"
    and "processUnstructured a = Inr (h, p, d)" "processUnstructured b = Inr (h', p, d')"
  shows "GroupVersionKind a = GroupVersionKind b \<and> GetNamespace a = GetNamespace b \<and> GetName a = GetName b"
proof -
  have "Join (path_elements a) ''/'' = Join (path_elements b) ''/''"
    using assms processUnstructured_plain(1) by simp
  then have eq: "path_elements a = path_elements b"
    using processUnstructured_plain(2,3) assms(1,2) by (intro Join_inj) auto
  then have "gv_string (GroupVersionKind a) = gv_string (GroupVersionKind b)" and
    rest: "gvk_Kind (GroupVersionKind a) = gvk_Kind (GroupVersionKind b)" "GetNamespace a = GetNamespace b" "GetName a = GetName b"
    by (auto simp: path_elements_def Let_def dest!: PathEscape_inj split: if_splits)
  moreover have "CHR ''/'' \<notin> set (gvk_Version (GroupVersionKind x))" if "plain_object x" for x
    using that by (simp add: plain_object_def plain_element_def Let_def)
  ultimately have "gvk_Group (GroupVersionKind a) = gvk_Group (GroupVersionKind b) \<and>
      gvk_Version (GroupVersionKind a) = gvk_Version (GroupVersionKind b)"
    using assms(1,2) group_no_slash gv_string_inj by blast
  then show ?thesis using rest by (metis GVK.expand)
qed

end
