(* ===== verification/Sync_Controller.thy ===== *)
theory Sync_Controller
  imports Target Ready_Operations Watch_Set
begin

text \<open>
  The data that OPA holds and the sync controller that feeds it
  (\<open>pkg/controller/sync/opadataclient.go\<close>, \<open>sync_controller.go\<close>): the OPA client's store as a
  map from document paths to objects, the client that filters by the watched kinds, the
  metrics cache, and the reconciliation of one object. The OPA client is the vendored
  framework's: for the one target it asks \<open>ProcessData\<close> and stores or deletes the document;
  whether the driver fails on a path is a parameter. The documents of objects do not lie
  under each other, so the store is flat.
\<close>

section \<open>The OPA data client\<close>

type_synonym opa_data = "(string, object) gomap"

record opa_driver =
  put_err :: "string \<Rightarrow> string option"
  delete_err :: "string \<Rightarrow> string option"

definition client_AddData :: "opa_driver \<Rightarrow> target_data \<Rightarrow> opa_data \<Rightarrow> opa_data \<times> string option" where
  "client_AddData drv d store =
     (case ProcessData d of
        Inl err \<Rightarrow> (store, Some err)
      | Inr (handled, p, doc) \<Rightarrow>
          if \<not> handled then (store, None)
          else (case put_err drv p of
                  Some err \<Rightarrow> (store, Some err)
                | None \<Rightarrow> (mput p (case doc of Some ob \<Rightarrow> ob | None \<Rightarrow> []) store, None)))"

text \<open>Deleting the root deletes everything.\<close>

definition client_RemoveData :: "opa_driver \<Rightarrow> target_data \<Rightarrow> opa_data \<Rightarrow> opa_data \<times> string option" where
  "client_RemoveData drv d store =
     (case ProcessData d of
        Inl err \<Rightarrow> (store, Some err)
      | Inr (handled, p, doc) \<Rightarrow>
          if \<not> handled then (store, None)
          else (case delete_err drv p of
                  Some err \<Rightarrow> (store, Some err)
                | None \<Rightarrow> (if p = [] then [] else mdel p store, None)))"

text \<open>Whether \<open>FilteredDataClient\<close> passes data on: an API object only when its kind is
  watched.\<close>

definition filter_passes :: "gvk_set \<Rightarrow> target_data \<Rightarrow> bool" where
  "filter_passes watched d =
     (case d of UnstructuredData ob \<Rightarrow> Set_Contains (GroupVersionKind ob) watched | _ \<Rightarrow> True)"

definition Filtered_AddData :: "opa_driver \<Rightarrow> gvk_set \<Rightarrow> target_data \<Rightarrow> opa_data \<Rightarrow> opa_data \<times> string option" where
  "Filtered_AddData drv watched d store =
     (if \<not> filter_passes watched d then (store, None) else client_AddData drv d store)"

definition Filtered_RemoveData :: "opa_driver \<Rightarrow> gvk_set \<Rightarrow> target_data \<Rightarrow> opa_data \<Rightarrow> opa_data \<times> string option" where
  "Filtered_RemoveData drv watched d store =
     (if \<not> filter_passes watched d then (store, None) else client_RemoveData drv d store)"

section \<open>The metrics cache\<close>

record Tags =
  tag_Kind :: string
  tag_Status :: string

definition ActiveStatus :: string where "ActiveStatus = ''active''"
definition ErrorStatus :: string where "ErrorStatus = ''error''"

definition AllStatuses :: "string list" where
  "AllStatuses = [ActiveStatus, ErrorStatus]"

record MetricsCache =
  mc_Cache :: "(string, Tags) gomap"
  KnownKinds :: "(string, bool) gomap"

definition NewMetricsCache :: MetricsCache where
  "NewMetricsCache = \<lparr>mc_Cache = [], KnownKinds = []\<rparr>"

definition GetSyncKey :: "string \<Rightarrow> string \<Rightarrow> string" where
  "GetSyncKey namespace name = Join [namespace, name] ''/''"

definition addKind :: "string \<Rightarrow> MetricsCache \<Rightarrow> MetricsCache" where
  "addKind k c = c\<lparr>KnownKinds := mput k True (KnownKinds c)\<rparr>"

definition ResetCache :: "MetricsCache \<Rightarrow> MetricsCache" where
  "ResetCache c = c\<lparr>mc_Cache := []\<rparr>"

definition AddObject :: "string \<Rightarrow> Tags \<Rightarrow> MetricsCache \<Rightarrow> MetricsCache" where
  "AddObject k t c = c\<lparr>mc_Cache := mput k \<lparr>tag_Kind = tag_Kind t, tag_Status = tag_Status t\<rparr> (mc_Cache c)\<rparr>"

definition DeleteObject :: "string \<Rightarrow> MetricsCache \<Rightarrow> MetricsCache" where
  "DeleteObject k c = c\<lparr>mc_Cache := mdel k (mc_Cache c)\<rparr>"

text \<open>The values reported for every known kind and status.\<close>

definition ReportSync :: "MetricsCache \<Rightarrow> (Tags \<times> nat) list" where
  "ReportSync c =
     concat (map (\<lambda>kind. map (\<lambda>status. let t = \<lparr>tag_Kind = kind, tag_Status = status\<rparr> in
       (t, length (filter (\<lambda>v. v = t) (map snd (mc_Cache c))))) AllStatuses) (mkeys (KnownKinds c)))"

section \<open>Reconciliation of an object\<close>

text \<open>What the sync and the config controller share.\<close>

record DataState =
  ds_watched :: gvk_set
  ds_excluder :: Excluder
  ds_store :: opa_data
  ds_metrics :: MetricsCache
  ds_tracker :: Tracker

text \<open>\<open>sy_deleted\<close> says whether the deletion timestamp of an object is a time.\<close>

record SyncEnv =
  sy_driver :: opa_driver
  sy_Get :: "GVK \<Rightarrow> string \<Rightarrow> string \<Rightarrow> GetErr + object"
  sy_deleted :: "object \<Rightarrow> bool"

definition sync_excluded :: "Excluder \<Rightarrow> object \<Rightarrow> bool" where
  "sync_excluded excluder ob =
     (case IsNamespaceExcluded process_Sync (runtime_object ob) excluder of Inl _ \<Rightarrow> False | Inr b \<Rightarrow> b)"

text \<open>\<open>t := r.tracker.ForData(gvk)\<close> and a call on it.\<close>

definition tracker_data_call :: "GVK \<Rightarrow> event \<Rightarrow> Tracker \<Rightarrow> Tracker" where
  "tracker_data_call gvk ev t = (let (t', es) = ForData gvk t in call es ev t')"

text \<open>The removal of an object's data, on a deletion.\<close>

definition sync_remove :: "SyncEnv \<Rightarrow> object \<Rightarrow> bool \<Rightarrow> string \<Rightarrow> DataState \<Rightarrow> DataState \<times> string option" where
  "sync_remove env ob deleted syncKey s =
     (case Filtered_RemoveData (sy_driver env) (ds_watched s) (UnstructuredData ob) (ds_store s) of
        (store, Some err) \<Rightarrow> (s\<lparr>ds_store := store\<rparr>, Some err)
      | (store, None) \<Rightarrow>
          (s\<lparr>ds_store := store,
             ds_tracker := tracker_data_call (GroupVersionKind ob) (EvCancel (UnstructuredObject ob deleted)) (ds_tracker s),
             ds_metrics := DeleteObject syncKey (ds_metrics s)\<rparr>, None))"

definition sync_add :: "SyncEnv \<Rightarrow> GVK \<Rightarrow> object \<Rightarrow> string \<Rightarrow> DataState \<Rightarrow> DataState \<times> string option" where
  "sync_add env gvk ob syncKey s =
     (let kind = getNestedString ob [''kind''] in
      case Filtered_AddData (sy_driver env) (ds_watched s) (UnstructuredData ob) (ds_store s) of
        (store, Some err) \<Rightarrow>
          (s\<lparr>ds_store := store,
             ds_metrics := AddObject syncKey \<lparr>tag_Kind = kind, tag_Status = ErrorStatus\<rparr> (ds_metrics s)\<rparr>, Some err)
      | (store, None) \<Rightarrow>
          (s\<lparr>ds_store := store,
             ds_tracker := tracker_data_call gvk (EvObserve (UnstructuredObject ob False)) (ds_tracker s),
             ds_metrics := addKind kind
               (AddObject syncKey \<lparr>tag_Kind = kind, tag_Status = ActiveStatus\<rparr> (ds_metrics s))\<rparr>, None))"

definition sync_Reconcile :: "SyncEnv \<Rightarrow> Request \<Rightarrow> DataState \<Rightarrow> DataState \<times> string option" where
  "sync_Reconcile env request s =
     (case UnpackRequest request of
        Inl _ \<Rightarrow> (s, None)
      | Inr (gvk, r) \<Rightarrow>
          (let syncKey = GetSyncKey (req_Namespace r) (req_Name r) in
           case sy_Get env gvk (req_Namespace r) (req_Name r) of
             Inl (IsNotFound _) \<Rightarrow>
               sync_remove env (newUnstructured gvk (req_Namespace r) (req_Name r)) False syncKey s
           | Inl (GetFailed err) \<Rightarrow> (s, Some err)
           | Inr instance \<Rightarrow>
               if sync_excluded (ds_excluder s) instance then
                 (s\<lparr>ds_tracker := tracker_data_call (GroupVersionKind instance)
                      (EvCancel (UnstructuredObject instance (sy_deleted env instance))) (ds_tracker s)\<rparr>, None)
               else if sy_deleted env instance then sync_remove env instance True syncKey s
               else sync_add env gvk instance syncKey s))"

section \<open>The data invariant\<close>

text \<open>Every document is stored under its own path, is of a watched kind and is not excluded
  from sync.\<close>

definition doc_ok :: "gvk_set \<Rightarrow> Excluder \<Rightarrow> string \<Rightarrow> object \<Rightarrow> bool" where
  "doc_ok watched excluder p ob \<longleftrightarrow>
     processUnstructured ob = Inr (True, p, Some ob) \<and> Set_Contains (GroupVersionKind ob) watched \<and>
     \<not> sync_excluded excluder ob"

definition data_ok :: "gvk_set \<Rightarrow> Excluder \<Rightarrow> opa_data \<Rightarrow> bool" where
  "data_ok watched excluder store \<longleftrightarrow> mwf store \<and> (\<forall>p ob. mget store p = Some ob \<longrightarrow> doc_ok watched excluder p ob)"

lemma data_ok_empty [simp]: "data_ok w e []"
  by (simp add: data_ok_def)

lemma processUnstructured_cases:
  assumes "processUnstructured ob = Inr (handled, p, doc)"
  shows "handled" "doc = Some ob"
  using assms by (auto simp: processUnstructured_def Let_def split: if_splits)

lemma client_AddData_cases:
  obtains p where "processUnstructured ob = Inr (True, p, Some ob)" "put_err drv p = None"
      "client_AddData drv (UnstructuredData ob) store = (mput p ob store, None)"
  | e where "client_AddData drv (UnstructuredData ob) store = (store, Some e)"
proof (cases "processUnstructured ob")
  case (Inl e)
  then show thesis using that(2) [of e] by (simp add: client_AddData_def ProcessData_def)
next
  case (Inr r)
  obtain handled p doc where r: "r = (handled, p, doc)" by (cases r)
  note c = processUnstructured_cases [OF Inr [unfolded r]]
  show thesis
    using that(1) [of p] that(2) c Inr r
    by (cases "put_err drv p") (auto simp: client_AddData_def ProcessData_def)
qed

lemma data_ok_AddData:
  assumes "data_ok w e store" "\<not> sync_excluded e ob"
  shows "data_ok w e (fst (Filtered_AddData drv w (UnstructuredData ob) store))"
proof (cases "Set_Contains (GroupVersionKind ob) w")
  case True
  then show ?thesis
    using assms by (cases rule: client_AddData_cases [of ob drv store])
      (auto simp: Filtered_AddData_def filter_passes_def data_ok_def doc_ok_def)
qed (use assms in \<open>simp add: Filtered_AddData_def filter_passes_def\<close>)

lemma data_ok_RemoveData:
  assumes "data_ok w e store"
  shows "data_ok w e (fst (Filtered_RemoveData drv w d store))"
  using assms
  by (auto simp: Filtered_RemoveData_def client_RemoveData_def data_ok_def split: sum.split prod.split option.split if_splits)

lemma sync_remove_frame:
  "ds_watched (fst (sync_remove env ob del k s)) = ds_watched s"
  "ds_excluder (fst (sync_remove env ob del k s)) = ds_excluder s"
  "ds_store (fst (sync_remove env ob del k s)) =
    fst (Filtered_RemoveData (sy_driver env) (ds_watched s) (UnstructuredData ob) (ds_store s))"
  by (auto simp: sync_remove_def split: prod.split option.split)

lemma sync_add_frame:
  "ds_watched (fst (sync_add env gvk ob k s)) = ds_watched s"
  "ds_excluder (fst (sync_add env gvk ob k s)) = ds_excluder s"
  "ds_store (fst (sync_add env gvk ob k s)) =
    fst (Filtered_AddData (sy_driver env) (ds_watched s) (UnstructuredData ob) (ds_store s))"
  by (auto simp: sync_add_def Let_def split: prod.split option.split)

lemma sync_Reconcile_frame:
  "ds_watched (fst (sync_Reconcile env r s)) = ds_watched s \<and> ds_excluder (fst (sync_Reconcile env r s)) = ds_excluder s"
  by (auto simp: sync_Reconcile_def Let_def sync_remove_frame sync_add_frame split: sum.split prod.split GetErr.split)

lemma sync_Reconcile_data_ok:
  assumes "data_ok (ds_watched s) (ds_excluder s) (ds_store s)"
  shows "data_ok (ds_watched s) (ds_excluder s) (ds_store (fst (sync_Reconcile env r s)))"
  using assms
  by (auto simp: sync_Reconcile_def Let_def sync_remove_frame sync_add_frame
      intro: data_ok_AddData data_ok_RemoveData split: sum.split prod.split GetErr.split)

end
