(* ===== verification/Config_Controller.thy ===== *)
theory Config_Controller
  imports Sync_Controller Watch_Replay
begin

text \<open>
  The config controller (\<open>pkg/controller/config/config_controller.go\<close>): it turns the \<open>Config\<close>
  resource into the set of synced kinds, the excluder and the watches, wipes OPA's data when
  they change and replays what stays. The state is the one shared with the sync controller,
  the pending wipe and replay, and the watch manager. Reconciliations of a controller do not
  overlap; a reconciliation is one step here.
\<close>

section \<open>State and environment\<close>

record ConfigState = DataState +
  needsReplay :: "gvk_set option"
  needsWipe :: bool
  rc_manager :: Manager

record ConfigInstance =
  ci_Spec :: ConfigSpec
  ci_deleting :: bool
  ci_Finalizers :: "string list"

text \<open>\<open>ce_running\<close> is the controller switch, if there is one.\<close>

record ConfigEnv =
  ce_running :: "bool option"
  ce_environ :: environ
  ce_Get :: "GetErr + ConfigInstance"
  ce_Update :: "ConfigInstance \<Rightarrow> string option"
  ce_List :: "GVK \<Rightarrow> string + object list"
  ce_driver :: opa_driver
  ce_cache :: cache_env
  ce_registrar :: nat

definition config_finalizer :: string where
  "config_finalizer = ''finalizers.gatekeeper.sh/config''"

definition containsString :: "string \<Rightarrow> string list \<Rightarrow> bool" where
  "containsString s items \<longleftrightarrow> list_ex (\<lambda>item. item = s) items"

definition removeString :: "string \<Rightarrow> string list \<Rightarrow> string list" where
  "removeString s items = filter (\<lambda>item. item \<noteq> s) items"

definition config_hasFinalizer :: "ConfigInstance \<Rightarrow> bool" where
  "config_hasFinalizer c = containsString config_finalizer (ci_Finalizers c)"

definition config_removeFinalizer :: "ConfigInstance \<Rightarrow> ConfigInstance" where
  "config_removeFinalizer c = c\<lparr>ci_Finalizers := removeString config_finalizer (ci_Finalizers c)\<rparr>"

section \<open>Wipe and replay\<close>

definition wipeCacheIfNeeded :: "ConfigEnv \<Rightarrow> ConfigState \<Rightarrow> ConfigState \<times> string option" where
  "wipeCacheIfNeeded env s =
     (if needsWipe s then
        (case Filtered_RemoveData (ce_driver env) (ds_watched s) WipeData (ds_store s) of
           (store, Some err) \<Rightarrow> (s\<lparr>ds_store := store\<rparr>, Some err)
         | (store, None) \<Rightarrow>
             (s\<lparr>ds_store := store, ds_metrics := ResetCache (ds_metrics s), needsWipe := False\<rparr>, None))
      else (s, None))"

fun replay_items :: "ConfigEnv \<Rightarrow> object list \<Rightarrow> ConfigState \<Rightarrow> ConfigState \<times> string option" where
  "replay_items env [] s = (s, None)"
| "replay_items env (ob # obs) s =
     (let syncKey = GetSyncKey (GetNamespace ob) (GetName ob); kind = getNestedString ob [''kind''] in
      if sync_excluded (ds_excluder s) ob then replay_items env obs s
      else (case Filtered_AddData (ce_driver env) (ds_watched s) (UnstructuredData ob) (ds_store s) of
              (store, Some err) \<Rightarrow>
                (s\<lparr>ds_store := store,
                   ds_metrics := AddObject syncKey \<lparr>tag_Kind = kind, tag_Status = ErrorStatus\<rparr> (ds_metrics s)\<rparr>,
                 Some (''adding data: '' @ err))
            | (store, None) \<Rightarrow>
                replay_items env obs (s\<lparr>ds_store := store,
                   ds_metrics := AddObject syncKey \<lparr>tag_Kind = kind, tag_Status = ActiveStatus\<rparr> (ds_metrics s)\<rparr>)))"

fun replay_kinds :: "ConfigEnv \<Rightarrow> GVK list \<Rightarrow> ConfigState \<Rightarrow> ConfigState \<times> string option" where
  "replay_kinds env [] s = (s, None)"
| "replay_kinds env (gvk # gvks) s =
     (case ce_List env gvk of
        Inl err \<Rightarrow> (s, Some (''replaying data: '' @ err))
      | Inr items \<Rightarrow>
          (case replay_items env items s of
             (s', Some err) \<Rightarrow> (s', Some err)
           | (s', None) \<Rightarrow>
               replay_kinds env gvks (s'\<lparr>needsReplay := map_option (Set_Remove [gvk]) (needsReplay s')\<rparr>)))"

definition replayData :: "ConfigEnv \<Rightarrow> ConfigState \<Rightarrow> ConfigState \<times> string option" where
  "replayData env s =
     (case needsReplay s of
        None \<Rightarrow> (s, None)
      | Some w \<Rightarrow>
          (case replay_kinds env (Set_Items (Some w)) s of
             (s', Some err) \<Rightarrow> (s', Some err)
           | (s', None) \<Rightarrow> (s'\<lparr>needsReplay := None\<rparr>, None)))"

definition removeStaleExpectations :: "gvk_set \<Rightarrow> ConfigState \<Rightarrow> ConfigState" where
  "removeStaleExpectations stale s = s\<lparr>ds_tracker := fold CancelData (Set_Items (Some stale)) (ds_tracker s)\<rparr>"

section \<open>Reconcile\<close>

text \<open>The part after the resource was read: \<open>newSyncOnly\<close>, \<open>newExcluder\<close> and
  \<open>statsEnabled\<close> are what it asks for. \<open>None\<close> is a panic of the watch manager.\<close>

definition config_apply :: "ConfigEnv \<Rightarrow> gvk_set \<Rightarrow> Excluder \<Rightarrow> bool \<Rightarrow> ConfigState \<Rightarrow>
    (ConfigState \<times> string option) option" where
  "config_apply env newSyncOnly newExcluder stats s0 =
     (let s = s0\<lparr>ds_tracker := (if stats then EnableStats (ds_tracker s0) else DisableStats (ds_tracker s0))\<rparr>;
          s = removeStaleExpectations (Set_Difference (ds_watched s) (Some newSyncOnly)) s;
          unchanged = (Set_Equals (Some (ds_watched s)) (Some newSyncOnly) \<and> Excluder_Equals (ds_excluder s) newExcluder)
      in if unchanged \<and> \<not> (needsWipe s \<or> needsReplay s \<noteq> None) then Some (s, None)
      else
        let s = (if unchanged then s else s\<lparr>needsReplay := None, needsWipe := True\<rparr>);
            s = (if needsReplay s = None
                 then s\<lparr>needsReplay := Some (Set_Intersection (ds_watched s) (Some newSyncOnly))\<rparr> else s);
            s = s\<lparr>ds_watched := Set_Replace (Some newSyncOnly) (ds_watched s),
                  ds_excluder := Excluder_Replace newExcluder (ds_excluder s)\<rparr>
        in (case wipeCacheIfNeeded env s of
              (s, Some err) \<Rightarrow> Some (s, Some (''wiping opa data cache: '' @ err))
            | (s, None) \<Rightarrow>
                (case ReplaceWatch (ce_cache env) (ce_registrar env) (Set_Items (Some newSyncOnly)) (rc_manager s) of
                   None \<Rightarrow> None
                 | Some (wm, errs) \<Rightarrow>
                     if errs \<noteq> [] then Some (s\<lparr>rc_manager := wm\<rparr>, Some (errorList_Error errs))
                     else (case replayData env (s\<lparr>rc_manager := wm\<rparr>) of
                             (s, Some err) \<Rightarrow> Some (s, Some (''replaying data: '' @ err))
                           | (s, None) \<Rightarrow> Some (s, None)))))"

text \<open>What the resource asks for: nothing when it is gone or being deleted.\<close>

definition config_wanted :: "ConfigInstance option \<Rightarrow> gvk_set \<times> Excluder \<times> bool" where
  "config_wanted c =
     (case c of
        Some i \<Rightarrow>
          if \<not> ci_deleting i
          then (Set_Add (cs_SyncOnly (ci_Spec i)) NewSet, Excluder_Add (cs_Match (ci_Spec i)) New_Excluder,
                cs_StatsEnabled (ci_Spec i))
          else (NewSet, New_Excluder, False)
      | None \<Rightarrow> (NewSet, New_Excluder, False))"

definition keys_Config :: "environ \<Rightarrow> Request" where
  "keys_Config env = \<lparr>req_Namespace = util_GetNamespace env, req_Name = ''config''\<rparr>"

definition config_Reconcile :: "ConfigEnv \<Rightarrow> Request \<Rightarrow> ConfigState \<Rightarrow> (ConfigState \<times> string option) option" where
  "config_Reconcile env request s =
     (if ce_running env = Some False then Some (s, None)
      else if request \<noteq> keys_Config (ce_environ env) then Some (s, None)
      else (case ce_Get env of
        Inl (GetFailed err) \<Rightarrow> Some (s, Some err)
      | Inl (IsNotFound _) \<Rightarrow> (case config_wanted None of (w, e, b) \<Rightarrow> config_apply env w e b s)
      | Inr instance \<Rightarrow>
          (let inst = (if config_hasFinalizer instance then config_removeFinalizer instance else instance) in
           case (if config_hasFinalizer instance then ce_Update env inst else None) of
             Some err \<Rightarrow> Some (s, Some err)
           | None \<Rightarrow> (case config_wanted (Some inst) of (w, e, b) \<Rightarrow> config_apply env w e b s))))"

end
