(* ===== verification/Config_Facts.thy ===== *)
theory Config_Facts
  imports Config_Controller
begin

text \<open>
  Facts on the config controller: the invariant of its state under reconciliations of the config
  and of synced objects in any order, and what a replay leaves in OPA's store.
\<close>

section \<open>The steps\<close>

text \<open>A reconciliation of the sync controller works on the shared part of the state.\<close>

definition sync_step :: "SyncEnv \<Rightarrow> Request \<Rightarrow> ConfigState \<Rightarrow> ConfigState \<times> string option" where
  "sync_step env r s =
     (let (d, err) = sync_Reconcile env r (DataState.truncate s)
      in (s\<lparr>ds_watched := ds_watched d, ds_excluder := ds_excluder d, ds_store := ds_store d,
            ds_metrics := ds_metrics d, ds_tracker := ds_tracker d\<rparr>, err))"

definition config_start :: "Tracker \<Rightarrow> Manager \<Rightarrow> ConfigState" where
  "config_start t wm =
     \<lparr>ds_watched = NewSet, ds_excluder = New_Excluder, ds_store = [], ds_metrics = NewMetricsCache,
      ds_tracker = t, needsReplay = None, needsWipe = False, rc_manager = wm\<rparr>"

text \<open>The states of a run: reconciliations of the config and of objects, and changes of the
  readiness tracker and of the watch manager by others, who leave this registrar's watches.\<close>

inductive config_reachable :: "cache_env \<Rightarrow> nat \<Rightarrow> ConfigState \<Rightarrow> bool" for cache reg where
  start: "wm_reachable cache wm \<Longrightarrow> reg < length (wm_regs wm) \<Longrightarrow> (\<And>g. \<not> watching reg g wm) \<Longrightarrow>
    config_reachable cache reg (config_start t wm)"
| config: "config_reachable cache reg s \<Longrightarrow> ce_cache env = cache \<Longrightarrow> ce_registrar env = reg \<Longrightarrow>
    config_Reconcile env request s = Some (s', err) \<Longrightarrow> config_reachable cache reg s'"
| sync: "config_reachable cache reg s \<Longrightarrow> config_reachable cache reg (fst (sync_step env request s))"
| tracker: "config_reachable cache reg s \<Longrightarrow> config_reachable cache reg (s\<lparr>ds_tracker := t\<rparr>)"
| others: "config_reachable cache reg s \<Longrightarrow> wm_reachable cache wm \<Longrightarrow> reg < length (wm_regs wm) \<Longrightarrow>
    (\<And>g. watching reg g wm = watching reg g (rc_manager s)) \<Longrightarrow>
    config_reachable cache reg (s\<lparr>rc_manager := wm\<rparr>)"

section \<open>The invariant\<close>

definition config_inv :: "cache_env \<Rightarrow> nat \<Rightarrow> ConfigState \<Rightarrow> bool" where
  "config_inv cache reg s \<longleftrightarrow>
     set_inv (ds_watched s) \<and> (\<forall>w. needsReplay s = Some w \<longrightarrow> set_inv w) \<and>
     (needsWipe s \<longrightarrow> needsReplay s \<noteq> None) \<and>
     (needsWipe s \<or> data_ok (ds_watched s) (ds_excluder s) (ds_store s)) \<and>
     wm_reachable cache (rc_manager s) \<and> reg < length (wm_regs (rc_manager s)) \<and>
     (needsReplay s = None \<longrightarrow> (\<forall>g. watching reg g (rc_manager s) \<longleftrightarrow> g \<in> set_abs (ds_watched s)))"

lemma config_inv_tracker [simp]: "config_inv cache reg (s\<lparr>ds_tracker := t\<rparr>) = config_inv cache reg s"
  by (simp add: config_inv_def)

lemma config_inv_start:
  "wm_reachable cache wm \<Longrightarrow> reg < length (wm_regs wm) \<Longrightarrow> (\<And>g. \<not> watching reg g wm) \<Longrightarrow>
    config_inv cache reg (config_start t wm)"
  by (simp add: config_inv_def config_start_def)

lemma sync_step_frame:
  "ds_watched (fst (sync_step env r s)) = ds_watched s"
  "ds_excluder (fst (sync_step env r s)) = ds_excluder s"
  "needsReplay (fst (sync_step env r s)) = needsReplay s"
  "needsWipe (fst (sync_step env r s)) = needsWipe s"
  "rc_manager (fst (sync_step env r s)) = rc_manager s"
  "ds_store (fst (sync_step env r s)) = ds_store (fst (sync_Reconcile env r (DataState.truncate s)))"
  using sync_Reconcile_frame [of env r "DataState.truncate s"]
  by (auto simp: sync_step_def DataState.truncate_def split: prod.split)

lemma config_inv_sync: "config_inv cache reg s \<Longrightarrow> config_inv cache reg (fst (sync_step env r s))"
  using sync_Reconcile_data_ok [of "DataState.truncate s" env r]
  by (auto simp: config_inv_def sync_step_frame) (simp_all add: DataState.truncate_def)

section \<open>Replay\<close>

text \<open>The objects a replay puts into OPA: those listed that are of a watched kind and not
  excluded.\<close>

definition passes :: "gvk_set \<Rightarrow> Excluder \<Rightarrow> object \<Rightarrow> bool" where
  "passes w e ob \<longleftrightarrow> Set_Contains (GroupVersionKind ob) w \<and> \<not> sync_excluded e ob"

definition stored_at :: "object \<Rightarrow> string \<Rightarrow> bool" where
  "stored_at ob p \<longleftrightarrow> processUnstructured ob = Inr (True, p, Some ob)"

text \<open>What a stretch of the replay of the objects \<open>obs\<close> does to the state.\<close>

definition replays :: "object list \<Rightarrow> ConfigState \<Rightarrow> ConfigState \<Rightarrow> bool" where
  "replays obs s s' \<longleftrightarrow>
     ds_watched s' = ds_watched s \<and> ds_excluder s' = ds_excluder s \<and> needsWipe s' = needsWipe s \<and>
     rc_manager s' = rc_manager s \<and>
     (data_ok (ds_watched s) (ds_excluder s) (ds_store s) \<longrightarrow> data_ok (ds_watched s) (ds_excluder s) (ds_store s')) \<and>
     (\<forall>p ob. mget (ds_store s') p = Some ob \<longrightarrow> mget (ds_store s) p = Some ob \<or>
        ob \<in> set obs \<and> passes (ds_watched s) (ds_excluder s) ob \<and> stored_at ob p) \<and>
     (\<forall>p. mget (ds_store s) p \<noteq> None \<longrightarrow> mget (ds_store s') p \<noteq> None)"

definition covered :: "object list \<Rightarrow> ConfigState \<Rightarrow> bool" where
  "covered obs s \<longleftrightarrow> (\<forall>ob \<in> set obs. passes (ds_watched s) (ds_excluder s) ob \<longrightarrow>
     (\<exists>p. stored_at ob p \<and> mget (ds_store s) p \<noteq> None))"

lemma replays_refl [simp]: "replays [] s s"
  by (simp add: replays_def)

lemma replays_trans:
  assumes "replays obs1 s s1" "replays obs2 s1 s2"
  shows "replays (obs1 @ obs2) s s2"
proof -
  note r = assms [unfolded replays_def]
  have "mget (ds_store s) p = Some ob \<or>
      ob \<in> set (obs1 @ obs2) \<and> passes (ds_watched s) (ds_excluder s) ob \<and> stored_at ob p"
    if "mget (ds_store s2) p = Some ob" for p ob
    using r that by (metis UnCI set_append)
  then show ?thesis unfolding replays_def using r by auto
qed

lemma covered_append: "covered obs1 s1 \<Longrightarrow> replays obs2 s1 s2 \<Longrightarrow> covered obs2 s2 \<Longrightarrow> covered (obs1 @ obs2) s2"
  unfolding covered_def replays_def by (metis UnE set_append)

lemma replays_one:
  assumes "\<not> sync_excluded (ds_excluder s) ob"
    "Filtered_AddData drv (ds_watched s) (UnstructuredData ob) (ds_store s) = (store, err)"
  shows "replays [ob] s (s\<lparr>ds_store := store, ds_metrics := m\<rparr>)"
    "err = None \<Longrightarrow> covered [ob] (s\<lparr>ds_store := store, ds_metrics := m\<rparr>)"
proof -
  have d: "data_ok (ds_watched s) (ds_excluder s) (ds_store s) \<Longrightarrow> data_ok (ds_watched s) (ds_excluder s) store"
    using data_ok_AddData [OF _ assms(1), of "ds_watched s" "ds_store s" drv] assms(2) by simp
  have c: "if Set_Contains (GroupVersionKind ob) (ds_watched s)
      then (\<exists>p. processUnstructured ob = Inr (True, p, Some ob) \<and> store = mput p ob (ds_store s)) \<or> store = ds_store s \<and> err \<noteq> None
      else store = ds_store s"
    using assms(2) by (cases rule: client_AddData_cases [of ob drv "ds_store s"])
      (auto simp: Filtered_AddData_def filter_passes_def split: if_splits)
  show "replays [ob] s (s\<lparr>ds_store := store, ds_metrics := m\<rparr>)"
    using c d assms(1) by (auto simp: replays_def passes_def stored_at_def split: if_splits)
  show "covered [ob] (s\<lparr>ds_store := store, ds_metrics := m\<rparr>)" if "err = None"
    using c that by (auto simp: covered_def passes_def stored_at_def split: if_splits)
qed

lemma replay_items_ok:
  "replay_items env obs s = (s', err) \<Longrightarrow>
    replays obs s s' \<and> needsReplay s' = needsReplay s \<and> (err = None \<longrightarrow> covered obs s')"
proof (induction obs arbitrary: s)
  case Nil
  then show ?case by (simp add: covered_def)
next
  case (Cons ob obs)
  show ?case
  proof (cases "sync_excluded (ds_excluder s) ob")
    case True
    then have i: "replays obs s s'" "needsReplay s' = needsReplay s" "err = None \<longrightarrow> covered obs s'"
      using Cons.IH [of s] Cons.prems by (simp_all add: Let_def)
    moreover have "\<not> passes (ds_watched s') (ds_excluder s') ob"
      using True i(1) by (simp add: passes_def replays_def)
    ultimately show ?thesis by (auto simp: replays_def covered_def)
  next
    case False
    obtain store e where a: "Filtered_AddData (ce_driver env) (ds_watched s) (UnstructuredData ob) (ds_store s) = (store, e)"
      by (cases "Filtered_AddData (ce_driver env) (ds_watched s) (UnstructuredData ob) (ds_store s)")
    note one = replays_one [OF False a]
    show ?thesis
    proof (cases e)
      case (Some x)
      then have s': "\<exists>m. s' = s\<lparr>ds_store := store, ds_metrics := m\<rparr>" and "err \<noteq> None"
        using Cons.prems False a by (auto simp: Let_def)
      then obtain m where "s' = s\<lparr>ds_store := store, ds_metrics := m\<rparr>" "err \<noteq> None" by blast
      moreover have "replays (ob # obs) s (s\<lparr>ds_store := store, ds_metrics := m\<rparr>)"
        using one(1) [of m] by (auto simp: replays_def)
      ultimately show ?thesis by auto
    next
      case None
      then obtain m where m: "replay_items env obs (s\<lparr>ds_store := store, ds_metrics := m\<rparr>) = (s', err)"
        using Cons.prems False a by (auto simp: Let_def)
      note i = Cons.IH [OF m]
      show ?thesis
        using replays_trans [OF one(1) i [THEN conjunct1]] covered_append [OF one(2) [OF None] i [THEN conjunct1]] i
        by simp
    qed
  qed
qed

text \<open>The objects listed for a list of kinds.\<close>

definition listed :: "ConfigEnv \<Rightarrow> GVK list \<Rightarrow> object list" where
  "listed env gs = concat (map (\<lambda>g. case ce_List env g of Inr items \<Rightarrow> items | Inl _ \<Rightarrow> []) gs)"

lemma set_inv_Remove: "set_inv w \<Longrightarrow> set_inv (Set_Remove gs w)"
  by (simp add: Set_Remove_def)

lemma replay_kinds_ok:
  "replay_kinds env gs s = (s', err) \<Longrightarrow> \<forall>w. needsReplay s = Some w \<longrightarrow> set_inv w \<Longrightarrow>
    replays (listed env gs) s s' \<and> (\<forall>w. needsReplay s' = Some w \<longrightarrow> set_inv w) \<and>
    (needsReplay s' = None \<longleftrightarrow> needsReplay s = None) \<and> (err = None \<longrightarrow> covered (listed env gs) s')"
proof (induction gs arbitrary: s)
  case Nil
  then show ?case by (simp add: covered_def listed_def)
next
  case (Cons g gs)
  show ?case
  proof (cases "ce_List env g")
    case (Inl e)
    then have "s' = s" "err \<noteq> None" using Cons.prems(1) by auto
    then show ?thesis using Cons.prems(2) by (auto simp: replays_def)
  next
    case (Inr items)
    obtain s1 e where a: "replay_items env items s = (s1, e)" by (cases "replay_items env items s")
    note one = replay_items_ok [OF a]
    have l: "listed env (g # gs) = items @ listed env gs" using Inr by (simp add: listed_def)
    show ?thesis
    proof (cases e)
      case (Some x)
      then have "s' = s1" "err \<noteq> None" using Cons.prems Inr a by auto
      moreover have "replays (listed env (g # gs)) s s1" using one unfolding l by (auto simp: replays_def)
      ultimately show ?thesis using one Cons.prems(2) by auto
    next
      case None
      let ?s1 = "s1\<lparr>needsReplay := map_option (Set_Remove [g]) (needsReplay s1)\<rparr>"
      have k: "replay_kinds env gs ?s1 = (s', err)" using Cons.prems(1) Inr a None by simp
      have w: "\<forall>w. needsReplay ?s1 = Some w \<longrightarrow> set_inv w" using one Cons.prems(2) by (auto intro: set_inv_Remove)
      have r1: "replays items s ?s1" and c1: "covered items ?s1"
        using one None by (auto simp: replays_def covered_def)
      note i = Cons.IH [OF k w]
      show ?thesis
        unfolding l using replays_trans [OF r1 i [THEN conjunct1]] covered_append [OF c1 i [THEN conjunct1]] i one
        by simp
    qed
  qed
qed

lemma replayData_ok:
  assumes "replayData env s = (s', err)" "needsReplay s = Some w" "set_inv w"
  shows "replays (listed env (mkeys w)) s s'" "err = None \<Longrightarrow> needsReplay s' = None \<and> covered (listed env (mkeys w)) s'"
    "err \<noteq> None \<Longrightarrow> \<exists>w'. needsReplay s' = Some w' \<and> set_inv w'"
proof -
  obtain s1 e where k: "replay_kinds env (mkeys w) s = (s1, e)" by (cases "replay_kinds env (mkeys w) s")
  have i: "replays (listed env (mkeys w)) s s1" "\<forall>w. needsReplay s1 = Some w \<longrightarrow> set_inv w"
    "needsReplay s1 \<noteq> None" "e = None \<longrightarrow> covered (listed env (mkeys w)) s1"
    using replay_kinds_ok [OF k] assms(2,3) by auto
  have s': "s' = (case e of Some _ \<Rightarrow> s1 | None \<Rightarrow> s1\<lparr>needsReplay := None\<rparr>)" "err = e"
    using assms(1,2) k by (auto simp: replayData_def Set_Items_def split: option.splits)
  show "replays (listed env (mkeys w)) s s'" using i(1) s' by (cases e) (auto simp: replays_def)
  show "needsReplay s' = None \<and> covered (listed env (mkeys w)) s'" if "err = None"
    using i(4) s' that by (auto simp: covered_def)
  show "\<exists>w'. needsReplay s' = Some w' \<and> set_inv w'" if "err \<noteq> None"
    using i(2,3) s' that by (cases e) auto
qed

section \<open>Wipe\<close>

lemma wipe_ok:
  assumes "wipeCacheIfNeeded env s = (s', err)"
  shows "ds_watched s' = ds_watched s" "ds_excluder s' = ds_excluder s" "needsReplay s' = needsReplay s"
    "rc_manager s' = rc_manager s" "err \<noteq> None \<Longrightarrow> needsWipe s' = needsWipe s" "err = None \<Longrightarrow> \<not> needsWipe s'"
    "err = None \<Longrightarrow> ds_store s' = (if needsWipe s then [] else ds_store s)" "err \<noteq> None \<Longrightarrow> needsWipe s"
  using assms
  by (auto simp: wipeCacheIfNeeded_def Filtered_RemoveData_def filter_passes_def client_RemoveData_def
      ProcessData_def processWipeData_def split: if_splits option.splits prod.splits)

section \<open>A reconciliation\<close>

text \<open>The state before the wipe, and the steps from there.\<close>

definition unchanged :: "gvk_set \<Rightarrow> Excluder \<Rightarrow> ConfigState \<Rightarrow> bool" where
  "unchanged new exc s \<longleftrightarrow> Set_Equals (Some (ds_watched s)) (Some new) \<and> Excluder_Equals (ds_excluder s) exc"

definition to_replay :: "gvk_set \<Rightarrow> Excluder \<Rightarrow> ConfigState \<Rightarrow> gvk_set" where
  "to_replay new exc s =
     (case needsReplay s of
        Some w \<Rightarrow> if unchanged new exc s then w else Set_Intersection (ds_watched s) (Some new)
      | None \<Rightarrow> Set_Intersection (ds_watched s) (Some new))"

definition prepared :: "gvk_set \<Rightarrow> Excluder \<Rightarrow> ConfigState \<Rightarrow> ConfigState" where
  "prepared new exc s =
     s\<lparr>needsReplay := Some (to_replay new exc s), needsWipe := (\<not> unchanged new exc s \<or> needsWipe s),
       ds_watched := Set_Replace (Some new) (ds_watched s), ds_excluder := Excluder_Replace exc (ds_excluder s)\<rparr>"

definition finish :: "ConfigEnv \<Rightarrow> gvk_set \<Rightarrow> ConfigState \<Rightarrow> (ConfigState \<times> string option) option" where
  "finish env new s =
     (case wipeCacheIfNeeded env s of
        (s, Some err) \<Rightarrow> Some (s, Some (''wiping opa data cache: '' @ err))
      | (s, None) \<Rightarrow>
          (case ReplaceWatch (ce_cache env) (ce_registrar env) (Set_Items (Some new)) (rc_manager s) of
             None \<Rightarrow> None
           | Some (wm, errs) \<Rightarrow>
               if errs \<noteq> [] then Some (s\<lparr>rc_manager := wm\<rparr>, Some (errorList_Error errs))
               else (case replayData env (s\<lparr>rc_manager := wm\<rparr>) of
                       (s, Some err) \<Rightarrow> Some (s, Some (''replaying data: '' @ err))
                     | (s, None) \<Rightarrow> Some (s, None))))"

definition pending :: "ConfigState \<Rightarrow> bool" where
  "pending s \<longleftrightarrow> needsWipe s \<or> needsReplay s \<noteq> None"

lemma prepared_eq:
  "(let s1 = (if unchanged new exc s then s else s\<lparr>needsReplay := None, needsWipe := True\<rparr>);
        s2 = (if needsReplay s1 = None
              then s1\<lparr>needsReplay := Some (Set_Intersection (ds_watched s1) (Some new))\<rparr> else s1)
    in s2\<lparr>ds_watched := Set_Replace (Some new) (ds_watched s2), ds_excluder := Excluder_Replace exc (ds_excluder s2)\<rparr>)
   = prepared new exc s"
  unfolding prepared_def to_replay_def Let_def by (rule ConfigState.equality) (auto split: option.split)

lemma config_apply_eq:
  "\<exists>t. config_apply env new exc stats s =
    (if unchanged new exc s \<and> \<not> pending s then Some (s\<lparr>ds_tracker := t\<rparr>, None)
     else finish env new (prepared new exc (s\<lparr>ds_tracker := t\<rparr>)))"
proof -
  define t where "t = fold CancelData (Set_Items (Some (Set_Difference (ds_watched s) (Some new))))
    (if stats then EnableStats (ds_tracker s) else DisableStats (ds_tracker s))"
  define s1 where "s1 = s\<lparr>ds_tracker := t\<rparr>"
  have s1: "removeStaleExpectations (Set_Difference (ds_watched (s\<lparr>ds_tracker := x\<rparr>)) (Some new)) (s\<lparr>ds_tracker := x\<rparr>) = s1"
    if "x = (if stats then EnableStats (ds_tracker s) else DisableStats (ds_tracker s))" for x
    by (simp add: s1_def t_def removeStaleExpectations_def that)
  have "config_apply env new exc stats s =
    (if unchanged new exc s1 \<and> \<not> pending s1 then Some (s1, None) else finish env new (prepared new exc s1))"
    unfolding config_apply_def finish_def prepared_eq [symmetric] Let_def s1 [OF refl]
    unfolding unchanged_def pending_def ..
  then show ?thesis by (auto simp: s1_def unchanged_def pending_def)
qed

lemma ReplaceWatch_ok:
  assumes "wm_reachable env wm" "r < length (wm_regs wm)"
  obtains wm' errs where "ReplaceWatch env r gs wm = Some (wm', errs)" "wm_reachable env wm'" "r < length (wm_regs wm')"
    "errs = [] \<Longrightarrow> \<forall>g. watching r g wm' \<longleftrightarrow> g \<in> set gs"
proof -
  have inv: "wm_inv wm" using wm_reachable_inv [OF assms(1)] by blast
  then obtain wm' errs where R: "ReplaceWatch env r gs wm = Some (wm', errs)"
    by (rule ReplaceWatch_inv [OF _ assms(2)])
  have n: "wm_regs wm' = wm_regs wm" using ReplaceWatch_names [OF R] by (simp add: same_names_def)
  have "intent_inv wm" using inv by (simp add: wm_inv_def)
  note w = ReplaceWatch_watching [OF R this assms(2)]
  show ?thesis
  proof (rule that [OF R wm_reachable.replace [OF assms R]])
    show "r < length (wm_regs wm')" using assms(2) n by simp
    show "\<forall>g. watching r g wm' \<longleftrightarrow> g \<in> set gs" if "errs = []" using w(1) w(2) [OF that] by blast
  qed
qed

text \<open>What a reconciliation that reports no error has done.\<close>

definition config_settled :: "nat \<Rightarrow> gvk_set \<Rightarrow> Excluder \<Rightarrow> ConfigState \<Rightarrow> bool" where
  "config_settled reg new exc s \<longleftrightarrow>
     ds_watched s = new \<and> ds_excluder s = exc \<and> \<not> pending s \<and>
     (\<forall>g. watching reg g (rc_manager s) \<longleftrightarrow> g \<in> set_abs new)"

lemma finish_ok:
  assumes "set_inv new" "ds_watched s = new" "needsReplay s = Some w" "set_inv w"
    "needsWipe s \<or> data_ok new (ds_excluder s) (ds_store s)"
    "wm_reachable cache (rc_manager s)" "reg < length (wm_regs (rc_manager s))"
    "ce_cache env = cache" "ce_registrar env = reg"
  obtains s' err where "finish env new s = Some (s', err)" "config_inv cache reg s'" "ds_watched s' = new" "ds_excluder s' = ds_excluder s"
    "err = None \<Longrightarrow> config_settled reg new (ds_excluder s) s' \<and> covered (listed env (mkeys w)) s' \<and>
      (\<forall>p ob. mget (ds_store s') p = Some ob \<longrightarrow> \<not> needsWipe s \<and> mget (ds_store s) p = Some ob \<or>
         ob \<in> set (listed env (mkeys w)) \<and> passes new (ds_excluder s) ob \<and> stored_at ob p)"
proof -
  obtain s1 e1 where W: "wipeCacheIfNeeded env s = (s1, e1)" by (cases "wipeCacheIfNeeded env s")
  note w1 = wipe_ok [OF W]
  show thesis
  proof (cases e1)
    case (Some x)
    have "config_inv cache reg s1" using assms w1(1-5,8) Some by (simp add: config_inv_def)
    then show thesis
      by (intro that [of s1 "Some (''wiping opa data cache: '' @ x)"])
        (use W Some w1(1,2) assms(2) in \<open>simp_all add: finish_def\<close>)
  next
    case None
    have d1: "data_ok new (ds_excluder s) (ds_store s1)" "\<not> needsWipe s1" using w1(6,7) None assms(5) by auto
    obtain wm errs where R: "ReplaceWatch cache reg (mkeys new) (rc_manager s1) = Some (wm, errs)"
      "wm_reachable cache wm" "reg < length (wm_regs wm)" "errs = [] \<Longrightarrow> \<forall>g. watching reg g wm \<longleftrightarrow> g \<in> set (mkeys new)"
      by (rule ReplaceWatch_ok [of cache "rc_manager s1" reg "mkeys new"]) (use assms(6,7) w1(4) in auto)
    let ?s2 = "s1\<lparr>rc_manager := wm\<rparr>"
    have i2: "config_inv cache reg ?s2"
      using assms(1-4) w1(1-3) d1 R(2,3) by (simp add: config_inv_def)
    show thesis
    proof (cases "errs = []")
      case False
      then show thesis
        by (intro that [of ?s2 "Some (errorList_Error errs)"])
          (use W None R(1) i2 w1(1,2) assms(2,8,9) in \<open>simp_all add: finish_def Set_Items_def\<close>)
    next
      case True
      obtain s3 e3 where P: "replayData env ?s2 = (s3, e3)" by (cases "replayData env ?s2")
      have n2: "needsReplay ?s2 = Some w" using w1(3) assms(3) by simp
      note r = replayData_ok [OF P n2 assms(4)]
      note f = r(1) [unfolded replays_def]
      have F: "finish env new s = Some (s3, map_option (\<lambda>e. ''replaying data: '' @ e) e3)"
        using W None R(1) True P assms(8,9) by (simp add: finish_def Set_Items_def split: option.split)
      have w3: "\<forall>g. watching reg g wm \<longleftrightarrow> g \<in> set_abs new" using R(4) True by simp
      have i3: "config_inv cache reg s3"
        using f r(2,3) d1 R(2,3) w3 assms(1,2) w1(1,2) by (cases e3) (auto simp: config_inv_def)
      have s3: "\<forall>p ob. mget (ds_store s3) p = Some ob \<longrightarrow> mget (ds_store s1) p = Some ob \<or>
         ob \<in> set (listed env (mkeys w)) \<and> passes new (ds_excluder s) ob \<and> stored_at ob p"
        using f assms(2) w1(1,2) by simp
      show thesis
      proof (rule that [OF F i3])
        show "ds_watched s3 = new" "ds_excluder s3 = ds_excluder s" using f w1(1,2) assms(2) by simp_all
        assume "map_option (\<lambda>e. ''replaying data: '' @ e) e3 = None"
        then have e3: "e3 = None" by simp
        have "config_settled reg new (ds_excluder s) s3"
          using f r(2) e3 d1(2) w3 w1(1,2) assms(2) by (simp add: config_settled_def pending_def)
        then show "config_settled reg new (ds_excluder s) s3 \<and> covered (listed env (mkeys w)) s3 \<and>
          (\<forall>p ob. mget (ds_store s3) p = Some ob \<longrightarrow> \<not> needsWipe s \<and> mget (ds_store s) p = Some ob \<or>
             ob \<in> set (listed env (mkeys w)) \<and> passes new (ds_excluder s) ob \<and> stored_at ob p)"
          using r(2) e3 s3 w1(7) None by (auto split: if_splits)
      qed
    qed
  qed
qed

lemma Set_Replace_id: "set_inv v \<Longrightarrow> Set_Replace (Some v) w = v"
  using copy_map [of v] by (simp add: Set_Replace_def set_inv_def)

lemma to_replay_inv:
  "config_inv cache reg s \<Longrightarrow> set_inv new \<Longrightarrow> set_inv (to_replay new exc s)"
  using ws.intersection [of "ds_watched s" new]
  by (auto simp: to_replay_def config_inv_def split: option.split)

lemma unchanged_iff:
  "config_inv cache reg s \<Longrightarrow> set_inv new \<Longrightarrow> unchanged new exc s \<longleftrightarrow> ds_watched s = new \<and> ds_excluder s = exc"
  by (auto simp: unchanged_def Set_Equals_def Excluder_Equals_def)

text \<open>What a reconciliation with pending or new work puts into OPA.\<close>

definition refilled :: "ConfigEnv \<Rightarrow> gvk_set \<Rightarrow> Excluder \<Rightarrow> ConfigState \<Rightarrow> ConfigState \<Rightarrow> bool" where
  "refilled env new exc s s' \<longleftrightarrow>
     (let obs = listed env (mkeys (to_replay new exc s)) in
      covered obs s' \<and>
      (\<forall>p ob. mget (ds_store s') p = Some ob \<longrightarrow>
         unchanged new exc s \<and> \<not> needsWipe s \<and> mget (ds_store s) p = Some ob \<or>
         ob \<in> set obs \<and> passes new exc ob \<and> stored_at ob p))"

lemma config_apply_ok:
  assumes "config_inv cache reg s" "set_inv new" "ce_cache env = cache" "ce_registrar env = reg"
  obtains s' err where "config_apply env new exc stats s = Some (s', err)" "config_inv cache reg s'"
    "ds_watched s' = new" "ds_excluder s' = exc"
    "err = None \<Longrightarrow> config_settled reg new exc s' \<and>
      (if unchanged new exc s \<and> \<not> pending s then ds_store s' = ds_store s else refilled env new exc s s')"
proof -
  obtain t where E: "config_apply env new exc stats s =
    (if unchanged new exc s \<and> \<not> pending s then Some (s\<lparr>ds_tracker := t\<rparr>, None)
     else finish env new (prepared new exc (s\<lparr>ds_tracker := t\<rparr>)))"
    using config_apply_eq by blast
  note U = unchanged_iff [OF assms(1,2), of exc]
  note i = assms(1) [unfolded config_inv_def]
  show thesis
  proof (cases "unchanged new exc s \<and> \<not> pending s")
    case True
    show thesis
      by (rule that [of "s\<lparr>ds_tracker := t\<rparr>" None]) (use True E U i assms in \<open>simp_all add: config_settled_def pending_def\<close>)
  next
    case False
    let ?s = "prepared new exc (s\<lparr>ds_tracker := t\<rparr>)"
    have r: "to_replay new exc (s\<lparr>ds_tracker := t\<rparr>) = to_replay new exc s"
      "unchanged new exc (s\<lparr>ds_tracker := t\<rparr>) = unchanged new exc s"
      by (auto simp: to_replay_def unchanged_def split: option.split)
    have p: "ds_watched ?s = new" "ds_excluder ?s = exc" "needsReplay ?s = Some (to_replay new exc s)"
      "needsWipe ?s = (\<not> unchanged new exc s \<or> needsWipe s)" "ds_store ?s = ds_store s" "rc_manager ?s = rc_manager s"
      using Set_Replace_id [OF assms(2)] r by (simp_all add: prepared_def Excluder_Replace_def)
    have d: "needsWipe ?s \<or> data_ok new (ds_excluder ?s) (ds_store ?s)"
      using i U p by auto
    obtain s' err where f: "finish env new ?s = Some (s', err)" "config_inv cache reg s'" "ds_watched s' = new" "ds_excluder s' = ds_excluder ?s"
      "err = None \<Longrightarrow> config_settled reg new (ds_excluder ?s) s' \<and> covered (listed env (mkeys (to_replay new exc s))) s' \<and>
        (\<forall>p ob. mget (ds_store s') p = Some ob \<longrightarrow> \<not> needsWipe ?s \<and> mget (ds_store ?s) p = Some ob \<or>
           ob \<in> set (listed env (mkeys (to_replay new exc s))) \<and> passes new (ds_excluder ?s) ob \<and> stored_at ob p)"
      by (rule finish_ok [OF assms(2) p(1,3) to_replay_inv [OF assms(1,2)] d, of cache reg env])
        (use i p(6) assms(3,4) in auto)
    show thesis
    proof (rule that [of s' err])
      show "config_apply env new exc stats s = Some (s', err)" using E False f(1) by simp
      show "config_settled reg new exc s' \<and>
        (if unchanged new exc s \<and> \<not> pending s then ds_store s' = ds_store s else refilled env new exc s s')" if "err = None"
        using f(5) [OF that] False p by (auto simp: refilled_def Let_def)
    qed (use f p in simp_all)
  qed
qed

lemma config_wanted_inv: "config_wanted c = (w, e, b) \<Longrightarrow> set_inv w"
  by (auto simp: config_wanted_def Set_Add_def split: option.splits if_splits)

text \<open>The resource that a reconciliation works with, or \<open>None\<close> when it ends before; its finalizer
  has been removed.\<close>

definition config_read :: "ConfigEnv \<Rightarrow> Request \<Rightarrow> ConfigInstance option option" where
  "config_read env request =
     (if ce_running env = Some False \<or> request \<noteq> keys_Config (ce_environ env) then None
      else (case ce_Get env of
        Inl (GetFailed err) \<Rightarrow> None
      | Inl (IsNotFound _) \<Rightarrow> Some None
      | Inr i \<Rightarrow>
          if config_hasFinalizer i then
            (if ce_Update env (config_removeFinalizer i) = None then Some (Some (config_removeFinalizer i)) else None)
          else Some (Some i)))"

lemma config_Reconcile_read:
  "config_read env request = Some c \<Longrightarrow> config_wanted c = (w, e, b) \<Longrightarrow>
    config_Reconcile env request s = config_apply env w e b s"
  "config_read env request = None \<Longrightarrow> \<exists>err. config_Reconcile env request s = Some (s, err)"
  by (auto simp: config_read_def config_Reconcile_def Let_def
      split: if_splits sum.splits GetErr.splits option.splits)

lemma config_Reconcile_ok:
  assumes "config_inv (ce_cache env) (ce_registrar env) s"
  obtains s' err where "config_Reconcile env request s = Some (s', err)" "config_inv (ce_cache env) (ce_registrar env) s'"
proof (cases "config_read env request")
  case None
  then show thesis using config_Reconcile_read(2) assms that by blast
next
  case (Some c)
  obtain w e b where w: "config_wanted c = (w, e, b)" by (cases "config_wanted c")
  show thesis
    by (rule config_apply_ok [OF assms config_wanted_inv [OF w] refl refl, of e b])
      (use that config_Reconcile_read(1) [OF Some w] in simp)
qed

lemma config_reachable_inv: "config_reachable cache reg s \<Longrightarrow> config_inv cache reg s"
proof (induction rule: config_reachable.induct)
  case (start wm t)
  then show ?case by (rule config_inv_start)
next
  case (config s env request s' err)
  show ?case
    by (rule config_Reconcile_ok [of env s request]) (use config in auto)
next
  case (sync s env request)
  then show ?case by (simp add: config_inv_sync)
next
  case (others s wm)
  then show ?case by (simp add: config_inv_def)
qed simp

end
