(* ===== verification/Config_Properties.thy ===== *)
theory Config_Properties
  imports Config_Facts Examples Watch_Properties
begin

text \<open>
  The properties of the data that OPA holds: what the config and the sync controller keep, what
  a reconciliation of the config reaches, and that deleting an object undoes adding it.
\<close>

section \<open>Sample data\<close>

definition ex_config :: ConfigInstance where
  "ex_config = \<lparr>ci_Spec = \<lparr>cs_SyncOnly = [ex_pods], cs_Traces = [], cs_Match = [], cs_StatsEnabled = False\<rparr>,
     ci_deleting = False, ci_Finalizers = [config_finalizer]\<rparr>"

definition ex_driver :: opa_driver where
  "ex_driver = \<lparr>put_err = (\<lambda>_. None), delete_err = (\<lambda>_. None)\<rparr>"

definition ex_config_env :: ConfigEnv where
  "ex_config_env = \<lparr>ce_running = None, ce_environ = [], ce_Get = Inr ex_config, ce_Update = (\<lambda>_. None),
     ce_List = (\<lambda>_. Inr []), ce_driver = ex_driver, ce_cache = ex_cache, ce_registrar = 0\<rparr>"

definition ex_config_request :: Request where
  "ex_config_request = \<lparr>req_Namespace = ''gatekeeper-system'', req_Name = ''config''\<rparr>"

definition ex_config_start :: ConfigState where
  "ex_config_start = config_start (newTracker False 0) (fst (NewRegistrar ''config-controller'' True New_Manager))"

definition ex_sync_env :: SyncEnv where
  "ex_sync_env = \<lparr>sy_driver = ex_driver, sy_Get = (\<lambda>_ _ _. Inr ex_pod), sy_deleted = (\<lambda>_. False)\<rparr>"

definition ex_gone_env :: SyncEnv where
  "ex_gone_env = \<lparr>sy_driver = ex_driver, sy_Get = (\<lambda>_ _ _. Inl (IsNotFound ''gone'')), sy_deleted = (\<lambda>_. False)\<rparr>"

definition ex_sync_request :: Request where
  "ex_sync_request = \<lparr>req_Namespace = GetNamespace ex_pod, req_Name = ''gvk:Pod.v1.:'' @ GetName ex_pod\<rparr>"

definition ex_configured :: ConfigState where
  "ex_configured = fst (the (config_Reconcile ex_config_env ex_config_request ex_config_start))"

definition ex_synced :: ConfigState where
  "ex_synced = fst (sync_step ex_sync_env ex_sync_request ex_configured)"

lemma ex_config_start_reachable: "config_reachable ex_cache 0 ex_config_start"
  unfolding ex_config_start_def
  by (rule config_reachable.start, intro wm_reachable.registrar wm_reachable.new)
    (auto simp: NewRegistrar_def New_Manager_def newRecordKeeper_def Let_def watching_def)

lemma ex_config_read: "config_read ex_config_env ex_config_request = Some (Some (ex_config\<lparr>ci_Finalizers := []\<rparr>))"
  "config_wanted (Some (ex_config\<lparr>ci_Finalizers := []\<rparr>)) = ([(ex_pods, True)], New_Excluder, False)"
  by code_simp+

section \<open>Watched kinds\<close>

text \<open>The kinds that a config asks for.\<close>

lemma config_wanted_kinds:
  "set_abs (fst (config_wanted c)) =
    (case c of None \<Rightarrow> {} | Some i \<Rightarrow> if ci_deleting i then {} else set (cs_SyncOnly (ci_Spec i)))"
  by (simp add: config_wanted_def Set_Add_def split: option.split)

section \<open>The properties\<close>


lemma ex_configured_eq: "config_Reconcile ex_config_env ex_config_request ex_config_start = Some (ex_configured, None)"
  "\<not> needsWipe ex_configured \<and> needsReplay ex_configured = None \<and> ds_watched ex_configured = [(ex_pods, True)]"
  unfolding ex_configured_def by code_simp+

lemma ex_configured_reachable: "config_reachable ex_cache 0 ex_configured"
  using config_reachable.config [OF ex_config_start_reachable _ _ ex_configured_eq(1)] by (simp add: ex_config_env_def)

lemma ex_synced_reachable: "config_reachable ex_cache 0 ex_synced"
  unfolding ex_synced_def by (rule config_reachable.sync [OF ex_configured_reachable])

definition ex_pod_path :: string where
  "ex_pod_path = ''cluster/v1/Pod/p''"

lemma ex_synced_store: "mget (ds_store ex_synced) ex_pod_path = Some ex_pod" "\<not> needsWipe ex_synced"
  unfolding ex_synced_def ex_configured_def ex_pod_path_def by code_simp+


text \<open>C18: a reconciliation of the config in any reachable state, when the resource could be read and
  its finalizer removed: the watched kinds become those of \<open>SyncOnly\<close> (none when the config
  is gone or being deleted) and the excluder the config's, errors or not. Without an error,
  nothing is left pending, the registrar watches exactly those kinds, and OPA holds what it held
  if nothing had changed; otherwise every listed object of a replayed kind that is watched and
  not excluded is stored at its path, and after a change nothing else is.\<close>

theorem config_reconcile_settles:
  assumes "config_reachable (ce_cache env) (ce_registrar env) s"
    and "config_read env request = Some c" "config_wanted c = (new, exc, stats)"
  shows "\<exists>s' err. config_Reconcile env request s = Some (s', err) \<and> ds_watched s' = new \<and> ds_excluder s' = exc \<and>
    set_abs new = (case c of None \<Rightarrow> {} | Some i \<Rightarrow> if ci_deleting i then {} else set (cs_SyncOnly (ci_Spec i))) \<and>
    (err = None \<longrightarrow> config_settled (ce_registrar env) new exc s' \<and>
      (if unchanged new exc s \<and> \<not> pending s then ds_store s' = ds_store s else refilled env new exc s s'))"
proof -
  have i: "config_inv (ce_cache env) (ce_registrar env) s" by (rule config_reachable_inv [OF assms(1)])
  obtain s' err where "config_apply env new exc stats s = Some (s', err)"
    "config_inv (ce_cache env) (ce_registrar env) s'" "ds_watched s' = new" "ds_excluder s' = exc"
    "err = None \<Longrightarrow> config_settled (ce_registrar env) new exc s' \<and>
      (if unchanged new exc s \<and> \<not> pending s then ds_store s' = ds_store s else refilled env new exc s s')"
    by (rule config_apply_ok [OF i config_wanted_inv [OF assms(3)] refl refl, of exc stats]) blast
  then show ?thesis
    using config_Reconcile_read(1) [OF assms(2,3)] config_wanted_kinds [of c] assms(3) by auto
qed

theorem config_reconcile_settles_witness:
  "config_settled 0 [(ex_pods, True)] New_Excluder ex_configured \<and>
    refilled ex_config_env [(ex_pods, True)] New_Excluder ex_config_start ex_configured"
proof -
  have r: "config_reachable (ce_cache ex_config_env) (ce_registrar ex_config_env) ex_config_start"
    using ex_config_start_reachable by (simp add: ex_config_env_def)
  have "\<not> unchanged [(ex_pods, True)] New_Excluder ex_config_start" by code_simp
  then show ?thesis
    using config_reconcile_settles [OF r ex_config_read] ex_configured_eq(1) by (simp add: ex_config_env_def)
qed

section \<open>Objects\<close>

lemma newUnstructured_names [simp]:
  "GetName (newUnstructured gvk ns name) = name" "GetNamespace (newUnstructured gvk ns name) = ns"
  by (simp_all add: newUnstructured_def GetName_def GetNamespace_def getNestedString_def NestedString_def Let_def)

lemma newUnstructured_GVK: "plain_gvk gvk \<Longrightarrow> GroupVersionKind (newUnstructured gvk ns name) = gvk"
  by (cases gvk) (simp add: GroupVersionKind_def ParseGroupVersion_String newUnstructured_def getNestedString_def
      NestedString_def Let_def)

text \<open>The path depends on the kind and the names only.\<close>

lemma processUnstructured_same:
  assumes "GroupVersionKind a = GroupVersionKind b" "GetNamespace a = GetNamespace b" "GetName a = GetName b"
    "processUnstructured a = Inr (True, p, Some a)"
  shows "processUnstructured b = Inr (True, p, Some b)"
  using assms by (auto simp: processUnstructured_def Let_def split: if_splits)

lemma plain_path_nonempty: "plain_object ob \<Longrightarrow> Join (path_elements ob) ''/'' \<noteq> []"
  by (cases "GetNamespace ob = []") (simp_all add: path_elements_def Let_def)

text \<open>The sync controller on an object of a watched kind that is not excluded: reconciling it
  stores it at its path and changes no other document; reconciling the same request after
  the object is gone, in any later state where the kind is still watched, removes exactly that
  document. So a deletion undoes the addition.\<close>

theorem sync_roundtrip:
  assumes "UnpackRequest request = Inr (gvk, r)" "plain_gvk gvk" "plain_object ob"
    and "GroupVersionKind ob = gvk" "GetNamespace ob = req_Namespace r" "GetName ob = req_Name r"
    and "sy_Get env gvk (req_Namespace r) (req_Name r) = Inr ob" "\<not> sy_deleted env ob"
    and "\<not> sync_excluded (ds_excluder s) ob" "Set_Contains gvk (ds_watched s)" "put_err (sy_driver env) = (\<lambda>_. None)"
    and "sy_Get env' gvk (req_Namespace r) (req_Name r) = Inl (IsNotFound e)" "delete_err (sy_driver env') = (\<lambda>_. None)"
    and "Set_Contains gvk (ds_watched s')"
  shows "\<exists>p. processUnstructured ob = Inr (True, p, Some ob) \<and>
    ds_store (fst (sync_Reconcile env request s)) = mput p ob (ds_store s) \<and> snd (sync_Reconcile env request s) = None \<and>
    ds_store (fst (sync_Reconcile env' request s')) = mdel p (ds_store s') \<and> snd (sync_Reconcile env' request s') = None"
proof -
  let ?p = "Join (path_elements ob) ''/''"
  let ?gone = "newUnstructured gvk (req_Namespace r) (req_Name r)"
  have p: "processUnstructured ob = Inr (True, ?p, Some ob)" by (rule processUnstructured_plain(1) [OF assms(3)])
  have g: "GroupVersionKind ?gone = gvk" by (rule newUnstructured_GVK [OF assms(2)])
  have q: "processUnstructured ?gone = Inr (True, ?p, Some ?gone)"
    by (rule processUnstructured_same [OF _ _ _ p]) (simp_all add: g assms(4-6))
  have "Filtered_AddData (sy_driver env) (ds_watched s) (UnstructuredData ob) (ds_store s) = (mput ?p ob (ds_store s), None)"
    using p assms(4,10,11) by (simp add: Filtered_AddData_def filter_passes_def client_AddData_def ProcessData_def)
  then have 1: "ds_store (fst (sync_Reconcile env request s)) = mput ?p ob (ds_store s)" "snd (sync_Reconcile env request s) = None"
    using assms(1,7-9) by (simp_all add: sync_Reconcile_def sync_add_def Let_def)
  have "Filtered_RemoveData (sy_driver env') (ds_watched s') (UnstructuredData ?gone) (ds_store s') = (mdel ?p (ds_store s'), None)"
    using q g assms(13,14) plain_path_nonempty [OF assms(3)]
    by (simp add: Filtered_RemoveData_def filter_passes_def client_RemoveData_def ProcessData_def)
  then have 2: "ds_store (fst (sync_Reconcile env' request s')) = mdel ?p (ds_store s')" "snd (sync_Reconcile env' request s') = None"
    using assms(1,12) by (simp_all add: sync_Reconcile_def sync_remove_def Let_def)
  show ?thesis using p 1 2 by blast
qed

theorem sync_roundtrip_witness:
  "ds_store (fst (sync_Reconcile ex_gone_env ex_sync_request
    (fst (sync_Reconcile ex_sync_env ex_sync_request (DataState.truncate ex_configured))))) = []"
proof -
  let ?s = "DataState.truncate ex_configured"
  let ?s' = "fst (sync_Reconcile ex_sync_env ex_sync_request ?s)"
  let ?r = "\<lparr>req_Namespace = [], req_Name = ''p''\<rparr>"
  have r: "UnpackRequest ex_sync_request = Inr (ex_pods, ?r)" by code_simp
  have o: "plain_gvk ex_pods" "plain_object ex_pod" "GroupVersionKind ex_pod = ex_pods" "GetNamespace ex_pod = []" "GetName ex_pod = ''p''"
    by code_simp+
  have s: "ds_watched ?s = [(ex_pods, True)]" "ds_excluder ?s = []" "ds_store ?s = []"
    unfolding ex_configured_def by code_simp+
  have x: "\<not> sync_excluded [] ex_pod" by code_simp
  have "ds_watched ?s' = [(ex_pods, True)]" using sync_Reconcile_frame s by metis
  then show ?thesis
    using sync_roundtrip [OF r o(1-3), of ex_sync_env ?s ex_gone_env "''gone''" ?s'] o s x
    by (auto simp: ex_sync_env_def ex_gone_env_def ex_driver_def Set_Contains_def mdel_def)
qed

section \<open>Behaviours worth knowing\<close>

text \<open>An error of the watch manager ends a reconciliation before the replay: the data that was
  wiped is not put back until the watches succeed.\<close>

lemma failed_watch_skips_replay:
  assumes "wipeCacheIfNeeded env s = (s1, None)" "needsWipe s"
    "ReplaceWatch (ce_cache env) (ce_registrar env) (Set_Items (Some new)) (rc_manager s1) = Some (wm, e # errs)"
  shows "\<exists>err. finish env new s = Some (s1\<lparr>rc_manager := wm\<rparr>, Some err) \<and> ds_store s1 = []"
  using assms wipe_ok(7) [OF assms(1)] by (simp add: finish_def)

text \<open>The filter and the addition of \<open>AddData\<close> are two steps: when the config is reconciled
  in between, an object of a kind that is no longer watched ends up in OPA.\<close>

lemma late_addition:
  "filter_passes [(ex_pods, True)] (UnstructuredData ex_pod) \<and>
   \<not> data_ok NewSet New_Excluder (fst (client_AddData ex_driver (UnstructuredData ex_pod) []))"
proof -
  have "filter_passes [(ex_pods, True)] (UnstructuredData ex_pod)"
    "mget (fst (client_AddData ex_driver (UnstructuredData ex_pod) [])) ex_pod_path = Some ex_pod"
    "\<not> Set_Contains (GroupVersionKind ex_pod) NewSet"
    unfolding ex_pod_path_def by code_simp+
  then show ?thesis unfolding data_ok_def doc_ok_def by blast
qed

text \<open>The key of the metrics cache leaves the kind out: objects of two kinds with the same names
  share an entry, and deleting one loses the count of the other.\<close>

lemma sync_key_shared:
  "ReportSync (DeleteObject (GetSyncKey ''ns'' ''a'') (addKind ''Pod'' (AddObject (GetSyncKey ''ns'' ''a'') \<lparr>tag_Kind = ''Pod'', tag_Status = ActiveStatus\<rparr>
     (AddObject (GetSyncKey ''ns'' ''a'') \<lparr>tag_Kind = ''Service'', tag_Status = ActiveStatus\<rparr> (addKind ''Service'' NewMetricsCache))))) =
   map (\<lambda>(k, st). (\<lparr>tag_Kind = k, tag_Status = st\<rparr>, 0))
     [(''Pod'', ActiveStatus), (''Pod'', ErrorStatus), (''Service'', ActiveStatus), (''Service'', ErrorStatus)]"
  by code_simp

end
