(* ===== verification/Status_Controllers.thy ===== *)
theory Status_Controllers
  imports Operations Webhook Ready_Tracker
begin

text \<open>
  The controllers that gather what the pods report (\<open>pkg/controller/constraintstatus\<close>,
  \<open>constrainttemplatestatus\<close>, \<open>mutatorstatus\<close>): each pod writes status resources of its own, the
  status controllers copy them into the status of the constraint, template or mutator, and mappers
  lead from a status resource back to the object it is about. Reads and writes of the API server are
  parameters.
\<close>

section \<open>The controller switch\<close>

text \<open>\<open>pkg/watch/controller_switch.go\<close>; the lock is held between \<open>Enter\<close> and \<open>Exit\<close>, during one
  reconciliation.\<close>

definition NewSwitch :: bool where
  "NewSwitch = True"

definition Switch_Stop :: "bool \<Rightarrow> bool" where
  "Switch_Stop running = False"

definition Switch_Enter :: "bool \<Rightarrow> bool" where
  "Switch_Enter running = running"

text \<open>The guard at the head of the reconcilers: the switch may be nil.\<close>

definition shutting_down :: "bool option \<Rightarrow> bool" where
  "shutting_down cs = (case cs of None \<Rightarrow> False | Some running \<Rightarrow> \<not> Switch_Enter running)"

datatype Result = Reconciled | RequeueIt | ReconcileErr string

section \<open>Status resources\<close>

record StatusError =
  er_Code :: string
  er_Message :: string
  er_Location :: string

text \<open>A status resource with the fields that the controllers set. That of a template has no field
  \<open>enforced\<close>.\<close>

record FullStatus = PodStatus +
  st_UID :: string
  st_Enforced :: bool
  st_Errors :: "StatusError list"
  st_Generation :: int

definition full_status :: "PodStatus \<Rightarrow> FullStatus" where
  "full_status p = PodStatus.extend p \<lparr>st_UID = [], st_Enforced = False, st_Errors = [], st_Generation = 0\<rparr>"

text \<open>The JSON encoding of a status, decoded into a map: empty fields are left out.\<close>

definition json_error :: "StatusError \<Rightarrow> val" where
  "json_error e =
     VMap ([(''code'', VString (er_Code e))] @
           (if er_Location e = [] then [] else [(''location'', VString (er_Location e))]) @
           [(''message'', VString (er_Message e))])"

definition json_status :: "string \<Rightarrow> FullStatus \<Rightarrow> val" where
  "json_status uidField s =
     VMap (fold (\<lambda>(k, v). mput k v)
       ((if st_ID s = [] then [] else [(''id'', VString (st_ID s))]) @
        (if st_UID s = [] then [] else [(uidField, VString (st_UID s))]) @
        (if st_Operations s = [] then [] else [(''operations'', VList (map VString (st_Operations s)))]) @
        (if \<not> st_Enforced s then [] else [(''enforced'', VBool True)]) @
        (if st_Errors s = [] then [] else [(''errors'', VList (map json_error (st_Errors s)))]) @
        (if st_Generation s = 0 then [] else [(''observedGeneration'', VFloat (of_int (st_Generation s)))])) [])"

section \<open>Gathering\<close>

text \<open>\<open>unstructured.SetNestedField\<close>: missing maps on the way are made.\<close>

fun SetNestedField :: "object \<Rightarrow> val \<Rightarrow> string list \<Rightarrow> string + object" where
  "SetNestedField ob v [] = Inl ''no field''"
| "SetNestedField ob v [f] = Inr (mput f v ob)"
| "SetNestedField ob v (f # fs) =
     (case (case mget ob f of None \<Rightarrow> Some [] | Some (VMap m) \<Rightarrow> Some m | Some _ \<Rightarrow> None) of
        None \<Rightarrow> Inl ''value cannot be set because it is not a map''
      | Some m \<Rightarrow> map_sum id (\<lambda>m'. mput f (VMap m') ob) (SetNestedField m v fs))"

definition GetUID :: "object \<Rightarrow> string" where
  "GetUID ob = getNestedString ob [''metadata'', ''uid'']"

record StatusReader =
  sr_running :: "bool option"
  sr_Get :: "GVK \<Rightarrow> Request \<Rightarrow> GetErr + object"
  sr_List :: "(string, string) gomap \<Rightarrow> string \<Rightarrow> string + FullStatus list"
  sr_Update :: "object \<Rightarrow> string option"
  sr_environ :: environ
  sr_assumeDeleted :: "GVK \<Rightarrow> bool"

text \<open>Sorted by pod; \<open>sort.Sort\<close> leaves the order of statuses of the same pod open. Statuses for another
  incarnation of the object are dropped. The slice is nil when there is none.\<close>

definition by_pod :: "string \<Rightarrow> string \<Rightarrow> FullStatus list \<Rightarrow> val list" where
  "by_pod uidField uid items =
     map (json_status uidField) (filter (\<lambda>s. st_UID s = uid) (sort_key st_ID items))"

text \<open>The end of the three reconcilers: what is written as the object's status, and the result.\<close>

definition write_status :: "StatusReader \<Rightarrow> string + object \<Rightarrow> object option \<times> Result" where
  "write_status env r =
     (case r of
        Inl err \<Rightarrow> (None, ReconcileErr err)
      | Inr ob \<Rightarrow>
          (case sr_Update env ob of
             Some _ \<Rightarrow> (None, RequeueIt)
           | None \<Rightarrow> (Some ob, Reconciled)))"

definition ConstraintsGroup :: string where
  "ConstraintsGroup = ''constraints.gatekeeper.sh''"

definition MutationsGroup :: string where
  "MutationsGroup = ''mutations.gatekeeper.sh''"

definition constraintstatus_Reconcile :: "StatusReader \<Rightarrow> Request \<Rightarrow> object option \<times> Result" where
  "constraintstatus_Reconcile env request =
     (if shutting_down (sr_running env) then (None, Reconciled)
      else (case UnpackRequest request of
        Inl _ \<Rightarrow> (None, Reconciled)
      | Inr (gvk, unpacked) \<Rightarrow>
          if gvk_Group gvk \<noteq> ConstraintsGroup then (None, Reconciled)
          else if sr_assumeDeleted env gvk then (None, Reconciled)
          else (case sr_Get env gvk unpacked of
             Inl (IsNotFound _) \<Rightarrow> (None, Reconciled)
           | Inl (GetFailed err) \<Rightarrow> (None, ReconcileErr err)
           | Inr instance \<Rightarrow>
               (case sr_List env (mput ConstraintNameLabel (GetName instance)
                       (mput ConstraintKindLabel (getNestedString instance [''kind'']) []))
                     (util_GetNamespace (sr_environ env)) of
                  Inl err \<Rightarrow> (None, ReconcileErr err)
                | Inr items \<Rightarrow>
                    write_status env (SetNestedField instance
                      (VList (by_pod ''constraintUID'' (GetUID instance) items)) [''status'', ''byPod''])))))"

definition mutatorstatus_Reconcile :: "StatusReader \<Rightarrow> Request \<Rightarrow> object option \<times> Result" where
  "mutatorstatus_Reconcile env request =
     (if shutting_down (sr_running env) then (None, Reconciled)
      else (case UnpackRequest request of
        Inl _ \<Rightarrow> (None, Reconciled)
      | Inr (gvk, unpacked) \<Rightarrow>
          if gvk_Group gvk \<noteq> MutationsGroup then (None, Reconciled)
          else (case sr_Get env gvk unpacked of
             Inl (IsNotFound _) \<Rightarrow> (None, Reconciled)
           | Inl (GetFailed err) \<Rightarrow> (None, ReconcileErr err)
           | Inr instance \<Rightarrow>
               (case sr_List env (mput MutatorNameLabel (GetName instance)
                       (mput MutatorKindLabel (getNestedString instance [''kind'']) []))
                     (util_GetNamespace (sr_environ env)) of
                  Inl err \<Rightarrow> (None, ReconcileErr err)
                | Inr items \<Rightarrow>
                    write_status env (SetNestedField instance
                      (VList (by_pod ''mutatorUID'' (GetUID instance) items)) [''status'', ''byPod''])))))"

definition templatestatus_Reconcile :: "StatusReader \<Rightarrow> Request \<Rightarrow> object option \<times> Result" where
  "templatestatus_Reconcile env request =
     (if shutting_down (sr_running env) then (None, Reconciled)
      else (case sr_Get env templateGVK request of
             Inl (IsNotFound _) \<Rightarrow> (None, Reconciled)
           | Inl (GetFailed err) \<Rightarrow> (None, ReconcileErr err)
           | Inr template \<Rightarrow>
               (case sr_List env (mput ConstraintTemplateNameLabel (req_Name request) [])
                     (util_GetNamespace (sr_environ env)) of
                  Inl err \<Rightarrow> (None, ReconcileErr err)
                | Inr items \<Rightarrow>
                    (let s = by_pod ''templateUID'' (GetUID template) items in
                     write_status env
                       (case SetNestedField template (VList s) [''status'', ''byPod''] of
                          Inl err \<Rightarrow> Inl err
                        | Inr template \<Rightarrow>
                            SetNestedField template (VBool (length s > 0)) [''status'', ''created''])))))"

section \<open>From a status to its object\<close>

text \<open>The test that other pods' statuses are left out; a missing label reads as the empty name.\<close>

definition own_status :: "environ \<Rightarrow> bool \<Rightarrow> (string, string) gomap \<Rightarrow> bool" where
  "own_status env selfOnly labels \<longleftrightarrow>
     selfOnly \<longrightarrow> (case mget labels PodLabel of Some pod \<Rightarrow> pod | None \<Rightarrow> []) = GetPodName env"

text \<open>An unstructured object with a kind and a name, for the packer.\<close>

definition named_object :: "GVK \<Rightarrow> string \<Rightarrow> ClientObject" where
  "named_object gvk name = \<lparr>co_GVK = stored_GVK gvk, co_Namespace = [], co_Name = name\<rparr>"

definition PodStatusToConstraintMapper ::
    "environ \<Rightarrow> bool \<Rightarrow> (ClientObject option \<Rightarrow> Request list) \<Rightarrow> (string, string) gomap \<Rightarrow> Request list" where
  "PodStatusToConstraintMapper env selfOnly packerMap labels =
     (case mget labels ConstraintNameLabel of
        None \<Rightarrow> []
      | Some name \<Rightarrow>
          (case mget labels ConstraintKindLabel of
             None \<Rightarrow> []
           | Some kind \<Rightarrow>
               if \<not> own_status env selfOnly labels then []
               else packerMap (Some (named_object (GVK ConstraintsGroup ''v1beta1'' kind) name))))"

definition PodStatusToMutatorMapper ::
    "environ \<Rightarrow> bool \<Rightarrow> string \<Rightarrow> (ClientObject option \<Rightarrow> Request list) \<Rightarrow> (string, string) gomap \<Rightarrow> Request list" where
  "PodStatusToMutatorMapper env selfOnly kindMatch packerMap labels =
     (case mget labels MutatorNameLabel of
        None \<Rightarrow> []
      | Some name \<Rightarrow>
          (case mget labels MutatorKindLabel of
             None \<Rightarrow> []
           | Some kind \<Rightarrow>
               if kindMatch \<noteq> [] \<and> kind \<noteq> kindMatch then []
               else if \<not> own_status env selfOnly labels then []
               else packerMap (Some (named_object (GVK MutationsGroup ''v1alpha1'' kind) name))))"

definition PodStatusToConstraintTemplateMapper ::
    "environ \<Rightarrow> bool \<Rightarrow> (string, string) gomap \<Rightarrow> Request list" where
  "PodStatusToConstraintTemplateMapper env selfOnly labels =
     (case mget labels ConstraintTemplateNameLabel of
        None \<Rightarrow> []
      | Some name \<Rightarrow>
          if \<not> own_status env selfOnly labels then []
          else [\<lparr>req_Namespace = [], req_Name = name\<rparr>])"

end
