(* ===== verification/Mutator_Controllers.thy ===== *)
theory Mutator_Controllers
  imports Status_Controllers Mutation_System
begin

text \<open>
  The controllers of the mutators (\<open>pkg/controller/assign\<close>, \<open>pkg/controller/assignmetadata\<close>): they
  keep the mutation system in step with the \<open>Assign\<close> and \<open>AssignMetadata\<close> resources and report in a status
  resource of the pod. The two differ in the resource only and share their definitions here. The
  status resources of the own namespace are a map by name; other answers of the API server are
  parameters.
\<close>

section \<open>Status resources of the pod\<close>

record StatusStore =
  ss_store :: "(string, FullStatus) gomap"
  ss_ops :: opSet

text \<open>Errors of the API server on a name (other than a missing object), the pod, the texts of
  errors.\<close>

record StatusClient =
  sc_Get :: "string \<Rightarrow> string option"
  sc_Create :: "string \<Rightarrow> string option"
  sc_Update :: "string \<Rightarrow> string option"
  sc_Delete :: "string \<Rightarrow> string option"
  sc_getPod :: "string + string"
  sc_env :: StatusEnv
  sc_text :: "StatusErr \<Rightarrow> string"

definition status_Update :: "StatusClient \<Rightarrow> FullStatus \<Rightarrow> StatusStore \<Rightarrow> StatusStore \<times> string option" where
  "status_Update c st s =
     (case sc_Update c (st_Name st) of
        Some err \<Rightarrow> (s, Some err)
      | None \<Rightarrow>
          if mhas (ss_store s) (st_Name st)
          then (s\<lparr>ss_store := mput (st_Name st) st (ss_store s)\<rparr>, None)
          else (s, Some ''not found''))"

text \<open>Deleting what is not there is no error to the callers.\<close>

definition status_Delete :: "StatusClient \<Rightarrow> string \<Rightarrow> StatusStore \<Rightarrow> StatusStore \<times> string option" where
  "status_Delete c name s =
     (case sc_Delete c name of
        Some err \<Rightarrow> (s, Some err)
      | None \<Rightarrow> (s\<lparr>ss_store := mdel name (ss_store s)\<rparr>, None))"

text \<open>\<open>getOrCreatePodStatus\<close>: \<open>statusKey\<close> is the name for this pod, \<open>create\<close> the constructor.\<close>

definition getOrCreatePodStatus ::
    "StatusClient \<Rightarrow> PackErr + string \<Rightarrow> (opSet \<Rightarrow> string \<Rightarrow> (StatusErr + PodStatus) \<times> opSet) \<Rightarrow>
     StatusStore \<Rightarrow> StatusStore \<times> (string + FullStatus)" where
  "getOrCreatePodStatus c statusKey create s =
     (case statusKey of
        Inl err \<Rightarrow> (s, Inl (sc_text c (NameErr err)))
      | Inr sName \<Rightarrow>
          (case sc_Get c sName of
             Some err \<Rightarrow> (s, Inl err)
           | None \<Rightarrow>
               (case mget (ss_store s) sName of
                  Some st \<Rightarrow> (s, Inr st)
                | None \<Rightarrow>
                    (case sc_getPod c of
                       Inl err \<Rightarrow> (s, Inl err)
                     | Inr pod \<Rightarrow>
                         (case create (ss_ops s) pod of
                            (Inl err, ops) \<Rightarrow> (s\<lparr>ss_ops := ops\<rparr>, Inl (sc_text c err))
                          | (Inr st, ops) \<Rightarrow>
                              (case sc_Create c (st_Name st) of
                                 Some err \<Rightarrow> (s\<lparr>ss_ops := ops\<rparr>, Inl err)
                               | None \<Rightarrow>
                                   (s\<lparr>ss_store := mput (st_Name st) (full_status st) (ss_store s), ss_ops := ops\<rparr>,
                                    Inr (full_status st))))))))"

section \<open>Reconcile\<close>

record MutatorState =
  ms_system :: System
  ms_tracker :: Tracker
  ms_status :: StatusStore

text \<open>\<open>'a\<close> is the resource; the deletion timestamp, UID and generation are read off it.\<close>

record 'a MutatorEnv =
  me_client :: StatusClient
  me_Get :: "Request \<Rightarrow> GetErr + 'a"
  me_deleted :: "'a \<Rightarrow> bool"
  me_UID :: "'a \<Rightarrow> string"
  me_Generation :: "'a \<Rightarrow> int"
  me_AssignErr :: "AssignErr \<Rightarrow> string"
  me_SysErr :: "SysErr \<Rightarrow> string"

definition mutator_key :: "StatusClient \<Rightarrow> ID \<Rightarrow> PackErr + string" where
  "mutator_key c mID = KeyForMutatorID (sc_env c) (GetPodName (se_environ (sc_env c))) mID"

text \<open>The branch for a deleted resource. A result \<open>Inl\<close> is a panic of the mutation system.\<close>

definition mutator_delete ::
    "'a MutatorEnv \<Rightarrow> Expectations \<Rightarrow> RuntimeObject \<Rightarrow> ID \<Rightarrow> MutatorState \<Rightarrow> SysPanic + MutatorState \<times> Result" where
  "mutator_delete env tracker ob mID s =
     (let s = s\<lparr>ms_tracker := call tracker (EvCancel ob) (ms_tracker s)\<rparr> in
      case System_Remove mID (ms_system s) of
        Inl p \<Rightarrow> Inl p
      | Inr (sys, Some err) \<Rightarrow> Inr (s\<lparr>ms_system := sys\<rparr>, ReconcileErr (me_SysErr env err))
      | Inr (sys, None) \<Rightarrow>
          (let s = s\<lparr>ms_system := sys\<rparr> in
           case mutator_key (me_client env) mID of
             Inl err \<Rightarrow> Inr (s, ReconcileErr (sc_text (me_client env) (NameErr err)))
           | Inr sName \<Rightarrow>
               (case status_Delete (me_client env) sName (ms_status s) of
                  (st, Some err) \<Rightarrow> Inr (s\<lparr>ms_status := st\<rparr>, ReconcileErr err)
                | (st, None) \<Rightarrow> Inr (s\<lparr>ms_status := st\<rparr>, Reconciled))))"

text \<open>A mutator that cannot be made or inserted: the expectation is given up after its retries,
  the error is reported in the status (a failure to do so is not), and returned.\<close>

definition mutator_fail ::
    "'a MutatorEnv \<Rightarrow> Expectations \<Rightarrow> RuntimeObject \<Rightarrow> FullStatus \<Rightarrow> string \<Rightarrow> MutatorState \<Rightarrow> MutatorState \<times> Result" where
  "mutator_fail env tracker ob status err s =
     (s\<lparr>ms_tracker := call tracker (EvTryCancel ob) (ms_tracker s),
        ms_status := fst (status_Update (me_client env)
          (status\<lparr>st_Errors := st_Errors status @ [\<lparr>er_Code = [], er_Message = err, er_Location = []\<rparr>]\<rparr>)
          (ms_status s))\<rparr>, ReconcileErr err)"

definition mutator_apply ::
    "'a MutatorEnv \<Rightarrow> Expectations \<Rightarrow> RuntimeObject \<Rightarrow> ID \<Rightarrow> 'a \<Rightarrow> AssignErr + Mutator \<Rightarrow> MutatorState \<Rightarrow>
     SysPanic + MutatorState \<times> Result" where
  "mutator_apply env tracker ob mID a made s =
     (let c = me_client env in
      case getOrCreatePodStatus c (mutator_key c mID) (\<lambda>ops pod. NewMutatorStatusForPod (sc_env c) ops pod mID)
             (ms_status s) of
        (st, Inl err) \<Rightarrow> Inr (s\<lparr>ms_status := st\<rparr>, ReconcileErr err)
      | (st, Inr status) \<Rightarrow>
          (let s = s\<lparr>ms_status := st\<rparr>;
               status = status\<lparr>st_UID := me_UID env a, st_Generation := me_Generation env a, st_Errors := []\<rparr> in
           case made of
             Inl err \<Rightarrow> Inr (mutator_fail env tracker ob status (me_AssignErr env err) s)
           | Inr mut \<Rightarrow>
               (case System_Upsert mut (ms_system s) of
                  Inl p \<Rightarrow> Inl p
                | Inr (sys, Some err) \<Rightarrow>
                    Inr (mutator_fail env tracker ob status (me_SysErr env err) (s\<lparr>ms_system := sys\<rparr>))
                | Inr (sys, None) \<Rightarrow>
                    (let s = s\<lparr>ms_system := sys, ms_tracker := call tracker (EvObserve ob) (ms_tracker s)\<rparr> in
                     case status_Update c (status\<lparr>st_Enforced := True\<rparr>) (ms_status s) of
                       (st, Some err) \<Rightarrow> Inr (s\<lparr>ms_status := st\<rparr>, ReconcileErr err)
                     | (st, None) \<Rightarrow> Inr (s\<lparr>ms_status := st\<rparr>, Reconciled)))))"

definition mutator_Reconcile ::
    "GVK \<Rightarrow> ('a \<Rightarrow> ObjectMeta) \<Rightarrow> ('a \<Rightarrow> AssignErr + Mutator) \<Rightarrow> 'a MutatorEnv \<Rightarrow> Request \<Rightarrow> MutatorState \<Rightarrow>
     SysPanic + MutatorState \<times> Result" where
  "mutator_Reconcile gvk meta mutatorFor env request s =
     (case me_Get env request of
        Inl (GetFailed err) \<Rightarrow> Inr (s, ReconcileErr err)
      | Inl (IsNotFound _) \<Rightarrow>
          (let m = \<lparr>om_GVK = gvk, om_Name = req_Name request, om_Namespace = req_Namespace request\<rparr>;
               (t, tracker) = For gvk (ms_tracker s)
           in mutator_delete env tracker (TypedObject gvk (om_Namespace m) (om_Name m) False) (MakeID m) (s\<lparr>ms_tracker := t\<rparr>))
      | Inr a \<Rightarrow>
          (let m = meta a; (t, tracker) = For gvk (ms_tracker s); s = s\<lparr>ms_tracker := t\<rparr>;
               ob = TypedObject (om_GVK m) (om_Namespace m) (om_Name m) (me_deleted env a)
           in if me_deleted env a then mutator_delete env tracker ob (MakeID m) s
              else mutator_apply env tracker ob (MakeID m) a (mutatorFor a) s))"

definition assign_Reconcile :: "Assign MutatorEnv \<Rightarrow> Request \<Rightarrow> MutatorState \<Rightarrow> SysPanic + MutatorState \<times> Result" where
  "assign_Reconcile =
     mutator_Reconcile assignGVK ObjectMeta.truncate (\<lambda>a. map_sum id MAssign (MutatorForAssign a))"

definition assignmetadata_Reconcile ::
    "AssignMetadata MutatorEnv \<Rightarrow> Request \<Rightarrow> MutatorState \<Rightarrow> SysPanic + MutatorState \<times> Result" where
  "assignmetadata_Reconcile =
     mutator_Reconcile assignMetadataGVK ObjectMeta.truncate (\<lambda>a. map_sum id MAssignMetadata (MutatorForAssignMetadata a))"

text \<open>The watches of the two controllers: the resource itself, and the status resources of this pod
  by \<open>PodStatusToMutatorMapper\<close> with the packer.\<close>

definition own_request :: "ObjectMeta \<Rightarrow> Request" where
  "own_request m = \<lparr>req_Namespace = om_Namespace m, req_Name = om_Name m\<rparr>"

definition assign_status_events :: "environ \<Rightarrow> FullStatus \<Rightarrow> Request list" where
  "assign_status_events env st = PodStatusToMutatorMapper env True ''Assign'' EventPackerMapFunc (st_Labels st)"

definition assignmetadata_status_events :: "environ \<Rightarrow> FullStatus \<Rightarrow> Request list" where
  "assignmetadata_status_events env st =
     PodStatusToMutatorMapper env True ''AssignMetadata'' EventPackerMapFunc (st_Labels st)"

end
