(* ===== verification/Controller_Facts.thy ===== *)
theory Controller_Facts
  imports Mutator_Controllers System_Facts "HOL-Library.Multiset"
begin

text \<open>Facts on the status controllers and the controllers of the mutators.\<close>

section \<open>Status resources lead back\<close>

lemma stored_GVK_id:
  assumes "gvk_Group g \<noteq> []" "CHR ''/'' \<notin> set (gvk_Group g)" "CHR ''/'' \<notin> set (gvk_Version g)"
  shows "stored_GVK g = g"
proof -
  have "filter (\<lambda>c. c = CHR ''/'') (gvk_Group g) = []" "filter (\<lambda>c. c = CHR ''/'') (gvk_Version g) = []"
    unfolding filter_empty_conv using assms(2,3) by blast+
  moreover have "gvk_Group g @ CHR ''/'' # gvk_Version g \<noteq> ''/''" using assms(1) by (cases "gvk_Group g") auto
  ultimately have "ParseGroupVersion (gvk_Group g @ CHR ''/'' # gvk_Version g) = Some (gvk_Group g, gvk_Version g)"
    using assms by (simp add: ParseGroupVersion_def Let_def)
  then show ?thesis using assms(1) by (cases g) (simp add: stored_GVK_def GV_String_def)
qed

text \<open>A kind that can be packed: no dot and no colon.\<close>

definition plain_kind :: "string \<Rightarrow> bool" where
  "plain_kind k \<longleftrightarrow> CHR ''.'' \<notin> set k \<and> CHR '':'' \<notin> set k"

lemma packed_back:
  assumes "plain_kind k" "g \<in> {ConstraintsGroup, MutationsGroup}" "v \<in> {''v1beta1'', ''v1alpha1''}"
  shows "map UnpackRequest (EventPackerMapFunc (Some (named_object (GVK g v k) name))) =
    [Inr (GVK g v k, \<lparr>req_Namespace = [], req_Name = name\<rparr>)]"
proof -
  have s: "stored_GVK (GVK g v k) = GVK g v k"
    by (rule stored_GVK_id) (use assms in \<open>auto simp: ConstraintsGroup_def MutationsGroup_def\<close>)
  have p: "packable (GVK g v k)"
    using assms by (auto simp: packable_def plain_kind_def ConstraintsGroup_def MutationsGroup_def)
  show ?thesis
    using Unpack_EventPacker [of "named_object (GVK g v k) name"] p s assms(3)
    by (auto simp: named_object_def default_version_def)
qed

section \<open>Gathering\<close>

lemma map_sum_Inr: "map_sum f g x = Inr y \<longleftrightarrow> (\<exists>z. x = Inr z \<and> y = g z)"
  by (cases x) auto

lemma SetNestedField_two:
  "SetNestedField ob v [f, g] = Inr ob' \<Longrightarrow>
    \<exists>m. (mget ob f = None \<and> m = [] \<or> mget ob f = Some (VMap m)) \<and> ob' = mput f (VMap (mput g v m)) ob"
  by (auto simp: map_sum_Inr split: option.splits val.splits)

lemma write_status_Some: "write_status env r = (Some ob, res) \<Longrightarrow> r = Inr ob \<and> res = Reconciled"
  by (auto simp: write_status_def split: sum.splits option.splits)

text \<open>The statuses behind the encodings.\<close>

definition own_statuses :: "string \<Rightarrow> FullStatus list \<Rightarrow> FullStatus list" where
  "own_statuses uid items = filter (\<lambda>s. st_UID s = uid) (sort_key st_ID items)"

lemma by_pod_own: "by_pod f uid items = map (json_status f) (own_statuses uid items)"
  by (simp add: by_pod_def own_statuses_def)

lemma own_statuses:
  "sorted (map st_ID (own_statuses uid items)) \<and>
   mset (own_statuses uid items) = filter_mset (\<lambda>st. st_UID st = uid) (mset items)"
  using mset_filter [of "\<lambda>s. st_UID s = uid" "sort_key st_ID items"] by (simp add: own_statuses_def sorted_filter)

text \<open>What a written object looks like.\<close>

definition gathered :: "StatusReader \<Rightarrow> string \<Rightarrow> object \<Rightarrow> bool" where
  "gathered env f ob \<longleftrightarrow> (\<exists>gvk r' cur labels items.
     sr_Get env gvk r' = Inr cur \<and> sr_List env labels (util_GetNamespace (sr_environ env)) = Inr items \<and>
     (let sts = own_statuses (GetUID cur) items in
      NestedFieldNoCopy (VMap ob) [''status'', ''byPod''] = Inr (Some (VList (map (json_status f) sts))) \<and>
      (f = ''templateUID'' \<longrightarrow> NestedFieldNoCopy (VMap ob) [''status'', ''created''] = Inr (Some (VBool (sts \<noteq> [])))) \<and>
      (\<forall>k. k \<noteq> ''status'' \<longrightarrow> mget ob k = mget cur k)))"

lemma gatheredI:
  assumes "sr_Get env gvk r = Inr cur" "sr_List env labels (util_GetNamespace (sr_environ env)) = Inr items"
    "SetNestedField cur (VList (by_pod f (GetUID cur) items)) [''status'', ''byPod''] = Inr ob" "f \<noteq> ''templateUID''"
  shows "gathered env f ob"
proof -
  obtain m where ob: "ob = mput ''status'' (VMap (mput ''byPod'' (VList (by_pod f (GetUID cur) items)) m)) cur"
    using SetNestedField_two [OF assms(3)] by blast
  show ?thesis
    unfolding gathered_def Let_def
    by (rule exI [of _ gvk], rule exI [of _ r], rule exI [of _ cur], rule exI [of _ labels], rule exI [of _ items])
      (simp add: assms(1,2,4) ob by_pod_own)
qed

lemma constraintstatus_gathered:
  assumes "constraintstatus_Reconcile env r = (Some ob, res)"
  shows "res = Reconciled \<and> gathered env ''constraintUID'' ob"
proof -
  obtain gvk u cur labels items where g: "sr_Get env gvk u = Inr cur"
    "sr_List env labels (util_GetNamespace (sr_environ env)) = Inr items"
    "write_status env (SetNestedField cur (VList (by_pod ''constraintUID'' (GetUID cur) items)) [''status'', ''byPod'']) = (Some ob, res)"
    using assms unfolding constraintstatus_Reconcile_def
    by (auto split: if_splits sum.splits prod.splits GetErr.splits simp del: SetNestedField.simps)
  then show ?thesis using write_status_Some [OF g(3)] gatheredI [OF g(1,2)] by simp
qed

lemma mutatorstatus_gathered:
  assumes "mutatorstatus_Reconcile env r = (Some ob, res)"
  shows "res = Reconciled \<and> gathered env ''mutatorUID'' ob"
proof -
  obtain gvk u cur labels items where g: "sr_Get env gvk u = Inr cur"
    "sr_List env labels (util_GetNamespace (sr_environ env)) = Inr items"
    "write_status env (SetNestedField cur (VList (by_pod ''mutatorUID'' (GetUID cur) items)) [''status'', ''byPod'']) = (Some ob, res)"
    using assms unfolding mutatorstatus_Reconcile_def
    by (auto split: if_splits sum.splits prod.splits GetErr.splits simp del: SetNestedField.simps)
  then show ?thesis using write_status_Some [OF g(3)] gatheredI [OF g(1,2)] by simp
qed

lemma templatestatus_gathered:
  assumes "templatestatus_Reconcile env r = (Some ob, res)"
  shows "res = Reconciled \<and> gathered env ''templateUID'' ob"
proof -
  obtain cur labels items where g: "sr_Get env templateGVK r = Inr cur"
    "sr_List env labels (util_GetNamespace (sr_environ env)) = Inr items"
    "write_status env (case SetNestedField cur (VList (by_pod ''templateUID'' (GetUID cur) items)) [''status'', ''byPod''] of
       Inl err \<Rightarrow> Inl err
     | Inr t \<Rightarrow> SetNestedField t (VBool (length (by_pod ''templateUID'' (GetUID cur) items) > 0)) [''status'', ''created'']) = (Some ob, res)"
    using assms unfolding templatestatus_Reconcile_def Let_def
    by (auto split: if_splits sum.splits prod.splits GetErr.splits simp del: SetNestedField.simps length_greater_0_conv)
  note w = write_status_Some [OF g(3)]
  then obtain t where t: "SetNestedField cur (VList (by_pod ''templateUID'' (GetUID cur) items)) [''status'', ''byPod''] = Inr t"
    "SetNestedField t (VBool (length (by_pod ''templateUID'' (GetUID cur) items) > 0)) [''status'', ''created''] = Inr ob"
    by (auto split: sum.splits simp del: SetNestedField.simps)
  obtain m where m: "t = mput ''status'' (VMap (mput ''byPod'' (VList (by_pod ''templateUID'' (GetUID cur) items)) m)) cur"
    using SetNestedField_two [OF t(1)] by blast
  obtain m' where "mget t ''status'' = None \<and> m' = [] \<or> mget t ''status'' = Some (VMap m')"
    and ob: "ob = mput ''status'' (VMap (mput ''created'' (VBool (length (by_pod ''templateUID'' (GetUID cur) items) > 0)) m')) t"
    using SetNestedField_two [OF t(2)] by blast
  then have m': "m' = mput ''byPod'' (VList (by_pod ''templateUID'' (GetUID cur) items)) m" using m by simp
  have "gathered env ''templateUID'' ob"
    unfolding gathered_def Let_def
    by (rule exI [of _ templateGVK], rule exI [of _ r], rule exI [of _ cur], rule exI [of _ labels], rule exI [of _ items])
      (simp add: g(1,2) ob m m' by_pod_own)
  then show ?thesis using w by simp
qed

section \<open>Mutators\<close>

text \<open>What the makers of the two controllers give.\<close>

definition makes :: "('a \<Rightarrow> ObjectMeta) \<Rightarrow> ('a \<Rightarrow> AssignErr + Mutator) \<Rightarrow> bool" where
  "makes meta mk \<longleftrightarrow> (\<forall>a m. mk a = Inr m \<longrightarrow> built m \<and> Mutator_ID m = MakeID (meta a))"

lemma makes_Assign: "makes ObjectMeta.truncate (\<lambda>a. map_sum id MAssign (MutatorForAssign a))"
  by (auto simp: makes_def map_sum_Inr intro: built_Assign dest: MutatorForAssign_fields(9))

lemma makes_AssignMetadata: "makes ObjectMeta.truncate (\<lambda>a. map_sum id MAssignMetadata (MutatorForAssignMetadata a))"
  by (auto simp: makes_def map_sum_Inr intro: built_AssignMetadata dest: MutatorForAssignMetadata_fields)

text \<open>What the system holds of an ID before and after.\<close>

definition same_but :: "ID \<Rightarrow> MutatorState \<Rightarrow> MutatorState \<Rightarrow> bool" where
  "same_but i s s' \<longleftrightarrow> (\<forall>j. j \<noteq> i \<longrightarrow> System_Get j (ms_system s') = System_Get j (ms_system s))"

lemma System_Remove_reach:
  assumes "reachable s"
  obtains s' where "System_Remove i s = Inr (s', None)" "reachable s'" "System_Get i s' = None"
    "\<And>j. j \<noteq> i \<Longrightarrow> System_Get j s' = System_Get j s"
proof -
  have inv: "sys_inv s" by (rule reachable_inv [OF assms])
  obtain s' where s': "System_Remove i s = Inr (s', None)" "sys_inv s'" "mutatorsMap s' = mdel i (mutatorsMap s)"
    using System_Remove_spec [OF inv, of i] by blast
  show thesis
    by (rule that [OF s'(1)])
      (use reach_Remove [OF assms s'(1)] s' System_Get_eq [OF inv] System_Get_eq [OF s'(2)] in auto)
qed

lemma System_Upsert_reach:
  assumes "reachable s" "built m"
  obtains s' e where "System_Upsert m s = Inr (s', e)" "reachable s'"
    "e = None \<Longrightarrow> \<exists>m'. System_Get (Mutator_ID m) s' = Some m' \<and> \<not> HasDiff m m'"
    "e \<noteq> None \<Longrightarrow> System_Get (Mutator_ID m) s' = System_Get (Mutator_ID m) s"
    "\<And>j. j \<noteq> Mutator_ID m \<Longrightarrow> System_Get j s' = System_Get j s"
proof -
  have inv: "sys_inv s" by (rule reachable_inv [OF assms(1)])
  obtain s' e where up: "System_Upsert m s = Inr (s', e)" "sys_inv s'"
    "e = None \<longrightarrow> mutatorsMap s' = mput (Mutator_ID m) m (mutatorsMap s) \<or>
       s' = s \<and> (\<exists>old. mget (mutatorsMap s) (Mutator_ID m) = Some old \<and> \<not> HasDiff m old)"
    "e \<noteq> None \<longrightarrow> mutatorsMap s' = mutatorsMap s"
    using System_Upsert_spec [OF inv built_valid [OF assms(2)]] by blast
  note get = System_Get_eq [OF inv] System_Get_eq [OF up(2)]
  show thesis
  proof (rule that [OF up(1) reach_Upsert [OF assms up(1)]])
    show "\<exists>m'. System_Get (Mutator_ID m) s' = Some m' \<and> \<not> HasDiff m m'" if "e = None"
      using up(3) that mutators.has_diff_refl [of m] unfolding get by auto
    show "System_Get (Mutator_ID m) s' = System_Get (Mutator_ID m) s" if "e \<noteq> None"
      using up(4) that unfolding get by simp
    show "System_Get j s' = System_Get j s" if "j \<noteq> Mutator_ID m" for j
      using up(3,4) that unfolding get by (cases e) auto
  qed
qed

lemma mutator_delete_ok:
  assumes "reachable (ms_system s)"
  obtains s' res where "mutator_delete env es ob i s = Inr (s', res)" "reachable (ms_system s')"
    "System_Get i (ms_system s') = None" "same_but i s s'"
    "res = Reconciled \<Longrightarrow> \<exists>n. mutator_key (me_client env) i = Inr n \<and> ss_store (ms_status s') = mdel n (ss_store (ms_status s))"
proof -
  obtain sys where R: "System_Remove i (ms_system s) = Inr (sys, None)" "reachable sys" "System_Get i sys = None"
    "\<And>j. j \<noteq> i \<Longrightarrow> System_Get j sys = System_Get j (ms_system s)"
    by (rule System_Remove_reach [OF assms, of i]) blast
  let ?s = "s\<lparr>ms_tracker := call es (EvCancel ob) (ms_tracker s), ms_system := sys\<rparr>"
  show thesis
  proof (cases "mutator_key (me_client env) i")
    case (Inl err)
    then show thesis
      by (intro that [of ?s "ReconcileErr (sc_text (me_client env) (NameErr err))"])
        (use R in \<open>simp_all add: mutator_delete_def same_but_def\<close>)
  next
    case (Inr n)
    obtain st e where D: "status_Delete (me_client env) n (ms_status s) = (st, e)"
      by (cases "status_Delete (me_client env) n (ms_status s)")
    show thesis
      by (rule that [of "?s\<lparr>ms_status := st\<rparr>" "case e of None \<Rightarrow> Reconciled | Some err \<Rightarrow> ReconcileErr err"])
        (use R Inr D in \<open>auto simp: mutator_delete_def same_but_def status_Delete_def split: option.splits\<close>)
  qed
qed

text \<open>A status of the pod as a success leaves it.\<close>

definition enforced_status :: "StatusStore \<Rightarrow> string \<Rightarrow> int \<Rightarrow> bool" where
  "enforced_status ss uid gen \<longleftrightarrow> (\<exists>n st. mget (ss_store ss) n = Some st \<and>
     st_UID st = uid \<and> st_Generation st = gen \<and> st_Enforced st \<and> st_Errors st = [])"

lemma status_Update_ok: "status_Update c st s = (s', None) \<Longrightarrow> mget (ss_store s') (st_Name st) = Some st"
  by (auto simp: status_Update_def split: option.splits if_splits)

lemma mutator_apply_ok:
  assumes "reachable (ms_system s)" "\<And>m. made = Inr m \<Longrightarrow> built m \<and> Mutator_ID m = i"
  obtains s' res where "mutator_apply env es ob i a made s = Inr (s', res)" "reachable (ms_system s')" "same_but i s s'"
    "res = Reconciled \<longrightarrow> enforced_status (ms_status s') (me_UID env a) (me_Generation env a) \<and>
       (\<exists>m m'. made = Inr m \<and> System_Get i (ms_system s') = Some m' \<and> \<not> HasDiff m m')"
    "\<forall>e. made = Inl e \<longrightarrow> ms_system s' = ms_system s"
proof -
  obtain st r where G: "getOrCreatePodStatus (me_client env) (mutator_key (me_client env) i)
      (\<lambda>ops pod. NewMutatorStatusForPod (sc_env (me_client env)) ops pod i) (ms_status s) = (st, r)"
    by (cases "getOrCreatePodStatus (me_client env) (mutator_key (me_client env) i)
      (\<lambda>ops pod. NewMutatorStatusForPod (sc_env (me_client env)) ops pod i) (ms_status s)")
  show thesis
  proof (cases r)
    case (Inl err)
    then show thesis
      by (intro that [of "s\<lparr>ms_status := st\<rparr>" "ReconcileErr err"])
        (use G assms in \<open>simp_all add: mutator_apply_def same_but_def\<close>)
  next
    case (Inr status0)
    define s1 where "s1 = s\<lparr>ms_status := st\<rparr>"
    define status where "status = status0\<lparr>st_UID := me_UID env a, st_Generation := me_Generation env a, st_Errors := []\<rparr>"
    note eq = mutator_apply_def [where env = env and tracker = es and ob = ob and mID = i and a = a and s = s, unfolded Let_def G prod.case Inr sum.case,
        folded s1_def status_def]
    have s1: "ms_system s1 = ms_system s" "ms_tracker s1 = ms_tracker s" by (simp_all add: s1_def)
    show thesis
    proof (cases made)
      case (Inl err)
      then show thesis
        by (intro that [of "fst (mutator_fail env es ob status (me_AssignErr env err) s1)" "ReconcileErr (me_AssignErr env err)"])
          (use assms s1 in \<open>simp_all add: eq mutator_fail_def same_but_def\<close>)
    next
      case (Inr m)
      have m: "built m" "Mutator_ID m = i" using assms(2) [OF Inr] by auto
      obtain sys x where U: "System_Upsert m (ms_system s) = Inr (sys, x)" "reachable sys"
        "x = None \<Longrightarrow> \<exists>m'. System_Get i sys = Some m' \<and> \<not> HasDiff m m'"
        "\<And>j. j \<noteq> i \<Longrightarrow> System_Get j sys = System_Get j (ms_system s)"
        by (rule System_Upsert_reach [OF assms(1) m(1), unfolded m(2)]) blast
      show thesis
      proof (cases x)
        case (Some err)
        then show thesis
          by (intro that [of "fst (mutator_fail env es ob status (me_SysErr env err) (s1\<lparr>ms_system := sys\<rparr>))"
                "ReconcileErr (me_SysErr env err)"])
            (use Inr U s1 in \<open>simp_all add: eq mutator_fail_def same_but_def\<close>)
      next
        case None
        let ?s2 = "s1\<lparr>ms_system := sys, ms_tracker := call es (EvObserve ob) (ms_tracker s)\<rparr>"
        obtain st2 y where V: "status_Update (me_client env) (status\<lparr>st_Enforced := True\<rparr>) (ms_status s1) = (st2, y)"
          by (cases "status_Update (me_client env) (status\<lparr>st_Enforced := True\<rparr>) (ms_status s1)")
        have e: "y = None \<Longrightarrow> enforced_status st2 (me_UID env a) (me_Generation env a)"
          unfolding enforced_status_def
          by (rule exI [of _ "st_Name status"], rule exI [of _ "status\<lparr>st_Enforced := True\<rparr>"])
            (use V status_Update_ok [of "me_client env" "status\<lparr>st_Enforced := True\<rparr>" "ms_status s1" st2] in \<open>simp add: status_def\<close>)
        show thesis
          by (rule that [of "?s2\<lparr>ms_status := st2\<rparr>" "case y of None \<Rightarrow> Reconciled | Some err \<Rightarrow> ReconcileErr err"])
            (use Inr U None V s1 e in \<open>auto simp: eq same_but_def split: option.splits\<close>)
      qed
    qed
  qed
qed

text \<open>A reconciliation, whatever the resource.\<close>

definition requested_ID :: "GVK \<Rightarrow> Request \<Rightarrow> ID" where
  "requested_ID gvk r = MakeID \<lparr>om_GVK = gvk, om_Name = req_Name r, om_Namespace = req_Namespace r\<rparr>"

text \<open>The outcome for a cur resource: \<open>None\<close> when there is none.\<close>

definition mutator_outcome ::
    "('a \<Rightarrow> AssignErr + Mutator) \<Rightarrow> 'a MutatorEnv \<Rightarrow> 'a option \<Rightarrow> ID \<Rightarrow> MutatorState \<Rightarrow> MutatorState \<Rightarrow> Result \<Rightarrow> bool" where
  "mutator_outcome mk env got i s s' res \<longleftrightarrow>
     same_but i s s' \<and>
     (case got of
        None \<Rightarrow> System_Get i (ms_system s') = None
      | Some a \<Rightarrow>
          (if me_deleted env a then System_Get i (ms_system s') = None
           else (case mk a of
               Inl e \<Rightarrow> ms_system s' = ms_system s \<and> res \<noteq> Reconciled
             | Inr m \<Rightarrow> res = Reconciled \<longrightarrow>
                 (\<exists>m'. System_Get i (ms_system s') = Some m' \<and> \<not> HasDiff m m') \<and>
                 enforced_status (ms_status s') (me_UID env a) (me_Generation env a))))"

lemma For_mutators: "fst (For assignGVK t) = t" "fst (For assignMetadataGVK t) = t"
  by (simp_all add: For_def assignGVK_def assignMetadataGVK_def templateGVK_def configGVK_def)

lemma mutator_Reconcile_ok:
  assumes "makes meta mk" "reachable (ms_system s)"
    "me_Get env r = Inl (IsNotFound x) \<and> got = None \<and> i = requested_ID gvk r \<or>
     (\<exists>a. me_Get env r = Inr a \<and> got = Some a \<and> i = MakeID (meta a))"
  shows "\<exists>s' res. mutator_Reconcile gvk meta mk env r s = Inr (s', res) \<and> reachable (ms_system s') \<and>
    mutator_outcome mk env got i s s' res"
proof -
  obtain t es where F: "For gvk (ms_tracker s) = (t, es)" by (cases "For gvk (ms_tracker s)")
  let ?s = "s\<lparr>ms_tracker := t\<rparr>"
  have R: "reachable (ms_system ?s)" using assms(2) by simp
  have del: "\<exists>s' res. mutator_delete env es ob i ?s = Inr (s', res) \<and> reachable (ms_system s') \<and>
      same_but i s s' \<and> System_Get i (ms_system s') = None" for ob
    by (rule mutator_delete_ok [OF R, of env es ob i]) (auto simp: same_but_def)
  from assms(3) show ?thesis
  proof
    assume n: "me_Get env r = Inl (IsNotFound x) \<and> got = None \<and> i = requested_ID gvk r"
    then show ?thesis
      using del [of "TypedObject gvk (req_Namespace r) (req_Name r) False"] F
      by (auto simp: mutator_Reconcile_def mutator_outcome_def requested_ID_def Let_def)
  next
    assume "\<exists>a. me_Get env r = Inr a \<and> got = Some a \<and> i = MakeID (meta a)"
    then obtain a where a: "me_Get env r = Inr a" "got = Some a" "i = MakeID (meta a)" by blast
    let ?ob = "TypedObject (om_GVK (meta a)) (om_Namespace (meta a)) (om_Name (meta a)) (me_deleted env a)"
    show ?thesis
    proof (cases "me_deleted env a")
      case True
      then show ?thesis using del [of ?ob] F a by (auto simp: mutator_Reconcile_def mutator_outcome_def Let_def)
    next
      case False
      have b: "\<And>m. mk a = Inr m \<Longrightarrow> built m \<and> Mutator_ID m = i" using assms(1) a by (simp add: makes_def)
      obtain s' res where A: "mutator_apply env es ?ob i a (mk a) ?s = Inr (s', res)" "reachable (ms_system s')" "same_but i ?s s'"
        "res = Reconciled \<longrightarrow> enforced_status (ms_status s') (me_UID env a) (me_Generation env a) \<and>
          (\<exists>m m'. mk a = Inr m \<and> System_Get i (ms_system s') = Some m' \<and> \<not> HasDiff m m')"
        "\<forall>e. mk a = Inl e \<longrightarrow> ms_system s' = ms_system ?s"
        by (rule mutator_apply_ok [where env = env and es = es and ob = ?ob and a = a and i = i and made = "mk a", OF R b]) blast
      have "mutator_Reconcile gvk meta mk env r s = Inr (s', res)"
        using F a False A(1) by (simp add: mutator_Reconcile_def Let_def)
      then show ?thesis
        using A(2-5) a(2) False by (cases "mk a") (auto simp: mutator_outcome_def same_but_def)
    qed
  qed
qed

end
