(* ===== verification/Controller_Properties.thy ===== *)
theory Controller_Properties
  imports Controller_Facts Examples
begin

text \<open>
  The properties of the controllers: the mutation system follows the resources, status resources
  lead back to their objects, and what the pods report is gathered.
\<close>

section \<open>Sample data\<close>

definition ex_status_env :: StatusEnv where
  "ex_status_env = \<lparr>se_ToLower = (\<lambda>s. if s = ''Assign'' then ''assign'' else s), se_OwnerOk = (\<lambda>_. True),
     se_PodOwnershipEnabled = True, se_environ = [(''POD_NAME'', ''pod''), (''POD_NAMESPACE'', ''ns'')]\<rparr>"

definition ex_status_client :: StatusClient where
  "ex_status_client = \<lparr>sc_Get = (\<lambda>_. None), sc_Create = (\<lambda>_. None), sc_Update = (\<lambda>_. None), sc_Delete = (\<lambda>_. None),
     sc_getPod = Inr ''pod'', sc_env = ex_status_env, sc_text = (\<lambda>_. ''error'')\<rparr>"

definition ex_image_assign :: Assign where
  "ex_image_assign = (ex_assign ''image'' ''spec.containers[name: c].image'' (JString ''i''))\<lparr>om_GVK := assignGVK\<rparr>"

definition ex_mutator_env :: "GetErr + Assign \<Rightarrow> Assign MutatorEnv" where
  "ex_mutator_env got = \<lparr>me_client = ex_status_client, me_Get = (\<lambda>_. got), me_deleted = (\<lambda>_. False), me_UID = (\<lambda>_. ''u1''),
     me_Generation = (\<lambda>_. 1), me_AssignErr = (\<lambda>_. ''bad mutator''), me_SysErr = (\<lambda>_. ''conflict'')\<rparr>"

definition ex_mutator_state :: MutatorState where
  "ex_mutator_state = \<lparr>ms_system = NewSystem, ms_tracker = newTracker True 0,
     ms_status = \<lparr>ss_store = [], ss_ops = newOperationSet\<rparr>\<rparr>"

definition ex_image_request :: Request where
  "ex_image_request = own_request (ObjectMeta.truncate ex_image_assign)"

definition ex_applied :: MutatorState where
  "ex_applied = fst (get_Inr (assign_Reconcile (ex_mutator_env (Inr ex_image_assign)) ex_image_request ex_mutator_state))"

lemma ex_applied_eq:
  "assign_Reconcile (ex_mutator_env (Inr ex_image_assign)) ex_image_request ex_mutator_state = Inr (ex_applied, Reconciled)"
  unfolding ex_applied_def by code_simp

section \<open>Mutators\<close>


definition ex_owner_env :: "AssignMetadata MutatorEnv" where
  "ex_owner_env = \<lparr>me_client = ex_status_client, me_Get = (\<lambda>_. Inl (IsNotFound ''gone'')), me_deleted = (\<lambda>_. False),
     me_UID = (\<lambda>_. []), me_Generation = (\<lambda>_. 0), me_AssignErr = (\<lambda>_. []), me_SysErr = (\<lambda>_. [])\<rparr>"


section \<open>Status resources\<close>

text \<open>A status resource leads back to what it reports on: the labels that the constructors
  give it make the mappers enqueue exactly one request, which unpacks to the kind and name of the
  constraint or mutator and is the template's name; with \<open>selfOnly\<close> it is enqueued exactly by
  the pod that wrote it.\<close>

theorem status_leads_back:
  assumes "NewConstraintStatusForPod se ops pod c = (Inr st, o1)" "plain_kind (getNestedString c [''kind''])"
    and "NewMutatorStatusForPod se ops pod mID = (Inr st', o2)" "plain_kind (Kind mID)"
    and "NewConstraintTemplateStatusForPod se ops pod template = (Inr st2, o3)"
  shows "map UnpackRequest (PodStatusToConstraintMapper env selfOnly EventPackerMapFunc (st_Labels st)) =
      (if selfOnly \<and> pod \<noteq> GetPodName env then []
       else [Inr (GVK ConstraintsGroup ''v1beta1'' (getNestedString c [''kind'']), \<lparr>req_Namespace = [], req_Name = GetName c\<rparr>)]) \<and>
    map UnpackRequest (PodStatusToMutatorMapper env selfOnly [] EventPackerMapFunc (st_Labels st')) =
      (if selfOnly \<and> pod \<noteq> GetPodName env then []
       else [Inr (GVK MutationsGroup ''v1alpha1'' (Kind mID), \<lparr>req_Namespace = [], req_Name = Name mID\<rparr>)]) \<and>
    PodStatusToConstraintTemplateMapper env selfOnly (st_Labels st2) =
      (if selfOnly \<and> pod \<noteq> GetPodName env then [] else [\<lparr>req_Namespace = [], req_Name = template\<rparr>])"
proof -
  have "mget (st_Labels st) ConstraintNameLabel = Some (GetName c)"
    "mget (st_Labels st) ConstraintKindLabel = Some (getNestedString c [''kind''])" "mget (st_Labels st) PodLabel = Some pod"
    using assms(1) by (auto simp: NewConstraintStatusForPod_def new_status_def with_owner_def label_defs
        split: sum.splits prod.splits if_splits)
  moreover have "mget (st_Labels st') MutatorNameLabel = Some (Name mID)"
    "mget (st_Labels st') MutatorKindLabel = Some (Kind mID)" "mget (st_Labels st') PodLabel = Some pod"
    using assms(3) by (auto simp: NewMutatorStatusForPod_def new_status_def with_owner_def label_defs
        split: sum.splits prod.splits if_splits)
  moreover have "mget (st_Labels st2) ConstraintTemplateNameLabel = Some template" "mget (st_Labels st2) PodLabel = Some pod"
    using assms(5) by (auto simp: NewConstraintTemplateStatusForPod_def new_status_def with_owner_def label_defs
        split: sum.splits prod.splits if_splits)
  ultimately show ?thesis
    using packed_back [OF assms(2), of ConstraintsGroup "''v1beta1''" "GetName c"]
      packed_back [OF assms(4), of MutationsGroup "''v1alpha1''" "Name mID"]
    by (simp add: PodStatusToConstraintMapper_def PodStatusToMutatorMapper_def PodStatusToConstraintTemplateMapper_def own_status_def)
qed

definition ex_constraint_object :: object where
  "ex_constraint_object = [(''apiVersion'', VString ''constraints.gatekeeper.sh/v1beta1''), (''kind'', VString ''K8sLabels''),
     (''metadata'', VMap [(''name'', VString ''must-have''), (''uid'', VString ''u2'')]), (''spec'', VMap [])]"

theorem status_leads_back_witness:
  "map (\<lambda>st. map UnpackRequest (PodStatusToConstraintMapper (se_environ ex_status_env) True EventPackerMapFunc (st_Labels st)))
     [get_Inr (fst (NewConstraintStatusForPod ex_status_env newOperationSet ''pod'' ex_constraint_object))] =
   [[Inr (GVK ''constraints.gatekeeper.sh'' ''v1beta1'' ''K8sLabels'', \<lparr>req_Namespace = [], req_Name = ''must-have''\<rparr>)]]"
proof -
  let ?a = "NewConstraintStatusForPod ex_status_env newOperationSet ''pod'' ex_constraint_object"
  let ?i = "ID MutationsGroup ''Assign'' [] ''image''"
  let ?b = "NewMutatorStatusForPod ex_status_env newOperationSet ''pod'' ?i"
  let ?c = "NewConstraintTemplateStatusForPod ex_status_env newOperationSet ''pod'' ''k8slabels''"
  have "?a = (Inr (get_Inr (fst ?a)), snd ?a)" "?b = (Inr (get_Inr (fst ?b)), snd ?b)" "?c = (Inr (get_Inr (fst ?c)), snd ?c)"
    by code_simp+
  moreover have k: "getNestedString ex_constraint_object [''kind''] = ''K8sLabels''" "GetName ex_constraint_object = ''must-have''"
    "GetPodName (se_environ ex_status_env) = ''pod''" by code_simp+
  moreover have "plain_kind ''K8sLabels''" "plain_kind (Kind ?i)" by (simp_all add: plain_kind_def)
  ultimately show ?thesis
    using status_leads_back [of ex_status_env newOperationSet "''pod''" ex_constraint_object "get_Inr (fst ?a)" "snd ?a" ?i
        "get_Inr (fst ?b)" "snd ?b" "''k8slabels''" "get_Inr (fst ?c)" "snd ?c" "se_environ ex_status_env" True]
    by (simp add: ConstraintsGroup_def)
qed

text \<open>C26: what the pods report is gathered: an object that the status controllers write differs from
  the one read in its status only, and under \<open>byPod\<close> holds the encodings of exactly the listed
  statuses for the object's UID, in the order of the pods; a template is \<open>created\<close> exactly when
  there is one.\<close>

theorem status_gathered:
  assumes "constraintstatus_Reconcile env r = (Some ob, res) \<and> uid = ''constraintUID'' \<or>
      mutatorstatus_Reconcile env r = (Some ob, res) \<and> uid = ''mutatorUID'' \<or>
      templatestatus_Reconcile env r = (Some ob, res) \<and> uid = ''templateUID''"
  shows "res = Reconciled \<and> (\<exists>gvk r' cur labels items sts. sr_Get env gvk r' = Inr cur \<and>
    sr_List env labels (util_GetNamespace (sr_environ env)) = Inr items \<and>
    NestedFieldNoCopy (VMap ob) [''status'', ''byPod''] = Inr (Some (VList (map (json_status uid) sts))) \<and>
    sorted (map st_ID sts) \<and> mset sts = filter_mset (\<lambda>st. st_UID st = GetUID cur) (mset items) \<and>
    (uid = ''templateUID'' \<longrightarrow> NestedFieldNoCopy (VMap ob) [''status'', ''created''] = Inr (Some (VBool (sts \<noteq> [])))) \<and>
    (\<forall>k. k \<noteq> ''status'' \<longrightarrow> mget ob k = mget cur k))"
proof -
  have r: "res = Reconciled" and "gathered env uid ob"
    using assms constraintstatus_gathered mutatorstatus_gathered templatestatus_gathered by blast+
  then obtain gvk r' cur labels items where g: "sr_Get env gvk r' = Inr cur \<and>
     sr_List env labels (util_GetNamespace (sr_environ env)) = Inr items \<and>
     NestedFieldNoCopy (VMap ob) [''status'', ''byPod''] = Inr (Some (VList (map (json_status uid) (own_statuses (GetUID cur) items)))) \<and>
     (uid = ''templateUID'' \<longrightarrow> NestedFieldNoCopy (VMap ob) [''status'', ''created''] =
        Inr (Some (VBool (own_statuses (GetUID cur) items \<noteq> [])))) \<and>
     (\<forall>k. k \<noteq> ''status'' \<longrightarrow> mget ob k = mget cur k)"
    unfolding gathered_def Let_def by (elim exE)
  show ?thesis
    by (intro conjI r exI [of _ gvk] exI [of _ r'] exI [of _ cur] exI [of _ labels] exI [of _ items]
        exI [of _ "own_statuses (GetUID cur) items"] own_statuses [THEN conjunct1] own_statuses [THEN conjunct2]
        g [THEN conjunct1] g [THEN conjunct2, THEN conjunct1] g [THEN conjunct2, THEN conjunct2, THEN conjunct1]
        g [THEN conjunct2, THEN conjunct2, THEN conjunct2, THEN conjunct1]
        g [THEN conjunct2, THEN conjunct2, THEN conjunct2, THEN conjunct2])
qed

definition ex_reader :: StatusReader where
  "ex_reader = \<lparr>sr_running = Some NewSwitch, sr_Get = (\<lambda>_ _. Inr ex_constraint_object),
     sr_List = (\<lambda>_ _. Inr [(full_status (get_Inr (fst (NewConstraintStatusForPod ex_status_env newOperationSet ''pod'' ex_constraint_object))))
       \<lparr>st_UID := ''u2'', st_Enforced := True\<rparr>]), sr_Update = (\<lambda>_. None), sr_environ = se_environ ex_status_env,
     sr_assumeDeleted = (\<lambda>_. False)\<rparr>"

definition ex_reported :: object where
  "ex_reported = the (fst (constraintstatus_Reconcile ex_reader
     \<lparr>req_Namespace = [], req_Name = ''gvk:K8sLabels.v1beta1.constraints.gatekeeper.sh:must-have''\<rparr>))"

lemma ex_reported_eq: "constraintstatus_Reconcile ex_reader
     \<lparr>req_Namespace = [], req_Name = ''gvk:K8sLabels.v1beta1.constraints.gatekeeper.sh:must-have''\<rparr> = (Some ex_reported, Reconciled)"
  "sr_Get ex_reader gvk r = Inr ex_constraint_object"
  unfolding ex_reported_def by code_simp (simp add: ex_reader_def)

theorem status_gathered_witness: "mget ex_reported ''spec'' = mget ex_constraint_object ''spec''"
proof -
  have k: "''spec'' \<noteq> ''status''" by simp
  show ?thesis using status_gathered [OF disjI1 [OF conjI [OF ex_reported_eq(1) refl]]] ex_reported_eq(2) k
    by (metis sum.inject(2))
qed

section \<open>Behaviours worth knowing\<close>

text \<open>The controllers of the mutators are also triggered by the status resources of their pod, with
  requests packed with the kind. They do not unpack them: the request is taken for a resource
  whose name is the packed one, so a changed or deleted status does not make the mutator be
  reconciled.\<close>

lemma status_events_not_unpacked:
  assumes "NewMutatorStatusForPod se ops pod mID = (Inr st, ops')" "Kind mID = ''Assign''" "pod = GetPodName env"
  shows "assign_status_events env (full_status st) =
    [\<lparr>req_Namespace = [], req_Name = ''gvk:Assign.v1alpha1.mutations.gatekeeper.sh:'' @ Name mID\<rparr>]"
proof -
  have "mget (st_Labels st) MutatorNameLabel = Some (Name mID)"
    "mget (st_Labels st) MutatorKindLabel = Some (Kind mID)" "mget (st_Labels st) PodLabel = Some pod"
    using assms(1) by (auto simp: NewMutatorStatusForPod_def new_status_def with_owner_def label_defs
        split: sum.splits prod.splits if_splits)
  moreover have "stored_GVK (GVK MutationsGroup ''v1alpha1'' ''Assign'') = GVK MutationsGroup ''v1alpha1'' ''Assign''"
    by code_simp
  ultimately show ?thesis
    using assms(2,3)
    by (simp add: assign_status_events_def PodStatusToMutatorMapper_def own_status_def named_object_def
        EventPackerMapFunc_def full_status_def PodStatus.defs MutationsGroup_def)
qed

text \<open>Such a request deletes nothing of the mutator and inserts nothing: the system keeps what it
  holds of the resource's ID.\<close>

lemma status_events_ignored:
  assumes "reachable (ms_system s)" "me_Get env \<lparr>req_Namespace = [], req_Name = ''gvk:'' @ x\<rparr> = Inl (IsNotFound e)"
    "hd (Name i) \<noteq> CHR ''g''"
  shows "\<exists>s' res. assign_Reconcile env \<lparr>req_Namespace = [], req_Name = ''gvk:'' @ x\<rparr> s = Inr (s', res) \<and>
    System_Get i (ms_system s') = System_Get i (ms_system s)"
proof -
  let ?r = "\<lparr>req_Namespace = [], req_Name = ''gvk:'' @ x\<rparr>"
  have "i \<noteq> requested_ID assignGVK ?r" using assms(3) by (auto simp: requested_ID_def MakeID_def)
  then show ?thesis
    using mutator_Reconcile_ok [OF makes_Assign assms(1), of env ?r e None "requested_ID assignGVK ?r" assignGVK] assms(2)
    by (auto simp: assign_Reconcile_def mutator_outcome_def same_but_def)
qed

text \<open>A failure does not reset \<open>Enforced\<close>: a status that said so goes on saying so beside the errors.\<close>

lemma failed_status_enforced:
  assumes "status_Update (me_client env) (status\<lparr>st_Errors := st_Errors status @ [\<lparr>er_Code = [], er_Message = err, er_Location = []\<rparr>]\<rparr>)
      (ms_status s) = (st, None)" "st_Enforced status"
  shows "\<exists>new. mget (ss_store (ms_status (fst (mutator_fail env es ob status err s)))) (st_Name status) = Some new \<and>
    st_Enforced new \<and> st_Errors new \<noteq> []"
  using status_Update_ok [OF assms(1)] assms by (simp add: mutator_fail_def)

end
