(* ===== verification/Opa_Client.thy ===== *)
theory Opa_Client
  imports Ready_Tracker Webhook
begin

text \<open>
  The client of the constraint framework, as far as the controllers use it: the templates by name
  and the constraints by kind and name. The client is the vendored framework's
  (\<open>vendor/github.com/open-policy-agent/frameworks/constraint/pkg/client\<close>); the compilation of
  templates, the validation of constraints and the driver are parameters that say which error they
  answer.
\<close>

text \<open>A template; \<open>tp_Spec\<close> stands for the rest of its specification.\<close>

record Template = ConstraintTemplate +
  tp_Spec :: string
  tp_UID :: string
  tp_Generation :: int
  tp_Finalizers :: "string list"

record OpaClient =
  oc_templates :: "(string, Template) gomap"
  oc_constraints :: "(string \<times> string, object) gomap"

datatype OpaErr = UnrecognizedConstraint string | OpaFailed string

record OpaEnv =
  oe_ToLower :: "string \<Rightarrow> string"
  oe_Basic :: "Template \<Rightarrow> string option"
  oe_Compile :: "Template \<Rightarrow> string option"
  oe_Remove :: "Template \<Rightarrow> string option"
  oe_Validate :: "object \<Rightarrow> string option"
  oe_Delete :: "object \<Rightarrow> string option"

definition NewOpa :: OpaClient where
  "NewOpa = \<lparr>oc_templates = [], oc_constraints = []\<rparr>"

section \<open>Templates\<close>

definition GetTemplate :: "string \<Rightarrow> OpaClient \<Rightarrow> Template option" where
  "GetTemplate name c = mget (oc_templates c) name"

text \<open>\<open>SemanticEqual\<close> compares the specifications, of which the kind is a part.\<close>

definition template_SemanticEqual :: "Template \<Rightarrow> Template \<Rightarrow> bool" where
  "template_SemanticEqual a b \<longleftrightarrow> ct_Kind a = ct_Kind b \<and> tp_Spec a = tp_Spec b"

definition template_check :: "OpaEnv \<Rightarrow> Template \<Rightarrow> string option" where
  "template_check env t = (case oe_Basic env t of Some err \<Rightarrow> Some err | None \<Rightarrow> oe_Compile env t)"

definition AddTemplate :: "OpaEnv \<Rightarrow> Template \<Rightarrow> OpaClient \<Rightarrow> OpaClient \<times> string option" where
  "AddTemplate env t c =
     (case oe_Basic env t of
        Some err \<Rightarrow> (c, Some err)
      | None \<Rightarrow>
          if (case GetTemplate (ct_Name t) c of Some u \<Rightarrow> template_SemanticEqual u t | None \<Rightarrow> False) then (c, None)
          else (case oe_Compile env t of
             Some err \<Rightarrow> (c, Some err)
           | None \<Rightarrow> (c\<lparr>oc_templates := mput (ct_Name t) t (oc_templates c)\<rparr>, None)))"

text \<open>A template that is not there is no error. The constraints of its kind go with it.\<close>

definition RemoveTemplate :: "OpaEnv \<Rightarrow> Template \<Rightarrow> OpaClient \<Rightarrow> OpaClient \<times> string option" where
  "RemoveTemplate env t c =
     (case GetTemplate (ct_Name t) c of
        None \<Rightarrow> (c, None)
      | Some u \<Rightarrow>
          (case oe_Remove env u of
             Some err \<Rightarrow> (c, Some err)
           | None \<Rightarrow>
               (c\<lparr>oc_templates := mdel (ct_Name t) (oc_templates c),
                  oc_constraints := filter (\<lambda>((kind, _), _). kind \<noteq> ct_Kind u) (oc_constraints c)\<rparr>, None)))"

section \<open>Constraints\<close>

definition constraint_key :: "object \<Rightarrow> string \<times> string" where
  "constraint_key ob = (gvk_Kind (GroupVersionKind ob), GetName ob)"

definition GetConstraint :: "object \<Rightarrow> OpaClient \<Rightarrow> object option" where
  "GetConstraint ob c = mget (oc_constraints c) (constraint_key ob)"

text \<open>\<open>constraints.SemanticEqual\<close>: two specifications that are equal maps.\<close>

definition SemanticEqual :: "object \<Rightarrow> object \<Rightarrow> bool" where
  "SemanticEqual a b \<longleftrightarrow>
     (case (mget a ''spec'', mget b ''spec'') of (Some (VMap s), Some (VMap t)) \<Rightarrow> s = t | _ \<Rightarrow> False)"

text \<open>The template of a constraint is found under the lower-case kind and must be of its kind.\<close>

definition template_of :: "OpaEnv \<Rightarrow> object \<Rightarrow> OpaClient \<Rightarrow> bool" where
  "template_of env ob c \<longleftrightarrow>
     (let kind = gvk_Kind (GroupVersionKind ob) in
      case GetTemplate (oe_ToLower env kind) c of Some t \<Rightarrow> ct_Kind t = kind | None \<Rightarrow> False)"

definition AddConstraint :: "OpaEnv \<Rightarrow> object \<Rightarrow> OpaClient \<Rightarrow> OpaClient \<times> OpaErr option" where
  "AddConstraint env ob c =
     (if \<not> template_of env ob c then (c, Some (UnrecognizedConstraint (gvk_Kind (GroupVersionKind ob))))
      else if (case GetConstraint ob c of Some u \<Rightarrow> SemanticEqual u ob | None \<Rightarrow> False) then (c, None)
      else (case oe_Validate env ob of
         Some err \<Rightarrow> (c, Some (OpaFailed err))
       | None \<Rightarrow> (c\<lparr>oc_constraints := mput (constraint_key ob) ob (oc_constraints c)\<rparr>, None)))"

definition RemoveConstraint :: "OpaEnv \<Rightarrow> object \<Rightarrow> OpaClient \<Rightarrow> OpaClient \<times> OpaErr option" where
  "RemoveConstraint env ob c =
     (if \<not> template_of env ob c then (c, Some (UnrecognizedConstraint (gvk_Kind (GroupVersionKind ob))))
      else (case oe_Delete env ob of
         Some err \<Rightarrow> (c, Some (OpaFailed err))
       | None \<Rightarrow> (c\<lparr>oc_constraints := mdel (constraint_key ob) (oc_constraints c)\<rparr>, None)))"

section \<open>The invariant\<close>

text \<open>A template is under its own name, the lower case of its kind, and every constraint has one. The
  name of a template is checked by \<open>oe_Basic\<close>.\<close>

definition names_lower :: "OpaEnv \<Rightarrow> bool" where
  "names_lower env \<longleftrightarrow> (\<forall>t. oe_Basic env t = None \<longrightarrow> ct_Name t = oe_ToLower env (ct_Kind t))"

definition templates_ok :: "OpaEnv \<Rightarrow> OpaClient \<Rightarrow> bool" where
  "templates_ok env c \<longleftrightarrow> mwf (oc_templates c) \<and>
     (\<forall>n t. mget (oc_templates c) n = Some t \<longrightarrow> n = oe_ToLower env (ct_Kind t) \<and> ct_Name t = n)"

definition constraints_ok :: "OpaEnv \<Rightarrow> OpaClient \<Rightarrow> bool" where
  "constraints_ok env c \<longleftrightarrow> mwf (oc_constraints c) \<and>
     (\<forall>k ob. mget (oc_constraints c) k = Some ob \<longrightarrow> k = constraint_key ob \<and>
        (\<exists>t. GetTemplate (oe_ToLower env (fst k)) c = Some t \<and> ct_Kind t = fst k))"

lemma constraints_okD:
  assumes "constraints_ok env c" "mget (oc_constraints c) k = Some ob"
  shows "k = constraint_key ob" "\<exists>t. GetTemplate (oe_ToLower env (fst k)) c = Some t \<and> ct_Kind t = fst k"
proof -
  have "\<forall>k ob. mget (oc_constraints c) k = Some ob \<longrightarrow> k = constraint_key ob \<and>
      (\<exists>t. GetTemplate (oe_ToLower env (fst k)) c = Some t \<and> ct_Kind t = fst k)"
    using assms(1) unfolding constraints_ok_def by (rule conjunct2)
  from this [rule_format, OF assms(2)] show "k = constraint_key ob"
    "\<exists>t. GetTemplate (oe_ToLower env (fst k)) c = Some t \<and> ct_Kind t = fst k" by (rule conjunct1, rule conjunct2)
qed

lemma constraints_okI:
  assumes "mwf (oc_constraints c)"
    "\<And>k ob. mget (oc_constraints c) k = Some ob \<Longrightarrow> k = constraint_key ob \<and>
      (\<exists>t. GetTemplate (oe_ToLower env (fst k)) c = Some t \<and> ct_Kind t = fst k)"
  shows "constraints_ok env c"
  unfolding constraints_ok_def using assms by (intro conjI allI impI) simp_all

definition opa_ok :: "OpaEnv \<Rightarrow> OpaClient \<Rightarrow> bool" where
  "opa_ok env c \<longleftrightarrow> templates_ok env c \<and> constraints_ok env c"

text \<open>The spelling of a template's kind does not change.\<close>

definition kind_stable :: "Template \<Rightarrow> OpaClient \<Rightarrow> bool" where
  "kind_stable t c \<longleftrightarrow> (\<forall>u. GetTemplate (ct_Name t) c = Some u \<longrightarrow> ct_Kind u = ct_Kind t)"

lemma opa_ok_New: "opa_ok env NewOpa"
  by (simp add: opa_ok_def templates_ok_def constraints_ok_def NewOpa_def)

lemma opa_okD:
  "opa_ok env c \<Longrightarrow> GetTemplate n c = Some t \<Longrightarrow> n = oe_ToLower env (ct_Kind t) \<and> ct_Name t = n"
  by (simp add: opa_ok_def templates_ok_def GetTemplate_def)

lemma AddTemplate_cases:
  assumes "AddTemplate env t c = (c', err)"
  obtains (same) "c' = c" "err \<noteq> None \<or> (\<exists>u. GetTemplate (ct_Name t) c = Some u \<and> template_SemanticEqual u t)"
  | (added) "err = None" "oe_Basic env t = None" "c' = c\<lparr>oc_templates := mput (ct_Name t) t (oc_templates c)\<rparr>"
proof -
  let ?r = "AddTemplate env t c"
  have "fst ?r = c \<and> (snd ?r \<noteq> None \<or> (\<exists>u. GetTemplate (ct_Name t) c = Some u \<and> template_SemanticEqual u t)) \<or>
    snd ?r = None \<and> oe_Basic env t = None \<and> fst ?r = c\<lparr>oc_templates := mput (ct_Name t) t (oc_templates c)\<rparr>"
    by (auto simp: AddTemplate_def split: option.split)
  then show thesis using assms same added by auto
qed

lemma AddTemplate_ok:
  assumes "opa_ok env c" "names_lower env" "kind_stable t c" "AddTemplate env t c = (c', err)"
  shows "opa_ok env c'" "err = None \<Longrightarrow> \<exists>u. GetTemplate (ct_Name t) c' = Some u \<and> template_SemanticEqual u t"
    "\<And>n u. GetTemplate n c = Some u \<Longrightarrow> \<exists>u'. GetTemplate n c' = Some u' \<and> ct_Kind u' = ct_Kind u"
proof -
  have "opa_ok env c' \<and> (err = None \<longrightarrow> (\<exists>u. GetTemplate (ct_Name t) c' = Some u \<and> template_SemanticEqual u t)) \<and>
    (\<forall>n u. GetTemplate n c = Some u \<longrightarrow> (\<exists>u'. GetTemplate n c' = Some u' \<and> ct_Kind u' = ct_Kind u))"
    using assms(4)
  proof (cases rule: AddTemplate_cases)
    case same
    then show ?thesis using assms(1) by auto
  next
    case added
    have k: "\<exists>u'. GetTemplate n c' = Some u' \<and> ct_Kind u' = ct_Kind u" if "GetTemplate n c = Some u" for n u
      using that added(3) assms(3) by (auto simp: GetTemplate_def kind_stable_def)
    have o: "oc_constraints c' = oc_constraints c" using added(3) by simp
    have "templates_ok env c'"
      using assms(1,2) added by (auto simp: opa_ok_def templates_ok_def names_lower_def)
    moreover have "constraints_ok env c'"
      using assms(1) k unfolding opa_ok_def constraints_ok_def o by metis
    ultimately show ?thesis using k added(3) by (simp add: opa_ok_def GetTemplate_def template_SemanticEqual_def)
  qed
  then show "opa_ok env c'" "err = None \<Longrightarrow> \<exists>u. GetTemplate (ct_Name t) c' = Some u \<and> template_SemanticEqual u t"
    "\<And>n u. GetTemplate n c = Some u \<Longrightarrow> \<exists>u'. GetTemplate n c' = Some u' \<and> ct_Kind u' = ct_Kind u"
    by blast+
qed

lemma mget_filter_key: "mget (filter (\<lambda>(k, v). P k) m) k = (if P k then mget m k else None)"
  by (induction m) auto

lemma mwf_filter: "mwf m \<Longrightarrow> mwf (filter P m)"
  by (induction m) (auto simp: mwf_Cons)

lemma RemoveTemplate_ok:
  assumes "opa_ok env c" "RemoveTemplate env t c = (c', err)"
  shows "opa_ok env c'" "err = None \<Longrightarrow> GetTemplate (ct_Name t) c' = None"
    "\<And>n. n \<noteq> ct_Name t \<Longrightarrow> GetTemplate n c' = GetTemplate n c"
    "err \<noteq> None \<Longrightarrow> c' = c"
    "err = None \<Longrightarrow> mget (oc_constraints c') (k, x) =
      (if oe_ToLower env k = ct_Name t then None else mget (oc_constraints c) (k, x))"
proof -
  have c: "templates_ok env c" "constraints_ok env c" using assms(1) by (auto simp: opa_ok_def)
  have "opa_ok env c' \<and> (err = None \<longrightarrow> GetTemplate (ct_Name t) c' = None) \<and>
    (\<forall>n. n \<noteq> ct_Name t \<longrightarrow> GetTemplate n c' = GetTemplate n c) \<and> (err \<noteq> None \<longrightarrow> c' = c) \<and>
    (err = None \<longrightarrow> (\<forall>k x. mget (oc_constraints c') (k, x) =
      (if oe_ToLower env k = ct_Name t then None else mget (oc_constraints c) (k, x))))"
  proof (cases "GetTemplate (ct_Name t) c")
    case None
    then have e: "c' = c" "err = None" using assms(2) by (auto simp: RemoveTemplate_def)
    have "mget (oc_constraints c) (k, x) = None" if "oe_ToLower env k = ct_Name t" for k x
    proof (cases "mget (oc_constraints c) (k, x)")
      case (Some ob)
      then obtain u where "GetTemplate (oe_ToLower env k) c = Some u"
        using constraints_okD(2) [OF c(2) Some] by auto
      then show ?thesis using that None by simp
    qed
    then show ?thesis using e None assms(1) by auto
  next
    case (Some u)
    show ?thesis
    proof (cases "oe_Remove env u")
      case None
      then have e: "err = None" "c' = c\<lparr>oc_templates := mdel (ct_Name t) (oc_templates c),
          oc_constraints := filter (\<lambda>((kind, _), _). kind \<noteq> ct_Kind u) (oc_constraints c)\<rparr>"
        using assms(2) Some by (auto simp: RemoveTemplate_def)
      have u: "ct_Name t = oe_ToLower env (ct_Kind u)" using opa_okD [OF assms(1) Some] by simp
      have m: "mget (oc_constraints c') kx = (if fst kx = ct_Kind u then None else mget (oc_constraints c) kx)" for kx
        using e(2) mget_filter_key [of "\<lambda>kx. fst kx \<noteq> ct_Kind u" "oc_constraints c" kx] by (simp add: split_def)
      have x: "fst kx = ct_Kind u \<longleftrightarrow> oe_ToLower env (fst kx) = ct_Name t" if k: "mget (oc_constraints c) kx = Some ob" for kx ob
      proof -
        obtain v where "GetTemplate (oe_ToLower env (fst kx)) c = Some v" "ct_Kind v = fst kx"
          using constraints_okD(2) [OF c(2) k] by blast
        then show ?thesis using u Some by (metis option.inject)
      qed
      have "templates_ok env c'" using c(1) e(2) by (auto simp: templates_ok_def)
      moreover have "constraints_ok env c'"
      proof -
        have "mwf (oc_constraints c')" using c(2) e(2) by (simp add: constraints_ok_def mwf_filter)
        moreover have "kx = constraint_key ob \<and> (\<exists>t. GetTemplate (oe_ToLower env (fst kx)) c' = Some t \<and> ct_Kind t = fst kx)"
          if "mget (oc_constraints c') kx = Some ob" for kx ob
        proof -
          have o: "mget (oc_constraints c) kx = Some ob" "fst kx \<noteq> ct_Kind u" using that m [of kx] by (auto split: if_splits)
          obtain v where v: "kx = constraint_key ob" "GetTemplate (oe_ToLower env (fst kx)) c = Some v" "ct_Kind v = fst kx"
            using constraints_okD [OF c(2) o(1)] by blast
          have "oe_ToLower env (fst kx) \<noteq> ct_Name t" using x [OF o(1)] o(2) by blast
          then show ?thesis using v e(2) by (simp add: GetTemplate_def)
        qed
        ultimately show ?thesis by (rule constraints_okI)
      qed
      moreover have "mget (oc_constraints c') (k, y) =
          (if oe_ToLower env k = ct_Name t then None else mget (oc_constraints c) (k, y))" for k y
        using m [of "(k, y)"] x [of "(k, y)"] by (cases "mget (oc_constraints c) (k, y)") auto
      ultimately show ?thesis using e by (auto simp: opa_ok_def GetTemplate_def)
    next
      case (Some err')
      then have "c' = c" "err = Some err'" using assms(2) \<open>GetTemplate (ct_Name t) c = Some u\<close> by (auto simp: RemoveTemplate_def)
      then show ?thesis using assms(1) by simp
    qed
  qed
  then show "opa_ok env c'" "err = None \<Longrightarrow> GetTemplate (ct_Name t) c' = None"
    "\<And>n. n \<noteq> ct_Name t \<Longrightarrow> GetTemplate n c' = GetTemplate n c"
    "err \<noteq> None \<Longrightarrow> c' = c"
    "err = None \<Longrightarrow> mget (oc_constraints c') (k, x) =
      (if oe_ToLower env k = ct_Name t then None else mget (oc_constraints c) (k, x))"
    by blast+
qed

lemma AddConstraint_cases:
  assumes "AddConstraint env ob c = (c', err)"
  obtains (same) "c' = c" "err \<noteq> None \<or> (\<exists>u. GetConstraint ob c = Some u \<and> SemanticEqual u ob)"
  | (added) "err = None" "template_of env ob c" "c' = c\<lparr>oc_constraints := mput (constraint_key ob) ob (oc_constraints c)\<rparr>"
proof -
  let ?r = "AddConstraint env ob c"
  have "fst ?r = c \<and> (snd ?r \<noteq> None \<or> (\<exists>u. GetConstraint ob c = Some u \<and> SemanticEqual u ob)) \<or>
    snd ?r = None \<and> template_of env ob c \<and> fst ?r = c\<lparr>oc_constraints := mput (constraint_key ob) ob (oc_constraints c)\<rparr>"
    by (auto simp: AddConstraint_def split: option.split)
  then show thesis using assms same added by auto
qed

lemma AddConstraint_ok:
  assumes "opa_ok env c" "AddConstraint env ob c = (c', err)"
  shows "opa_ok env c' \<and> oc_templates c' = oc_templates c"
  using assms(2)
proof (cases rule: AddConstraint_cases)
  case added
  obtain t where t: "GetTemplate (oe_ToLower env (fst (constraint_key ob))) c = Some t" "ct_Kind t = fst (constraint_key ob)"
    using added(2) by (auto simp: template_of_def constraint_key_def Let_def split: option.splits)
  have g: "GetTemplate n c' = GetTemplate n c" for n using added(3) by (simp add: GetTemplate_def)
  have "constraints_ok env c'"
  proof (rule constraints_okI)
    show "mwf (oc_constraints c')" using assms(1) added(3) by (simp add: opa_ok_def constraints_ok_def)
    show "k = constraint_key ob' \<and> (\<exists>t. GetTemplate (oe_ToLower env (fst k)) c' = Some t \<and> ct_Kind t = fst k)"
      if "mget (oc_constraints c') k = Some ob'" for k ob'
    proof (cases "k = constraint_key ob")
      case True
      then show ?thesis using that t added(3) unfolding g by auto
    next
      case False
      then have "mget (oc_constraints c) k = Some ob'" using that added(3) by simp
      then show ?thesis using constraints_okD [of env c k ob'] assms(1) unfolding g by (simp add: opa_ok_def)
    qed
  qed
  then show ?thesis using assms(1) added(3) by (simp add: opa_ok_def templates_ok_def)
qed (use assms in simp)

lemma RemoveConstraint_ok:
  assumes "opa_ok env c" "RemoveConstraint env ob c = (c', err)"
  shows "opa_ok env c' \<and> oc_templates c' = oc_templates c"
proof -
  have c: "c' = c \<or> c' = c\<lparr>oc_constraints := mdel (constraint_key ob) (oc_constraints c)\<rparr>"
    using assms(2) by (auto simp: RemoveConstraint_def split: if_splits option.splits)
  moreover have "opa_ok env (c\<lparr>oc_constraints := mdel k (oc_constraints c)\<rparr>)" for k
  proof -
    have "constraints_ok env (c\<lparr>oc_constraints := mdel k (oc_constraints c)\<rparr>)"
    proof (rule constraints_okI)
      show "mwf (oc_constraints (c\<lparr>oc_constraints := mdel k (oc_constraints c)\<rparr>))"
        using assms(1) by (simp add: opa_ok_def constraints_ok_def)
      show "j = constraint_key ob' \<and> (\<exists>t. GetTemplate (oe_ToLower env (fst j))
          (c\<lparr>oc_constraints := mdel k (oc_constraints c)\<rparr>) = Some t \<and> ct_Kind t = fst j)"
        if "mget (oc_constraints (c\<lparr>oc_constraints := mdel k (oc_constraints c)\<rparr>)) j = Some ob'" for j ob'
        using that constraints_okD [of env c j ob'] assms(1)
        by (simp add: opa_ok_def GetTemplate_def split: if_splits)
    qed
    then show ?thesis using assms(1) by (simp add: opa_ok_def templates_ok_def)
  qed
  ultimately show ?thesis using assms(1) by (elim disjE) simp_all
qed

end
