(* ===== verification/Constraint_Controller.thy ===== *)
theory Constraint_Controller
  imports Opa_Client Mutator_Controllers Sync_Controller
begin

text \<open>
  The constraint controller (\<open>pkg/controller/constraint/constraint_controller.go\<close>): it brings each
  constraint into the OPA client or out of it, keeps the cache of constraints for the metrics, tells the
  readiness tracker and reports in the pod's status resource.
\<close>

section \<open>The constraints cache\<close>

record ConstraintTags =
  ct_action :: EnforcementAction
  ct_status :: string

type_synonym ConstraintsCache = "(string, ConstraintTags) gomap"

definition NewConstraintsCache :: ConstraintsCache where
  "NewConstraintsCache = []"

definition addConstraintKey :: "string \<Rightarrow> ConstraintTags \<Rightarrow> ConstraintsCache \<Rightarrow> ConstraintsCache" where
  "addConstraintKey constraintKey t c = mput constraintKey \<lparr>ct_action = ct_action t, ct_status = ct_status t\<rparr> c"

definition deleteConstraintKey :: "string \<Rightarrow> ConstraintsCache \<Rightarrow> ConstraintsCache" where
  "deleteConstraintKey constraintKey c = mdel constraintKey c"

definition reportTotalConstraints :: "ConstraintsCache \<Rightarrow> (ConstraintTags \<times> nat) list" where
  "reportTotalConstraints c =
     concat (map (\<lambda>enforcementAction. map (\<lambda>status.
       let t = \<lparr>ct_action = enforcementAction, ct_status = status\<rparr>
       in (t, length (filter (\<lambda>v. v = t) (map snd c)))) AllStatuses) KnownEnforcementActions)"

section \<open>Unstructured objects\<close>

definition GetGeneration :: "object \<Rightarrow> int" where
  "GetGeneration ob =
     (case NestedFieldNoCopy (VMap ob) [''metadata'', ''generation''] of Inr (Some (VInt w)) \<Rightarrow> sint w | _ \<Rightarrow> 0)"

fun string_list :: "val list \<Rightarrow> string list option" where
  "string_list [] = Some []"
| "string_list (v # vs) =
     (case (v, string_list vs) of (VString s, Some r) \<Rightarrow> Some (s # r) | _ \<Rightarrow> None)"

definition GetFinalizers :: "object \<Rightarrow> string list" where
  "GetFinalizers ob =
     (case NestedFieldNoCopy (VMap ob) [''metadata'', ''finalizers''] of
        Inr (Some (VList vs)) \<Rightarrow> (case string_list vs of Some fs \<Rightarrow> fs | None \<Rightarrow> [])
      | _ \<Rightarrow> [])"

fun RemoveNestedField :: "object \<Rightarrow> string list \<Rightarrow> object" where
  "RemoveNestedField ob [] = ob"
| "RemoveNestedField ob [f] = mdel f ob"
| "RemoveNestedField ob (f # fs) =
     (case mget ob f of Some (VMap m) \<Rightarrow> mput f (VMap (RemoveNestedField m fs)) ob | _ \<Rightarrow> ob)"

text \<open>A nil list removes the field; an error of the nested set is dropped.\<close>

definition SetFinalizers :: "string list \<Rightarrow> object \<Rightarrow> object" where
  "SetFinalizers fs ob =
     (if fs = [] then RemoveNestedField ob [''metadata'', ''finalizers'']
      else (case SetNestedField ob (VList (map VString fs)) [''metadata'', ''finalizers''] of
              Inr ob' \<Rightarrow> ob' | Inl _ \<Rightarrow> ob))"

definition constraint_finalizer :: string where
  "constraint_finalizer = ''finalizers.gatekeeper.sh/constraint''"

definition constraint_containsString :: "string \<Rightarrow> string list \<Rightarrow> bool" where
  "constraint_containsString s items \<longleftrightarrow> list_ex (\<lambda>item. item = s) items"

definition constraint_removeString :: "string \<Rightarrow> string list \<Rightarrow> string list" where
  "constraint_removeString s items = filter (\<lambda>item. item \<noteq> s) items"

definition HasFinalizer :: "object \<Rightarrow> bool" where
  "HasFinalizer instance \<longleftrightarrow> constraint_containsString constraint_finalizer (GetFinalizers instance)"

definition RemoveFinalizer :: "object \<Rightarrow> object" where
  "RemoveFinalizer instance = SetFinalizers (constraint_removeString constraint_finalizer (GetFinalizers instance)) instance"

section \<open>Reconcile\<close>

record ConstraintState =
  cn_opa :: OpaClient
  cn_cache :: ConstraintsCache
  cn_tracker :: Tracker
  cn_status :: StatusStore

text \<open>\<open>cn_Get\<close> answers \<open>IsNotFound\<close> for a missing object and for an unknown kind; \<open>cn_timestamp\<close> says whether
  an object has a deletion timestamp.\<close>

record ConstraintEnv =
  cn_running :: "bool option"
  cn_assumeDeleted :: "GVK \<Rightarrow> bool"
  cn_Get :: "GVK \<Rightarrow> Request \<Rightarrow> GetErr + object"
  cn_timestamp :: "object \<Rightarrow> bool"
  cn_Update :: "object \<Rightarrow> string option"
  cn_client :: StatusClient
  cn_oe :: OpaEnv
  cn_OpaText :: "OpaErr \<Rightarrow> string"
  cn_EnforceText :: "EnforcementErr \<Rightarrow> string"

definition tracker_call :: "GVK \<Rightarrow> event \<Rightarrow> Tracker \<Rightarrow> Tracker" where
  "tracker_call gvk ev t = (let (t', es) = For gvk t in call es ev t')"

definition constraint_status_key :: "StatusClient \<Rightarrow> object \<Rightarrow> PackErr + string" where
  "constraint_status_key c instance = KeyForConstraint (sc_env c) (GetPodName (se_environ (sc_env c))) instance"

definition constraint_getOrCreatePodStatus :: "StatusClient \<Rightarrow> object \<Rightarrow> StatusStore \<Rightarrow> StatusStore \<times> (string + FullStatus)" where
  "constraint_getOrCreatePodStatus c instance st =
     getOrCreatePodStatus c (constraint_status_key c instance)
       (\<lambda>ops pod. NewConstraintStatusForPod (sc_env c) ops pod instance) st"

text \<open>\<open>t := r.tracker.For(gvk)\<close> is fetched before OPA is asked; nothing happens in between.\<close>

definition cacheConstraint :: "ConstraintEnv \<Rightarrow> object \<Rightarrow> ConstraintState \<Rightarrow> ConstraintState \<times> OpaErr option" where
  "cacheConstraint env instance s =
     (let gvk = GroupVersionKind instance; ob = RemoveNestedField instance [''status''] in
      case AddConstraint (cn_oe env) ob (cn_opa s) of
        (opa, Some err) \<Rightarrow>
          (s\<lparr>cn_opa := opa, cn_tracker := tracker_call gvk (EvTryCancel (UnstructuredObject ob (cn_timestamp env ob))) (cn_tracker s)\<rparr>, Some err)
      | (opa, None) \<Rightarrow>
          (s\<lparr>cn_opa := opa, cn_tracker := tracker_call gvk (EvObserve (UnstructuredObject instance (cn_timestamp env instance))) (cn_tracker s)\<rparr>, None))"

text \<open>The update of the constraint.\<close>

definition constraint_update ::
    "ConstraintEnv \<Rightarrow> object \<Rightarrow> string \<Rightarrow> EnforcementAction \<Rightarrow> ConstraintState \<Rightarrow> ConstraintState \<times> Result" where
  "constraint_update env instance constraintKey action s =
     (let c = cn_client env in
      case constraint_getOrCreatePodStatus c instance (cn_status s) of
        (st, Inl err) \<Rightarrow> (s\<lparr>cn_status := st\<rparr>, ReconcileErr err)
      | (st, Inr status) \<Rightarrow>
          (let s = s\<lparr>cn_status := st\<rparr>;
               status = status\<lparr>st_UID := GetUID instance, st_Generation := GetGeneration instance, st_Errors := []\<rparr>;
               (s, err) =
                 (if (case GetConstraint instance (cn_opa s) of None \<Rightarrow> True | Some u \<Rightarrow> \<not> SemanticEqual instance u)
                  then cacheConstraint env instance s else (s, None))
           in case err of
                Some e \<Rightarrow>
                  (let message = cn_OpaText env e;
                       status = status\<lparr>st_Errors := st_Errors status @ [\<lparr>er_Code = [], er_Message = message, er_Location = []\<rparr>]\<rparr>
                   in (s\<lparr>cn_cache := addConstraintKey constraintKey \<lparr>ct_action = action, ct_status = ErrorStatus\<rparr> (cn_cache s),
                         cn_status := fst (status_Update c status (cn_status s))\<rparr>, ReconcileErr message))
              | None \<Rightarrow>
                  (case status_Update c (status\<lparr>st_Enforced := True\<rparr>) (cn_status s) of
                     (st, Some _) \<Rightarrow> (s\<lparr>cn_status := st\<rparr>, RequeueIt)
                   | (st, None) \<Rightarrow>
                       (s\<lparr>cn_status := st,
                          cn_cache := addConstraintKey constraintKey \<lparr>ct_action = action, ct_status = ActiveStatus\<rparr> (cn_cache s)\<rparr>,
                        Reconciled))))"

text \<open>The removal of the constraint; an unrecognized constraint is no error.\<close>

definition constraint_remove :: "ConstraintEnv \<Rightarrow> object \<Rightarrow> string \<Rightarrow> ConstraintState \<Rightarrow> ConstraintState \<times> Result" where
  "constraint_remove env instance constraintKey s =
     (case RemoveConstraint (cn_oe env) instance (cn_opa s) of
        (opa, Some (OpaFailed err)) \<Rightarrow> (s\<lparr>cn_opa := opa\<rparr>, ReconcileErr err)
      | (opa, _) \<Rightarrow>
          (let s = s\<lparr>cn_opa := opa,
                  cn_tracker := tracker_call (GroupVersionKind instance)
                    (EvCancel (UnstructuredObject instance (cn_timestamp env instance))) (cn_tracker s),
                  cn_cache := deleteConstraintKey constraintKey (cn_cache s)\<rparr>
           in case constraint_status_key (cn_client env) instance of
                Inl err \<Rightarrow> (s, ReconcileErr (sc_text (cn_client env) (NameErr err)))
              | Inr sName \<Rightarrow>
                  (case status_Delete (cn_client env) sName (cn_status s) of
                     (st, Some err) \<Rightarrow> (s\<lparr>cn_status := st\<rparr>, ReconcileErr err)
                   | (st, None) \<Rightarrow> (s\<lparr>cn_status := st\<rparr>, Reconciled))))"

text \<open>The object that is reconciled, and whether it counts as deleted.\<close>

definition constraint_instance :: "ConstraintEnv \<Rightarrow> GVK \<Rightarrow> Request \<Rightarrow> string + object \<times> bool" where
  "constraint_instance env gvk r =
     (let blank = newUnstructured gvk (req_Namespace r) (req_Name r) in
      if cn_assumeDeleted env gvk then Inr (blank, True)
      else (case cn_Get env gvk r of
              Inl (GetFailed err) \<Rightarrow> Inl err
            | Inl (IsNotFound _) \<Rightarrow> Inr (blank, True)
            | Inr instance \<Rightarrow> Inr (instance, cn_timestamp env instance)))"

definition constraint_Reconcile :: "ConstraintEnv \<Rightarrow> Request \<Rightarrow> ConstraintState \<Rightarrow> ConstraintState \<times> Result" where
  "constraint_Reconcile env request s =
     (if shutting_down (cn_running env) then (s, Reconciled)
      else (case UnpackRequest request of
        Inl _ \<Rightarrow> (s, Reconciled)
      | Inr (gvk, unpacked) \<Rightarrow>
          if gvk_Group gvk \<noteq> ConstraintsGroup then (s, Reconciled)
          else (case constraint_instance env gvk unpacked of
             Inl err \<Rightarrow> (s, ReconcileErr err)
           | Inr (instance, deleted) \<Rightarrow>
               (let constraintKey = Join [getNestedString instance [''kind''], GetName instance] ''/'' in
                case GetEnforcementAction instance of
                  Inl err \<Rightarrow> (s, ReconcileErr (cn_EnforceText env err))
                | Inr action \<Rightarrow>
                    (let inst = (if HasFinalizer instance then RemoveFinalizer instance else instance) in
                     if HasFinalizer instance \<and> cn_Update env inst \<noteq> None then (s, RequeueIt)
                     else if \<not> deleted then constraint_update env inst constraintKey action s
                     else constraint_remove env inst constraintKey s)))))"

end
