(* ===== verification/Template_Controller.thy ===== *)
theory Template_Controller
  imports Constraint_Controller Watch_Manager Config_Controller
begin

text \<open>
  The constraint template controller (\<open>pkg/controller/constrainttemplate\<close>): it compiles templates into
  the OPA client, creates the CRDs of their constraints, watches the constraints on behalf of the constraint
  controller and of the constraint status controller, and takes all of it back when a template
  goes.
\<close>

section \<open>The registry of the metrics\<close>

text \<open>\<open>stats_reporter.go\<close>; keys are the template's namespaced names.\<close>

record ctRegistry =
  reg_cache :: "(string \<times> string, string) gomap"
  reg_dirty :: bool

definition registry_add :: "string \<times> string \<Rightarrow> string \<Rightarrow> ctRegistry \<Rightarrow> ctRegistry" where
  "registry_add k status r =
     (if mget (reg_cache r) k = Some status then r
      else r\<lparr>reg_cache := mput k status (reg_cache r), reg_dirty := True\<rparr>)"

definition registry_remove :: "string \<times> string \<Rightarrow> ctRegistry \<Rightarrow> ctRegistry" where
  "registry_remove k r =
     (if \<not> mhas (reg_cache r) k then r
      else r\<lparr>reg_cache := mdel k (reg_cache r), reg_dirty := True\<rparr>)"

text \<open>The values reported for each status, if there is something to report; \<open>fails\<close> says for which a
  report fails, and then everything is reported again.\<close>

definition registry_report :: "(string \<Rightarrow> bool) \<Rightarrow> ctRegistry \<Rightarrow> ctRegistry \<times> (string \<times> nat) list" where
  "registry_report fails r =
     (if \<not> reg_dirty r then (r, [])
      else (r\<lparr>reg_dirty := list_ex fails AllStatuses\<rparr>,
            map (\<lambda>status. (status, length (filter (\<lambda>v. v = status) (map snd (reg_cache r))))) AllStatuses))"

section \<open>State and environment\<close>

text \<open>A CRD: what the template asks for, and its controlling owner.\<close>

record CRD =
  crd_Name :: string
  crd_Namespace :: string
  crd_Spec :: string
  crd_Owner :: "string option"

record TemplateState =
  tp_opa :: OpaClient
  tp_wm :: Manager
  tp_tracker :: Tracker
  tp_status :: StatusStore
  tp_cstrStatus :: "(string, FullStatus) gomap"
  tp_crds :: "(string \<times> string, CRD) gomap"
  tp_registry :: ctRegistry

text \<open>\<open>te_watcher\<close> and \<open>te_statusWatcher\<close> are the two registrars; \<open>te_crd\<close> is the CRD that the
  framework makes of a template, \<open>te_convert\<close> and \<open>te_convertCRD\<close> fail or not.\<close>

record TemplateEnv =
  te_running :: "bool option"
  te_Get :: "Request \<Rightarrow> GetErr + Template"
  te_Update :: "Template \<Rightarrow> GetErr option"
  te_client :: StatusClient
  te_oe :: OpaEnv
  te_cache :: cache_env
  te_watcher :: nat
  te_statusWatcher :: nat
  te_convert :: "Template \<Rightarrow> string option"
  te_crd :: "Template \<Rightarrow> CRD"
  te_convertCRD :: "Template \<Rightarrow> string option"
  te_parseErrors :: "Template \<Rightarrow> StatusError list option"
  te_GetCRD :: "string \<times> string \<Rightarrow> string option"
  te_SetOwner :: "Template \<Rightarrow> CRD \<Rightarrow> string option"
  te_CreateCRD :: "CRD \<Rightarrow> string option"
  te_UpdateCRD :: "CRD \<Rightarrow> string option"
  te_ListStatus :: "string option"
  te_DeleteStatus :: "string \<Rightarrow> string option"
  te_reportFails :: "string \<Rightarrow> bool"

definition makeGvk :: "string \<Rightarrow> GVK" where
  "makeGvk kind = GVK ''constraints.gatekeeper.sh'' ''v1beta1'' kind"

definition template_finalizer :: string where
  "template_finalizer = ''constrainttemplate.finalizers.gatekeeper.sh''"

definition template_key :: "StatusClient \<Rightarrow> string \<Rightarrow> PackErr + string" where
  "template_key c name = KeyForConstraintTemplate (GetPodName (se_environ (sc_env c))) name"

definition template_getOrCreatePodStatus :: "StatusClient \<Rightarrow> string \<Rightarrow> StatusStore \<Rightarrow> StatusStore \<times> (string + FullStatus)" where
  "template_getOrCreatePodStatus c ctName st =
     getOrCreatePodStatus c (template_key c ctName)
       (\<lambda>ops pod. NewConstraintTemplateStatusForPod (sc_env c) ops pod ctName) st"

section \<open>Watches\<close>

text \<open>\<open>None\<close> is a panic of the watch manager.\<close>

definition addWatch :: "TemplateEnv \<Rightarrow> GVK \<Rightarrow> TemplateState \<Rightarrow> TemplateState \<times> string option" where
  "addWatch env kind s =
     (case AddWatch (te_cache env) (te_watcher env) kind (tp_wm s) of
        (wm, Some err) \<Rightarrow> (s\<lparr>tp_wm := wm\<rparr>, Some err)
      | (wm, None) \<Rightarrow>
          (case AddWatch (te_cache env) (te_statusWatcher env) kind wm of
             (wm, err) \<Rightarrow> (s\<lparr>tp_wm := wm\<rparr>, err)))"

definition removeWatch :: "TemplateEnv \<Rightarrow> GVK \<Rightarrow> TemplateState \<Rightarrow> (TemplateState \<times> string option) option" where
  "removeWatch env kind s =
     (case RemoveWatch (te_cache env) (te_watcher env) kind (tp_wm s) of
        None \<Rightarrow> None
      | Some (wm, Some err) \<Rightarrow> Some (s\<lparr>tp_wm := wm\<rparr>, Some err)
      | Some (wm, None) \<Rightarrow>
          (case RemoveWatch (te_cache env) (te_statusWatcher env) kind wm of
             None \<Rightarrow> None
           | Some (wm, err) \<Rightarrow> Some (s\<lparr>tp_wm := wm\<rparr>, err)))"

section \<open>Deletion\<close>

text \<open>Cancelling a template waits for the tracker to run; when it does not return, neither does the
  reconciliation (\<open>None\<close>).\<close>

definition handleDelete :: "TemplateEnv \<Rightarrow> Template \<Rightarrow> TemplateState \<Rightarrow> (TemplateState \<times> Result) option" where
  "handleDelete env ct s =
     (case removeWatch env (makeGvk (ct_Kind ct)) s of
        None \<Rightarrow> None
      | Some (s, Some err) \<Rightarrow> Some (s, ReconcileErr err)
      | Some (s, None) \<Rightarrow>
          (let (t, returns) = CancelTemplate (ConstraintTemplate.truncate ct) (tp_tracker s);
               s = s\<lparr>tp_tracker := t\<rparr>
           in if \<not> returns then None
              else (case RemoveTemplate (te_oe env) ct (tp_opa s) of
                 (opa, Some err) \<Rightarrow> Some (s\<lparr>tp_opa := opa\<rparr>, ReconcileErr err)
               | (opa, None) \<Rightarrow> Some (s\<lparr>tp_opa := opa\<rparr>, Reconciled))))"

fun delete_statuses :: "TemplateEnv \<Rightarrow> string list \<Rightarrow> (string, FullStatus) gomap \<Rightarrow> (string, FullStatus) gomap \<times> string option" where
  "delete_statuses env [] m = (m, None)"
| "delete_statuses env (n # ns) m =
     (case te_DeleteStatus env n of
        Some err \<Rightarrow> (m, Some err)
      | None \<Rightarrow> delete_statuses env ns (mdel n m))"

definition deleteAllStatus :: "TemplateEnv \<Rightarrow> string \<Rightarrow> TemplateState \<Rightarrow> TemplateState \<times> string option" where
  "deleteAllStatus env ctName s =
     (case template_key (te_client env) ctName of
        Inl err \<Rightarrow> (s, Some (sc_text (te_client env) (NameErr err)))
      | Inr sName \<Rightarrow>
          (case status_Delete (te_client env) sName (tp_status s) of
             (st, Some err) \<Rightarrow> (s\<lparr>tp_status := st\<rparr>, Some err)
           | (st, None) \<Rightarrow>
               (let s = s\<lparr>tp_status := st\<rparr>; pod = GetPodName (se_environ (sc_env (te_client env))) in
                case te_ListStatus env of
                  Some err \<Rightarrow> (s, Some err)
                | None \<Rightarrow>
                    (let items = filter (\<lambda>(n, st). mget (st_Labels st) PodLabel = Some pod \<and>
                           mget (st_Labels st) ConstraintTemplateNameLabel = Some ctName) (tp_cstrStatus s)
                     in case delete_statuses env (map fst items) (tp_cstrStatus s) of
                          (m, err) \<Rightarrow> (s\<lparr>tp_cstrStatus := m\<rparr>, err)))))"

definition result_of :: "Result \<Rightarrow> string option \<Rightarrow> Result" where
  "result_of res err = (case err of Some e \<Rightarrow> ReconcileErr e | None \<Rightarrow> res)"

definition template_delete :: "TemplateEnv \<Rightarrow> Request \<Rightarrow> TemplateState \<Rightarrow> (TemplateState \<times> Result) option" where
  "template_delete env request s =
     (let k = (req_Namespace request, req_Name request) in
      case (case GetTemplate (req_Name request) (tp_opa s) of
              None \<Rightarrow> Some (s\<lparr>tp_registry := registry_remove k (tp_registry s)\<rparr>, Reconciled)
            | Some ct \<Rightarrow>
                (case handleDelete env ct s of
                   None \<Rightarrow> None
                 | Some (s, ReconcileErr err) \<Rightarrow>
                     Some (s\<lparr>tp_registry := registry_add k ErrorStatus (tp_registry s)\<rparr>, ReconcileErr err)
                 | Some (s, res) \<Rightarrow> Some (s\<lparr>tp_registry := registry_remove k (tp_registry s)\<rparr>, res))) of
        None \<Rightarrow> None
      | Some (s, ReconcileErr err) \<Rightarrow> Some (s, ReconcileErr err)
      | Some (s, res) \<Rightarrow>
          (case deleteAllStatus env (req_Name request) s of (s, err) \<Rightarrow> Some (s, result_of res err)))"

section \<open>Update\<close>

text \<open>\<open>reportErrorOnCTStatus\<close>: the returned error.\<close>

definition reportErrorOnCTStatus ::
    "TemplateEnv \<Rightarrow> string \<Rightarrow> string \<Rightarrow> FullStatus \<Rightarrow> string \<Rightarrow> TemplateState \<Rightarrow> TemplateState \<times> string" where
  "reportErrorOnCTStatus env errcode message status err s =
     (case status_Update (te_client env)
             (status\<lparr>st_Errors := [\<lparr>er_Code = errcode, er_Message = message @ '': '' @ err, er_Location = []\<rparr>]\<rparr>) (tp_status s) of
        (st, Some err2) \<Rightarrow> (s\<lparr>tp_status := st\<rparr>, ''Could not update status: '' @ err2 @ '': '' @ err)
      | (st, None) \<Rightarrow> (s\<lparr>tp_status := st\<rparr>, err))"

definition crd_key :: "CRD \<Rightarrow> string \<times> string" where
  "crd_key c = (crd_Namespace c, crd_Name c)"

text \<open>The CRD that is written: the proposed one, or the current one with the proposed specification.\<close>

definition newCRD :: "Template \<Rightarrow> CRD \<Rightarrow> CRD option \<Rightarrow> CRD" where
  "newCRD ct proposed currentCRD =
     (case currentCRD of None \<Rightarrow> proposed | Some c \<Rightarrow> c\<lparr>crd_Spec := crd_Spec proposed\<rparr>)\<lparr>crd_Owner := Some (tp_UID ct)\<rparr>"

definition writeCRD :: "TemplateEnv \<Rightarrow> CRD \<Rightarrow> CRD option \<Rightarrow> FullStatus \<Rightarrow> TemplateState \<Rightarrow> TemplateState \<times> string option" where
  "writeCRD env crd currentCRD status s =
     (case currentCRD of
        None \<Rightarrow>
          (case te_CreateCRD env crd of
             Some err \<Rightarrow> (case reportErrorOnCTStatus env ''create_error'' ''Could not create CRD'' status err s of (s, e) \<Rightarrow> (s, Some e))
           | None \<Rightarrow> (s\<lparr>tp_crds := mput (crd_key crd) crd (tp_crds s)\<rparr>, None))
      | Some cur \<Rightarrow>
          if crd = cur then (s, None)
          else (case te_UpdateCRD env crd of
             Some err \<Rightarrow> (case reportErrorOnCTStatus env ''update_error'' ''Could not update CRD'' status err s of (s, e) \<Rightarrow> (s, Some e))
           | None \<Rightarrow> (s\<lparr>tp_crds := mput (crd_key crd) crd (tp_crds s)\<rparr>, None)))"

text \<open>The steps of \<open>handleUpdate\<close> after the template is in OPA.\<close>

definition handleUpdate_watch ::
    "TemplateEnv \<Rightarrow> Template \<Rightarrow> CRD \<Rightarrow> CRD option \<Rightarrow> FullStatus \<Rightarrow> TemplateState \<Rightarrow> TemplateState \<times> Result" where
  "handleUpdate_watch env ct proposedCRD currentCRD status s =
     (let crd = newCRD ct proposedCRD currentCRD in
      case te_SetOwner env ct crd of
        Some err \<Rightarrow> (s, ReconcileErr err)
      | None \<Rightarrow>
          (case writeCRD env crd currentCRD status s of
             (s, Some err) \<Rightarrow> (s, ReconcileErr err)
           | (s, None) \<Rightarrow>
               (case addWatch env (makeGvk (ct_Kind ct)) s of
                  (s, Some err) \<Rightarrow> (s, ReconcileErr err)
                | (s, None) \<Rightarrow>
                    (case status_Update (te_client env) status (tp_status s) of
                       (st, Some err) \<Rightarrow> (s\<lparr>tp_status := st\<rparr>, RequeueIt)
                     | (st, None) \<Rightarrow> (s\<lparr>tp_status := st\<rparr>, Reconciled)))))"

definition cancel_tracking :: "Template \<Rightarrow> TemplateState \<Rightarrow> TemplateState option" where
  "cancel_tracking ct s =
     (let (t, returns) = TryCancelTemplate (ConstraintTemplate.truncate ct) (tp_tracker s)
      in if returns then Some (s\<lparr>tp_tracker := t\<rparr>) else None)"

definition handleUpdate ::
    "TemplateEnv \<Rightarrow> Template \<Rightarrow> CRD \<Rightarrow> CRD option \<Rightarrow> FullStatus \<Rightarrow> TemplateState \<Rightarrow> (TemplateState \<times> Result) option" where
  "handleUpdate env ct proposedCRD currentCRD status s =
     (case AddTemplate (te_oe env) ct (tp_opa s) of
        (opa, Some err) \<Rightarrow>
          (case reportErrorOnCTStatus env ''ingest_error'' ''Could not ingest Rego'' status err (s\<lparr>tp_opa := opa\<rparr>) of
             (s, e) \<Rightarrow> map_option (\<lambda>s. (s, ReconcileErr e)) (cancel_tracking ct s))
      | (opa, None) \<Rightarrow>
          (let s = s\<lparr>tp_opa := opa,
                  tp_tracker := tracker_call templateGVK (EvObserve (TemplateObject (ConstraintTemplate.truncate ct))) (tp_tracker s)\<rparr>
           in Some (handleUpdate_watch env ct proposedCRD currentCRD status s)))"

text \<open>A template that does not compile: the errors of the parser, or one.\<close>

definition compile_errors :: "TemplateEnv \<Rightarrow> Template \<Rightarrow> string \<Rightarrow> StatusError list" where
  "compile_errors env ct err =
     (case te_parseErrors env ct of
        Some es \<Rightarrow> es
      | None \<Rightarrow> [\<lparr>er_Code = ''create_error'', er_Message = err, er_Location = []\<rparr>])"

definition template_update :: "TemplateEnv \<Rightarrow> Request \<Rightarrow> Template \<Rightarrow> TemplateState \<Rightarrow> (TemplateState \<times> Result) option" where
  "template_update env request ct s =
     (let c = te_client env; k = (req_Namespace request, req_Name request);
          failed = (\<lambda>s. s\<lparr>tp_registry := registry_add k ErrorStatus (tp_registry s)\<rparr>) in
      case template_getOrCreatePodStatus c (ct_Name ct) (tp_status s) of
        (st, Inl err) \<Rightarrow> Some (s\<lparr>tp_status := st\<rparr>, ReconcileErr err)
      | (st, Inr status) \<Rightarrow>
          (let s = s\<lparr>tp_status := st\<rparr>;
               status = status\<lparr>st_UID := tp_UID ct, st_Generation := tp_Generation ct, st_Errors := []\<rparr> in
           case te_convert env ct of
             Some err \<Rightarrow> Some (failed s, ReconcileErr err)
           | None \<Rightarrow>
               (case template_check (te_oe env) ct of
                  Some err \<Rightarrow>
                    (case cancel_tracking ct s of
                       None \<Rightarrow> None
                     | Some s \<Rightarrow>
                         (case status_Update c (status\<lparr>st_Errors := st_Errors status @ compile_errors env ct err\<rparr>)
                                 (tp_status (failed s)) of
                            (st, Some _) \<Rightarrow> Some ((failed s)\<lparr>tp_status := st\<rparr>, RequeueIt)
                          | (st, None) \<Rightarrow> Some ((failed s)\<lparr>tp_status := st\<rparr>, Reconciled)))
                | None \<Rightarrow>
                    (case te_convertCRD env ct of
                       Some err \<Rightarrow>
                         (case cancel_tracking ct s of
                            None \<Rightarrow> None
                          | Some s \<Rightarrow>
                              (case reportErrorOnCTStatus env ''conversion_error'' ''Could not convert from unversioned resource''
                                      status err (failed s) of
                                 (s, e) \<Rightarrow> Some (s, ReconcileErr e)))
                     | None \<Rightarrow>
                         (let proposedCRD = te_crd env ct; name = crd_key proposedCRD in
                          case te_GetCRD env name of
                            Some err \<Rightarrow> Some (failed s, ReconcileErr err)
                          | None \<Rightarrow>
                              (case handleUpdate env ct proposedCRD (mget (tp_crds s) name) status s of
                                 None \<Rightarrow> None
                               | Some (s, ReconcileErr err) \<Rightarrow> Some (failed s, ReconcileErr err)
                               | Some (s, RequeueIt) \<Rightarrow> Some (s, RequeueIt)
                               | Some (s, Reconciled) \<Rightarrow>
                                   Some (s\<lparr>tp_registry := registry_add k ActiveStatus (tp_registry s)\<rparr>, Reconciled)))))))"

section \<open>Reconcile\<close>

text \<open>The finalizer of older versions is removed; a missing template is no error then.\<close>

definition template_finalize :: "TemplateEnv \<Rightarrow> Template \<Rightarrow> Template \<times> bool" where
  "template_finalize env ct =
     (if containsString template_finalizer (tp_Finalizers ct)
      then (let ct' = ct\<lparr>tp_Finalizers := removeString template_finalizer (tp_Finalizers ct)\<rparr>
            in (ct', case te_Update env ct' of Some (GetFailed _) \<Rightarrow> False | _ \<Rightarrow> True))
      else (ct, True))"

text \<open>The registry reports at the end of every reconciliation that returns.\<close>

definition reported :: "TemplateEnv \<Rightarrow> TemplateState \<times> Result \<Rightarrow> TemplateState \<times> Result" where
  "reported env r = ((fst r)\<lparr>tp_registry := fst (registry_report (te_reportFails env) (tp_registry (fst r)))\<rparr>, snd r)"

definition template_Reconcile :: "TemplateEnv \<Rightarrow> Request \<Rightarrow> TemplateState \<Rightarrow> (TemplateState \<times> Result) option" where
  "template_Reconcile env request s =
     (if shutting_down (te_running env) then Some (s, Reconciled)
      else map_option (reported env) (case te_Get env request of
        Inl (GetFailed err) \<Rightarrow> Some (s, ReconcileErr err)
      | Inl (IsNotFound _) \<Rightarrow> template_delete env request s
      | Inr ct \<Rightarrow>
          (case template_finalize env ct of
             (ct, False) \<Rightarrow> Some (s, RequeueIt)
           | (ct, True) \<Rightarrow>
               if ct_deleting ct then template_delete env request s else template_update env request ct s)))"

end
