(* ===== verification/Constraint_Facts.thy ===== *)
theory Constraint_Facts
  imports Constraint_Controller Controller_Facts
begin

text \<open>Facts on one reconciliation of a constraint.\<close>

section \<open>The object without its status\<close>

lemma getNestedString_mdel: "f \<noteq> g \<Longrightarrow> getNestedString (mdel g ob) (f # fs) = getNestedString ob (f # fs)"
  by (simp add: getNestedString_def NestedString_def)

lemma cleaned_same:
  "constraint_key (RemoveNestedField ob [''status'']) = constraint_key ob"
  "mget (RemoveNestedField ob [''status'']) ''spec'' = mget ob ''spec''"
  by (simp_all add: constraint_key_def GroupVersionKind_def GetName_def getNestedString_mdel split: option.split)

lemma SemanticEqual_spec: "mget a ''spec'' = mget b ''spec'' \<Longrightarrow> SemanticEqual u a = SemanticEqual u b"
  by (simp add: SemanticEqual_def)

section \<open>The tracker\<close>

lemma tr_ready_call [simp]: "tr_ready (call es e t) = tr_ready t"
  by (simp add: call_def)

lemma tr_ready_constraints_Get [simp]: "tr_ready (fst (constraints_Get g t)) = tr_ready t"
  by (simp add: constraints_Get_def Let_def split: prod.split)

lemma tr_ready_For [simp]: "tr_ready (fst (For g t)) = tr_ready t"
  by (auto simp: For_def)

lemma tr_ready_tracker_call [simp]: "tr_ready (tracker_call g e t) = tr_ready t"
  using tr_ready_For [of g t] by (cases "For g t") (simp add: tracker_call_def)

section \<open>The effect on OPA\<close>

text \<open>Constraints other than the one of a key are what they were, and so are the templates.\<close>

definition other_constraints :: "string \<times> string \<Rightarrow> OpaClient \<Rightarrow> OpaClient \<Rightarrow> bool" where
  "other_constraints kn c c' \<longleftrightarrow> oc_templates c' = oc_templates c \<and>
     (\<forall>k. k \<noteq> kn \<longrightarrow> mget (oc_constraints c') k = mget (oc_constraints c) k)"

lemma other_constraints_refl [simp]: "other_constraints k c c"
  by (simp add: other_constraints_def)

text \<open>OPA has the constraint: the object without its status, or one of the same specification.\<close>

definition opa_has :: "object \<Rightarrow> OpaClient \<Rightarrow> bool" where
  "opa_has ob c \<longleftrightarrow> (\<exists>u. GetConstraint ob c = Some u \<and> (SemanticEqual u ob \<or> u = RemoveNestedField ob [''status'']))"

lemma SemanticEqual_sym: "SemanticEqual a b = SemanticEqual b a"
  by (auto simp: SemanticEqual_def split: option.splits val.splits)

lemma AddConstraint_other:
  assumes "opa_ok oe c" "AddConstraint oe (RemoveNestedField ob [''status'']) c = (c', err)"
  shows "opa_ok oe c'" "other_constraints (constraint_key ob) c c'" "err = None \<Longrightarrow> opa_has ob c'" "err \<noteq> None \<Longrightarrow> c' = c"
proof -
  note ok = AddConstraint_ok [OF assms]
  show "opa_ok oe c'" using ok by blast
  have "other_constraints (constraint_key ob) c c' \<and> (err = None \<longrightarrow> opa_has ob c') \<and> (err \<noteq> None \<longrightarrow> c' = c)"
    using assms(2)
  proof (cases rule: AddConstraint_cases)
    case same
    have "opa_has ob c'" if e: "err = None"
    proof -
      obtain u where u: "GetConstraint (RemoveNestedField ob [''status'']) c = Some u" "SemanticEqual u (RemoveNestedField ob [''status''])"
        using same(2) e by blast
      then have "GetConstraint ob c' = Some u" "SemanticEqual u ob"
        using same(1) cleaned_same(1) [of ob] SemanticEqual_spec [OF cleaned_same(2)] by (simp_all add: GetConstraint_def)
      then show ?thesis by (auto simp: opa_has_def)
    qed
    then show ?thesis using same(1) by simp
  next
    case added
    then have "c' = c\<lparr>oc_constraints := mput (constraint_key ob) (RemoveNestedField ob [''status'']) (oc_constraints c)\<rparr>"
      using cleaned_same(1) [of ob] by simp
    then show ?thesis using added(1) by (simp add: other_constraints_def opa_has_def GetConstraint_def)
  qed
  then show "other_constraints (constraint_key ob) c c'" "err = None \<Longrightarrow> opa_has ob c'" "err \<noteq> None \<Longrightarrow> c' = c"
    by blast+
qed

lemma unrecognized_absent:
  assumes "opa_ok oe c" "\<not> template_of oe ob c"
  shows "GetConstraint ob c = None"
proof (rule ccontr)
  assume "GetConstraint ob c \<noteq> None"
  then obtain u where u: "mget (oc_constraints c) (constraint_key ob) = Some u" by (auto simp: GetConstraint_def)
  have "constraints_ok oe c" using assms(1) by (simp add: opa_ok_def)
  from constraints_okD(2) [OF this u] show False
    using assms(2) by (auto simp: template_of_def constraint_key_def Let_def)
qed

lemma RemoveConstraint_other:
  assumes "opa_ok oe c" "RemoveConstraint oe ob c = (c', err)"
  shows "opa_ok oe c'" "other_constraints (constraint_key ob) c c'"
    "(\<forall>e. err \<noteq> Some (OpaFailed e)) \<Longrightarrow> GetConstraint ob c' = None" "err \<noteq> None \<Longrightarrow> c' = c"
proof -
  show "opa_ok oe c'" using RemoveConstraint_ok [OF assms] by blast
  have "other_constraints (constraint_key ob) c c' \<and> ((\<forall>e. err \<noteq> Some (OpaFailed e)) \<longrightarrow> GetConstraint ob c' = None) \<and>
      (err \<noteq> None \<longrightarrow> c' = c)"
  proof (cases "template_of oe ob c")
    case False
    then show ?thesis using assms(2) unrecognized_absent [OF assms(1) False] by (auto simp: RemoveConstraint_def)
  next
    case True
    then show ?thesis using assms(2)
      by (cases "oe_Delete oe ob") (auto simp: RemoveConstraint_def other_constraints_def GetConstraint_def)
  qed
  then show "other_constraints (constraint_key ob) c c'"
    "(\<forall>e. err \<noteq> Some (OpaFailed e)) \<Longrightarrow> GetConstraint ob c' = None" "err \<noteq> None \<Longrightarrow> c' = c"
    by blast+
qed

section \<open>Updates and removals\<close>

text \<open>What every step of the controller keeps.\<close>

definition constraint_kept :: "OpaEnv \<Rightarrow> string \<times> string \<Rightarrow> ConstraintState \<Rightarrow> ConstraintState \<Rightarrow> bool" where
  "constraint_kept oe kn s s' \<longleftrightarrow> opa_ok oe (cn_opa s') \<and> other_constraints kn (cn_opa s) (cn_opa s') \<and>
     tr_ready (cn_tracker s') = tr_ready (cn_tracker s)"

lemma constraint_kept_refl: "opa_ok oe (cn_opa s) \<Longrightarrow> constraint_kept oe kn s s"
  by (simp add: constraint_kept_def)

text \<open>The constraint is in force, and the pod says so.\<close>

definition constraint_active :: "object \<Rightarrow> string \<Rightarrow> EnforcementAction \<Rightarrow> ConstraintState \<Rightarrow> bool" where
  "constraint_active ob kn action s \<longleftrightarrow> opa_has ob (cn_opa s) \<and>
     enforced_status (cn_status s) (GetUID ob) (GetGeneration ob) \<and>
     mget (cn_cache s) kn = Some \<lparr>ct_action = action, ct_status = ActiveStatus\<rparr>"

definition constraint_gone :: "ConstraintEnv \<Rightarrow> object \<Rightarrow> string \<Rightarrow> ConstraintState \<Rightarrow> bool" where
  "constraint_gone env ob kn s \<longleftrightarrow> GetConstraint ob (cn_opa s) = None \<and> mget (cn_cache s) kn = None \<and>
     (\<forall>n. constraint_status_key (cn_client env) ob = Inr n \<longrightarrow> mget (ss_store (cn_status s)) n = None)"

text \<open>OPA is asked only when it does not have the constraint yet.\<close>

definition maybe_cache :: "ConstraintEnv \<Rightarrow> object \<Rightarrow> ConstraintState \<Rightarrow> ConstraintState \<times> OpaErr option" where
  "maybe_cache env ob s =
     (if (case GetConstraint ob (cn_opa s) of None \<Rightarrow> True | Some u \<Rightarrow> \<not> SemanticEqual ob u)
      then cacheConstraint env ob s else (s, None))"

lemma maybe_cache_ok:
  assumes "opa_ok (cn_oe env) (cn_opa s)" "maybe_cache env ob s = (s', err)"
  shows "constraint_kept (cn_oe env) (constraint_key ob) s s' \<and> cn_status s' = cn_status s \<and> cn_cache s' = cn_cache s \<and>
    (err = None \<longrightarrow> opa_has ob (cn_opa s')) \<and> (err \<noteq> None \<longrightarrow> cn_opa s' = cn_opa s)"
proof (cases "case GetConstraint ob (cn_opa s) of None \<Rightarrow> True | Some u \<Rightarrow> \<not> SemanticEqual ob u")
  case False
  then obtain u where "GetConstraint ob (cn_opa s) = Some u" "SemanticEqual u ob"
    by (auto simp: SemanticEqual_sym split: option.splits)
  then show ?thesis using False assms by (auto simp: maybe_cache_def constraint_kept_refl opa_has_def)
next
  case True
  obtain opa e where A: "AddConstraint (cn_oe env) (RemoveNestedField ob [''status'']) (cn_opa s) = (opa, e)"
    by (cases "AddConstraint (cn_oe env) (RemoveNestedField ob [''status'']) (cn_opa s)")
  note a = AddConstraint_other [OF assms(1) A]
  show ?thesis
  proof (cases e)
    case None
    then show ?thesis using assms(2) True A a
      by (auto simp: maybe_cache_def cacheConstraint_def Let_def constraint_kept_def simp del: RemoveNestedField.simps)
  next
    case (Some x)
    then show ?thesis using assms(2) True A a
      by (auto simp: maybe_cache_def cacheConstraint_def Let_def constraint_kept_def simp del: RemoveNestedField.simps)
  qed
qed

lemma constraint_update_ok:
  assumes "opa_ok (cn_oe env) (cn_opa s)" "constraint_update env ob ck action s = (s', res)"
  shows "constraint_kept (cn_oe env) (constraint_key ob) s s' \<and>
    (res = Reconciled \<longrightarrow> constraint_active ob ck action s') \<and>
    (\<forall>err. res = ReconcileErr err \<longrightarrow> cn_opa s' = cn_opa s)"
proof -
  let ?c = "cn_client env"
  obtain st r where G: "constraint_getOrCreatePodStatus ?c ob (cn_status s) = (st, r)"
    by (metis surj_pair)
  note d = assms(2) [unfolded constraint_update_def Let_def G]
  show ?thesis
  proof (cases r)
    case (Inl err)
    then show ?thesis using d assms(1) by (auto simp: constraint_kept_def)
  next
    case (Inr status0)
    let ?s = "s\<lparr>cn_status := st\<rparr>"
    let ?status = "status0\<lparr>st_UID := GetUID ob, st_Generation := GetGeneration ob, st_Errors := []\<rparr>"
    obtain t err where M: "maybe_cache env ob ?s = (t, err)" by (cases "maybe_cache env ob ?s")
    have o: "opa_ok (cn_oe env) (cn_opa ?s)" using assms(1) by simp
    note m = maybe_cache_ok [OF o M]
    have k: "constraint_kept (cn_oe env) (constraint_key ob) s (t\<lparr>cn_status := x, cn_cache := y\<rparr>)"
      "constraint_kept (cn_oe env) (constraint_key ob) s (t\<lparr>cn_cache := y, cn_status := x\<rparr>)"
      "constraint_kept (cn_oe env) (constraint_key ob) s (t\<lparr>cn_status := x\<rparr>)" for x y
      using m by (simp_all add: constraint_kept_def)
    note e = d [unfolded Inr sum.case prod.case, folded maybe_cache_def, unfolded M prod.case]
    show ?thesis
    proof (cases err)
      case (Some x)
      then show ?thesis using e m k by (auto simp: Let_def)
    next
      case None
      obtain st2 e2 where S: "status_Update ?c (?status\<lparr>st_Enforced := True\<rparr>) (cn_status t) = (st2, e2)"
        by (cases "status_Update ?c (?status\<lparr>st_Enforced := True\<rparr>) (cn_status t)")
      show ?thesis
      proof (cases e2)
        case (Some x)
        then show ?thesis using e None S k m by auto
      next
        case e2: None
        have s': "s' = t\<lparr>cn_status := st2, cn_cache := addConstraintKey ck \<lparr>ct_action = action, ct_status = ActiveStatus\<rparr> (cn_cache t)\<rparr>"
          "res = Reconciled" using e None S e2 by auto
        have "enforced_status st2 (GetUID ob) (GetGeneration ob)"
          unfolding enforced_status_def
          by (intro exI [of _ "st_Name ?status"] exI [of _ "?status\<lparr>st_Enforced := True\<rparr>"])
            (use status_Update_ok [OF S [unfolded e2]] in simp)
        then show ?thesis using s' m None k(1) by (simp add: constraint_active_def addConstraintKey_def)
      qed
    qed
  qed
qed

lemma constraint_remove_ok:
  assumes "opa_ok (cn_oe env) (cn_opa s)" "constraint_remove env ob ck s = (s', res)"
  shows "constraint_kept (cn_oe env) (constraint_key ob) s s' \<and> (res = Reconciled \<longrightarrow> constraint_gone env ob ck s')"
proof -
  obtain opa err where R: "RemoveConstraint (cn_oe env) ob (cn_opa s) = (opa, err)"
    by (cases "RemoveConstraint (cn_oe env) ob (cn_opa s)")
  note r = RemoveConstraint_other [OF assms(1) R]
  show ?thesis
  proof (cases "\<exists>e. err = Some (OpaFailed e)")
    case True
    then show ?thesis using assms(2) R r(1,2) by (auto simp: constraint_remove_def constraint_kept_def)
  next
    case False
    then have g: "GetConstraint ob opa = None" using r(3) by blast
    let ?s = "s\<lparr>cn_opa := opa, cn_tracker := tracker_call (GroupVersionKind ob)
        (EvCancel (UnstructuredObject ob (cn_timestamp env ob))) (cn_tracker s), cn_cache := deleteConstraintKey ck (cn_cache s)\<rparr>"
    have e: "constraint_remove env ob ck s =
      (case constraint_status_key (cn_client env) ob of
                Inl err \<Rightarrow> (?s, ReconcileErr (sc_text (cn_client env) (NameErr err)))
              | Inr sName \<Rightarrow>
                  (case status_Delete (cn_client env) sName (cn_status ?s) of
                     (st, Some err) \<Rightarrow> (?s\<lparr>cn_status := st\<rparr>, ReconcileErr err)
                   | (st, None) \<Rightarrow> (?s\<lparr>cn_status := st\<rparr>, Reconciled)))"
      using R False by (cases err) (auto simp: constraint_remove_def Let_def split: OpaErr.splits)
    show ?thesis using assms(2) [unfolded e] r(1,2) g
      by (auto simp: constraint_kept_def constraint_gone_def deleteConstraintKey_def status_Delete_def
          split: sum.splits option.splits)
  qed
qed

section \<open>Reconcile\<close>

text \<open>What a reconciliation that succeeded leaves of the constraint a request names.\<close>

definition without_finalizer :: "object \<Rightarrow> object" where
  "without_finalizer ob = (if HasFinalizer ob then RemoveFinalizer ob else ob)"

definition cache_key :: "object \<Rightarrow> string" where
  "cache_key ob = Join [getNestedString ob [''kind''], GetName ob] ''/''"

lemma constraint_Reconcile_instance:
  assumes "\<not> shutting_down (cn_running env)" "UnpackRequest request = Inr (gvk, r)" "gvk_Group gvk = ConstraintsGroup"
    "constraint_instance env gvk r = Inr (ob, deleted)"
  shows "constraint_Reconcile env request s =
     (case GetEnforcementAction ob of
        Inl err \<Rightarrow> (s, ReconcileErr (cn_EnforceText env err))
      | Inr action \<Rightarrow>
          if HasFinalizer ob \<and> cn_Update env (without_finalizer ob) \<noteq> None then (s, RequeueIt)
          else if \<not> deleted then constraint_update env (without_finalizer ob) (cache_key ob) action s
          else constraint_remove env (without_finalizer ob) (cache_key ob) s)"
  using assms by (simp add: constraint_Reconcile_def without_finalizer_def cache_key_def Let_def cong: if_cong sum.case_cong)

text \<open>Whatever it answers, a step keeps the client's invariant.\<close>

lemma constraint_Reconcile_kept:
  assumes "opa_ok (cn_oe env) (cn_opa s)" "constraint_Reconcile env request s = (s', res)"
  shows "\<exists>kn. constraint_kept (cn_oe env) kn s s'"
proof (cases "\<exists>gvk r ob deleted. \<not> shutting_down (cn_running env) \<and> UnpackRequest request = Inr (gvk, r) \<and>
    gvk_Group gvk = ConstraintsGroup \<and> constraint_instance env gvk r = Inr (ob, deleted)")
  case True
  then obtain gvk r ob deleted where t: "\<not> shutting_down (cn_running env)" "UnpackRequest request = Inr (gvk, r)"
    "gvk_Group gvk = ConstraintsGroup" "constraint_instance env gvk r = Inr (ob, deleted)" by blast
  note d = assms(2) [unfolded constraint_Reconcile_instance [OF t]]
  let ?ob = "without_finalizer ob"
  have u: "constraint_kept (cn_oe env) (constraint_key ?ob) s s'"
    if "constraint_update env ?ob (cache_key ob) action s = (s', res)" for action
    using constraint_update_ok [OF assms(1) that] by blast
  have v: "constraint_kept (cn_oe env) (constraint_key ?ob) s s'"
    if "constraint_remove env ?ob (cache_key ob) s = (s', res)"
    using constraint_remove_ok [OF assms(1) that] by blast
  have "s' = s \<or> constraint_kept (cn_oe env) (constraint_key ?ob) s s'"
    using d u v by (cases "GetEnforcementAction ob") (auto split: if_splits)
  then show ?thesis using constraint_kept_refl [OF assms(1)] by blast
next
  case False
  have "s' = s"
  proof (cases "shutting_down (cn_running env)")
    case True
    then show ?thesis using assms(2) by (simp add: constraint_Reconcile_def)
  next
    case run: False
    then show ?thesis using False assms(2)
      by (cases "UnpackRequest request")
        (auto simp: constraint_Reconcile_def split: if_splits sum.splits prod.splits)
  qed
  then show ?thesis using constraint_kept_refl [OF assms(1)] by blast
qed

end
