(* ===== verification/Template_Facts.thy ===== *)
theory Template_Facts
  imports Template_Controller Constraint_Facts Watch_Replay
begin

text \<open>
  Facts on the template and the constraint controller: what adding and removing a watch does to what
  a registrar wants and watches, and the invariant that ties the watches and the constraints to the
  templates in OPA.
\<close>

section \<open>Watches\<close>

lemma AddWatch_effect:
  assumes "wm_reachable env wm" "r < length (wm_regs wm)" "AddWatch env r g wm = (wm', err)"
  shows "wm_reachable env wm'" "wm_regs wm' = wm_regs wm"
    "watching r' g' wm' \<longleftrightarrow> watching r' g' wm \<or> err = None \<and> r' = r \<and> g' = g"
    "Registrar_Watching r' g' wm' \<longleftrightarrow> Registrar_Watching r' g' wm \<or> name_of r' wm = name_of r wm \<and> g' = g"
proof -
  let ?wm = "set_roster (name_of r wm) (mput g (watch_of r g) (roster (name_of r wm) (managedKinds wm))) wm"
  have d: "doAddWatch env (Some r) g ?wm = (wm', err)" using assms(3) by (simp add: AddWatch_set_roster)
  note w = doAddWatch_watching [OF d]
  show "wm_reachable env wm'" using wm_reachable.add [OF assms(1,2), of g] assms(3) by simp
  show regs: "wm_regs wm' = wm_regs wm" using w(3) by (simp add: set_roster_def)
  show "watching r' g' wm' \<longleftrightarrow> watching r' g' wm \<or> err = None \<and> r' = r \<and> g' = g"
    using w(1) [of r' g'] by (simp add: watching_def set_roster_def)
  show "Registrar_Watching r' g' wm' \<longleftrightarrow> Registrar_Watching r' g' wm \<or> name_of r' wm = name_of r wm \<and> g' = g"
    using w(2) regs by (auto simp: Registrar_Watching_def rk_Watching_def name_of_def set_roster_def roster_def)
qed

lemma RemoveWatch_effect:
  assumes "wm_reachable env wm" "r < length (wm_regs wm)"
  obtains wm' err where "RemoveWatch env r g wm = Some (wm', err)" "wm_reachable env wm'" "wm_regs wm' = wm_regs wm"
    "\<forall>r' g'. watching r' g' wm' \<longleftrightarrow> watching r' g' wm \<and> \<not> (r' = r \<and> g' = g)"
    "\<forall>r' g'. Registrar_Watching r' g' wm' \<longleftrightarrow> Registrar_Watching r' g' wm \<and> \<not> (name_of r' wm = name_of r wm \<and> g' = g)"
proof -
  have "wm_inv wm" using wm_reachable_inv [OF assms(1)] by blast
  then obtain wm' err where R: "RemoveWatch env r g wm = Some (wm', err)"
    by (rule RemoveWatch_inv [OF _ assms(2), of env g]) blast
  let ?wm = "if mget (intent (managedKinds wm)) (name_of r wm) = None then wm
     else set_roster (name_of r wm) (mdel g (roster (name_of r wm) (managedKinds wm))) wm"
  have d: "doRemoveWatch env r g ?wm = Some (wm', err)" using R by (simp only: RemoveWatch_set_roster)
  note w = doRemoveWatch_watching [OF d]
  have regs: "wm_regs wm' = wm_regs wm" using w(3) by (simp add: set_roster_def split: if_splits)
  have "watching r' g' wm' \<longleftrightarrow> watching r' g' wm \<and> \<not> (r' = r \<and> g' = g)" for r' g'
    using w(1) [of r' g'] by (simp add: watching_def set_roster_def split: if_splits)
  moreover have "Registrar_Watching r' g' wm' \<longleftrightarrow> Registrar_Watching r' g' wm \<and> \<not> (name_of r' wm = name_of r wm \<and> g' = g)" for r' g'
    using w(2) regs by (auto simp: Registrar_Watching_def rk_Watching_def name_of_def set_roster_def roster_def)
  ultimately show thesis using that [OF R wm_reachable.remove [OF assms R] regs] by blast
qed

text \<open>A registrar wants or watches a kind.\<close>

definition follows_kind :: "nat \<Rightarrow> GVK \<Rightarrow> Manager \<Rightarrow> bool" where
  "follows_kind r g wm \<longleftrightarrow> watching r g wm \<or> Registrar_Watching r g wm"

section \<open>The invariant\<close>

definition watch_backed :: "OpaEnv \<Rightarrow> OpaClient \<Rightarrow> GVK \<Rightarrow> bool" where
  "watch_backed oe c g \<longleftrightarrow> (\<exists>t. GetTemplate (oe_ToLower oe (gvk_Kind g)) c = Some t \<and> g = makeGvk (ct_Kind t))"

definition watches_ok :: "OpaEnv \<Rightarrow> nat \<Rightarrow> nat \<Rightarrow> OpaClient \<Rightarrow> Manager \<Rightarrow> bool" where
  "watches_ok oe w sw c wm \<longleftrightarrow> (\<forall>r g. r \<in> {w, sw} \<longrightarrow> follows_kind r g wm \<longrightarrow> watch_backed oe c g)"

definition manager_ok :: "cache_env \<Rightarrow> nat \<Rightarrow> nat \<Rightarrow> Manager \<Rightarrow> bool" where
  "manager_ok cache w sw wm \<longleftrightarrow> wm_reachable cache wm \<and> w < length (wm_regs wm) \<and> sw < length (wm_regs wm) \<and>
     name_of w wm \<noteq> name_of sw wm"

definition template_inv :: "OpaEnv \<Rightarrow> cache_env \<Rightarrow> nat \<Rightarrow> nat \<Rightarrow> TemplateState \<Rightarrow> bool" where
  "template_inv oe cache w sw s \<longleftrightarrow>
     opa_ok oe (tp_opa s) \<and> manager_ok cache w sw (tp_wm s) \<and> watches_ok oe w sw (tp_opa s) (tp_wm s) \<and>
     tr_ready (tp_tracker s)"

lemma watches_ok_AddTemplate:
  assumes "watches_ok oe w sw c wm" "\<And>n u. GetTemplate n c = Some u \<Longrightarrow> \<exists>u'. GetTemplate n c' = Some u' \<and> ct_Kind u' = ct_Kind u"
  shows "watches_ok oe w sw c' wm"
  using assms unfolding watches_ok_def watch_backed_def by metis

lemma addWatch_ok:
  assumes "manager_ok cache w sw (tp_wm s)" "watches_ok oe w sw c (tp_wm s)" "watch_backed oe c g"
    "te_cache env = cache" "te_watcher env = w" "te_statusWatcher env = sw" "addWatch env g s = (s', err)"
  shows "\<exists>wm. s' = s\<lparr>tp_wm := wm\<rparr> \<and> manager_ok cache w sw wm \<and> watches_ok oe w sw c wm \<and>
    (err = None \<longrightarrow> watching w g wm \<and> watching sw g wm)"
proof -
  note m = assms(1) [unfolded manager_ok_def]
  obtain wm1 e1 where A: "AddWatch cache w g (tp_wm s) = (wm1, e1)" by (cases "AddWatch cache w g (tp_wm s)")
  have m0: "wm_reachable cache (tp_wm s)" "w < length (wm_regs (tp_wm s))" using m by auto
  note a = AddWatch_effect [OF m0 A]
  have o1: "watches_ok oe w sw c wm1"
    using assms(2,3) a(3,4) unfolding watches_ok_def follows_kind_def by metis
  have m1: "manager_ok cache w sw wm1" using m a(1,2) by (simp add: manager_ok_def name_of_def)
  show ?thesis
  proof (cases e1)
    case (Some e)
    then have "s' = s\<lparr>tp_wm := wm1\<rparr>" "err = Some e" using assms(4-7) A by (auto simp: addWatch_def)
    then show ?thesis using m1 o1 by blast
  next
    case None
    obtain wm2 e2 where B: "AddWatch cache sw g wm1 = (wm2, e2)" by (cases "AddWatch cache sw g wm1")
    have m1': "wm_reachable cache wm1" "sw < length (wm_regs wm1)" using m1 by (auto simp: manager_ok_def)
    note b = AddWatch_effect [OF m1' B]
    have o2: "watches_ok oe w sw c wm2"
      using o1 assms(3) b(3,4) unfolding watches_ok_def follows_kind_def by metis
    have m2: "manager_ok cache w sw wm2" using m1 b(1,2) by (simp add: manager_ok_def name_of_def)
    have "s' = s\<lparr>tp_wm := wm2\<rparr>" "err = e2" using assms(4-7) A B None by (auto simp: addWatch_def)
    then show ?thesis using m2 o2 a(3) [of w g] b(3) None by auto
  qed
qed

lemma removeWatch_ok:
  assumes "manager_ok cache w sw (tp_wm s)" "watches_ok oe w sw c (tp_wm s)"
    "te_cache env = cache" "te_watcher env = w" "te_statusWatcher env = sw"
  obtains wm err where "removeWatch env g s = Some (s\<lparr>tp_wm := wm\<rparr>, err)" "manager_ok cache w sw wm" "watches_ok oe w sw c wm"
    "err = None \<longrightarrow> (\<forall>r \<in> {w, sw}. \<not> follows_kind r g wm)"
proof -
  note m = assms(1) [unfolded manager_ok_def]
  have m0: "wm_reachable cache (tp_wm s)" "w < length (wm_regs (tp_wm s))" using m by auto
  obtain wm1 e1 where a: "RemoveWatch cache w g (tp_wm s) = Some (wm1, e1)" "wm_reachable cache wm1" "wm_regs wm1 = wm_regs (tp_wm s)"
    "\<forall>r' g'. watching r' g' wm1 \<longleftrightarrow> watching r' g' (tp_wm s) \<and> \<not> (r' = w \<and> g' = g)"
    "\<forall>r' g'. Registrar_Watching r' g' wm1 \<longleftrightarrow> Registrar_Watching r' g' (tp_wm s) \<and> \<not> (name_of r' (tp_wm s) = name_of w (tp_wm s) \<and> g' = g)"
    by (rule RemoveWatch_effect [OF m0, of g])
  have m1: "manager_ok cache w sw wm1" using m a(2,3) by (simp add: manager_ok_def name_of_def)
  have o1: "watches_ok oe w sw c wm1"
    using assms(2) a(4,5) unfolding watches_ok_def follows_kind_def by metis
  show thesis
  proof (cases e1)
    case (Some e)
    then show thesis using that [of wm1 "Some e"] a(1) m1 o1 assms(3-5) by (simp add: removeWatch_def)
  next
    case None
    have m1': "wm_reachable cache wm1" "sw < length (wm_regs wm1)" using m1 by (auto simp: manager_ok_def)
    obtain wm2 e2 where b: "RemoveWatch cache sw g wm1 = Some (wm2, e2)" "wm_reachable cache wm2" "wm_regs wm2 = wm_regs wm1"
      "\<forall>r' g'. watching r' g' wm2 \<longleftrightarrow> watching r' g' wm1 \<and> \<not> (r' = sw \<and> g' = g)"
      "\<forall>r' g'. Registrar_Watching r' g' wm2 \<longleftrightarrow> Registrar_Watching r' g' wm1 \<and> \<not> (name_of r' wm1 = name_of sw wm1 \<and> g' = g)"
      by (rule RemoveWatch_effect [OF m1', of g])
    have m2: "manager_ok cache w sw wm2" using m1 b(2,3) by (simp add: manager_ok_def name_of_def)
    have o2: "watches_ok oe w sw c wm2"
      using o1 b(4,5) unfolding watches_ok_def follows_kind_def by metis
    show thesis
      by (rule that [of wm2 e2]) (use None a b m2 o2 assms(3-5) in \<open>auto simp: removeWatch_def follows_kind_def\<close>)
  qed
qed

section \<open>The tracker\<close>

lemma CancelTemplate_ready:
  "tr_ready t \<Longrightarrow> snd (CancelTemplate ct t) \<and> tr_ready (fst (CancelTemplate ct t))"
  by (simp add: CancelTemplate_def templateCleanup_def Let_def)

lemma TryCancelTemplate_ready:
  "tr_ready t \<Longrightarrow> snd (TryCancelTemplate ct t) \<and> tr_ready (fst (TryCancelTemplate ct t))"
  by (simp add: TryCancelTemplate_def templateCleanup_def Let_def split: prod.split)

lemma cancel_tracking_ready:
  assumes "tr_ready (tp_tracker s)"
  obtains t where "cancel_tracking ct s = Some (s\<lparr>tp_tracker := t\<rparr>)" "tr_ready t"
  using TryCancelTemplate_ready [OF assms, of "ConstraintTemplate.truncate ct"] that
  by (cases "TryCancelTemplate (ConstraintTemplate.truncate ct) (tp_tracker s)") (auto simp: cancel_tracking_def)

section \<open>The steps keep the invariant\<close>

text \<open>The environment of one step uses the client, the caches and the registrars of the others.\<close>

definition tenv_ok :: "OpaEnv \<Rightarrow> cache_env \<Rightarrow> nat \<Rightarrow> nat \<Rightarrow> TemplateEnv \<Rightarrow> bool" where
  "tenv_ok oe cache w sw env \<longleftrightarrow>
     te_oe env = oe \<and> te_cache env = cache \<and> te_watcher env = w \<and> te_statusWatcher env = sw"

text \<open>Every other template is what it was.\<close>

definition same_templates_but :: "string \<Rightarrow> TemplateState \<Rightarrow> TemplateState \<Rightarrow> bool" where
  "same_templates_but n s s' \<longleftrightarrow> (\<forall>m. m \<noteq> n \<longrightarrow> GetTemplate m (tp_opa s') = GetTemplate m (tp_opa s))"

lemma template_inv_wm:
  "template_inv oe cache w sw s \<Longrightarrow> manager_ok cache w sw wm \<Longrightarrow> watches_ok oe w sw (tp_opa s) wm \<Longrightarrow>
   template_inv oe cache w sw (s\<lparr>tp_wm := wm\<rparr>)"
  by (simp add: template_inv_def)

lemma watches_ok_RemoveTemplate:
  assumes "opa_ok oe c" "GetTemplate (ct_Name ct) c = Some ct" "watches_ok oe w sw c wm"
    "\<forall>r \<in> {w, sw}. \<not> follows_kind r (makeGvk (ct_Kind ct)) wm"
    "\<And>n. n \<noteq> ct_Name ct \<Longrightarrow> GetTemplate n c' = GetTemplate n c"
  shows "watches_ok oe w sw c' wm"
  unfolding watches_ok_def
proof (intro allI impI)
  fix r g assume r: "r \<in> {w, sw}" "follows_kind r g wm"
  then obtain t where t: "GetTemplate (oe_ToLower oe (gvk_Kind g)) c = Some t" "g = makeGvk (ct_Kind t)"
    using assms(3) unfolding watches_ok_def watch_backed_def by metis
  have "oe_ToLower oe (gvk_Kind g) \<noteq> ct_Name ct" using t r assms(2,4) by (metis option.inject)
  then show "watch_backed oe c' g" using t assms(5) by (auto simp: watch_backed_def)
qed

lemma handleDelete_ok:
  assumes "template_inv oe cache w sw s" "tenv_ok oe cache w sw env" "GetTemplate (ct_Name ct) (tp_opa s) = Some ct"
  obtains s' res where "handleDelete env ct s = Some (s', res)" "template_inv oe cache w sw s'"
    "same_templates_but (ct_Name ct) s s'" "res = Reconciled \<or> (\<exists>err. res = ReconcileErr err)"
    "res = Reconciled \<longrightarrow> GetTemplate (ct_Name ct) (tp_opa s') = None"
    "tp_status s' = tp_status s \<and> tp_cstrStatus s' = tp_cstrStatus s \<and> tp_registry s' = tp_registry s"
proof -
  have inv: "opa_ok oe (tp_opa s)" "manager_ok cache w sw (tp_wm s)" "watches_ok oe w sw (tp_opa s) (tp_wm s)"
    "tr_ready (tp_tracker s)" using assms(1) by (auto simp: template_inv_def)
  have env: "te_oe env = oe" "te_cache env = cache" "te_watcher env = w" "te_statusWatcher env = sw"
    using assms(2) by (auto simp: tenv_ok_def)
  obtain wm err where r: "removeWatch env (makeGvk (ct_Kind ct)) s = Some (s\<lparr>tp_wm := wm\<rparr>, err)"
    "manager_ok cache w sw wm" "watches_ok oe w sw (tp_opa s) wm"
    "err = None \<longrightarrow> (\<forall>r \<in> {w, sw}. \<not> follows_kind r (makeGvk (ct_Kind ct)) wm)"
    by (rule removeWatch_ok [OF inv(2,3) env(2-4)])
  show thesis
  proof (cases err)
    case (Some e)
    show thesis
      by (rule that [of "s\<lparr>tp_wm := wm\<rparr>" "ReconcileErr e"])
        (use Some r template_inv_wm [OF assms(1) r(2,3)] in \<open>auto simp: handleDelete_def same_templates_but_def\<close>)
  next
    case None
    obtain t where t: "CancelTemplate (ConstraintTemplate.truncate ct) (tp_tracker s) = (t, True)" "tr_ready t"
      using CancelTemplate_ready [OF inv(4), of "ConstraintTemplate.truncate ct"]
      by (cases "CancelTemplate (ConstraintTemplate.truncate ct) (tp_tracker s)") auto
    obtain opa e where o: "RemoveTemplate oe ct (tp_opa s) = (opa, e)" by (cases "RemoveTemplate oe ct (tp_opa s)")
    note c = RemoveTemplate_ok [OF inv(1) o]
    have h: "handleDelete env ct s = Some (s\<lparr>tp_wm := wm, tp_tracker := t, tp_opa := opa\<rparr>,
        case e of Some err \<Rightarrow> ReconcileErr err | None \<Rightarrow> Reconciled)"
      using r(1) None t(1) o env(1) by (simp add: handleDelete_def split: option.split)
    have "watches_ok oe w sw opa wm"
      by (rule watches_ok_RemoveTemplate [OF inv(1) assms(3) r(3) _ c(3)]) (use r(4) None in auto)
    then have i: "template_inv oe cache w sw (s\<lparr>tp_wm := wm, tp_tracker := t, tp_opa := opa\<rparr>)"
      using c(1) r(2) t(2) by (simp add: template_inv_def)
    show thesis
      by (rule that [OF h i]) (use c(2,3) in \<open>auto simp: same_templates_but_def split: option.splits\<close>)
  qed
qed

lemma delete_statuses_ok:
  "delete_statuses env ns m = (m', None) \<Longrightarrow> mget m' n = (if n \<in> set ns then None else mget m n)"
  by (induction ns arbitrary: m) (auto split: option.splits)

text \<open>The own pod's statuses of a template that \<open>deleteAllStatus\<close> leaves: none.\<close>

definition no_statuses :: "TemplateEnv \<Rightarrow> string \<Rightarrow> TemplateState \<Rightarrow> bool" where
  "no_statuses env name s \<longleftrightarrow>
     (\<forall>sName. template_key (te_client env) name = Inr sName \<longrightarrow> mget (ss_store (tp_status s)) sName = None) \<and>
     (\<forall>n st. mget (tp_cstrStatus s) n = Some st \<longrightarrow>
        \<not> (mget (st_Labels st) PodLabel = Some (GetPodName (se_environ (sc_env (te_client env)))) \<and>
           mget (st_Labels st) ConstraintTemplateNameLabel = Some name))"

lemma mget_mem: "mget m n = Some v \<Longrightarrow> (n, v) \<in> set m"
  by (induction m) (auto split: if_splits)

lemma deleteAllStatus_ok:
  assumes "deleteAllStatus env name s = (s', err)"
  shows "tp_opa s' = tp_opa s \<and> tp_wm s' = tp_wm s \<and> tp_tracker s' = tp_tracker s \<and> tp_registry s' = tp_registry s"
    "err = None \<Longrightarrow> no_statuses env name s'"
proof -
  show "tp_opa s' = tp_opa s \<and> tp_wm s' = tp_wm s \<and> tp_tracker s' = tp_tracker s \<and> tp_registry s' = tp_registry s"
    using assms unfolding deleteAllStatus_def
    by (auto simp: Let_def split: sum.splits prod.splits option.splits)
  show "no_statuses env name s'" if "err = None"
  proof -
    let ?pod = "GetPodName (se_environ (sc_env (te_client env)))"
    let ?items = "filter (\<lambda>(n, st). mget (st_Labels st) PodLabel = Some ?pod \<and>
        mget (st_Labels st) ConstraintTemplateNameLabel = Some name) (tp_cstrStatus s)"
    let ?c = "te_client env"
    obtain sName where k: "template_key ?c name = Inr sName"
      using assms \<open>err = None\<close> by (cases "template_key ?c name") (simp_all add: deleteAllStatus_def)
    obtain st e where st: "status_Delete ?c sName (tp_status s) = (st, e)" by (cases "status_Delete ?c sName (tp_status s)")
    have e: "e = None" using assms \<open>err = None\<close> k st by (cases e) (simp_all add: deleteAllStatus_def)
    have l: "te_ListStatus env = None"
      using assms \<open>err = None\<close> k st e by (cases "te_ListStatus env") (simp_all add: deleteAllStatus_def)
    obtain m e2 where m: "delete_statuses env (map fst ?items) (tp_cstrStatus s) = (m, e2)"
      by (cases "delete_statuses env (map fst ?items) (tp_cstrStatus s)")
    have s': "e2 = None" "s' = s\<lparr>tp_status := st, tp_cstrStatus := m\<rparr>"
      using assms \<open>err = None\<close> k st e l m by (simp_all add: deleteAllStatus_def)
    note d = k st [unfolded e] m [unfolded s'(1)] s'(2)
    have "mget (ss_store st) sName = None" using d(2) by (auto simp: status_Delete_def split: option.splits)
    moreover have "\<not> (mget (st_Labels x) PodLabel = Some ?pod \<and> mget (st_Labels x) ConstraintTemplateNameLabel = Some name)"
      if "mget m n = Some x" for n x
    proof
      assume l: "mget (st_Labels x) PodLabel = Some ?pod \<and> mget (st_Labels x) ConstraintTemplateNameLabel = Some name"
      have x: "n \<notin> fst ` set ?items" "mget (tp_cstrStatus s) n = Some x"
        using that delete_statuses_ok [OF d(3), of n] by (auto split: if_splits)
      have "(n, x) \<in> set ?items" using mget_mem [OF x(2)] l by simp
      from imageI [OF this, of fst] show False using x(1) by simp
    qed
    ultimately show ?thesis using d(1,4) by (simp add: no_statuses_def)
  qed
qed

text \<open>What the invariant looks at.\<close>

definition same_core :: "TemplateState \<Rightarrow> TemplateState \<Rightarrow> bool" where
  "same_core s s' \<longleftrightarrow> tp_opa s' = tp_opa s \<and> tp_wm s' = tp_wm s \<and> tp_tracker s' = tp_tracker s"

lemma template_inv_core: "same_core s s' \<Longrightarrow> template_inv oe cache w sw s \<Longrightarrow> template_inv oe cache w sw s'"
  by (simp add: template_inv_def same_core_def)

lemma same_templates_core:
  "same_core s' s2 \<Longrightarrow> same_templates_but n s s' \<Longrightarrow> same_templates_but n s s2"
  by (simp add: same_templates_but_def same_core_def)

lemma registry_remove_gone: "mget (reg_cache (registry_remove k r)) k = None"
  by (auto simp: registry_remove_def mhas_def)

lemma registry_add_has: "mget (reg_cache (registry_add k st r)) k = Some st"
  by (simp add: registry_add_def)

text \<open>What a deletion that succeeded leaves.\<close>

definition template_gone :: "TemplateEnv \<Rightarrow> Request \<Rightarrow> TemplateState \<Rightarrow> bool" where
  "template_gone env request s \<longleftrightarrow>
     GetTemplate (req_Name request) (tp_opa s) = None \<and> no_statuses env (req_Name request) s \<and>
     mget (reg_cache (tp_registry s)) (req_Namespace request, req_Name request) = None"

lemma template_delete_ok:
  assumes "template_inv oe cache w sw s" "tenv_ok oe cache w sw env"
  obtains s' res where "template_delete env request s = Some (s', res)" "template_inv oe cache w sw s'"
    "same_templates_but (req_Name request) s s'" "res = Reconciled \<longrightarrow> template_gone env request s'"
proof -
  note goal = that
  let ?n = "req_Name request" and ?k = "(req_Namespace request, req_Name request)"
  have fin: thesis
    if d: "template_delete env request s = (case deleteAllStatus env ?n t of (s, err) \<Rightarrow> Some (s, result_of Reconciled err))"
      and t: "template_inv oe cache w sw t" "same_templates_but ?n s t" "GetTemplate ?n (tp_opa t) = None"
        "mget (reg_cache (tp_registry t)) ?k = None" for t
  proof -
    obtain s' err where a: "deleteAllStatus env ?n t = (s', err)" by (cases "deleteAllStatus env ?n t")
    note b = deleteAllStatus_ok [OF a]
    have "same_core t s'" using b(1) by (simp add: same_core_def)
    then show thesis
      using goal [of s' "result_of Reconciled err"] template_inv_core [OF _ t(1)] same_templates_core [OF _ t(2)] a b d t(3,4)
      by (auto simp: template_gone_def result_of_def split: option.splits)
  qed
  show thesis
  proof (cases "GetTemplate ?n (tp_opa s)")
    case None
    let ?t = "s\<lparr>tp_registry := registry_remove ?k (tp_registry s)\<rparr>"
    show thesis
      by (rule fin [of ?t]) (use None assms(1) in \<open>auto simp: template_delete_def template_inv_def same_templates_but_def registry_remove_gone\<close>)
  next
    case (Some ct)
    have n: "ct_Name ct = ?n" using opa_okD [OF _ Some] assms(1) by (auto simp: template_inv_def)
    obtain t res where h: "handleDelete env ct s = Some (t, res)" "template_inv oe cache w sw t"
      "same_templates_but (ct_Name ct) s t" "res = Reconciled \<or> (\<exists>err. res = ReconcileErr err)"
      "res = Reconciled \<longrightarrow> GetTemplate (ct_Name ct) (tp_opa t) = None"
      by (rule handleDelete_ok [OF assms, of ct]) (use Some n in auto)
    show thesis
    proof (cases "res = Reconciled")
      case True
      let ?t = "t\<lparr>tp_registry := registry_remove ?k (tp_registry t)\<rparr>"
      have c: "same_core t ?t" by (simp add: same_core_def)
      show thesis
        by (rule fin [of ?t])
          (use Some h True n template_inv_core [OF c h(2)] same_templates_core [OF c h(3)] in
            \<open>auto simp: template_delete_def registry_remove_gone\<close>)
    next
      case False
      then obtain err where err: "res = ReconcileErr err" using h(4) by blast
      let ?t = "t\<lparr>tp_registry := registry_add ?k ErrorStatus (tp_registry t)\<rparr>"
      have c: "same_core t ?t" by (simp add: same_core_def)
      show thesis
        by (rule that [of ?t res])
          (use Some h err n template_inv_core [OF c h(2)] same_templates_core [OF c h(3)] in \<open>auto simp: template_delete_def\<close>)
    qed
  qed
qed

section \<open>Updates\<close>

text \<open>The status of the pod for a template's UID and generation.\<close>

definition template_status :: "TemplateState \<Rightarrow> Template \<Rightarrow> StatusError list \<Rightarrow> bool" where
  "template_status s ct errs \<longleftrightarrow> (\<exists>n st. mget (ss_store (tp_status s)) n = Some st \<and> st_UID st = tp_UID ct \<and>
     st_Generation st = tp_Generation ct \<and> st_Errors st = errs)"

lemma writeCRD_ok:
  assumes "writeCRD env crd currentCRD status s = (s', err)"
  shows "same_core s s'" "tp_registry s' = tp_registry s"
    "err = None \<Longrightarrow> currentCRD = mget (tp_crds s) (crd_key crd) \<Longrightarrow> mget (tp_crds s') (crd_key crd) = Some crd"
proof -
  note d = assms [unfolded writeCRD_def reportErrorOnCTStatus_def]
  have all: "same_core s s' \<and> tp_registry s' = tp_registry s \<and>
    (err = None \<longrightarrow> currentCRD = mget (tp_crds s) (crd_key crd) \<longrightarrow> mget (tp_crds s') (crd_key crd) = Some crd)"
  proof (cases currentCRD)
    case None
    then show ?thesis using d
      by (cases "te_CreateCRD env crd") (auto simp: same_core_def split: prod.splits option.splits)
  next
    case (Some cur)
    show ?thesis
    proof (cases "crd = cur")
      case True
      then have "s' = s" "err = None" using d Some by simp_all
      then show ?thesis using Some True by (auto simp: same_core_def)
    next
      case False
      then show ?thesis using d Some
        by (cases "te_UpdateCRD env crd") (auto simp: same_core_def split: prod.splits option.splits)
    qed
  qed
  show "same_core s s'" "tp_registry s' = tp_registry s" by (rule all [THEN conjunct1], rule all [THEN conjunct2, THEN conjunct1])
  show "mget (tp_crds s') (crd_key crd) = Some crd" if "err = None" "currentCRD = mget (tp_crds s) (crd_key crd)"
    by (rule all [THEN conjunct2, THEN conjunct2, rule_format, OF that])
qed

text \<open>The template is in force: OPA has it, its kind is watched twice, the CRD is written.\<close>

definition kind_served :: "TemplateEnv \<Rightarrow> Template \<Rightarrow> TemplateState \<Rightarrow> bool" where
  "kind_served env ct s \<longleftrightarrow>
     watching (te_watcher env) (makeGvk (ct_Kind ct)) (tp_wm s) \<and>
     watching (te_statusWatcher env) (makeGvk (ct_Kind ct)) (tp_wm s) \<and>
     (\<exists>crd. mget (tp_crds s) (crd_key (te_crd env ct)) = Some crd \<and>
        crd_Spec crd = crd_Spec (te_crd env ct) \<and> crd_Owner crd = Some (tp_UID ct))"

lemma newCRD_fields:
  "crd_Spec (newCRD ct p cur) = crd_Spec p" "crd_Owner (newCRD ct p cur) = Some (tp_UID ct)"
  "(\<And>c. cur = Some c \<Longrightarrow> crd_key c = crd_key p) \<Longrightarrow> crd_key (newCRD ct p cur) = crd_key p"
  by (cases cur; simp add: newCRD_def crd_key_def)+

text \<open>A CRD is stored under its own name.\<close>

definition crds_named :: "TemplateState \<Rightarrow> bool" where
  "crds_named s \<longleftrightarrow> (\<forall>k c. mget (tp_crds s) k = Some c \<longrightarrow> crd_key c = k)"

lemma handleUpdate_watch_ok:
  assumes "template_inv oe cache w sw s" "tenv_ok oe cache w sw env" "watch_backed oe (tp_opa s) (makeGvk (ct_Kind ct))"
    "handleUpdate_watch env ct (te_crd env ct) (mget (tp_crds s) (crd_key (te_crd env ct))) status s = (s', res)"
  shows "template_inv oe cache w sw s' \<and> tp_opa s' = tp_opa s \<and> tp_registry s' = tp_registry s \<and>
    (res = Reconciled \<longrightarrow> crds_named s \<longrightarrow> kind_served env ct s' \<and> mget (ss_store (tp_status s')) (st_Name status) = Some status)"
proof -
  let ?p = "te_crd env ct" let ?cur = "mget (tp_crds s) (crd_key ?p)" let ?crd = "newCRD ct ?p ?cur"
  have env: "te_oe env = oe" "te_cache env = cache" "te_watcher env = w" "te_statusWatcher env = sw"
    using assms(2) by (auto simp: tenv_ok_def)
  show ?thesis
  proof (cases "te_SetOwner env ct ?crd")
    case (Some err)
    then show ?thesis using assms(1,4) by (auto simp: handleUpdate_watch_def Let_def)
  next
    case None
    obtain s1 e1 where s1: "writeCRD env ?crd ?cur status s = (s1, e1)" by (cases "writeCRD env ?crd ?cur status s")
    note w1 = writeCRD_ok [OF s1]
    have i1: "template_inv oe cache w sw s1" by (rule template_inv_core [OF w1(1) assms(1)])
    have o1: "tp_opa s1 = tp_opa s" "tp_wm s1 = tp_wm s" using w1(1) by (auto simp: same_core_def)
    show ?thesis
    proof (cases e1)
      case (Some err)
      then show ?thesis using assms(4) None s1 i1 o1 w1(2) by (auto simp: handleUpdate_watch_def Let_def)
    next
      case e1: None
      obtain s2 e2 where s2: "addWatch env (makeGvk (ct_Kind ct)) s1 = (s2, e2)" by (cases "addWatch env (makeGvk (ct_Kind ct)) s1")
      have b: "watch_backed oe (tp_opa s1) (makeGvk (ct_Kind ct))" using assms(3) o1 by simp
      have m: "manager_ok cache w sw (tp_wm s1)" "watches_ok oe w sw (tp_opa s1) (tp_wm s1)" using i1 by (auto simp: template_inv_def)
      obtain wm where wm: "s2 = s1\<lparr>tp_wm := wm\<rparr>" "manager_ok cache w sw wm" "watches_ok oe w sw (tp_opa s1) wm"
        "e2 = None \<longrightarrow> watching w (makeGvk (ct_Kind ct)) wm \<and> watching sw (makeGvk (ct_Kind ct)) wm"
        using addWatch_ok [OF m b env(2-4) s2] by blast
      have i2: "template_inv oe cache w sw s2" using template_inv_wm [OF i1 wm(2,3)] wm(1) by simp
      show ?thesis
      proof (cases e2)
        case (Some err)
        then show ?thesis using assms(4) None s1 e1 s2 i2 wm(1) o1 w1(2) by (auto simp: handleUpdate_watch_def Let_def)
      next
        case e2: None
        obtain st e3 where st: "status_Update (te_client env) status (tp_status s2) = (st, e3)"
          by (cases "status_Update (te_client env) status (tp_status s2)")
        have r: "s' = s2\<lparr>tp_status := st\<rparr>" "res = (case e3 of Some _ \<Rightarrow> RequeueIt | None \<Rightarrow> Reconciled)"
          using assms(4) None s1 e1 s2 e2 st by (auto simp: handleUpdate_watch_def Let_def split: option.splits)
        have i3: "template_inv oe cache w sw s'" by (rule template_inv_core [OF _ i2]) (simp add: same_core_def r)
        have "kind_served env ct s' \<and> mget (ss_store (tp_status s')) (st_Name status) = Some status"
          if ok: "res = Reconciled" "crds_named s"
        proof -
          have "mget (ss_store st) (st_Name status) = Some status"
            using ok(1) r(2) st status_Update_ok [of "te_client env" status "tp_status s2" st] by (auto split: option.splits)
          moreover have c: "crd_key ?crd = crd_key ?p"
        by (rule newCRD_fields(3)) (rule ok(2) [unfolded crds_named_def, rule_format])
          ultimately show ?thesis using wm(1,4) e2 env r(1) w1(3) [OF e1] by (simp add: kind_served_def newCRD_fields)
        qed
        then show ?thesis using i3 r(1) wm(1) o1(1) w1(2) by simp
      qed
    qed
  qed
qed

end
