(* ===== verification/Template_Steps.thy ===== *)
theory Template_Steps
  imports Template_Facts
begin

text \<open>
  One reconciliation of a template and one of a constraint: what each does to the invariant of
  \<open>Template_Facts\<close> and what it leaves when it succeeds.
\<close>

section \<open>Templates\<close>

lemma AddTemplate_others:
  assumes "AddTemplate env t c = (c', err)" "m \<noteq> ct_Name t"
  shows "GetTemplate m c' = GetTemplate m c"
  using assms(1) by (cases rule: AddTemplate_cases) (use assms(2) in \<open>auto simp: GetTemplate_def\<close>)

lemma AddTemplate_error: "AddTemplate env t c = (c', Some err) \<Longrightarrow> c' = c"
  by (cases rule: AddTemplate_cases) auto

text \<open>A template in force, as its status says.\<close>

definition template_done :: "TemplateEnv \<Rightarrow> Template \<Rightarrow> TemplateState \<Rightarrow> bool" where
  "template_done env ct s \<longleftrightarrow>
     (\<exists>u. GetTemplate (ct_Name ct) (tp_opa s) = Some u \<and> template_SemanticEqual u ct) \<and>
     kind_served env ct s \<and> template_status s ct []"

lemma handleUpdate_ok:
  assumes "template_inv oe cache w sw s" "tenv_ok oe cache w sw env" "names_lower oe" "kind_stable ct (tp_opa s)"
    and st: "st_UID status = tp_UID ct" "st_Generation status = tp_Generation ct" "st_Errors status = []"
  obtains s' res where
    "handleUpdate env ct (te_crd env ct) (mget (tp_crds s) (crd_key (te_crd env ct))) status s = Some (s', res)"
    "template_inv oe cache w sw s'" "same_templates_but (ct_Name ct) s s'" "tp_registry s' = tp_registry s"
    "res = Reconciled \<longrightarrow> crds_named s \<longrightarrow> template_done env ct s'"
proof -
  have inv: "opa_ok oe (tp_opa s)" "manager_ok cache w sw (tp_wm s)" "watches_ok oe w sw (tp_opa s) (tp_wm s)"
    "tr_ready (tp_tracker s)" using assms(1) by (auto simp: template_inv_def)
  have oe: "te_oe env = oe" using assms(2) by (simp add: tenv_ok_def)
  obtain opa err where A: "AddTemplate oe ct (tp_opa s) = (opa, err)" by (cases "AddTemplate oe ct (tp_opa s)")
  note a = AddTemplate_ok [OF inv(1) assms(3,4) A]
  have others: "same_templates_but (ct_Name ct) s t" if "tp_opa t = opa" for t
    using AddTemplate_others [OF A] that by (simp add: same_templates_but_def)
  show thesis
  proof (cases err)
    case (Some e)
    have o: "opa = tp_opa s" using AddTemplate_error A Some by blast
    obtain t e2 where t: "reportErrorOnCTStatus env ''ingest_error'' ''Could not ingest Rego'' status e (s\<lparr>tp_opa := opa\<rparr>) = (t, e2)"
      by (cases "reportErrorOnCTStatus env ''ingest_error'' ''Could not ingest Rego'' status e (s\<lparr>tp_opa := opa\<rparr>)")
    have c: "same_core s t" "tp_registry t = tp_registry s"
      using t o by (auto simp: reportErrorOnCTStatus_def same_core_def split: prod.splits option.splits)
    have i: "template_inv oe cache w sw t" by (rule template_inv_core [OF c(1) assms(1)])
    have "tr_ready (tp_tracker t)" using i by (simp add: template_inv_def)
    then obtain t' where t': "cancel_tracking ct t = Some (t\<lparr>tp_tracker := t'\<rparr>)" "tr_ready t'"
      by (rule cancel_tracking_ready)
    have "template_inv oe cache w sw (t\<lparr>tp_tracker := t'\<rparr>)" using i t'(2) by (simp add: template_inv_def)
    then show thesis
      using that [of "t\<lparr>tp_tracker := t'\<rparr>" "ReconcileErr e2"] A Some t t'(1) c oe others [of "t\<lparr>tp_tracker := t'\<rparr>"] o
      by (simp add: handleUpdate_def same_core_def)
  next
    case None
    let ?t = "tracker_call templateGVK (EvObserve (TemplateObject (ConstraintTemplate.truncate ct))) (tp_tracker s)"
    let ?s = "s\<lparr>tp_opa := opa, tp_tracker := ?t\<rparr>"
    have "watches_ok oe w sw opa (tp_wm s)" by (rule watches_ok_AddTemplate [OF inv(3) a(3)])
    then have i: "template_inv oe cache w sw ?s" using inv a(1) by (simp add: template_inv_def)
    obtain u where u: "GetTemplate (ct_Name ct) opa = Some u" "template_SemanticEqual u ct" using a(2) None by blast
    have k: "ct_Kind u = ct_Kind ct" using u(2) by (simp add: template_SemanticEqual_def)
    have n: "ct_Name ct = oe_ToLower oe (ct_Kind ct)" using opa_okD [OF a(1) u(1)] k by simp
    have b: "watch_backed oe (tp_opa ?s) (makeGvk (ct_Kind ct))"
      using u(1) n k by (auto simp: watch_backed_def makeGvk_def)
    obtain s' res where H: "handleUpdate_watch env ct (te_crd env ct) (mget (tp_crds ?s) (crd_key (te_crd env ct))) status ?s = (s', res)"
      by (cases "handleUpdate_watch env ct (te_crd env ct) (mget (tp_crds ?s) (crd_key (te_crd env ct))) status ?s")
    note h = handleUpdate_watch_ok [OF i assms(2) b H]
    have e: "handleUpdate env ct (te_crd env ct) (mget (tp_crds s) (crd_key (te_crd env ct))) status s = Some (s', res)"
      using A None H oe by (simp add: handleUpdate_def Let_def)
    have "template_done env ct s'" if "res = Reconciled" "crds_named s"
    proof -
      have "crds_named ?s" using that(2) by (simp add: crds_named_def)
      then have "kind_served env ct s'" "mget (ss_store (tp_status s')) (st_Name status) = Some status"
        using h that(1) by auto
      then show ?thesis using h u st by (auto simp: template_done_def template_status_def)
    qed
    then show thesis using that [OF e] h others [of s'] by simp
  qed
qed

text \<open>What an update that succeeded leaves: the template in force, or the errors it does not compile
  with.\<close>

definition template_result :: "TemplateEnv \<Rightarrow> Request \<Rightarrow> Template \<Rightarrow> TemplateState \<Rightarrow> TemplateState \<Rightarrow> bool" where
  "template_result env request ct s s' \<longleftrightarrow>
     (case template_check (te_oe env) ct of
        None \<Rightarrow> template_done env ct s' \<and>
          mget (reg_cache (tp_registry s')) (req_Namespace request, req_Name request) = Some ActiveStatus
      | Some err \<Rightarrow> tp_opa s' = tp_opa s \<and> tp_wm s' = tp_wm s \<and> template_status s' ct (compile_errors env ct err) \<and>
          mget (reg_cache (tp_registry s')) (req_Namespace request, req_Name request) = Some ErrorStatus)"

lemma template_done_registry: "template_done env ct (s\<lparr>tp_registry := r\<rparr>) = template_done env ct s"
  by (simp add: template_done_def kind_served_def template_status_def)

lemma same_core_simps:
  "same_core s (t\<lparr>tp_registry := r\<rparr>) = same_core s t" "same_core s (t\<lparr>tp_status := st\<rparr>) = same_core s t"
  "same_core s s"
  by (simp_all add: same_core_def)

lemma same_templates_core0: "same_core s t \<Longrightarrow> same_templates_but n s t"
  by (simp add: same_templates_but_def same_core_def)

lemma reportErrorOnCTStatus_core:
  "reportErrorOnCTStatus env code message status err s = (t, e) \<Longrightarrow> same_core s t"
  by (auto simp: reportErrorOnCTStatus_def same_core_def split: prod.splits option.splits)

text \<open>The state after a step, with what every step keeps.\<close>

definition step_kept :: "OpaEnv \<Rightarrow> cache_env \<Rightarrow> nat \<Rightarrow> nat \<Rightarrow> string \<Rightarrow> TemplateState \<Rightarrow> TemplateState \<Rightarrow> bool" where
  "step_kept oe cache w sw n s s' \<longleftrightarrow> template_inv oe cache w sw s' \<and> same_templates_but n s s'"

lemma step_kept_core:
  "template_inv oe cache w sw s \<Longrightarrow> same_core s t \<Longrightarrow> step_kept oe cache w sw n s t"
  by (simp add: step_kept_def template_inv_core same_templates_core0)

lemma step_kept_trans: "step_kept oe cache w sw n s t \<Longrightarrow> same_core t t' \<Longrightarrow> step_kept oe cache w sw n s t'"
  using template_inv_core same_templates_core by (auto simp: step_kept_def)

lemma cancel_tracking_kept:
  assumes "template_inv oe cache w sw s"
  obtains t where "cancel_tracking ct s = Some (s\<lparr>tp_tracker := t\<rparr>)" "step_kept oe cache w sw n s (s\<lparr>tp_tracker := t\<rparr>)"
proof -
  have "tr_ready (tp_tracker s)" using assms by (simp add: template_inv_def)
  then obtain t where "cancel_tracking ct s = Some (s\<lparr>tp_tracker := t\<rparr>)" "tr_ready t" by (rule cancel_tracking_ready)
  then show thesis using that [of t] assms by (simp add: step_kept_def template_inv_def same_templates_but_def)
qed

lemma template_update_ok:
  assumes inv: "template_inv oe cache w sw s" and env: "tenv_ok oe cache w sw env"
    and oe: "names_lower oe" "kind_stable ct (tp_opa s)"
  obtains s' res where "template_update env request ct s = Some (s', res)" "step_kept oe cache w sw (ct_Name ct) s s'"
    "res = Reconciled \<longrightarrow> crds_named s \<longrightarrow> template_result env request ct s s'"
proof -
  note goal = that
  let ?c = "te_client env" and ?k = "(req_Namespace request, req_Name request)" and ?n = "ct_Name ct"
  let ?kept = "step_kept oe cache w sw ?n"
  obtain st r where G: "template_getOrCreatePodStatus ?c ?n (tp_status s) = (st, r)"
    by (metis surj_pair)
  let ?s = "s\<lparr>tp_status := st\<rparr>"
  have c: "same_core s ?s" by (simp add: same_core_def)
  have i: "template_inv oe cache w sw ?s" by (rule template_inv_core [OF c inv])
  have ks: "?kept s ?s" by (rule step_kept_core [OF inv c])
  have kf: "?kept s (t\<lparr>tp_registry := r\<rparr>)" if "?kept s t" for t r
    by (rule step_kept_trans [OF that]) (simp add: same_core_def)
  show thesis
  proof (cases r)
    case (Inl err)
    show thesis by (rule goal [of ?s "ReconcileErr err"]) (use Inl G ks in \<open>simp_all add: template_update_def Let_def\<close>)
  next
    case (Inr status0)
    let ?status = "status0\<lparr>st_UID := tp_UID ct, st_Generation := tp_Generation ct, st_Errors := []\<rparr>"
    note u = template_update_def Let_def G Inr
    show thesis
    proof (cases "te_convert env ct")
      case (Some err)
      show thesis by (rule goal [of "?s\<lparr>tp_registry := registry_add ?k ErrorStatus (tp_registry s)\<rparr>" "ReconcileErr err"]) (use Some kf [OF ks] in \<open>simp_all add: u\<close>)
    next
      case conv: None
      obtain t where t: "cancel_tracking ct ?s = Some (?s\<lparr>tp_tracker := t\<rparr>)" "?kept ?s (?s\<lparr>tp_tracker := t\<rparr>)"
        by (rule cancel_tracking_kept [OF i])
      let ?t = "?s\<lparr>tp_tracker := t\<rparr>"
      have kt: "?kept s ?t" using t(2) by (simp add: step_kept_def same_templates_but_def)
      show thesis
      proof (cases "template_check (te_oe env) ct")
        case (Some err)
        let ?f = "?t\<lparr>tp_registry := registry_add ?k ErrorStatus (tp_registry ?t)\<rparr>"
        let ?st = "?status\<lparr>st_Errors := compile_errors env ct err\<rparr>"
        obtain st2 e2 where S: "status_Update ?c ?st (tp_status ?f) = (st2, e2)"
          by (cases "status_Update ?c ?st (tp_status ?f)")
        have k: "?kept s (?f\<lparr>tp_status := st2\<rparr>)"
          by (rule step_kept_trans [OF kf [OF kt]]) (simp add: same_core_def)
        have e: "template_update env request ct s =
            Some (?f\<lparr>tp_status := st2\<rparr>, case e2 of Some _ \<Rightarrow> RequeueIt | None \<Rightarrow> Reconciled)"
          using conv Some t(1) S by (simp add: u split: option.split)
        show thesis
        proof (rule goal [OF e k], intro impI)
          assume "(case e2 of Some _ \<Rightarrow> RequeueIt | None \<Rightarrow> Reconciled) = Reconciled"
          then have "mget (ss_store st2) (st_Name ?st) = Some ?st"
            using S status_Update_ok [of ?c ?st "tp_status ?f" st2] by (auto split: option.splits)
          then have "template_status (?f\<lparr>tp_status := st2\<rparr>) ct (compile_errors env ct err)"
            unfolding template_status_def
            by (intro exI [of _ "st_Name ?st"] exI [of _ ?st] conjI) simp_all
          then show "template_result env request ct s (?f\<lparr>tp_status := st2\<rparr>)"
            using Some by (simp add: template_result_def registry_add_has)
        qed
      next
        case chk: None
        show thesis
        proof (cases "te_convertCRD env ct")
          case (Some err)
          let ?f = "?t\<lparr>tp_registry := registry_add ?k ErrorStatus (tp_registry ?t)\<rparr>"
          obtain t2 e2 where R: "reportErrorOnCTStatus env ''conversion_error'' ''Could not convert from unversioned resource''
              ?status err ?f = (t2, e2)" by (metis surj_pair)
          have "?kept s t2" by (rule step_kept_trans [OF kf [OF kt] reportErrorOnCTStatus_core [OF R]])
          then show thesis using goal [of t2 "ReconcileErr e2"] conv chk Some t(1) R by (simp add: u)
        next
          case cc: None
          show thesis
          proof (cases "te_GetCRD env (crd_key (te_crd env ct))")
            case (Some err)
            show thesis by (rule goal [of "?s\<lparr>tp_registry := registry_add ?k ErrorStatus (tp_registry s)\<rparr>" "ReconcileErr err"]) (use conv chk cc Some kf [OF ks] in \<open>simp_all add: u\<close>)
          next
            case gc: None
            obtain t2 res where H: "handleUpdate env ct (te_crd env ct) (mget (tp_crds ?s) (crd_key (te_crd env ct))) ?status ?s = Some (t2, res)"
              and h: "template_inv oe cache w sw t2" "same_templates_but ?n ?s t2" "tp_registry t2 = tp_registry ?s"
                "res = Reconciled \<longrightarrow> crds_named ?s \<longrightarrow> template_done env ct t2"
              by (rule handleUpdate_ok [OF i env oe(1), of ct ?status]) (use oe(2) in simp_all)
            have k2: "?kept s t2" using h(1,2) by (simp add: step_kept_def same_templates_but_def)
            show thesis
            proof (cases res)
              case Reconciled
              show thesis
                by (rule goal [of "t2\<lparr>tp_registry := registry_add ?k ActiveStatus (tp_registry t2)\<rparr>" Reconciled])
                  (use conv chk cc gc H Reconciled kf [OF k2] h(4) in
                    \<open>simp_all add: u template_result_def registry_add_has template_done_registry crds_named_def\<close>)
            next
              case RequeueIt
              show thesis
                by (rule goal [of t2 RequeueIt]) (use conv chk cc gc H RequeueIt k2 in \<open>simp_all add: u\<close>)
            next
              case (ReconcileErr err)
              show thesis
                by (rule goal [of "t2\<lparr>tp_registry := registry_add ?k ErrorStatus (tp_registry t2)\<rparr>" "ReconcileErr err"]) (use conv chk cc gc H ReconcileErr kf [OF k2] in \<open>simp_all add: u\<close>)
            qed
          qed
        qed
      qed
    qed
  qed
qed

text \<open>A finalizer is all that the first step changes.\<close>

lemma template_finalize_fields:
  "ct_Name (fst (template_finalize env ct)) = ct_Name ct" "ct_Kind (fst (template_finalize env ct)) = ct_Kind ct"
  "ct_deleting (fst (template_finalize env ct)) = ct_deleting ct"
  by (simp_all add: template_finalize_def Let_def)

text \<open>What the API server answers for a request: a template of the requested name, of the kind that OPA
  knows it with, if it knows it.\<close>

definition answers_ok :: "TemplateEnv \<Rightarrow> Request \<Rightarrow> TemplateState \<Rightarrow> bool" where
  "answers_ok env request s \<longleftrightarrow>
     (\<forall>ct. te_Get env request = Inr ct \<longrightarrow> ct_Name ct = req_Name request \<and> kind_stable ct (tp_opa s))"

text \<open>What a reconciliation that succeeded leaves.\<close>

definition template_outcome :: "TemplateEnv \<Rightarrow> Request \<Rightarrow> TemplateState \<Rightarrow> TemplateState \<Rightarrow> bool" where
  "template_outcome env request s s' \<longleftrightarrow>
     (case te_Get env request of
        Inl _ \<Rightarrow> template_gone env request s'
      | Inr ct \<Rightarrow>
          if ct_deleting ct then template_gone env request s'
          else template_result env request (fst (template_finalize env ct)) s s')"

lemma reported_core: "same_core s (fst (reported env (s, res)))" "snd (reported env (s, res)) = res"
  by (simp_all add: reported_def same_core_def)

lemma registry_report_cache: "reg_cache (fst (registry_report fails r)) = reg_cache r"
  by (simp add: registry_report_def)

lemma template_gone_reported: "template_gone env request s \<Longrightarrow> template_gone env request (fst (reported env' (s, res)))"
  by (simp add: template_gone_def reported_def no_statuses_def registry_report_cache)

lemma template_result_reported:
  "template_result env request ct s t \<Longrightarrow> template_result env request ct s (fst (reported env' (t, res)))"
  by (simp add: template_result_def reported_def template_done_registry template_status_def registry_report_cache split: option.splits)

lemma template_Reconcile_ok:
  assumes inv: "template_inv oe cache w sw s" and env: "tenv_ok oe cache w sw env"
    and oe: "names_lower oe" and ans: "answers_ok env request s"
  obtains s' res where "template_Reconcile env request s = Some (s', res)" "step_kept oe cache w sw (req_Name request) s s'"
    "res = Reconciled \<longrightarrow> \<not> shutting_down (te_running env) \<longrightarrow> crds_named s \<longrightarrow> template_outcome env request s s'"
proof (cases "shutting_down (te_running env)")
  case True
  show thesis by (rule that [of s Reconciled])
      (use True inv in \<open>simp_all add: template_Reconcile_def step_kept_core same_core_def\<close>)
next
  case False
  note goal = that
  let ?kept = "step_kept oe cache w sw (req_Name request) s"
  have fin: thesis
    if "template_Reconcile env request s = Some (reported env (t, res))" "?kept t"
      "res = Reconciled \<longrightarrow> crds_named s \<longrightarrow> template_outcome env request s (fst (reported env (t, res)))" for t res
    by (rule goal [of "fst (reported env (t, res))" res])
      (use that step_kept_trans [OF that(2) reported_core(1)] reported_core(2) in \<open>simp_all add: prod_eq_iff\<close>)
  have del: thesis
    if d: "template_Reconcile env request s = map_option (reported env) (template_delete env request s)"
      and o: "\<And>t. template_gone env request t \<Longrightarrow> template_outcome env request s t"
  proof -
    obtain t res where t: "template_delete env request s = Some (t, res)" "template_inv oe cache w sw t"
      "same_templates_but (req_Name request) s t" "res = Reconciled \<longrightarrow> template_gone env request t"
      by (rule template_delete_ok [OF inv env])
    show thesis
    proof (rule fin [of t res])
      show "template_Reconcile env request s = Some (reported env (t, res))" using d t(1) by simp
      show "?kept t" using t(2,3) by (simp add: step_kept_def)
      show "res = Reconciled \<longrightarrow> crds_named s \<longrightarrow> template_outcome env request s (fst (reported env (t, res)))"
        using o [OF template_gone_reported] t(4) by blast
    qed
  qed
  have R: "template_Reconcile env request s = map_option (reported env) (case te_Get env request of
        Inl (GetFailed err) \<Rightarrow> Some (s, ReconcileErr err)
      | Inl (IsNotFound _) \<Rightarrow> template_delete env request s
      | Inr ct \<Rightarrow>
          (case template_finalize env ct of
             (ct, False) \<Rightarrow> Some (s, RequeueIt)
           | (ct, True) \<Rightarrow>
               if ct_deleting ct then template_delete env request s else template_update env request ct s))"
    using False by (simp add: template_Reconcile_def)
  have ks: "?kept s" using inv by (simp add: step_kept_core same_core_def)
  show thesis
  proof (cases "te_Get env request")
    case (Inl e)
    show thesis
    proof (cases e)
      case (GetFailed err)
      show thesis by (rule fin [of s "ReconcileErr err"]) (use Inl GetFailed R ks in simp_all)
    next
      case (IsNotFound x)
      show thesis by (rule del) (use Inl IsNotFound R in \<open>simp_all add: template_outcome_def\<close>)
    qed
  next
    case (Inr ct)
    obtain ct' ok where f: "template_finalize env ct = (ct', ok)" by (cases "template_finalize env ct")
    note ff = template_finalize_fields [of env ct, unfolded f fst_conv]
    note an = ans [unfolded answers_ok_def, rule_format, OF Inr]
    have "kind_stable ct' (tp_opa s) = kind_stable ct (tp_opa s)" unfolding kind_stable_def ff(1,2) by (rule refl)
    then have a: "ct_Name ct' = req_Name request" "kind_stable ct' (tp_opa s)" using an ff(1) by simp_all
    show thesis
    proof (cases ok)
      case ok: False
      show thesis by (rule fin [of s RequeueIt]) (use Inr R f ok ks in simp_all)
    next
      case ok: True
      show thesis
      proof (cases "ct_deleting ct")
        case True
        show thesis by (rule del) (use Inr R f ok ff True in \<open>simp_all add: template_outcome_def\<close>)
      next
        case nd: False
        obtain t res where t: "template_update env request ct' s = Some (t, res)" "step_kept oe cache w sw (ct_Name ct') s t"
          "res = Reconciled \<longrightarrow> crds_named s \<longrightarrow> template_result env request ct' s t"
          by (rule template_update_ok [OF inv env oe a(2)])
        show thesis
        proof (rule fin [of t res])
          show "template_Reconcile env request s = Some (reported env (t, res))" using Inr R f ok ff nd t(1) by simp
          show "?kept t" using t(2) a(1) by simp
          show "res = Reconciled \<longrightarrow> crds_named s \<longrightarrow> template_outcome env request s (fst (reported env (t, res)))"
            using template_result_reported t(3) Inr f nd by (simp add: template_outcome_def)
        qed
      qed
    qed
  qed
qed

end
