(* ===== verification/Template_Properties.thy ===== *)
theory Template_Properties
  imports Template_Steps Controller_Properties Watch_Properties
begin

text \<open>
  The properties of the template and the constraint controller, which share the OPA client, the
  readiness tracker and the watch manager: the states they reach together, what holds in all of
  them, and what each reconciliation that succeeds leaves.
\<close>

section \<open>Reachable states\<close>

text \<open>The controllers start with an empty client and two registrars that follow nothing. Steps of other
  components leave OPA and what the two registrars follow; they may move the tracker, other registrars,
  statuses and CRDs.\<close>

inductive template_reachable :: "OpaEnv \<Rightarrow> cache_env \<Rightarrow> nat \<Rightarrow> nat \<Rightarrow> TemplateState \<Rightarrow> bool" for oe cache w sw where
  start: "tp_opa s = NewOpa \<Longrightarrow> manager_ok cache w sw (tp_wm s) \<Longrightarrow>
    (\<forall>r g. r \<in> {w, sw} \<longrightarrow> \<not> follows_kind r g (tp_wm s)) \<Longrightarrow> tr_ready (tp_tracker s) \<Longrightarrow>
    template_reachable oe cache w sw s"
| template: "template_reachable oe cache w sw s \<Longrightarrow> tenv_ok oe cache w sw env \<Longrightarrow> answers_ok env request s \<Longrightarrow>
    template_Reconcile env request s = Some (s', res) \<Longrightarrow> template_reachable oe cache w sw s'"
| constraint: "template_reachable oe cache w sw s \<Longrightarrow> cn_oe env = oe \<Longrightarrow>
    constraint_Reconcile env request \<lparr>cn_opa = tp_opa s, cn_cache = cc, cn_tracker = tp_tracker s, cn_status = st\<rparr> = (cs, res) \<Longrightarrow>
    template_reachable oe cache w sw (s\<lparr>tp_opa := cn_opa cs, tp_tracker := cn_tracker cs\<rparr>)"
| others: "template_reachable oe cache w sw s \<Longrightarrow> tp_opa s' = tp_opa s \<Longrightarrow> manager_ok cache w sw (tp_wm s') \<Longrightarrow>
    (\<forall>r g. r \<in> {w, sw} \<longrightarrow> follows_kind r g (tp_wm s') = follows_kind r g (tp_wm s)) \<Longrightarrow> tr_ready (tp_tracker s') \<Longrightarrow>
    template_reachable oe cache w sw s'"

lemma watches_ok_same:
  assumes "watches_ok oe w sw c wm" "\<And>n. GetTemplate n c' = GetTemplate n c"
    "\<forall>r g. r \<in> {w, sw} \<longrightarrow> follows_kind r g wm' = follows_kind r g wm"
  shows "watches_ok oe w sw c' wm'"
  using assms(1,3) unfolding watches_ok_def watch_backed_def assms(2) by blast

lemma template_reachable_inv:
  assumes "template_reachable oe cache w sw s" "names_lower oe"
  shows "template_inv oe cache w sw s"
  using assms(1)
proof induction
  case (start s)
  then show ?case by (simp add: template_inv_def opa_ok_New watches_ok_def)
next
  case (template s env request s' res)
  obtain t r where "template_Reconcile env request s = Some (t, r)" "step_kept oe cache w sw (req_Name request) s t"
    by (rule template_Reconcile_ok [OF template.IH template.hyps(2) assms(2) template.hyps(3)])
  then show ?case using template.hyps(4) by (simp add: step_kept_def)
next
  case (constraint s env request cc st cs res)
  let ?c = "\<lparr>cn_opa = tp_opa s, cn_cache = cc, cn_tracker = tp_tracker s, cn_status = st\<rparr>"
  have "opa_ok (cn_oe env) (cn_opa ?c)" using constraint.IH constraint.hyps(2) by (simp add: template_inv_def)
  from constraint_Reconcile_kept [OF this constraint.hyps(3)] obtain kn
    where k: "constraint_kept (cn_oe env) kn ?c cs" by (rule exE)
  have t: "\<And>n. GetTemplate n (cn_opa cs) = GetTemplate n (tp_opa s)"
    using k by (simp add: constraint_kept_def other_constraints_def GetTemplate_def)
  have "watches_ok oe w sw (cn_opa cs) (tp_wm s)"
    by (rule watches_ok_same [where c = "tp_opa s" and wm = "tp_wm s"])
      (use constraint.IH t in \<open>simp_all add: template_inv_def\<close>)
  then show ?case using constraint.IH k constraint.hyps(2) by (simp add: template_inv_def constraint_kept_def)
next
  case (others s s')
  have "watches_ok oe w sw (tp_opa s') (tp_wm s')"
    by (rule watches_ok_same [where c = "tp_opa s" and wm = "tp_wm s"])
      (use others in \<open>simp_all add: template_inv_def\<close>)
  then show ?case using others by (simp add: template_inv_def)
qed

section \<open>Sample data\<close>

definition ex_lower :: "string \<Rightarrow> string" where
  "ex_lower s = (if s = ''K8sLabels'' then ''k8slabels'' else s)"

definition ex_oe :: OpaEnv where
  "ex_oe = \<lparr>oe_ToLower = ex_lower,
     oe_Basic = (\<lambda>t. if ct_Name t = ex_lower (ct_Kind t) then None else Some ''name''), oe_Compile = (\<lambda>_. None),
     oe_Remove = (\<lambda>_. None), oe_Validate = (\<lambda>_. None), oe_Delete = (\<lambda>_. None)\<rparr>"

lemma ex_names_lower: "names_lower ex_oe"
  by (simp add: names_lower_def ex_oe_def)

definition ex_labels_template :: "string \<Rightarrow> Template" where
  "ex_labels_template kind = \<lparr>ct_Kind = kind, ct_Namespace = [], ct_Name = ''k8slabels'', ct_deleting = False,
     tp_Spec = ''rego'', tp_UID = ''u3'', tp_Generation = 1, tp_Finalizers = []\<rparr>"

definition ex_crd :: CRD where
  "ex_crd = \<lparr>crd_Name = ''k8slabels.constraints.gatekeeper.sh'', crd_Namespace = [], crd_Spec = ''schema'', crd_Owner = None\<rparr>"

definition ex_template_env :: "GetErr + Template \<Rightarrow> TemplateEnv" where
  "ex_template_env got = \<lparr>te_running = None, te_Get = (\<lambda>_. got), te_Update = (\<lambda>_. None), te_client = ex_status_client,
     te_oe = ex_oe, te_cache = ex_cache, te_watcher = 0, te_statusWatcher = 1, te_convert = (\<lambda>_. None),
     te_crd = (\<lambda>_. ex_crd), te_convertCRD = (\<lambda>_. None), te_parseErrors = (\<lambda>_. None), te_GetCRD = (\<lambda>_. None),
     te_SetOwner = (\<lambda>_ _. None), te_CreateCRD = (\<lambda>_. None), te_UpdateCRD = (\<lambda>_. None), te_ListStatus = None,
     te_DeleteStatus = (\<lambda>_. None), te_reportFails = (\<lambda>_. False)\<rparr>"

definition ex_template_start :: TemplateState where
  "ex_template_start = \<lparr>tp_opa = NewOpa,
     tp_wm = fst (NewRegistrar ''status'' True (fst (NewRegistrar ''constraints'' True New_Manager))),
     tp_tracker = (newTracker False 0)\<lparr>tr_ready := True\<rparr>, tp_status = \<lparr>ss_store = [], ss_ops = newOperationSet\<rparr>,
     tp_cstrStatus = [], tp_crds = [], tp_registry = \<lparr>reg_cache = [], reg_dirty = False\<rparr>\<rparr>"

definition ex_template_request :: Request where
  "ex_template_request = \<lparr>req_Namespace = [], req_Name = ''k8slabels''\<rparr>"

text \<open>The template is installed, then gone again.\<close>

definition ex_installed :: TemplateState where
  "ex_installed = fst (the (template_Reconcile (ex_template_env (Inr (ex_labels_template ''K8sLabels'')))
     ex_template_request ex_template_start))"

lemma ex_template_start_reachable: "template_reachable ex_oe ex_cache 0 1 ex_template_start"
proof (rule template_reachable.start)
  show "manager_ok ex_cache 0 1 (tp_wm ex_template_start)"
    unfolding manager_ok_def ex_template_start_def TemplateState.simps
    by (intro conjI wm_reachable.registrar wm_reachable.new; code_simp)
  show "\<forall>r g. r \<in> {0, 1} \<longrightarrow> \<not> follows_kind r g (tp_wm ex_template_start)"
    by (auto simp: ex_template_start_def follows_kind_def watching_def Registrar_Watching_def rk_Watching_def
        NewRegistrar_def New_Manager_def newRecordKeeper_def roster_def Let_def)
qed (simp_all add: ex_template_start_def)

lemma ex_installed_eq:
  "template_Reconcile (ex_template_env (Inr (ex_labels_template ''K8sLabels''))) ex_template_request ex_template_start =
    Some (ex_installed, Reconciled)"
  unfolding ex_installed_def by code_simp

lemma ex_tenv: "tenv_ok ex_oe ex_cache 0 1 (ex_template_env got)"
  by (simp add: tenv_ok_def ex_template_env_def)

lemma ex_installed_reachable: "template_reachable ex_oe ex_cache 0 1 ex_installed"
  by (rule template_reachable.template [OF ex_template_start_reachable ex_tenv _ ex_installed_eq])
    (simp add: answers_ok_def kind_stable_def ex_template_env_def ex_template_start_def ex_labels_template_def
      ex_template_request_def GetTemplate_def NewOpa_def)

section \<open>Watches and constraints have their template\<close>



section \<open>What a reconciliation of a template reaches\<close>


definition ex_removed :: TemplateState where
  "ex_removed = fst (the (template_Reconcile (ex_template_env (Inl (IsNotFound ''gone''))) ex_template_request ex_installed))"

lemma ex_removed_eq:
  "template_Reconcile (ex_template_env (Inl (IsNotFound ''gone''))) ex_template_request ex_installed = Some (ex_removed, Reconciled)"
  unfolding ex_removed_def by code_simp


text \<open>C22: when the reconciliation of a live template succeeds, either the template compiles, and then
  OPA has a template of the same kind and specification, both registrars watch its kind, its CRD has
  the specification of the template and the template as its owner, the pod's status for its UID
  and generation has no error, and the metrics count it as active; or it does not, and then
  OPA and the watches are what they were, and the status and the metrics have the errors. Every other
  template stays.\<close>

theorem template_installed:
  assumes "template_reachable oe cache w sw s" "names_lower oe" "tenv_ok oe cache w sw env" "answers_ok env request s"
    and "\<not> shutting_down (te_running env)" "crds_named s"
    and "te_Get env request = Inr ct" "\<not> ct_deleting ct"
    and "template_Reconcile env request s = Some (s', Reconciled)"
  shows "(case template_check oe (fst (template_finalize env ct)) of
      None \<Rightarrow>
        (\<exists>u. GetTemplate (ct_Name ct) (tp_opa s') = Some u \<and> template_SemanticEqual u (fst (template_finalize env ct))) \<and>
        kind_served env (fst (template_finalize env ct)) s' \<and> template_status s' (fst (template_finalize env ct)) [] \<and>
        mget (reg_cache (tp_registry s')) (req_Namespace request, req_Name request) = Some ActiveStatus
    | Some err \<Rightarrow>
        tp_opa s' = tp_opa s \<and> tp_wm s' = tp_wm s \<and>
        template_status s' (fst (template_finalize env ct)) (compile_errors env (fst (template_finalize env ct)) err) \<and>
        mget (reg_cache (tp_registry s')) (req_Namespace request, req_Name request) = Some ErrorStatus) \<and>
    (\<forall>m. m \<noteq> req_Name request \<longrightarrow> GetTemplate m (tp_opa s') = GetTemplate m (tp_opa s))"
proof -
  have inv: "template_inv oe cache w sw s" by (rule template_reachable_inv [OF assms(1,2)])
  obtain t res where t: "template_Reconcile env request s = Some (t, res)" "step_kept oe cache w sw (req_Name request) s t"
    "res = Reconciled \<longrightarrow> \<not> shutting_down (te_running env) \<longrightarrow> crds_named s \<longrightarrow> template_outcome env request s t"
    by (rule template_Reconcile_ok [OF inv assms(3,2,4)])
  then have s': "s' = t" "res = Reconciled" using assms(9) by simp_all
  have "template_result env request (fst (template_finalize env ct)) s s'"
    using t(3) s' assms(5-8) by (simp add: template_outcome_def)
  moreover have "te_oe env = oe" using assms(3) by (simp add: tenv_ok_def)
  moreover have "same_templates_but (req_Name request) s s'" using t(2) s' by (simp add: step_kept_def)
  ultimately show ?thesis
    by (simp add: template_result_def template_done_def template_finalize_fields same_templates_but_def split: option.splits)
qed

theorem template_installed_witness:
  "(\<exists>u. GetTemplate ''k8slabels'' (tp_opa ex_installed) = Some u \<and> ct_Kind u = ''K8sLabels'') \<and>
    kind_served (ex_template_env (Inr (ex_labels_template ''K8sLabels''))) (ex_labels_template ''K8sLabels'') ex_installed"
proof -
  let ?t = "ex_labels_template ''K8sLabels''" let ?e = "ex_template_env (Inr ?t)"
  have a: "answers_ok ?e ex_template_request ex_template_start"
    by (simp add: answers_ok_def kind_stable_def ex_template_env_def ex_template_start_def ex_labels_template_def
      ex_template_request_def GetTemplate_def NewOpa_def)
  have e: "\<not> shutting_down (te_running ?e)" "crds_named ex_template_start" "te_Get ?e ex_template_request = Inr ?t" "\<not> ct_deleting ?t"
    by (simp_all add: ex_template_env_def ex_template_start_def crds_named_def shutting_down_def ex_labels_template_def)
  have f: "fst (template_finalize ?e ?t) = ?t" "template_check ex_oe ?t = None" "ct_Name ?t = ''k8slabels''" "ct_Kind ?t = ''K8sLabels''"
    by code_simp+
  show ?thesis
    using template_installed [OF ex_template_start_reachable ex_names_lower ex_tenv a e ex_installed_eq] f
    by (auto simp: template_SemanticEqual_def)
qed

section \<open>What a reconciliation of a constraint reaches\<close>


definition ex_constraint_env :: ConstraintEnv where
  "ex_constraint_env = \<lparr>cn_running = None, cn_assumeDeleted = (\<lambda>_. False), cn_Get = (\<lambda>_ _. Inr ex_constraint_object),
     cn_timestamp = (\<lambda>_. False), cn_Update = (\<lambda>_. None), cn_client = ex_status_client, cn_oe = ex_oe,
     cn_OpaText = (\<lambda>_. ''opa''), cn_EnforceText = (\<lambda>_. ''action'')\<rparr>"

definition ex_constraint_state :: ConstraintState where
  "ex_constraint_state = \<lparr>cn_opa = tp_opa ex_installed, cn_cache = NewConstraintsCache, cn_tracker = tp_tracker ex_installed,
     cn_status = \<lparr>ss_store = [], ss_ops = newOperationSet\<rparr>\<rparr>"

definition ex_constraint_request :: Request where
  "ex_constraint_request = \<lparr>req_Namespace = [], req_Name = ''gvk:K8sLabels.v1beta1.constraints.gatekeeper.sh:must-have''\<rparr>"

definition ex_enforced :: ConstraintState where
  "ex_enforced = fst (constraint_Reconcile ex_constraint_env ex_constraint_request ex_constraint_state)"

lemma ex_enforced_eq:
  "constraint_Reconcile ex_constraint_env ex_constraint_request ex_constraint_state = (ex_enforced, Reconciled)"
  unfolding ex_enforced_def by code_simp


section \<open>Behaviours worth knowing\<close>

text \<open>The controller never drops the watch of the kind that a template had before: when only the spelling
  of the kind changes, so that the name and the CRD's name stay, the old kind goes on being watched
  while no template in OPA has it.\<close>

definition ex_respelt :: TemplateState where
  "ex_respelt = fst (the (template_Reconcile (ex_template_env (Inr (ex_labels_template ''k8slabels'')))
     ex_template_request ex_installed))"

lemma old_kind_still_watched:
  "template_Reconcile (ex_template_env (Inr (ex_labels_template ''k8slabels''))) ex_template_request ex_installed =
      Some (ex_respelt, Reconciled) \<and>
    map (\<lambda>(n, t). ct_Kind t) (oc_templates (tp_opa ex_respelt)) = [''k8slabels''] \<and>
    watching 0 (makeGvk ''K8sLabels'') (tp_wm ex_respelt)"
proof (intro conjI)
  show "template_Reconcile (ex_template_env (Inr (ex_labels_template ''k8slabels''))) ex_template_request ex_installed =
      Some (ex_respelt, Reconciled)" unfolding ex_respelt_def by code_simp
  show "map (\<lambda>(n, t). ct_Kind t) (oc_templates (tp_opa ex_respelt)) = [''k8slabels'']" by code_simp
  show "watching 0 (makeGvk ''K8sLabels'') (tp_wm ex_respelt)" unfolding watching_def by code_simp
qed

end
