(* ===== verification/Audit_Manager.thy ===== *)
theory Audit_Manager
  imports Constraint_Controller Excluder
begin

text \<open>
  The audit (\<open>pkg/audit/manager.go\<close>): at every interval the resources of the cluster are reviewed
  against the constraints, from OPA's cache or by listing them page by page, the violations are
  counted and gathered up to a limit for each constraint, and a loop writes them into the
  status of the constraints. The API server, the discovery client and the reviews are parameters.
\<close>

section \<open>Keys of constraints\<close>

definition kvr_tuple :: "'a KindVersionResource_scheme \<Rightarrow> string \<times> string \<times> string \<times> 'a" where
  "kvr_tuple k = (kvr_kind k, kvr_version k, kvr_resource k, KindVersionResource.more k)"

lemma kvr_tuple_inj: "kvr_tuple a = kvr_tuple b \<longleftrightarrow> a = b"
  by (cases a; cases b) (simp add: kvr_tuple_def)

instantiation KindVersionResource_ext :: (linorder) linorder
begin

definition less_eq_KindVersionResource_ext :: "'a KindVersionResource_scheme \<Rightarrow> 'a KindVersionResource_scheme \<Rightarrow> bool" where
  "less_eq_KindVersionResource_ext i j \<longleftrightarrow> kvr_tuple i \<le> kvr_tuple j"

definition less_KindVersionResource_ext :: "'a KindVersionResource_scheme \<Rightarrow> 'a KindVersionResource_scheme \<Rightarrow> bool" where
  "less_KindVersionResource_ext i j \<longleftrightarrow> kvr_tuple i < kvr_tuple j"

instance
  by standard (auto simp: less_eq_KindVersionResource_ext_def less_KindVersionResource_ext_def less_le_not_le
      kvr_tuple_inj dest: order.antisym)

end

section \<open>Data\<close>

text \<open>A result of a review; \<open>rs_Resource\<close> is \<open>None\<close> when it is not an unstructured object.\<close>

record AuditMsg =
  rs_Constraint :: object
  rs_EnforcementAction :: string
  rs_Msg :: string
  rs_Resource :: "object option"

record auditResult =
  ar_cname :: string
  ar_cnamespace :: string
  ar_cgvk :: GVK
  ar_capiversion :: string
  ar_rkind :: string
  ar_rname :: string
  ar_rnamespace :: string
  ar_message :: string
  ar_enforcementAction :: string
  ar_constraint :: object

record AuditFlags =
  af_limit :: "64 word"
  af_chunkSize :: "64 word"
  af_fromCache :: bool
  af_emitEvents :: bool
  af_matchKindOnly :: bool

record AuditReference =
  or_Kind :: string
  or_Name :: string
  or_UID :: string
  or_Namespace :: string

text \<open>An event; the format of the message is left to its arguments.\<close>

record AuditEvent =
  ev_ref :: AuditReference
  ev_annotations :: "(string, string) gomap"
  ev_args :: "string list"

type_synonym nsCache = "(string, NamespaceObj) gomap"

definition newNSCache :: nsCache where
  "newNSCache = []"

definition nsCache_Get :: "(string \<Rightarrow> string + NamespaceObj) \<Rightarrow> string \<Rightarrow> nsCache \<Rightarrow> nsCache \<times> (string + NamespaceObj)" where
  "nsCache_Get client namespace c =
     (case mget c namespace of
        Some ns \<Rightarrow> (c, Inr ns)
      | None \<Rightarrow>
          (case client namespace of
             Inl err \<Rightarrow> (c, Inl err)
           | Inr ns \<Rightarrow> (mput namespace ns c, Inr ns)))"

text \<open>What a run collects: the update lists, the two totals (\<open>int64\<close>), the events, the cache of the
  namespaces and the errors of reviews.\<close>

record AuditState =
  au_lists :: "(KindVersionResource, auditResult list) gomap"
  au_perConstraint :: "(KindVersionResource, 64 word) gomap"
  au_perAction :: "(string, 64 word) gomap"
  au_events :: "AuditEvent list"
  au_ns :: nsCache
  au_errs :: "string list"

definition audit_start :: AuditState where
  "audit_start = \<lparr>au_lists = [], au_perConstraint = [],
     au_perAction = foldr (\<lambda>action. mput action 0) KnownEnforcementActions [],
     au_events = [], au_ns = newNSCache, au_errs = []\<rparr>"

section \<open>Events\<close>

definition audit_getViolationRef :: "string \<Rightarrow> string \<Rightarrow> string \<Rightarrow> string \<Rightarrow> string \<Rightarrow> string \<Rightarrow> string \<Rightarrow> AuditReference" where
  "audit_getViolationRef gkNs rkind rname rnamespace ckind cname cnamespace =
     \<lparr>or_Kind = rkind, or_Name = rname,
      or_UID = rkind @ ''/'' @ rnamespace @ ''/'' @ rname @ ''/'' @ ckind @ ''/'' @ cnamespace @ ''/'' @ cname,
      or_Namespace = gkNs\<rparr>"

definition emitEvent :: "object \<Rightarrow> string \<Rightarrow> string \<Rightarrow> GVK \<Rightarrow> string \<Rightarrow> string \<Rightarrow> string \<Rightarrow> string \<Rightarrow> AuditEvent" where
  "emitEvent constraint timestamp enforcementAction rgvk rnamespace rname message gkNs =
     (let annotations =
        [(''process'', ''audit''), (''auditTimestamp'', timestamp), (''event_type'', ''violation_audited''),
         (''constraint_group'', gvk_Group (GroupVersionKind constraint)),
         (''constraint_api_version'', gvk_Version (GroupVersionKind constraint)),
         (''constraint_kind'', getNestedString constraint [''kind'']), (''constraint_name'', GetName constraint),
         (''constraint_namespace'', GetNamespace constraint), (''constraint_action'', enforcementAction),
         (''resource_group'', gvk_Group rgvk), (''resource_api_version'', gvk_Version rgvk),
         (''resource_kind'', gvk_Kind rgvk), (''resource_namespace'', rnamespace), (''resource_name'', rname)]
      in \<lparr>ev_ref = audit_getViolationRef gkNs (gvk_Kind rgvk) rname rnamespace
                   (getNestedString constraint [''kind'']) (GetName constraint) (GetNamespace constraint),
          ev_annotations = foldr (\<lambda>(k, v). mput k v) annotations [],
          ev_args = [timestamp, rnamespace, GetName constraint, message]\<rparr>)"

section \<open>Counting and gathering\<close>

text \<open>\<open>m[k]++\<close> and \<open>m[k]\<close> of a map of integers.\<close>

definition mcount :: "('k, 64 word) gomap \<Rightarrow> 'k \<Rightarrow> 64 word" where
  "mcount m k = (case mget m k of Some n \<Rightarrow> n | None \<Rightarrow> 0)"

definition mincr :: "'k::linorder \<Rightarrow> ('k, 64 word) gomap \<Rightarrow> ('k, 64 word) gomap" where
  "mincr k m = mput k (mcount m k + 1) m"

text \<open>\<open>updateLists[key]\<close>, nil when absent.\<close>

definition mlist :: "('k, 'v list) gomap \<Rightarrow> 'k \<Rightarrow> 'v list" where
  "mlist m k = (case mget m k of Some xs \<Rightarrow> xs | None \<Rightarrow> [])"

definition audit_result :: "AuditMsg \<Rightarrow> object \<Rightarrow> auditResult" where
  "audit_result r resource =
     \<lparr>ar_cname = GetName (rs_Constraint r), ar_cnamespace = GetNamespace (rs_Constraint r),
      ar_cgvk = GroupVersionKind (rs_Constraint r), ar_capiversion = getNestedString (rs_Constraint r) [''apiVersion''],
      ar_rkind = getNestedString resource [''kind''], ar_rname = GetName resource, ar_rnamespace = GetNamespace resource,
      ar_message = rs_Msg r, ar_enforcementAction = rs_EnforcementAction r, ar_constraint = rs_Constraint r\<rparr>"

text \<open>A cast that fails stops the loop, after the count of that result. \<open>Inl\<close> keeps what was collected.\<close>

fun addAuditResponsesToUpdateLists ::
    "AuditFlags \<Rightarrow> string \<Rightarrow> string \<Rightarrow> AuditMsg list \<Rightarrow> AuditState \<Rightarrow> AuditState \<times> string option" where
  "addAuditResponsesToUpdateLists fl gkNs timestamp [] s = (s, None)"
| "addAuditResponsesToUpdateLists fl gkNs timestamp (r # res) s =
     (let k = GetUniqueKey (rs_Constraint r);
          s = s\<lparr>au_perConstraint := mincr k (au_perConstraint s)\<rparr>
      in case rs_Resource r of
           None \<Rightarrow> (s, Some ''could not cast resource as reviewResource'')
         | Some resource \<Rightarrow>
             (let rname = GetName resource; rnamespace = GetNamespace resource;
                  s = (if word_of_nat (length (mlist (au_lists s) k)) < af_limit fl
                       then s\<lparr>au_lists := mput k (mlist (au_lists s) k @ [audit_result r resource]) (au_lists s)\<rparr>
                       else s);
                  s = s\<lparr>au_perAction := mincr (rs_EnforcementAction r) (au_perAction s)\<rparr>;
                  s = (if af_emitEvents fl
                       then s\<lparr>au_events := au_events s @ [emitEvent (rs_Constraint r) timestamp (rs_EnforcementAction r)
                              (GroupVersionKind resource) rnamespace rname (rs_Msg r) gkNs]\<rparr>
                       else s)
              in addAuditResponsesToUpdateLists fl gkNs timestamp res s))"

section \<open>Kinds\<close>

text \<open>\<open>unstructured.NestedSlice\<close>: the slice, if it was found, or an error.\<close>

definition NestedSlice :: "object \<Rightarrow> string list \<Rightarrow> string + val list option" where
  "NestedSlice ob fs =
     (case NestedFieldNoCopy (VMap ob) fs of
        Inl err \<Rightarrow> Inl err
      | Inr None \<Rightarrow> Inr None
      | Inr (Some (VList vs)) \<Rightarrow> Inr (Some vs)
      | Inr (Some _) \<Rightarrow> Inl ''accessor error'')"

text \<open>The kinds that the constraints name; \<open>MatchAll\<close> is the jump out of the loops with \<open>*\<close>. The
  unchecked cast of a kind to a string panics.\<close>

datatype matched = MatchKinds "string set" | MatchAll | MatchPanic

fun match_names :: "val list \<Rightarrow> string set \<Rightarrow> matched" where
  "match_names [] ks = MatchKinds ks"
| "match_names (VString kk # vs) ks = (if kk = [] \<or> kk = ''*'' then MatchAll else match_names vs (insert kk ks))"
| "match_names (_ # vs) ks = MatchPanic"

fun match_entries :: "val list \<Rightarrow> string set \<Rightarrow> matched" where
  "match_entries [] ks = MatchKinds ks"
| "match_entries (VMap kind # vs) ks =
     (case NestedSlice kind [''kinds''] of
        Inl err \<Rightarrow> match_entries vs ks
      | Inr names \<Rightarrow>
          (case match_names (case names of Some ns \<Rightarrow> ns | None \<Rightarrow> []) ks of
             MatchKinds ks' \<Rightarrow> match_entries vs ks'
           | m \<Rightarrow> m))"
| "match_entries (_ # vs) ks = match_entries vs ks"

fun match_constraints :: "object list \<Rightarrow> string set \<Rightarrow> matched" where
  "match_constraints [] ks = MatchKinds ks"
| "match_constraints (c # cs) ks =
     (case NestedSlice c [''spec'', ''match'', ''kinds''] of
        Inl err \<Rightarrow> MatchAll
      | Inr None \<Rightarrow> MatchAll
      | Inr (Some entries) \<Rightarrow>
          (case match_entries entries ks of
             MatchKinds ks' \<Rightarrow> match_constraints cs ks'
           | m \<Rightarrow> m))"

fun matchedKinds :: "(GVK \<Rightarrow> string + object list) \<Rightarrow> GVK list \<Rightarrow> string set \<Rightarrow> matched" where
  "matchedKinds List [] ks = MatchKinds ks"
| "matchedKinds List (c # cs) ks =
     (case List c of
        Inl err \<Rightarrow> matchedKinds List cs ks
      | Inr items \<Rightarrow>
          (case match_constraints items ks of
             MatchKinds ks' \<Rightarrow> matchedKinds List cs ks'
           | m \<Rightarrow> m))"

definition kind_matched :: "matched \<Rightarrow> string \<Rightarrow> bool" where
  "kind_matched m kind = (case m of MatchKinds ks \<Rightarrow> kind \<in> ks \<or> ''*'' \<in> ks | MatchAll \<Rightarrow> True | MatchPanic \<Rightarrow> False)"

text \<open>The resources of the API server that can be listed, by group and version.\<close>

record APIResource =
  rc_Kind :: string
  rc_Verbs :: "string list"

record APIResourceList =
  rl_GroupVersion :: string
  rl_APIResources :: "APIResource list"

definition list_kinds :: "APIResource list \<Rightarrow> (string, bool) gomap \<Rightarrow> (string, bool) gomap" where
  "list_kinds rs m = fold (\<lambda>r m. if ''list'' \<in> set (rc_Verbs r) then mput (rc_Kind r) True m else m) rs m"

fun clusterAPIResources ::
    "APIResourceList list \<Rightarrow> (string \<times> string, (string, bool) gomap) gomap \<Rightarrow> (string \<times> string, (string, bool) gomap) gomap" where
  "clusterAPIResources [] m = m"
| "clusterAPIResources (rl # rls) m =
     (case ParseGroupVersion (rl_GroupVersion rl) of
        None \<Rightarrow> clusterAPIResources rls m
      | Some gv \<Rightarrow>
          clusterAPIResources rls
            (mput gv (list_kinds (rl_APIResources rl) (case mget m gv of Some ks \<Rightarrow> ks | None \<Rightarrow> [])) m))"

text \<open>\<open>getAllConstraintKinds\<close>: the kinds of the constraints' group without duplicates.\<close>

definition getAllConstraintKinds :: "(string + APIResource list) \<Rightarrow> string + GVK list" where
  "getAllConstraintKinds l =
     (case l of
        Inl err \<Rightarrow> Inl err
      | Inr rs \<Rightarrow> Inr (mkeys (fold (\<lambda>r m. mput (GVK ''constraints.gatekeeper.sh'' ''v1beta1'' (rc_Kind r)) True m) rs [])))"

section \<open>Auditing the resources of the cluster\<close>

text \<open>A page of a listing; the next one starts at its \<open>continue\<close> token.\<close>

record ListPage =
  lp_items :: "object list"
  lp_continue :: string

text \<open>\<open>ae_List\<close> answers the listing of a kind with a limit from a token, \<open>ae_Review\<close> the review of an object
  with its namespace (the empty one for an object without), \<open>ae_order\<close> the order in which
  Go iterates over the kinds.\<close>

record AuditEnv =
  ae_client :: "string option"
  ae_CRD :: "string option"
  ae_constraintKinds :: "string + APIResource list"
  ae_discovery :: "string + APIResourceList list"
  ae_order :: "((string \<times> string) \<times> string) list \<Rightarrow> ((string \<times> string) \<times> string) list"
  ae_constraints :: "GVK \<Rightarrow> string + object list"
  ae_List :: "GVK \<Rightarrow> 64 word \<Rightarrow> string \<Rightarrow> string + ListPage"
  ae_Namespace :: "string \<Rightarrow> string + NamespaceObj"
  ae_excluder :: Excluder
  ae_Review :: "object \<Rightarrow> NamespaceObj \<Rightarrow> string + AuditMsg list"
  ae_Audit :: "string + AuditMsg list"
  ae_gkNs :: string
  ae_timestamp :: string

text \<open>An error of the excluder is logged, and the object audited.\<close>

definition audit_skipExcludedNamespace :: "Excluder \<Rightarrow> object \<Rightarrow> ExcluderErr + bool" where
  "audit_skipExcludedNamespace ex obj = IsNamespaceExcluded ''audit'' (runtime_object obj) ex"

definition audit_object :: "AuditEnv \<Rightarrow> AuditFlags \<Rightarrow> object \<Rightarrow> AuditState \<Rightarrow> AuditState \<times> string option" where
  "audit_object env fl obj s =
     (if (case audit_skipExcludedNamespace (ae_excluder env) obj of Inl _ \<Rightarrow> False | Inr b \<Rightarrow> b) then (s, None)
      else
        (let (c, got) = (if GetNamespace obj = [] then (au_ns s, Inr \<lparr>ns_Name = [], ns_Labels = []\<rparr>)
                         else nsCache_Get (ae_Namespace env) (GetNamespace obj) (au_ns s));
             s = s\<lparr>au_ns := c\<rparr>
         in case got of
              Inl _ \<Rightarrow> (s, None)
            | Inr ns \<Rightarrow>
                (case ae_Review env obj ns of
                   Inl err \<Rightarrow> (s\<lparr>au_errs := au_errs s @ [err]\<rparr>, None)
                 | Inr res \<Rightarrow> addAuditResponsesToUpdateLists fl (ae_gkNs env) (ae_timestamp env) res s)))"

fun audit_items :: "AuditEnv \<Rightarrow> AuditFlags \<Rightarrow> object list \<Rightarrow> AuditState \<Rightarrow> AuditState \<times> string option" where
  "audit_items env fl [] s = (s, None)"
| "audit_items env fl (obj # objs) s =
     (case audit_object env fl obj s of
        (s, Some err) \<Rightarrow> (s, Some err)
      | (s, None) \<Rightarrow> audit_items env fl objs s)"

text \<open>The loop over the pages of a kind; a listing that fails ends it. \<open>None\<close> is a listing that has not
  ended after \<open>fuel\<close> pages.\<close>

fun audit_pages ::
    "nat \<Rightarrow> AuditEnv \<Rightarrow> AuditFlags \<Rightarrow> GVK \<Rightarrow> string \<Rightarrow> AuditState \<Rightarrow> (AuditState \<times> string option) option" where
  "audit_pages 0 env fl gvk token s = None"
| "audit_pages (Suc fuel) env fl gvk token s =
     (case ae_List env gvk (af_chunkSize fl) token of
        Inl _ \<Rightarrow> Some (s, None)
      | Inr page \<Rightarrow>
          (case audit_items env fl (lp_items page) s of
             (s, Some err) \<Rightarrow> Some (s, Some err)
           | (s, None) \<Rightarrow>
               if lp_continue page = [] then Some (s, None)
               else audit_pages fuel env fl gvk (lp_continue page) s))"

definition list_gvk :: "(string \<times> string) \<times> string \<Rightarrow> GVK" where
  "list_gvk t = GVK (fst (fst t)) (snd (fst t)) (snd t @ ''List'')"

fun audit_kinds ::
    "nat \<Rightarrow> AuditEnv \<Rightarrow> AuditFlags \<Rightarrow> matched \<Rightarrow> ((string \<times> string) \<times> string) list \<Rightarrow> AuditState \<Rightarrow> (AuditState \<times> string option) option" where
  "audit_kinds fuel env fl m [] s = Some (s, None)"
| "audit_kinds fuel env fl m (t # ts) s =
     (if \<not> kind_matched m (snd t) then audit_kinds fuel env fl m ts s
      else (case audit_pages fuel env fl (list_gvk t) [] s of
         None \<Rightarrow> None
       | Some (s, Some err) \<Rightarrow> Some (s, Some err)
       | Some (s, None) \<Rightarrow> audit_kinds fuel env fl m ts s))"

text \<open>The pairs of the nested loop over \<open>clusterAPIResources\<close>.\<close>

definition audit_targets :: "APIResourceList list \<Rightarrow> ((string \<times> string) \<times> string) list" where
  "audit_targets rls = concat (map (\<lambda>(gv, ks). map (\<lambda>k. (gv, k)) (mkeys ks)) (clusterAPIResources rls []))"

text \<open>The errors of the reviews are joined to one.\<close>

datatype AuditOutcome =
    AuditPanic
  | AuditErr "string list"
  | AuditSkipped
  | AuditDone AuditState

definition auditResources :: "nat \<Rightarrow> AuditEnv \<Rightarrow> AuditFlags \<Rightarrow> GVK list \<Rightarrow> AuditState \<Rightarrow> AuditOutcome option" where
  "auditResources fuel env fl constraintsGVKs s =
     (case ae_discovery env of
        Inl err \<Rightarrow> Some (AuditErr [err])
      | Inr rls \<Rightarrow>
          (case (if af_matchKindOnly fl then matchedKinds (ae_constraints env) constraintsGVKs {} else MatchAll) of
             MatchPanic \<Rightarrow> Some AuditPanic
           | m \<Rightarrow>
               (case audit_kinds fuel env fl m (ae_order env (audit_targets rls)) s of
                  None \<Rightarrow> None
                | Some (s, Some err) \<Rightarrow> Some (AuditErr [err])
                | Some (s, None) \<Rightarrow> Some (if au_errs s = [] then AuditDone s else AuditErr (au_errs s)))))"

definition audit :: "nat \<Rightarrow> AuditEnv \<Rightarrow> AuditFlags \<Rightarrow> AuditOutcome option" where
  "audit fuel env fl =
     (case ae_client env of
        Some err \<Rightarrow> Some (AuditErr [err])
      | None \<Rightarrow>
          (case ae_CRD env of
             Some _ \<Rightarrow> Some AuditSkipped
           | None \<Rightarrow>
               (case getAllConstraintKinds (ae_constraintKinds env) of
                  Inl _ \<Rightarrow> Some AuditSkipped
                | Inr constraintsGVKs \<Rightarrow>
                    if af_fromCache fl then
                      (case ae_Audit env of
                         Inl err \<Rightarrow> Some (AuditErr [err])
                       | Inr res \<Rightarrow>
                           (case addAuditResponsesToUpdateLists fl (ae_gkNs env) (ae_timestamp env) res audit_start of
                              (s, Some err) \<Rightarrow> Some (AuditErr [err])
                            | (s, None) \<Rightarrow> Some (AuditDone s)))
                    else auditResources fuel env fl constraintsGVKs audit_start)))"

section \<open>Writing the results\<close>

definition msgSize :: nat where
  "msgSize = 256"

definition truncateString :: "string \<Rightarrow> nat \<Rightarrow> string" where
  "truncateString str sz =
     (if length str > sz then take (if sz > 3 then sz - 3 else sz) str @ ''...'' else str)"

text \<open>The violations of a status: at most the limit, with cut messages.\<close>

record StatusViolation =
  sv_Kind :: string
  sv_Name :: string
  sv_Namespace :: string
  sv_Message :: string
  sv_EnforcementAction :: string

fun status_violations :: "64 word \<Rightarrow> auditResult list \<Rightarrow> StatusViolation list \<Rightarrow> StatusViolation list" where
  "status_violations limit [] vs = vs"
| "status_violations limit (ar # ars) vs =
     status_violations limit ars
       (if word_of_nat (length vs) < limit
        then vs @ [\<lparr>sv_Kind = ar_rkind ar, sv_Name = ar_rname ar, sv_Namespace = ar_rnamespace ar,
               sv_Message = (if length (ar_message ar) > msgSize then truncateString (ar_message ar) msgSize else ar_message ar),
               sv_EnforcementAction = ar_enforcementAction ar\<rparr>]
        else vs)"

text \<open>What \<open>encoding/json\<close> makes of a string and back: each malformed byte becomes U+FFFD.\<close>

function json_text :: "string \<Rightarrow> string" where
  "json_text [] = []"
| "json_text (c # s) = (let (r, w) = DecodeRuneInString (c # s) in EncodeRune r @ json_text (drop (max 1 w) (c # s)))"
  by pat_completeness auto
termination by (relation "measure length") auto

definition json_violation :: "StatusViolation \<Rightarrow> val" where
  "json_violation v =
     VMap ([(''enforcementAction'', VString (json_text (sv_EnforcementAction v))), (''kind'', VString (json_text (sv_Kind v))),
            (''message'', VString (json_text (sv_Message v))), (''name'', VString (json_text (sv_Name v)))] @
           (if sv_Namespace v = [] then [] else [(''namespace'', VString (json_text (sv_Namespace v)))]))"

text \<open>The object that \<open>updateConstraintStatus\<close> hands to the client, or an error.\<close>

definition constraint_with_status :: "64 word \<Rightarrow> object \<Rightarrow> auditResult list \<Rightarrow> string \<Rightarrow> 64 word \<Rightarrow> string + object" where
  "constraint_with_status limit instance auditResults timestamp totalViolations =
     (let violations = map json_violation (status_violations limit auditResults []) in
      case SetNestedField instance (VString timestamp) [''status'', ''auditTimestamp''] of
        Inl err \<Rightarrow> Inl err
      | Inr ob \<Rightarrow>
          (case SetNestedField ob (VInt totalViolations) [''status'', ''totalViolations''] of
             Inl err \<Rightarrow> Inl err
           | Inr ob \<Rightarrow>
               if violations = [] then
                 (case NestedSlice ob [''status'', ''violations''] of
                    Inl err \<Rightarrow> Inl err
                  | Inr found \<Rightarrow> Inr (if found \<noteq> None then RemoveNestedField ob [''status'', ''violations''] else ob))
               else SetNestedField ob (VList violations) [''status'', ''violations'']))"

section \<open>The update loop\<close>

text \<open>The environment of one loop: the listing of the constraints, the order of Go's iteration, whether the
  loop is told to stop, and what the API server answers, each by round. \<open>ue_ul\<close> and \<open>ue_tv\<close> are the
  results of the audit.\<close>

record UpdateEnv =
  ue_limit :: "64 word"
  ue_ts :: string
  ue_ul :: "(KindVersionResource, auditResult list) gomap"
  ue_tv :: "(KindVersionResource, 64 word) gomap"
  ue_stopList :: "GVK \<Rightarrow> bool"
  ue_List :: "GVK \<Rightarrow> string + object list"
  ue_order :: "nat \<Rightarrow> KindVersionResource list \<Rightarrow> KindVersionResource list"
  ue_stop :: "nat \<Rightarrow> KindVersionResource \<Rightarrow> bool"
  ue_Get :: "nat \<Rightarrow> KindVersionResource \<Rightarrow> GetErr + object"
  ue_Update :: "nat \<Rightarrow> object \<Rightarrow> string option"

text \<open>The constraints that wait for their status, and the objects written so far.\<close>

record UpdateState =
  up_uc :: "(KindVersionResource, object) gomap"
  up_written :: "object list"

definition add_items :: "object list \<Rightarrow> (KindVersionResource, object) gomap \<Rightarrow> (KindVersionResource, object) gomap" where
  "add_items items uc = fold (\<lambda>item. mput (GetUniqueKey item) item) items uc"

text \<open>\<open>None\<close> is a stop.\<close>

fun collect_constraints :: "UpdateEnv \<Rightarrow> GVK list \<Rightarrow> (KindVersionResource, object) gomap \<Rightarrow> (KindVersionResource, object) gomap option" where
  "collect_constraints env [] uc = Some uc"
| "collect_constraints env (g # gs) uc =
     (if ue_stopList env g then None
      else collect_constraints env gs (case ue_List env g of Inl _ \<Rightarrow> uc | Inr items \<Rightarrow> add_items items uc))"

text \<open>One constraint in one round. An object that is not found is taken off the list, and its status is
  updated all the same, on the copy of the listing.\<close>

definition update_item :: "UpdateEnv \<Rightarrow> nat \<Rightarrow> KindVersionResource \<Rightarrow> object \<Rightarrow> UpdateState \<Rightarrow> UpdateState" where
  "update_item env rnd k item s =
     (case ue_Get env rnd k of
        Inl (GetFailed _) \<Rightarrow> s
      | got \<Rightarrow>
          (let latestItem = (case got of Inr ob \<Rightarrow> ob | Inl _ \<Rightarrow> item);
               s = (case got of Inl _ \<Rightarrow> s\<lparr>up_uc := mdel k (up_uc s)\<rparr> | Inr _ \<Rightarrow> s);
               latestKey = GetUniqueKey latestItem
           in case constraint_with_status (ue_limit env) latestItem (mlist (ue_ul env) latestKey) (ue_ts env)
                     (mcount (ue_tv env) latestKey) of
                Inl _ \<Rightarrow> s
              | Inr ob \<Rightarrow>
                  (case ue_Update env rnd ob of
                     Some _ \<Rightarrow> s
                   | None \<Rightarrow> s\<lparr>up_written := up_written s @ [ob], up_uc := mdel k (up_uc s)\<rparr>)))"

text \<open>A round over the constraints; the result is whether it was stopped.\<close>

fun update_round :: "UpdateEnv \<Rightarrow> nat \<Rightarrow> KindVersionResource list \<Rightarrow> UpdateState \<Rightarrow> UpdateState \<times> bool" where
  "update_round env rnd [] s = (s, False)"
| "update_round env rnd (k # ks) s =
     (if ue_stop env rnd k then (s, True)
      else update_round env rnd ks
        (case mget (up_uc s) k of Some item \<Rightarrow> update_item env rnd k item s | None \<Rightarrow> s))"

text \<open>\<open>wait.ExponentialBackoff\<close> runs the round up to its number of steps, until it is done; \<open>False\<close> is the
  error that the steps are used up.\<close>

fun update_rounds :: "UpdateEnv \<Rightarrow> nat \<Rightarrow> nat \<Rightarrow> UpdateState \<Rightarrow> UpdateState \<times> bool" where
  "update_rounds env 0 rnd s = (s, False)"
| "update_rounds env (Suc steps) rnd s =
     (case update_round env rnd (ue_order env rnd (mkeys (up_uc s))) s of
        (s, True) \<Rightarrow> (s, True)
      | (s, False) \<Rightarrow> if up_uc s = [] then (s, True) else update_rounds env steps (rnd + 1) s)"

definition update_steps :: nat where
  "update_steps = 5"

definition update_loop :: "UpdateEnv \<Rightarrow> GVK list \<Rightarrow> UpdateState \<times> bool" where
  "update_loop env constraintsGVKs =
     (case collect_constraints env constraintsGVKs [] of
        None \<Rightarrow> (\<lparr>up_uc = [], up_written = []\<rparr>, True)
      | Some uc \<Rightarrow>
          if uc = [] then (\<lparr>up_uc = [], up_written = []\<rparr>, True)
          else update_rounds env update_steps 0 \<lparr>up_uc = uc, up_written = []\<rparr>)"

section \<open>Loops of the manager\<close>

text \<open>Each run starts an update loop of its own; a loop that is still there is told to stop first, by
  closing its channel. Closing it twice would panic (\<open>None\<close>).\<close>

record UcLoop =
  ul_stopped :: bool
  ul_ul :: "(KindVersionResource, auditResult list) gomap"
  ul_tv :: "(KindVersionResource, 64 word) gomap"
  ul_ts :: string

record AuditManager =
  am_loops :: "UcLoop list"
  am_ucloop :: "nat option"

definition New_AuditManager :: AuditManager where
  "New_AuditManager = \<lparr>am_loops = [], am_ucloop = None\<rparr>"

definition writeAuditResults :: "AuditState \<Rightarrow> string \<Rightarrow> AuditManager \<Rightarrow> AuditManager option" where
  "writeAuditResults s timestamp am =
     (let new = \<lparr>ul_stopped = False, ul_ul = au_lists s, ul_tv = au_perConstraint s, ul_ts = timestamp\<rparr>;
          start = (\<lambda>ls. \<lparr>am_loops = ls @ [new], am_ucloop = Some (length ls)\<rparr>)
      in case am_ucloop am of
           None \<Rightarrow> Some (start (am_loops am))
         | Some i \<Rightarrow>
             if ul_stopped (am_loops am ! i) then None
             else Some (start ((am_loops am)[i := (am_loops am ! i)\<lparr>ul_stopped := True\<rparr>])))"

text \<open>One tick of \<open>auditManagerLoop\<close>; only an audit that is done starts a loop, and one that has not ended has
  changed nothing.\<close>

definition audit_tick :: "nat \<Rightarrow> AuditEnv \<Rightarrow> AuditFlags \<Rightarrow> AuditManager \<Rightarrow> AuditManager option" where
  "audit_tick fuel env fl am =
     (case audit fuel env fl of
        Some (AuditDone s) \<Rightarrow> writeAuditResults s (ae_timestamp env) am
      | Some AuditPanic \<Rightarrow> None
      | _ \<Rightarrow> Some am)"

end
