(* ===== verification/Audit_Facts.thy ===== *)
theory Audit_Facts
  imports Audit_Manager
begin

text \<open>Facts on the audit: what is counted and gathered, which kinds are matched, what a status
  holds, and what the rounds of an update loop reach.\<close>

section \<open>Counting and gathering\<close>

text \<open>The results for a constraint, and the entries made of them.\<close>

definition of_key :: "KindVersionResource \<Rightarrow> AuditMsg list \<Rightarrow> AuditMsg list" where
  "of_key k rs = filter (\<lambda>r. GetUniqueKey (rs_Constraint r) = k) rs"

definition entries_of :: "AuditMsg list \<Rightarrow> auditResult list" where
  "entries_of rs = map (\<lambda>r. audit_result r (the (rs_Resource r))) rs"

definition event_of :: "string \<Rightarrow> string \<Rightarrow> AuditMsg \<Rightarrow> AuditEvent" where
  "event_of gkNs timestamp r =
     emitEvent (rs_Constraint r) timestamp (rs_EnforcementAction r) (GroupVersionKind (the (rs_Resource r)))
       (GetNamespace (the (rs_Resource r))) (GetName (the (rs_Resource r))) (rs_Msg r) gkNs"

text \<open>The state holds exactly what the results ask for: the first ones of each constraint up to the limit, and
  every one of them counted.\<close>

definition counted :: "AuditFlags \<Rightarrow> string \<Rightarrow> string \<Rightarrow> AuditMsg list \<Rightarrow> AuditState \<Rightarrow> bool" where
  "counted fl gkNs timestamp rs s \<longleftrightarrow>
     (\<forall>k. mlist (au_lists s) k = take (unat (af_limit fl)) (entries_of (of_key k rs))) \<and>
     (\<forall>k. mget (au_lists s) k \<noteq> Some []) \<and>
     (\<forall>k. mcount (au_perConstraint s) k = word_of_nat (length (of_key k rs))) \<and>
     (\<forall>a. mcount (au_perAction s) a = word_of_nat (length (filter (\<lambda>r. rs_EnforcementAction r = a) rs))) \<and>
     au_events s = (if af_emitEvents fl then map (event_of gkNs timestamp) rs else [])"

lemma mcount_mincr: "mcount (mincr k m) j = mcount m j + (if j = k then 1 else 0)"
  by (simp add: mcount_def mincr_def)

lemma mlist_mput: "mlist (mput k xs m) j = (if j = k then xs else mlist m j)"
  by (simp add: mlist_def)

lemma counted_start: "counted fl gkNs timestamp [] audit_start"
  by (simp add: counted_def audit_start_def of_key_def entries_of_def mlist_def mcount_def KnownEnforcementActions_def)

lemma of_key_append: "of_key k (rs @ qs) = of_key k rs @ of_key k qs"
  by (simp add: of_key_def)

lemma entries_append: "entries_of (rs @ qs) = entries_of rs @ entries_of qs"
  by (simp add: entries_of_def)

text \<open>The guard on the length, on words.\<close>

lemma below_limit:
  fixes limit :: "64 word"
  assumes "xs = take (unat limit) ys"
  shows "word_of_nat (length xs) < limit \<longleftrightarrow> length ys < unat limit"
proof -
  have l: "length xs \<le> unat limit" using assms by simp
  have "unat limit < 2 ^ 64" using unsigned_less [of limit, where ?'a = nat] by simp
  then have u: "unat (word_of_nat (length xs) :: 64 word) = length xs"
    using l by (simp add: unat_of_nat)
  have "word_of_nat (length xs) < limit \<longleftrightarrow> length xs < unat limit"
    unfolding word_less_nat_alt u ..
  then show ?thesis using assms by auto
qed

text \<open>One result more.\<close>

definition count_one :: "AuditFlags \<Rightarrow> string \<Rightarrow> string \<Rightarrow> AuditMsg \<Rightarrow> object \<Rightarrow> AuditState \<Rightarrow> AuditState" where
  "count_one fl gkNs timestamp r resource s =
     (let k = GetUniqueKey (rs_Constraint r);
          s = s\<lparr>au_perConstraint := mincr k (au_perConstraint s)\<rparr>;
          s = (if word_of_nat (length (mlist (au_lists s) k)) < af_limit fl
               then s\<lparr>au_lists := mput k (mlist (au_lists s) k @ [audit_result r resource]) (au_lists s)\<rparr>
               else s);
          s = s\<lparr>au_perAction := mincr (rs_EnforcementAction r) (au_perAction s)\<rparr>
      in (if af_emitEvents fl
          then s\<lparr>au_events := au_events s @ [emitEvent (rs_Constraint r) timestamp (rs_EnforcementAction r)
                 (GroupVersionKind resource) (GetNamespace resource) (GetName resource) (rs_Msg r) gkNs]\<rparr>
          else s))"

lemma add_one:
  "rs_Resource r = Some resource \<Longrightarrow>
   addAuditResponsesToUpdateLists fl gkNs timestamp (r # res) s =
     addAuditResponsesToUpdateLists fl gkNs timestamp res (count_one fl gkNs timestamp r resource s)"
  by (simp add: count_one_def Let_def)

lemma count_one_lists:
  assumes "rs_Resource r = Some resource"
    "\<And>k. mlist (au_lists s) k = take (unat (af_limit fl)) (entries_of (of_key k rs))"
    "\<And>k. mget (au_lists s) k \<noteq> Some []"
  shows "mlist (au_lists (count_one fl gkNs timestamp r resource s)) k =
      take (unat (af_limit fl)) (entries_of (of_key k (rs @ [r])))"
    "mget (au_lists (count_one fl gkNs timestamp r resource s)) k \<noteq> Some []"
proof -
  let ?k = "GetUniqueKey (rs_Constraint r)" and ?n = "unat (af_limit fl)"
  let ?l = "mlist (au_lists s) ?k"
  have lists: "au_lists (count_one fl gkNs timestamp r resource s) =
      (if word_of_nat (length ?l) < af_limit fl then mput ?k (?l @ [audit_result r resource]) (au_lists s) else au_lists s)"
    by (simp add: count_one_def Let_def)
  have b: "word_of_nat (length ?l) < af_limit fl \<longleftrightarrow> length (entries_of (of_key ?k rs)) < ?n"
    by (rule below_limit) (rule assms(2))
  have e: "entries_of (of_key k (rs @ [r])) = entries_of (of_key k rs) @ (if k = ?k then [audit_result r resource] else [])" for k
    using assms(1) by (simp add: of_key_def entries_of_def)
  show "mlist (au_lists (count_one fl gkNs timestamp r resource s)) k = take ?n (entries_of (of_key k (rs @ [r])))"
    unfolding lists e using b assms(2) [of ?k] assms(2) [of k] by (auto simp: mlist_mput)
  show "mget (au_lists (count_one fl gkNs timestamp r resource s)) k \<noteq> Some []"
    unfolding lists using assms(3) [of k] by simp
qed

lemma count_one_counted:
  assumes "counted fl gkNs timestamp rs s" "rs_Resource r = Some resource"
  shows "counted fl gkNs timestamp (rs @ [r]) (count_one fl gkNs timestamp r resource s)"
proof -
  have c: "au_perConstraint (count_one fl gkNs timestamp r resource s) = mincr (GetUniqueKey (rs_Constraint r)) (au_perConstraint s)"
    "au_perAction (count_one fl gkNs timestamp r resource s) = mincr (rs_EnforcementAction r) (au_perAction s)"
    "au_events (count_one fl gkNs timestamp r resource s) =
      au_events s @ (if af_emitEvents fl then [event_of gkNs timestamp r] else [])"
    using assms(2) by (simp_all add: count_one_def Let_def event_of_def)
  note l = count_one_lists [OF assms(2), of s fl rs gkNs timestamp]
  show ?thesis
    using assms(1) l unfolding counted_def c
    by (simp add: mcount_mincr of_key_def)
qed

lemma count_one_rest [simp]:
  "au_ns (count_one fl gkNs timestamp r resource s) = au_ns s"
  "au_errs (count_one fl gkNs timestamp r resource s) = au_errs s"
  by (simp_all add: count_one_def Let_def)

lemma addAuditResponses_counted:
  assumes "addAuditResponsesToUpdateLists fl gkNs timestamp rs s = (s', None)" "counted fl gkNs timestamp qs s"
  shows "counted fl gkNs timestamp (qs @ rs) s' \<and> au_ns s' = au_ns s \<and> au_errs s' = au_errs s"
  using assms
proof (induction rs arbitrary: s qs)
  case (Cons r rs)
  obtain resource where r: "rs_Resource r = Some resource"
    using Cons.prems(1) by (cases "rs_Resource r") (auto simp: Let_def)
  show ?case
    using Cons.IH [OF Cons.prems(1) [unfolded add_one [OF r]] count_one_counted [OF Cons.prems(2) r]] by simp
qed simp

text \<open>The loop fails exactly at a result that is not about an unstructured object.\<close>

lemma addAuditResponses_ok:
  assumes "\<And>r. r \<in> set rs \<Longrightarrow> rs_Resource r \<noteq> None"
  shows "snd (addAuditResponsesToUpdateLists fl gkNs timestamp rs s) = None"
  using assms
proof (induction rs arbitrary: s)
  case (Cons r rs)
  obtain resource where r: "rs_Resource r = Some resource" using Cons.prems [of r] by auto
  show ?case unfolding add_one [OF r] using Cons by simp
qed simp

section \<open>The resources of the cluster\<close>

text \<open>The results and the errors of one object, with its namespace looked up directly.\<close>

definition object_review :: "AuditEnv \<Rightarrow> object \<Rightarrow> string + AuditMsg list" where
  "object_review env obj =
     (if (case audit_skipExcludedNamespace (ae_excluder env) obj of Inl _ \<Rightarrow> False | Inr b \<Rightarrow> b) then Inr []
      else (case (if GetNamespace obj = [] then Inr \<lparr>ns_Name = [], ns_Labels = []\<rparr> else ae_Namespace env (GetNamespace obj)) of
              Inl _ \<Rightarrow> Inr []
            | Inr ns \<Rightarrow> ae_Review env obj ns))"

definition object_results :: "AuditEnv \<Rightarrow> object \<Rightarrow> AuditMsg list" where
  "object_results env obj = (case object_review env obj of Inr res \<Rightarrow> res | Inl _ \<Rightarrow> [])"

definition object_errs :: "AuditEnv \<Rightarrow> object \<Rightarrow> string list" where
  "object_errs env obj = (case object_review env obj of Inr _ \<Rightarrow> [] | Inl err \<Rightarrow> [err])"

text \<open>The objects of a listing, all its pages, and those of all kinds.\<close>

fun listed :: "nat \<Rightarrow> AuditEnv \<Rightarrow> AuditFlags \<Rightarrow> GVK \<Rightarrow> string \<Rightarrow> object list option" where
  "listed 0 env fl gvk token = None"
| "listed (Suc fuel) env fl gvk token =
     (case ae_List env gvk (af_chunkSize fl) token of
        Inl _ \<Rightarrow> Some []
      | Inr page \<Rightarrow>
          if lp_continue page = [] then Some (lp_items page)
          else map_option (\<lambda>objs. lp_items page @ objs) (listed fuel env fl gvk (lp_continue page)))"

fun listed_all :: "nat \<Rightarrow> AuditEnv \<Rightarrow> AuditFlags \<Rightarrow> ((string \<times> string) \<times> string) list \<Rightarrow> object list option" where
  "listed_all fuel env fl [] = Some []"
| "listed_all fuel env fl (t # ts) =
     (case (listed fuel env fl (list_gvk t) [], listed_all fuel env fl ts) of
        (Some a, Some b) \<Rightarrow> Some (a @ b)
      | _ \<Rightarrow> None)"

text \<open>The cache of the namespaces answers like the API server.\<close>

definition ns_ok :: "AuditEnv \<Rightarrow> AuditState \<Rightarrow> bool" where
  "ns_ok env s \<longleftrightarrow> (\<forall>n ns. mget (au_ns s) n = Some ns \<longrightarrow> ae_Namespace env n = Inr ns)"

text \<open>The state after some objects.\<close>

definition audited_to :: "AuditEnv \<Rightarrow> AuditFlags \<Rightarrow> object list \<Rightarrow> AuditState \<Rightarrow> bool" where
  "audited_to env fl objs s \<longleftrightarrow>
     counted fl (ae_gkNs env) (ae_timestamp env) (concat (map (object_results env) objs)) s \<and>
     au_errs s = concat (map (object_errs env) objs) \<and> ns_ok env s"

lemma audited_to_start: "audited_to env fl [] audit_start"
  using counted_start by (simp add: audited_to_def) (simp add: ns_ok_def audit_start_def newNSCache_def)

lemma nsCache_Get_ok:
  assumes "ns_ok env s" "nsCache_Get (ae_Namespace env) n (au_ns s) = (c, got)"
  shows "got = ae_Namespace env n" "ns_ok env (s\<lparr>au_ns := c\<rparr>)"
proof -
  have "got = ae_Namespace env n \<and> ns_ok env (s\<lparr>au_ns := c\<rparr>)"
  proof (cases "mget (au_ns s) n")
    case (Some ns)
    then show ?thesis using assms by (auto simp: nsCache_Get_def ns_ok_def)
  next
    case None
    then show ?thesis using assms
      by (cases "ae_Namespace env n") (auto simp: nsCache_Get_def ns_ok_def split: if_splits)
  qed
  then show "got = ae_Namespace env n" "ns_ok env (s\<lparr>au_ns := c\<rparr>)" by blast+
qed

lemma counted_rest: "counted fl gkNs timestamp rs (s\<lparr>au_ns := c\<rparr>) = counted fl gkNs timestamp rs s"
  "counted fl gkNs timestamp rs (s\<lparr>au_errs := e\<rparr>) = counted fl gkNs timestamp rs s"
  by (simp_all add: counted_def)

lemma audit_object_ok:
  assumes "audited_to env fl objs s" "audit_object env fl obj s = (s', None)"
  shows "audited_to env fl (objs @ [obj]) s'"
proof -
  have c: "counted fl (ae_gkNs env) (ae_timestamp env) (concat (map (object_results env) objs)) s"
    and e: "au_errs s = concat (map (object_errs env) objs)" and n: "ns_ok env s"
    using assms(1) by (simp_all add: audited_to_def)
  show ?thesis
  proof (cases "case audit_skipExcludedNamespace (ae_excluder env) obj of Inl _ \<Rightarrow> False | Inr b \<Rightarrow> b")
    case True
    then have "object_review env obj = Inr []" "s' = s" using assms(2) by (simp_all add: object_review_def audit_object_def)
    then show ?thesis using c e n by (simp add: audited_to_def object_results_def object_errs_def)
  next
    case False
    let ?zero = "\<lparr>ns_Name = [], ns_Labels = []\<rparr>"
    let ?look = "if GetNamespace obj = [] then Inr ?zero else ae_Namespace env (GetNamespace obj)"
    obtain cc got where g: "(if GetNamespace obj = [] then (au_ns s, Inr ?zero)
        else nsCache_Get (ae_Namespace env) (GetNamespace obj) (au_ns s)) = (cc, got)" by (metis surj_pair)
    have look: "got = ?look \<and> ns_ok env (s\<lparr>au_ns := cc\<rparr>)"
    proof (cases "GetNamespace obj = []")
      case True
      then show ?thesis using g n by auto
    next
      case ns: False
      then show ?thesis using g nsCache_Get_ok [OF n, of "GetNamespace obj" cc got] by simp
    qed
    have r: "object_review env obj = (case got of Inl _ \<Rightarrow> Inr [] | Inr ns \<Rightarrow> ae_Review env obj ns)"
      using False look by (simp add: object_review_def)
    note a = assms(2) [unfolded audit_object_def if_not_P [OF False] g, simplified Let_def prod.case]
    note nsok = look [THEN conjunct2]
    show ?thesis
    proof (cases got)
      case (Inl x)
      have "object_review env obj = Inr []" "s' = s\<lparr>au_ns := cc\<rparr>" using r a Inl by simp_all
      then show ?thesis using c e nsok by (simp add: audited_to_def object_results_def object_errs_def counted_rest)
    next
      case (Inr ns)
      show ?thesis
      proof (cases "ae_Review env obj ns")
        case (Inl err)
        have "object_review env obj = Inl err" "s' = s\<lparr>au_ns := cc, au_errs := au_errs s @ [err]\<rparr>"
          using r a Inr Inl by simp_all
        then show ?thesis using c e nsok
          by (simp add: audited_to_def object_results_def object_errs_def counted_rest ns_ok_def)
      next
        case rv: (Inr res)
        have o: "object_review env obj = Inr res" using r Inr rv by simp
        have "addAuditResponsesToUpdateLists fl (ae_gkNs env) (ae_timestamp env) res (s\<lparr>au_ns := cc\<rparr>) = (s', None)"
          using a Inr rv by simp
        from addAuditResponses_counted [OF this, unfolded counted_rest, OF c] show ?thesis
          using o e nsok by (simp add: audited_to_def object_results_def object_errs_def ns_ok_def)
      qed
    qed
  qed
qed

lemma audit_items_ok:
  "audited_to env fl objs s \<Longrightarrow> audit_items env fl xs s = (s', None) \<Longrightarrow> audited_to env fl (objs @ xs) s'"
proof (induction xs arbitrary: s objs)
  case (Cons obj xs)
  obtain t where t: "audit_object env fl obj s = (t, None)" "audit_items env fl xs t = (s', None)"
    using Cons.prems(2) by (auto split: prod.splits option.splits)
  show ?case using Cons.IH [OF audit_object_ok [OF Cons.prems(1) t(1)] t(2)] by simp
qed simp

lemma audit_pages_ok:
  "audited_to env fl objs s \<Longrightarrow> audit_pages fuel env fl gvk token s = Some (s', None) \<Longrightarrow>
   \<exists>xs. listed fuel env fl gvk token = Some xs \<and> audited_to env fl (objs @ xs) s'"
proof (induction fuel arbitrary: s objs token)
  case (Suc fuel)
  show ?case
  proof (cases "ae_List env gvk (af_chunkSize fl) token")
    case (Inl err)
    then show ?thesis using Suc.prems by simp
  next
    case (Inr page)
    obtain t where t: "audit_items env fl (lp_items page) s = (t, None)"
      using Suc.prems(2) Inr by (auto split: prod.splits option.splits)
    note i = audit_items_ok [OF Suc.prems(1) t]
    show ?thesis
    proof (cases "lp_continue page = []")
      case True
      then show ?thesis using Suc.prems(2) Inr t i by simp
    next
      case False
      then have "audit_pages fuel env fl gvk (lp_continue page) t = Some (s', None)" using Suc.prems(2) Inr t by simp
      from Suc.IH [OF i this] show ?thesis using Inr False by auto
    qed
  qed
qed simp

lemma audit_kinds_ok:
  "audited_to env fl objs s \<Longrightarrow> audit_kinds fuel env fl m ts s = Some (s', None) \<Longrightarrow>
   \<exists>xs. listed_all fuel env fl (filter (\<lambda>t. kind_matched m (snd t)) ts) = Some xs \<and> audited_to env fl (objs @ xs) s'"
proof (induction ts arbitrary: s objs)
  case (Cons t ts)
  show ?case
  proof (cases "kind_matched m (snd t)")
    case False
    then show ?thesis using Cons by simp
  next
    case True
    obtain u where u: "audit_pages fuel env fl (list_gvk t) [] s = Some (u, None)" "audit_kinds fuel env fl m ts u = Some (s', None)"
      using Cons.prems(2) True by (auto split: option.splits prod.splits)
    obtain xs where xs: "listed fuel env fl (list_gvk t) [] = Some xs" "audited_to env fl (objs @ xs) u"
      using audit_pages_ok [OF Cons.prems(1) u(1)] by blast
    obtain ys where "listed_all fuel env fl (filter (\<lambda>t. kind_matched m (snd t)) ts) = Some ys" "audited_to env fl ((objs @ xs) @ ys) s'"
      using Cons.IH [OF xs(2) u(2)] by blast
    then show ?thesis using True xs(1) by simp
  qed
qed simp

text \<open>Listings that end make the audit end, with the reviews' errors or without.\<close>

lemma audit_object_total:
  assumes "audited_to env fl objs s" "\<And>r. r \<in> set (object_results env obj) \<Longrightarrow> rs_Resource r \<noteq> None"
  obtains s' where "audit_object env fl obj s = (s', None)"
proof -
  have n: "ns_ok env s" using assms(1) by (simp add: audited_to_def)
  have "snd (audit_object env fl obj s) = None"
  proof (cases "case audit_skipExcludedNamespace (ae_excluder env) obj of Inl _ \<Rightarrow> False | Inr b \<Rightarrow> b")
    case True
    then show ?thesis by (simp add: audit_object_def)
  next
    case False
    let ?zero = "\<lparr>ns_Name = [], ns_Labels = []\<rparr>"
    let ?look = "if GetNamespace obj = [] then Inr ?zero else ae_Namespace env (GetNamespace obj)"
    obtain cc got where g: "(if GetNamespace obj = [] then (au_ns s, Inr ?zero)
        else nsCache_Get (ae_Namespace env) (GetNamespace obj) (au_ns s)) = (cc, got)" by (metis surj_pair)
    have look: "got = ?look"
    proof (cases "GetNamespace obj = []")
      case True
      then show ?thesis using g by auto
    next
      case ns: False
      then show ?thesis using g nsCache_Get_ok(1) [OF n, of "GetNamespace obj" cc got] by simp
    qed
    have r: "object_review env obj = (case got of Inl _ \<Rightarrow> Inr [] | Inr ns \<Rightarrow> ae_Review env obj ns)"
      using False look by (simp add: object_review_def)
    show ?thesis
      using addAuditResponses_ok [of "object_results env obj" fl "ae_gkNs env" "ae_timestamp env"] assms(2) r
      unfolding audit_object_def if_not_P [OF False] g Let_def prod.case
      by (auto simp: object_results_def split: sum.splits)
  qed
  then show thesis using that by (metis prod.collapse)
qed

lemma audit_items_total:
  assumes "audited_to env fl objs s" "\<And>obj r. obj \<in> set xs \<Longrightarrow> r \<in> set (object_results env obj) \<Longrightarrow> rs_Resource r \<noteq> None"
  shows "\<exists>s'. audit_items env fl xs s = (s', None)"
  using assms
proof (induction xs arbitrary: s objs)
  case (Cons obj xs)
  obtain t where t: "audit_object env fl obj s = (t, None)"
    by (rule audit_object_total [OF Cons.prems(1), of obj]) (use Cons.prems(2) in auto)
  have "\<exists>s'. audit_items env fl xs t = (s', None)"
    by (rule Cons.IH [OF audit_object_ok [OF Cons.prems(1) t]]) (use Cons.prems(2) in auto)
  then show ?case using t by simp
qed simp

end
