(* ===== verification/Backoff.thy ===== *)
theory Backoff
  imports Prelude
begin

text \<open>
  Rounds over a map of pending items, as the update loops of the audit and of the upgrade manager run
  them under \<open>wait.ExponentialBackoff\<close>: what each item reaches, whatever a visit does to
  it, as long as it drops no other item.
\<close>

lemma mwf_keys: "mwf m \<Longrightarrow> distinct (mkeys m)"
  by (simp add: mwf_def mkeys_def strict_sorted_iff)

lemma mkeys_iff: "k \<in> set (mkeys m) \<longleftrightarrow> mget m k \<noteq> None"
  by (simp add: mkeys_def mget_None_iff)

text \<open>An order of Go's iteration: every key once.\<close>

definition arranges :: "(nat \<Rightarrow> 'k list \<Rightarrow> 'k list) \<Rightarrow> bool" where
  "arranges arrange \<longleftrightarrow> (\<forall>n ks. distinct ks \<longrightarrow> distinct (arrange n ks) \<and> set (arrange n ks) = set ks)"

text \<open>\<open>pend\<close> are the pending items of a state, \<open>outs\<close> what it has sent; a visit of an item drops it or not, and
  emits something.\<close>

locale backoff =
  fixes pend :: "'s \<Rightarrow> ('k::linorder, 'v) gomap"
    and outs :: "'s \<Rightarrow> 'w list"
    and arrange :: "nat \<Rightarrow> 'k list \<Rightarrow> 'k list"
    and stop :: "nat \<Rightarrow> 'k \<Rightarrow> bool"
    and visit :: "nat \<Rightarrow> 'k \<Rightarrow> 'v \<Rightarrow> 's \<Rightarrow> 's"
    and sweep :: "nat \<Rightarrow> 'k list \<Rightarrow> 's \<Rightarrow> 's \<times> bool"
    and rounds :: "nat \<Rightarrow> nat \<Rightarrow> 's \<Rightarrow> 's \<times> bool"
    and drops :: "nat \<Rightarrow> 'k \<Rightarrow> 'v \<Rightarrow> bool"
    and emits :: "nat \<Rightarrow> 'k \<Rightarrow> 'v \<Rightarrow> 'w set"
    and good :: "'k \<Rightarrow> 'v \<Rightarrow> bool"
  assumes visit_pend: "good k v \<Longrightarrow> pend (visit n k v s) = (if drops n k v then mdel k (pend s) else pend s)"
    and visit_outs: "good k v \<Longrightarrow> set (outs (visit n k v s)) = set (outs s) \<union> emits n k v"
    and sweep_Nil: "sweep n [] s = (s, False)"
    and sweep_Cons: "sweep n (k # ks) s =
      (if stop n k then (s, True) else sweep n ks (case mget (pend s) k of Some v \<Rightarrow> visit n k v s | None \<Rightarrow> s))"
    and rounds_0: "rounds 0 n s = (s, False)"
    and rounds_Suc: "rounds (Suc steps) n s =
      (case sweep n (arrange n (mkeys (pend s))) s of
         (s, True) \<Rightarrow> (s, True)
       | (s, False) \<Rightarrow> if pend s = [] then (s, True) else rounds steps (n + 1) s)"
begin

definition goods :: "'s \<Rightarrow> bool" where
  "goods s \<longleftrightarrow> mwf (pend s) \<and> (\<forall>k v. mget (pend s) k = Some v \<longrightarrow> good k v)"

lemma sweep_nostop:
  assumes "\<And>k. \<not> stop n k" "distinct ks" "sweep n ks s = (s', stopped)" "goods s"
  shows "\<not> stopped \<and> goods s' \<and>
    (\<forall>k. mget (pend s') k = (case mget (pend s) k of
        Some v \<Rightarrow> if k \<in> set ks \<and> drops n k v then None else Some v | None \<Rightarrow> None)) \<and>
    (\<forall>w. w \<in> set (outs s') \<longleftrightarrow> w \<in> set (outs s) \<or> (\<exists>k v. k \<in> set ks \<and> mget (pend s) k = Some v \<and> w \<in> emits n k v))"
  using assms(2-4)
proof (induction ks arbitrary: s)
  case Nil
  then show ?case by (auto simp: sweep_Nil split: option.split)
next
  case (Cons k ks)
  let ?t = "case mget (pend s) k of Some v \<Rightarrow> visit n k v s | None \<Rightarrow> s"
  have r: "sweep n ks ?t = (s', stopped)" using Cons.prems(2) assms(1) by (simp add: sweep_Cons)
  have d: "distinct ks" "k \<notin> set ks" using Cons.prems(1) by auto
  have ok: "good j v" if "mget (pend s) j = Some v" for j v
    using Cons.prems(3) that by (simp add: goods_def)
  have g: "mget (pend ?t) j = (case mget (pend s) j of
        Some v \<Rightarrow> if j = k \<and> drops n j v then None else Some v | None \<Rightarrow> None)" for j
    using ok by (auto simp: visit_pend split: option.split)
  have gs: "goods ?t"
    using Cons.prems(3) g ok
    by (auto simp: goods_def visit_pend split: option.splits if_splits)
  have w: "w \<in> set (outs ?t) \<longleftrightarrow> w \<in> set (outs s) \<or> (\<exists>v. mget (pend s) k = Some v \<and> w \<in> emits n k v)" for w
    using ok by (auto simp: visit_outs split: option.split)
  note ih = Cons.IH [OF d(1) r gs]
  have "mget (pend s') j = (case mget (pend s) j of
        Some v \<Rightarrow> if j \<in> set (k # ks) \<and> drops n j v then None else Some v | None \<Rightarrow> None)" for j
    using ih [THEN conjunct2, THEN conjunct2, THEN conjunct1, rule_format, of j] g [of j] d(2)
    by (auto split: option.splits if_splits)
  moreover have "w \<in> set (outs s') \<longleftrightarrow> w \<in> set (outs s) \<or>
      (\<exists>j v. j \<in> set (k # ks) \<and> mget (pend s) j = Some v \<and> w \<in> emits n j v)" for w
  proof -
    have o: "mget (pend ?t) j = mget (pend s) j" if "j \<in> set ks" for j
      using g [of j] that d(2) by (auto split: option.split)
    have "w \<in> set (outs s') \<longleftrightarrow> w \<in> set (outs ?t) \<or>
        (\<exists>j v. j \<in> set ks \<and> mget (pend ?t) j = Some v \<and> w \<in> emits n j v)"
      using ih [THEN conjunct2, THEN conjunct2, THEN conjunct2] by blast
    also have "\<dots> \<longleftrightarrow> w \<in> set (outs ?t) \<or> (\<exists>j v. j \<in> set ks \<and> mget (pend s) j = Some v \<and> w \<in> emits n j v)"
      using o by metis
    finally show ?thesis unfolding w by auto
  qed
  ultimately show ?case using ih by blast
qed

text \<open>What the rounds reach, item by item: it is dropped in the first round that does so, or it is still there
  after all of them, and what the rounds until then emit has been sent.\<close>

definition settles :: "nat \<Rightarrow> nat \<Rightarrow> 'k \<Rightarrow> 'v \<Rightarrow> 's \<Rightarrow> bool" where
  "settles steps n k v s \<longleftrightarrow>
     mget (pend s) k = Some v \<and> (\<forall>j < steps. \<not> drops (n + j) k v \<and> emits (n + j) k v \<subseteq> set (outs s)) \<or>
     mget (pend s) k = None \<and>
       (\<exists>j < steps. drops (n + j) k v \<and> (\<forall>i < j. \<not> drops (n + i) k v) \<and>
          (\<forall>i \<le> j. emits (n + i) k v \<subseteq> set (outs s)))"

lemma settles_next:
  assumes "\<not> drops n k v" "emits n k v \<subseteq> set (outs s)" "settles steps (Suc n) k v s"
  shows "settles (Suc steps) n k v s"
  using assms(3) unfolding settles_def
proof (elim disjE conjE exE)
  assume a: "mget (pend s) k = Some v" "\<forall>j < steps. \<not> drops (Suc n + j) k v \<and> emits (Suc n + j) k v \<subseteq> set (outs s)"
  have "\<not> drops (n + j) k v \<and> emits (n + j) k v \<subseteq> set (outs s)" if "j < Suc steps" for j
    using assms(1,2) a(2) that by (cases j) auto
  with a(1) show "mget (pend s) k = Some v \<and> (\<forall>j < Suc steps. \<not> drops (n + j) k v \<and> emits (n + j) k v \<subseteq> set (outs s)) \<or>
     mget (pend s) k = None \<and> (\<exists>j < Suc steps. drops (n + j) k v \<and> (\<forall>i < j. \<not> drops (n + i) k v) \<and>
          (\<forall>i \<le> j. emits (n + i) k v \<subseteq> set (outs s)))" by blast
next
  fix j assume a: "mget (pend s) k = None" "j < steps" "drops (Suc n + j) k v" "\<forall>i<j. \<not> drops (Suc n + i) k v"
    "\<forall>i\<le>j. emits (Suc n + i) k v \<subseteq> set (outs s)"
  have "\<not> drops (n + i) k v" if "i < Suc j" for i using assms(1) a(4) that by (cases i) auto
  moreover have "emits (n + i) k v \<subseteq> set (outs s)" if "i \<le> Suc j" for i using assms(2) a(5) that by (cases i) auto
  moreover have "Suc j < Suc steps" "drops (n + Suc j) k v" using a(2,3) by simp_all
  ultimately show "mget (pend s) k = Some v \<and> (\<forall>j < Suc steps. \<not> drops (n + j) k v \<and> emits (n + j) k v \<subseteq> set (outs s)) \<or>
     mget (pend s) k = None \<and> (\<exists>j < Suc steps. drops (n + j) k v \<and> (\<forall>i < j. \<not> drops (n + i) k v) \<and>
          (\<forall>i \<le> j. emits (n + i) k v \<subseteq> set (outs s)))" using a(1) by blast
qed

lemma settles_first:
  assumes "drops n k v" "mget (pend s) k = None" "emits n k v \<subseteq> set (outs s)"
  shows "settles (Suc steps) n k v s"
  unfolding settles_def using assms by (intro disjI2 conjI exI [of _ 0]) simp_all

lemma rounds_settle:
  assumes "\<And>n k. \<not> stop n k" "arranges arrange" "goods s" "rounds steps n s = (s', fin)" "pend s \<noteq> []"
  shows "(fin \<longleftrightarrow> pend s' = []) \<and> set (outs s) \<subseteq> set (outs s') \<and>
    (\<forall>k v. mget (pend s) k = Some v \<longrightarrow> settles steps n k v s') \<and>
    (\<forall>k. mget (pend s) k = None \<longrightarrow> mget (pend s') k = None) \<and>
    (\<forall>w \<in> set (outs s'). w \<in> set (outs s) \<or>
      (\<exists>k v j. mget (pend s) k = Some v \<and> j < steps \<and> w \<in> emits (n + j) k v))"
  using assms(3-5)
proof (induction steps arbitrary: n s)
  case 0
  then show ?case by (auto simp: rounds_0 settles_def)
next
  case (Suc steps)
  let ?ks = "arrange n (mkeys (pend s))"
  have "mwf (pend s)" using Suc.prems(1) by (simp add: goods_def)
  then have ks: "distinct ?ks" "set ?ks = set (mkeys (pend s))"
    using assms(2) mwf_keys unfolding arranges_def by blast+
  obtain t stopped where t: "sweep n ?ks s = (t, stopped)" by (metis surj_pair)
  note R = sweep_nostop [OF assms(1) ks(1) t Suc.prems(1)]
  have ns: "\<not> stopped" and gs: "goods t" using R by blast+
  have g: "mget (pend t) k = (case mget (pend s) k of Some v \<Rightarrow> if drops n k v then None else Some v | None \<Rightarrow> None)" for k
    using R [THEN conjunct2, THEN conjunct2, THEN conjunct1, rule_format, of k] ks(2) mkeys_iff [of k "pend s"]
    by (auto split: option.splits)
  have w: "x \<in> set (outs t) \<longleftrightarrow> x \<in> set (outs s) \<or> (\<exists>k v. mget (pend s) k = Some v \<and> x \<in> emits n k v)" for x
    using R [THEN conjunct2, THEN conjunct2, THEN conjunct2, rule_format, of x] ks(2) by (auto simp: mkeys_iff)
  have e: "emits n k v \<subseteq> set (outs t)" if "mget (pend s) k = Some v" for k v using w that by blast
  have o: "x \<in> set (outs s) \<or> (\<exists>k v j. mget (pend s) k = Some v \<and> j < Suc steps \<and> x \<in> emits (n + j) k v)"
    if x: "x \<in> set (outs t)" for x
  proof (cases "x \<in> set (outs s)")
    case False
    then obtain k v where "mget (pend s) k = Some v" "x \<in> emits n k v" using w x by blast
    then show ?thesis by (intro disjI2 exI [of _ k] exI [of _ v] exI [of _ 0]) simp
  qed simp
  show ?case
  proof (cases "pend t = []")
    case True
    have s': "s' = t" "fin" using Suc.prems(2) t ns True by (simp_all add: rounds_Suc)
    have all: "drops n k v" if "mget (pend s) k = Some v" for k v
      using g [of k] that True by (auto split: if_splits)
    show ?thesis
    proof (intro conjI allI impI ballI)
      show "fin = (pend s' = [])" using s' True by simp
      show "set (outs s) \<subseteq> set (outs s')" using w s'(1) by blast
      show "settles (Suc steps) n k v s'" if "mget (pend s) k = Some v" for k v
        by (rule settles_first [OF all [OF that]]) (use s'(1) True e [OF that] in simp_all)
      show "mget (pend s') k = None" for k using s'(1) True by simp
      show "x \<in> set (outs s) \<or> (\<exists>k v j. mget (pend s) k = Some v \<and> j < Suc steps \<and> x \<in> emits (n + j) k v)"
        if "x \<in> set (outs s')" for x
        using o that s'(1) by blast
    qed
  next
    case False
    have "rounds steps (Suc n) t = (s', fin)" using Suc.prems(2) t ns False by (simp add: rounds_Suc)
    note ih = Suc.IH [OF gs this False]
    have sub: "set (outs t) \<subseteq> set (outs s')" using ih by blast
    show ?thesis
    proof (intro conjI allI impI ballI)
      show "fin = (pend s' = [])" using ih by blast
      show "set (outs s) \<subseteq> set (outs s')" using w sub by blast
      show "settles (Suc steps) n k v s'" if i: "mget (pend s) k = Some v" for k v
      proof (cases "drops n k v")
        case True
        then have "mget (pend s') k = None" using ih g [of k] i by simp
        then show ?thesis using True e [OF i] sub by (intro settles_first) auto
      next
        case no: False
        then have "mget (pend t) k = Some v" using g [of k] i by simp
        then have "settles steps (Suc n) k v s'" using ih by blast
        then show ?thesis using e [OF i] sub by (intro settles_next [OF no]) auto
      qed
      show "mget (pend s') k = None" if "mget (pend s) k = None" for k using ih g [of k] that by simp
      show "x \<in> set (outs s) \<or> (\<exists>k v j. mget (pend s) k = Some v \<and> j < Suc steps \<and> x \<in> emits (n + j) k v)"
        if x: "x \<in> set (outs s')" for x
      proof (cases "x \<in> set (outs t)")
        case True
        then show ?thesis by (rule o)
      next
        case no: False
        then obtain k v j where y: "mget (pend t) k = Some v" "j < steps" "x \<in> emits (Suc n + j) k v"
          using ih x by blast
        have "mget (pend s) k = Some v" using g [of k] y(1) by (auto split: option.splits if_splits)
        then show ?thesis using y(2,3) by (intro disjI2 exI [of _ k] exI [of _ v] exI [of _ "Suc j"]) simp
      qed
    qed
  qed
qed

end

end
