(* ===== verification/Audit_Update.thy ===== *)
theory Audit_Update
  imports Audit_Facts Constraint_Facts Backoff
begin

text \<open>Facts on the audit's kinds, on the status that it writes and on the rounds of its update loop.\<close>

section \<open>Kinds\<close>

text \<open>What the constraints ask for: a name, the empty one or \<open>*\<close>; no kinds at all, or something that
  is not a list of kinds, asks for all.\<close>

definition asks_names :: "val list \<Rightarrow> string \<Rightarrow> bool" where
  "asks_names vs kind \<longleftrightarrow> (\<exists>k. VString k \<in> set vs \<and> (k = kind \<or> k = [] \<or> k = ''*''))"

definition asks_entries :: "val list \<Rightarrow> string \<Rightarrow> bool" where
  "asks_entries vs kind \<longleftrightarrow> (\<exists>e names. VMap e \<in> set vs \<and> NestedSlice e [''kinds''] = Inr (Some names) \<and> asks_names names kind)"

definition asks_for :: "object \<Rightarrow> string \<Rightarrow> bool" where
  "asks_for c kind \<longleftrightarrow>
     (case NestedSlice c [''spec'', ''match'', ''kinds''] of
        Inr (Some entries) \<Rightarrow> asks_entries entries kind | _ \<Rightarrow> True)"

definition kind_in :: "matched \<Rightarrow> string \<Rightarrow> bool" where
  "kind_in m kind = (case m of MatchKinds ks \<Rightarrow> kind \<in> ks | _ \<Rightarrow> True)"

lemma kind_in_simps [simp]: "kind_in (MatchKinds ks) k \<longleftrightarrow> k \<in> ks" "kind_in MatchAll k" "kind_in MatchPanic k"
  by (simp_all add: kind_in_def)

lemma match_names_in: "k \<in> ks \<or> asks_names vs k \<Longrightarrow> kind_in (match_names vs ks) k"
  by (induction vs ks rule: match_names.induct) (auto simp: asks_names_def)

lemma asks_entries_Cons:
  "asks_entries (v # vs) k \<longleftrightarrow>
     (case v of VMap e \<Rightarrow> \<exists>names. NestedSlice e [''kinds''] = Inr (Some names) \<and> asks_names names k | _ \<Rightarrow> False) \<or>
     asks_entries vs k"
  by (cases v) (auto simp: asks_entries_def)

lemma asks_entries_Nil: "\<not> asks_entries [] k"
  by (simp add: asks_entries_def)

lemma match_entries_in: "k \<in> ks \<or> asks_entries vs k \<Longrightarrow> kind_in (match_entries vs ks) k"
proof (induction vs ks rule: match_entries.induct)
  case (2 e vs ks)
  show ?case
  proof (cases "NestedSlice e [''kinds'']")
    case (Inl err)
    have "k \<in> ks \<or> asks_entries vs k" using "2.prems" Inl by (simp add: asks_entries_Cons)
    then show ?thesis using "2.IH"(1) [OF Inl] Inl by simp
  next
    case (Inr names)
    let ?vs = "case names of Some ns \<Rightarrow> ns | None \<Rightarrow> []"
    show ?thesis
    proof (cases "match_names ?vs ks")
      case (MatchKinds ks')
      have "k \<in> ks' \<or> asks_entries vs k"
        using "2.prems" Inr match_names_in [of k ks ?vs] MatchKinds by (auto simp: asks_entries_Cons)
      then show ?thesis using "2.IH"(2) [OF Inr MatchKinds] Inr MatchKinds by simp
    qed (use Inr in simp_all)
  qed
qed (simp_all add: asks_entries_Cons asks_entries_Nil)

lemma match_constraints_in: "k \<in> ks \<or> (\<exists>c \<in> set cs. asks_for c k) \<Longrightarrow> kind_in (match_constraints cs ks) k"
proof (induction cs arbitrary: ks)
  case (Cons c cs)
  show ?case
  proof (cases "\<exists>entries. NestedSlice c [''spec'', ''match'', ''kinds''] = Inr (Some entries)")
    case False
    then have "match_constraints (c # cs) ks = MatchAll"
      by (auto split: sum.split option.split)
    then show ?thesis by simp
  next
    case True
    then obtain entries where e: "NestedSlice c [''spec'', ''match'', ''kinds''] = Inr (Some entries)" by blast
    show ?thesis
    proof (cases "match_entries entries ks")
      case (MatchKinds ks')
      have "k \<in> ks' \<or> (\<exists>c \<in> set cs. asks_for c k)"
        using Cons.prems e match_entries_in [of k ks entries] MatchKinds by (auto simp: asks_for_def)
      then show ?thesis using Cons.IH [of ks'] e MatchKinds by simp
    qed (use e in simp_all)
  qed
qed simp

lemma matchedKinds_in:
  "k \<in> ks \<or> (\<exists>g \<in> set gs. \<exists>items. L g = Inr items \<and> (\<exists>c \<in> set items. asks_for c k)) \<Longrightarrow> kind_in (matchedKinds L gs ks) k"
proof (induction gs arbitrary: ks)
  case (Cons g gs)
  show ?case
  proof (cases "L g")
    case (Inl err)
    then show ?thesis using Cons by auto
  next
    case (Inr items)
    show ?thesis
    proof (cases "match_constraints items ks")
      case (MatchKinds ks')
      have "k \<in> ks' \<or> (\<exists>g \<in> set gs. \<exists>items. L g = Inr items \<and> (\<exists>c \<in> set items. asks_for c k))"
        using Cons.prems Inr match_constraints_in [of k ks items] MatchKinds by auto
      then show ?thesis using Cons.IH [of ks'] Inr MatchKinds by simp
    qed (use Inr in simp_all)
  qed
qed simp

section \<open>The status\<close>

text \<open>The message of a violation in a status.\<close>

definition cut_message :: "string \<Rightarrow> string" where
  "cut_message msg = (if length msg > msgSize then take (msgSize - 3) msg @ ''...'' else msg)"

lemma length_cut_message: "length (cut_message msg) \<le> msgSize"
  by (simp add: cut_message_def msgSize_def)

definition violation_of :: "auditResult \<Rightarrow> StatusViolation" where
  "violation_of ar = \<lparr>sv_Kind = ar_rkind ar, sv_Name = ar_rname ar, sv_Namespace = ar_rnamespace ar,
     sv_Message = cut_message (ar_message ar), sv_EnforcementAction = ar_enforcementAction ar\<rparr>"

lemma truncate_message:
  "(if length msg > msgSize then truncateString msg msgSize else msg) = cut_message msg"
  by (simp add: truncateString_def cut_message_def msgSize_def)

lemma status_violations_take:
  "vs = take (unat limit) (map violation_of old) \<Longrightarrow>
   status_violations limit ars vs = take (unat limit) (map violation_of (old @ ars))"
proof (induction ars arbitrary: vs old)
  case (Cons ar ars)
  have b: "word_of_nat (length vs) < limit \<longleftrightarrow> length (map violation_of old) < unat limit"
    by (rule below_limit [OF Cons.prems])
  have "(if word_of_nat (length vs) < limit then vs @ [violation_of ar] else vs) =
      take (unat limit) (map violation_of (old @ [ar]))"
    using b Cons.prems by auto
  note ih = Cons.IH [OF this]
  have "status_violations limit (ar # ars) vs =
      status_violations limit ars (if word_of_nat (length vs) < limit then vs @ [violation_of ar] else vs)"
    by (simp only: status_violations.simps truncate_message violation_of_def)
  then show ?case using ih by (simp only: append.simps append_assoc)
qed simp

lemma status_violations_eq: "status_violations limit ars [] = map violation_of (take (unat limit) ars)"
  using status_violations_take [of "[]" limit "[]" ars] by (simp add: take_map)

text \<open>The fields of an object whose status was written.\<close>

definition status_field :: "object \<Rightarrow> string \<Rightarrow> val option" where
  "status_field ob f = (case mget ob ''status'' of Some (VMap m) \<Rightarrow> mget m f | _ \<Rightarrow> None)"

lemma SetNestedField_status:
  assumes "SetNestedField ob v [''status'', f] = Inr ob'"
  shows "status_field ob' g = (if g = f then Some v else status_field ob g)"
    "\<And>k. k \<noteq> ''status'' \<Longrightarrow> mget ob' k = mget ob k" "\<exists>m. mget ob' ''status'' = Some (VMap m)"
proof -
  obtain m where "(mget ob ''status'' = None \<and> m = [] \<or> mget ob ''status'' = Some (VMap m)) \<and> ob' = mput ''status'' (VMap (mput f v m)) ob"
    using SetNestedField_two [OF assms] by blast
  then show "status_field ob' g = (if g = f then Some v else status_field ob g)"
    "\<And>k. k \<noteq> ''status'' \<Longrightarrow> mget ob' k = mget ob k" "\<exists>m. mget ob' ''status'' = Some (VMap m)"
    by (auto simp: status_field_def)
qed

lemma constraint_with_status_fields:
  assumes "constraint_with_status limit instance ars ts n = Inr ob"
  shows "status_field ob ''auditTimestamp'' = Some (VString ts)" "status_field ob ''totalViolations'' = Some (VInt n)"
    "status_field ob ''violations'' =
      (if take (unat limit) ars = [] then None else Some (VList (map (json_violation \<circ> violation_of) (take (unat limit) ars))))"
    "\<And>k. k \<noteq> ''status'' \<Longrightarrow> mget ob k = mget instance k"
proof -
  let ?vs = "map json_violation (status_violations limit ars [])"
  have vs: "?vs = map (json_violation \<circ> violation_of) (take (unat limit) ars)" by (simp add: status_violations_eq)
  obtain a where a: "SetNestedField instance (VString ts) [''status'', ''auditTimestamp''] = Inr a"
    using assms by (cases "SetNestedField instance (VString ts) [''status'', ''auditTimestamp'']")
      (simp_all add: constraint_with_status_def Let_def)
  obtain b where b: "SetNestedField a (VInt n) [''status'', ''totalViolations''] = Inr b"
    using assms a by (cases "SetNestedField a (VInt n) [''status'', ''totalViolations'']")
      (simp_all add: constraint_with_status_def Let_def)
  note fa = SetNestedField_status [OF a] and fb = SetNestedField_status [OF b]
  have r: "(if ?vs = [] then
        (case NestedSlice b [''status'', ''violations''] of
           Inl err \<Rightarrow> Inl err
         | Inr found \<Rightarrow> Inr (if found \<noteq> None then RemoveNestedField b [''status'', ''violations''] else b))
      else SetNestedField b (VList ?vs) [''status'', ''violations'']) = Inr ob"
    using assms unfolding constraint_with_status_def Let_def a sum.case b by simp
  obtain m where m: "mget b ''status'' = Some (VMap m)" using fb(3) by blast
  have "status_field ob ''auditTimestamp'' = Some (VString ts) \<and> status_field ob ''totalViolations'' = Some (VInt n) \<and>
      status_field ob ''violations'' = (if ?vs = [] then None else Some (VList ?vs)) \<and>
      (\<forall>k. k \<noteq> ''status'' \<longrightarrow> mget ob k = mget instance k)"
  proof (cases "?vs = []")
    case False
    note o = r [unfolded if_not_P [OF False]]
    show ?thesis using SetNestedField_status [OF o] fa fb False by simp
  next
    case True
    then obtain found where f: "NestedSlice b [''status'', ''violations''] = Inr found"
      "ob = (if found \<noteq> None then RemoveNestedField b [''status'', ''violations''] else b)"
      using r by (auto split: sum.splits)
    show ?thesis
    proof (cases found)
      case None
      then have "mget m ''violations'' = None" using f(1) m
        by (auto simp: NestedSlice_def split: option.splits val.splits)
      then show ?thesis using f(2) None fa fb m True by (simp add: status_field_def)
    next
      case (Some vs)
      then have "ob = mput ''status'' (VMap (mdel ''violations'' m)) b" using f(2) m by simp
      then show ?thesis using fa fb m True by (simp add: status_field_def)
    qed
  qed
  note all = this [unfolded vs]
  show "status_field ob ''auditTimestamp'' = Some (VString ts)" "status_field ob ''totalViolations'' = Some (VInt n)"
    "status_field ob ''violations'' =
      (if take (unat limit) ars = [] then None else Some (VList (map (json_violation \<circ> violation_of) (take (unat limit) ars))))"
    "\<And>k. k \<noteq> ''status'' \<Longrightarrow> mget ob k = mget instance k"
    using all by simp_all
qed

section \<open>Rounds\<close>

text \<open>One attempt at a constraint: the object that is written, if it is, and whether the constraint is taken
  off the list.\<close>

definition attempt :: "UpdateEnv \<Rightarrow> nat \<Rightarrow> KindVersionResource \<Rightarrow> object \<Rightarrow> object option \<times> bool" where
  "attempt env rnd k item =
     (case ue_Get env rnd k of
        Inl (GetFailed _) \<Rightarrow> (None, False)
      | got \<Rightarrow>
          (let latest = (case got of Inr ob \<Rightarrow> ob | Inl _ \<Rightarrow> item); missing = (case got of Inl _ \<Rightarrow> True | Inr _ \<Rightarrow> False)
           in case constraint_with_status (ue_limit env) latest (mlist (ue_ul env) (GetUniqueKey latest)) (ue_ts env)
                     (mcount (ue_tv env) (GetUniqueKey latest)) of
                Inl _ \<Rightarrow> (None, missing)
              | Inr ob \<Rightarrow> (case ue_Update env rnd ob of Some _ \<Rightarrow> (None, missing) | None \<Rightarrow> (Some ob, True))))"

definition written_list :: "object option \<Rightarrow> object list" where
  "written_list w = (case w of Some ob \<Rightarrow> [ob] | None \<Rightarrow> [])"

lemma mdel_mdel [simp]: "mdel k (mdel k m) = mdel k m"
  by (simp add: mdel_def)

lemma update_item_attempt:
  "update_item env rnd k item s =
     s\<lparr>up_written := up_written s @ written_list (fst (attempt env rnd k item)),
       up_uc := (if snd (attempt env rnd k item) then mdel k (up_uc s) else up_uc s)\<rparr>"
  by (auto simp: update_item_def attempt_def written_list_def Let_def split: sum.split GetErr.split option.split)

text \<open>The rounds of the update loop are those of \<open>Backoff\<close>.\<close>

interpretation au: backoff up_uc up_written "ue_order env" "ue_stop env" "update_item env" "update_round env"
    "update_rounds env" "\<lambda>rnd k item. snd (attempt env rnd k item)"
    "\<lambda>rnd k item. {ob. fst (attempt env rnd k item) = Some ob}" "\<lambda>_ _. True" for env :: UpdateEnv
  by unfold_locales
    (auto simp: update_item_attempt written_list_def split: option.split prod.split bool.split)

text \<open>The constraints that are collected.\<close>

lemma add_items_mwf: "mwf uc \<Longrightarrow> mwf (add_items items uc)"
  unfolding add_items_def by (induction items arbitrary: uc) (auto intro: wf_intros)

lemma collect_mwf: "collect_constraints env gs uc = Some uc' \<Longrightarrow> mwf uc \<Longrightarrow> mwf uc'"
  by (induction gs arbitrary: uc) (auto intro: add_items_mwf split: if_splits sum.splits)

lemma add_items_keeps: "mget uc k \<noteq> None \<Longrightarrow> mget (add_items items uc) k \<noteq> None"
  unfolding add_items_def by (induction items arbitrary: uc) auto

lemma add_items_has: "item \<in> set items \<Longrightarrow> mget (add_items items uc) (GetUniqueKey item) \<noteq> None"
proof (induction items arbitrary: uc)
  case (Cons x items)
  then show ?case using add_items_keeps [of "mput (GetUniqueKey x) x uc" "GetUniqueKey item" items]
    by (auto simp: add_items_def)
qed simp

lemma collect_keeps: "collect_constraints env gs uc = Some uc' \<Longrightarrow> mget uc k \<noteq> None \<Longrightarrow> mget uc' k \<noteq> None"
proof (induction gs arbitrary: uc)
  case (Cons g gs)
  have "mget (case ue_List env g of Inl _ \<Rightarrow> uc | Inr items \<Rightarrow> add_items items uc) k \<noteq> None"
    using Cons.prems(2) add_items_keeps by (auto split: sum.split)
  then show ?case using Cons.IH Cons.prems(1) by (auto split: if_splits)
qed simp

lemma collect_has:
  assumes "collect_constraints env gs uc = Some uc'" "g \<in> set gs" "ue_List env g = Inr items" "item \<in> set items"
  shows "mget uc' (GetUniqueKey item) \<noteq> None"
  using assms
proof (induction gs arbitrary: uc)
  case (Cons h gs)
  show ?case
  proof (cases "g = h")
    case True
    then have "collect_constraints env gs (add_items items uc) = Some uc'" using Cons.prems(1,3) by (auto split: if_splits)
    then show ?thesis by (rule collect_keeps) (rule add_items_has [OF Cons.prems(4)])
  next
    case False
    then show ?thesis using Cons.prems(2) Cons.prems(1) Cons.IH [OF _ _ Cons.prems(3,4)] by (auto split: if_splits)
  qed
qed simp

lemma collect_nostop: "(\<And>g. \<not> ue_stopList env g) \<Longrightarrow> \<exists>uc'. collect_constraints env gs uc = Some uc'"
  by (induction gs arbitrary: uc) auto

section \<open>Loops of the manager\<close>

text \<open>All loops but the current one are told to stop.\<close>

definition loops_ok :: "AuditManager \<Rightarrow> bool" where
  "loops_ok am \<longleftrightarrow>
     (case am_ucloop am of
        None \<Rightarrow> am_loops am = []
      | Some i \<Rightarrow> Suc i = length (am_loops am) \<and> (\<forall>j < length (am_loops am). ul_stopped (am_loops am ! j) \<longleftrightarrow> j \<noteq> i))"

lemma writeAuditResults_ok:
  assumes "loops_ok am"
  shows "\<exists>am'. writeAuditResults s timestamp am = Some am' \<and> loops_ok am'"
proof (cases "am_ucloop am")
  case None
  then show ?thesis using assms by (simp add: writeAuditResults_def loops_ok_def)
next
  case (Some i)
  then have i: "Suc i = length (am_loops am)" "\<forall>j < length (am_loops am). ul_stopped (am_loops am ! j) \<longleftrightarrow> j \<noteq> i"
    using assms by (simp_all add: loops_ok_def)
  then have "\<not> ul_stopped (am_loops am ! i)" by auto
  then show ?thesis using Some i
    by (auto simp: writeAuditResults_def loops_ok_def nth_append nth_list_update less_Suc_eq)
qed

end
