(* ===== verification/Audit_Properties.thy ===== *)
theory Audit_Properties
  imports Audit_Update Controller_Properties
begin

text \<open>The properties of the audit: what it counts, which kinds it covers, what it writes, and how often
  it tries.\<close>

section \<open>Counts\<close>

text \<open>The results that an audit is about: those of the cache, or those of all objects that are listed, page by
  page, for the matched kinds.\<close>

definition reviewed :: "nat \<Rightarrow> AuditEnv \<Rightarrow> AuditFlags \<Rightarrow> AuditMsg list \<Rightarrow> bool" where
  "reviewed fuel env fl rs \<longleftrightarrow>
     (if af_fromCache fl then ae_Audit env = Inr rs
      else \<exists>gvks rls objs. getAllConstraintKinds (ae_constraintKinds env) = Inr gvks \<and> ae_discovery env = Inr rls \<and>
        listed_all fuel env fl (filter (\<lambda>t. kind_matched (if af_matchKindOnly fl then matchedKinds (ae_constraints env) gvks {}
            else MatchAll) (snd t)) (ae_order env (audit_targets rls))) = Some objs \<and>
        (\<forall>ob \<in> set objs. object_errs env ob = []) \<and> rs = concat (map (object_results env) objs))"



section \<open>Sample data\<close>

definition ex_audit_msg :: "string \<Rightarrow> AuditMsg" where
  "ex_audit_msg msg = \<lparr>rs_Constraint = ex_constraint_object, rs_EnforcementAction = ''deny'', rs_Msg = msg,
     rs_Resource = Some ex_pod\<rparr>"

definition ex_audit_flags :: AuditFlags where
  "ex_audit_flags = \<lparr>af_limit = 2, af_chunkSize = 1, af_fromCache = False, af_emitEvents = True, af_matchKindOnly = True\<rparr>"

text \<open>Two pages of pods; each pod violates twice.\<close>

definition ex_audit_env :: AuditEnv where
  "ex_audit_env = \<lparr>ae_client = None, ae_CRD = None,
     ae_constraintKinds = Inr [\<lparr>rc_Kind = ''K8sLabels'', rc_Verbs = [''list'']\<rparr>, \<lparr>rc_Kind = ''K8sLabels'', rc_Verbs = []\<rparr>],
     ae_discovery = Inr [\<lparr>rl_GroupVersion = ''v1'', rl_APIResources = [\<lparr>rc_Kind = ''Pod'', rc_Verbs = [''get'', ''list'']\<rparr>]\<rparr>],
     ae_order = (\<lambda>ts. ts), ae_constraints = (\<lambda>_. Inr [ex_constraint_object]),
     ae_List = (\<lambda>g n token. if token = [] then Inr \<lparr>lp_items = [ex_pod], lp_continue = ''t''\<rparr>
        else Inr \<lparr>lp_items = [ex_pod], lp_continue = []\<rparr>),
     ae_Namespace = (\<lambda>n. Inr \<lparr>ns_Name = n, ns_Labels = []\<rparr>), ae_excluder = New_Excluder,
     ae_Review = (\<lambda>_ _. Inr [ex_audit_msg ''one'', ex_audit_msg ''two'']), ae_Audit = Inl ''unused'',
     ae_gkNs = ''gatekeeper-system'', ae_timestamp = ''now''\<rparr>"

definition ex_audited :: AuditState where
  "ex_audited = (case audit 2 ex_audit_env ex_audit_flags of Some (AuditDone s) \<Rightarrow> s | _ \<Rightarrow> audit_start)"

lemma ex_audited_eq: "audit 2 ex_audit_env ex_audit_flags = Some (AuditDone ex_audited)"
proof -
  have "(case audit 2 ex_audit_env ex_audit_flags of Some (AuditDone s) \<Rightarrow> True | _ \<Rightarrow> False)" by code_simp
  then show ?thesis by (auto simp: ex_audited_def split: option.splits AuditOutcome.splits)
qed

definition ex_audit_key :: KindVersionResource where
  "ex_audit_key = \<lparr>kvr_kind = ''K8sLabels'', kvr_version = ''constraints.gatekeeper.sh/v1beta1'', kvr_resource = ''must-have''\<rparr>"


section \<open>Kinds\<close>

lemma list_kinds_has:
  "mget (list_kinds rs m) k \<noteq> None \<longleftrightarrow> mget m k \<noteq> None \<or> (\<exists>r \<in> set rs. rc_Kind r = k \<and> ''list'' \<in> set (rc_Verbs r))"
  unfolding list_kinds_def by (induction rs arbitrary: m) auto

lemma clusterAPIResources_keeps:
  "mget m gv = Some ks \<Longrightarrow> mget ks k \<noteq> None \<Longrightarrow> \<exists>ks'. mget (clusterAPIResources rls m) gv = Some ks' \<and> mget ks' k \<noteq> None"
proof (induction rls arbitrary: m ks)
  case (Cons rl rls)
  show ?case
  proof (cases "ParseGroupVersion (rl_GroupVersion rl)")
    case None
    then show ?thesis using Cons by simp
  next
    case (Some gv')
    let ?ks = "list_kinds (rl_APIResources rl) (case mget m gv' of Some ks \<Rightarrow> ks | None \<Rightarrow> [])"
    have "\<exists>ks'. mget (mput gv' ?ks m) gv = Some ks' \<and> mget ks' k \<noteq> None"
      using Cons.prems list_kinds_has [of "rl_APIResources rl" ks k] by (cases "gv' = gv") auto
    then show ?thesis using Some Cons.IH by auto
  qed
qed simp

lemma clusterAPIResources_has:
  assumes "rl \<in> set rls" "ParseGroupVersion (rl_GroupVersion rl) = Some gv" "r \<in> set (rl_APIResources rl)" "''list'' \<in> set (rc_Verbs r)"
  shows "\<exists>ks. mget (clusterAPIResources rls m) gv = Some ks \<and> mget ks (rc_Kind r) \<noteq> None"
  using assms(1)
proof (induction rls arbitrary: m)
  case (Cons x rls)
  show ?case
  proof (cases "x = rl")
    case False
    then have "rl \<in> set rls" using Cons.prems by simp
    then show ?thesis using Cons.IH by (simp del: not_None_eq split: option.split)
  next
    case True
    let ?ks = "list_kinds (rl_APIResources rl) (case mget m gv of Some ks \<Rightarrow> ks | None \<Rightarrow> [])"
    have "mget ?ks (rc_Kind r) \<noteq> None" unfolding list_kinds_has using assms(3,4) by blast
    then show ?thesis using clusterAPIResources_keeps [of "mput gv ?ks m" gv ?ks "rc_Kind r" rls] True assms(2) by simp
  qed
qed simp

lemma audit_targets_has:
  assumes "rl \<in> set rls" "ParseGroupVersion (rl_GroupVersion rl) = Some gv" "r \<in> set (rl_APIResources rl)" "''list'' \<in> set (rc_Verbs r)"
  shows "(gv, rc_Kind r) \<in> set (audit_targets rls)"
proof -
  obtain ks where "mget (clusterAPIResources rls []) gv = Some ks" "mget ks (rc_Kind r) \<noteq> None"
    using clusterAPIResources_has [OF assms, of "[]"] by blast
  then have "(gv, ks) \<in> set (clusterAPIResources rls [])" "rc_Kind r \<in> set (mkeys ks)"
    by (auto dest: map_of_SomeD simp: mkeys_iff)
  then show ?thesis unfolding audit_targets_def set_concat set_map UN_iff bex_simps
    by (intro bexI [of _ "(gv, ks)"]) simp_all
qed

lemma listed_all_has:
  "listed_all fuel env fl ts = Some objs \<Longrightarrow> t \<in> set ts \<Longrightarrow>
   \<exists>xs. listed fuel env fl (list_gvk t) [] = Some xs \<and> set xs \<subseteq> set objs"
proof (induction ts arbitrary: objs)
  case (Cons u ts)
  obtain a b where ab: "listed fuel env fl (list_gvk u) [] = Some a" "listed_all fuel env fl ts = Some b" "objs = a @ b"
    using Cons.prems(1) by (auto split: option.splits)
  show ?case
  proof (cases "t = u")
    case True
    then show ?thesis using ab by auto
  next
    case False
    then obtain xs where "listed fuel env fl (list_gvk t) [] = Some xs" "set xs \<subseteq> set b"
      using Cons.IH [OF ab(2)] Cons.prems(2) by auto
    then show ?thesis using ab(3) by auto
  qed
qed simp



section \<open>The status of a constraint\<close>


definition ex_with_status :: object where
  "ex_with_status = get_Inr (constraint_with_status 2 ex_constraint_object (mlist (au_lists ex_audited) ex_audit_key) ''now'' 4)"

lemma ex_with_status_eq:
  "constraint_with_status 2 ex_constraint_object (mlist (au_lists ex_audited) ex_audit_key) ''now'' 4 = Inr ex_with_status"
proof -
  have "case constraint_with_status 2 ex_constraint_object (mlist (au_lists ex_audited) ex_audit_key) ''now'' 4 of
      Inr _ \<Rightarrow> True | Inl _ \<Rightarrow> False" by code_simp
  then show ?thesis by (auto simp: ex_with_status_def split: sum.splits)
qed


section \<open>The update loop\<close>

text \<open>What is written for a constraint: its own results and total.\<close>

definition own_result :: "UpdateEnv \<Rightarrow> object \<Rightarrow> string + object" where
  "own_result env latest =
     constraint_with_status (ue_limit env) latest (mlist (ue_ul env) (GetUniqueKey latest)) (ue_ts env)
       (mcount (ue_tv env) (GetUniqueKey latest))"

lemma attempt_written: "fst (attempt env rnd k item) = Some ob \<Longrightarrow> \<exists>latest. own_result env latest = Inr ob"
  by (auto simp: attempt_def own_result_def Let_def split: sum.splits GetErr.splits option.splits)

lemma attempt_success:
  "ue_Get env rnd k = Inr latest \<Longrightarrow> own_result env latest = Inr ob \<Longrightarrow> ue_Update env rnd ob = None \<Longrightarrow>
   attempt env rnd k item = (Some ob, True)"
  by (simp add: attempt_def own_result_def)

lemma attempt_gone:
  "snd (attempt env rnd k item) \<Longrightarrow> (\<And>x. ue_Get env rnd k \<noteq> Inl (IsNotFound x)) \<Longrightarrow> \<exists>ob. fst (attempt env rnd k item) = Some ob"
  by (cases "ue_Get env rnd k") (auto simp: attempt_def Let_def split: sum.split_asm GetErr.split_asm option.split_asm)

text \<open>C30: an update loop that is not stopped tries each constraint of the listings in up to five rounds: it
  ends well exactly when none is left, everything it writes is the status of one object with that
  object's own results, and a constraint is written if in one of the rounds the API server
  returns it and takes the update, unless it was reported missing before.\<close>

theorem audit_updates_retry:
  assumes "\<And>rnd k. \<not> ue_stop env rnd k" "\<And>g. \<not> ue_stopList env g" "arranges (ue_order env)"
    and "g \<in> set gvks" "ue_List env g = Inr items" "item \<in> set items"
    and "rnd < 5" "ue_Get env rnd (GetUniqueKey item) = Inr latest" "own_result env latest = Inr ob" "ue_Update env rnd ob = None"
    and "\<And>i x. i < rnd \<Longrightarrow> ue_Get env i (GetUniqueKey item) \<noteq> Inl (IsNotFound x)"
    and "update_loop env gvks = (s, fin)"
  shows "(fin \<longleftrightarrow> up_uc s = []) \<and> mget (up_uc s) (GetUniqueKey item) = None \<and>
    (\<exists>j \<le> rnd. \<exists>it ob'. fst (attempt env j (GetUniqueKey item) it) = Some ob' \<and> ob' \<in> set (up_written s)) \<and>
    (\<forall>w \<in> set (up_written s). \<exists>ob. own_result env ob = Inr w)"
proof -
  let ?k = "GetUniqueKey item"
  obtain uc where uc: "collect_constraints env gvks [] = Some uc" using collect_nostop [OF assms(2)] by blast
  have "mget uc ?k \<noteq> None" by (rule collect_has [OF uc assms(4-6)])
  then obtain it where it: "mget uc ?k = Some it" by blast
  then have ne: "uc \<noteq> []" by auto
  let ?s = "\<lparr>up_uc = uc, up_written = []\<rparr>"
  have r: "update_rounds env update_steps 0 ?s = (s, fin)" using assms(12) uc ne by (simp add: update_loop_def)
  have wf: "au.goods ?s" using collect_mwf [OF uc] by (simp add: au.goods_def)
  have ne': "up_uc ?s \<noteq> []" using ne by simp
  note R = au.rounds_settle [OF assms(1,3) wf r ne']
  have "au.settles env update_steps 0 ?k it s" using R it by simp
  then have set5: "mget (up_uc s) ?k = Some it \<and> (\<forall>j<5. \<not> snd (attempt env j ?k it)) \<or>
     mget (up_uc s) ?k = None \<and> (\<exists>j<5. snd (attempt env j ?k it) \<and> (\<forall>i<j. \<not> snd (attempt env i ?k it)) \<and>
          {ob. fst (attempt env j ?k it) = Some ob} \<subseteq> set (up_written s))"
    unfolding au.settles_def update_steps_def add_0 by blast
  have ok: "attempt env rnd ?k it = (Some ob, True)" by (rule attempt_success [OF assms(8-10)])
  then obtain j where j: "mget (up_uc s) ?k = None" "snd (attempt env j ?k it)" "\<forall>i<j. \<not> snd (attempt env i ?k it)"
    "{ob. fst (attempt env j ?k it) = Some ob} \<subseteq> set (up_written s)"
    using set5 assms(7) ok by (metis snd_conv)
  have le: "j \<le> rnd" using j(3) ok by (metis linorder_not_le snd_conv)
  have "\<exists>ob'. fst (attempt env j ?k it) = Some ob'"
  proof (cases "j = rnd")
    case True
    then show ?thesis using ok by simp
  next
    case False
    then show ?thesis using attempt_gone [OF j(2)] assms(11) [of j] le by auto
  qed
  then have "\<exists>j \<le> rnd. \<exists>it ob'. fst (attempt env j ?k it) = Some ob' \<and> ob' \<in> set (up_written s)" using le j(4) by blast
  moreover have "\<forall>w \<in> set (up_written s). \<exists>ob. own_result env ob = Inr w"
    using R attempt_written by fastforce
  ultimately show ?thesis using R j(1) by blast
qed

text \<open>The server refuses the update in the first round.\<close>

definition ex_update_env :: UpdateEnv where
  "ex_update_env = \<lparr>ue_limit = 2, ue_ts = ''now'', ue_ul = au_lists ex_audited, ue_tv = au_perConstraint ex_audited,
     ue_stopList = (\<lambda>_. False), ue_List = (\<lambda>_. Inr [ex_constraint_object]), ue_order = (\<lambda>_ ks. ks), ue_stop = (\<lambda>_ _. False),
     ue_Get = (\<lambda>_ _. Inr ex_constraint_object), ue_Update = (\<lambda>rnd _. if rnd = 0 then Some ''conflict'' else None)\<rparr>"

theorem audit_updates_retry_witness:
  "snd (update_loop ex_update_env [GVK ''constraints.gatekeeper.sh'' ''v1beta1'' ''K8sLabels'']) \<and>
    up_uc (fst (update_loop ex_update_env [GVK ''constraints.gatekeeper.sh'' ''v1beta1'' ''K8sLabels''])) = []"
proof -
  let ?g = "GVK ''constraints.gatekeeper.sh'' ''v1beta1'' ''K8sLabels''"
  let ?s = "fst (update_loop ex_update_env [?g])" and ?f = "snd (update_loop ex_update_env [?g])"
  have k: "GetUniqueKey ex_constraint_object = ex_audit_key" "mcount (au_perConstraint ex_audited) ex_audit_key = 4" by code_simp+
  have e: "\<not> ue_stop ex_update_env rnd j" "\<not> ue_stopList ex_update_env g" "arranges (ue_order ex_update_env)"
    "ue_List ex_update_env ?g = Inr [ex_constraint_object]"
    "ue_Get ex_update_env 1 (GetUniqueKey ex_constraint_object) = Inr ex_constraint_object"
    "ue_Update ex_update_env 1 ex_with_status = None"
    "ue_Get ex_update_env rnd (GetUniqueKey ex_constraint_object) \<noteq> Inl (IsNotFound x)" for rnd j g x
    by (simp_all add: ex_update_env_def arranges_def)
  have o: "own_result ex_update_env ex_constraint_object = Inr ex_with_status"
    using ex_with_status_eq k by (simp add: own_result_def ex_update_env_def)
  have u: "update_loop ex_update_env [?g] = (?s, ?f)" by simp
  have "mget (up_uc ?s) (GetUniqueKey ex_constraint_object) = None" and f: "?f \<longleftrightarrow> up_uc ?s = []"
    using audit_updates_retry [OF e(1-3) _ e(4) _ _ e(5) o e(6,7) u] by simp_all
  moreover have "up_uc ?s = []" by code_simp
  ultimately show ?thesis by simp
qed

section \<open>Behaviours worth knowing\<close>

text \<open>A constraint that could not be listed does not count for the matched kinds: a failing list call of its
  kind leaves out the kinds that only its constraints name, and the audit is done all the same.\<close>

lemma failed_listing_drops_kinds:
  "matchedKinds (\<lambda>g. if g = h then Inl err else Inr []) [h] {} = MatchKinds {} \<and> \<not> kind_matched (MatchKinds {}) kind"
  by (simp add: kind_matched_def)

text \<open>A constraint that is gone is taken off the list, but its status is still written, to the copy of the
  listing.\<close>

lemma missing_constraint_still_written:
  "ue_Get env rnd k = Inl (IsNotFound x) \<Longrightarrow> own_result env item = Inr ob \<Longrightarrow> ue_Update env rnd ob = None \<Longrightarrow>
   attempt env rnd k item = (Some ob, True)"
  by (simp add: attempt_def own_result_def)

text \<open>A review that fails discards the whole audit: no constraint gets a status from it.\<close>

lemma failed_review_discards:
  assumes "auditResources fuel env fl gvks s = Some (AuditDone s')"
  shows "au_errs s' = []"
  using assms by (auto simp: auditResources_def split: sum.splits matched.splits option.splits prod.splits if_splits)

text \<open>A new loop never closes the channel of a loop twice, and only the newest is left running.\<close>

lemma one_loop_running:
  assumes "loops_ok am"
  obtains am' where "writeAuditResults s ts am = Some am'" "loops_ok am'"
    "\<And>j. j < length (am_loops am') \<Longrightarrow> \<not> ul_stopped (am_loops am' ! j) \<Longrightarrow> Suc j = length (am_loops am')"
proof -
  obtain am' where a: "writeAuditResults s ts am = Some am'" "loops_ok am'" using writeAuditResults_ok [OF assms] by blast
  show thesis
    by (rule that [OF a]) (use a(2) in \<open>auto simp: loops_ok_def split: option.splits\<close>)
qed

end
