(* ===== verification/Upgrade_Manager.thy ===== *)
theory Upgrade_Manager
  imports Audit_Manager Backoff
begin

text \<open>
  The upgrade manager (\<open>pkg/upgrade/manager.go\<close>): at start-up every constraint and template that is
  stored in an old version is read and written back, so that the API server stores it in the current
  one. The clients, discovery and the API server are parameters.
\<close>

section \<open>Collecting the resources\<close>

text \<open>The environment of a group and version: the creation of a client, the lookup of the CRD of the
  templates, the kinds (\<open>IsNotFound\<close> when the version is not served), the order of Go's iteration over the
  kinds, and the listings.\<close>

record UpgradeEnv =
  ug_client :: "string \<Rightarrow> string option"
  ug_CRD :: "string \<Rightarrow> string option"
  ug_kinds :: "string \<Rightarrow> GetErr + APIResourceList"
  ug_order :: "string list \<Rightarrow> string list"
  ug_List :: "GVK \<Rightarrow> string + object list"

text \<open>An error stops the start-up; a panic is the index out of range for a group version without a slash.\<close>

datatype UpgradeResult = UpgradeOk | UpgradeErr string | UpgradePanic

text \<open>The resources of the loops that were started, one for each kind that has any.\<close>

type_synonym upgradeLoops = "(KindVersionResource, object) gomap list"

definition updateResources :: "object list \<Rightarrow> (KindVersionResource, object) gomap" where
  "updateResources items = fold (\<lambda>item. mput (GetUniqueKey item) item) items []"

definition uniqueKinds :: "APIResource list \<Rightarrow> string list" where
  "uniqueKinds rs = mkeys (fold (\<lambda>r m. mput (rc_Kind r) True m) rs [])"

fun upgrade_kinds :: "UpgradeEnv \<Rightarrow> string \<Rightarrow> string \<Rightarrow> string list \<Rightarrow> upgradeLoops \<Rightarrow> upgradeLoops \<times> UpgradeResult" where
  "upgrade_kinds env grp version [] ls = (ls, UpgradeOk)"
| "upgrade_kinds env grp version (kind # ks) ls =
     (case ug_List env (GVK grp version (kind @ ''List'')) of
        Inl err \<Rightarrow> (ls, UpgradeErr err)
      | Inr items \<Rightarrow>
          upgrade_kinds env grp version ks
            (if updateResources items \<noteq> [] then ls @ [updateResources items] else ls))"

definition upgradeGroupVersion :: "UpgradeEnv \<Rightarrow> string \<Rightarrow> upgradeLoops \<Rightarrow> upgradeLoops \<times> UpgradeResult" where
  "upgradeGroupVersion env groupVersion ls =
     (case ug_client env groupVersion of
        Some err \<Rightarrow> (ls, UpgradeErr err)
      | None \<Rightarrow>
          (case ug_CRD env groupVersion of
             Some err \<Rightarrow> (ls, UpgradeErr err)
           | None \<Rightarrow>
               (case ug_kinds env groupVersion of
                  Inl (IsNotFound _) \<Rightarrow> (ls, UpgradeOk)
                | Inl (GetFailed err) \<Rightarrow> (ls, UpgradeErr err)
                | Inr resourceList \<Rightarrow>
                    (case Split (rl_GroupVersion resourceList) (CHR ''/'') of
                       grp # version # _ \<Rightarrow>
                         upgrade_kinds env grp version (ug_order env (uniqueKinds (rl_APIResources resourceList))) ls
                     | _ \<Rightarrow> (ls, UpgradePanic)))))"

definition upgrade_gvs :: "string list" where
  "upgrade_gvs = [''constraints.gatekeeper.sh/v1alpha1'', ''templates.gatekeeper.sh/v1alpha1'']"

fun upgrade_all :: "UpgradeEnv \<Rightarrow> string list \<Rightarrow> upgradeLoops \<Rightarrow> upgradeLoops \<times> UpgradeResult" where
  "upgrade_all env [] ls = (ls, UpgradeOk)"
| "upgrade_all env (gv # gvs) ls =
     (case upgradeGroupVersion env gv ls of
        (ls, UpgradeOk) \<Rightarrow> upgrade_all env gvs ls
      | (ls, res) \<Rightarrow> (ls, res))"

definition upgrade :: "UpgradeEnv \<Rightarrow> upgradeLoops \<times> UpgradeResult" where
  "upgrade env = upgrade_all env upgrade_gvs []"

section \<open>The update loop\<close>

text \<open>What the API server answers in each round: the latest version of an object, looked up by its name,
  and what an update leaves in its argument. \<open>rr_order\<close> is the order of Go's iteration. Nothing ever closes the
  channel that would stop a loop.\<close>

record UpgradeLoopEnv =
  rr_order :: "nat \<Rightarrow> KindVersionResource list \<Rightarrow> KindVersionResource list"
  rr_Get :: "nat \<Rightarrow> object \<Rightarrow> string + object"
  rr_Update :: "nat \<Rightarrow> object \<Rightarrow> string + object"

text \<open>The pending resources, and the objects that were handed to \<open>Update\<close>, whatever it answered.\<close>

record UpgradeLoop =
  ur_ur :: "(KindVersionResource, object) gomap"
  ur_sent :: "object list"

text \<open>One resource in one round. The copy of the listing is written when there is no newer one.\<close>

definition urloop_item :: "UpgradeLoopEnv \<Rightarrow> nat \<Rightarrow> KindVersionResource \<Rightarrow> object \<Rightarrow> UpgradeLoop \<Rightarrow> UpgradeLoop" where
  "urloop_item env rnd k item s =
     (let (failure, latestItem) = (case rr_Get env rnd item of Inl _ \<Rightarrow> (True, item) | Inr ob \<Rightarrow> (False, ob));
          s = s\<lparr>ur_sent := ur_sent s @ [latestItem]\<rparr>;
          (failure, latestItem) = (case rr_Update env rnd latestItem of Inl _ \<Rightarrow> (True, latestItem) | Inr ob \<Rightarrow> (failure, ob))
      in if failure then s else s\<lparr>ur_ur := mdel (GetUniqueKey latestItem) (ur_ur s)\<rparr>)"

fun urloop_round :: "UpgradeLoopEnv \<Rightarrow> nat \<Rightarrow> KindVersionResource list \<Rightarrow> UpgradeLoop \<Rightarrow> UpgradeLoop" where
  "urloop_round env rnd [] s = s"
| "urloop_round env rnd (k # ks) s =
     urloop_round env rnd ks (case mget (ur_ur s) k of Some item \<Rightarrow> urloop_item env rnd k item s | None \<Rightarrow> s)"

fun urloop_rounds :: "UpgradeLoopEnv \<Rightarrow> nat \<Rightarrow> nat \<Rightarrow> UpgradeLoop \<Rightarrow> UpgradeLoop \<times> bool" where
  "urloop_rounds env 0 rnd s = (s, False)"
| "urloop_rounds env (Suc steps) rnd s =
     (let s = urloop_round env rnd (rr_order env rnd (mkeys (ur_ur s))) s
      in if ur_ur s = [] then (s, True) else urloop_rounds env steps (rnd + 1) s)"

definition urloop_update :: "UpgradeLoopEnv \<Rightarrow> (KindVersionResource, object) gomap \<Rightarrow> UpgradeLoop \<times> bool" where
  "urloop_update env ur = urloop_rounds env 5 0 \<lparr>ur_ur = ur, ur_sent = []\<rparr>"

section \<open>Collecting, in terms of the listings\<close>

lemma updateResources_props:
  "mwf (updateResources items)"
  "mget (updateResources items) k = Some item \<Longrightarrow> item \<in> set items \<and> GetUniqueKey item = k"
  "item \<in> set items \<Longrightarrow> mget (updateResources items) (GetUniqueKey item) \<noteq> None"
proof -
  have "mwf m \<Longrightarrow> mwf (fold (\<lambda>item. mput (GetUniqueKey item) item) items m)" for m
    by (induction items arbitrary: m) auto
  then show "mwf (updateResources items)" by (simp add: updateResources_def)
  have "mget (fold (\<lambda>item. mput (GetUniqueKey item) item) items m) k = Some item \<Longrightarrow>
      item \<in> set items \<and> GetUniqueKey item = k \<or> mget m k = Some item" for m
    by (induction items arbitrary: m) (fastforce split: if_splits)+
  then show "mget (updateResources items) k = Some item \<Longrightarrow> item \<in> set items \<and> GetUniqueKey item = k"
    by (fastforce simp: updateResources_def)
  have keep: "mget m j \<noteq> None \<Longrightarrow> mget (fold (\<lambda>item. mput (GetUniqueKey item) item) is m) j \<noteq> None" for m j "is"
    by (induction "is" arbitrary: m) auto
  have "item \<in> set items \<Longrightarrow> mget (fold (\<lambda>item. mput (GetUniqueKey item) item) items m) (GetUniqueKey item) \<noteq> None" for m
  proof (induction items arbitrary: m)
    case (Cons x items)
    then show ?case using keep [of "mput (GetUniqueKey x) x m" "GetUniqueKey x" items] by auto
  qed simp
  then show "item \<in> set items \<Longrightarrow> mget (updateResources items) (GetUniqueKey item) \<noteq> None"
    by (simp add: updateResources_def)
qed

lemma uniqueKinds_props: "distinct (uniqueKinds rs)" "set (uniqueKinds rs) = rc_Kind ` set rs"
proof -
  have "mwf m \<Longrightarrow> mwf (fold (\<lambda>r m. mput (rc_Kind r) True m) rs m) \<and>
      fst ` set (fold (\<lambda>r m. mput (rc_Kind r) True m) rs m) = fst ` set m \<union> rc_Kind ` set rs" for m
    by (induction rs arbitrary: m) auto
  from this [of "[]"] show "distinct (uniqueKinds rs)" "set (uniqueKinds rs) = rc_Kind ` set rs"
    by (auto simp: uniqueKinds_def mwf_keys) (auto simp: mkeys_def)
qed

text \<open>What a kind contributes to the loops.\<close>

definition kind_loops :: "UpgradeEnv \<Rightarrow> string \<Rightarrow> string \<Rightarrow> string \<Rightarrow> upgradeLoops" where
  "kind_loops env grp version kind =
     (case ug_List env (GVK grp version (kind @ ''List'')) of
        Inl _ \<Rightarrow> [] | Inr items \<Rightarrow> if items = [] then [] else [updateResources items])"

lemma updateResources_empty: "updateResources items = [] \<longleftrightarrow> items = []"
proof
  assume "updateResources items = []"
  then show "items = []" using updateResources_props(3) [of _ items] by (cases items) force+
qed (simp add: updateResources_def)

lemma upgrade_kinds_ok:
  "upgrade_kinds env grp version ks ls = (ls', UpgradeOk) \<longleftrightarrow>
     (\<forall>kind \<in> set ks. \<exists>items. ug_List env (GVK grp version (kind @ ''List'')) = Inr items) \<and>
     ls' = ls @ concat (map (kind_loops env grp version) ks)"
  by (induction ks arbitrary: ls) (auto simp: kind_loops_def updateResources_empty split: sum.split)

text \<open>The loops that were started are never taken back.\<close>

lemma upgrade_kinds_extends: "upgrade_kinds env grp version ks ls = (ls', res) \<Longrightarrow> set ls \<subseteq> set ls'"
  by (induction ks arbitrary: ls) (fastforce split: sum.splits if_splits)+

lemma upgradeGroupVersion_extends: "upgradeGroupVersion env gv ls = (ls', res) \<Longrightarrow> set ls \<subseteq> set ls'"
  by (auto simp: upgradeGroupVersion_def dest!: upgrade_kinds_extends split: option.splits sum.splits GetErr.splits list.splits)

section \<open>Rounds\<close>

text \<open>What a visit sends, and whether it takes the resource off the list.\<close>

definition sent_object :: "UpgradeLoopEnv \<Rightarrow> nat \<Rightarrow> object \<Rightarrow> object" where
  "sent_object env rnd item = (case rr_Get env rnd item of Inl _ \<Rightarrow> item | Inr ob \<Rightarrow> ob)"

definition upgraded :: "UpgradeLoopEnv \<Rightarrow> nat \<Rightarrow> object \<Rightarrow> bool" where
  "upgraded env rnd item \<longleftrightarrow> (\<exists>ob ob'. rr_Get env rnd item = Inr ob \<and> rr_Update env rnd ob = Inr ob')"

text \<open>The API server answers with the object that was asked for.\<close>

definition answers_kept :: "UpgradeLoopEnv \<Rightarrow> bool" where
  "answers_kept env \<longleftrightarrow>
     (\<forall>rnd item ob. rr_Get env rnd item = Inr ob \<longrightarrow> GetUniqueKey ob = GetUniqueKey item) \<and>
     (\<forall>rnd ob ob'. rr_Update env rnd ob = Inr ob' \<longrightarrow> GetUniqueKey ob' = GetUniqueKey ob)"

lemma urloop_item_eq:
  assumes "answers_kept env" "GetUniqueKey item = k"
  shows "urloop_item env rnd k item s =
    s\<lparr>ur_sent := ur_sent s @ [sent_object env rnd item],
      ur_ur := (if upgraded env rnd item then mdel k (ur_ur s) else ur_ur s)\<rparr>"
proof (cases "rr_Get env rnd item")
  case (Inl err)
  then show ?thesis by (simp add: urloop_item_def sent_object_def upgraded_def split: sum.split)
next
  case (Inr ob)
  then have "GetUniqueKey ob = k" using assms unfolding answers_kept_def by blast
  moreover have "GetUniqueKey ob' = GetUniqueKey ob" if "rr_Update env rnd ob = Inr ob'" for ob'
    using assms(1) that unfolding answers_kept_def by blast
  ultimately show ?thesis using Inr
    by (cases "rr_Update env rnd ob") (simp_all add: urloop_item_def sent_object_def upgraded_def)
qed

lemma urloop_backoff:
  assumes "answers_kept env"
  shows "backoff ur_ur ur_sent (rr_order env) (\<lambda>_ _. False) (urloop_item env) (\<lambda>n ks s. (urloop_round env n ks s, False))
    (urloop_rounds env) (\<lambda>n k v. upgraded env n v) (\<lambda>n k v. {sent_object env n v}) (\<lambda>k v. GetUniqueKey v = k)"
  by unfold_locales (simp_all add: urloop_item_eq [OF assms] Let_def)

end
