(* ===== verification/Upgrade_Properties.thy ===== *)
theory Upgrade_Properties
  imports Upgrade_Manager
begin

text \<open>The properties of the upgrade manager: which resources its loops hold, and what they do with them.\<close>

section \<open>The loops that are started\<close>

lemma upgrade_ok_gvs:
  "upgrade_all env gvs ls = (ls', UpgradeOk) \<Longrightarrow> gv \<in> set gvs \<Longrightarrow>
   \<exists>a b. upgradeGroupVersion env gv a = (b, UpgradeOk) \<and> set b \<subseteq> set ls'"
proof (induction gvs arbitrary: ls)
  case (Cons g gvs)
  have ext: "upgrade_all env hs b = (ls', UpgradeOk) \<Longrightarrow> set b \<subseteq> set ls'" for hs b
  proof (induction hs arbitrary: b)
    case (Cons h hs)
    then obtain c where "upgradeGroupVersion env h b = (c, UpgradeOk)" "upgrade_all env hs c = (ls', UpgradeOk)"
      by (auto split: prod.splits UpgradeResult.splits)
    then show ?case using Cons.IH [of c] upgradeGroupVersion_extends [of env h b c] by blast
  qed simp
  obtain b where b: "upgradeGroupVersion env g ls = (b, UpgradeOk)" "upgrade_all env gvs b = (ls', UpgradeOk)"
    using Cons.prems(1) by (auto split: prod.splits UpgradeResult.splits)
  show ?case
  proof (cases "gv = g")
    case True
    then show ?thesis using b(1) ext [OF b(2)] by blast
  next
    case False
    then show ?thesis using Cons.IH [OF b(2)] Cons.prems(2) by simp
  qed
qed simp

text \<open>The loops of a run hold listed resources by their keys.\<close>

definition loop_listed :: "UpgradeEnv \<Rightarrow> (KindVersionResource, object) gomap \<Rightarrow> bool" where
  "loop_listed env ur \<longleftrightarrow> ur \<noteq> [] \<and> (\<exists>gvk items. ug_List env gvk = Inr items \<and> ur = updateResources items)"

lemma upgrade_kinds_listed:
  "upgrade_kinds env grp version ks ls = (ls', res) \<Longrightarrow> \<forall>ur \<in> set ls. loop_listed env ur \<Longrightarrow> \<forall>ur \<in> set ls'. loop_listed env ur"
proof (induction ks arbitrary: ls)
  case (Cons k ks)
  show ?case
  proof (cases "ug_List env (GVK grp version (k @ ''List''))")
    case (Inl err)
    then show ?thesis using Cons.prems by simp
  next
    case (Inr items)
    let ?ls = "if updateResources items \<noteq> [] then ls @ [updateResources items] else ls"
    have "\<forall>ur \<in> set ?ls. loop_listed env ur" using Cons.prems(2) Inr by (auto simp: loop_listed_def)
    then show ?thesis using Cons.IH [of ?ls] Cons.prems(1) Inr by simp
  qed
qed simp

lemma upgrade_listed: "upgrade env = (ls, res) \<Longrightarrow> ur \<in> set ls \<Longrightarrow> loop_listed env ur"
proof -
  have step: "upgradeGroupVersion env gv ls = (ls', res) \<Longrightarrow> \<forall>ur \<in> set ls. loop_listed env ur \<Longrightarrow>
      \<forall>ur \<in> set ls'. loop_listed env ur" for gv ls ls' res
    unfolding upgradeGroupVersion_def
    by (auto dest!: upgrade_kinds_listed split: option.splits sum.splits GetErr.splits list.splits)
  have "upgrade_all env gvs ls = (ls', res) \<Longrightarrow> \<forall>ur \<in> set ls. loop_listed env ur \<Longrightarrow>
      \<forall>ur \<in> set ls'. loop_listed env ur" for gvs ls ls' res
  proof (induction gvs arbitrary: ls)
    case (Cons g gvs)
    obtain b r where "upgradeGroupVersion env g ls = (b, r)" by (metis surj_pair)
    then show ?case using Cons step [of g ls b r] by (cases r) auto
  qed simp
  then show "upgrade env = (ls, res) \<Longrightarrow> ur \<in> set ls \<Longrightarrow> loop_listed env ur"
    unfolding upgrade_def by fastforce
qed

definition ex_old_constraint :: object where
  "ex_old_constraint = [(''apiVersion'', VString ''constraints.gatekeeper.sh/v1alpha1''), (''kind'', VString ''K8sLabels''),
     (''metadata'', VMap [(''name'', VString ''must-have'')])]"

definition ex_upgrade_env :: UpgradeEnv where
  "ex_upgrade_env =
     \<lparr>ug_client = (\<lambda>_. None), ug_CRD = (\<lambda>_. None),
      ug_kinds = (\<lambda>gv. if gv = ''constraints.gatekeeper.sh/v1alpha1''
        then Inr \<lparr>rl_GroupVersion = gv, rl_APIResources = [\<lparr>rc_Kind = ''K8sLabels'', rc_Verbs = []\<rparr>, \<lparr>rc_Kind = ''K8sLabels'', rc_Verbs = []\<rparr>]\<rparr>
        else Inl (IsNotFound gv)),
      ug_order = (\<lambda>ks. ks), ug_List = (\<lambda>_. Inr [ex_old_constraint])\<rparr>"

text \<open>
  When the upgrade succeeds, every kind that the API server serves in one of the two old
  versions was listed, and every listed resource is in one of the loops that were
  started, under its key, together with resources of its kind only. A kind named twice is
  listed once.
\<close>

theorem upgrade_covers:
  assumes "upgrade env = (ls, UpgradeOk)" "\<And>ks. distinct ks \<Longrightarrow> distinct (ug_order env ks) \<and> set (ug_order env ks) = set ks"
    and "gv \<in> {''constraints.gatekeeper.sh/v1alpha1'', ''templates.gatekeeper.sh/v1alpha1''}"
    and "ug_kinds env gv = Inr rl" "Split (rl_GroupVersion rl) (CHR ''/'') = [grp, version]"
    and "r \<in> set (rl_APIResources rl)"
  shows "\<exists>items. ug_List env (GVK grp version (rc_Kind r @ ''List'')) = Inr items \<and>
    (\<forall>item \<in> set items. \<exists>ur \<in> set ls. \<exists>it \<in> set items.
       mget ur (GetUniqueKey item) = Some it \<and> (\<forall>k it. mget ur k = Some it \<longrightarrow> it \<in> set items \<and> GetUniqueKey it = k))"
proof -
  have "gv \<in> set upgrade_gvs" using assms(3) by (simp add: upgrade_gvs_def)
  then obtain a b where b: "upgradeGroupVersion env gv a = (b, UpgradeOk)" "set b \<subseteq> set ls"
    using upgrade_ok_gvs assms(1) unfolding upgrade_def by blast
  let ?ks = "ug_order env (uniqueKinds (rl_APIResources rl))"
  have "upgrade_kinds env grp version ?ks a = (b, UpgradeOk)"
    using b(1) assms(4,5) by (auto simp: upgradeGroupVersion_def split: option.splits)
  note k = this [unfolded upgrade_kinds_ok]
  have "rc_Kind r \<in> set ?ks" using assms(2) [OF uniqueKinds_props(1)] uniqueKinds_props(2) assms(6) by auto
  then obtain items where i: "ug_List env (GVK grp version (rc_Kind r @ ''List'')) = Inr items"
    and l: "set (kind_loops env grp version (rc_Kind r)) \<subseteq> set b" using k by fastforce
  have "\<exists>ur \<in> set ls. \<exists>it \<in> set items. mget ur (GetUniqueKey item) = Some it \<and>
      (\<forall>k it. mget ur k = Some it \<longrightarrow> it \<in> set items \<and> GetUniqueKey it = k)" if item: "item \<in> set items" for item
  proof (rule bexI [of _ "updateResources items"])
    have "items \<noteq> []" using item by auto
    then show "updateResources items \<in> set ls" using l i b(2) by (simp add: kind_loops_def subset_iff)
    obtain it where "mget (updateResources items) (GetUniqueKey item) = Some it"
      using updateResources_props(3) [OF item] by blast
    then show "\<exists>it \<in> set items. mget (updateResources items) (GetUniqueKey item) = Some it \<and>
      (\<forall>k it. mget (updateResources items) k = Some it \<longrightarrow> it \<in> set items \<and> GetUniqueKey it = k)"
      using updateResources_props(2) by blast
  qed
  then show ?thesis using i by blast
qed

theorem upgrade_covers_witness:
  "\<exists>items. ug_List ex_upgrade_env (GVK ''constraints.gatekeeper.sh'' ''v1alpha1'' ''K8sLabelsList'') = Inr items \<and>
    (\<forall>item \<in> set items. \<exists>ur \<in> set (fst (upgrade ex_upgrade_env)). \<exists>it \<in> set items. mget ur (GetUniqueKey item) = Some it \<and>
       (\<forall>k it. mget ur k = Some it \<longrightarrow> it \<in> set items \<and> GetUniqueKey it = k))"
proof -
  let ?r = "\<lparr>rc_Kind = ''K8sLabels'', rc_Verbs = []\<rparr>" and ?gv = "''constraints.gatekeeper.sh/v1alpha1''"
  let ?rl = "\<lparr>rl_GroupVersion = ?gv, rl_APIResources = [?r, ?r]\<rparr>"
  have u: "upgrade ex_upgrade_env = (fst (upgrade ex_upgrade_env), UpgradeOk)"
    by (rule prod_eqI) (simp, code_simp)
  have k: "ug_kinds ex_upgrade_env ?gv = Inr ?rl" "?r \<in> set (rl_APIResources ?rl)"
    "distinct ks \<Longrightarrow> distinct (ug_order ex_upgrade_env ks) \<and> set (ug_order ex_upgrade_env ks) = set ks" for ks
    by (simp_all add: ex_upgrade_env_def)
  have s: "Split (rl_GroupVersion ?rl) (CHR ''/'') = [''constraints.gatekeeper.sh'', ''v1alpha1'']" by code_simp
  show ?thesis using upgrade_covers [OF u k(3) _ k(1) s k(2)] by simp
qed

section \<open>What a loop does\<close>

definition ex_upgrade_loop :: UpgradeLoopEnv where
  "ex_upgrade_loop = \<lparr>rr_order = (\<lambda>_ ks. ks), rr_Get = (\<lambda>_ item. Inr item),
     rr_Update = (\<lambda>rnd ob. if rnd < 2 then Inl ''conflict'' else Inr ob)\<rparr>"

text \<open>C31: A loop started by the upgrade hands every resource to the API server in each of up to
  five rounds, in its latest version when that could be read and otherwise as it was listed,
  until the first round in which both the read and the write succeed; the resource is then
  done. Nothing else is written, and the loop reports success exactly when no
  resource is left. This holds for every order of Go's iteration, for an API server that
  answers with the objects it is asked for.
\<close>

theorem upgrade_touches:
  assumes "upgrade uenv = (ls, res)" "ur \<in> set ls" "urloop_update env ur = (s, fin)"
    and "answers_kept env" "arranges (rr_order env)" "mget ur k = Some item"
  shows "(mget (ur_ur s) k = None \<longleftrightarrow> (\<exists>j < 5. upgraded env j item)) \<and>
    (\<forall>j < 5. (\<forall>i < j. \<not> upgraded env i item) \<longrightarrow> sent_object env j item \<in> set (ur_sent s)) \<and>
    (\<forall>w \<in> set (ur_sent s). \<exists>k item. mget ur k = Some item \<and> (\<exists>j < 5. w = sent_object env j item)) \<and>
    (fin \<longleftrightarrow> ur_ur s = [])"
proof -
  obtain items where u: "ur = updateResources items" using upgrade_listed [OF assms(1,2)] by (auto simp: loop_listed_def)
  note B = urloop_backoff [OF assms(4)]
  let ?s = "\<lparr>ur_ur = ur, ur_sent = []\<rparr>"
  have g: "backoff.goods ur_ur (\<lambda>k v. GetUniqueKey v = k) ?s"
    using updateResources_props(1,2) by (simp add: backoff.goods_def [OF B] u)
  have ne: "ur_ur ?s \<noteq> []" using assms(6) by auto
  have st: "\<not> (\<lambda>_ _. False) n j" for n :: nat and j :: KindVersionResource by simp
  note R = backoff.rounds_settle [OF B st assms(5) g assms(3) [unfolded urloop_update_def] ne]
  have se: "backoff.settles ur_ur ur_sent (\<lambda>n k. upgraded env n) (\<lambda>n k v. {sent_object env n v}) 5 0 k item s"
    using R assms(6) by simp
  note st5 = se [unfolded backoff.settles_def [OF B] add_0]
  have "sent_object env j item \<in> set (ur_sent s)" if j: "j < 5" "\<forall>i < j. \<not> upgraded env i item" for j
    using st5
  proof (elim disjE conjE exE)
    fix i assume i: "upgraded env i item" "\<forall>h \<le> i. {sent_object env h item} \<subseteq> set (ur_sent s)"
    then have "j \<le> i" using j(2) by (metis linorder_not_le)
    then show ?thesis using i(2) by blast
  qed (use j(1) in blast)
  moreover have "mget (ur_ur s) k = None \<longleftrightarrow> (\<exists>j < 5. upgraded env j item)" using st5 by auto
  moreover have "\<forall>w \<in> set (ur_sent s). \<exists>k item. mget ur k = Some item \<and> (\<exists>j < 5. w = sent_object env j item)"
    using R by fastforce
  ultimately show ?thesis using R by blast
qed

theorem upgrade_touches_witness:
  "let (s, fin) = urloop_update ex_upgrade_loop (updateResources [ex_old_constraint])
   in fin \<and> ur_ur s = [] \<and> ex_old_constraint \<in> set (ur_sent s)"
proof -
  let ?ur = "updateResources [ex_old_constraint]" and ?k = "GetUniqueKey ex_old_constraint"
  obtain s fin where r: "urloop_update ex_upgrade_loop ?ur = (s, fin)" by (metis surj_pair)
  have m: "?ur \<in> set (fst (upgrade ex_upgrade_env))" by code_simp
  have e: "answers_kept ex_upgrade_loop" "arranges (rr_order ex_upgrade_loop)" "mget ?ur ?k = Some ex_old_constraint"
    "sent_object ex_upgrade_loop 0 ex_old_constraint = ex_old_constraint"
    by (auto simp: ex_upgrade_loop_def answers_kept_def arranges_def updateResources_def sent_object_def split: if_splits)
  have "ex_old_constraint \<in> set (ur_sent s) \<and> (fin \<longleftrightarrow> ur_ur s = [])"
    using upgrade_touches [OF prod.collapse [symmetric] m r e(1-3)] e(4)
    by (metis not_less_zero zero_less_numeral)
  moreover have "ur_ur (fst (urloop_update ex_upgrade_loop ?ur)) = []" by code_simp
  ultimately show ?thesis using r by simp
qed

text \<open>A resource that cannot be read, for instance because it was deleted, is written all the same in
  every round, from the copy of the listing, and it stays until the rounds are used up.\<close>

lemma failed_get_still_updates:
  "let env = \<lparr>rr_order = (\<lambda>_ ks. ks), rr_Get = (\<lambda>_ _. Inl ''not found''), rr_Update = (\<lambda>_ ob. Inr ob)\<rparr>;
       (s, fin) = urloop_update env (updateResources [ex_old_constraint])
   in ur_sent s = replicate 5 ex_old_constraint \<and> ur_ur s \<noteq> [] \<and> \<not> fin"
  by code_simp

end
