(* ===== verification/Gktest.thy ===== *)
theory Gktest
  imports Opa_Client Gk_Util
begin

text \<open>
  The command \<open>gator test\<close> (\<open>cmd/gator/test\<close>) and the package behind it (\<open>pkg/gktest\<close>): the suites of
  tests below a path are collected and read, and the runner instantiates the template and the
  constraint of every test in a client of its own. A file system is a tree of files, read with the
  rules of \<open>io/fs\<close>; YAML and the conversions of the scheme are parameters.
\<close>

section \<open>File systems\<close>

text \<open>A file with its contents or the error of reading it, and a directory with its entries in the order
  of their names, or the error of reading it.\<close>

datatype fsnode =
    FileOk string
  | FileErr string
  | DirOk "(string \<times> fsnode) list"
  | DirErr string

definition IsDir :: "fsnode \<Rightarrow> bool" where
  "IsDir d = (case d of FileOk _ \<Rightarrow> False | FileErr _ \<Rightarrow> False | DirOk _ \<Rightarrow> True | DirErr _ \<Rightarrow> True)"

text \<open>\<open>fs.ValidPath\<close>: every method of a file system rejects other names.\<close>

definition ValidPath :: "string \<Rightarrow> bool" where
  "ValidPath name \<longleftrightarrow> valid_utf8 name \<and>
     (name = ''.'' \<or> list_all (\<lambda>e. e \<noteq> [] \<and> e \<noteq> ''.'' \<and> e \<noteq> ''..'') (Split name (CHR ''/'')))"

fun fs_find :: "string list \<Rightarrow> fsnode \<Rightarrow> fsnode option" where
  "fs_find [] d = Some d"
| "fs_find (e # es) (DirOk ds) = (case map_of ds e of Some d \<Rightarrow> fs_find es d | None \<Rightarrow> None)"
| "fs_find (e # es) _ = None"

definition fs_Stat :: "fsnode \<Rightarrow> string \<Rightarrow> string + fsnode" where
  "fs_Stat f name =
     (if \<not> ValidPath name then Inl ''invalid argument''
      else (case fs_find (if name = ''.'' then [] else Split name (CHR ''/'')) f of
         None \<Rightarrow> Inl ''file does not exist''
       | Some d \<Rightarrow> Inr d))"

definition fs_ReadFile :: "fsnode \<Rightarrow> string \<Rightarrow> string + string" where
  "fs_ReadFile f name =
     (case fs_Stat f name of
        Inl err \<Rightarrow> Inl err
      | Inr (FileOk b) \<Rightarrow> Inr b
      | Inr (FileErr err) \<Rightarrow> Inl err
      | Inr _ \<Rightarrow> Inl ''is a directory'')"

definition fs_ReadDir :: "fsnode \<Rightarrow> string \<Rightarrow> string + (string \<times> fsnode) list" where
  "fs_ReadDir f name =
     (case fs_Stat f name of
        Inl err \<Rightarrow> Inl err
      | Inr (DirOk ds) \<Rightarrow> Inr ds
      | Inr (DirErr err) \<Rightarrow> Inl err
      | Inr _ \<Rightarrow> Inl ''not a directory'')"

text \<open>\<open>filepath.Ext\<close>: from the last dot of the last element on.\<close>

definition Ext :: "string \<Rightarrow> string" where
  "Ext p =
     (let base = takeWhile (\<lambda>c. c \<noteq> CHR ''/'') (rev p)
      in if CHR ''.'' \<in> set base then CHR ''.'' # rev (takeWhile (\<lambda>c. c \<noteq> CHR ''.'') base) else [])"

text \<open>\<open>filepath.Join\<close> and \<open>path.Join\<close> of a valid path and the name of an entry.\<close>

definition Join_entry :: "string \<Rightarrow> string \<Rightarrow> string" where
  "Join_entry p name = (if p = ''.'' then name else p @ ''/'' @ name)"

section \<open>Suites\<close>

text \<open>A case has no fields yet.\<close>

datatype Case = Case

record gktest_Test =
  te_Template :: string
  te_Constraint :: string
  te_Cases :: "Case list"

record Suite =
  su_Name :: string
  su_Tests :: "gktest_Test list"

datatype GktestErr =
    ErrNoFileSystem
  | ErrNoTarget
  | FsErr string
  | ErrUnsupportedExtension string
  | ErrInvalidYAML string string
  | ErrNotADirectory string
  | SuiteErr string string
  | ErrNotATemplate string
  | ErrNotAConstraint
  | ErrAddingTemplate string
  | ErrAddingConstraint string
  | ErrInvalidSuite string
  | ErrCreatingClient string
  | ConversionErr string

text \<open>YAML as a map of fields and as a suite; the version of a template in the scheme, JSON and the conversion.\<close>

record YamlEnv =
  gy_object :: "string \<Rightarrow> string + object"
  gy_suite :: "string \<Rightarrow> string + Suite"
  gy_New :: "GVK \<Rightarrow> string option"
  gy_MarshalJSON :: "object \<Rightarrow> string + string"
  gy_Unmarshal :: "GVK \<Rightarrow> string \<Rightarrow> string + object"
  gy_Convert :: "object \<Rightarrow> string + Template"

section \<open>Reading suites\<close>

definition isYAMLFile :: "string \<times> fsnode \<Rightarrow> bool" where
  "isYAMLFile d = (if IsDir (snd d) then False else Ext (fst d) = ''.yaml'' \<or> Ext (fst d) = ''.yml'')"

text \<open>A list of files is grown in place.\<close>

definition addFile :: "string \<Rightarrow> string list \<Rightarrow> string list \<times> GktestErr option" where
  "addFile target l =
     (if Ext target \<noteq> ''.yaml'' \<and> Ext target \<noteq> ''.yml'' then (l, Some (ErrUnsupportedExtension (Ext target)))
      else (l @ [target], None))"

definition walkEntry :: "string \<Rightarrow> string \<times> fsnode \<Rightarrow> GktestErr option \<Rightarrow> string list \<Rightarrow> string list \<times> GktestErr option" where
  "walkEntry path d err l =
     (case err of
        Some err \<Rightarrow> (l, Some err)
      | None \<Rightarrow> ((if isYAMLFile d then l @ [path] else l), None))"

fun addEntries :: "string \<Rightarrow> (string \<times> fsnode) list \<Rightarrow> string list \<Rightarrow> string list \<times> GktestErr option" where
  "addEntries target [] l = (l, None)"
| "addEntries target (entry # entries) l =
     (case walkEntry (Join_entry target (fst entry)) entry None l of
        (l, Some err) \<Rightarrow> (l, Some err)
      | (l, None) \<Rightarrow> addEntries target entries l)"

definition addDirectory :: "fsnode \<Rightarrow> string \<Rightarrow> string list \<Rightarrow> string list \<times> GktestErr option" where
  "addDirectory f target l =
     (case fs_ReadDir f target of
        Inl err \<Rightarrow> (l, Some (FsErr err))
      | Inr entries \<Rightarrow> addEntries target entries l)"

text \<open>\<open>fs.WalkDir\<close> with \<open>walkEntry\<close>: a directory that cannot be read is handed over again with the error.\<close>

fun walkDir :: "string \<Rightarrow> string \<Rightarrow> fsnode \<Rightarrow> string list \<Rightarrow> string list \<times> GktestErr option"
  and walkDirs :: "string \<Rightarrow> (string \<times> fsnode) list \<Rightarrow> string list \<Rightarrow> string list \<times> GktestErr option" where
  "walkDir path name (DirOk ds) l =
     (case walkEntry path (name, DirOk ds) None l of
        (l, Some err) \<Rightarrow> (l, Some err)
      | (l, None) \<Rightarrow> walkDirs path ds l)"
| "walkDir path name (DirErr err) l =
     (case walkEntry path (name, DirErr err) None l of
        (l, Some err) \<Rightarrow> (l, Some err)
      | (l, None) \<Rightarrow> walkEntry path (name, DirErr err) (Some (FsErr err)) l)"
| "walkDir path name d l = walkEntry path (name, d) None l"
| "walkDirs path [] l = (l, None)"
| "walkDirs path ((name, d) # ds) l =
     (case walkDir (Join_entry path name) name d l of
        (l, Some err) \<Rightarrow> (l, Some err)
      | (l, None) \<Rightarrow> walkDirs path ds l)"

definition WalkDir :: "fsnode \<Rightarrow> string \<Rightarrow> string list \<Rightarrow> string list \<times> GktestErr option" where
  "WalkDir f target l =
     (case fs_Stat f target of
        Inl err \<Rightarrow> walkEntry target (target, FileErr err) (Some (FsErr err)) l
      | Inr d \<Rightarrow> walkDir target target d l)"

text \<open>A file that does not hold a suite is none, without an error.\<close>

definition readSuite :: "YamlEnv \<Rightarrow> fsnode \<Rightarrow> string \<Rightarrow> GktestErr + Suite option" where
  "readSuite env f path =
     (case fs_ReadFile f path of
        Inl err \<Rightarrow> Inl (FsErr err)
      | Inr b \<Rightarrow>
          (case gy_object env b of
             Inl err \<Rightarrow> Inl (ErrInvalidYAML path err)
           | Inr u \<Rightarrow>
               if gvk_Group (GroupVersionKind u) \<noteq> ''test.gatekeeper.sh'' \<or> gvk_Kind (GroupVersionKind u) \<noteq> ''Suite''
               then Inr None
               else (case gy_suite env b of
                  Inl err \<Rightarrow> Inl (SuiteErr path err)
                | Inr suite \<Rightarrow> Inr (Some suite))))"

fun readSuites :: "YamlEnv \<Rightarrow> fsnode \<Rightarrow> string list \<Rightarrow> GktestErr + Suite list" where
  "readSuites env f [] = Inr []"
| "readSuites env f (file # files) =
     (case readSuite env f file of
        Inl err \<Rightarrow> Inl err
      | Inr suite \<Rightarrow>
          (case readSuites env f files of
             Inl err \<Rightarrow> Inl err
           | Inr suites \<Rightarrow> Inr ((case suite of Some s \<Rightarrow> [s] | None \<Rightarrow> []) @ suites)))"

text \<open>The four cases of the target; the files collected before an error are dropped.\<close>

definition suite_files :: "fsnode \<Rightarrow> string \<Rightarrow> fsnode \<Rightarrow> bool \<Rightarrow> string list \<times> GktestErr option" where
  "suite_files f target stat recursive =
     (if \<not> IsDir stat \<and> \<not> recursive then addFile target []
      else if \<not> IsDir stat \<and> recursive then ([], Some (ErrNotADirectory target))
      else if IsDir stat \<and> \<not> recursive then addDirectory f target []
      else WalkDir f target [])"

definition ReadSuites :: "YamlEnv \<Rightarrow> fsnode option \<Rightarrow> string \<Rightarrow> bool \<Rightarrow> GktestErr + Suite list" where
  "ReadSuites env fo target recursive =
     (case fo of
        None \<Rightarrow> Inl ErrNoFileSystem
      | Some f \<Rightarrow>
          if target = [] then Inl ErrNoTarget
          else (case fs_Stat f target of
             Inl err \<Rightarrow> Inl (FsErr err)
           | Inr stat \<Rightarrow>
               (case suite_files f target stat recursive of
                  (_, Some err) \<Rightarrow> Inl err
                | (files, None) \<Rightarrow> readSuites env f files)))"

section \<open>Templates and constraints of a test\<close>

definition readTemplate :: "YamlEnv \<Rightarrow> fsnode \<Rightarrow> string \<Rightarrow> GktestErr + Template" where
  "readTemplate env f path =
     (case fs_ReadFile f path of
        Inl err \<Rightarrow> Inl (FsErr err)
      | Inr b \<Rightarrow>
          (case gy_object env b of
             Inl err \<Rightarrow> Inl (ErrAddingTemplate err)
           | Inr u \<Rightarrow>
               let gvk = GroupVersionKind u
               in if gvk_Group gvk \<noteq> ''templates.gatekeeper.sh'' \<or> gvk_Kind gvk \<noteq> ''ConstraintTemplate''
                  then Inl (ErrNotATemplate path)
                  else (case gy_New env gvk of
                     Some err \<Rightarrow> Inl (ErrAddingTemplate err)
                   | None \<Rightarrow>
                       (case gy_MarshalJSON env u of
                          Inl err \<Rightarrow> Inl (ConversionErr err)
                        | Inr json \<Rightarrow>
                            (case gy_Unmarshal env gvk json of
                               Inl err \<Rightarrow> Inl (ErrAddingTemplate err)
                             | Inr t \<Rightarrow>
                                 (case gy_Convert env t of
                                    Inl err \<Rightarrow> Inl (ConversionErr err)
                                  | Inr template \<Rightarrow> Inr template))))))"

definition readConstraint :: "YamlEnv \<Rightarrow> fsnode \<Rightarrow> string \<Rightarrow> GktestErr + object" where
  "readConstraint env f path =
     (case fs_ReadFile f path of
        Inl err \<Rightarrow> Inl (FsErr err)
      | Inr b \<Rightarrow>
          (case gy_object env b of
             Inl err \<Rightarrow> Inl (ErrAddingConstraint err)
           | Inr c \<Rightarrow>
               if gvk_Group (GroupVersionKind c) \<noteq> ''constraints.gatekeeper.sh'' then Inl ErrNotAConstraint
               else Inr c))"

section \<open>The filter and the runner\<close>

datatype Filter = Filter

definition NewFilter :: "string \<Rightarrow> GktestErr + Filter" where
  "NewFilter run = Inr Filter"

definition MatchesTest :: "Filter \<Rightarrow> gktest_Test \<Rightarrow> bool" where
  "MatchesTest f t = True"

definition MatchesCase :: "Filter \<Rightarrow> Case \<Rightarrow> bool" where
  "MatchesCase f c = True"

record CaseResult =
  cr_Name :: string
  cr_Error :: "GktestErr option"

record TestResult =
  tr_Name :: string
  tr_Error :: "GktestErr option"
  tr_CaseResults :: "CaseResult list"

record SuiteResult =
  sr_Path :: string
  sr_Error :: "GktestErr option"
  sr_TestResults :: "TestResult list"

definition test_error :: "GktestErr \<Rightarrow> TestResult" where
  "test_error err = \<lparr>tr_Name = [], tr_Error = Some err, tr_CaseResults = []\<rparr>"

text \<open>The runner with its file system and the client that \<open>NewClient\<close> makes; \<open>rn_Opa\<close> is what the client
  answers.\<close>

record Runner =
  rn_FS :: fsnode
  rn_NewClient :: "string + OpaClient"
  rn_Opa :: OpaEnv
  rn_Yaml :: YamlEnv

definition runCase :: "Runner \<Rightarrow> OpaClient \<Rightarrow> Case \<Rightarrow> CaseResult" where
  "runCase r client c = \<lparr>cr_Name = [], cr_Error = None\<rparr>"

definition opa_text :: "OpaErr \<Rightarrow> string" where
  "opa_text err = (case err of UnrecognizedConstraint s \<Rightarrow> s | OpaFailed s \<Rightarrow> s)"

definition runTest :: "Runner \<Rightarrow> Filter \<Rightarrow> gktest_Test \<Rightarrow> TestResult" where
  "runTest r f t =
     (case rn_NewClient r of
        Inl err \<Rightarrow> test_error (ErrCreatingClient err)
      | Inr client \<Rightarrow>
          if te_Template t = [] then test_error (ErrInvalidSuite ''missing template'')
          else (case readTemplate (rn_Yaml r) (rn_FS r) (te_Template t) of
             Inl err \<Rightarrow> test_error err
           | Inr template \<Rightarrow>
               (case AddTemplate (rn_Opa r) template client of
                  (_, Some err) \<Rightarrow> test_error (ErrAddingTemplate err)
                | (client, None) \<Rightarrow>
                    if te_Constraint t = [] then test_error (ErrInvalidSuite ''missing constraint'')
                    else (case readConstraint (rn_Yaml r) (rn_FS r) (te_Constraint t) of
                       Inl err \<Rightarrow> test_error err
                     | Inr cObj \<Rightarrow>
                         (case AddConstraint (rn_Opa r) cObj client of
                            (_, Some err) \<Rightarrow> test_error (ErrAddingConstraint (opa_text err))
                          | (client, None) \<Rightarrow>
                              \<lparr>tr_Name = [], tr_Error = None,
                               tr_CaseResults = map (\<lambda>c. if \<not> MatchesCase f c then \<lparr>cr_Name = [], cr_Error = None\<rparr>
                                 else runCase r client c) (te_Cases t)\<rparr>)))))"

definition Runner_Run :: "Runner \<Rightarrow> Filter \<Rightarrow> Suite \<Rightarrow> SuiteResult" where
  "Runner_Run r f s =
     \<lparr>sr_Path = [], sr_Error = None,
      sr_TestResults = map (\<lambda>t. if MatchesTest f t then runTest r f t
        else \<lparr>tr_Name = [], tr_Error = None, tr_CaseResults = []\<rparr>) (su_Tests s)\<rparr>"

section \<open>The command\<close>

text \<open>The failures of the command; \<open>FAIL\<close> stands for a failed test.\<close>

datatype GatorErr =
    AbsolutePath string
  | ListingTestFiles GktestErr
  | CompilingFilter GktestErr
  | FAIL

definition test_failed :: "TestResult \<Rightarrow> bool" where
  "test_failed t \<longleftrightarrow> tr_Error t \<noteq> None \<or> list_ex (\<lambda>c. cr_Error c \<noteq> None) (tr_CaseResults t)"

definition runSuites :: "Runner \<Rightarrow> Suite list \<Rightarrow> Filter \<Rightarrow> GatorErr option" where
  "runSuites r suites f =
     (if list_ex (\<lambda>s. list_ex test_failed (sr_TestResults (Runner_Run r f s))) suites then Some FAIL else None)"

text \<open>The environment: \<open>filepath.Abs\<close>, and the tree of \<open>os.DirFS("/")\<close>, the file system of every path where
  there are no volume names.\<close>

record GatorEnv =
  gt_Abs :: "string \<Rightarrow> string + string"
  gt_root :: fsnode
  gt_NewOPAClient :: "string + OpaClient"
  gt_Opa :: OpaEnv
  gt_Yaml :: YamlEnv

definition IsAbs :: "string \<Rightarrow> bool" where
  "IsAbs path = HasPrefix path ''/''"

definition gator_runE :: "GatorEnv \<Rightarrow> string \<Rightarrow> string \<Rightarrow> GatorErr option" where
  "gator_runE env run path =
     (case (if \<not> IsAbs path then gt_Abs env path else Inr path) of
        Inl err \<Rightarrow> Some (AbsolutePath err)
      | Inr path \<Rightarrow>
          (let recursive = HasSuffix path ''/...'';
               path = (if recursive then TrimSuffix path ''...'' else path);
               path = TrimSuffix path ''/''
           in case ReadSuites (gt_Yaml env) (Some (gt_root env)) path recursive of
                Inl err \<Rightarrow> Some (ListingTestFiles err)
              | Inr suites \<Rightarrow>
                  (case NewFilter run of
                     Inl err \<Rightarrow> Some (CompilingFilter err)
                   | Inr f \<Rightarrow>
                       runSuites \<lparr>rn_FS = gt_root env, rn_NewClient = gt_NewOPAClient env, rn_Opa = gt_Opa env, rn_Yaml = gt_Yaml env\<rparr>
                         suites f)))"

end
