(* ===== verification/Gktest_Properties.thy ===== *)
theory Gktest_Properties
  imports Gktest
begin

text \<open>The properties of \<open>gator test\<close>: the files that are collected, what it takes for a suite to pass, and
  that the command as it stands fails on every path.\<close>

section \<open>The files below a directory\<close>

text \<open>The names on the way to each YAML file of a tree, in the order of the walk, and whether every directory
  of the tree can be read.\<close>

fun tree_files :: "fsnode \<Rightarrow> string list list" and forest_files :: "(string \<times> fsnode) list \<Rightarrow> string list list" where
  "tree_files (DirOk ds) = forest_files ds"
| "tree_files _ = []"
| "forest_files [] = []"
| "forest_files ((n, d) # ds) =
     (if IsDir d then map ((#) n) (tree_files d) else if isYAMLFile (n, d) then [[n]] else []) @ forest_files ds"

fun tree_readable :: "fsnode \<Rightarrow> bool" and forest_readable :: "(string \<times> fsnode) list \<Rightarrow> bool" where
  "tree_readable (DirOk ds) = forest_readable ds"
| "tree_readable (DirErr _) = False"
| "tree_readable _ = True"
| "forest_readable [] = True"
| "forest_readable ((n, d) # ds) \<longleftrightarrow> tree_readable d \<and> forest_readable ds"

text \<open>The names of a directory are different, and each is the name of an element of a path.\<close>

fun tree_wf :: "fsnode \<Rightarrow> bool" and forest_wf :: "(string \<times> fsnode) list \<Rightarrow> bool" where
  "tree_wf (DirOk ds) \<longleftrightarrow> distinct (map fst ds) \<and> forest_wf ds"
| "tree_wf _ = True"
| "forest_wf [] = True"
| "forest_wf ((n, d) # ds) \<longleftrightarrow> n \<noteq> [] \<and> n \<noteq> ''.'' \<and> CHR ''/'' \<notin> set n \<and> tree_wf d \<and> forest_wf ds"

lemma not_IsDir: "\<not> IsDir d \<Longrightarrow> (\<exists>b. d = FileOk b) \<or> (\<exists>e. d = FileErr e)"
  by (cases d) (simp_all add: IsDir_def)

lemma walk_IsDir: "IsDir d \<Longrightarrow> \<not> isYAMLFile (n, d)"
  by (simp add: isYAMLFile_def)

lemma walkDir_files:
  "(tree_readable d \<longrightarrow> walkDir path name d l =
      (l @ (if IsDir d then map (foldl Join_entry path) (tree_files d) else if isYAMLFile (name, d) then [path] else []), None)) \<and>
    (\<not> tree_readable d \<longrightarrow> (\<exists>l' err. walkDir path name d l = (l', Some err)))"
  "(forest_readable ds \<longrightarrow> walkDirs path ds l = (l @ map (foldl Join_entry path) (forest_files ds), None)) \<and>
    (\<not> forest_readable ds \<longrightarrow> (\<exists>l' err. walkDirs path ds l = (l', Some err)))"
proof (induction path name d l and path ds l rule: walkDir_walkDirs.induct)
  case (1 path name ds l)
  have w: "walkEntry path (name, DirOk ds) None l = (l, None)" by (simp add: walkEntry_def isYAMLFile_def IsDir_def)
  show ?case using "1.IH" [OF w [symmetric] refl] w by (simp add: IsDir_def)
next
  case (5 path name d ds l)
  show ?case
  proof (cases "tree_readable d")
    case False
    then obtain l' err where "walkDir (Join_entry path name) name d l = (l', Some err)" using "5.IH"(1) by blast
    then show ?thesis using False by simp
  next
    case True
    let ?l = "l @ (if IsDir d then map (foldl Join_entry (Join_entry path name)) (tree_files d)
      else if isYAMLFile (name, d) then [Join_entry path name] else [])"
    have w: "walkDir (Join_entry path name) name d l = (?l, None)" using "5.IH"(1) True by blast
    have "?l @ map (foldl Join_entry path) (forest_files ds) = l @ map (foldl Join_entry path) (forest_files ((name, d) # ds))"
      by simp
    then show ?thesis using "5.IH"(2) [OF w [symmetric] refl] w True by simp
  qed
qed (simp_all add: walkEntry_def isYAMLFile_def IsDir_def)

lemma addEntries_files:
  "addEntries path ds l =
    (l @ map (foldl Join_entry path) (map (\<lambda>d. [fst d]) (filter isYAMLFile ds)), None)"
  by (induction ds arbitrary: l) (auto simp: walkEntry_def)

lemma tree_files_iff:
  "tree_wf d \<Longrightarrow> es \<in> set (tree_files d) \<longleftrightarrow>
     es \<noteq> [] \<and> (\<exists>x. fs_find es d = Some x \<and> isYAMLFile (last es, x))"
  "forest_wf ds \<Longrightarrow> distinct (map fst ds) \<Longrightarrow> es \<in> set (forest_files ds) \<longleftrightarrow>
     es \<noteq> [] \<and> (\<exists>x. fs_find es (DirOk ds) = Some x \<and> isYAMLFile (last es, x))"
proof (induction d and ds arbitrary: es and es rule: tree_files_forest_files.induct)
  case (4 n d ds)
  have wf: "tree_wf d" "forest_wf ds" "distinct (map fst ds)" "n \<notin> fst ` set ds" using "4.prems" by auto
  have tl: "es \<in> set (forest_files ds) \<longleftrightarrow> es \<noteq> [] \<and> (\<exists>x. fs_find es (DirOk ds) = Some x \<and> isYAMLFile (last es, x))"
    using "4.IH"(2) [OF wf(2,3)] .
  show ?case
  proof (cases es)
    case (Cons e es')
    have sub: "IsDir d \<Longrightarrow> es' \<in> set (tree_files d) \<longleftrightarrow>
        es' \<noteq> [] \<and> (\<exists>x. fs_find es' d = Some x \<and> isYAMLFile (last es', x))"
      using "4.IH"(1) [OF _ wf(1)] .
    show ?thesis
    proof (cases "e = n")
      case True
      have "map_of ds n = None" using wf(4) by (simp add: map_of_eq_None_iff)
      then have no: "es \<notin> set (forest_files ds)" using tl Cons True by simp
      show ?thesis
      proof (cases "IsDir d")
        case True
        then show ?thesis using no sub Cons \<open>e = n\<close> by (auto simp: walk_IsDir)
      next
        case False
        have "fs_find (x # xs) d = None" for x xs using not_IsDir [OF False] by auto
        then have "fs_find es' d = Some x \<Longrightarrow> es' = [] \<and> x = d" for x by (cases es') auto
        then show ?thesis using no Cons \<open>e = n\<close> False by auto
      qed
    next
      case False
      then have "es \<notin> (#) n ` set (tree_files d)" "es \<noteq> [n]" using Cons by auto
      then show ?thesis using tl Cons False by auto
    qed
  qed (use tl in auto)
qed (auto simp: neq_Nil_conv)

lemma tree_files_distinct:
  "tree_wf d \<Longrightarrow> distinct (tree_files d)"
  "forest_wf ds \<Longrightarrow> distinct (map fst ds) \<Longrightarrow> distinct (forest_files ds)"
proof (induction d and ds rule: tree_files_forest_files.induct)
  case (4 n d ds)
  have wf: "forest_wf ds" "distinct (map fst ds)" "n \<notin> fst ` set ds" using "4.prems" by auto
  have no: "n # es \<notin> set (forest_files ds)" for es
  proof -
    have "map_of ds n = None" using wf(3) by (simp add: map_of_eq_None_iff)
    then show ?thesis using tree_files_iff(2) [OF wf(1,2)] by simp
  qed
  then show ?case using "4.IH" "4.prems" by (auto simp: distinct_map)
qed simp_all

text \<open>Different ways to a file are different paths.\<close>

lemma segments_inj:
  "\<forall>e \<in> set es. CHR ''/'' \<notin> set e \<Longrightarrow> \<forall>e \<in> set es'. CHR ''/'' \<notin> set e \<Longrightarrow>
   concat (map ((#) (CHR ''/'')) es) = concat (map ((#) (CHR ''/'')) es') \<Longrightarrow> es = es'"
proof (induction es arbitrary: es')
  case Nil
  then show ?case by (cases es') auto
next
  case (Cons e es)
  then obtain e' es'' where es': "es' = e' # es''" by (cases es') auto
  let ?c = "\<lambda>es. concat (map ((#) (CHR ''/'')) es)"
  have eq: "e @ ?c es = e' @ ?c es''" using Cons.prems(3) es' by simp
  have t: "takeWhile (\<lambda>c. c \<noteq> CHR ''/'') (x @ ?c xs) = x" if "CHR ''/'' \<notin> set x" for x xs
  proof -
    have "takeWhile (\<lambda>c. c \<noteq> CHR ''/'') x = x" "\<forall>c \<in> set x. c \<noteq> CHR ''/''" using that by (auto simp: takeWhile_eq_all_conv)
    then show ?thesis by (cases xs) (auto simp: takeWhile_append2)
  qed
  have "e = e'" using arg_cong [OF eq, of "takeWhile (\<lambda>c. c \<noteq> CHR ''/'')"] t Cons.prems(1,2) es' by simp
  then show ?case using Cons.IH [of es''] Cons.prems(1,2) eq es' by simp
qed

lemma foldl_Join:
  "p \<noteq> ''.'' \<Longrightarrow> p \<noteq> [] \<Longrightarrow> foldl Join_entry p es = p @ concat (map ((#) (CHR ''/'')) es)"
proof (induction es arbitrary: p)
  case (Cons e es)
  have "p @ ''/'' @ e \<noteq> ''.''" using Cons.prems by (cases p) (auto simp: append_eq_Cons_conv)
  then show ?case using Cons by (simp add: Join_entry_def)
qed simp

definition elements_ok :: "string list \<Rightarrow> bool" where
  "elements_ok es \<longleftrightarrow> (\<forall>e \<in> set es. e \<noteq> [] \<and> e \<noteq> ''.'' \<and> CHR ''/'' \<notin> set e)"

lemma foldl_Join_inj:
  assumes "elements_ok es" "elements_ok es'" "es \<noteq> []" "es' \<noteq> []" "p \<noteq> []" "foldl Join_entry p es = foldl Join_entry p es'"
  shows "es = es'"
proof (cases "p = ''.''")
  case False
  then show ?thesis using assms by (intro segments_inj) (auto simp: foldl_Join elements_ok_def)
next
  case True
  obtain e xs e' ys where x: "es = e # xs" "es' = e' # ys" using assms(3,4) by (cases es; cases es') auto
  have n: "e \<noteq> ''.''" "e' \<noteq> ''.''" "e \<noteq> []" "e' \<noteq> []" using assms(1,2) x by (auto simp: elements_ok_def)
  have "concat (map ((#) (CHR ''/'')) (e # xs)) = concat (map ((#) (CHR ''/'')) (e' # ys))"
    using assms(6) x True n by (simp add: Join_entry_def foldl_Join)
  then show ?thesis using assms(1,2) x by (intro segments_inj) (auto simp: elements_ok_def)
qed

lemma fs_find_wf:
  "tree_wf d \<Longrightarrow> fs_find es d = Some x \<Longrightarrow> elements_ok es \<and> tree_wf x"
proof (induction es d rule: fs_find.induct)
  case (2 e es ds)
  obtain y where y: "map_of ds e = Some y" "fs_find es y = Some x" using "2.prems"(2) by (auto split: option.splits)
  have "forest_wf ds \<Longrightarrow> (n, z) \<in> set ds \<Longrightarrow> n \<noteq> [] \<and> n \<noteq> ''.'' \<and> CHR ''/'' \<notin> set n \<and> tree_wf z" for n z
    by (induction ds) auto
  then have "e \<noteq> [] \<and> e \<noteq> ''.'' \<and> CHR ''/'' \<notin> set e \<and> tree_wf y" using "2.prems"(1) map_of_SomeD [OF y(1)] by simp
  then show ?case using "2.IH" [OF y(1) _ y(2)] by (auto simp: elements_ok_def)
qed (auto simp: elements_ok_def)


section \<open>Reading the suites\<close>

text \<open>The ways from a directory to the YAML files of a run, in the directory itself or anywhere below.\<close>

definition yaml_below :: "fsnode \<Rightarrow> bool \<Rightarrow> string list \<Rightarrow> bool" where
  "yaml_below d recursive es \<longleftrightarrow>
     es \<noteq> [] \<and> (recursive \<or> length es = 1) \<and> 
     (\<exists>x. fs_find es d = Some x \<and> \<not> IsDir x \<and> Ext (last es) \<in> {''.yaml'', ''.yml''})"

lemma yaml_below_iff:
  "yaml_below d recursive es \<longleftrightarrow>
     es \<noteq> [] \<and> (recursive \<or> length es = 1) \<and> (\<exists>x. fs_find es d = Some x \<and> isYAMLFile (last es, x))"
  by (auto simp: yaml_below_def isYAMLFile_def)

definition run_files :: "(string \<times> fsnode) list \<Rightarrow> bool \<Rightarrow> string list list" where
  "run_files ds recursive = (if recursive then forest_files ds else map (\<lambda>d. [fst d]) (filter isYAMLFile ds))"

lemma run_files_iff:
  assumes "tree_wf (DirOk ds)"
  shows "es \<in> set (run_files ds recursive) \<longleftrightarrow> yaml_below (DirOk ds) recursive es" "distinct (run_files ds recursive)"
proof -
  have wf: "forest_wf ds" "distinct (map fst ds)" using assms by simp_all
  have one: "es \<in> set (map (\<lambda>d. [fst d]) (filter isYAMLFile ds)) \<longleftrightarrow>
      length es = 1 \<and> (\<exists>x. fs_find es (DirOk ds) = Some x \<and> isYAMLFile (last es, x))"
  proof -
    have "es \<in> set (map (\<lambda>d. [fst d]) (filter isYAMLFile ds)) \<longleftrightarrow> (\<exists>n x. es = [n] \<and> (n, x) \<in> set ds \<and> isYAMLFile (n, x))"
      by (auto simp: image_iff)
    also have "\<dots> \<longleftrightarrow> (\<exists>n x. es = [n] \<and> fs_find [n] (DirOk ds) = Some x \<and> isYAMLFile (n, x))"
    proof -
      have "fs_find [n] (DirOk ds) = Some x \<longleftrightarrow> (n, x) \<in> set ds" for n x
        by (cases "map_of ds n") (use map_of_eq_Some_iff [OF wf(2), of n x] in simp_all)
      then show ?thesis by simp
    qed
    also have "\<dots> \<longleftrightarrow> length es = 1 \<and> (\<exists>x. fs_find es (DirOk ds) = Some x \<and> isYAMLFile (last es, x))"
      by (cases es; cases "tl es") auto
    finally show ?thesis .
  qed
  show "es \<in> set (run_files ds recursive) \<longleftrightarrow> yaml_below (DirOk ds) recursive es"
  proof (cases recursive)
    case True
    then show ?thesis using tree_files_iff(2) [OF wf, of es] by (simp add: run_files_def yaml_below_iff)
  next
    case False
    then show ?thesis using one by (auto simp: run_files_def yaml_below_iff)
  qed
  have "distinct (map (\<lambda>d. [fst d]) (filter isYAMLFile ds))"
    using wf(2) by (simp add: distinct_map inj_on_def distinct_map_filter)
  then show "distinct (run_files ds recursive)" using tree_files_distinct(2) [OF wf] by (simp add: run_files_def)
qed

lemma suite_files_dir:
  assumes "fs_Stat f target = Inr (DirOk ds)"
  shows "suite_files f target (DirOk ds) recursive =
      (map (foldl Join_entry target) (run_files ds recursive), None) \<and> (recursive \<longrightarrow> forest_readable ds) \<or>
    recursive \<and> \<not> forest_readable ds \<and> (\<exists>l err. suite_files f target (DirOk ds) recursive = (l, Some err))"
  using assms walkDir_files(1) [of "DirOk ds" target target "[]"]
  by (cases recursive) (auto simp: suite_files_def IsDir_def addDirectory_def fs_ReadDir_def addEntries_files WalkDir_def run_files_def)

lemma readSuites_ok:
  "readSuites env f files = Inr suites \<longleftrightarrow>
     (\<forall>p \<in> set files. \<exists>r. readSuite env f p = Inr r) \<and>
     suites = concat (map (\<lambda>p. case readSuite env f p of Inr (Some s) \<Rightarrow> [s] | _ \<Rightarrow> []) files)"
proof (induction files arbitrary: suites)
  case (Cons p files)
  let ?c = "concat (map (\<lambda>p. case readSuite env f p of Inr (Some s) \<Rightarrow> [s] | _ \<Rightarrow> []) files)"
  show ?case
  proof (cases "readSuites env f files")
    case (Inl err)
    then have "\<not> (\<forall>p \<in> set files. \<exists>r. readSuite env f p = Inr r)" using Cons.IH [of ?c] by simp
    then show ?thesis using Inl by (auto split: sum.split)
  next
    case (Inr rest)
    then show ?thesis using Cons.IH [of rest] by (auto split: sum.split option.split)
  qed
qed auto

definition ex_suite_file :: string where
  "ex_suite_file = ''apiVersion: test.gatekeeper.sh/v1alpha1''"

definition ex_suite :: Suite where
  "ex_suite = \<lparr>su_Name = ''labels'', su_Tests = [\<lparr>te_Template = ''t.yaml'', te_Constraint = ''c.yaml'', te_Cases = [Case]\<rparr>]\<rparr>"

definition ex_tree :: fsnode where
  "ex_tree = DirOk [(''README.md'', FileOk []), (''c.yaml'', FileOk ''constraint''),
     (''sub'', DirOk [(''s.yaml'', FileOk ex_suite_file)]), (''t.yaml'', FileOk ''template'')]"

definition ex_template_object :: object where
  "ex_template_object = [(''apiVersion'', VString ''templates.gatekeeper.sh/v1beta1''), (''kind'', VString ''ConstraintTemplate'')]"

definition ex_test_constraint :: object where
  "ex_test_constraint = [(''apiVersion'', VString ''constraints.gatekeeper.sh/v1beta1''), (''kind'', VString ''labels''),
     (''metadata'', VMap [(''name'', VString ''must-have'')])]"

definition ex_test_template :: Template where
  "ex_test_template = \<lparr>ct_Kind = ''labels'', ct_Namespace = [], ct_Name = ''labels'', ct_deleting = False, tp_Spec = [], tp_UID = [], tp_Generation = 1, tp_Finalizers = []\<rparr>"

definition ex_yaml :: YamlEnv where
  "ex_yaml =
     \<lparr>gy_object = (\<lambda>b. Inr (if b = ''constraint'' then ex_test_constraint else if b = ''template'' then ex_template_object
        else [(''apiVersion'', VString ''test.gatekeeper.sh/v1alpha1''), (''kind'', VString ''Suite'')])),
      gy_suite = (\<lambda>_. Inr ex_suite), gy_New = (\<lambda>_. None), gy_MarshalJSON = (\<lambda>_. Inr []), gy_Unmarshal = (\<lambda>_ _. Inr []),
      gy_Convert = (\<lambda>_. Inr ex_test_template)\<rparr>"

text \<open>C32: Given a directory, \<open>ReadSuites\<close> reads every file of the extension \<open>.yaml\<close> or \<open>.yml\<close> in
  it, or with \<open>recursive\<close> anywhere below it, exactly once, and no other; it returns the suites among
  them. It fails exactly when one of these files cannot be read or decoded, or when, with
  \<open>recursive\<close>, a directory below cannot be listed.
\<close>

theorem suites_found:
  assumes "fs_Stat f target = Inr (DirOk ds)" "tree_wf (DirOk ds)" "target \<noteq> []"
  shows "\<exists>files. distinct files \<and> set files = foldl Join_entry target ` {es. yaml_below (DirOk ds) recursive es} \<and>
    (case ReadSuites env (Some f) target recursive of
       Inr suites \<Rightarrow> (recursive \<longrightarrow> tree_readable (DirOk ds)) \<and> (\<forall>p \<in> set files. \<exists>r. readSuite env f p = Inr r) \<and>
         suites = concat (map (\<lambda>p. case readSuite env f p of Inr (Some s) \<Rightarrow> [s] | _ \<Rightarrow> []) files)
     | Inl err \<Rightarrow> recursive \<and> \<not> tree_readable (DirOk ds) \<or> (\<exists>p \<in> set files. \<exists>err. readSuite env f p = Inl err))"
proof (intro exI conjI)
  let ?files = "map (foldl Join_entry target) (run_files ds recursive)"
  note rf = run_files_iff(1) [OF assms(2), of _ recursive] run_files_iff(2) [OF assms(2), of recursive]
  have "elements_ok es \<and> es \<noteq> []" if "es \<in> set (run_files ds recursive)" for es
    using that fs_find_wf [OF assms(2), of es] unfolding rf(1) yaml_below_iff by blast
  then have "inj_on (foldl Join_entry target) (set (run_files ds recursive))"
    using foldl_Join_inj assms(3) unfolding inj_on_def by blast
  then show "distinct ?files" using rf(2) by (simp add: distinct_map)
  show "set ?files = foldl Join_entry target ` {es. yaml_below (DirOk ds) recursive es}" using rf(1) by auto
  have r: "ReadSuites env (Some f) target recursive =
      (case suite_files f target (DirOk ds) recursive of (_, Some err) \<Rightarrow> Inl err | (files, None) \<Rightarrow> readSuites env f files)"
    using assms(1,3) by (simp add: ReadSuites_def)
  show "case ReadSuites env (Some f) target recursive of
       Inr suites \<Rightarrow> (recursive \<longrightarrow> tree_readable (DirOk ds)) \<and> (\<forall>p \<in> set ?files. \<exists>r. readSuite env f p = Inr r) \<and>
         suites = concat (map (\<lambda>p. case readSuite env f p of Inr (Some s) \<Rightarrow> [s] | _ \<Rightarrow> []) ?files)
     | Inl err \<Rightarrow> recursive \<and> \<not> tree_readable (DirOk ds) \<or> (\<exists>p \<in> set ?files. \<exists>err. readSuite env f p = Inl err)"
    using suite_files_dir [OF assms(1), of recursive]
  proof (elim disjE conjE exE)
    assume a: "suite_files f target (DirOk ds) recursive = (?files, None)" "recursive \<longrightarrow> forest_readable ds"
    show ?thesis
    proof (cases "readSuites env f ?files")
      case (Inl err)
      then have "\<not> (\<forall>p \<in> set ?files. \<exists>r. readSuite env f p = Inr r)"
        using readSuites_ok [of env f ?files] by (metis Inl_Inr_False)
      then obtain p where p: "p \<in> set ?files" "\<nexists>r. readSuite env f p = Inr r" by blast
      then have "\<exists>err. readSuite env f p = Inl err" by (cases "readSuite env f p") auto
      then show ?thesis unfolding r a(1) using Inl p(1) by auto
    next
      case (Inr suites)
      then show ?thesis unfolding r a(1) using a(2) readSuites_ok [of env f ?files suites] by simp
    qed
  next
    fix l err assume "recursive" "\<not> forest_readable ds" "suite_files f target (DirOk ds) recursive = (l, Some err)"
    then show ?thesis unfolding r by simp
  qed
qed

theorem suites_found_witness:
  "\<exists>files. set files = foldl Join_entry ''.'' ` {es. yaml_below ex_tree True es} \<and>
     concat (map (\<lambda>p. case readSuite ex_yaml ex_tree p of Inr (Some s) \<Rightarrow> [s] | _ \<Rightarrow> []) files) = [ex_suite]"
proof -
  obtain ds where ds: "ex_tree = DirOk ds" by (simp add: ex_tree_def)
  have st: "fs_Stat ex_tree ''.'' = Inr (DirOk ds)" unfolding ds [symmetric] by code_simp
  have wf: "tree_wf (DirOk ds)" unfolding ds [symmetric] by code_simp
  have r: "ReadSuites ex_yaml (Some ex_tree) ''.'' True = Inr [ex_suite]" by code_simp
  from suites_found [OF st wf, of True ex_yaml] obtain files where
    "set files = foldl Join_entry ''.'' ` {es. yaml_below (DirOk ds) True es}"
    "[ex_suite] = concat (map (\<lambda>p. case readSuite ex_yaml ex_tree p of Inr (Some s) \<Rightarrow> [s] | _ \<Rightarrow> []) files)"
    unfolding r by auto
  then show ?thesis unfolding ds [symmetric] by (intro exI [of _ files] conjI) simp_all
qed

section \<open>Running suites\<close>

text \<open>What it takes for a test to pass.\<close>

definition test_passes :: "Runner \<Rightarrow> gktest_Test \<Rightarrow> bool" where
  "test_passes r t \<longleftrightarrow> te_Template t \<noteq> [] \<and> te_Constraint t \<noteq> [] \<and>
     (\<exists>template c. readTemplate (rn_Yaml r) (rn_FS r) (te_Template t) = Inr template \<and>
        template_check (rn_Opa r) template = None \<and>
        readConstraint (rn_Yaml r) (rn_FS r) (te_Constraint t) = Inr c \<and>
        ct_Kind template = gvk_Kind (GroupVersionKind c) \<and> oe_Validate (rn_Opa r) c = None)"

lemma case_never_fails: "\<not> list_ex (\<lambda>c. cr_Error c \<noteq> None) (tr_CaseResults (runTest r f t))"
  by (simp add: runTest_def test_error_def runCase_def list_ex_iff MatchesCase_def split: sum.split option.split prod.split)

lemma AddConstraint_new:
  assumes "names_lower env" "oe_Basic env t = None"
  shows "snd (AddConstraint env c (NewOpa\<lparr>oc_templates := [(ct_Name t, t)]\<rparr>)) = None \<longleftrightarrow>
    ct_Kind t = gvk_Kind (GroupVersionKind c) \<and> oe_Validate env c = None"
proof -
  have "ct_Name t = oe_ToLower env (ct_Kind t)" using assms unfolding names_lower_def by blast
  then show ?thesis
    by (cases "ct_Kind t = gvk_Kind (GroupVersionKind c)"; cases "oe_Validate env c")
      (simp_all add: AddConstraint_def template_of_def GetTemplate_def GetConstraint_def NewOpa_def Let_def)
qed

lemma runTest_passes:
  assumes "rn_NewClient r = Inr NewOpa" "names_lower (rn_Opa r)"
  shows "tr_Error (runTest r f t) = None \<longleftrightarrow> test_passes r t"
proof (cases "te_Template t = [] \<or> te_Constraint t = []")
  case True
  then show ?thesis using assms(1)
    by (auto simp: runTest_def test_passes_def test_error_def split: sum.split option.split prod.split)
next
  case ne: False
  show ?thesis
  proof (cases "readTemplate (rn_Yaml r) (rn_FS r) (te_Template t)")
    case (Inl err)
    then show ?thesis using assms(1) ne by (simp add: runTest_def test_passes_def test_error_def)
  next
    case (Inr tmpl)
    have g: "GetTemplate (ct_Name tmpl) NewOpa = None" by (simp add: GetTemplate_def NewOpa_def)
    show ?thesis
    proof (cases "template_check (rn_Opa r) tmpl")
      case (Some err)
      then have "AddTemplate (rn_Opa r) tmpl NewOpa = (NewOpa, Some err)"
        using g by (auto simp: AddTemplate_def template_check_def split: option.splits)
      then show ?thesis using assms(1) ne Inr Some by (simp add: runTest_def test_passes_def test_error_def)
    next
      case None
      then have b: "oe_Basic (rn_Opa r) tmpl = None" and
        a: "AddTemplate (rn_Opa r) tmpl NewOpa = (NewOpa\<lparr>oc_templates := [(ct_Name tmpl, tmpl)]\<rparr>, None)"
        using g by (auto simp: AddTemplate_def template_check_def NewOpa_def split: option.splits)
      show ?thesis
      proof (cases "readConstraint (rn_Yaml r) (rn_FS r) (te_Constraint t)")
        case (Inl err)
        then show ?thesis using assms(1) ne Inr None a by (simp add: runTest_def test_passes_def test_error_def)
      next
        case c: (Inr c)
        let ?r = "AddConstraint (rn_Opa r) c (NewOpa\<lparr>oc_templates := [(ct_Name tmpl, tmpl)]\<rparr>)"
        have "tr_Error (runTest r f t) = None \<longleftrightarrow> snd ?r = None"
          using assms(1) ne Inr None a c by (cases ?r) (simp add: runTest_def test_error_def split: option.split)
        then show ?thesis using AddConstraint_new [OF assms(2) b, of c] ne Inr None c by (simp add: test_passes_def)
      qed
    qed
  qed
qed

definition ex_runner :: Runner where
  "ex_runner = \<lparr>rn_FS = ex_tree, rn_NewClient = Inr NewOpa,
     rn_Opa = \<lparr>oe_ToLower = (\<lambda>s. s), oe_Basic = (\<lambda>t. if ct_Name t = ct_Kind t then None else Some ''name''), oe_Compile = (\<lambda>_. None),
       oe_Remove = (\<lambda>_. None), oe_Validate = (\<lambda>_. None), oe_Delete = (\<lambda>_. None)\<rparr>,
     rn_Yaml = ex_yaml\<rparr>"



section \<open>The command\<close>

lemma SplitN_slash: "SplitN (CHR ''/'' # s) (CHR ''/'') (Suc (Suc n)) = [] # SplitN s (CHR ''/'') (Suc n)"
  using SplitN_sep [of "CHR ''/''" "[]" s n] by simp

lemma rooted_not_valid: "\<not> ValidPath (CHR ''/'' # s)"
  by (simp add: ValidPath_def Split_def SplitN_slash del: SplitN.simps(3))

lemma TrimSuffix_rooted: "IsAbs p \<Longrightarrow> TrimSuffix p x = [] \<or> IsAbs (TrimSuffix p x)"
  by (cases p; cases "length p - length x") (auto simp: IsAbs_def HasPrefix_def TrimSuffix_def)

lemma TrimSuffix_rooted_or: "p = [] \<or> IsAbs p \<Longrightarrow> TrimSuffix p x = [] \<or> IsAbs (TrimSuffix p x)"
  using TrimSuffix_rooted [of p x] by (auto simp: TrimSuffix_def)

definition ex_gator :: GatorEnv where
  "ex_gator = \<lparr>gt_Abs = (\<lambda>p. Inr (''/work/'' @ p)), gt_root = DirOk [(''work'', ex_tree)], gt_NewOPAClient = Inr NewOpa,
     gt_Opa = rn_Opa ex_runner, gt_Yaml = ex_yaml\<rparr>"

text \<open>C34: The command fails on every path before it reads a suite, whatever the file system holds: it
  hands the absolute path to a file system of \<open>io/fs\<close>, which takes paths without a leading slash
  only. (A path that is the root ends up empty.) \<open>filepath.Abs\<close> is documented to answer with an
  absolute path.
\<close>

theorem gator_rejects_every_path:
  assumes "\<And>p q. gt_Abs env p = Inr q \<Longrightarrow> IsAbs q"
  shows "gator_runE env run path \<in> {Some (ListingTestFiles ErrNoTarget), Some (ListingTestFiles (FsErr ''invalid argument''))} \<or>
    (\<exists>err. gator_runE env run path = Some (AbsolutePath err) \<and> gt_Abs env path = Inl err)"
proof -
  let ?p = "if \<not> IsAbs path then gt_Abs env path else Inr path"
  show ?thesis
  proof (cases ?p)
    case (Inl err)
    then show ?thesis by (auto simp: gator_runE_def split: if_splits)
  next
    case (Inr p)
    then have a: "IsAbs p" using assms by (auto split: if_splits)
    let ?r = "HasSuffix p ''/...''"
    let ?q = "TrimSuffix (if ?r then TrimSuffix p ''...'' else p) ''/''"
    have "(if ?r then TrimSuffix p ''...'' else p) = [] \<or> IsAbs (if ?r then TrimSuffix p ''...'' else p)"
      using a TrimSuffix_rooted [OF a, of "''...''"] by (cases ?r) simp_all
    then have "?q = [] \<or> IsAbs ?q" by (rule TrimSuffix_rooted_or)
    then have "?q = [] \<or> \<not> ValidPath ?q"
      using rooted_not_valid by (auto simp: IsAbs_def HasPrefix_def prefix_def)
    then have "ReadSuites (gt_Yaml env) (Some (gt_root env)) ?q ?r \<in> {Inl ErrNoTarget, Inl (FsErr ''invalid argument'')}"
      by (auto simp: ReadSuites_def fs_Stat_def)
    then show ?thesis using Inr by (auto simp: gator_runE_def Let_def)
  qed
qed

theorem gator_rejects_every_path_witness:
  "gator_runE ex_gator [] ''sub/s.yaml'' = Some (ListingTestFiles (FsErr ''invalid argument'')) \<and>
   ReadSuites ex_yaml (Some (gt_root ex_gator)) ''work/sub/s.yaml'' False = Inr [ex_suite]"
proof -
  have a: "gt_Abs ex_gator p = Inr q \<Longrightarrow> IsAbs q" for p q by (auto simp: ex_gator_def IsAbs_def HasPrefix_def)
  note g = gator_rejects_every_path [of ex_gator "[]" "''sub/s.yaml''", OF a]
  have "gator_runE ex_gator [] ''sub/s.yaml'' \<noteq> Some (ListingTestFiles ErrNoTarget)" by code_simp
  moreover have "\<nexists>err. gt_Abs ex_gator ''sub/s.yaml'' = Inl err" by (simp add: ex_gator_def)
  moreover have "ReadSuites ex_yaml (Some (gt_root ex_gator)) ''work/sub/s.yaml'' False = Inr [ex_suite]" by code_simp
  ultimately show ?thesis using g by auto
qed

end
