(* ===== verification/Mutation_Flow.thy ===== *)
theory Mutation_Flow
  imports Controller_Properties Webhook_Properties
begin

text \<open>
  From the resource to the request: what the controller of the mutators installs is what the
  mutating webhook applies. The mutation system is the state that both share.
\<close>

section \<open>What the system holds was made from resources\<close>

lemma Upsert_mutators:
  assumes "System_Upsert m s = Inr (s', e)" "valid_Mutator m" "mget (mutatorsMap s') i = Some x"
  shows "x = m \<or> mget (mutatorsMap s) i = Some x"
  using assms by (auto simp: System_Upsert_def Let_def Mutator_DeepCopy_id split: if_splits sum.splits prod.splits option.splits)

lemma Remove_mutators:
  assumes "System_Remove j s = Inr (s', e)" "mget (mutatorsMap s') i = Some x"
  shows "mget (mutatorsMap s) i = Some x"
  using assms by (auto simp: System_Remove_def Let_def split: if_splits sum.splits prod.splits)

lemma reachable_built: "reachable s \<Longrightarrow> mget (mutatorsMap s) i = Some m \<Longrightarrow> built m"
proof (induction arbitrary: m rule: reachable.induct)
  case reach_New
  then show ?case by (simp add: NewSystem_def)
next
  case (reach_Upsert s x s' e)
  then show ?case using Upsert_mutators [OF reach_Upsert(3) built_valid [OF reach_Upsert(2)] reach_Upsert.prems] by blast
next
  case (reach_Remove s j s' e)
  then show ?case using Remove_mutators [OF reach_Remove(2) reach_Remove.prems] by blast
qed

section \<open>The last mutator in the order\<close>

lemma apply_all_append:
  "apply_all sel ns (xs @ ys) obj = (case apply_all sel ns xs obj of Inl e \<Rightarrow> Inl e | Inr o1 \<Rightarrow> apply_all sel ns ys o1)"
  by (induction xs arbitrary: obj) (auto split: prod.split sum.split)

lemma apply_all_unmatched: "\<forall>m \<in> set ms. \<forall>ob. \<not> Mutator_Matches sel m ob ns \<Longrightarrow> apply_all sel ns ms obj = Inr obj"
  by (induction ms arbitrary: obj) auto

text \<open>A mutator that no matching one follows is settled on every fixed point of a pass that it matches.\<close>

lemma last_settled:
  assumes "apply_all sel ns (pre @ m # post) obj = Inr obj" "\<forall>m \<in> set post. \<forall>ob. \<not> Mutator_Matches sel m ob ns"
    and "\<forall>m \<in> set (pre @ [m]). valid_Mutator m" "wf_val (VMap obj)" "Mutator_Matches sel m obj ns"
  shows "\<exists>b. Mutator_Mutate m (Some obj) = (VMap obj, Inr b)"
proof -
  obtain ob where o: "apply_all sel ns pre obj = Inr ob" "apply_all sel ns (m # post) ob = Inr obj"
    using assms(1) by (auto simp: apply_all_append split: sum.splits)
  have v: "valid_Mutator m" using assms(3) by simp
  have wf: "wf_val (VMap ob)" using apply_all_wf [OF _ assms(4) o(1)] assms(3) by simp
  note post = apply_all_unmatched [OF assms(2)]
  show ?thesis
  proof (cases "Mutator_Matches sel m ob ns")
    case False
    then show ?thesis using o(2) post assms(5) by simp
  next
    case True
    obtain w r where wr: "Mutator_Mutate m (Some ob) = (w, r)" by (cases "Mutator_Mutate m (Some ob)")
    then obtain b where r: "r = Inr b" using o(2) True by (cases r) auto
    obtain o2 where "w = VMap o2" using mutators.mutate_map [OF v wr] by blast
    moreover from this have "o2 = obj" using o(2) True wr r post by simp
    ultimately show ?thesis using mutators.mutate_settled [OF v wf] wr r by blast
  qed
qed

lemma converge_wf:
  assumes f: "\<And>x y. wf_val (VMap x) \<Longrightarrow> f x = Inr y \<Longrightarrow> wf_val (VMap y)"
  shows "converge f original n i obj = Inr (Some ob) \<Longrightarrow> wf_val (VMap obj) \<Longrightarrow> wf_val (VMap ob)"
proof (induction n arbitrary: i obj)
  case (Suc n)
  show ?case
  proof (cases "f obj")
    case (Inr y)
    then show ?thesis using Suc f [OF Suc.prems(2) Inr] by (auto simp del: wf_val.simps split: if_splits)
  qed (use Suc.prems in simp)
qed simp

lemma System_Mutate_wf:
  assumes "reachable s" "\<not> MutationAnnotationsEnabled fl" "System_Mutate fl sel uuid s obj ns = (obj', Inr b)" "wf_val (VMap obj)"
  shows "wf_val (VMap obj')"
proof -
  note inv = reachable_inv [OF assms(1)]
  have v: "\<forall>m \<in> set (orderedMutators s). valid_Mutator m" using inv by (auto simp: sys_inv_def mget_iff_set)
  let ?c = "converge (apply_all sel ns (orderedMutators s)) obj (Suc (length (orderedMutators s))) 0 obj"
  consider "obj' = obj" | "?c = Inr (Some obj')"
    using System_Mutate_converge [where sel = sel and ns = ns and obj = obj and fl = fl and uuid = uuid, OF inv] assms(2,3)
    by (auto simp del: converge.simps split: sum.splits option.splits)
  then show ?thesis
  proof cases
    case 2
    show ?thesis by (rule converge_wf [OF _ 2 assms(4)]) (rule apply_all_wf [OF v])
  qed (use assms(4) in simp)
qed

section \<open>From the resource to the request\<close>

text \<open>The value of an \<open>Assign\<close> is in place: assigning it along its location changes nothing.\<close>

definition assigned :: "AssignMutator \<Rightarrow> object \<Rightarrow> bool" where
  "assigned am obj \<longleftrightarrow> assignAt (AssignMutator_state am) (am_path am) (VMap obj) 0 \<in> {Inr None, Inr (Some (VMap obj))}"

lemma settled_assigned:
  assumes "valid_AssignMutator am" "wf_val (VMap obj)" "Mutator_Mutate (MAssign am) (Some obj) = (VMap obj, Inr b)"
  shows "assigned am obj"
proof -
  have v: "valid_state (AssignMutator_state am)" by (rule valid_AssignMutator_state [OF assms(1)])
  have p: "ms_path (AssignMutator_state am) = am_path am" by (simp add: AssignMutator_state_def)
  have "wf_path (ms_path (AssignMutator_state am))" "ms_path (AssignMutator_state am) \<noteq> []"
    using v by (simp_all add: valid_state_def)
  from core_Mutate_eq [OF this assms(2)] show ?thesis
    using assms(3) unfolding p assigned_def
    by (auto simp: AssignMutator_Mutate_def simp del: wf_val.simps split: sum.splits option.splits)
qed

text \<open>A mutator that the system holds for a resource, and what follows it in the order.\<close>

lemma held_split:
  assumes "reachable s" "System_Get i s = Some m"
  obtains pre post where "orderedMutators s = pre @ m # post" "built m" "Mutator_ID m = i"
    "\<forall>x \<in> set post. i < Mutator_ID x" "\<forall>x \<in> set (orderedMutators s). valid_Mutator x"
proof -
  note inv = reachable_inv [OF assms(1)]
  obtain x where x: "mget (mutatorsMap s) i = Some x" "m = Mutator_DeepCopy x"
    using assms(2) by (auto simp: System_Get_def split: option.splits)
  have b: "built x" by (rule reachable_built [OF assms(1) x(1)])
  then have m: "m = x" using x(2) Mutator_DeepCopy_id [OF built_valid] by simp
  have wf: "mwf (mutatorsMap s)" and om: "orderedMutators s = map snd (mutatorsMap s)"
    and ids: "\<forall>i m. mget (mutatorsMap s) i = Some m \<longrightarrow> Mutator_ID m = i \<and> valid_Mutator m"
    using inv by (simp_all add: sys_inv_def)
  obtain us vs where s: "mutatorsMap s = us @ (i, x) # vs" using x(1) map_of_SomeD split_list by fast
  have key: "Mutator_ID y = j \<and> valid_Mutator y" if "(j, y) \<in> set (mutatorsMap s)" for j y
    using ids that wf by (simp add: mget_iff_set)
  have "i < j" if "(j, y) \<in> set vs" for j y
    using wf that unfolding s by (force simp: mwf_def sorted_wrt_append)
  then have "\<forall>y \<in> set (map snd vs). i < Mutator_ID y" using key s by fastforce
  moreover have "\<forall>y \<in> set (orderedMutators s). valid_Mutator y" using key om by fastforce
  ultimately show thesis using that [of "map snd us" "map snd vs"] om s m b ids x(1) by simp
qed



end
