(* ===== verification/Exemption.thy ===== *)
theory Exemption
  imports Config_Properties Webhook_Properties Audit_Properties Support_Properties
begin

text \<open>
  Exempt namespaces, from the \<open>Config\<close> resource to the processes that follow it: the reconciliation
  installs the excluder that the webhooks, the audit and the synchronisation consult.
\<close>

text \<open>The entries of a \<open>Config\<close> exempt a namespace from a process; \<open>*\<close> stands for three of them.\<close>

definition exempt :: "MatchEntry list \<Rightarrow> Process \<Rightarrow> string \<Rightarrow> bool" where
  "exempt entries p ns \<longleftrightarrow>
     (\<exists>e \<in> set entries. \<exists>op \<in> set (me_Processes e). \<exists>k \<in> set (me_ExcludedNamespaces e).
        (op = p \<and> op \<noteq> ''*'' \<or> op = ''*'' \<and> p \<in> {''audit'', ''webhook'', ''sync''}) \<and> Wildcard_Matches k ns)"

definition namespace_of :: "object \<Rightarrow> string" where
  "namespace_of obj = (if gvk_Kind (GroupVersionKind obj) = ''Namespace'' \<and> gvk_Group (GroupVersionKind obj) = []
     then GetName obj else GetNamespace obj)"

lemma excluded_exempt:
  "IsNamespaceExcluded p (runtime_object obj) (Excluder_Add entries New_Excluder) = Inr (exempt entries p (namespace_of obj))"
proof -
  have "effective_namespace (runtime_object obj) = namespace_of obj"
    by (simp add: effective_namespace_def runtime_object_def namespace_of_def)
  moreover have "ro_Meta (runtime_object obj) \<noteq> None" by (simp add: runtime_object_def)
  moreover have "patterns New_Excluder p = {}" by (simp add: patterns_def New_Excluder_def)
  ultimately show ?thesis
    using excluder_exact [OF excluder_wf_New, of entries] by (simp add: exempt_def)
qed

lemma excluded_for_exempt:
  assumes "processExcluder h = Excluder_Add entries New_Excluder" "dec_Unstructured h (rq_Object q) = Inr obj"
  shows "excluded_for h q p \<longleftrightarrow> exempt entries p (namespace_of obj)"
proof -
  have "excluded_for h q p \<longleftrightarrow> IsNamespaceExcluded p (runtime_object obj) (processExcluder h) = Inr True"
    using assms(2) by (auto simp: excluded_for_def IsNamespaceExcluded_eq runtime_object_def)
  then show ?thesis using excluded_exempt assms(1) by simp
qed

lemma config_installs:
  assumes "config_reachable (ce_cache env) (ce_registrar env) s" "config_read env request = Some (Some i)" "\<not> ci_deleting i"
    and "config_Reconcile env request s = Some (s', err)"
  shows "ds_excluder s' = Excluder_Add (cs_Match (ci_Spec i)) New_Excluder"
    "err = None \<Longrightarrow> \<forall>p ob. mget (ds_store s') p = Some ob \<longrightarrow> \<not> sync_excluded (ds_excluder s') ob"
proof -
  obtain new stats where w: "config_wanted (Some i) = (new, Excluder_Add (cs_Match (ci_Spec i)) New_Excluder, stats)"
    using assms(3) by (simp add: config_wanted_def)
  have inv: "config_inv (ce_cache env) (ce_registrar env) s" by (rule config_reachable_inv [OF assms(1)])
  obtain t e where t: "config_apply env new (Excluder_Add (cs_Match (ci_Spec i)) New_Excluder) stats s = Some (t, e)"
    "config_inv (ce_cache env) (ce_registrar env) t" "ds_excluder t = Excluder_Add (cs_Match (ci_Spec i)) New_Excluder"
    "e = None \<Longrightarrow> config_settled (ce_registrar env) new (Excluder_Add (cs_Match (ci_Spec i)) New_Excluder) t"
    by (rule config_apply_ok [OF inv config_wanted_inv [OF w] refl refl]) blast
  have eq: "t = s'" "e = err" using assms(4) config_Reconcile_read(1) [OF assms(2) w] t(1) by simp_all
  show "ds_excluder s' = Excluder_Add (cs_Match (ci_Spec i)) New_Excluder" using t(3) eq by simp
  assume "err = None"
  then have "\<not> needsWipe s'" using t(4) eq by (simp add: config_settled_def pending_def)
  then show "\<forall>p ob. mget (ds_store s') p = Some ob \<longrightarrow> \<not> sync_excluded (ds_excluder s') ob"
    using t(2) eq by (auto simp: config_inv_def data_ok_def doc_ok_def)
qed


definition ex_exempt_env :: ConfigEnv where
  "ex_exempt_env = ex_config_env\<lparr>ce_Get := Inr (ex_config\<lparr>ci_Spec := (ci_Spec ex_config)\<lparr>cs_Match := ex_entries\<rparr>\<rparr>)\<rparr>"

definition ex_exempt_state :: ConfigState where
  "ex_exempt_state = fst (the (config_Reconcile ex_exempt_env ex_config_request ex_config_start))"


end
