(* ===== verification/Controller_Events.thy ===== *)
theory Controller_Events
  imports Controller_Facts Config_Controller
begin

text \<open>
  The registration of the controllers with the manager (the functions \<open>add\<close> of the packages under
  \<open>pkg/controller\<close>): what each of them watches, in the order of the calls of \<open>Watch\<close>, and which
  requests an event of a watched object becomes. Whether the manager makes the controller and starts
  a watch is a parameter, and so are the handlers of controller-runtime: \<open>EnqueueRequestForObject\<close>
  enqueues the object's own name, \<open>EnqueueRequestForOwner\<close> the controlling owner if it is of the
  given kind, and \<open>EnqueueRequestsFromMapFunc\<close> what the function returns. The owner kind used here
  is of the cluster's scope, so that the request has no namespace.
\<close>

section \<open>Watches\<close>

text \<open>What a handler reads of the object of an event.\<close>

record WatchedObject = ClientObject +
  wo_Labels :: "(string, string) gomap"
  wo_Controller :: "(GVK \<times> string) option"

datatype Source = KindSource GVK | ChannelSource

datatype EventHandler =
    RequestForObject
  | RequestForOwner GVK
  | RequestsFromMapFunc "WatchedObject \<Rightarrow> Request list"

type_synonym WatchCall = "Source \<times> EventHandler"

record ManagerEnv =
  mg_New :: "string \<Rightarrow> string option"
  mg_Watch :: "Source \<Rightarrow> string option"

fun handle_event :: "EventHandler \<Rightarrow> WatchedObject \<Rightarrow> Request list" where
  "handle_event RequestForObject ob = [\<lparr>req_Namespace = co_Namespace ob, req_Name = co_Name ob\<rparr>]"
| "handle_event (RequestForOwner gvk) ob =
     (case wo_Controller ob of
        None \<Rightarrow> []
      | Some (g, name) \<Rightarrow>
          if gvk_Group g = gvk_Group gvk \<and> gvk_Kind g = gvk_Kind gvk
          then [\<lparr>req_Namespace = [], req_Name = name\<rparr>] else [])"
| "handle_event (RequestsFromMapFunc f) ob = f ob"

text \<open>The watches in their order: those before a failing one have been started.\<close>

fun start_watches :: "ManagerEnv \<Rightarrow> WatchCall list \<Rightarrow> WatchCall list \<times> string option" where
  "start_watches env [] = ([], None)"
| "start_watches env (w # ws) =
     (case mg_Watch env (fst w) of
        Some err \<Rightarrow> ([], Some err)
      | None \<Rightarrow> (let (started, res) = start_watches env ws in (w # started, res)))"

definition add_controller :: "ManagerEnv \<Rightarrow> string \<Rightarrow> WatchCall list \<Rightarrow> WatchCall list \<times> string option" where
  "add_controller env ctrl ws =
     (case mg_New env ctrl of
        Some err \<Rightarrow> ([], Some err)
      | None \<Rightarrow> start_watches env ws)"

text \<open>The requests of an event of a source.\<close>

definition requests_of :: "WatchCall list \<Rightarrow> Source \<Rightarrow> WatchedObject \<Rightarrow> Request list" where
  "requests_of ws src ob = concat (map (\<lambda>(s, h). if s = src then handle_event h ob else []) ws)"

section \<open>The controllers\<close>

definition statusGVK :: "string \<Rightarrow> GVK" where
  "statusGVK kind = GVK ''status.gatekeeper.sh'' ''v1beta1'' kind"

definition crdGVK :: GVK where
  "crdGVK = GVK ''apiextensions.k8s.io'' ''v1'' ''CustomResourceDefinition''"

text \<open>The packer as a map function of watched objects.\<close>

definition pack_event :: "WatchedObject \<Rightarrow> Request list" where
  "pack_event ob = EventPackerMapFunc (Some (ClientObject.truncate ob))"

definition add_config :: "ManagerEnv \<Rightarrow> WatchCall list \<times> string option" where
  "add_config env = add_controller env ''config-controller'' [(KindSource configGVK, RequestForObject)]"

definition add_sync :: "ManagerEnv \<Rightarrow> WatchCall list \<times> string option" where
  "add_sync env = add_controller env ''sync-controller'' [(ChannelSource, RequestsFromMapFunc pack_event)]"

definition add_constraint :: "environ \<Rightarrow> ManagerEnv \<Rightarrow> WatchCall list \<times> string option" where
  "add_constraint vars env =
     add_controller env ''constraint-controller''
       [(ChannelSource, RequestsFromMapFunc pack_event),
        (KindSource (statusGVK ''ConstraintPodStatus''),
         RequestsFromMapFunc (\<lambda>ob. PodStatusToConstraintMapper vars True EventPackerMapFunc (wo_Labels ob)))]"

definition add_constraintstatus :: "environ \<Rightarrow> ManagerEnv \<Rightarrow> WatchCall list \<times> string option" where
  "add_constraintstatus vars env =
     add_controller env ''constraint-status-controller''
       [(KindSource (statusGVK ''ConstraintPodStatus''),
         RequestsFromMapFunc (\<lambda>ob. PodStatusToConstraintMapper vars False EventPackerMapFunc (wo_Labels ob))),
        (ChannelSource, RequestsFromMapFunc pack_event)]"

definition add_template :: "environ \<Rightarrow> ManagerEnv \<Rightarrow> WatchCall list \<times> string option" where
  "add_template vars env =
     add_controller env ''constrainttemplate-controller''
       [(KindSource templateGVK, RequestForObject),
        (KindSource (statusGVK ''ConstraintTemplatePodStatus''),
         RequestsFromMapFunc (\<lambda>ob. PodStatusToConstraintTemplateMapper vars True (wo_Labels ob))),
        (KindSource crdGVK, RequestForOwner templateGVK)]"

definition add_templatestatus :: "environ \<Rightarrow> ManagerEnv \<Rightarrow> WatchCall list \<times> string option" where
  "add_templatestatus vars env =
     add_controller env ''constraint-template-status-controller''
       [(KindSource (statusGVK ''ConstraintTemplatePodStatus''),
         RequestsFromMapFunc (\<lambda>ob. PodStatusToConstraintTemplateMapper vars False (wo_Labels ob))),
        (KindSource templateGVK, RequestForObject)]"

definition add_mutatorstatus :: "environ \<Rightarrow> ManagerEnv \<Rightarrow> WatchCall list \<times> string option" where
  "add_mutatorstatus vars env =
     add_controller env ''mutator-status-controller''
       [(KindSource (statusGVK ''MutatorPodStatus''),
         RequestsFromMapFunc (\<lambda>ob. PodStatusToMutatorMapper vars False [] EventPackerMapFunc (wo_Labels ob))),
        (KindSource assignGVK,
         RequestsFromMapFunc (\<lambda>ob. EventPackerMapFuncHardcodeGVK
           (GVK MutationsGroup ''v1alpha1'' ''Assign'') (ClientObject.truncate ob))),
        (KindSource assignMetadataGVK,
         RequestsFromMapFunc (\<lambda>ob. EventPackerMapFuncHardcodeGVK
           (GVK MutationsGroup ''v1alpha1'' ''AssignMetadata'') (ClientObject.truncate ob)))]"

text \<open>The controllers of the mutators are only added when the flag enables mutation.\<close>

definition add_assign :: "bool \<Rightarrow> environ \<Rightarrow> ManagerEnv \<Rightarrow> WatchCall list \<times> string option" where
  "add_assign flag vars env =
     (if \<not> flag then ([], None)
      else add_controller env ''assign-controller''
        [(KindSource assignGVK, RequestForObject),
         (KindSource (statusGVK ''MutatorPodStatus''),
          RequestsFromMapFunc (\<lambda>ob. PodStatusToMutatorMapper vars True ''Assign'' EventPackerMapFunc (wo_Labels ob)))])"

definition add_assignmetadata :: "bool \<Rightarrow> environ \<Rightarrow> ManagerEnv \<Rightarrow> WatchCall list \<times> string option" where
  "add_assignmetadata flag vars env =
     (if \<not> flag then ([], None)
      else add_controller env ''assignmetadata-controller''
        [(KindSource assignMetadataGVK, RequestForObject),
         (KindSource (statusGVK ''MutatorPodStatus''),
          RequestsFromMapFunc (\<lambda>ob. PodStatusToMutatorMapper vars True ''AssignMetadata'' EventPackerMapFunc (wo_Labels ob)))])"

text \<open>The adder of the mutator status controller: only a pod with that operation runs it.\<close>

definition Adder_Add_mutatorstatus :: "opSet \<Rightarrow> environ \<Rightarrow> ManagerEnv \<Rightarrow> WatchCall list \<times> string option" where
  "Adder_Add_mutatorstatus ops vars env =
     (if \<not> IsAssigned ''mutation-status'' ops then ([], None) else add_mutatorstatus vars env)"

section \<open>Facts\<close>

text \<open>Adding succeeds exactly if the controller is made and every watch starts, and then every watch
  has been started; otherwise those before the first that fails.\<close>

lemma start_watches_exact:
  "start_watches env ws =
    (takeWhile (\<lambda>w. mg_Watch env (fst w) = None) ws,
     case dropWhile (\<lambda>w. mg_Watch env (fst w) = None) ws of [] \<Rightarrow> None | w # _ \<Rightarrow> mg_Watch env (fst w))"
  by (induction ws) (auto split: option.splits)

lemma add_controller_ok:
  "snd (add_controller env ctrl ws) = None \<longleftrightarrow>
    mg_New env ctrl = None \<and> (\<forall>w \<in> set ws. mg_Watch env (fst w) = None)"
proof -
  have "snd (start_watches env ws) = None \<longleftrightarrow> (\<forall>w \<in> set ws. mg_Watch env (fst w) = None)"
    by (induction ws) (auto split: option.splits prod.splits)
  then show ?thesis by (simp add: add_controller_def split: option.splits)
qed

lemma add_controller_all:
  "snd (add_controller env ctrl ws) = None \<Longrightarrow> fst (add_controller env ctrl ws) = ws"
  by (simp add: add_controller_ok)
    (simp add: add_controller_def start_watches_exact takeWhile_eq_all_conv)

text \<open>Whatever the event that concerns a template, its controller is asked to reconcile the template
  by its name: the template itself, a status that this pod has written of it, and a CRD that it
  controls. A status of another pod asks for nothing.\<close>

lemma template_requests:
  assumes ok: "snd (add_template vars env) = None" and ns: "co_Namespace ob = []"
    and st: "NewConstraintTemplateStatusForPod se ops pod name = (Inr st, ops')" "wo_Labels sob = st_Labels st"
    and crd: "wo_Controller cob = Some (templateGVK, name)" and name: "co_Name ob = name"
  shows "requests_of (fst (add_template vars env)) (KindSource templateGVK) ob = [\<lparr>req_Namespace = [], req_Name = name\<rparr>]"
    and "requests_of (fst (add_template vars env)) (KindSource (statusGVK ''ConstraintTemplatePodStatus'')) sob =
      (if pod = GetPodName vars then [\<lparr>req_Namespace = [], req_Name = name\<rparr>] else [])"
    and "requests_of (fst (add_template vars env)) (KindSource crdGVK) cob = [\<lparr>req_Namespace = [], req_Name = name\<rparr>]"
proof -
  have "mget (st_Labels st) ConstraintTemplateNameLabel = Some name" "mget (st_Labels st) PodLabel = Some pod"
    using st(1) by (auto simp: NewConstraintTemplateStatusForPod_def new_status_def with_owner_def label_defs
        split: sum.splits prod.splits if_splits)
  then have l: "PodStatusToConstraintTemplateMapper vars True (wo_Labels sob) =
      (if pod = GetPodName vars then [\<lparr>req_Namespace = [], req_Name = name\<rparr>] else [])"
    by (simp add: st(2) PodStatusToConstraintTemplateMapper_def own_status_def)
  note started = add_controller_all [OF ok [unfolded add_template_def]]
  have "templateGVK \<noteq> statusGVK k" "templateGVK \<noteq> crdGVK" "statusGVK k \<noteq> crdGVK" for k
    by (simp_all add: templateGVK_def statusGVK_def crdGVK_def)
  note distinct = this this(1,2,3) [symmetric]
  show "requests_of (fst (add_template vars env)) (KindSource templateGVK) ob = [\<lparr>req_Namespace = [], req_Name = name\<rparr>]"
    by (simp add: add_template_def started requests_of_def distinct ns name)
  show "requests_of (fst (add_template vars env)) (KindSource (statusGVK ''ConstraintTemplatePodStatus'')) sob =
      (if pod = GetPodName vars then [\<lparr>req_Namespace = [], req_Name = name\<rparr>] else [])"
    by (simp add: add_template_def started requests_of_def distinct l)
  show "requests_of (fst (add_template vars env)) (KindSource crdGVK) cob = [\<lparr>req_Namespace = [], req_Name = name\<rparr>]"
    by (simp add: add_template_def started requests_of_def distinct crd)
qed

text \<open>The status controller of the mutators is asked for the mutator's kind and name both by an event of
  the mutator, whose type carries no kind, and by a status of any pod.\<close>

lemma mutatorstatus_requests:
  assumes ok: "snd (add_mutatorstatus vars env) = None" and ns: "co_Namespace ob = []"
    and st: "NewMutatorStatusForPod se ops pod mID = (Inr st, ops')" "wo_Labels sob = st_Labels st"
    and kind: "(g, Kind mID) \<in> {(assignGVK, ''Assign''), (assignMetadataGVK, ''AssignMetadata'')}"
    and name: "co_Name ob = Name mID"
  shows "map UnpackRequest (requests_of (fst (add_mutatorstatus vars env)) (KindSource g) ob) =
      [Inr (GVK MutationsGroup ''v1alpha1'' (Kind mID), \<lparr>req_Namespace = [], req_Name = Name mID\<rparr>)]"
    and "map UnpackRequest (requests_of (fst (add_mutatorstatus vars env)) (KindSource (statusGVK ''MutatorPodStatus'')) sob) =
      [Inr (GVK MutationsGroup ''v1alpha1'' (Kind mID), \<lparr>req_Namespace = [], req_Name = Name mID\<rparr>)]"
proof -
  have plain: "plain_kind (Kind mID)" using kind by (auto simp: plain_kind_def)
  note unpacked = packed_back [OF plain, of MutationsGroup "''v1alpha1''" "Name mID", simplified]
  have hard: "EventPackerMapFuncHardcodeGVK (GVK MutationsGroup ''v1alpha1'' (Kind mID)) (ClientObject.truncate ob) =
      EventPackerMapFunc (Some (named_object (GVK MutationsGroup ''v1alpha1'' (Kind mID)) (Name mID)))"
    using ns name by (simp add: EventPackerMapFuncHardcodeGVK_def named_object_def ClientObject.defs)
  have "mget (st_Labels st) MutatorNameLabel = Some (Name mID)" "mget (st_Labels st) MutatorKindLabel = Some (Kind mID)"
    using st(1) by (auto simp: NewMutatorStatusForPod_def new_status_def with_owner_def label_defs
        split: sum.splits prod.splits if_splits)
  then have l: "PodStatusToMutatorMapper vars False [] EventPackerMapFunc (wo_Labels sob) =
      EventPackerMapFunc (Some (named_object (GVK MutationsGroup ''v1alpha1'' (Kind mID)) (Name mID)))"
    by (simp add: st(2) PodStatusToMutatorMapper_def own_status_def)
  note started = add_controller_all [OF ok [unfolded add_mutatorstatus_def]]
  have "assignGVK \<noteq> assignMetadataGVK" "assignGVK \<noteq> statusGVK k" "assignMetadataGVK \<noteq> statusGVK k" for k
    by (simp_all add: assignGVK_def assignMetadataGVK_def statusGVK_def)
  note distinct = this this(1,2,3) [symmetric]
  show "map UnpackRequest (requests_of (fst (add_mutatorstatus vars env)) (KindSource g) ob) =
      [Inr (GVK MutationsGroup ''v1alpha1'' (Kind mID), \<lparr>req_Namespace = [], req_Name = Name mID\<rparr>)]"
    using kind hard unpacked by (auto simp: add_mutatorstatus_def started requests_of_def distinct)
  show "map UnpackRequest (requests_of (fst (add_mutatorstatus vars env)) (KindSource (statusGVK ''MutatorPodStatus'')) sob) =
      [Inr (GVK MutationsGroup ''v1alpha1'' (Kind mID), \<lparr>req_Namespace = [], req_Name = Name mID\<rparr>)]"
    using l unpacked by (simp add: add_mutatorstatus_def started requests_of_def distinct)
qed

text \<open>Without the flag or the operation nothing is watched, and that is no error.\<close>

lemma not_added:
  "add_assign False vars env = ([], None)" "add_assignmetadata False vars env = ([], None)"
  "\<not> IsAssigned ''mutation-status'' ops \<Longrightarrow> Adder_Add_mutatorstatus ops vars env = ([], None)"
  by (simp_all add: add_assign_def add_assignmetadata_def Adder_Add_mutatorstatus_def)

text \<open>The second watch of the assign controller is the mapping of \<open>assign_status_events\<close>.\<close>

lemma add_assign_status:
  assumes "snd (add_assign True vars env) = None" and "wo_Labels ob = st_Labels st"
  shows "requests_of (fst (add_assign True vars env)) (KindSource (statusGVK ''MutatorPodStatus'')) ob =
    assign_status_events vars st"
proof -
  have "snd (add_controller env ''assign-controller''
      [(KindSource assignGVK, RequestForObject),
       (KindSource (statusGVK ''MutatorPodStatus''),
        RequestsFromMapFunc (\<lambda>ob. PodStatusToMutatorMapper vars True ''Assign'' EventPackerMapFunc (wo_Labels ob)))]) = None"
    using assms(1) by (simp add: add_assign_def)
  note started = add_controller_all [OF this]
  have distinct: "assignGVK \<noteq> statusGVK k" for k by (simp add: assignGVK_def statusGVK_def)
  show ?thesis
    by (simp add: add_assign_def started requests_of_def assign_status_events_def assms(2) distinct)
qed

end
