(* ===== verification/Pod_Getter.thy ===== *)
theory Pod_Getter
  imports Gk_Util
begin

text \<open>
  The pod of this process, fetched once and kept (\<open>defaultPodGetter\<close> of
  \<open>pkg/controller/controller.go\<close>). The reconcilers of all controllers call it at the same time: the
  kept pod is first looked at under the read lock, and again under the write lock before it is fetched.
  Each caller is modelled by the steps that it makes between the operations on the lock, and the steps
  of the callers interleave in any order. The API server is a parameter that may answer every call
  differently; a deep copy of the pod is the pod.
\<close>

section \<open>Fetching\<close>

record 'p PodServer =
  ps_GVKForObject :: "string + GVK"
  ps_Get :: "nat \<Rightarrow> GVK \<Rightarrow> string \<times> string \<Rightarrow> string + object"
  ps_Convert :: "object \<Rightarrow> string + 'p"

definition fetch_pod :: "'p PodServer \<Rightarrow> environ \<Rightarrow> nat \<Rightarrow> string + 'p" where
  "fetch_pod srv vars n =
     (let ns = util_GetNamespace vars; name = GetPodName vars in
      case ps_GVKForObject srv of
        Inl err \<Rightarrow> Inl err
      | Inr gvk \<Rightarrow>
          (case ps_Get srv n gvk (ns, name) of
             Inl err \<Rightarrow> Inl err
           | Inr uPod \<Rightarrow> ps_Convert srv uPod))"

text \<open>What one caller alone sees: the kept pod and the number of fetches so far.\<close>

definition GetPod :: "'p PodServer \<Rightarrow> environ \<Rightarrow> 'p option \<times> nat \<Rightarrow> (string + 'p) \<times> 'p option \<times> nat" where
  "GetPod srv vars g =
     (case fst g of
        Some pod \<Rightarrow> (Inr pod, g)
      | None \<Rightarrow>
          (case fetch_pod srv vars (snd g) of
             Inl err \<Rightarrow> (Inl err, None, Suc (snd g))
           | Inr pod \<Rightarrow> (Inr pod, Some pod, Suc (snd g))))"

section \<open>Callers that interleave\<close>

text \<open>Where a caller is: not in the function, past the first look (which found no pod), holding the
  write lock, or holding it with the answer of the server.\<close>

datatype 'p phase = Outside | Looked | Holding | Fetched "string + 'p"

record 'p Getter =
  pg_pod :: "'p option"
  pg_writer :: "nat option"
  pg_fetches :: nat
  pg_phase :: "nat \<Rightarrow> 'p phase"
  pg_returned :: "(nat \<times> (string + 'p)) list"

definition new_getter :: "'p Getter" where
  "new_getter = \<lparr>pg_pod = None, pg_writer = None, pg_fetches = 0, pg_phase = (\<lambda>_. Outside), pg_returned = []\<rparr>"

definition goto_phase :: "nat \<Rightarrow> 'p phase \<Rightarrow> 'p Getter \<Rightarrow> 'p Getter" where
  "goto_phase t p s = s\<lparr>pg_phase := (pg_phase s)(t := p)\<rparr>"

definition return_pod :: "nat \<Rightarrow> string + 'p \<Rightarrow> 'p Getter \<Rightarrow> 'p Getter" where
  "return_pod t r s = goto_phase t Outside s\<lparr>pg_returned := (t, r) # pg_returned s\<rparr>"

text \<open>The look under the read lock, which waits for a writer; the write lock; the second look; the
  fetch; and the assignment. The deferred unlock comes with the return.\<close>

inductive getter_step :: "'p PodServer \<Rightarrow> environ \<Rightarrow> nat \<Rightarrow> 'p Getter \<Rightarrow> 'p Getter \<Rightarrow> bool"
  for srv :: "'p PodServer" and vars :: environ and t :: nat where
  look_kept: "pg_phase s t = Outside \<Longrightarrow> pg_writer s = None \<Longrightarrow> pg_pod s = Some pod \<Longrightarrow>
    getter_step srv vars t s (return_pod t (Inr pod) s)"
| look_nil: "pg_phase s t = Outside \<Longrightarrow> pg_writer s = None \<Longrightarrow> pg_pod s = None \<Longrightarrow>
    getter_step srv vars t s (goto_phase t Looked s)"
| lock: "pg_phase s t = Looked \<Longrightarrow> pg_writer s = None \<Longrightarrow>
    getter_step srv vars t s (goto_phase t Holding s\<lparr>pg_writer := Some t\<rparr>)"
| again_kept: "pg_phase s t = Holding \<Longrightarrow> pg_pod s = Some pod \<Longrightarrow>
    getter_step srv vars t s (return_pod t (Inr pod) s\<lparr>pg_writer := None\<rparr>)"
| fetch: "pg_phase s t = Holding \<Longrightarrow> pg_pod s = None \<Longrightarrow>
    getter_step srv vars t s (goto_phase t (Fetched (fetch_pod srv vars (pg_fetches s))) s\<lparr>pg_fetches := Suc (pg_fetches s)\<rparr>)"
| failed: "pg_phase s t = Fetched (Inl err) \<Longrightarrow>
    getter_step srv vars t s (return_pod t (Inl err) s\<lparr>pg_writer := None\<rparr>)"
| keep: "pg_phase s t = Fetched (Inr pod) \<Longrightarrow>
    getter_step srv vars t s (return_pod t (Inr pod) s\<lparr>pg_pod := Some pod, pg_writer := None\<rparr>)"

inductive_cases getter_stepE: "getter_step srv vars t s s'"

inductive getter_reachable :: "'p PodServer \<Rightarrow> environ \<Rightarrow> 'p Getter \<Rightarrow> bool"
  for srv :: "'p PodServer" and vars :: environ where
  new: "getter_reachable srv vars new_getter"
| step: "getter_reachable srv vars s \<Longrightarrow> getter_step srv vars t s s' \<Longrightarrow> getter_reachable srv vars s'"

section \<open>The invariant\<close>

text \<open>Who is between the lock and the unlock holds the lock, a pending answer is the last one fetched
  while nothing is kept, and every pod returned is the kept one.\<close>

definition in_critical :: "'p phase \<Rightarrow> bool" where
  "in_critical p \<longleftrightarrow> p = Holding \<or> (\<exists>r. p = Fetched r)"

lemma in_critical_simps [simp]:
  "in_critical Holding" "in_critical (Fetched r)" "\<not> in_critical Outside" "\<not> in_critical Looked"
  by (simp_all add: in_critical_def)

definition holds_lock :: "'p Getter \<Rightarrow> bool" where
  "holds_lock s \<longleftrightarrow> (\<forall>t. in_critical (pg_phase s t) \<longleftrightarrow> pg_writer s = Some t)"

definition answer_pending :: "'p PodServer \<Rightarrow> environ \<Rightarrow> 'p Getter \<Rightarrow> bool" where
  "answer_pending srv vars s \<longleftrightarrow>
     (\<forall>t r. pg_phase s t = Fetched r \<longrightarrow> pg_pod s = None \<and> 0 < pg_fetches s \<and> r = fetch_pod srv vars (pg_fetches s - 1))"

definition returned_kept :: "'p Getter \<Rightarrow> bool" where
  "returned_kept s \<longleftrightarrow> (\<forall>t pod. (t, Inr pod) \<in> set (pg_returned s) \<longrightarrow> pg_pod s = Some pod)"

lemmas getter_defs = goto_phase_def return_pod_def

lemma holds_lock_step: "getter_step srv vars t s s' \<Longrightarrow> holds_lock s \<Longrightarrow> holds_lock s'"
proof (induction rule: getter_step.induct)
  case (lock s)
  then show ?case by (simp add: holds_lock_def getter_defs)
next
  case (fetch s)
  then have "pg_writer s = Some t" unfolding holds_lock_def by (metis in_critical_simps(1))
  with fetch show ?case by (simp add: holds_lock_def getter_defs)
next
  case (failed s err)
  then have "pg_writer s = Some t" unfolding holds_lock_def by (metis in_critical_simps(2))
  with failed show ?case by (simp add: holds_lock_def getter_defs)
next
  case (keep s pod)
  then have "pg_writer s = Some t" unfolding holds_lock_def by (metis in_critical_simps(2))
  with keep show ?case by (simp add: holds_lock_def getter_defs)
next
  case (again_kept s pod)
  then have "pg_writer s = Some t" unfolding holds_lock_def by (metis in_critical_simps(1))
  with again_kept show ?case by (simp add: holds_lock_def getter_defs)
qed (simp_all add: holds_lock_def getter_defs)

text \<open>Only the writer has an answer pending.\<close>

lemma pending_writer: "holds_lock s \<Longrightarrow> pg_phase s u = Fetched r \<Longrightarrow> in_critical (pg_phase s t) \<Longrightarrow> u = t"
  by (metis holds_lock_def in_critical_simps(2) option.inject)

lemma answer_pending_step:
  assumes "getter_step srv vars t s s'" "holds_lock s" "answer_pending srv vars s"
  shows "answer_pending srv vars s'"
proof -
  note only = pending_writer [OF assms(2), of _ _ t]
  from assms(1) show ?thesis
  proof cases
    case fetch
    then have "pg_phase s u \<noteq> Fetched r" for u r using only [of u r] by (cases "u = t") auto
    with fetch show ?thesis by (simp add: answer_pending_def getter_defs)
  next
    case (keep pod)
    then have "u \<noteq> t \<Longrightarrow> pg_phase s u \<noteq> Fetched r" for u r using only [of u r] by auto
    with keep show ?thesis by (simp add: answer_pending_def getter_defs)
  next
    case (failed err)
    then have "u \<noteq> t \<Longrightarrow> pg_phase s u \<noteq> Fetched r" for u r using only [of u r] by auto
    with failed show ?thesis by (simp add: answer_pending_def getter_defs)
  qed (use assms(3) in \<open>simp_all add: answer_pending_def getter_defs\<close>)
qed

lemma returned_kept_step:
  assumes "getter_step srv vars t s s'" "answer_pending srv vars s" "returned_kept s"
  shows "returned_kept s'"
  using assms(1)
proof cases
  case (keep pod)
  then have "pg_pod s = None" using assms(2) by (simp add: answer_pending_def)
  then have "(u, Inr p) \<notin> set (pg_returned s)" for u p using assms(3) by (auto simp: returned_kept_def)
  with keep show ?thesis by (simp add: returned_kept_def getter_defs)
qed (use assms(3) in \<open>auto simp: returned_kept_def getter_defs\<close>)

definition getter_inv :: "'p PodServer \<Rightarrow> environ \<Rightarrow> 'p Getter \<Rightarrow> bool" where
  "getter_inv srv vars s \<longleftrightarrow> holds_lock s \<and> answer_pending srv vars s \<and> returned_kept s"

lemma getter_inv_new: "getter_inv srv vars new_getter"
  by (simp add: getter_inv_def holds_lock_def answer_pending_def returned_kept_def new_getter_def)

lemma getter_inv_step: "getter_inv srv vars s \<Longrightarrow> getter_step srv vars t s s' \<Longrightarrow> getter_inv srv vars s'"
  unfolding getter_inv_def by (meson holds_lock_step answer_pending_step returned_kept_step)

lemma getter_inv_reachable: "getter_reachable srv vars s \<Longrightarrow> getter_inv srv vars s"
  by (induction rule: getter_reachable.induct) (auto intro: getter_inv_new getter_inv_step)

section \<open>What the callers see\<close>

text \<open>The state a caller alone would see: a fetch that has not returned has not happened.\<close>

definition getter_abs :: "'p Getter \<Rightarrow> 'p option \<times> nat" where
  "getter_abs s =
     (pg_pod s,
      case pg_writer s of
        None \<Rightarrow> pg_fetches s
      | Some t \<Rightarrow> (case pg_phase s t of Fetched _ \<Rightarrow> pg_fetches s - 1 | _ \<Rightarrow> pg_fetches s))"

lemma writer_of: "holds_lock s \<Longrightarrow> in_critical (pg_phase s t) \<Longrightarrow> pg_writer s = Some t"
  by (simp add: holds_lock_def)

text \<open>C40: The pod getter is linearizable: however the calls of the controllers interleave, each step
  either returns nothing and leaves what a single caller would see, or returns to its caller exactly what
  a call of \<open>GetPod\<close> by itself would return at that moment, with the state that this call would leave.\<close>

theorem getter_linearizable:
  assumes "getter_reachable srv vars s" "getter_step srv vars t s s'"
  shows "pg_returned s' = pg_returned s \<and> getter_abs s' = getter_abs s \<or>
    (\<exists>r. pg_returned s' = (t, r) # pg_returned s \<and> GetPod srv vars (getter_abs s) = (r, getter_abs s'))"
proof -
  have lock: "holds_lock s" and pend: "answer_pending srv vars s"
    using getter_inv_reachable [OF assms(1)] by (simp_all add: getter_inv_def)
  note writer = writer_of [OF lock, of t]
  from assms(2) show ?thesis
  proof cases
    case (failed err)
    then have "pg_pod s = None" "0 < pg_fetches s" "fetch_pod srv vars (pg_fetches s - 1) = Inl err"
      using pend by (auto simp: answer_pending_def)
    with failed writer show ?thesis by (simp add: getter_abs_def getter_defs GetPod_def)
  next
    case (keep pod)
    then have "pg_pod s = None" "0 < pg_fetches s" "fetch_pod srv vars (pg_fetches s - 1) = Inr pod"
      using pend by (auto simp: answer_pending_def)
    with keep writer show ?thesis by (simp add: getter_abs_def getter_defs GetPod_def)
  next
    case look_nil
    then show ?thesis by (simp add: getter_abs_def getter_defs)
  qed (use writer in \<open>simp_all add: getter_abs_def getter_defs GetPod_def split: option.splits\<close>)
qed

text \<open>Once a pod is kept, it stays and the server is not asked again; every call returns it.\<close>

lemma kept_for_good:
  assumes "getter_reachable srv vars s" "getter_step srv vars t s s'" "pg_pod s = Some pod"
  shows "pg_pod s' = Some pod \<and> pg_fetches s' = pg_fetches s"
  using assms(2)
proof cases
  case (keep p)
  then show ?thesis using getter_inv_reachable [OF assms(1)] assms(3)
    by (simp add: getter_inv_def answer_pending_def)
qed (use assms(3) in \<open>simp_all add: getter_defs\<close>)

lemma one_pod:
  assumes "getter_reachable srv vars s" "(t, Inr p) \<in> set (pg_returned s)" "(u, Inr q) \<in> set (pg_returned s)"
  shows "p = q"
proof -
  have "returned_kept s" using getter_inv_reachable [OF assms(1)] by (simp add: getter_inv_def)
  then have "pg_pod s = Some p" "pg_pod s = Some q" using assms(2,3) unfolding returned_kept_def by blast+
  then show ?thesis by simp
qed

text \<open>No caller is stuck: if it cannot step itself, then the holder of the lock can.\<close>

lemma writer_steps:
  assumes "in_critical (pg_phase s t)" shows "\<exists>s'. getter_step srv vars t s s'"
proof (cases "pg_phase s t")
  case Holding
  then show ?thesis by (cases "pg_pod s") (blast intro: getter_step.intros)+
next
  case (Fetched r)
  then show ?thesis by (cases r) (blast intro: getter_step.intros)+
qed (use assms in simp_all)

lemma no_deadlock:
  assumes "getter_reachable srv vars s"
  shows "(\<exists>s'. getter_step srv vars t s s') \<or> (\<exists>u s'. pg_writer s = Some u \<and> getter_step srv vars u s s')"
proof (cases "pg_writer s")
  case (Some u)
  then have "in_critical (pg_phase s u)"
    using getter_inv_reachable [OF assms] by (simp add: getter_inv_def holds_lock_def)
  with Some writer_steps show ?thesis by blast
next
  case None
  then have "\<not> in_critical (pg_phase s t)"
    using getter_inv_reachable [OF assms] by (simp add: getter_inv_def holds_lock_def)
  then have "pg_phase s t = Outside \<or> pg_phase s t = Looked" by (cases "pg_phase s t") simp_all
  with None show ?thesis by (cases "pg_pod s") (blast intro: getter_step.intros)+
qed

text \<open>Two callers that both find no pod: the second to get the lock returns what the first has kept.\<close>

definition ex_server :: "nat PodServer" where
  "ex_server = \<lparr>ps_GVKForObject = Inr (GVK [] ''v1'' ''Pod''), ps_Get = (\<lambda>n _ _. Inr [(''n'', VInt (of_nat n))]),
     ps_Convert = (\<lambda>_. Inr 7)\<rparr>"

definition ex_race :: "nat Getter" where
  "ex_race = goto_phase 1 (Fetched (Inr 7)) (goto_phase 2 Looked new_getter)\<lparr>pg_writer := Some 1, pg_fetches := 1\<rparr>"

lemma ex_race_reachable: "getter_reachable ex_server [] ex_race"
proof -
  let ?s1 = "goto_phase 1 Looked new_getter" and ?s2 = "goto_phase 2 Looked (goto_phase 1 Looked new_getter)"
  let ?s3 = "goto_phase 1 Holding ?s2\<lparr>pg_writer := Some 1\<rparr>"
  have f: "fetch_pod ex_server [] 0 = Inr 7" by (simp add: fetch_pod_def ex_server_def)
  have steps: "getter_step ex_server [] 1 new_getter ?s1" "getter_step ex_server [] 2 ?s1 ?s2"
    by (rule getter_step.look_nil; simp add: getter_defs new_getter_def)+
  have locked: "getter_step ex_server [] 1 ?s2 ?s3"
    by (rule getter_step.lock) (simp_all add: getter_defs new_getter_def)
  have "ex_race = goto_phase 1 (Fetched (fetch_pod ex_server [] (pg_fetches ?s3))) ?s3\<lparr>pg_fetches := Suc (pg_fetches ?s3)\<rparr>"
    by (simp add: f ex_race_def getter_defs new_getter_def fun_upd_twist)
  then have "getter_step ex_server [] 1 ?s3 ex_race"
    using getter_step.fetch [of ?s3 1 ex_server "[]"] by (simp add: getter_defs new_getter_def)
  from getter_reachable.step [OF getter_reachable.step [OF getter_reachable.step
    [OF getter_reachable.step [OF getter_reachable.new steps(1)] steps(2)] locked] this]
  show ?thesis .
qed

theorem getter_linearizable_witness:
  "GetPod ex_server [] (getter_abs ex_race) = (Inr 7, Some 7, 1)"
proof -
  let ?t = "return_pod 1 (Inr 7) ex_race\<lparr>pg_pod := Some 7, pg_writer := None\<rparr>"
  have "getter_step ex_server [] 1 ex_race ?t"
    by (rule getter_step.keep) (simp add: ex_race_def getter_defs)
  from getter_linearizable [OF ex_race_reachable this] show ?thesis
    by (simp add: getter_abs_def ex_race_def getter_defs new_getter_def)
qed

end
