(* ===== verification/Spec2Isabelle.thy ===== *)
theory Spec2Isabelle
  imports Mutation_Properties Ready_Properties Watch_Properties Support_Properties Webhook_Properties
    Config_Properties Controller_Properties Template_Properties
    Audit_Properties Upgrade_Properties Gktest_Properties Mutation_Flow Exemption
    Controller_Events Pod_Getter
begin

text \<open>
  A verification library for Gatekeeper, the policy controller for Kubernetes (the Go code
  under \<open>src/pkg\<close> and \<open>src/apis\<close>).

  \<^bold>\<open>The program.\<close> Gatekeeper is an admission webhook with a set of controllers. A request to
  the API server reaches the validating webhook, which checks Gatekeeper's own resources and
  has the OPA client review every other object, and the mutating webhook, which runs the
  active mutators over the object until nothing changes and answers with a patch. The
  controllers keep the state that the webhooks use: the mutation system holds the mutators
  and the implicit schema that keeps them from contradicting each other, the process excluder
  holds the exempt namespaces of the \<open>Config\<close> resource, the watch manager distributes the
  events of dynamically watched kinds to the registrars that want them, and the readiness
  tracker decides when everything that existed at start-up has been loaded, so that the pod
  can report that it is ready. The reconcilers of templates, constraints, mutators, synced
  objects and the \<open>Config\<close> keep the OPA client, the mutation system and the watches in step with
  the resources, and report to status resources that other reconcilers gather. The audit reviews
  what is already in the cluster and writes the violations into the constraints; the upgrade
  manager rewrites resources stored in old versions; \<open>gator test\<close> runs suites of tests offline.

  \<^bold>\<open>The theories\<close>, in the order of their imports, and the code they model:

  \<^item> \<open>Prelude\<close>, \<open>Go_Lib\<close>: Go maps as key-sorted association lists, byte strings, UTF-8, and
    the functions of Go's standard library that the sources call.
  \<^item> \<open>Path_Token\<close>, \<open>Path_Parser\<close>: the scanner and the parser of locations with their printer
    (\<open>pkg/mutation/path/token\<close>, \<open>pkg/mutation/path/parser\<close>); \<open>Path_Tester\<close>: the path tests
    (\<open>pkg/mutation/path/tester\<close>).
  \<^item> \<open>Values\<close>, \<open>Mutation_Types\<close>: unstructured values, JSON decoding, mutator IDs and kinds
    (\<open>pkg/mutation/types\<close>).
  \<^item> \<open>Schema_Node\<close>, \<open>Schema_DB\<close>: the implicit schema trees and their database
    (\<open>pkg/mutation/schema\<close>).
  \<^item> \<open>Mutation_Core\<close>, \<open>Mutation_Walk\<close>: the in-place walk along a location
    (\<open>pkg/mutation/mutators/core\<close>) and the functional assignment it refines.
  \<^item> \<open>Match\<close>, \<open>Mutators\<close>, \<open>Mutator_Facts\<close>: which objects a mutator is for
    (\<open>pkg/mutation/match\<close>), and Assign and AssignMetadata with the checks of their
    constructors (\<open>pkg/mutation/mutators\<close>, \<open>apis/mutations/v1alpha1\<close>).
  \<^item> \<open>Mutation_System\<close>, \<open>System_Facts\<close>: the ordered set of mutators and the convergence
    loop (\<open>pkg/mutation/system.go\<close>); \<open>Examples\<close>: sample objects and the behaviours that
    diverge from the code's intention; \<open>Mutation_Properties\<close>: the properties of all this.
  \<^item> \<open>Object_Tracker\<close>, \<open>Sync_Util\<close>, \<open>Ready_Tracker\<close>, \<open>Ready_Facts\<close>, \<open>Ready_Operations\<close>,
    \<open>Ready_Properties\<close>: the expectations of one kind, the helpers of \<open>pkg/syncutil\<close>, and the
    readiness tracker over a heap of shared expectation objects (\<open>pkg/readiness\<close>).
  \<^item> \<open>Watch_Set\<close>, \<open>Watch_Manager\<close>, \<open>Watch_Facts\<close>, \<open>Watch_Replay\<close>, \<open>Watch_Properties\<close>: the
    sets of kinds, the watch manager with its registrars and replays (\<open>pkg/watch\<close>).
  \<^item> \<open>Gk_Util\<close>, \<open>Operations\<close>, \<open>Excluder\<close>, \<open>Support_Properties\<close>: the helpers of \<open>pkg/util\<close>,
    the operations flag (\<open>pkg/operations\<close>) with the status resources
    (\<open>apis/status/v1beta1\<close>), and the process excluder
    (\<open>pkg/controller/config/process\<close>).
  \<^item> \<open>Webhook\<close>, \<open>Validation_Webhook\<close>, \<open>Webhook_Facts\<close>, \<open>Webhook_Properties\<close>: the three
    admission handlers (\<open>pkg/webhook\<close>).
  \<^item> \<open>Target\<close>, \<open>Sync_Controller\<close>, \<open>Config_Controller\<close>, \<open>Config_Facts\<close>, \<open>Config_Properties\<close>: the
    target handler (\<open>pkg/target\<close>), the reconcilers of synced objects and of the \<open>Config\<close> over the
    data in OPA (\<open>pkg/controller/sync\<close>, \<open>pkg/controller/config\<close>), as a transition system.
  \<^item> \<open>Status_Controllers\<close>, \<open>Mutator_Controllers\<close>, \<open>Controller_Facts\<close>, \<open>Controller_Properties\<close>: the
    reconcilers that gather statuses (\<open>pkg/controller/constraintstatus\<close>, \<open>mutatorstatus\<close>,
    \<open>constrainttemplatestatus\<close>) and those of the mutators (\<open>pkg/controller/assign\<close>,
    \<open>assignmetadata\<close>). \<open>Mutation_Flow\<close>: what the controller installs is what the webhook applies.
  \<^item> \<open>Controller_Events\<close>: the functions \<open>add\<close> of the controllers, that is which events become which
    requests. \<open>Pod_Getter\<close>: the pod that the reconcilers name as owner of their statuses
    (\<open>pkg/controller/controller.go\<close>), fetched once by callers that interleave.
  \<^item> \<open>Opa_Client\<close>, \<open>Constraint_Controller\<close>, \<open>Constraint_Facts\<close>, \<open>Template_Controller\<close>,
    \<open>Template_Facts\<close>, \<open>Template_Steps\<close>, \<open>Template_Properties\<close>: the templates and constraints of the
    OPA client, and their reconcilers (\<open>pkg/controller/constraint\<close>, \<open>constrainttemplate\<close>) over the
    watch manager, as a transition system.
  \<^item> \<open>Backoff\<close>: rounds over pending items with a bounded number of retries, as a locale.
  \<^item> \<open>Audit_Manager\<close>, \<open>Audit_Facts\<close>, \<open>Audit_Update\<close>, \<open>Audit_Properties\<close>: the audit with its paging,
    limits, status and update loop (\<open>pkg/audit\<close>).
  \<^item> \<open>Exemption\<close>: exempt namespaces, from the \<open>Config\<close> to the webhooks, the audit and the data.
  \<^item> \<open>Upgrade_Manager\<close>, \<open>Upgrade_Properties\<close>: the upgrade of stored resources (\<open>pkg/upgrade\<close>).
  \<^item> \<open>Gktest\<close>, \<open>Gktest_Properties\<close>: \<open>gator test\<close> (\<open>cmd/gator/test\<close>, \<open>pkg/gktest\<close>) over a tree of files.

  \<^bold>\<open>State and operations.\<close> Structs are records and enumerations datatypes with the source's
  constructors; a method is a function that takes its receiver and returns it updated, with
  the source's name, prefixed by its type where names clash (\<open>System_Upsert\<close>, \<open>DB_Remove\<close>,
  \<open>Excluder_Add\<close>). Errors are values of a sum or option type, panics a separate \<open>Inl\<close>,
  \<open>None\<close> or \<open>Panics\<close>. Mutexes make each critical section one step; operations with several
  critical sections are several steps (\<open>Object_Tracker\<close>, \<open>Watch_Manager\<close>, \<open>Pod_Getter\<close>), and the
  invariants are proved over arbitrary interleavings of steps (\<open>reachable\<close>, \<open>op_reachable\<close>,
  \<open>wm_reachable\<close>, the histories of an object tracker). Objects that Go shares by
  reference are entries of an explicit heap (\<open>Ready_Tracker\<close>); in-place mutation of an
  object returns the state that is left even when the operation fails (\<open>Mutation_Core\<close>).
  Integers are \<open>int\<close> or \<open>nat\<close> except where the source depends on the width: the parser's
  64-bit accumulation wraps as in Go.

  \<^bold>\<open>What the lemmas show.\<close> Mutation: parsing inverts printing; the path tests are what they
  say; the schema trees detect exactly the contradictory locations and removal undoes
  insertion; the database never panics and is clean or reports a true conflict; the walk is
  a refinement of assignment along a path that changes nothing else; every mutator is
  idempotent; the system keeps its list in ID order and \<open>Mutate\<close> ends in a fixed point.
  Readiness: the tracker says ready only when every awaited expectation was stated completely
  and met or given up, it does say so then, and never takes it back. Watches: replacing the
  watches leaves exactly the given kinds, replays are counted, and events are delivered once.
  Webhooks: the admission decision is equivalent to its declarative reading \<open>admitted\<close>, the
  response carries the messages of the violations, the mutating webhook patches to a fixed
  point and only within its scope, and only exempt namespaces carry the ignore label.
  Controllers: in every reachable state OPA holds only data of watched kinds that is not excluded,
  and every watched kind and every constraint has its template; a reconciliation of a
  template, constraint, mutator or config without an error leaves OPA, the watches and the
  statuses as the resource says, and removes everything of one that is gone; a status that this
  pod writes of a template or mutator leads to a request for it, and the pod getter is
  linearizable and never stuck. Audit: a run that
  is done has counted every result and keeps the first ones up to the limit; no kind that a
  constraint asks for is missed; a status is bounded; every constraint whose status can be
  written in one of the five rounds is. Upgrade: every listed resource is touched
  until it succeeds, at most five times. Tests: exactly the YAML files below a
  directory are read, a suite passes exactly when its templates and constraints can be
  instantiated, and the command itself rejects every path.

  \<^bold>\<open>Interfaces.\<close> The locales state what a client relies on: \<open>expectations\<close> and \<open>refs\<close> in the
  readiness theories, \<open>kind_set\<close> in \<open>Watch_Set\<close>, the mutator interface of
  \<open>Mutator_Facts\<close>, and \<open>backoff\<close>, which the update loops of the audit and of the upgrade manager
  share; each is interpreted on the model's definitions in the theory that provides them. (The
  loop of the upgrade is an instance under the assumption that the API server answers with the
  object it is asked for.)

  \<^bold>\<open>Bounds and fuel.\<close> The loop of \<open>Mutate\<close> has the code's own bound, the number of mutators
  plus one; its exhaustion is the error \<open>NotConverging\<close>. All other recursion is structural or has
  a proved measure. The watch manager is modelled while it is started; the retry loops of
  \<open>pkg/syncutil\<close> are driven by an explicit list of outcomes. The listing of a kind by the audit
  goes on while the API server answers with a token, which only the API server bounds: \<open>audit_pages\<close>
  has fuel, an audit that has not ended is \<open>None\<close>, and the results hold for every fuel with which
  it ends. The update loops have the code's own bound of five rounds.

  \<^bold>\<open>Parameters.\<close> Code outside the repository's own is an argument of the definitions: label
  selectors of apimachinery (\<open>selectors\<close>), the informer cache (\<open>cache_env\<close>), the decoders, JSON
  patch, the API server's client and the reviews of the OPA client (\<open>webhookEnv\<close>, \<open>AuditEnv\<close>), the
  compilation of templates and the validation of constraints (\<open>OpaEnv\<close>), the answers of the API server
  to the reconcilers and to each round of an update loop, YAML and the conversions of the scheme
  (\<open>YamlEnv\<close>), the order in which Go iterates over a map where it matters, \<open>strings.ToLower\<close> beyond
  ASCII and owner references (\<open>StatusEnv\<close>). The theorems hold for every value of these
  parameters unless a hypothesis says otherwise. The part of the vendored OPA client that keeps
  templates, constraints and data by name is written down from its source under \<open>vendor\<close>.

  \<^bold>\<open>Not modelled.\<close> The wiring of the controllers and webhooks (the \<open>Adder\<close> types, \<open>newReconciler\<close>,
  \<open>AddPolicyWebhook\<close>, \<open>AddToManager\<close>) and
  \<open>main.go\<close>, which only call libraries with the values of flags; the exporters of metrics and the
  stats reporters, which hand values to OpenCensus (the registries and caches that
  the values come from are modelled); log lines; the goroutines that run the loops of the managers,
  whose steps are the operations of the model; the Rego source of the target
  (\<open>pkg/target/target_template_source.go\<close>) and its constant schema (\<open>MatchSchema\<close>), which the vendored
  policy engine evaluates; the generator of the Helm chart (\<open>cmd/build/helmify\<close>), a build tool; generated
  deep copies (values of the model are immutable); tests and their clients; the vendored libraries.
\<close>

end
